(* ===== verification/Prelude.thy ===== *)
theory Prelude
  imports Complex_Main "HOL-Library.AList" "HOL-Library.Char_ord" "HOL-Library.List_Lexorder"
    "HOL-Library.Sublist" "HOL-Library.Multiset"
begin

text \<open>
  Shared vocabulary of the development.

  A Python exception is a value: every operation that can raise returns an \<open>exn + 'a\<close>,
  \<open>Inl\<close> the exception and \<open>Inr\<close> the result.  \<open>rbind\<close>, \<open>rmap_list\<close> and \<open>rfold\<close> are
  the sequencing of such operations (statement order, a list comprehension, a \<open>for\<close>
  loop that an exception leaves).  A Python dict is an association list in insertion
  order (\<open>AList.update\<close> is \<open>d[k] = v\<close>), a Python sort is \<open>sort_key\<close>, which is stable
  as Python's is.
\<close>

named_theorems res_simps \<open>rewriting of exception-valued computations\<close>
named_theorems dict_simps \<open>association lists used as Python dicts\<close>
named_theorems dec_simps \<open>decimal arithmetic\<close>

section \<open>Exceptions\<close>

text \<open>
  One constructor per exception class the modelled code raises or lets through.  The
  payload is the part of the message a caller can act on (an identifier or a machine
  readable code), never the whole text.  \<open>OutOfModel\<close> is not a Python exception: it
  marks an input the model does not cover (see the header of each theory).
\<close>

datatype exn =
    OracleError string
  | InputValidationError string
  | TableLookupError string
  | ExpressionEvaluationError string
  | ConditionEvaluationError
  | ReferenceResolutionError string
  | EffectiveDateError string
  | CalculationDateError string
  | LoweringNotSupportedError string
  | ImpactAnalysisError
  | ValidationError string
  | RuntimeConfigError "string list"
  | RateLimitConfigError string
  | RateLimitUnavailable
  | QuoteExecutionError string
  | UnknownEngineVersionError string
  | InvalidOperation
  | DecimalOverflow
  | DivisionByZero
  | TypeError
  | AttributeError string
  | ConnectorException string
  | UnclassifiedError
  | ValueError
  | KeyError string
  | LookupError string
  | RuntimeError string
  | OverflowError
  | BadZipFile
  | WorkbookRejectionError string "(string \<times> string) list list"
  | OutOfModel

type_synonym 'a res = "exn + 'a"

definition rbind :: "'a res \<Rightarrow> ('a \<Rightarrow> 'b res) \<Rightarrow> 'b res" where
  "rbind m f = (case m of Inl e \<Rightarrow> Inl e | Inr x \<Rightarrow> f x)"

definition is_ok :: "'a res \<Rightarrow> bool" where
  "is_ok r \<longleftrightarrow> (case r of Inl _ \<Rightarrow> False | Inr _ \<Rightarrow> True)"

lemma rbind_simps [simp]: "rbind (Inl e) f = Inl e" "rbind (Inr x) f = f x"
  by (simp_all add: rbind_def)

lemma is_ok_simps [simp]: "\<not> is_ok (Inl e)" "is_ok (Inr x)"
  by (simp_all add: is_ok_def)

lemma rbind_Inr_iff [res_simps]: "rbind m f = Inr y \<longleftrightarrow> (\<exists>x. m = Inr x \<and> f x = Inr y)"
  by (cases m) auto

lemma rbind_Inl_iff [res_simps]:
  "rbind m f = Inl e \<longleftrightarrow> m = Inl e \<or> (\<exists>x. m = Inr x \<and> f x = Inl e)"
  by (cases m) auto

lemma rbind_cong [fundef_cong]:
  "m = m' \<Longrightarrow> (\<And>x. m' = Inr x \<Longrightarrow> f x = f' x) \<Longrightarrow> rbind m f = rbind m' f'"
  by (cases m') auto

lemma rbind_assoc [simp]: "rbind (rbind m f) g = rbind m (\<lambda>x. rbind (f x) g)"
  by (cases m) auto

text \<open>\<open>[f(x) for x in xs]\<close>, left by the first exception.\<close>

fun rmap_list :: "('a \<Rightarrow> 'b res) \<Rightarrow> 'a list \<Rightarrow> 'b list res" where
  "rmap_list f [] = Inr []"
| "rmap_list f (x # xs) = rbind (f x) (\<lambda>y. rbind (rmap_list f xs) (\<lambda>ys. Inr (y # ys)))"

text \<open>\<open>for x in xs: s = f(x, s)\<close>, left by the first exception.\<close>

fun rfold :: "('a \<Rightarrow> 's \<Rightarrow> 's res) \<Rightarrow> 'a list \<Rightarrow> 's \<Rightarrow> 's res" where
  "rfold f [] s = Inr s"
| "rfold f (x # xs) s = rbind (f x s) (rfold f xs)"

lemma rmap_list_cong [fundef_cong]:
  "xs = ys \<Longrightarrow> (\<And>x. x \<in> set ys \<Longrightarrow> f x = g x) \<Longrightarrow> rmap_list f xs = rmap_list g ys"
  by (induction ys arbitrary: xs) auto

lemma rmap_list_InrD: "rmap_list f xs = Inr ys \<Longrightarrow> list_all2 (\<lambda>x y. f x = Inr y) xs ys"
  by (induction xs arbitrary: ys) (auto simp: res_simps)

lemma rmap_list_Inr_iff: "rmap_list f xs = Inr ys \<longleftrightarrow> list_all2 (\<lambda>x y. f x = Inr y) xs ys"
proof
  assume "list_all2 (\<lambda>x y. f x = Inr y) xs ys"
  then show "rmap_list f xs = Inr ys" by (induction) auto
qed (rule rmap_list_InrD)

lemma rmap_list_length: "rmap_list f xs = Inr ys \<Longrightarrow> length ys = length xs"
  by (drule rmap_list_InrD) (simp add: list_all2_lengthD)

text \<open>\<open>[f(x) for x in xs]\<close> where \<open>f\<close> also changes a state.\<close>

fun rmap_state :: "('a \<Rightarrow> 's \<Rightarrow> ('b \<times> 's) res) \<Rightarrow> 'a list \<Rightarrow> 's \<Rightarrow> ('b list \<times> 's) res" where
  "rmap_state f [] s = Inr ([], s)"
| "rmap_state f (x # xs) s = rbind (f x s) (\<lambda>(y, s1). rbind (rmap_state f xs s1) (\<lambda>(ys, s2). Inr (y # ys, s2)))"

lemma rmap_state_cong [fundef_cong]:
  "xs = ys \<Longrightarrow> s = t \<Longrightarrow> (\<And>x u. x \<in> set ys \<Longrightarrow> f x u = g x u) \<Longrightarrow> rmap_state f xs s = rmap_state g ys t"
proof (induction ys arbitrary: xs s t)
  case (Cons y ys)
  then have "rmap_state f ys = rmap_state g ys" by (intro ext) simp
  then show ?case using Cons.prems by simp
qed simp

lemma rfold_append: "rfold f (xs @ ys) s = rbind (rfold f xs s) (rfold f ys)"
proof (induction xs arbitrary: s)
  case (Cons x xs)
  then show ?case by (cases "f x s") auto
qed simp

text \<open>An invariant of the loop body is an invariant of the loop.\<close>

lemma rfold_invariant:
  assumes "rfold f xs s = Inr t" and "P s"
    and step: "\<And>x s s'. x \<in> set xs \<Longrightarrow> P s \<Longrightarrow> f x s = Inr s' \<Longrightarrow> P s'"
  shows "P t"
  using assms
proof (induction xs arbitrary: s)
  case (Cons x xs)
  then obtain s' where "f x s = Inr s'" "rfold f xs s' = Inr t"
    by (auto simp: res_simps)
  then show ?case
    using Cons.IH [of s'] Cons.prems(2,3) by auto
qed simp

text \<open>Python's \<open>next((x for x in xs if p(x)), None)\<close> is \<open>find\<close>.\<close>

lemma find_append:
  "find p (xs @ ys) = (case find p xs of None \<Rightarrow> find p ys | Some x \<Rightarrow> Some x)"
  by (induction xs) auto

section \<open>Dicts\<close>

type_synonym ('k, 'v) dict = "('k \<times> 'v) list"

abbreviation dget :: "('k, 'v) dict \<Rightarrow> 'k \<Rightarrow> 'v option" where
  "dget d k \<equiv> map_of d k"

abbreviation dset :: "'k \<Rightarrow> 'v \<Rightarrow> ('k, 'v) dict \<Rightarrow> ('k, 'v) dict" where
  "dset k v d \<equiv> AList.update k v d"

definition dget_default :: "('k, 'v) dict \<Rightarrow> 'k \<Rightarrow> 'v \<Rightarrow> 'v" where
  "dget_default d k x = (case dget d k of None \<Rightarrow> x | Some v \<Rightarrow> v)"

lemma dget_dset [simp, dict_simps]: "dget (dset k v d) k' = (if k' = k then Some v else dget d k')"
  by (simp add: AList.update_conv')

lemma keys_dset [dict_simps]: "fst ` set (dset k v d) = insert k (fst ` set d)"
  by (induction d) auto

lemma distinct_dset [dict_simps]:
  "distinct (map fst d) \<Longrightarrow> distinct (map fst (dset k v d))"
  by (rule AList.distinct_update)

lemma set_dset_subset: "set (dset k v d) \<subseteq> insert (k, v) (set d)"
  by (induction d) auto

text \<open>\<open>{key(x): x for x in xs}\<close>: a later element replaces an earlier one with its key.\<close>

fun index_by :: "('a \<Rightarrow> 'k) \<Rightarrow> 'a list \<Rightarrow> ('k, 'a) dict \<Rightarrow> ('k, 'a) dict" where
  "index_by key [] d = d"
| "index_by key (x # xs) d = index_by key xs (dset (key x) x d)"

lemma dget_index_by:
  "dget (index_by key xs d) k =
    (case find (\<lambda>x. key x = k) (rev xs) of None \<Rightarrow> dget d k | Some x \<Rightarrow> Some x)"
  by (induction xs arbitrary: d) (auto simp: find_append split: option.splits)

section \<open>Python's sorted(set(...))\<close>

definition sorted_set :: "'a::linorder list \<Rightarrow> 'a list" where
  "sorted_set xs = sort (remdups xs)"

lemma sorted_set_props [simp]:
  "set (sorted_set xs) = set xs" "sorted (sorted_set xs)" "distinct (sorted_set xs)"
  by (simp_all add: sorted_set_def)

section \<open>Lists\<close>

lemma find_SomeD: "find p xs = Some x \<Longrightarrow> x \<in> set xs \<and> p x"
  by (auto simp: find_Some_iff)

lemma find_unique:
  assumes "x \<in> set xs" "p x" "\<And>y. y \<in> set xs \<Longrightarrow> p y \<Longrightarrow> y = x"
  shows "find p xs = Some x"
proof (cases "find p xs")
  case None
  with assms(1,2) have False by (auto simp: find_None_iff)
  then show ?thesis ..
next
  case (Some y)
  then have "y \<in> set xs" "p y" by (auto dest: find_SomeD)
  then have "y = x" by (rule assms(3))
  with Some show ?thesis by simp
qed

lemma distinct_map_filter: "distinct (map f xs) \<Longrightarrow> distinct (map f (filter P xs))"
  by (induction xs) auto

lemma distinct_map_sort: "distinct (map f (sort_key k xs)) \<longleftrightarrow> distinct (map f xs)"
  by (metis mset_eq_imp_distinct_iff mset_map mset_sort)

lemma dget_filter:
  "distinct (map fst d) \<Longrightarrow>
     dget (filter P d) k = (case dget d k of None \<Rightarrow> None | Some v \<Rightarrow> if P (k, v) then Some v else None)"
proof (induction d)
  case (Cons x d)
  obtain j v where x: "x = (j, v)" by (cases x)
  show ?case
  proof (cases "j = k")
    case True
    then have "dget d k = None" using Cons.prems x by (auto simp: map_of_eq_None_iff)
    then show ?thesis using Cons True x by simp
  qed (use Cons x in simp)
qed simp

end
