(* ===== verification/PyDecimal.thy ===== *)
theory PyDecimal
  imports Prelude
begin

text \<open>
  Python's \<open>decimal.Decimal\<close> under the default context, as far as the program uses it:
  precision 28, rounding \<open>ROUND_HALF_EVEN\<close>, \<open>Emax = 999999\<close>, \<open>Emin = -999999\<close>, traps
  for InvalidOperation, DivisionByZero and Overflow.  A finite decimal is a sign, a
  coefficient and an exponent, so \<open>1.0\<close> and \<open>1.00\<close> are different values that compare
  equal, and \<open>-0\<close> exists.  The special values (infinities, NaNs) are not modelled:
  a string that denotes one is \<open>OutOfModel\<close>.
  Every arithmetic result is computed exactly and then rounded by \<open>dec_fix\<close>, as the
  decimal specification defines it.  \<open>dval\<close> is the rational a decimal denotes; the
  lemmas relate each operation to the arithmetic of the rationals.
\<close>

section \<open>Rounding an integer coefficient\<close>

datatype rounding_mode = HALF_UP | HALF_EVEN | FLOOR | CEILING

datatype decimal = Dec (dneg: bool) (dcoeff: nat) (dexp: int)

fun ndigits :: "nat \<Rightarrow> nat" where
  "ndigits n = (if n < 10 then 1 else Suc (ndigits (n div 10)))"

declare ndigits.simps [simp del]

text \<open>\<open>c / 10^k\<close> rounded to an integer; \<open>s\<close> is the sign of the number.\<close>

definition round_shift :: "rounding_mode \<Rightarrow> bool \<Rightarrow> nat \<Rightarrow> nat \<Rightarrow> nat" where
  "round_shift m s c k =
     (let q = c div 10 ^ k; r = c mod 10 ^ k in
      case m of
        HALF_UP \<Rightarrow> (if 10 ^ k \<le> 2 * r then Suc q else q)
      | HALF_EVEN \<Rightarrow> (if 10 ^ k < 2 * r \<or> (2 * r = 10 ^ k \<and> odd q) then Suc q else q)
      | FLOOR \<Rightarrow> (if s \<and> 0 < r then Suc q else q)
      | CEILING \<Rightarrow> (if \<not> s \<and> 0 < r then Suc q else q))"

section \<open>The context and its rounding of results\<close>

definition dec_prec :: nat where "dec_prec = 28"
definition dec_Emax :: int where "dec_Emax = 999999"
definition dec_Etiny :: int where "dec_Etiny = - 1000026"
definition dec_Etop :: int where "dec_Etop = 999972"

lemmas dec_context_defs [dec_simps] = dec_prec_def dec_Emax_def dec_Etiny_def dec_Etop_def

fun dec_fix :: "decimal \<Rightarrow> decimal res" where
  "dec_fix (Dec s c e) =
     (if c = 0 then Inr (Dec s 0 (min (max e dec_Etiny) dec_Emax))
      else
        let em = int (ndigits c) + e - int dec_prec in
        if dec_Etop < em then Inl DecimalOverflow
        else
          let em = max em dec_Etiny in
          if e < em then
            let q = round_shift HALF_EVEN s c (nat (em - e)) in
            if dec_prec < ndigits q then
              (if dec_Etop < em + 1 then Inl DecimalOverflow else Inr (Dec s (q div 10) (em + 1)))
            else Inr (Dec s q em)
          else Inr (Dec s c e))"

section \<open>Operations\<close>

definition dec_of_int :: "int \<Rightarrow> decimal" where
  "dec_of_int i = Dec (i < 0) (nat \<bar>i\<bar>) 0"

text \<open>The signed coefficient of \<open>d\<close> at exponent \<open>e \<le> dexp d\<close>.\<close>

fun dec_at :: "decimal \<Rightarrow> int \<Rightarrow> int" where
  "dec_at (Dec s c x) e = (if s then - 1 else 1) * int c * 10 ^ nat (x - e)"

definition dec_less :: "decimal \<Rightarrow> decimal \<Rightarrow> bool" where
  "dec_less a b = (let e = min (dexp a) (dexp b) in dec_at a e < dec_at b e)"

definition dec_eq :: "decimal \<Rightarrow> decimal \<Rightarrow> bool" where
  "dec_eq a b = (let e = min (dexp a) (dexp b) in dec_at a e = dec_at b e)"

definition dec_le :: "decimal \<Rightarrow> decimal \<Rightarrow> bool" where
  "dec_le a b = (\<not> dec_less b a)"

fun dec_negate :: "decimal \<Rightarrow> decimal" where
  "dec_negate (Dec s c e) = Dec (\<not> s) c e"

definition dec_exact_add :: "decimal \<Rightarrow> decimal \<Rightarrow> decimal" where
  "dec_exact_add a b =
     (let e = min (dexp a) (dexp b); v = dec_at a e + dec_at b e in
      if v = 0 then Dec (dneg a \<and> dneg b) 0 e else Dec (v < 0) (nat \<bar>v\<bar>) e)"

definition dec_add :: "decimal \<Rightarrow> decimal \<Rightarrow> decimal res" where
  "dec_add a b = dec_fix (dec_exact_add a b)"

definition dec_sub :: "decimal \<Rightarrow> decimal \<Rightarrow> decimal res" where
  "dec_sub a b = dec_add a (dec_negate b)"

fun dec_exact_mul :: "decimal \<Rightarrow> decimal \<Rightarrow> decimal" where
  "dec_exact_mul (Dec s c e) (Dec s' c' e') = Dec (s \<noteq> s') (c * c') (e + e')"

definition dec_mul :: "decimal \<Rightarrow> decimal \<Rightarrow> decimal res" where
  "dec_mul a b = dec_fix (dec_exact_mul a b)"

text \<open>Trailing zeros removed from an exact quotient, at most \<open>n\<close> of them.\<close>

fun strip_zeros :: "nat \<Rightarrow> nat \<Rightarrow> nat \<times> nat" where
  "strip_zeros n c = (if n = 0 \<or> \<not> 10 dvd c then (c, n) else strip_zeros (n - 1) (c div 10))"

declare strip_zeros.simps [simp del]

fun dec_div :: "decimal \<Rightarrow> decimal \<Rightarrow> decimal res" where
  "dec_div (Dec s c e) (Dec s' c' e') =
     (if c' = 0 then (if c = 0 then Inl InvalidOperation else Inl DivisionByZero)
      else if c = 0 then dec_fix (Dec (s \<noteq> s') 0 (e - e'))
      else
        let shift = int (ndigits c') - int (ndigits c) + int dec_prec + 1;
            n = c * 10 ^ nat shift; m = c' * 10 ^ nat (- shift);
            q = n div m in
        if n mod m \<noteq> 0 then
          dec_fix (Dec (s \<noteq> s') (if 5 dvd q then Suc q else q) (e - e' - shift))
        else
          let (q', k) = strip_zeros (nat shift) q in
          dec_fix (Dec (s \<noteq> s') q' (e - e' - (if 0 \<le> shift then int k else shift))))"

fun dec_rescale :: "rounding_mode \<Rightarrow> decimal \<Rightarrow> int \<Rightarrow> decimal" where
  "dec_rescale m (Dec s c e) x =
     (if c = 0 then Dec s 0 x
      else if x \<le> e then Dec s (c * 10 ^ nat (e - x)) x
      else Dec s (round_shift m s c (nat (x - e))) x)"

text \<open>\<open>Decimal.quantize\<close> to exponent \<open>x\<close>: more than 28 digits is InvalidOperation.\<close>

fun dec_quantize :: "rounding_mode \<Rightarrow> decimal \<Rightarrow> int \<Rightarrow> decimal res" where
  "dec_quantize m (Dec s c e) x =
     (if \<not> (dec_Etiny \<le> x \<and> x \<le> dec_Emax) then Inl InvalidOperation
      else if c = 0 then Inr (Dec s 0 x)
      else if dec_Emax < int (ndigits c) + e - 1 then Inl InvalidOperation
      else if int dec_prec < int (ndigits c) + e - x then Inl InvalidOperation
      else
        let d = dec_rescale m (Dec s c e) x in
        if dec_Emax < int (ndigits (dcoeff d)) + x - 1 then Inl InvalidOperation
        else if dec_prec < ndigits (dcoeff d) then Inl InvalidOperation
        else dec_fix d)"

definition dec_abs :: "decimal \<Rightarrow> decimal res" where
  "dec_abs d = dec_fix (Dec False (dcoeff d) (dexp d))"

definition dec_neg :: "decimal \<Rightarrow> decimal res" where
  "dec_neg d = (if dcoeff d = 0 then dec_fix (Dec False 0 (dexp d)) else dec_fix (dec_negate d))"

text \<open>Python's \<open>min\<close> and \<open>max\<close> return the first extremal argument.\<close>

definition dec_min :: "decimal \<Rightarrow> decimal \<Rightarrow> decimal" where
  "dec_min a b = (if dec_less b a then b else a)"

definition dec_max :: "decimal \<Rightarrow> decimal \<Rightarrow> decimal" where
  "dec_max a b = (if dec_less a b then b else a)"

definition dec_zero :: decimal where "dec_zero = Dec False 0 0"
definition dec_one :: decimal where "dec_one = Dec False 1 0"

lemmas dec_const_defs [dec_simps] = dec_zero_def dec_one_def

section \<open>The rational a decimal denotes\<close>

fun dval :: "decimal \<Rightarrow> rat" where
  "dval (Dec s c e) = (if s then - 1 else 1) * of_nat c * power_int 10 e"

lemma power_int_10_pos [simp]: "0 < power_int (10::rat) e"
  by (rule zero_less_power_int) simp

lemma dec_at_dval: "x \<le> dexp d \<Longrightarrow> of_int (dec_at d x) * power_int 10 x = dval d"
proof (cases d)
  case (Dec s c e)
  assume "x \<le> dexp d"
  then have "(10::rat) ^ nat (e - x) * power_int 10 x = power_int 10 e"
    using Dec power_int_add [of "10::rat" "e - x" x] by (simp add: power_int_def)
  then show ?thesis using Dec by (simp add: mult.assoc)
qed

lemma dval_less_iff_at:
  assumes "x \<le> dexp a" "x \<le> dexp b"
  shows "dval a < dval b \<longleftrightarrow> dec_at a x < dec_at b x"
proof -
  have "dval a < dval b \<longleftrightarrow>
      (of_int (dec_at a x) :: rat) * power_int 10 x < of_int (dec_at b x) * power_int 10 x"
    using assms by (simp add: dec_at_dval)
  then show ?thesis by (simp add: mult_less_cancel_right_pos)
qed

lemma dec_less_dval [simp]: "dec_less a b \<longleftrightarrow> dval a < dval b"
  by (simp add: dec_less_def Let_def dval_less_iff_at [symmetric])

lemma dec_le_dval [simp]: "dec_le a b \<longleftrightarrow> dval a \<le> dval b"
  by (simp add: dec_le_def not_less)

lemma dec_eq_dval [simp]: "dec_eq a b \<longleftrightarrow> dval a = dval b"
proof -
  let ?x = "min (dexp a) (dexp b)"
  have "dval a = dval b \<longleftrightarrow> \<not> dval a < dval b \<and> \<not> dval b < dval a" by auto
  also have "\<dots> \<longleftrightarrow> dec_at a ?x = dec_at b ?x"
    using dval_less_iff_at [of ?x a b] dval_less_iff_at [of ?x b a] by auto
  finally show ?thesis by (simp add: dec_eq_def Let_def)
qed

lemma dval_zero_coeff [simp]: "dval (Dec s 0 e) = 0" by simp

lemma dval_eq_0_iff: "dval d = 0 \<longleftrightarrow> dcoeff d = 0"
  by (cases d) (simp add: less_imp_neq [OF power_int_10_pos, symmetric])

lemma dval_of_int [simp]: "dval (dec_of_int i) = of_int i"
  by (simp add: dec_of_int_def)

lemma dval_negate [simp]: "dval (dec_negate d) = - dval d"
  by (cases d) simp

lemma dval_exact_add [simp]: "dval (dec_exact_add a b) = dval a + dval b"
proof -
  let ?e = "min (dexp a) (dexp b)"
  let ?v = "dec_at a ?e + dec_at b ?e"
  have "dval a + dval b = of_int ?v * power_int 10 ?e"
    by (simp add: dec_at_dval distrib_right)
  moreover have "dval (dec_exact_add a b) = of_int ?v * power_int 10 ?e"
    by (auto simp: dec_exact_add_def Let_def)
  ultimately show ?thesis by simp
qed

lemma dval_exact_mul [simp]: "dval (dec_exact_mul a b) = dval a * dval b"
  by (cases a; cases b) (auto simp: power_int_add)

section \<open>Digits\<close>

lemma ndigits_pos [simp]: "0 < ndigits n"
  by (subst ndigits.simps) simp

lemma ndigits_0 [simp]: "ndigits 0 = 1"
  by (subst ndigits.simps) simp

lemma ndigits_less_power: "n < 10 ^ ndigits n"
proof (induction n rule: ndigits.induct)
  case (1 n)
  show ?case
  proof (cases "n < 10")
    case True
    then show ?thesis by (simp add: ndigits.simps [of n])
  next
    case False
    with "1.IH" have "n div 10 < 10 ^ ndigits (n div 10)" by simp
    then have "n < 10 * 10 ^ ndigits (n div 10)" by linarith
    with False show ?thesis by (simp add: ndigits.simps [of n])
  qed
qed

lemma ndigits_power_le: "0 < n \<Longrightarrow> 10 ^ (ndigits n - 1) \<le> n"
proof (induction n rule: ndigits.induct)
  case (1 n)
  show ?case
  proof (cases "n < 10")
    case True
    with "1.prems" show ?thesis by (simp add: ndigits.simps [of n])
  next
    case False
    then have "10 ^ (ndigits (n div 10) - 1) \<le> n div 10" using "1.IH" by simp
    then have "10 * 10 ^ (ndigits (n div 10) - 1) \<le> n" by linarith
    with False show ?thesis
      by (simp add: ndigits.simps [of n] flip: power_Suc)
  qed
qed

lemma ndigits_le_iff: "0 < k \<Longrightarrow> ndigits n \<le> k \<longleftrightarrow> n < 10 ^ k"
proof
  assume k: "0 < k" and "ndigits n \<le> k"
  then have "(10::nat) ^ ndigits n \<le> 10 ^ k" by (intro power_increasing) auto
  with ndigits_less_power [of n] show "n < 10 ^ k" by linarith
next
  assume k: "0 < k" and n: "n < 10 ^ k"
  show "ndigits n \<le> k"
  proof (cases "n = 0")
    case False
    then have "(10::nat) ^ (ndigits n - 1) < 10 ^ k"
      using ndigits_power_le [of n] n by linarith
    then have "ndigits n - 1 < k" by (rule power_less_imp_less_exp [rotated]) simp
    then show ?thesis by linarith
  qed (use k in simp)
qed

section \<open>What rounding to an integer means\<close>

text \<open>
  The four rounding modes on the rationals.  \<open>dval_rescale\<close> below shows that the digit
  manipulation of the decimal module computes exactly this.
\<close>

definition rat_round :: "rounding_mode \<Rightarrow> rat \<Rightarrow> int" where
  "rat_round m q =
     (case m of
        FLOOR \<Rightarrow> \<lfloor>q\<rfloor>
      | CEILING \<Rightarrow> \<lceil>q\<rceil>
      | HALF_UP \<Rightarrow> (if q < 0 then - \<lfloor>1 / 2 - q\<rfloor> else \<lfloor>q + 1 / 2\<rfloor>)
      | HALF_EVEN \<Rightarrow>
          (let f = \<lfloor>q\<rfloor>; r = q - of_int f in
           if r < 1 / 2 \<or> (r = 1 / 2 \<and> even f) then f else f + 1))"

definition rounds_up :: "rounding_mode \<Rightarrow> bool \<Rightarrow> nat \<Rightarrow> rat \<Rightarrow> bool" where
  "rounds_up m s q f =
     (case m of
        HALF_UP \<Rightarrow> 1 / 2 \<le> f
      | HALF_EVEN \<Rightarrow> 1 / 2 < f \<or> (f = 1 / 2 \<and> odd q)
      | FLOOR \<Rightarrow> s \<and> 0 < f
      | CEILING \<Rightarrow> \<not> s \<and> 0 < f)"

lemma round_shift_rounds_up:
  "round_shift m s c k =
    (c div 10 ^ k) + (if rounds_up m s (c div 10 ^ k) (of_nat (c mod 10 ^ k) / 10 ^ k) then 1 else 0)"
proof -
  let ?r = "c mod 10 ^ k"
  have lt: "(1 / 2 :: rat) < of_nat ?r / 10 ^ k \<longleftrightarrow> 10 ^ k < 2 * ?r"
  proof -
    have "(1 / 2 :: rat) < of_nat ?r / 10 ^ k \<longleftrightarrow> (of_nat (10 ^ k) :: rat) < of_nat (2 * ?r)"
      by (simp add: field_simps)
    then show ?thesis by (simp only: of_nat_less_iff)
  qed
  have le: "(1 / 2 :: rat) \<le> of_nat ?r / 10 ^ k \<longleftrightarrow> 10 ^ k \<le> 2 * ?r"
  proof -
    have "(1 / 2 :: rat) \<le> of_nat ?r / 10 ^ k \<longleftrightarrow> (of_nat (10 ^ k) :: rat) \<le> of_nat (2 * ?r)"
      by (simp add: field_simps)
    then show ?thesis by (simp only: of_nat_le_iff)
  qed
  define f :: rat where "f = of_nat ?r / 10 ^ k"
  have h: "1 / 2 < f \<longleftrightarrow> 10 ^ k < 2 * ?r" "1 / 2 \<le> f \<longleftrightarrow> 10 ^ k \<le> 2 * ?r"
    using lt le by (simp_all add: f_def)
  then have eq: "f = 1 / 2 \<longleftrightarrow> 2 * ?r = 10 ^ k"
    by (metis order.order_iff_strict order_less_imp_not_eq2)
  have g: "1 < f * 2 \<longleftrightarrow> 10 ^ k < 2 * ?r" "1 \<le> f * 2 \<longleftrightarrow> 10 ^ k \<le> 2 * ?r" "f * 2 = 1 \<longleftrightarrow> 2 * ?r = 10 ^ k"
    unfolding h(1) [symmetric] h(2) [symmetric] eq [symmetric] by auto
  have pos: "0 < f \<longleftrightarrow> 0 < ?r"
    by (simp add: f_def zero_less_divide_iff)
  show ?thesis
    unfolding f_def [symmetric]
    by (cases m) (simp_all add: round_shift_def rounds_up_def Let_def g pos)
qed

lemma rat_round_pos:
  assumes f: "0 \<le> f" "f < 1"
  shows "rat_round m (of_nat q + f) = int q + (if rounds_up m False q f then 1 else 0)"
proof -
  have fl: "\<lfloor>of_nat q + f\<rfloor> = int q"
    using f by (simp add: floor_eq_iff)
  have ce: "\<lceil>of_nat q + f\<rceil> = (if f = 0 then int q else int q + 1)"
    using f by (auto simp: ceiling_eq_iff)
  have hu: "\<lfloor>of_nat q + f + 1 / 2\<rfloor> = (if 1 / 2 \<le> f then int q + 1 else int q)"
    using f by (auto simp: floor_eq_iff)
  have nn: "\<not> of_nat q + f < 0" using f by (simp add: not_less)
  show ?thesis
  proof (cases m)
    case HALF_UP
    then show ?thesis using hu nn by (simp add: rat_round_def rounds_up_def)
  next
    case HALF_EVEN
    then show ?thesis using f by (auto simp: rat_round_def rounds_up_def Let_def fl)
  next
    case FLOOR
    then show ?thesis by (simp add: rat_round_def rounds_up_def fl)
  next
    case CEILING
    then show ?thesis using f by (auto simp: rat_round_def rounds_up_def ce)
  qed
qed

lemma rat_round_neg:
  assumes f: "0 \<le> f" "f < 1"
  shows "rat_round m (- (of_nat q + f)) = - (int q + (if rounds_up m True q f then 1 else 0))"
proof -
  have fl: "\<lfloor>- (of_nat q + f)\<rfloor> = (if f = 0 then - int q else - int q - 1)"
    using f by (auto simp: floor_eq_iff)
  have ce: "\<lceil>- (of_nat q + f)\<rceil> = - int q"
    using f by (simp add: ceiling_eq_iff)
  have hu: "\<lfloor>1 / 2 - - (of_nat q + f)\<rfloor> = (if 1 / 2 \<le> f then int q + 1 else int q)"
    using f by (auto simp: floor_eq_iff)
  have hz: "\<lfloor>- (of_nat q + f) + 1 / 2\<rfloor> = 0" if "\<not> - (of_nat q + f) < 0"
    using that f by (simp add: floor_eq_iff)
  show ?thesis
  proof (cases m)
    case HALF_UP
    show ?thesis
    proof (cases "- (of_nat q + f) < 0")
      case True
      then show ?thesis using HALF_UP hu by (simp add: rat_round_def rounds_up_def)
    next
      case False
      then have "q = 0" "f = 0" using f by auto
      then show ?thesis using HALF_UP hz [OF False] by (simp add: rat_round_def rounds_up_def)
    qed
  next
    case HALF_EVEN
    show ?thesis
    proof (cases "f = 0")
      case True
      then show ?thesis using HALF_EVEN fl by (simp add: rat_round_def rounds_up_def Let_def)
    next
      case False
      then have r: "- (of_nat q + f) - of_int \<lfloor>- (of_nat q + f)\<rfloor> = 1 - f"
        by (subst fl) simp
      have "rat_round m (- (of_nat q + f)) =
          (if 1 - f < 1 / 2 \<or> (1 - f = 1 / 2 \<and> odd q) then - int q - 1 else - int q)"
        unfolding rat_round_def HALF_EVEN rounding_mode.case Let_def r fl using False by simp
      then show ?thesis using HALF_EVEN by (auto simp: rounds_up_def)
    qed
  next
    case FLOOR
    then have "rat_round m (- (of_nat q + f)) = (if f = 0 then - int q else - int q - 1)"
      by (simp only: rat_round_def rounding_mode.case fl)
    then show ?thesis using FLOOR f by (auto simp: rounds_up_def)
  next
    case CEILING
    then show ?thesis by (simp only: rat_round_def rounds_up_def rounding_mode.case ce) simp
  qed
qed

lemma round_shift_rat:
  "(if s then - 1 else 1) * int (round_shift m s c k) =
    rat_round m ((if s then - 1 else 1) * (of_nat c / 10 ^ k))"
proof -
  define f :: rat where "f = of_nat (c mod 10 ^ k) / 10 ^ k"
  have "(of_nat c :: rat) = of_nat (c div 10 ^ k * 10 ^ k + c mod 10 ^ k)"
    by (simp only: div_mult_mod_eq)
  also have "\<dots> = of_nat (c div 10 ^ k) * 10 ^ k + of_nat (c mod 10 ^ k)"
    by (simp only: of_nat_add of_nat_mult of_nat_power of_nat_numeral)
  finally have "(of_nat c / 10 ^ k :: rat) =
      (of_nat (c div 10 ^ k) * 10 ^ k + of_nat (c mod 10 ^ k)) / 10 ^ k" by (rule arg_cong)
  also have "\<dots> = of_nat (c div 10 ^ k) + f"
    unfolding f_def add_divide_distrib by simp
  finally have split: "(of_nat c / 10 ^ k :: rat) = of_nat (c div 10 ^ k) + f" .
  have "c mod 10 ^ k < 10 ^ k" by simp
  then have "(of_nat (c mod 10 ^ k) :: rat) < of_nat (10 ^ k)"
    by (simp only: of_nat_less_iff)
  then have f: "0 \<le> f" "f < 1" by (simp_all add: f_def)
  have i: "int (n + (if P then 1 else 0)) = int n + (if P then 1 else 0)" for n P
    by simp
  show ?thesis
  proof (cases s)
    case True
    then show ?thesis
      unfolding split round_shift_rounds_up f_def [symmetric] i
      by (simp only: if_True mult_minus1 rat_round_neg [OF f])
  next
    case False
    then show ?thesis
      unfolding split round_shift_rounds_up f_def [symmetric] i
      by (simp only: if_False mult_1 rat_round_pos [OF f])
  qed
qed

text \<open>The distance a rounding can move a number, and monotonicity.\<close>

lemma rat_round_int [simp]: "rat_round m (of_int i) = i"
proof -
  have "\<lfloor>of_int i + 1 / 2 :: rat\<rfloor> = i" "\<lfloor>1 / 2 - of_int i :: rat\<rfloor> = - i"
    by (simp_all add: floor_eq_iff)
  then show ?thesis by (cases m) (simp_all add: rat_round_def Let_def)
qed

lemma rat_round_floor: "rat_round FLOOR q = \<lfloor>q\<rfloor>"
  and rat_round_ceiling: "rat_round CEILING q = \<lceil>q\<rceil>"
  by (simp_all add: rat_round_def)

lemma rat_round_half:
  assumes "m = HALF_UP \<or> m = HALF_EVEN"
  shows "\<bar>of_int (rat_round m q) - q\<bar> \<le> 1 / 2"
  using assms
proof
  assume "m = HALF_UP"
  then have "rat_round m q = (if q < 0 then - \<lfloor>1 / 2 - q\<rfloor> else \<lfloor>q + 1 / 2\<rfloor>)"
    by (simp add: rat_round_def)
  moreover have "of_int \<lfloor>q + 1 / 2\<rfloor> \<le> q + 1 / 2" "of_int \<lfloor>1 / 2 - q\<rfloor> \<le> 1 / 2 - q"
    by (rule of_int_floor_le)+
  moreover have "q + 1 / 2 < of_int \<lfloor>q + 1 / 2\<rfloor> + 1" "1 / 2 - q < of_int \<lfloor>1 / 2 - q\<rfloor> + 1"
    by linarith+
  ultimately show ?thesis
    unfolding abs_le_iff by (cases "q < 0") (simp_all only: if_True if_False of_int_minus, linarith+)
next
  assume "m = HALF_EVEN"
  then show ?thesis
  proof -
    have "of_int \<lfloor>q\<rfloor> \<le> q" "q < of_int \<lfloor>q\<rfloor> + 1" by linarith+
    moreover have "rat_round m q = \<lfloor>q\<rfloor> \<and> q - of_int \<lfloor>q\<rfloor> \<le> 1 / 2 \<or>
        rat_round m q = \<lfloor>q\<rfloor> + 1 \<and> 1 / 2 \<le> q - of_int \<lfloor>q\<rfloor>"
      using \<open>m = HALF_EVEN\<close> by (auto simp: rat_round_def Let_def)
    ultimately show ?thesis
      unfolding abs_le_iff by (elim disjE conjE) (simp_all only: of_int_add of_int_1, linarith+)
  qed
qed

lemma rat_round_adjacent: "\<lfloor>q\<rfloor> \<le> rat_round m q \<and> rat_round m q \<le> \<lceil>q\<rceil>"
proof -
  have c: "\<lceil>q\<rceil> = (if q = of_int \<lfloor>q\<rfloor> then \<lfloor>q\<rfloor> else \<lfloor>q\<rfloor> + 1)"
    by (simp add: ceiling_altdef)
  show ?thesis
  proof (cases "q = of_int \<lfloor>q\<rfloor>")
    case True
    then show ?thesis by (metis ceiling_of_int floor_of_int order_refl rat_round_int)
  next
    case False
    then have "\<bar>of_int (rat_round m q) - q\<bar> < 1"
    proof (cases "m = HALF_UP \<or> m = HALF_EVEN")
      case True
      then show ?thesis using rat_round_half [of m q] by linarith
    next
      case False
      then have "rat_round m q = \<lfloor>q\<rfloor> \<or> rat_round m q = \<lceil>q\<rceil>"
        by (cases m) (simp_all add: rat_round_def)
      then show ?thesis by linarith
    qed
    then show ?thesis using False c floor_correct [of q] by auto linarith+
  qed
qed

lemma rat_round_mono:
  assumes "p \<le> q"
  shows "rat_round m p \<le> rat_round m q"
proof (cases "p = q")
  case False
  define n where "n = rat_round m q"
  show ?thesis
  proof (rule ccontr)
    assume "\<not> rat_round m p \<le> rat_round m q"
    then have np: "n < rat_round m p" by (simp add: n_def)
    then have "n < \<lceil>p\<rceil>" using rat_round_adjacent [of p m] by linarith
    then have p1: "of_int n < p" by (simp only: less_ceiling_iff)
    have "\<lfloor>q\<rfloor> < n + 1" using rat_round_adjacent [of q m] unfolding n_def by linarith
    then have q1: "q < of_int n + 1" by (simp only: floor_less_iff of_int_add of_int_1)
    from p1 assms have q2: "of_int n < q" by linarith
    from q1 assms have p2: "p < of_int n + 1" by linarith
    have "\<lfloor>p\<rfloor> = n" using p1 p2 by (intro floor_unique) linarith+
    have "\<lceil>p\<rceil> = n + 1" using p1 p2 by (simp add: ceiling_eq_iff)
    have "\<lceil>q\<rceil> = n + 1" using q1 q2 by (simp add: ceiling_eq_iff)
    have p: "rat_round m p = n + 1"
      using np rat_round_adjacent [of p m] \<open>\<lceil>p\<rceil> = n + 1\<close> by linarith
    have "m = HALF_UP \<or> m = HALF_EVEN"
    proof (cases m)
      case FLOOR
      with p \<open>\<lfloor>p\<rfloor> = n\<close> show ?thesis by (simp add: rat_round_floor)
    next
      case CEILING
      with n_def \<open>\<lceil>q\<rceil> = n + 1\<close> show ?thesis by (simp add: rat_round_ceiling)
    qed simp_all
    then have "\<bar>of_int (n + 1) - p\<bar> \<le> 1 / 2" "\<bar>of_int n - q\<bar> \<le> 1 / 2"
      using rat_round_half [of m p] rat_round_half [of m q] unfolding p n_def [symmetric] by blast+
    then have "of_int n + 1 - p \<le> 1 / 2" "q - of_int n \<le> 1 / 2"
      unfolding abs_le_iff of_int_add of_int_1 by linarith+
    with assms False show False by linarith
  qed
qed simp

lemma dval_rescale:
  "dval (dec_rescale m d x) = of_int (rat_round m (dval d / power_int 10 x)) * power_int 10 x"
proof (cases d)
  case (Dec s c e)
  let ?sg = "if s then - 1 else (1::rat)"
  consider "c = 0" | "c \<noteq> 0" "x \<le> e" | "c \<noteq> 0" "e < x" by linarith
  then show ?thesis
  proof cases
    case 1
    then show ?thesis using Dec rat_round_int [of m 0] by simp
  next
    case 2
    have "(10::rat) ^ nat (e - x) = power_int 10 e / power_int 10 x"
      using 2 power_int_diff [of "10::rat" e x] by (simp add: power_int_def)
    then have eq: "dval d / power_int 10 x = of_int ((if s then - 1 else 1) * int (c * 10 ^ nat (e - x)))"
      using Dec by simp
    have "dval (dec_rescale m d x) =
        of_int ((if s then - 1 else 1) * int (c * 10 ^ nat (e - x))) * power_int 10 x"
      using 2 Dec by simp
    then show ?thesis by (simp only: eq rat_round_int)
  next
    case 3
    have k: "(10::rat) ^ nat (x - e) = power_int 10 x / power_int 10 e"
      using 3 power_int_diff [of "10::rat" x e] by (simp add: power_int_def)
    have "dval d / power_int 10 x = ?sg * (of_nat c / 10 ^ nat (x - e))"
      using Dec by (simp add: k)
    then have "rat_round m (dval d / power_int 10 x) =
        (if s then - 1 else 1) * int (round_shift m s c (nat (x - e)))"
      by (simp only: round_shift_rat [of s m c "nat (x - e)"])
    then show ?thesis using 3 Dec by simp
  qed
qed

section \<open>Results of operations\<close>

text \<open>The decimals that an operation returns unchanged: at most 28 digits, exponent in range.\<close>

definition dec_fits :: "decimal \<Rightarrow> bool" where
  "dec_fits d \<longleftrightarrow> dcoeff d < 10 ^ 28 \<and> dec_Etiny \<le> dexp d \<and> dexp d \<le> dec_Etop"

lemma dec_fix_fits: "dec_fits d \<Longrightarrow> dec_fix d = Inr d"
proof (cases d)
  case (Dec s c e)
  assume "dec_fits d"
  with Dec have c: "c < 10 ^ 28" and e: "dec_Etiny \<le> e" "e \<le> dec_Etop" by (simp_all add: dec_fits_def)
  from c have "ndigits c \<le> 28" using ndigits_le_iff [of 28 c] by simp
  with e have "\<not> e < max (int (ndigits c) + e - int dec_prec) dec_Etiny"
    and "\<not> dec_Etop < int (ndigits c) + e - int dec_prec"
    by (auto simp: dec_prec_def)
  moreover have "min (max e dec_Etiny) dec_Emax = e"
    using e by (simp add: dec_context_defs)
  ultimately show ?thesis using Dec by (simp del: max_less_iff_conj less_max_iff_disj add: Let_def)
qed

lemma dec_fix_q_le:
  fixes c :: nat and e :: int
  defines "em \<equiv> max (int (ndigits c) + e - 28) dec_Etiny"
  assumes "e < em"
  shows "round_shift HALF_EVEN s c (nat (em - e)) \<le> 10 ^ 28"
proof -
  have "ndigits c \<le> 28 + nat (em - e)"
    using assms(2) unfolding em_def by linarith
  then have "c < 10 ^ (28 + nat (em - e))" by (simp add: ndigits_le_iff)
  then have "c div 10 ^ nat (em - e) < 10 ^ 28"
    by (simp add: power_add div_less_iff_less_mult mult.commute)
  moreover have "round_shift HALF_EVEN s c (nat (em - e)) \<le> Suc (c div 10 ^ nat (em - e))"
    by (simp add: round_shift_def Let_def)
  ultimately show ?thesis by linarith
qed

lemma dec_fix_range:
  assumes "dec_fix d = Inr r"
  shows "dcoeff r < 10 ^ 28 \<and> dneg r = dneg d"
proof (cases d)
  case (Dec s c e)
  define em where "em = max (int (ndigits c) + e - 28) dec_Etiny"
  define q where "q = round_shift HALF_EVEN s c (nat (em - e))"
  have q: "q \<le> 10 ^ 28" if "e < em"
    using dec_fix_q_le [of e c s] that by (simp add: q_def em_def)
  have c: "c < 10 ^ 28" if "\<not> e < em"
  proof -
    have "ndigits c \<le> 28" using that unfolding em_def by linarith
    then show ?thesis using ndigits_le_iff [of 28 c] by simp
  qed
  show ?thesis
  proof (cases "c = 0")
    case False
    have "28 < ndigits q \<or> q < 10 ^ 28" using ndigits_le_iff [of 28 q] by auto
    with assms Dec False q c show ?thesis
      by (auto simp: Let_def dec_prec_def em_def [symmetric] q_def [symmetric] split: if_splits)
  qed (use assms Dec in auto)
qed

text \<open>A result is at most half a unit in its last place away from the exact one.\<close>

lemma dec_fix_error:
  assumes "dec_fix d = Inr r"
  shows "\<bar>dval r - dval d\<bar> \<le> power_int 10 (dexp r) / 2"
proof (cases d)
  case (Dec s c e)
  define em where "em = max (int (ndigits c) + e - 28) dec_Etiny"
  define q where "q = round_shift HALF_EVEN s c (nat (em - e))"
  have half: "\<bar>dval (dec_rescale HALF_EVEN d x) - dval d\<bar> \<le> power_int 10 x / 2" for x
  proof -
    let ?P = "power_int (10::rat) x" and ?v = "dval d / power_int 10 x"
    let ?u = "of_int (rat_round HALF_EVEN ?v) :: rat"
    have "\<bar>?u - ?v\<bar> * ?P \<le> 1 / 2 * ?P"
      by (rule mult_right_mono) (rule rat_round_half, simp, simp add: less_imp_le)
    moreover have "\<bar>?u - ?v\<bar> * ?P = \<bar>?u * ?P - dval d\<bar>"
    proof -
      have "\<bar>?u - ?v\<bar> * ?P = \<bar>(?u - ?v) * ?P\<bar>"
        by (simp add: abs_mult)
      also have "(?u - ?v) * ?P = ?u * ?P - dval d"
        by (simp add: left_diff_distrib)
      finally show ?thesis .
    qed
    ultimately show ?thesis unfolding dval_rescale by simp
  qed
  show ?thesis
  proof (cases "c = 0 \<or> \<not> e < em")
    case True
    then show ?thesis
      using assms Dec by (auto simp: Let_def dec_prec_def em_def [symmetric] less_imp_le split: if_splits)
  next
    case False
    then have resc: "dec_rescale HALF_EVEN d em = Dec s q em" using Dec by (simp add: q_def)
    show ?thesis
    proof (cases "28 < ndigits q")
      case True
      then have "\<not> q < 10 ^ 28" using ndigits_le_iff [of 28 q] by simp
      moreover have "q \<le> 10 ^ 28"
        using dec_fix_q_le [of e c] False by (simp add: q_def em_def)
      ultimately have q: "q = 10 * 10 ^ 27" by simp
      have r: "r = Dec s (10 ^ 27) (em + 1)"
        using assms True Dec \<open>\<not> (c = 0 \<or> \<not> e < em)\<close> q
        by (simp add: Let_def dec_prec_def em_def [symmetric] q_def [symmetric] split: if_splits)
      then have "dval r = dval (Dec s q em)"
        by (simp add: q power_int_add)
      then have "\<bar>dval r - dval d\<bar> \<le> power_int 10 em / 2"
        using half [of em] resc by simp
      also have "\<dots> \<le> power_int 10 (dexp r) / 2"
        using r by (simp add: power_int_increasing)
      finally show ?thesis .
    next
      case False
      then show ?thesis
        using assms half [of em] resc \<open>\<not> (c = 0 \<or> \<not> e < em)\<close> Dec
        by (auto simp: Let_def dec_prec_def em_def [symmetric] q_def [symmetric] split: if_splits)
    qed
  qed
qed

lemma dec_quantize_spec:
  assumes "dec_quantize m d x = Inr r"
  shows "dexp r = x \<and> dcoeff r < 10 ^ 28
    \<and> dval r = of_int (rat_round m (dval d / power_int 10 x)) * power_int 10 x"
proof (cases d)
  case (Dec s c e)
  show ?thesis
  proof (cases "c = 0")
    case True
    then show ?thesis using assms Dec rat_round_int [of m 0] by (auto split: if_splits)
  next
    case False
    define d' where "d' = dec_rescale m (Dec s c e) x"
    have x: "dexp d' = x" by (simp add: d'_def)
    from assms Dec False have h: "dec_Etiny \<le> x" "x \<le> dec_Emax"
        "int (ndigits (dcoeff d')) + x - 1 \<le> dec_Emax" "ndigits (dcoeff d') \<le> 28"
        "dec_fix d' = Inr r"
      unfolding Dec dec_quantize.simps d'_def [symmetric]
      by (simp_all del: dec_fix.simps add: Let_def dec_prec_def split: if_splits)
    have "r = d'"
    proof (cases "dcoeff d' = 0")
      case True
      with h x show ?thesis by (cases d') auto
    next
      case False
      moreover have "\<not> dec_Etop < int (ndigits (dcoeff d')) + x - 28"
        using h by (simp add: dec_context_defs)
      moreover have "\<not> x < max (int (ndigits (dcoeff d')) + x - 28) dec_Etiny"
        using h by simp
      ultimately show ?thesis using h(5) x
        by (cases d') (simp del: less_max_iff_disj add: Let_def dec_prec_def)
    qed
    moreover have "dval d' = of_int (rat_round m (dval d / power_int 10 x)) * power_int 10 x"
      unfolding d'_def Dec [symmetric] by (rule dval_rescale)
    ultimately show ?thesis
      using x h(4) ndigits_le_iff [of 28 "dcoeff d'"] by (simp del: dval.simps)
  qed
qed

lemma dec_add_exact: "dec_fits (dec_exact_add a b) \<Longrightarrow> dec_add a b = Inr (dec_exact_add a b)"
  by (simp add: dec_add_def dec_fix_fits)

lemma dec_mul_exact: "dec_fits (dec_exact_mul a b) \<Longrightarrow> dec_mul a b = Inr (dec_exact_mul a b)"
  by (simp add: dec_mul_def dec_fix_fits)

lemma dec_add_error:
  "dec_add a b = Inr r \<Longrightarrow> \<bar>dval r - (dval a + dval b)\<bar> \<le> power_int 10 (dexp r) / 2"
  using dec_fix_error [of "dec_exact_add a b" r] by (simp add: dec_add_def)

lemma dec_mul_error:
  "dec_mul a b = Inr r \<Longrightarrow> \<bar>dval r - dval a * dval b\<bar> \<le> power_int 10 (dexp r) / 2"
  using dec_fix_error [of "dec_exact_mul a b" r] by (simp add: dec_mul_def)

lemma dval_max [simp]: "dval (dec_max a b) = max (dval a) (dval b)"
  and dval_min [simp]: "dval (dec_min a b) = min (dval a) (dval b)"
  by (auto simp: dec_max_def dec_min_def)

lemma dval_consts [simp]: "dval dec_zero = 0" "dval dec_one = 1"
  by (simp_all add: dec_const_defs)

declare dval.simps [simp del] dec_fix.simps [simp del] dec_quantize.simps [simp del]
  dec_rescale.simps [simp del] dec_div.simps [simp del]

section \<open>Division\<close>

lemma ndigits_mult_power: "0 < c \<Longrightarrow> ndigits (c * 10 ^ j) = ndigits c + j"
proof (induction j)
  case (Suc j)
  have "ndigits (c * 10 ^ Suc j) = Suc (ndigits (c * 10 ^ j))"
    using Suc.prems by (subst ndigits.simps) (auto simp: algebra_simps)
  with Suc show ?case by simp
qed simp

lemma power_int_of_nat: "0 \<le> i \<Longrightarrow> power_int (10::rat) i = of_nat (10 ^ nat i)"
  by (simp add: power_int_def)

lemma abs_dval: "\<bar>dval (Dec s c e)\<bar> = of_nat c * power_int 10 e"
  by (simp add: dval.simps abs_mult)

text \<open>Two ways to write one number with an integer coefficient.\<close>

lemma same_magnitude:
  assumes "(of_nat c :: rat) * power_int 10 e = of_nat k * power_int 10 x" and le: "e \<le> x"
  shows "c = k * 10 ^ nat (x - e)"
proof -
  have "of_nat c = (of_nat k * power_int 10 x) / power_int (10::rat) e" using assms by (simp add: field_simps)
  also have "\<dots> = of_nat k * power_int 10 (x - e)" by (simp add: power_int_diff)
  also have "\<dots> = of_nat (k * 10 ^ nat (x - e))" using le by (simp add: power_int_of_nat)
  finally show ?thesis by (simp only: of_nat_eq_iff)
qed

text \<open>A result that can be written with 28 digits is returned with its exact value.\<close>

lemma dec_fix_value:
  assumes "dec_fits d" "dval r = dval d"
  shows "\<exists>z. dec_fix r = Inr z \<and> dval z = dval d"
proof (cases "dcoeff r = 0")
  case True
  then show ?thesis using assms(2) dval_eq_0_iff [of d] dval_eq_0_iff [of r] by (cases r) (simp add: dec_fix.simps dval.simps)
next
  case False
  obtain s c e s' k x where d: "r = Dec s c e" "d = Dec s' k x" by (cases r; cases d)
  have fits: "k < 10 ^ 28" "dec_Etiny \<le> x" "x \<le> dec_Etop" using assms(1) d by (auto simp: dec_fits_def)
  have "\<bar>dval r\<bar> = \<bar>dval d\<bar>" using assms(2) by simp
  then have mag: "(of_nat c :: rat) * power_int 10 e = of_nat k * power_int 10 x"
    unfolding d abs_dval .
  have c: "0 < c" using False d by simp
  then have "(0::rat) < of_nat k * power_int 10 x" unfolding mag [symmetric] by simp
  then have k: "0 < k" by (simp add: zero_less_mult_iff)
  have digits: "int (ndigits c) + e = int (ndigits k) + x"
  proof (cases "e \<le> x")
    case True
    then show ?thesis using same_magnitude [OF mag] ndigits_mult_power [OF k, of "nat (x - e)"] by simp
  next
    case False
    then show ?thesis using same_magnitude [OF mag [symmetric]] ndigits_mult_power [OF c, of "nat (e - x)"] by simp
  qed
  have nk: "ndigits k \<le> 28" using fits(1) ndigits_le_iff [of 28 k] by simp
  define em where "em = max (int (ndigits c) + e - 28) dec_Etiny"
  have em: "em \<le> x" "int (ndigits k) + x - 28 \<le> em" using nk fits(2) unfolding em_def digits by linarith+
  have noovf: "\<not> dec_Etop < int (ndigits c) + e - 28" using nk fits(3) digits by linarith
  show ?thesis
  proof (cases "e < em")
    case False
    then have "dec_fix r = Inr r" using d c noovf by (simp add: dec_fix.simps Let_def dec_prec_def em_def)
    then show ?thesis using assms(2) by blast
  next
    case True
    define q where "q = k * 10 ^ nat (x - em)"
    have "c = k * 10 ^ nat (x - e)" using same_magnitude [OF mag] True em by simp
    also have "nat (x - e) = nat (x - em) + nat (em - e)" using True em by linarith
    finally have cq: "c = q * 10 ^ nat (em - e)" by (simp add: q_def power_add)
    then have rs: "round_shift HALF_EVEN s c (nat (em - e)) = q" by (simp add: round_shift_def Let_def)
    have "int (ndigits q) = int (ndigits k) + (x - em)"
      using ndigits_mult_power [OF k, of "nat (x - em)"] em(1) by (simp add: q_def)
    then have "\<not> 28 < ndigits q" using em(2) by linarith
    then have "dec_fix r = Inr (Dec s q em)"
      using d c noovf True rs by (simp add: dec_fix.simps Let_def dec_prec_def em_def)
    moreover have "dval (Dec s q em) = dval r"
    proof -
      have "of_nat c * power_int 10 e = (of_nat q * power_int 10 em :: rat)"
        unfolding cq using True power_int_add [of "10::rat" "em - e" e] power_int_of_nat [of "em - e"] by simp
      then show ?thesis using d by (simp add: dval.simps)
    qed
    ultimately show ?thesis using assms(2) by auto
  qed
qed

lemma strip_zeros_value: "strip_zeros n c = (c', j) \<Longrightarrow> j \<le> n \<and> c = c' * 10 ^ (n - j)"
proof (induction n c rule: strip_zeros.induct)
  case (1 n c)
  show ?case
  proof (cases "n = 0 \<or> \<not> 10 dvd c")
    case True
    with "1.prems" show ?thesis by (subst (asm) strip_zeros.simps) auto
  next
    case False
    then have "strip_zeros (n - 1) (c div 10) = (c', j)" using "1.prems" by (subst (asm) strip_zeros.simps) auto
    from "1.IH" [OF False this] False show ?thesis
      by (auto simp: dvd_def Suc_diff_le simp flip: power_Suc elim!: dvdE)
  qed
qed

text \<open>The integer division behind a quotient leaves no remainder when the quotient has 28 digits.\<close>

lemma shifted_quotient:
  fixes c c' k :: nat and e e' x :: int
  assumes pos: "0 < c" "0 < c'" "k < 10 ^ 28"
    and prod: "of_nat k * power_int 10 x * (of_nat c' * power_int 10 e') = (of_nat c * power_int 10 e :: rat)"
  defines "shift \<equiv> int (ndigits c') - int (ndigits c) + int dec_prec + 1"
  shows "\<exists>q. c * 10 ^ nat shift = c' * 10 ^ nat (- shift) * q
    \<and> of_nat q * power_int 10 (e - e' - shift) = (of_nat k * power_int 10 x :: rat)"
proof -
  define n where "n = c * 10 ^ nat shift"
  define m where "m = c' * 10 ^ nat (- shift)"
  have pw: "(of_nat n :: rat) = of_nat m * (of_nat c / of_nat c' * power_int 10 shift)"
    using pos(2) by (cases "0 \<le> shift") (simp_all add: n_def m_def power_int_def field_simps)
  have "of_nat c / of_nat c' = of_nat k * power_int (10::rat) (x + e' - e)"
    using pos(2) prod by (simp add: power_int_diff power_int_add field_simps)
  then have nm: "(of_nat n :: rat) = of_nat m * (of_nat k * power_int 10 (x + e' - e + shift))"
    unfolding pw by (simp add: power_int_add)
  have big: "10 ^ 28 * m < n"
  proof -
    have "c' < 10 ^ ndigits c'" by (rule ndigits_less_power)
    then have "10 ^ 28 * m < 10 ^ 28 * (10 ^ ndigits c' * 10 ^ nat (- shift))" by (simp add: m_def)
    also have "\<dots> = 10 ^ (28 + ndigits c' + nat (- shift))" by (simp add: power_add)
    also have "28 + ndigits c' + nat (- shift) = ndigits c - 1 + nat shift"
      using ndigits_pos [of c] unfolding shift_def dec_prec_def by linarith
    also have "10 ^ (ndigits c - 1 + nat shift) \<le> n"
      using ndigits_power_le [of c] pos(1) by (simp add: n_def power_add)
    finally show ?thesis .
  qed
  have nneg: "0 \<le> x + e' - e + shift"
  proof (rule ccontr)
    assume "\<not> ?thesis"
    then have "power_int (10::rat) (x + e' - e + shift) \<le> 1"
      using power_int_increasing [of "x + e' - e + shift" 0 "10::rat"] by simp
    then have "of_nat k * power_int (10::rat) (x + e' - e + shift) \<le> of_nat k * 1" by (intro mult_left_mono) auto
    then have "(of_nat n :: rat) \<le> of_nat m * of_nat k" unfolding nm by (intro mult_left_mono) auto
    then have "n \<le> m * k" by (simp only: of_nat_mult [symmetric] of_nat_le_iff)
    also have "m * k \<le> m * 10 ^ 28" using pos(3) by (intro mult_left_mono) auto
    finally have "n \<le> 10 ^ 28 * m" by (simp only: mult.commute)
    then show False using big leD by blast
  qed
  define q where "q = k * 10 ^ nat (x + e' - e + shift)"
  have "(of_nat n :: rat) = of_nat (m * q)" unfolding nm q_def using nneg by (simp add: power_int_of_nat)
  then have n: "n = m * q" by (simp only: of_nat_eq_iff)
  moreover have "of_nat q * power_int 10 (e - e' - shift) = (of_nat k * power_int 10 x :: rat)"
    using nneg power_int_add [of "10::rat" "x + e' - e + shift" "e - e' - shift"] power_int_of_nat [OF nneg]
    by (simp add: q_def algebra_simps)
  ultimately show ?thesis unfolding n_def m_def by blast
qed

text \<open>A quotient that can be written with 28 digits is exact.\<close>

lemma dec_div_exact:
  assumes "dval b \<noteq> 0" "dec_fits d" "dval d * dval b = dval a"
  shows "\<exists>z. dec_div a b = Inr z \<and> dval z = dval d"
proof -
  obtain s c e s' c' e' where ab: "a = Dec s c e" "b = Dec s' c' e'" by (cases a; cases b)
  obtain s'' k x where d: "d = Dec s'' k x" by (cases d)
  have c': "0 < c'" using assms(1) ab dval_eq_0_iff [of b] by simp
  show ?thesis
  proof (cases "c = 0")
    case True
    then have "dval d = 0" using assms ab by simp
    then show ?thesis using True c' ab by (simp add: dec_div.simps dec_fix.simps)
  next
    case False
    define shift where "shift = int (ndigits c') - int (ndigits c) + int dec_prec + 1"
    define n where "n = c * 10 ^ nat shift"
    define m where "m = c' * 10 ^ nat (- shift)"
    have "\<bar>dval d\<bar> * \<bar>dval b\<bar> = \<bar>dval a\<bar>" using assms(3) by (simp flip: abs_mult)
    then have prod: "of_nat k * power_int 10 x * (of_nat c' * power_int 10 e') = (of_nat c * power_int 10 e :: rat)"
      unfolding ab d abs_dval .
    obtain q where n: "n = m * q" and q: "of_nat q * power_int 10 (e - e' - shift) = (of_nat k * power_int 10 x :: rat)"
      using shifted_quotient [of c c' k x e' e] False c' prod assms(2) d
      unfolding n_def m_def shift_def dec_fits_def by auto
    have m: "0 < m" using c' by (simp add: m_def)
    obtain q' j where st: "strip_zeros (nat shift) q = (q', j)" by fastforce
    define E where "E = e - e' - (if 0 \<le> shift then int j else shift)"
    have res: "dec_div a b = dec_fix (Dec (s \<noteq> s') q' E)"
      using False c' m st unfolding ab by (simp add: dec_div.simps Let_def flip: shift_def n_def m_def E_def) (simp add: n E_def)
    have "of_nat q' * power_int 10 E = (of_nat q * power_int 10 (e - e' - shift) :: rat)"
    proof (cases "0 \<le> shift")
      case True
      then have "of_nat q = (of_nat q' * power_int 10 (shift - int j) :: rat)"
        using strip_zeros_value [OF st] by (simp add: power_int_def nat_diff_distrib)
      then show ?thesis using True by (simp add: E_def flip: power_int_add)
    next
      case False
      then show ?thesis using strip_zeros_value [OF st] by (simp add: E_def)
    qed
    also note q
    finally have val: "of_nat q' * power_int 10 E = (of_nat k * power_int 10 x :: rat)" .
    have "dval (Dec (s \<noteq> s') q' E) = dval d"
    proof -
      have "k \<noteq> 0" using n False q by (cases k) (auto simp: n_def)
      then have "s'' = (s \<noteq> s')"
        using assms(3) ab d False prod by (cases s; cases s'; cases s'') (simp_all add: dval.simps eq_neg_iff_add_eq_0)
      then show ?thesis using val d by (simp add: dval.simps)
    qed
    then show ?thesis using dec_fix_value [OF assms(2)] unfolding res by blast
  qed
qed

end
