(* ===== verification/PyText.thy ===== *)
theory PyText
  imports PyDecimal
begin

text \<open>
  Decimals and integers as text.  \<open>str(Decimal)\<close> is the decimal specification's
  to-scientific-string, \<open>Decimal(str)\<close> its to-number.  The program converts through text
  everywhere (\<open>Decimal(str(x))\<close>), which \<open>decimal_of_dec_str\<close> shows to be the identity.
  Text is a list of characters below 128; other code points are outside the model.
\<close>

section \<open>Characters\<close>

definition digit_char :: "nat \<Rightarrow> char" where
  "digit_char d = char_of (48 + d)"

definition is_digit :: "char \<Rightarrow> bool" where
  "is_digit c \<longleftrightarrow> 48 \<le> (of_char c :: nat) \<and> (of_char c :: nat) \<le> 57"

definition digit_val :: "char \<Rightarrow> nat" where
  "digit_val c = of_char c - 48"

definition is_space :: "char \<Rightarrow> bool" where
  "is_space c \<longleftrightarrow>
     (let n = (of_char c :: nat) in (9 \<le> n \<and> n \<le> 13) \<or> (28 \<le> n \<and> n \<le> 32))"

definition lower_char :: "char \<Rightarrow> char" where
  "lower_char c =
     (let n = (of_char c :: nat) in if 65 \<le> n \<and> n \<le> 90 then char_of (n + 32) else c)"

definition upper_char :: "char \<Rightarrow> char" where
  "upper_char c =
     (let n = (of_char c :: nat) in if 97 \<le> n \<and> n \<le> 122 then char_of (n - 32) else c)"

definition py_strip :: "string \<Rightarrow> string" where
  "py_strip s = rev (dropWhile is_space (rev (dropWhile is_space s)))"

definition py_lower :: "string \<Rightarrow> string" where
  "py_lower s = map lower_char s"

definition py_upper :: "string \<Rightarrow> string" where
  "py_upper s = map upper_char s"

definition py_replace_char :: "char \<Rightarrow> char \<Rightarrow> string \<Rightarrow> string" where
  "py_replace_char a b s = map (\<lambda>c. if c = a then b else c) s"

section \<open>Integers as text\<close>

fun nat_str :: "nat \<Rightarrow> string" where
  "nat_str n = (if n < 10 then [digit_char n] else nat_str (n div 10) @ [digit_char (n mod 10)])"

declare nat_str.simps [simp del]

definition digits_val :: "string \<Rightarrow> nat" where
  "digits_val s = foldl (\<lambda>a c. 10 * a + digit_val c) 0 s"

definition int_str :: "int \<Rightarrow> string" where
  "int_str i = (if i < 0 then CHR ''-'' # nat_str (nat (- i)) else nat_str (nat i))"

text \<open>The \<open>%+d\<close> of an exponent.\<close>

definition signed_str :: "int \<Rightarrow> string" where
  "signed_str i = (if i < 0 then CHR ''-'' # nat_str (nat (- i)) else CHR ''+'' # nat_str (nat i))"

fun parse_sign :: "string \<Rightarrow> bool \<times> string" where
  "parse_sign (c # cs) =
     (if c = CHR ''-'' then (True, cs) else if c = CHR ''+'' then (False, cs) else (False, c # cs))"
| "parse_sign [] = (False, [])"

text \<open>
  \<open>int(str)\<close>: surrounding blanks, an optional sign, digits with single underscores
  between them.  None is the ValueError.
\<close>

fun underscores_ok :: "bool \<Rightarrow> string \<Rightarrow> bool" where
  "underscores_ok prev [] = prev"
| "underscores_ok prev (c # cs) =
     (if c = CHR ''_'' then prev \<and> underscores_ok False cs else is_digit c \<and> underscores_ok True cs)"

definition parse_int :: "string \<Rightarrow> int option" where
  "parse_int raw =
     (let (neg, ds) = parse_sign (py_strip raw) in
      if underscores_ok False ds
      then (let n = int (digits_val (filter is_digit ds)) in Some (if neg then - n else n))
      else None)"

section \<open>Decimals as text\<close>

fun dec_str :: "decimal \<Rightarrow> string" where
  "dec_str (Dec s c e) =
     (let ds = nat_str c;
          leftdigits = e + int (length ds);
          dotplace = (if e \<le> 0 \<and> -6 < leftdigits then leftdigits else 1);
          body =
            (if dotplace \<le> 0 then ''0.'' @ replicate (nat (- dotplace)) (CHR ''0'') @ ds
             else if int (length ds) \<le> dotplace
               then ds @ replicate (nat (dotplace - int (length ds))) (CHR ''0'')
             else take (nat dotplace) ds @ ''.'' @ drop (nat dotplace) ds);
          ex = (if leftdigits = dotplace then [] else CHR ''E'' # signed_str (leftdigits - dotplace))
      in (if s then ''-'' else []) @ body @ ex)"

declare dec_str.simps [simp del]

definition parse_exponent :: "string \<Rightarrow> int option" where
  "parse_exponent s =
     (case s of
        [] \<Rightarrow> Some 0
      | c # cs \<Rightarrow>
          if c = CHR ''E'' \<or> c = CHR ''e'' then
            (let (neg, ds) = parse_sign cs in
             if ds \<noteq> [] \<and> list_all is_digit ds
             then Some (if neg then - int (digits_val ds) else int (digits_val ds)) else None)
          else None)"

text \<open>The spellings of an infinity or a NaN, which Python accepts and this model does not.\<close>

definition is_special :: "string \<Rightarrow> bool" where
  "is_special s \<longleftrightarrow>
     (let t = py_lower (snd (parse_sign s)); p = takeWhile (\<lambda>c. \<not> is_digit c) t in
      t = ''inf'' \<or> t = ''infinity'' \<or>
      ((p = ''nan'' \<or> p = ''snan'') \<and> list_all is_digit (drop (length p) t)))"

definition parse_fraction :: "string \<Rightarrow> string \<times> string" where
  "parse_fraction s =
     (case s of
        [] \<Rightarrow> ([], [])
      | c # cs \<Rightarrow> if c = CHR ''.'' then (takeWhile is_digit cs, dropWhile is_digit cs) else ([], s))"

definition parse_finite :: "string \<Rightarrow> decimal option" where
  "parse_finite s =
     (let (neg, r) = parse_sign s;
          ip = takeWhile is_digit r;
          (fp, r2) = parse_fraction (dropWhile is_digit r)
      in if ip = [] \<and> fp = [] then None
         else map_option (\<lambda>x. Dec neg (digits_val (ip @ fp)) (x - int (length fp))) (parse_exponent r2))"

definition decimal_of_string :: "string \<Rightarrow> decimal res" where
  "decimal_of_string raw =
     (let s = filter (\<lambda>c. c \<noteq> CHR ''_'') (py_strip raw) in
      if is_special s then Inl OutOfModel
      else case parse_finite s of None \<Rightarrow> Inl InvalidOperation | Some d \<Rightarrow> Inr d)"

section \<open>Printing and parsing are inverse\<close>

lemma digit_char_props [simp]:
  assumes "d < 10"
  shows "is_digit (digit_char d)" "digit_val (digit_char d) = d"
  using assms by (simp_all add: is_digit_def digit_char_def digit_val_def)

lemma is_digit_chars [simp]:
  "is_digit CHR ''0''" "\<not> is_digit CHR ''.''" "\<not> is_digit CHR ''E''" "\<not> is_digit CHR ''-''"
  "\<not> is_digit CHR ''+''" "\<not> is_digit CHR ''_''" "digit_val CHR ''0'' = 0"
  by (simp_all add: is_digit_def digit_val_def)

lemma digits_val_append: "digits_val (xs @ ys) = digits_val xs * 10 ^ length ys + digits_val ys"
proof (induction ys rule: rev_induct)
  case (snoc y ys)
  then show ?case
    by (simp add: digits_val_def flip: append_assoc)
qed (simp add: digits_val_def)

lemma digits_val_zeros [simp]: "digits_val (replicate k CHR ''0'') = 0"
proof (induction k)
  case (Suc k)
  then show ?case using digits_val_append [of "[CHR ''0'']" "replicate k CHR ''0''"]
    by (simp add: digits_val_def)
qed (simp add: digits_val_def)

lemma nat_str_digits: "list_all is_digit (nat_str n)"
proof (induction n rule: nat_str.induct)
  case (1 n)
  then show ?case by (subst nat_str.simps) auto
qed

lemma nat_str_val [simp]: "digits_val (nat_str n) = n"
proof (induction n rule: nat_str.induct)
  case (1 n)
  show ?case
  proof (cases "n < 10")
    case True
    then show ?thesis by (subst nat_str.simps) (simp add: digits_val_def)
  next
    case False
    with "1.IH" have "digits_val (nat_str (n div 10)) = n div 10" by simp
    with False show ?thesis
      by (subst nat_str.simps) (simp add: digits_val_append, simp add: digits_val_def)
  qed
qed

lemma nat_str_nonempty [simp]: "nat_str n \<noteq> []"
  by (subst nat_str.simps) simp

lemma nat_str_length_pos [simp]: "0 < length (nat_str n)"
  by simp

lemma digits_not_special:
  "list_all is_digit ds \<Longrightarrow> ds \<noteq> [] \<Longrightarrow> hd ds \<noteq> CHR ''-'' \<and> hd ds \<noteq> CHR ''+''"
  by (cases ds) auto

lemma parse_exponent_signed:
  "parse_exponent (CHR ''E'' # signed_str i) = Some i"
  using nat_str_digits by (simp add: parse_exponent_def signed_str_def)

lemma takeWhile_digits:
  "list_all is_digit ds \<Longrightarrow> rest = [] \<or> \<not> is_digit (hd rest) \<Longrightarrow>
    takeWhile is_digit (ds @ rest) = ds \<and> dropWhile is_digit (ds @ rest) = rest"
proof (induction ds)
  case Nil
  then show ?case by (cases rest) auto
qed auto

text \<open>The exponent part of a printed decimal.\<close>

definition ex_text :: "string \<Rightarrow> int \<Rightarrow> bool" where
  "ex_text ex x \<longleftrightarrow> (ex = [] \<and> x = 0) \<or> ex = CHR ''E'' # signed_str x"

lemma ex_text_props:
  assumes "ex_text ex x"
  shows "parse_exponent ex = Some x" "ex = [] \<or> \<not> is_digit (hd ex)"
    "ex = [] \<or> hd ex \<noteq> CHR ''.''"
  using assms parse_exponent_signed by (auto simp: ex_text_def parse_exponent_def)

lemma parse_sign_digits:
  assumes "list_all is_digit ip" "ip \<noteq> []"
  shows "parse_sign ((if s then ''-'' else []) @ ip @ rest) = (s, ip @ rest)"
  using assms by (cases ip) (auto simp: digits_not_special)

lemma parse_finite_plain:
  assumes "list_all is_digit ip" "ip \<noteq> []" "ex_text ex x"
  shows "parse_finite ((if s then ''-'' else []) @ ip @ ex) = Some (Dec s (digits_val ip) x)"
proof -
  have "parse_fraction ex = ([], ex)"
    using ex_text_props(3) [OF assms(3)] by (cases ex) (auto simp: parse_fraction_def)
  then show ?thesis
    using takeWhile_digits [OF assms(1) ex_text_props(2) [OF assms(3)]]
    by (simp add: parse_finite_def parse_sign_digits assms ex_text_props)
qed

lemma parse_finite_dot:
  assumes "list_all is_digit ip" "ip \<noteq> []" "list_all is_digit fp" "ex_text ex x"
  shows "parse_finite ((if s then ''-'' else []) @ ip @ ''.'' @ fp @ ex) =
    Some (Dec s (digits_val (ip @ fp)) (x - int (length fp)))"
proof -
  have "parse_fraction (''.'' @ fp @ ex) = (fp, ex)"
    using takeWhile_digits [OF assms(3) ex_text_props(2) [OF assms(4)]]
    by (simp add: parse_fraction_def)
  moreover have "takeWhile is_digit (ip @ ''.'' @ fp @ ex) = ip"
    "dropWhile is_digit (ip @ ''.'' @ fp @ ex) = ''.'' @ fp @ ex"
    using takeWhile_digits [OF assms(1), of "''.'' @ fp @ ex"] by auto
  ultimately show ?thesis
    by (simp add: parse_finite_def parse_sign_digits [OF assms(1,2), of s "''.'' @ fp @ ex", simplified]
        assms ex_text_props)
qed

text \<open>A text made of the characters of numbers passes the clean-up steps unchanged.\<close>

definition num_char :: "char \<Rightarrow> bool" where
  "num_char c \<longleftrightarrow> is_digit c \<or> c \<in> {CHR ''.'', CHR ''E'', CHR ''-'', CHR ''+''}"

lemma num_char_plain: "num_char c \<Longrightarrow> \<not> is_space c \<and> c \<noteq> CHR ''_''"
  by (auto simp: num_char_def is_digit_def is_space_def Let_def)

lemma digits_num_char: "list_all is_digit ds \<Longrightarrow> list_all num_char ds"
  by (simp add: list_all_iff num_char_def)

lemma num_text_strip:
  assumes "list_all num_char s"
  shows "py_strip s = s"
proof -
  have id: "dropWhile is_space t = t" if "list_all num_char t" for t
    using that by (cases t) (auto dest: num_char_plain)
  show ?thesis using assms id [of s] id [of "rev s"] by (simp add: py_strip_def)
qed

lemma num_text_clean:
  assumes "list_all num_char s"
  shows "filter (\<lambda>c. c \<noteq> CHR ''_'') (py_strip s) = s"
  using assms by (auto simp: num_text_strip list_all_iff filter_id_conv dest: num_char_plain)

lemma lower_digit: "is_digit c \<Longrightarrow> lower_char c = c"
  by (simp add: is_digit_def lower_char_def Let_def)

lemma num_text_not_special:
  assumes "list_all is_digit ip" "ip \<noteq> []"
  shows "\<not> is_special ((if s then ''-'' else []) @ ip @ rest)"
proof -
  obtain d ds where "ip = d # ds" "is_digit d" using assms by (cases ip) auto
  moreover from this have "d \<noteq> CHR ''i''" by (auto simp: is_digit_def)
  ultimately show ?thesis
    unfolding is_special_def parse_sign_digits [OF assms]
    by (simp add: py_lower_def lower_digit Let_def)
qed

lemma list_all_signed: "list_all num_char (CHR ''E'' # signed_str i)"
  using digits_num_char [OF nat_str_digits] by (simp add: signed_str_def num_char_def)

text \<open>The shape of a printed decimal.\<close>

lemma dec_str_shape:
  "\<exists>ip fp ex x. dec_str (Dec s c e) = (if s then ''-'' else []) @ ip @ fp @ ex
     \<and> list_all is_digit ip \<and> ip \<noteq> [] \<and> ex_text ex x
     \<and> (fp = [] \<and> digits_val ip = c \<and> x = e
        \<or> (\<exists>f. fp = ''.'' @ f \<and> f \<noteq> [] \<and> list_all is_digit f \<and> digits_val (ip @ f) = c \<and> x - int (length f) = e))"
proof -
  define ds where "ds = nat_str c"
  define left where "left = e + int (length ds)"
  define dot where "dot = (if e \<le> 0 \<and> -6 < left then left else 1)"
  define ex where "ex = (if left = dot then [] else CHR ''E'' # signed_str (left - dot))"
  have ds: "list_all is_digit ds" "ds \<noteq> []" "digits_val ds = c"
    by (simp_all add: ds_def nat_str_digits)
  have ex: "ex_text ex (left - dot)" by (auto simp: ex_def ex_text_def)
  have str: "dec_str (Dec s c e) = (if s then ''-'' else []) @
      (if dot \<le> 0 then ''0.'' @ replicate (nat (- dot)) (CHR ''0'') @ ds
       else if int (length ds) \<le> dot then ds @ replicate (nat (dot - int (length ds))) (CHR ''0'')
       else take (nat dot) ds @ ''.'' @ drop (nat dot) ds) @ ex"
    unfolding dec_str.simps Let_def ds_def left_def dot_def ex_def by (rule refl)
  consider "dot \<le> 0" | "0 < dot" "int (length ds) \<le> dot" | "0 < dot" "dot < int (length ds)"
    by linarith
  then show ?thesis
  proof cases
    case 1
    let ?f = "replicate (nat (- dot)) CHR ''0'' @ ds"
    have "left = dot"
      using 1 by (auto simp: dot_def split: if_splits)
    then have "dec_str (Dec s c e) = (if s then ''-'' else []) @ ''0'' @ (''.'' @ ?f) @ ex"
      using 1 by (simp add: str)
    moreover have "digits_val (''0'' @ ?f) = c"
    proof -
      have "digits_val (''0'' @ ?f) = digits_val ?f"
        by (simp add: digits_val_def)
      also have "\<dots> = c"
        using ds(3) by (simp add: digits_val_append)
      finally show ?thesis .
    qed
    moreover have "(left - dot) - int (length ?f) = e"
      using 1 \<open>left = dot\<close> by (simp add: left_def)
    moreover have "list_all is_digit ?f" "?f \<noteq> []" using ds by (auto simp: list_all_iff)
    moreover have "list_all is_digit ''0''" "''0'' \<noteq> []" by simp_all
    ultimately show ?thesis using ex by blast
  next
    case 2
    have zero: "dot = int (length ds)"
      using 2 ds(2) by (cases ds) (auto simp: dot_def left_def split: if_splits)
    then have "dec_str (Dec s c e) = (if s then ''-'' else []) @ ds @ [] @ ex"
      using 2 by (simp add: str)
    moreover have "left - dot = e" using zero by (simp add: left_def)
    ultimately show ?thesis using ds ex by blast
  next
    case 3
    let ?i = "take (nat dot) ds" and ?f = "drop (nat dot) ds"
    have "dec_str (Dec s c e) = (if s then ''-'' else []) @ ?i @ (''.'' @ ?f) @ ex"
      using 3 by (simp add: str)
    moreover have "list_all is_digit ?i" "list_all is_digit ?f"
      using ds(1) by (auto simp: list_all_iff dest: in_set_takeD in_set_dropD)
    moreover have "?i \<noteq> []" "?f \<noteq> []" using 3 ds(2) by auto
    moreover have "(left - dot) - int (length ?f) = e" using 3 by (simp add: left_def of_nat_diff)
    moreover have "digits_val (?i @ ?f) = c" using ds(3) by simp
    ultimately show ?thesis using ex by blast
  qed
qed

lemma decimal_of_dec_str [simp]: "decimal_of_string (dec_str d) = Inr d"
proof (cases d)
  case (Dec s c e)
  obtain ip fp ex x where str: "dec_str (Dec s c e) = (if s then ''-'' else []) @ ip @ fp @ ex"
    and ip: "list_all is_digit ip" "ip \<noteq> []" and ex: "ex_text ex x"
    and alt: "fp = [] \<and> digits_val ip = c \<and> x = e
        \<or> (\<exists>f. fp = ''.'' @ f \<and> f \<noteq> [] \<and> list_all is_digit f \<and> digits_val (ip @ f) = c \<and> x - int (length f) = e)"
    using dec_str_shape [of s c e] by blast
  have "list_all num_char ex" using ex list_all_signed by (auto simp: ex_text_def)
  moreover have "list_all num_char fp" using alt by (auto simp: digits_num_char num_char_def)
  moreover have "num_char CHR ''-''" by (simp add: num_char_def)
  ultimately have "list_all num_char (dec_str d)"
    unfolding Dec str using digits_num_char [OF ip(1)] by simp
  then have clean: "filter (\<lambda>c. c \<noteq> CHR ''_'') (py_strip (dec_str d)) = dec_str d"
    by (rule num_text_clean)
  have special: "\<not> is_special (dec_str d)"
    unfolding Dec str using num_text_not_special [OF ip, of s "fp @ ex"] by simp
  have "parse_finite (dec_str d) = Some d"
    unfolding Dec str using alt parse_finite_plain [OF ip ex, of s] parse_finite_dot [OF ip _ ex, of _ s]
    by auto
  then show ?thesis
    using special by (simp add: decimal_of_string_def clean)
qed

lemma dec_str_inject: "dec_str a = dec_str b \<longleftrightarrow> a = b"
  using decimal_of_dec_str by (metis sum.inject(2))

lemma int_str_dec: "int_str i = dec_str (dec_of_int i)"
proof -
  have "0 < length (nat_str n)" for n by simp
  then have "- 6 < int (length (nat_str n)) \<and> \<not> int (length (nat_str n)) \<le> 0" for n
    by (simp add: not_le)
  then show ?thesis
    by (simp add: dec_str.simps dec_of_int_def int_str_def Let_def)
qed

lemma decimal_of_int_str [simp]: "decimal_of_string (int_str i) = Inr (dec_of_int i)"
  by (simp add: int_str_dec)

lemma underscores_digits: "list_all is_digit ds \<Longrightarrow> underscores_ok prev ds \<longleftrightarrow> prev \<or> ds \<noteq> []"
proof (induction ds arbitrary: prev)
  case (Cons c cs)
  then have "c \<noteq> CHR ''_''" "is_digit c" "list_all is_digit cs" by auto
  with Cons.IH [of True] show ?case by simp
qed simp

lemma parse_int_str [simp]: "parse_int (int_str i) = Some i"
proof -
  let ?ds = "nat_str (nat \<bar>i\<bar>)"
  have eq: "int_str i = (if i < 0 then ''-'' else []) @ ?ds" by (simp add: int_str_def)
  have ds: "list_all is_digit ?ds" by (rule nat_str_digits)
  then have "list_all num_char (int_str i)"
    unfolding eq by (simp add: digits_num_char num_char_def)
  then have "py_strip (int_str i) = int_str i"
    by (rule num_text_strip)
  moreover have "parse_sign (int_str i) = (i < 0, ?ds)"
    unfolding eq using parse_sign_digits [OF ds, of "i < 0" "[]"] by simp
  moreover have "filter is_digit ?ds = ?ds" using ds by (simp add: filter_id_conv list_all_iff)
  ultimately show ?thesis
    using ds by (simp add: parse_int_def underscores_digits Let_def)
qed

end
