(* ===== verification/PyValue.thy ===== *)
theory PyValue
  imports PyText
begin

text \<open>
  The values that flow through the rating engine (\<open>int | Decimal | str | bool | date\<close>),
  with Python's equality, ordering, \<open>str()\<close>, \<open>int()\<close> and \<open>Decimal(str())\<close> on them, and
  calendar dates.  Floats are not modelled: the engine's own models never carry one
  (\<open>RiskInput.values\<close> has no float member).
\<close>

section \<open>Dates\<close>

datatype date = Date (year: nat) (month: nat) (day: nat)

instantiation date :: linorder
begin

definition less_eq_date :: "date \<Rightarrow> date \<Rightarrow> bool" where
  "less_eq_date a b \<longleftrightarrow>
     year a < year b \<or> (year a = year b \<and> (month a < month b \<or> (month a = month b \<and> day a \<le> day b)))"

definition less_date :: "date \<Rightarrow> date \<Rightarrow> bool" where
  "less_date a b \<longleftrightarrow>
     year a < year b \<or> (year a = year b \<and> (month a < month b \<or> (month a = month b \<and> day a < day b)))"

instance
proof
  fix a b c :: date
  show "a < b \<longleftrightarrow> a \<le> b \<and> \<not> b \<le> a" by (auto simp: less_eq_date_def less_date_def)
  show "a \<le> a" by (simp add: less_eq_date_def)
  show "a \<le> b \<Longrightarrow> b \<le> c \<Longrightarrow> a \<le> c" by (auto simp: less_eq_date_def)
  show "a \<le> b \<Longrightarrow> b \<le> a \<Longrightarrow> a = b" by (cases a; cases b) (auto simp: less_eq_date_def)
  show "a \<le> b \<or> b \<le> a" by (auto simp: less_eq_date_def)
qed

end

definition is_leap :: "nat \<Rightarrow> bool" where
  "is_leap y \<longleftrightarrow> y mod 4 = 0 \<and> (y mod 100 \<noteq> 0 \<or> y mod 400 = 0)"

definition days_in_month :: "nat \<Rightarrow> nat \<Rightarrow> nat" where
  "days_in_month y m =
     (if m = 2 then (if is_leap y then 29 else 28) else if m \<in> {4, 6, 9, 11} then 30 else 31)"

definition valid_date :: "date \<Rightarrow> bool" where
  "valid_date d \<longleftrightarrow> 1 \<le> year d \<and> year d \<le> 9999 \<and> 1 \<le> month d \<and> month d \<le> 12
     \<and> 1 \<le> day d \<and> day d \<le> days_in_month (year d) (month d)"

text \<open>The proleptic Gregorian ordinal; \<open>(a - b).days\<close> is the difference of two.\<close>

definition days_before_year :: "nat \<Rightarrow> int" where
  "days_before_year y = (let z = int y - 1 in z * 365 + z div 4 - z div 100 + z div 400)"

definition days_before_month :: "nat \<Rightarrow> nat \<Rightarrow> nat" where
  "days_before_month y m = (\<Sum>i\<leftarrow>[1..<m]. days_in_month y i)"

definition toordinal :: "date \<Rightarrow> int" where
  "toordinal d = days_before_year (year d) + int (days_before_month (year d) (month d)) + int (day d)"

definition days_between :: "date \<Rightarrow> date \<Rightarrow> int" where
  "days_between a b = toordinal a - toordinal b"

definition pad2 :: "nat \<Rightarrow> string" where
  "pad2 n = [digit_char (n div 10 mod 10), digit_char (n mod 10)]"

definition isoformat :: "date \<Rightarrow> string" where
  "isoformat d = pad2 (year d div 100) @ pad2 (year d) @ ''-'' @ pad2 (month d) @ ''-'' @ pad2 (day d)"

text \<open>
  \<open>date.fromisoformat\<close>: \<open>YYYY-MM-DD\<close> and \<open>YYYYMMDD\<close>; the week forms (\<open>2026-W05\<close>) are
  accepted by Python and outside this model.
\<close>

definition make_date :: "string \<Rightarrow> string \<Rightarrow> string \<Rightarrow> date res" where
  "make_date y m d =
     (if list_all is_digit (y @ m @ d) then
        (let r = Date (digits_val y) (digits_val m) (digits_val d) in
         if valid_date r then Inr r else Inl ValueError)
      else Inl ValueError)"

definition date_fromisoformat :: "string \<Rightarrow> date res" where
  "date_fromisoformat s =
     (if length s \<in> {7, 8, 10} \<and> (s ! 4 = CHR ''W'' \<or> (s ! 4 = CHR ''-'' \<and> s ! 5 = CHR ''W''))
      then Inl OutOfModel
      else if length s = 10 \<and> s ! 4 = CHR ''-'' \<and> s ! 7 = CHR ''-''
        then make_date (take 4 s) (take 2 (drop 5 s)) (drop 8 s)
      else if length s = 8 then make_date (take 4 s) (take 2 (drop 4 s)) (drop 6 s)
      else Inl ValueError)"

section \<open>Values\<close>

datatype pyval = PInt int | PDec decimal | PStr string | PBool bool | PDate date

definition bool_str :: "bool \<Rightarrow> string" where
  "bool_str b = (if b then ''True'' else ''False'')"

fun py_str :: "pyval \<Rightarrow> string" where
  "py_str (PInt i) = int_str i"
| "py_str (PDec d) = dec_str d"
| "py_str (PStr s) = s"
| "py_str (PBool b) = bool_str b"
| "py_str (PDate d) = isoformat d"

text \<open>\<open>Decimal(str(v))\<close>.\<close>

definition to_dec :: "pyval \<Rightarrow> decimal res" where
  "to_dec v = decimal_of_string (py_str v)"

text \<open>The number a value is in a comparison (\<open>bool\<close> is an \<open>int\<close>).\<close>

fun num_of :: "pyval \<Rightarrow> decimal option" where
  "num_of (PInt i) = Some (dec_of_int i)"
| "num_of (PDec d) = Some d"
| "num_of (PBool b) = Some (if b then dec_one else dec_zero)"
| "num_of _ = None"

text \<open>\<open>isinstance(v, (int, float, Decimal)) and not isinstance(v, bool)\<close>.\<close>

fun is_number :: "pyval \<Rightarrow> bool" where
  "is_number (PInt _) = True"
| "is_number (PDec _) = True"
| "is_number _ = False"

fun is_bool :: "pyval \<Rightarrow> bool" where
  "is_bool (PBool _) = True"
| "is_bool _ = False"

definition py_eq :: "pyval \<Rightarrow> pyval \<Rightarrow> bool" where
  "py_eq a b =
     (case (num_of a, num_of b) of
        (Some x, Some y) \<Rightarrow> dec_eq x y
      | (None, None) \<Rightarrow> a = b
      | _ \<Rightarrow> False)"

text \<open>\<open>a < b\<close>; values of unrelated types raise TypeError.\<close>

definition py_less :: "pyval \<Rightarrow> pyval \<Rightarrow> bool res" where
  "py_less a b =
     (case (num_of a, num_of b) of
        (Some x, Some y) \<Rightarrow> Inr (dec_less x y)
      | _ \<Rightarrow>
        (case (a, b) of
           (PStr x, PStr y) \<Rightarrow> Inr (x < y)
         | (PDate x, PDate y) \<Rightarrow> Inr (x < y)
         | _ \<Rightarrow> Inl TypeError))"

text \<open>\<open>int(v)\<close>: truncation of a Decimal, parsing of a string.\<close>

fun dec_trunc :: "decimal \<Rightarrow> int" where
  "dec_trunc (Dec s c e) =
     (let n = int (if 0 \<le> e then c * 10 ^ nat e else c div 10 ^ nat (- e)) in if s then - n else n)"

fun py_int :: "pyval \<Rightarrow> int res" where
  "py_int (PInt i) = Inr i"
| "py_int (PBool b) = Inr (if b then 1 else 0)"
| "py_int (PDec d) = Inr (dec_trunc d)"
| "py_int (PStr s) = (case parse_int s of None \<Rightarrow> Inl ValueError | Some i \<Rightarrow> Inr i)"
| "py_int (PDate d) = Inl TypeError"

section \<open>Lemmas\<close>

lemma to_dec_simps [simp]:
  "to_dec (PInt i) = Inr (dec_of_int i)" "to_dec (PDec d) = Inr d"
  "to_dec (PStr s) = decimal_of_string s"
  by (simp_all add: to_dec_def)

lemma to_dec_bool: "to_dec (PBool b) = Inl InvalidOperation"
  by (cases b) (simp_all add: to_dec_def bool_str_def decimal_of_string_def py_strip_def is_space_def
      is_special_def py_lower_def lower_char_def parse_finite_def parse_fraction_def is_digit_def Let_def)

lemma to_dec_code [code]:
  "to_dec (PInt i) = Inr (dec_of_int i)" "to_dec (PDec d) = Inr d"
  "to_dec (PStr s) = decimal_of_string s" "to_dec (PBool b) = Inl InvalidOperation"
  "to_dec (PDate dt) = decimal_of_string (isoformat dt)"
  by (simp_all add: to_dec_bool) (simp add: to_dec_def)

lemma is_number_to_dec: "is_number v \<Longrightarrow> \<exists>d. to_dec v = Inr d \<and> num_of v = Some d"
  by (cases v) auto

lemma py_eq_refl [simp]: "py_eq a a"
  by (cases a) (simp_all add: py_eq_def)

lemma py_eq_sym: "py_eq a b \<longleftrightarrow> py_eq b a"
  by (auto simp: py_eq_def split: option.splits)

lemma dval_dec_trunc: "\<bar>of_int (dec_trunc d)\<bar> \<le> \<bar>dval d\<bar> \<and> \<bar>dval d\<bar> < \<bar>of_int (dec_trunc d)\<bar> + 1"
proof (cases d)
  case (Dec s c e)
  have val: "\<bar>dval d\<bar> = of_nat c * power_int 10 e"
    using Dec by (simp add: dval.simps abs_mult)
  define n where "n = (if 0 \<le> e then c * 10 ^ nat e else c div 10 ^ nat (- e))"
  have "dec_trunc d = (if s then - int n else int n)"
    unfolding Dec dec_trunc.simps Let_def n_def by (rule refl)
  then have dt: "\<bar>of_int (dec_trunc d)\<bar> = (of_nat n :: rat)" by simp
  show ?thesis
  proof (cases "0 \<le> e")
    case True
    then have "power_int (10::rat) e = 10 ^ nat e" by (simp add: power_int_def)
    with True have "\<bar>dval d\<bar> = of_nat n" by (simp add: val n_def)
    with dt show ?thesis by simp
  next
    case False
    let ?p = "(10::nat) ^ nat (- e)"
    have "power_int (10::rat) e = inverse (of_nat ?p)"
      using False by (simp only: power_int_def if_False power_inverse of_nat_power of_nat_numeral)
    then have "\<bar>dval d\<bar> = of_nat c / of_nat ?p"
      by (simp only: val divide_inverse)
    moreover have "(of_nat n :: rat) = of_int \<lfloor>of_nat c / of_nat ?p :: rat\<rfloor>"
      using False by (simp only: n_def if_False floor_divide_of_nat_eq of_int_of_nat_eq)
    ultimately show ?thesis unfolding dt by linarith
  qed
qed

end
