(* ===== verification/Ipir.thy ===== *)
theory Ipir
  imports PyValue "HOL-Library.Option_ord"
begin

text \<open>
  The rate-plan data model, \<open>src/backend/app/ipir\<close>: one record or datatype per pydantic
  model and one function per \<open>model_validator\<close>, which returns the validated (normalised)
  object or the \<open>ValidationError\<close> that pydantic makes of the validator's \<open>ValueError\<close>; the
  payload names the check that failed.  Reading JSON into the typed fields is pydantic's
  and starts before this model.
\<close>

section \<open>Enumerations (enums.py)\<close>

datatype insurance_line =
  HOMEOWNERS | PERSONAL_AUTO | COMMERCIAL_AUTO | COMMERCIAL_PROPERTY | WORKERS_COMPENSATION | OTHER_LINE

datatype transaction_type = NEW_BUSINESS | RENEWAL | POLICY_CHANGE

datatype input_data_type = INTEGER_T | DECIMAL_T | MONEY_T | STRING_T | BOOLEAN_T | CATEGORY_T | DATE_T

datatype table_lookup_type = EXACT | RANGE

datatype modifier_type =
  PERCENTAGE_DISCOUNT | PERCENTAGE_SURCHARGE | FLAT_DISCOUNT | FLAT_SURCHARGE

datatype constraint_type = MINIMUM | MAXIMUM

datatype expression_operator = ADD | SUBTRACT | MULTIPLY | DIVIDE | MIN_OP | MAX_OP | ROUND

datatype comparison_operator = EQ | NE | GT | GTE | LT | LTE

datatype logical_operator = AND_OP | OR_OP

datatype provenance_source_type =
  REGULATORY_FILING | ACTUARIAL_SPEC | ACTUARIAL_WORKBOOK | PRICING_PLATFORM | POLICY_ADMIN_SYSTEM
  | RATING_ENGINE | REST_API | LEGACY_SYSTEM | MANUAL_ENTRY | OTHER_SOURCE

section \<open>Shared models (common.py, provenance.py)\<close>

text \<open>\<open>ID_PATTERN\<close>: \<open>[a-zA-Z0-9_.-]+\<close>.\<close>

definition id_char :: "char \<Rightarrow> bool" where
  "id_char c \<longleftrightarrow> (CHR ''a'' \<le> c \<and> c \<le> CHR ''z'') \<or> (CHR ''A'' \<le> c \<and> c \<le> CHR ''Z'')
     \<or> (CHR ''0'' \<le> c \<and> c \<le> CHR ''9'') \<or> c = CHR ''_'' \<or> c = CHR ''.'' \<or> c = CHR ''-''"

definition validate_identifier_string :: "string \<Rightarrow> string res" where
  "validate_identifier_string v =
     (let s = py_strip v in
      if s = [] then Inl (ValidationError ''empty_identifier'')
      else if \<not> list_all id_char s then Inl (ValidationError ''identifier'')
      else Inr s)"

definition validate_identifier_opt :: "string option \<Rightarrow> string option res" where
  "validate_identifier_opt v =
     (case v of None \<Rightarrow> Inr None | Some s \<Rightarrow> rbind (validate_identifier_string s) (\<lambda>x. Inr (Some x)))"

record effective_period =
  ep_start :: date
  ep_end :: "date option"

definition validate_dates :: "effective_period \<Rightarrow> effective_period res" where
  "validate_dates p =
     (case ep_end p of
        None \<Rightarrow> Inr p
      | Some e \<Rightarrow> if e < ep_start p then Inl (ValidationError ''effective_period'') else Inr p)"

definition validate_opt :: "('a \<Rightarrow> 'a res) \<Rightarrow> 'a option \<Rightarrow> 'a option res" where
  "validate_opt f v = (case v of None \<Rightarrow> Inr None | Some x \<Rightarrow> rbind (f x) (\<lambda>y. Inr (Some y)))"

record source_reference =
  src_type :: provenance_source_type
  src_id :: string
  src_name :: "string option"
  src_version :: "string option"
  src_location :: "string option"
  src_page :: "int option"
  src_section :: "string option"
  src_artifact :: "string option"

record provenance =
  pv_sources :: "source_reference list"
  pv_extraction_confidence :: "decimal option"
  pv_interpretation_confidence :: "decimal option"
  pv_notes :: "string option"

definition validate_confidence :: "provenance \<Rightarrow> provenance res" where
  "validate_confidence p =
     (if \<exists>v \<in> set_option (pv_extraction_confidence p) \<union> set_option (pv_interpretation_confidence p).
           dec_less v dec_zero \<or> dec_less dec_one v
      then Inl (ValidationError ''confidence'') else Inr p)"

section \<open>Expressions and conditions (expressions.py, rules.py)\<close>

text \<open>\<open>LiteralValue | NodeReference | Expression\<close>.\<close>

datatype expr =
    ELit pyval
  | ERef string
  | EOp expression_operator "expr list"

datatype condition =
    Compare expr comparison_operator expr
  | Logic logical_operator "condition list"

definition operand_count_ok :: "expression_operator \<Rightarrow> nat \<Rightarrow> bool" where
  "operand_count_ok op n =
     (if op = DIVIDE then n = 2 else if op = ROUND then n = 1 \<or> n = 2 else 2 \<le> n)"

text \<open>Operands are validated before the expression that holds them.\<close>

fun validate_operands :: "expr \<Rightarrow> expr res" where
  "validate_operands (ELit v) = Inr (ELit v)"
| "validate_operands (ERef r) = rbind (validate_identifier_string r) (\<lambda>r'. Inr (ERef r'))"
| "validate_operands (EOp op es) =
     rbind (rmap_list validate_operands es) (\<lambda>es'.
       if operand_count_ok op (length es') then Inr (EOp op es')
       else Inl (ValidationError ''operands''))"

fun validate_conditions :: "condition \<Rightarrow> condition res" where
  "validate_conditions (Compare l op r) =
     rbind (validate_operands l) (\<lambda>l'. rbind (validate_operands r) (\<lambda>r'. Inr (Compare l' op r')))"
| "validate_conditions (Logic op cs) =
     rbind (rmap_list validate_conditions cs) (\<lambda>cs'.
       if length cs' < 1 then Inl (ValidationError ''conditions'') else Inr (Logic op cs'))"

section \<open>Product, inputs, constraints, fees\<close>

record jurisdiction =
  jur_country :: string
  jur_state :: "string option"

record insurance_product =
  prod_id :: string
  prod_name :: string
  prod_line :: insurance_line
  prod_form :: "string option"
  prod_jurisdiction :: jurisdiction

definition validate_product :: "insurance_product \<Rightarrow> insurance_product res" where
  "validate_product p = rbind (validate_identifier_string (prod_id p)) (\<lambda>i. Inr (p\<lparr>prod_id := i\<rparr>))"

record coverage_definition =
  cov_id :: string
  cov_name :: string
  cov_calculation_refs :: "string list"
  cov_output_ref :: "string option"

definition validate_coverage :: "coverage_definition \<Rightarrow> coverage_definition res" where
  "validate_coverage c =
     rbind (validate_identifier_string (cov_id c)) (\<lambda>i.
     rbind (rmap_list validate_identifier_string (cov_calculation_refs c)) (\<lambda>rs.
     rbind (validate_identifier_opt (cov_output_ref c)) (\<lambda>out.
       Inr (c\<lparr>cov_id := i, cov_calculation_refs := rs, cov_output_ref := out\<rparr>))))"

record pricing_output =
  out_id :: string
  out_name :: string
  out_source_ref :: string
  out_currency :: "string option"
  out_description :: "string option"

definition validate_output :: "pricing_output \<Rightarrow> pricing_output res" where
  "validate_output p =
     rbind (validate_identifier_string (out_id p)) (\<lambda>i.
     rbind (validate_identifier_string (out_source_ref p)) (\<lambda>s.
       Inr (p\<lparr>out_id := i, out_source_ref := s\<rparr>)))"

text \<open>\<open>minimum\<close> and \<open>maximum\<close> are \<open>Decimal | int\<close>; \<open>to_dec\<close> is \<open>Decimal(str(\<dots>))\<close>.\<close>

record pricing_input =
  pi_id :: string
  pi_name :: string
  pi_data_type :: input_data_type
  pi_required :: bool
  pi_description :: "string option"
  pi_unit :: "string option"
  pi_allowed_values :: "string list option"
  pi_minimum :: "pyval option"
  pi_maximum :: "pyval option"
  pi_provenance :: "provenance option"

definition min_max_ok :: "pyval option \<Rightarrow> pyval option \<Rightarrow> bool res" where
  "min_max_ok lo hi =
     (case (lo, hi) of
        (Some a, Some b) \<Rightarrow> rbind (to_dec a) (\<lambda>x. rbind (to_dec b) (\<lambda>y. Inr (\<not> dec_less y x)))
      | _ \<Rightarrow> Inr True)"

definition validate_input :: "pricing_input \<Rightarrow> pricing_input res" where
  "validate_input p =
     rbind (validate_opt validate_confidence (pi_provenance p)) (\<lambda>_.
     rbind (validate_identifier_string (pi_id p)) (\<lambda>i.
     rbind (min_max_ok (pi_minimum p) (pi_maximum p)) (\<lambda>ok.
       if \<not> ok then Inl (ValidationError ''input_range'')
       else if pi_data_type p = BOOLEAN_T \<and> pi_allowed_values p \<noteq> None
         then Inl (ValidationError ''boolean_allowed_values'')
       else Inr (p\<lparr>pi_id := i\<rparr>))))"

record rounding_rule =
  rr_id :: string
  rr_precision :: int
  rr_mode :: rounding_mode

definition validate_rounding_rule :: "rounding_rule \<Rightarrow> rounding_rule res" where
  "validate_rounding_rule r =
     rbind (validate_identifier_string (rr_id r)) (\<lambda>i.
       if rr_precision r < 0 \<or> 10 < rr_precision r then Inl (ValidationError ''precision'')
       else Inr (r\<lparr>rr_id := i\<rparr>))"

record premium_constraint =
  pc_id :: string
  pc_name :: string
  pc_type :: constraint_type
  pc_amount :: decimal
  pc_applies_to :: string
  pc_sequence :: "int option"
  pc_period :: "effective_period option"
  pc_provenance :: "provenance option"

definition validate_constraint :: "premium_constraint \<Rightarrow> premium_constraint res" where
  "validate_constraint c =
     rbind (validate_opt validate_dates (pc_period c)) (\<lambda>_.
     rbind (validate_opt validate_confidence (pc_provenance c)) (\<lambda>_.
     rbind (validate_identifier_string (pc_id c)) (\<lambda>i.
     rbind (validate_identifier_string (pc_applies_to c)) (\<lambda>a.
       Inr (c\<lparr>pc_id := i, pc_applies_to := a\<rparr>)))))"

record pricing_fee =
  fee_id :: string
  fee_name :: string
  fee_amount :: decimal
  fee_applies_to :: string
  fee_sequence :: "int option"
  fee_period :: "effective_period option"
  fee_provenance :: "provenance option"

definition validate_fee :: "pricing_fee \<Rightarrow> pricing_fee res" where
  "validate_fee c =
     rbind (validate_opt validate_dates (fee_period c)) (\<lambda>_.
     rbind (validate_opt validate_confidence (fee_provenance c)) (\<lambda>_.
     rbind (validate_identifier_string (fee_id c)) (\<lambda>i.
     rbind (validate_identifier_string (fee_applies_to c)) (\<lambda>a.
       Inr (c\<lparr>fee_id := i, fee_applies_to := a\<rparr>)))))"

section \<open>Rate tables (tables.py)\<close>

record table_dimension =
  td_input_ref :: string
  td_lookup_type :: table_lookup_type

definition validate_input_ref :: "table_dimension \<Rightarrow> table_dimension res" where
  "validate_input_ref d = rbind (validate_identifier_string (td_input_ref d)) (\<lambda>i. Inr (d\<lparr>td_input_ref := i\<rparr>))"

record range_match =
  rm_minimum :: "pyval option"
  rm_maximum :: "pyval option"
  rm_include_minimum :: bool
  rm_include_maximum :: bool

datatype table_match = ExactMatch pyval | RangeMatch range_match

definition validate_range :: "range_match \<Rightarrow> range_match res" where
  "validate_range r =
     (if rm_minimum r = None \<and> rm_maximum r = None then Inl (ValidationError ''range_unbounded'')
      else rbind (min_max_ok (rm_minimum r) (rm_maximum r)) (\<lambda>ok.
        if ok then Inr r else Inl (ValidationError ''range_order'')))"

fun validate_match :: "table_match \<Rightarrow> table_match res" where
  "validate_match (ExactMatch v) = Inr (ExactMatch v)"
| "validate_match (RangeMatch r) = rbind (validate_range r) (\<lambda>r'. Inr (RangeMatch r'))"

record table_row =
  row_matches :: "table_match list"
  row_value :: decimal
  row_priority :: "int option"

record rate_table =
  tbl_id :: string
  tbl_name :: string
  tbl_dimensions :: "table_dimension list"
  tbl_rows :: "table_row list"
  tbl_period :: "effective_period option"
  tbl_provenance :: "provenance option"
  tbl_requires_total_coverage :: bool
  tbl_default_value :: "decimal option"

definition validate_row :: "table_row \<Rightarrow> table_row res" where
  "validate_row r = rbind (rmap_list validate_match (row_matches r)) (\<lambda>ms. Inr (r\<lparr>row_matches := ms\<rparr>))"

definition validate_table :: "rate_table \<Rightarrow> rate_table res" where
  "validate_table t =
     rbind (rmap_list validate_input_ref (tbl_dimensions t)) (\<lambda>ds.
     rbind (rmap_list validate_row (tbl_rows t)) (\<lambda>rs.
     rbind (validate_opt validate_dates (tbl_period t)) (\<lambda>_.
     rbind (validate_opt validate_confidence (tbl_provenance t)) (\<lambda>_.
     rbind (validate_identifier_string (tbl_id t)) (\<lambda>i.
       if length ds \<notin> {1, 2} then Inl (ValidationError ''dimensions'')
       else if \<exists>r \<in> set rs. length (row_matches r) \<noteq> length ds then Inl (ValidationError ''row_matches'')
       else Inr (t\<lparr>tbl_id := i, tbl_dimensions := ds, tbl_rows := rs\<rparr>))))))"

text \<open>
  A range bound, with \<open>Decimal("-Infinity")\<close> and \<open>Decimal("Infinity")\<close> for an open end.
  \<open>minimum\<close> and \<open>maximum\<close> of a validated range are \<open>int\<close> or \<open>Decimal\<close>, so \<open>Decimal(str(x))\<close>
  is the number itself (\<open>is_number_to_dec\<close>).
\<close>

datatype bound = NegInf | Fin decimal | PosInf

fun bound_less :: "bound \<Rightarrow> bound \<Rightarrow> bool" where
  "bound_less NegInf b = (b \<noteq> NegInf)"
| "bound_less (Fin x) (Fin y) = dec_less x y"
| "bound_less (Fin x) PosInf = True"
| "bound_less (Fin x) NegInf = False"
| "bound_less PosInf b = False"

fun bound_eq :: "bound \<Rightarrow> bound \<Rightarrow> bool" where
  "bound_eq (Fin x) (Fin y) = dec_eq x y"
| "bound_eq a b = (a = b)"

definition number_bound :: "bound \<Rightarrow> pyval option \<Rightarrow> bound" where
  "number_bound open_end v =
     (case v of None \<Rightarrow> open_end
      | Some x \<Rightarrow> (case num_of x of Some d \<Rightarrow> Fin d | None \<Rightarrow> open_end))"

definition range_bounds :: "range_match \<Rightarrow> bound \<times> bound" where
  "range_bounds m = (number_bound NegInf (rm_minimum m), number_bound PosInf (rm_maximum m))"

definition ranges_overlap :: "range_match \<Rightarrow> range_match \<Rightarrow> bool" where
  "ranges_overlap a b =
     (let (a_low, a_high) = range_bounds a; (b_low, b_high) = range_bounds b in
      if bound_less a_high b_low
           \<or> (bound_eq a_high b_low \<and> \<not> (rm_include_maximum a \<and> rm_include_minimum b)) then False
      else if bound_less b_high a_low
           \<or> (bound_eq b_high a_low \<and> \<not> (rm_include_maximum b \<and> rm_include_minimum a)) then False
      else True)"

text \<open>The issue list of \<open>validate_range_coverage\<close>: the two kinds of message with what they name.\<close>

datatype range_issue = AmbiguousOverlap string nat nat | CoverageGap string bound bound

definition first_range :: "table_row \<Rightarrow> (table_row \<times> range_match) option" where
  "first_range r = (case row_matches r of RangeMatch m # _ \<Rightarrow> Some (r, m) | _ \<Rightarrow> None)"

definition range_rows :: "rate_table \<Rightarrow> (table_row \<times> range_match) list" where
  "range_rows t = List.map_filter first_range (tbl_rows t)"

definition ambiguous_pair :: "table_row \<times> range_match \<Rightarrow> table_row \<times> range_match \<Rightarrow> bool" where
  "ambiguous_pair x y \<longleftrightarrow> ranges_overlap (snd x) (snd y) \<and>
     \<not> (row_priority (fst x) \<noteq> None \<and> row_priority (fst y) \<noteq> None
        \<and> row_priority (fst x) \<noteq> row_priority (fst y))"

definition overlap_issues :: "string \<Rightarrow> (table_row \<times> range_match) list \<Rightarrow> range_issue list" where
  "overlap_issues i rs =
     concat (map (\<lambda>a. map (\<lambda>b. AmbiguousOverlap i a b)
       (filter (\<lambda>b. ambiguous_pair (rs ! a) (rs ! b)) [Suc a..<length rs])) [0..<length rs])"

text \<open>\<open>sorted(\<dots>, key=lambda bounds: bounds[0])\<close>: a low bound is \<open>-Infinity\<close> or a number.\<close>

definition low_key :: "bound \<times> bound \<Rightarrow> rat option" where
  "low_key p = (case fst p of Fin d \<Rightarrow> Some (dval d) | _ \<Rightarrow> None)"

fun gap_issues :: "string \<Rightarrow> (bound \<times> bound) list \<Rightarrow> range_issue list" where
  "gap_issues i (p # q # rest) =
     (if bound_less (snd p) (fst q) then [CoverageGap i (snd p) (fst q)] else []) @ gap_issues i (q # rest)"
| "gap_issues i _ = []"

definition validate_range_coverage :: "rate_table \<Rightarrow> range_issue list" where
  "validate_range_coverage t =
     (if length (tbl_dimensions t) \<noteq> 1 \<or> td_lookup_type (tbl_dimensions t ! 0) \<noteq> RANGE then []
      else overlap_issues (tbl_id t) (range_rows t)
        @ (if tbl_requires_total_coverage t \<and> tbl_default_value t = None
           then gap_issues (tbl_id t) (sort_key low_key (map (\<lambda>x. range_bounds (snd x)) (range_rows t)))
           else []))"

section \<open>Rules, calculations, modifiers\<close>

record pricing_rule =
  rule_id :: string
  rule_name :: string
  rule_condition :: condition
  rule_when_true :: expr
  rule_when_false :: expr
  rule_period :: "effective_period option"
  rule_provenance :: "provenance option"

definition validate_rule :: "pricing_rule \<Rightarrow> pricing_rule res" where
  "validate_rule r =
     rbind (validate_conditions (rule_condition r)) (\<lambda>c.
     rbind (validate_operands (rule_when_true r)) (\<lambda>a.
     rbind (validate_operands (rule_when_false r)) (\<lambda>b.
     rbind (validate_opt validate_dates (rule_period r)) (\<lambda>_.
     rbind (validate_opt validate_confidence (rule_provenance r)) (\<lambda>_.
     rbind (validate_identifier_string (rule_id r)) (\<lambda>i.
       Inr (r\<lparr>rule_id := i, rule_condition := c, rule_when_true := a, rule_when_false := b\<rparr>)))))))"

record calculation_node =
  calc_id :: string
  calc_name :: string
  calc_expression :: expr
  calc_depends_on :: "string list"
  calc_rounding_rule_ref :: "string option"
  calc_rounding_rule :: "rounding_rule option"
  calc_period :: "effective_period option"
  calc_provenance :: "provenance option"
  calc_description :: "string option"

definition own_rounding_ref :: "rounding_rule option \<Rightarrow> string option \<Rightarrow> string option" where
  "own_rounding_ref rule rref = (case (rule, rref) of (Some r, None) \<Rightarrow> Some (rr_id r) | _ \<Rightarrow> rref)"

definition validate_node :: "calculation_node \<Rightarrow> calculation_node res" where
  "validate_node n =
     rbind (validate_operands (calc_expression n)) (\<lambda>e.
     rbind (validate_opt validate_rounding_rule (calc_rounding_rule n)) (\<lambda>rule.
     rbind (validate_opt validate_dates (calc_period n)) (\<lambda>_.
     rbind (validate_opt validate_confidence (calc_provenance n)) (\<lambda>_.
     rbind (validate_identifier_string (calc_id n)) (\<lambda>i.
     rbind (rmap_list validate_identifier_string (calc_depends_on n)) (\<lambda>deps.
     rbind (validate_identifier_opt (calc_rounding_rule_ref n)) (\<lambda>rref.
       Inr (n\<lparr>calc_id := i, calc_expression := e, calc_depends_on := deps, calc_rounding_rule := rule,
              calc_rounding_rule_ref := own_rounding_ref rule rref\<rparr>))))))))"

text \<open>\<open>value: Decimal | NodeReference\<close>.\<close>

datatype modifier_value = ModDec decimal | ModRef string

fun validate_modifier_value :: "modifier_value \<Rightarrow> modifier_value res" where
  "validate_modifier_value (ModDec d) = Inr (ModDec d)"
| "validate_modifier_value (ModRef r) = rbind (validate_identifier_string r) (\<lambda>x. Inr (ModRef x))"

record pricing_modifier =
  mod_id :: string
  mod_name :: string
  mod_type :: modifier_type
  mod_applies_to :: string
  mod_value :: modifier_value
  mod_eligibility :: "condition option"
  mod_sequence :: "int option"
  mod_period :: "effective_period option"
  mod_provenance :: "provenance option"

definition validate_modifier :: "pricing_modifier \<Rightarrow> pricing_modifier res" where
  "validate_modifier m =
     rbind (validate_modifier_value (mod_value m)) (\<lambda>v.
     rbind (validate_opt validate_conditions (mod_eligibility m)) (\<lambda>c.
     rbind (validate_opt validate_dates (mod_period m)) (\<lambda>_.
     rbind (validate_opt validate_confidence (mod_provenance m)) (\<lambda>_.
     rbind (validate_identifier_string (mod_id m)) (\<lambda>i.
     rbind (validate_identifier_string (mod_applies_to m)) (\<lambda>a.
       Inr (m\<lparr>mod_id := i, mod_applies_to := a, mod_value := v, mod_eligibility := c\<rparr>)))))))"

record pricing_constant =
  const_id :: string
  const_name :: string
  const_value :: decimal
  const_description :: "string option"
  const_period :: "effective_period option"
  const_provenance :: "provenance option"

definition validate_constant :: "pricing_constant \<Rightarrow> pricing_constant res" where
  "validate_constant c =
     rbind (validate_opt validate_dates (const_period c)) (\<lambda>_.
     rbind (validate_opt validate_confidence (const_provenance c)) (\<lambda>_.
     rbind (validate_identifier_string (const_id c)) (\<lambda>i. Inr (c\<lparr>const_id := i\<rparr>))))"

section \<open>The package (package.py)\<close>

record ipir_package =
  pkg_ipir_version :: string
  pkg_id :: string
  pkg_name :: string
  pkg_version :: string
  pkg_product :: insurance_product
  pkg_period :: effective_period
  pkg_transaction_types :: "transaction_type list"
  pkg_inputs :: "pricing_input list"
  pkg_constants :: "pricing_constant list"
  pkg_tables :: "rate_table list"
  pkg_rules :: "pricing_rule list"
  pkg_calculations :: "calculation_node list"
  pkg_rounding_rules :: "rounding_rule list"
  pkg_modifiers :: "pricing_modifier list"
  pkg_constraints :: "premium_constraint list"
  pkg_fees :: "pricing_fee list"
  pkg_coverages :: "coverage_definition list"
  pkg_outputs :: "pricing_output list"
  pkg_provenance :: "provenance option"

text \<open>The entities of \<open>validate_package\<close> in its order, each with its entity type.\<close>

definition entities :: "ipir_package \<Rightarrow> (string \<times> string) list" where
  "entities p =
     map (\<lambda>x. (pi_id x, ''input'')) (pkg_inputs p)
     @ map (\<lambda>x. (const_id x, ''constant'')) (pkg_constants p)
     @ map (\<lambda>x. (tbl_id x, ''table'')) (pkg_tables p)
     @ map (\<lambda>x. (rule_id x, ''rule'')) (pkg_rules p)
     @ map (\<lambda>x. (calc_id x, ''calculation'')) (pkg_calculations p)
     @ map (\<lambda>x. (mod_id x, ''modifier'')) (pkg_modifiers p)
     @ map (\<lambda>x. (pc_id x, ''constraint'')) (pkg_constraints p)
     @ map (\<lambda>x. (fee_id x, ''fee'')) (pkg_fees p)
     @ map (\<lambda>x. (cov_id x, ''coverage'')) (pkg_coverages p)
     @ map (\<lambda>x. (out_id x, ''output'')) (pkg_outputs p)"

definition node_ids :: "ipir_package \<Rightarrow> string list" where
  "node_ids p = map fst (entities p)"

definition see_entity :: "string \<times> string \<Rightarrow> (string, string) dict \<Rightarrow> (string, string) dict res" where
  "see_entity x seen =
     (case dget seen (fst x) of
        Some _ \<Rightarrow> Inl (ValidationError (''duplicate_node_id:'' @ fst x))
      | None \<Rightarrow> Inr (dset (fst x) (snd x) seen))"

definition see_rounding :: "rounding_rule \<Rightarrow> string list \<Rightarrow> string list res" where
  "see_rounding r seen =
     (if rr_id r \<in> set seen then Inl (ValidationError (''duplicate_rounding_rule:'' @ rr_id r))
      else Inr (rr_id r # seen))"

definition check_output :: "(string, string) dict \<Rightarrow> pricing_output \<Rightarrow> unit \<Rightarrow> unit res" where
  "check_output seen out _ =
     (case dget seen (out_source_ref out) of
        None \<Rightarrow> Inl (ValidationError (''output_source:'' @ out_id out))
      | Some _ \<Rightarrow> Inr ())"

definition validate_package :: "ipir_package \<Rightarrow> ipir_package res" where
  "validate_package p =
     rbind (validate_identifier_string (pkg_id p)) (\<lambda>i.
       if pkg_calculations p = [] then Inl (ValidationError ''no_calculations'')
       else if pkg_outputs p = [] then Inl (ValidationError ''no_outputs'')
       else
         rbind (rfold see_entity (entities p) []) (\<lambda>seen.
         rbind (rfold see_rounding (pkg_rounding_rules p) []) (\<lambda>_.
         rbind (rfold (check_output seen) (pkg_outputs p) ()) (\<lambda>_.
           Inr (p\<lparr>pkg_id := i\<rparr>)))))"

text \<open>Constructing a package validates the fields in their order and then the package.\<close>

definition construct_package :: "ipir_package \<Rightarrow> ipir_package res" where
  "construct_package p =
     rbind (validate_product (pkg_product p)) (\<lambda>prod.
     rbind (validate_dates (pkg_period p)) (\<lambda>period.
     rbind (rmap_list validate_input (pkg_inputs p)) (\<lambda>inputs.
     rbind (rmap_list validate_constant (pkg_constants p)) (\<lambda>constants.
     rbind (rmap_list validate_table (pkg_tables p)) (\<lambda>tables.
     rbind (rmap_list validate_rule (pkg_rules p)) (\<lambda>rules.
     rbind (rmap_list validate_node (pkg_calculations p)) (\<lambda>calculations.
     rbind (rmap_list validate_rounding_rule (pkg_rounding_rules p)) (\<lambda>rounding_rules.
     rbind (rmap_list validate_modifier (pkg_modifiers p)) (\<lambda>modifiers.
     rbind (rmap_list validate_constraint (pkg_constraints p)) (\<lambda>constraints.
     rbind (rmap_list validate_fee (pkg_fees p)) (\<lambda>fees.
     rbind (rmap_list validate_coverage (pkg_coverages p)) (\<lambda>coverages.
     rbind (rmap_list validate_output (pkg_outputs p)) (\<lambda>outputs.
     rbind (validate_opt validate_confidence (pkg_provenance p)) (\<lambda>prov.
       validate_package
         (p\<lparr>pkg_product := prod, pkg_period := period, pkg_inputs := inputs, pkg_constants := constants,
            pkg_tables := tables, pkg_rules := rules, pkg_calculations := calculations,
            pkg_rounding_rules := rounding_rules, pkg_modifiers := modifiers,
            pkg_constraints := constraints, pkg_fees := fees, pkg_coverages := coverages,
            pkg_outputs := outputs, pkg_provenance := prov\<rparr>)))))))))))))))"

end
