(* ===== verification/IpirLaws.thy ===== *)
theory IpirLaws
  imports Ipir
begin

text \<open>
  What the validators of the rate-plan model guarantee: a validated package validates to
  itself, its node ids are distinct and its outputs point at nodes; and what the table
  range check (\<open>validate_range_coverage\<close>) does and does not exclude, stated on the set of
  numbers a range accepts.
\<close>

section \<open>Validation is idempotent\<close>

named_theorems idem_intros \<open>validators whose result validates to itself\<close>

definition idem :: "('a \<Rightarrow> 'a res) \<Rightarrow> bool" where
  "idem f \<longleftrightarrow> (\<forall>x y. f x = Inr y \<longrightarrow> f y = Inr y)"

lemma idemD: "idem f \<Longrightarrow> f x = Inr y \<Longrightarrow> f y = Inr y"
  by (simp add: idem_def)

lemma rmap_list_fix:
  "rmap_list f xs = Inr ys \<Longrightarrow> (\<And>x y. x \<in> set xs \<Longrightarrow> f x = Inr y \<Longrightarrow> f y = Inr y)
     \<Longrightarrow> rmap_list f ys = Inr ys"
  unfolding rmap_list_Inr_iff list_all2_conv_all_nth by (metis nth_mem)

lemma idem_rmap_list: "idem f \<Longrightarrow> idem (rmap_list f)"
  by (auto simp: idem_def rmap_list_Inr_iff list_all2_conv_all_nth)

lemma idem_validate_opt: "idem f \<Longrightarrow> idem (validate_opt f)"
  by (auto simp: idem_def validate_opt_def res_simps split: option.splits)

lemma py_strip_idem: "py_strip (py_strip s) = py_strip s"
proof -
  have drop: "dropWhile is_space t = t" if "t = [] \<or> \<not> is_space (hd t)" for t
    using that by (cases t) auto
  define a where "a = dropWhile is_space s"
  define b where "b = dropWhile is_space (rev a)"
  have a: "a = [] \<or> \<not> is_space (hd a)" unfolding a_def by (metis hd_dropWhile)
  have b: "b = [] \<or> \<not> is_space (hd b)" unfolding b_def by (metis hd_dropWhile)
  obtain c where c: "rev a = c @ b" unfolding b_def by (metis takeWhile_dropWhile_id)
  then have "a = rev b @ rev c" by (metis rev_append rev_rev_ident)
  with a have "rev b = [] \<or> \<not> is_space (hd (rev b))" by (cases "rev b") auto
  then have "dropWhile is_space (rev b) = rev b" by (rule drop)
  moreover have "dropWhile is_space b = b" using b by (rule drop)
  moreover have "py_strip s = rev b" by (simp add: py_strip_def a_def b_def)
  ultimately show ?thesis by (simp add: py_strip_def)
qed

lemma validate_identifier_Inr:
  "validate_identifier_string v = Inr s \<longleftrightarrow> s = py_strip v \<and> s \<noteq> [] \<and> list_all id_char s"
  by (auto simp: validate_identifier_string_def Let_def)

lemma idem_identifier [idem_intros]: "idem validate_identifier_string"
  by (simp add: idem_def validate_identifier_Inr py_strip_idem)

lemma idem_identifier_opt [idem_intros]: "idem validate_identifier_opt"
  using idem_validate_opt [OF idem_identifier]
  by (simp add: idem_def validate_identifier_opt_def validate_opt_def)

lemma idem_dates: "idem validate_dates"
  by (auto simp: idem_def validate_dates_def split: option.splits if_splits)

lemma idem_confidence: "idem validate_confidence"
  by (auto simp: idem_def validate_confidence_def split: if_splits)

lemma idem_operands [idem_intros]: "idem validate_operands"
proof -
  have "validate_operands e = Inr e' \<Longrightarrow> validate_operands e' = Inr e'" for e e'
  proof (induction e arbitrary: e' rule: validate_operands.induct)
    case (2 r)
    then show ?case by (auto simp: res_simps dest: idemD [OF idem_identifier])
  next
    case (3 op es)
    then obtain es' where es: "rmap_list validate_operands es = Inr es'" "operand_count_ok op (length es')"
      "e' = EOp op es'" by (auto simp: res_simps split: if_splits)
    from es(1) have "rmap_list validate_operands es' = Inr es'" by (rule rmap_list_fix) (rule "3.IH")
    with es show ?case by simp
  qed auto
  then show ?thesis by (simp add: idem_def)
qed

lemma idem_conditions [idem_intros]: "idem validate_conditions"
proof -
  have "validate_conditions e = Inr e' \<Longrightarrow> validate_conditions e' = Inr e'" for e e'
  proof (induction e arbitrary: e' rule: validate_conditions.induct)
    case (1 l op r)
    then show ?case by (auto simp: res_simps dest: idemD [OF idem_operands])
  next
    case (2 op es)
    then obtain es' where es: "rmap_list validate_conditions es = Inr es'" "\<not> length es' < 1"
      "e' = Logic op es'" by (auto simp: res_simps split: if_splits)
    from es(1) have "rmap_list validate_conditions es' = Inr es'" by (rule rmap_list_fix) (rule "2.IH")
    with es show ?case by simp
  qed
  then show ?thesis by (simp add: idem_def)
qed

lemma idem_match [idem_intros]: "idem validate_match"
proof -
  have "validate_match m = Inr m' \<Longrightarrow> validate_match m' = Inr m'" for m m'
    by (cases m) (auto simp: validate_range_def res_simps split: if_splits)
  then show ?thesis by (simp add: idem_def)
qed

lemma idem_modifier_value [idem_intros]: "idem validate_modifier_value"
proof -
  have "validate_modifier_value m = Inr m' \<Longrightarrow> validate_modifier_value m' = Inr m'" for m m'
    by (cases m) (auto simp: res_simps dest: idemD [OF idem_identifier])
  then show ?thesis by (simp add: idem_def)
qed

text \<open>A field that its validator has already seen; opaque, so that \<open>auto\<close> reaches it once.\<close>

definition fixed :: "('a \<Rightarrow> 'a res) \<Rightarrow> 'a \<Rightarrow> bool" where
  "fixed f y \<longleftrightarrow> f y = Inr y"

lemma fixedI: "idem f \<Longrightarrow> f x = Inr y \<Longrightarrow> fixed f y"
  by (simp add: fixed_def idem_def)

lemma same_period: "validate_opt validate_dates x = Inr y \<Longrightarrow> y = x \<and> fixed (validate_opt validate_dates) x"
  by (auto simp: fixed_def validate_opt_def validate_dates_def res_simps split: option.splits if_splits)

lemma same_provenance:
  "validate_opt validate_confidence x = Inr y \<Longrightarrow> y = x \<and> fixed (validate_opt validate_confidence) x"
  by (auto simp: fixed_def validate_opt_def validate_confidence_def res_simps split: option.splits if_splits)

lemmas field_fixed = idem_intros [THEN fixedI] idem_intros [THEN idem_rmap_list, THEN fixedI]
  idem_intros [THEN idem_validate_opt, THEN fixedI] same_period same_provenance

lemma idem_rounding_rule [idem_intros]: "idem validate_rounding_rule"
  by (auto simp: idem_def validate_rounding_rule_def res_simps split: if_splits dest!: field_fixed; auto simp: fixed_def)
lemma idem_input_ref [idem_intros]: "idem validate_input_ref"
  by (auto simp: idem_def validate_input_ref_def res_simps dest!: field_fixed; auto simp: fixed_def)
lemma idem_product [idem_intros]: "idem validate_product"
  by (auto simp: idem_def validate_product_def res_simps dest!: field_fixed; auto simp: fixed_def)
lemma idem_coverage [idem_intros]: "idem validate_coverage"
  by (auto simp: idem_def validate_coverage_def res_simps dest!: field_fixed; auto simp: fixed_def)
lemma idem_output [idem_intros]: "idem validate_output"
  by (auto simp: idem_def validate_output_def res_simps dest!: field_fixed; auto simp: fixed_def)
lemma idem_input [idem_intros]: "idem validate_input"
  by (auto simp: idem_def validate_input_def res_simps split: if_splits dest!: field_fixed; auto simp: fixed_def intro: exI [of _ True])
lemma idem_constraint [idem_intros]: "idem validate_constraint"
  by (auto simp: idem_def validate_constraint_def res_simps dest!: field_fixed; auto simp: fixed_def)
lemma idem_fee [idem_intros]: "idem validate_fee"
  by (auto simp: idem_def validate_fee_def res_simps dest!: field_fixed; auto simp: fixed_def)
lemma idem_constant [idem_intros]: "idem validate_constant"
  by (auto simp: idem_def validate_constant_def res_simps dest!: field_fixed; auto simp: fixed_def)
lemma idem_rule [idem_intros]: "idem validate_rule"
  by (auto simp: idem_def validate_rule_def res_simps dest!: field_fixed; auto simp: fixed_def)
lemma idem_row [idem_intros]: "idem validate_row"
  by (auto simp: idem_def validate_row_def res_simps dest!: field_fixed; auto simp: fixed_def)
lemma idem_modifier [idem_intros]: "idem validate_modifier"
  by (auto simp: idem_def validate_modifier_def res_simps dest!: field_fixed; auto simp: fixed_def)

lemma idem_table [idem_intros]: "idem validate_table"
  unfolding idem_def
proof (intro allI impI)
  fix t u assume "validate_table t = Inr u"
  then obtain ds rs i where *: "rmap_list validate_input_ref (tbl_dimensions t) = Inr ds"
    "rmap_list validate_row (tbl_rows t) = Inr rs" "validate_identifier_string (tbl_id t) = Inr i"
    and u: "u = t\<lparr>tbl_id := i, tbl_dimensions := ds, tbl_rows := rs\<rparr>"
    and len: "length ds \<in> {1, 2}" "\<not> (\<exists>r \<in> set rs. length (row_matches r) \<noteq> length ds)"
    and pre: "fixed (validate_opt validate_dates) (tbl_period t)"
      "fixed (validate_opt validate_confidence) (tbl_provenance t)"
    unfolding validate_table_def rbind_Inr_iff
    by (clarsimp split: if_split_asm dest!: same_period same_provenance) blast
  have "rmap_list validate_input_ref ds = Inr ds" "rmap_list validate_row rs = Inr rs"
    "validate_identifier_string i = Inr i"
    using * idemD [OF idem_rmap_list [OF idem_input_ref]] idemD [OF idem_rmap_list [OF idem_row]]
      idemD [OF idem_identifier] by blast+
  with len pre show "validate_table u = Inr u"
    unfolding u validate_table_def fixed_def by simp
qed

lemma own_rounding_ref_fixed:
  assumes "fixed (validate_opt validate_rounding_rule) rule" "fixed validate_identifier_opt rref"
  shows "validate_identifier_opt (own_rounding_ref rule rref) = Inr (own_rounding_ref rule rref)"
    and "own_rounding_ref rule (own_rounding_ref rule rref) = own_rounding_ref rule rref"
proof -
  have "validate_identifier_string (rr_id r) = Inr (rr_id r)" if "validate_rounding_rule r = Inr r" for r
    using that by (cases r) (auto simp: validate_rounding_rule_def res_simps split: if_splits)
  then show "validate_identifier_opt (own_rounding_ref rule rref) = Inr (own_rounding_ref rule rref)"
    using assms by (auto simp: own_rounding_ref_def fixed_def validate_identifier_opt_def validate_opt_def
        res_simps split: option.splits)
  show "own_rounding_ref rule (own_rounding_ref rule rref) = own_rounding_ref rule rref"
    by (simp add: own_rounding_ref_def split: option.splits)
qed

lemma idem_node [idem_intros]: "idem validate_node"
  by (auto simp: idem_def validate_node_def res_simps dest!: field_fixed
      fixedI [OF idem_validate_opt [OF idem_rounding_rule]];
      frule (1) own_rounding_ref_fixed, auto simp: fixed_def own_rounding_ref_fixed)

text \<open>\<open>validate_package\<close> changes nothing but the package id.\<close>

lemma see_entity_Inr:
  "see_entity x seen = Inr seen' \<longleftrightarrow> fst x \<notin> fst ` set seen \<and> seen' = dset (fst x) (snd x) seen"
proof (cases "dget seen (fst x)")
  case None
  then have "fst x \<notin> fst ` set seen" by (simp add: map_of_eq_None_iff)
  with None show ?thesis by (auto simp: see_entity_def)
next
  case (Some t)
  then have "fst x \<in> fst ` set seen" by (metis map_of_eq_None_iff option.distinct(1))
  with Some show ?thesis by (simp add: see_entity_def)
qed

lemma see_entity_loop:
  "rfold see_entity es seen = Inr seen' \<longleftrightarrow>
     distinct (map fst es) \<and> set (map fst es) \<inter> fst ` set seen = {} \<and>
     seen' = fold (\<lambda>x. dset (fst x) (snd x)) es seen"
proof (induction es arbitrary: seen)
  case (Cons x es)
  show ?case
    by (auto simp: res_simps see_entity_Inr Cons.IH keys_dset)
qed auto

lemma keys_fold_dset: "fst ` set (fold (\<lambda>x. dset (fst x) (snd x)) es d) = fst ` set es \<union> fst ` set d"
  by (induction es arbitrary: d) (auto simp: keys_dset)

lemma see_rounding_loop:
  "rfold see_rounding rs seen = Inr seen' \<longleftrightarrow>
     distinct (map rr_id rs) \<and> set (map rr_id rs) \<inter> set seen = {} \<and> seen' = rev (map rr_id rs) @ seen"
  by (induction rs arbitrary: seen) (auto simp: res_simps see_rounding_def)

lemma check_output_loop:
  "rfold (check_output seen) os u = Inr u' \<longleftrightarrow> (\<forall>x \<in> set os. out_source_ref x \<in> fst ` set seen)"
proof (induction os arbitrary: u)
  case (Cons x os)
  show ?case
    using Cons.IH map_of_eq_None_iff [of seen "out_source_ref x"]
    by (auto simp: res_simps check_output_def split: option.splits)
qed simp

lemma validate_package_Inr:
  "validate_package p = Inr q \<longleftrightarrow>
     (\<exists>i. validate_identifier_string (pkg_id p) = Inr i \<and> q = p\<lparr>pkg_id := i\<rparr>)
     \<and> pkg_calculations p \<noteq> [] \<and> pkg_outputs p \<noteq> []
     \<and> distinct (node_ids p) \<and> distinct (map rr_id (pkg_rounding_rules p))
     \<and> (\<forall>x \<in> set (pkg_outputs p). out_source_ref x \<in> set (node_ids p))"
proof -
  have keys: "fst ` set (fold (\<lambda>x. dset (fst x) (snd x)) (entities p) []) = set (node_ids p)"
    by (simp add: keys_fold_dset node_ids_def)
  show ?thesis
    unfolding validate_package_def
    by (auto simp: res_simps see_entity_loop see_rounding_loop check_output_loop keys node_ids_def [symmetric])
qed

text \<open>Every field of the package is one its own validator returns unchanged.\<close>

definition fields_fixed :: "ipir_package \<Rightarrow> bool" where
  "fields_fixed p \<longleftrightarrow> validate_product (pkg_product p) = Inr (pkg_product p)
     \<and> validate_dates (pkg_period p) = Inr (pkg_period p)
     \<and> rmap_list validate_input (pkg_inputs p) = Inr (pkg_inputs p)
     \<and> rmap_list validate_constant (pkg_constants p) = Inr (pkg_constants p)
     \<and> rmap_list validate_table (pkg_tables p) = Inr (pkg_tables p)
     \<and> rmap_list validate_rule (pkg_rules p) = Inr (pkg_rules p)
     \<and> rmap_list validate_node (pkg_calculations p) = Inr (pkg_calculations p)
     \<and> rmap_list validate_rounding_rule (pkg_rounding_rules p) = Inr (pkg_rounding_rules p)
     \<and> rmap_list validate_modifier (pkg_modifiers p) = Inr (pkg_modifiers p)
     \<and> rmap_list validate_constraint (pkg_constraints p) = Inr (pkg_constraints p)
     \<and> rmap_list validate_fee (pkg_fees p) = Inr (pkg_fees p)
     \<and> rmap_list validate_coverage (pkg_coverages p) = Inr (pkg_coverages p)
     \<and> rmap_list validate_output (pkg_outputs p) = Inr (pkg_outputs p)
     \<and> validate_opt validate_confidence (pkg_provenance p) = Inr (pkg_provenance p)"

lemma construct_package_fixed: "fields_fixed p \<Longrightarrow> construct_package p = validate_package p"
  by (simp add: fields_fixed_def construct_package_def)

lemmas idem_models = idemD [OF idem_product] idemD [OF idem_dates]
  idem_intros [THEN idem_rmap_list, THEN idemD] idemD [OF idem_validate_opt [OF idem_confidence]]

lemma construct_package_fields:
  assumes "construct_package p = Inr q"
  obtains p' where "fields_fixed p'" "validate_package p' = Inr q"
proof -
  from assms obtain prod period ins cs ts rs calcs rrs ms pcs fs covs outs prov where
    "validate_product (pkg_product p) = Inr prod" "validate_dates (pkg_period p) = Inr period"
    "rmap_list validate_input (pkg_inputs p) = Inr ins" "rmap_list validate_constant (pkg_constants p) = Inr cs"
    "rmap_list validate_table (pkg_tables p) = Inr ts" "rmap_list validate_rule (pkg_rules p) = Inr rs"
    "rmap_list validate_node (pkg_calculations p) = Inr calcs"
    "rmap_list validate_rounding_rule (pkg_rounding_rules p) = Inr rrs"
    "rmap_list validate_modifier (pkg_modifiers p) = Inr ms"
    "rmap_list validate_constraint (pkg_constraints p) = Inr pcs"
    "rmap_list validate_fee (pkg_fees p) = Inr fs" "rmap_list validate_coverage (pkg_coverages p) = Inr covs"
    "rmap_list validate_output (pkg_outputs p) = Inr outs"
    "validate_opt validate_confidence (pkg_provenance p) = Inr prov"
    and "validate_package
         (p\<lparr>pkg_product := prod, pkg_period := period, pkg_inputs := ins, pkg_constants := cs,
            pkg_tables := ts, pkg_rules := rs, pkg_calculations := calcs, pkg_rounding_rules := rrs,
            pkg_modifiers := ms, pkg_constraints := pcs, pkg_fees := fs, pkg_coverages := covs,
            pkg_outputs := outs, pkg_provenance := prov\<rparr>) = Inr q" (is "validate_package ?p = _")
    unfolding construct_package_def rbind_Inr_iff by blast
  moreover from this have "fields_fixed ?p"
    unfolding fields_fixed_def by (simp add: idem_models)
  ultimately show ?thesis using that by blast
qed

lemma construct_package_result:
  assumes "construct_package p = Inr q"
  shows "fields_fixed q" "validate_package q = Inr q"
proof -
  obtain p' where p': "fields_fixed p'" "validate_package p' = Inr q"
    using assms by (rule construct_package_fields)
  then obtain i where i: "validate_identifier_string (pkg_id p') = Inr i" "q = p'\<lparr>pkg_id := i\<rparr>"
    by (auto simp: validate_package_Inr)
  then show "fields_fixed q" using p'(1) by (simp add: fields_fixed_def)
  have "validate_identifier_string i = Inr i" using i(1) by (rule idemD [OF idem_identifier])
  with p'(2) i show "validate_package q = Inr q"
    by (auto simp: validate_package_Inr node_ids_def entities_def)
qed

section \<open>Ranges as sets of numbers\<close>

text \<open>The numbers a validated range accepts, its inclusion flags read.\<close>

definition above :: "bound \<Rightarrow> bool \<Rightarrow> rat \<Rightarrow> bool" where
  "above b inc x = (case b of NegInf \<Rightarrow> True | Fin d \<Rightarrow> (if inc then dval d \<le> x else dval d < x) | PosInf \<Rightarrow> False)"

definition below :: "bound \<Rightarrow> bool \<Rightarrow> rat \<Rightarrow> bool" where
  "below b inc x = (case b of NegInf \<Rightarrow> False | Fin d \<Rightarrow> (if inc then x \<le> dval d else x < dval d) | PosInf \<Rightarrow> True)"

definition in_range :: "range_match \<Rightarrow> rat \<Rightarrow> bool" where
  "in_range m x \<longleftrightarrow> above (fst (range_bounds m)) (rm_include_minimum m) x
     \<and> below (snd (range_bounds m)) (rm_include_maximum m) x"

definition separated :: "range_match \<Rightarrow> range_match \<Rightarrow> bool" where
  "separated a b \<longleftrightarrow> (let h = snd (range_bounds a); l = fst (range_bounds b) in
     bound_less h l \<or> (bound_eq h l \<and> \<not> (rm_include_maximum a \<and> rm_include_minimum b)))"

lemma ranges_overlap_separated: "ranges_overlap a b \<longleftrightarrow> \<not> separated a b \<and> \<not> separated b a"
proof (cases "range_bounds a"; cases "range_bounds b")
  fix la ha lb hb assume "range_bounds a = (la, ha)" "range_bounds b = (lb, hb)"
  then show ?thesis by (auto simp: ranges_overlap_def separated_def)
qed

lemma low_bound_cases: "fst (range_bounds m) = NegInf \<or> (\<exists>d. fst (range_bounds m) = Fin d)"
  by (auto simp: range_bounds_def number_bound_def split: option.splits)

lemma high_bound_cases: "snd (range_bounds m) = PosInf \<or> (\<exists>d. snd (range_bounds m) = Fin d)"
  by (auto simp: range_bounds_def number_bound_def split: option.splits)

lemma in_range_raise: "in_range m x \<Longrightarrow> x \<le> y \<Longrightarrow> below (snd (range_bounds m)) (rm_include_maximum m) y \<Longrightarrow> in_range m y"
  by (auto simp: in_range_def above_def split: bound.splits)

lemma in_range_lower: "in_range m x \<Longrightarrow> y \<le> x \<Longrightarrow> above (fst (range_bounds m)) (rm_include_minimum m) y \<Longrightarrow> in_range m y"
  by (auto simp: in_range_def below_def split: bound.splits)

lemma in_range_convex: "in_range m x \<Longrightarrow> in_range m z \<Longrightarrow> x \<le> y \<Longrightarrow> y \<le> z \<Longrightarrow> in_range m y"
  by (auto simp: in_range_def above_def below_def split: bound.splits if_splits)

lemma separated_less: "separated a b \<Longrightarrow> in_range a x \<Longrightarrow> in_range b y \<Longrightarrow> x < y"
  using low_bound_cases [of b] high_bound_cases [of a]
  by (auto simp: separated_def in_range_def above_def below_def Let_def dec_less_dval dec_eq_dval split: if_splits)

lemma not_separated_meet:
  assumes ne: "in_range a x0" "in_range b y0" and ns: "\<not> separated a b"
  shows "\<exists>x y. in_range a x \<and> in_range b y \<and> y \<le> x"
proof -
  consider "snd (range_bounds a) = PosInf" | "fst (range_bounds b) = NegInf"
    | h l where "snd (range_bounds a) = Fin h" "fst (range_bounds b) = Fin l"
    using low_bound_cases [of b] high_bound_cases [of a] by blast
  then show ?thesis
  proof cases
    case 1
    then have "in_range a (max x0 y0)" using in_range_raise [OF ne(1)] by (simp add: below_def)
    then show ?thesis using ne(2) by (meson max.cobounded2)
  next
    case 2
    then have "in_range b (min x0 y0)" using in_range_lower [OF ne(2)] by (simp add: above_def)
    then show ?thesis using ne(1) by (meson min.cobounded1)
  next
    case 3
    then consider "dval l < dval h" | "dval l = dval h" "rm_include_maximum a" "rm_include_minimum b"
      using ns by (force simp: separated_def dec_less_dval dec_eq_dval)
    then show ?thesis
    proof cases
      case 1
      define m where "m = (dval l + dval h) / 2"
      have m: "dval l < m" "m < dval h" using 1 by (simp_all add: m_def)
      have "in_range a (max x0 m)"
        using in_range_raise [OF ne(1), of "max x0 m"] m ne(1) \<open>snd (range_bounds a) = Fin h\<close>
        by (auto simp: below_def in_range_def max_def)
      moreover have "in_range b (min y0 m)"
        using in_range_lower [OF ne(2), of "min y0 m"] m ne(2) \<open>fst (range_bounds b) = Fin l\<close>
        by (auto simp: above_def in_range_def min_def)
      ultimately show ?thesis by (metis max.cobounded2 min.cobounded2 order_trans)
    next
      case 2
      have "x0 \<le> dval h" "dval l \<le> y0"
        using ne 3 2 by (auto simp: in_range_def below_def above_def)
      then have "in_range a (dval h)" "in_range b (dval l)"
        using in_range_raise [OF ne(1)] in_range_lower [OF ne(2)] 3 2 by (auto simp: below_def above_def)
      then show ?thesis using 2(1) by auto
    qed
  qed
qed

lemma convex_meet:
  assumes "in_range a x" "in_range b y" "y \<le> x" "in_range a x'" "in_range b y'" "x' \<le> y'"
  shows "\<exists>z. in_range a z \<and> in_range b z"
proof (cases "x' \<le> x")
  case True
  show ?thesis
  proof (cases "y \<le> x'")
    case True
    then have "in_range b x'" using assms in_range_convex [of b y y' x'] by blast
    with assms show ?thesis by blast
  next
    case False
    then have "in_range a y" using assms in_range_convex [of a x' x y] by simp
    with assms show ?thesis by blast
  qed
next
  case False
  then have "in_range b x" using assms in_range_convex [of b y y' x] by simp
  with assms show ?thesis by blast
qed

lemma overlap_meets:
  assumes ne: "in_range a x0" "in_range b y0"
  shows "ranges_overlap a b \<longleftrightarrow> (\<exists>x. in_range a x \<and> in_range b x)"
proof
  assume "ranges_overlap a b"
  then have ns: "\<not> separated a b" "\<not> separated b a" by (simp_all add: ranges_overlap_separated)
  from not_separated_meet [OF ne ns(1)] not_separated_meet [OF ne(2,1) ns(2)]
  show "\<exists>x. in_range a x \<and> in_range b x" using convex_meet by blast
next
  assume "\<exists>x. in_range a x \<and> in_range b x"
  then show "ranges_overlap a b"
    unfolding ranges_overlap_separated by (metis less_irrefl separated_less)
qed

section \<open>Coverage\<close>


definition in_hull :: "bound \<times> bound \<Rightarrow> rat \<Rightarrow> bool" where
  "in_hull p x \<longleftrightarrow> above (fst p) True x \<and> below (snd p) True x"

lemma gap_free_cover:
  assumes "gap_issues i ps = []" "sorted (map low_key ps)" "\<forall>p \<in> set ps. fst p \<noteq> PosInf \<and> snd p \<noteq> NegInf"
    and "p \<in> set ps" "q \<in> set ps" "above (fst p) True x" "below (snd q) True x"
  shows "\<exists>r \<in> set ps. in_hull r x"
  using assms
proof (induction ps arbitrary: p rule: gap_issues.induct)
  case (1 i u v rest)
  have low: "low_key u \<le> low_key r" if "r \<in> set (u # v # rest)" for r
    using that "1.prems"(2) by auto
  have mono: "above (fst u) True x" if "r \<in> set (u # v # rest)" "above (fst r) True x" for r
    using low [OF that(1)] that(2) "1.prems"(3) that(1)
    by (auto simp: low_key_def above_def split: bound.splits)
  have u: "above (fst u) True x" using mono "1.prems"(4,6) by blast
  show ?case
  proof (cases "below (snd u) True x")
    case True
    with u show ?thesis by (auto simp: in_hull_def)
  next
    case False
    then have q: "q \<in> set (v # rest)" using "1.prems"(5,7) by auto
    have "\<not> bound_less (snd u) (fst v)" "gap_issues i (v # rest) = []"
      using "1.prems"(1) by (auto split: if_splits)
    then have "above (fst v) True x"
      using False "1.prems"(3) by (cases "snd u"; cases "fst v") (auto simp: above_def below_def dec_less_dval)
    then have "\<exists>r \<in> set (v # rest). in_hull r x"
      using "1.IH" [of v] q \<open>gap_issues i (v # rest) = []\<close> "1.prems"(2,3,7) by auto
    then show ?thesis by auto
  qed
qed (auto simp: in_hull_def)

lemma range_rows_match:
  "(r, m) \<in> set (range_rows t) \<longleftrightarrow> r \<in> set (tbl_rows t) \<and> (\<exists>ms. row_matches r = RangeMatch m # ms)"
proof -
  have "first_range r' = Some (r, m) \<longleftrightarrow> r' = r \<and> (\<exists>ms. row_matches r = RangeMatch m # ms)" for r'
    by (auto simp: first_range_def split: list.splits table_match.splits)
  then show ?thesis by (force simp: range_rows_def List.map_filter_def image_iff)
qed

lemma coverage_range:
  assumes "length (tbl_dimensions t) = 1" "td_lookup_type (tbl_dimensions t ! 0) = RANGE"
    and "validate_range_coverage t = []"
  shows "overlap_issues (tbl_id t) (range_rows t) = []"
    and "tbl_requires_total_coverage t \<Longrightarrow> tbl_default_value t = None \<Longrightarrow>
      gap_issues (tbl_id t) (sort_key low_key (map (\<lambda>x. range_bounds (snd x)) (range_rows t))) = []"
  using assms by (auto simp: validate_range_coverage_def)

section \<open>Sample tables and packages for the witnesses\<close>

definition half_open_rows :: "table_row list" where
  "half_open_rows =
     [\<lparr>row_matches = [RangeMatch \<lparr>rm_minimum = Some (PInt 0), rm_maximum = Some (PInt 10),
         rm_include_minimum = True, rm_include_maximum = False\<rparr>], row_value = dec_one, row_priority = None\<rparr>,
      \<lparr>row_matches = [RangeMatch \<lparr>rm_minimum = Some (PInt 10), rm_maximum = Some (PInt 20),
         rm_include_minimum = False, rm_include_maximum = True\<rparr>], row_value = dec_one, row_priority = None\<rparr>]"

definition range_table :: "table_row list \<Rightarrow> rate_table" where
  "range_table rows =
     \<lparr>tbl_id = ''t'', tbl_name = ''t'', tbl_dimensions = [\<lparr>td_input_ref = ''age'', td_lookup_type = RANGE\<rparr>],
      tbl_rows = rows, tbl_period = None, tbl_provenance = None,
      tbl_requires_total_coverage = True, tbl_default_value = None\<rparr>"

definition range_row :: "int \<Rightarrow> int \<Rightarrow> decimal \<Rightarrow> table_row" where
  "range_row lo hi v =
     \<lparr>row_matches = [RangeMatch \<lparr>rm_minimum = Some (PInt lo), rm_maximum = Some (PInt hi),
        rm_include_minimum = True, rm_include_maximum = True\<rparr>], row_value = v, row_priority = None\<rparr>"

definition closed_table :: "int \<Rightarrow> int \<Rightarrow> rate_table" where
  "closed_table mid hi = range_table [range_row 0 mid dec_one, range_row mid hi (Dec False 125 (-2))]"

text \<open>A small homeowners plan: base rate times a roof-age factor, rounded to cents.\<close>

definition sample_table :: rate_table where
  "sample_table = (range_table [range_row 0 10 dec_one, range_row 11 100 (Dec False 125 (-2))])
     \<lparr>tbl_id := ''roof_factor'', tbl_dimensions := [\<lparr>td_input_ref = ''roof_age'', td_lookup_type = RANGE\<rparr>],
      tbl_requires_total_coverage := False\<rparr>"

definition sample_input :: pricing_input where
  "sample_input = \<lparr>pi_id = ''roof_age'', pi_name = ''Roof age'', pi_data_type = INTEGER_T, pi_required = True,
     pi_description = None, pi_unit = None, pi_allowed_values = None, pi_minimum = Some (PInt 0),
     pi_maximum = Some (PInt 100), pi_provenance = None\<rparr>"

definition sample_calculation :: calculation_node where
  "sample_calculation = \<lparr>calc_id = ''premium'', calc_name = ''Premium'',
     calc_expression = EOp MULTIPLY [ERef ''base_rate'', ERef ''roof_factor''], calc_depends_on = [],
     calc_rounding_rule_ref = Some ''cents'', calc_rounding_rule = None, calc_period = None,
     calc_provenance = None, calc_description = None\<rparr>"

definition sample_package :: ipir_package where
  "sample_package =
     \<lparr>pkg_ipir_version = ''0.1'', pkg_id = ''az_ho3'', pkg_name = ''AZ HO3'', pkg_version = ''1.0.0'',
      pkg_product = \<lparr>prod_id = ''ho3'', prod_name = ''HO3'', prod_line = HOMEOWNERS, prod_form = None,
        prod_jurisdiction = \<lparr>jur_country = ''US'', jur_state = Some ''AZ''\<rparr>\<rparr>,
      pkg_period = \<lparr>ep_start = Date 2026 1 1, ep_end = None\<rparr>,
      pkg_transaction_types = [NEW_BUSINESS, RENEWAL], pkg_inputs = [sample_input],
      pkg_constants = [\<lparr>const_id = ''base_rate'', const_name = ''Base'', const_value = Dec False 100010 (-2),
        const_description = None, const_period = None, const_provenance = None\<rparr>],
      pkg_tables = [sample_table], pkg_rules = [], pkg_calculations = [sample_calculation],
      pkg_rounding_rules = [\<lparr>rr_id = ''cents'', rr_precision = 2, rr_mode = HALF_UP\<rparr>],
      pkg_modifiers = [], pkg_constraints = [], pkg_fees = [], pkg_coverages = [],
      pkg_outputs = [\<lparr>out_id = ''total'', out_name = ''Total'', out_source_ref = ''premium'',
        out_currency = Some ''USD'', out_description = None\<rparr>],
      pkg_provenance = None\<rparr>"

lemma sample_parts:
  "validate_input sample_input = Inr sample_input" "validate_table sample_table = Inr sample_table"
  by code_simp+

lemmas validate_simps = validate_identifier_string_def py_strip_def is_space_def id_char_def Let_def
  validate_opt_def validate_identifier_opt_def

lemma sample_calculation_valid: "validate_node sample_calculation = Inr sample_calculation"
  by (simp add: sample_calculation_def validate_simps validate_node_def operand_count_ok_def own_rounding_ref_def)

lemma sample_entities: "map fst (entities sample_package) = [''roof_age'', ''base_rate'', ''roof_factor'', ''premium'', ''total'']"
  by (simp add: entities_def sample_package_def sample_input_def sample_table_def range_table_def sample_calculation_def)

lemma construct_sample: "construct_package sample_package = Inr sample_package"
proof -
  have "validate_package sample_package = Inr sample_package"
    unfolding validate_package_Inr node_ids_def sample_entities
    by (simp add: sample_package_def validate_simps)
  moreover have "fields_fixed sample_package"
    by (simp add: fields_fixed_def sample_package_def sample_parts sample_calculation_valid validate_simps
        validate_product_def validate_dates_def validate_constant_def validate_output_def validate_rounding_rule_def)
  ultimately show ?thesis by (simp add: construct_package_fixed)
qed

section \<open>Properties\<close>

text \<open>C1: A package that validates is well formed: at least one calculation and one output, ids
  distinct across all ten entity collections, rounding-rule ids distinct, every output's
  source a node of the package; and validating the result again returns it unchanged.\<close>

theorem construct_package_well_formed:
  assumes "construct_package p = Inr q"
  shows "pkg_calculations q \<noteq> [] \<and> pkg_outputs q \<noteq> [] \<and> distinct (node_ids q)
    \<and> distinct (map rr_id (pkg_rounding_rules q))
    \<and> (\<forall>x \<in> set (pkg_outputs q). out_source_ref x \<in> set (node_ids q))
    \<and> construct_package q = Inr q"
  using construct_package_result [OF assms] by (simp add: construct_package_fixed validate_package_Inr)

text \<open>The overlap test of the table validator is exact: two ranges that each accept some
  number are reported as overlapping exactly when some number lies in both, with the
  inclusion flags read as the schema says.\<close>

theorem ranges_overlap_exact:
  assumes "\<exists>x. in_range a x" "\<exists>x. in_range b x"
  shows "ranges_overlap a b \<longleftrightarrow> (\<exists>x. in_range a x \<and> in_range b x)"
  using assms overlap_meets by blast


text \<open>When a table that must cover its domain passes the check without a default value,
  every number between the lowest lower bound and the highest upper bound lies in the
  closed hull of some row (the check reads the ranges as closed; see
  \<open>coverage_misses_excluded_endpoint\<close>).\<close>

theorem coverage_no_gap:
  assumes "length (tbl_dimensions t) = 1" "td_lookup_type (tbl_dimensions t ! 0) = RANGE"
    and "validate_range_coverage t = []" "tbl_requires_total_coverage t" "tbl_default_value t = None"
    and "(r, m) \<in> set (range_rows t)" "above (fst (range_bounds m)) True x"
    and "(r', m') \<in> set (range_rows t)" "below (snd (range_bounds m')) True x"
  shows "\<exists>(r, m) \<in> set (range_rows t). in_hull (range_bounds m) x"
proof -
  let ?ps = "sort_key low_key (map (\<lambda>x. range_bounds (snd x)) (range_rows t))"
  have "\<forall>p \<in> set ?ps. fst p \<noteq> PosInf \<and> snd p \<noteq> NegInf"
  proof
    fix p assume "p \<in> set ?ps"
    then obtain y where "p = range_bounds (snd y)" by auto
    then show "fst p \<noteq> PosInf \<and> snd p \<noteq> NegInf"
      using low_bound_cases [of "snd y"] high_bound_cases [of "snd y"] by auto
  qed
  moreover have "range_bounds m \<in> set ?ps" "range_bounds m' \<in> set ?ps"
    using assms(6,8) by force+
  ultimately have "\<exists>p \<in> set ?ps. in_hull p x"
    using gap_free_cover [of "tbl_id t" ?ps _ _ x] coverage_range(2) [OF assms(1-5)] assms(7,9) by auto
  then show ?thesis by auto
qed

text \<open>The gap check overlooks an excluded endpoint: a table that must cover its domain, with the
  rows \<open>[0, 10)\<close> and \<open>(10, 20]\<close> and no default, passes the check although 10 lies in no row.\<close>

theorem coverage_misses_excluded_endpoint:
  "validate_range_coverage (range_table half_open_rows) = []
   \<and> \<not> (\<exists>x \<in> set (range_rows (range_table half_open_rows)). in_range (snd x) 10)"
  by code_simp

section \<open>Witnesses\<close>

lemma construct_package_well_formed_witness:
  "construct_package sample_package = Inr sample_package \<and> distinct (node_ids sample_package)"
  using construct_package_well_formed [OF construct_sample] construct_sample by blast

lemma ranges_overlap_exact_witness:
  "ranges_overlap (snd (range_rows (closed_table 10 20) ! 0)) (snd (range_rows (closed_table 10 20) ! 1))
     \<longleftrightarrow> (\<exists>x. in_range (snd (range_rows (closed_table 10 20) ! 0)) x
           \<and> in_range (snd (range_rows (closed_table 10 20) ! 1)) x)"
proof (rule ranges_overlap_exact)
  have "in_range (snd (range_rows (closed_table 10 20) ! 0)) 10" by code_simp
  then show "\<exists>x. in_range (snd (range_rows (closed_table 10 20) ! 0)) x" ..
  have "in_range (snd (range_rows (closed_table 10 20) ! 1)) 10" by code_simp
  then show "\<exists>x. in_range (snd (range_rows (closed_table 10 20) ! 1)) x" ..
qed

definition prioritised_table :: rate_table where
  "prioritised_table =
     range_table [(range_row 0 10 dec_one)\<lparr>row_priority := Some 1\<rparr>, (range_row 5 20 dec_one)\<lparr>row_priority := Some 2\<rparr>]"


lemma coverage_no_gap_witness:
  "\<exists>(r, m) \<in> set (range_rows prioritised_table). in_hull (range_bounds m) 8"
proof -
  have h: "length (tbl_dimensions prioritised_table) = 1"
    "td_lookup_type (tbl_dimensions prioritised_table ! 0) = RANGE"
    "validate_range_coverage prioritised_table = []" "tbl_requires_total_coverage prioritised_table"
    "tbl_default_value prioritised_table = None" "1 < length (range_rows prioritised_table)"
    "above (fst (range_bounds (snd (range_rows prioritised_table ! 0)))) True 8"
    "below (snd (range_bounds (snd (range_rows prioritised_table ! 1)))) True 8"
    by code_simp+
  have mem: "(fst (range_rows prioritised_table ! i), snd (range_rows prioritised_table ! i))
      \<in> set (range_rows prioritised_table)" if "i < 2" for i
    using that h(6) nth_mem [of i "range_rows prioritised_table"] by simp
  show ?thesis
    using coverage_no_gap [OF h(1-5) mem [of 0] h(7) mem [of 1] h(8)] by simp
qed

end
