(* ===== verification/OracleEval.thy ===== *)
theory OracleEval
  imports IpirLaws
begin

text \<open>
  The expression side of the premium oracle (\<open>src/backend/app/engines/oracle\<close>):
  \<open>rounding.py\<close>, \<open>table_lookup.py\<close>, \<open>condition_evaluator.py\<close> and
  \<open>expression_evaluator.py\<close>.  The evaluation context is a dict from node ids to values;
  exceptions the code does not catch (an \<open>InvalidOperation\<close> of \<open>Decimal(str(v))\<close>, a
  \<open>KeyError\<close>) are results of the model like the ones it raises itself.
\<close>

type_synonym eval_context = "(string, pyval) dict"

section \<open>rounding.py\<close>

text \<open>\<open>Decimal("10") ** (-precision)\<close>, which underflows to exponent \<open>Etiny\<close>.\<close>

definition quantum_exp :: "int \<Rightarrow> int" where
  "quantum_exp precision = (if 0 < precision then max (- precision) dec_Etiny else 0)"

definition round_decimal :: "decimal \<Rightarrow> int \<Rightarrow> rounding_mode \<Rightarrow> decimal res" where
  "round_decimal value precision mode = dec_quantize mode value (quantum_exp precision)"

section \<open>table\_lookup.py\<close>

text \<open>\<open>isinstance(v, (int, float, Decimal))\<close>, which a bool satisfies.\<close>

fun is_int_or_decimal :: "pyval \<Rightarrow> bool" where
  "is_int_or_decimal (PInt _) = True"
| "is_int_or_decimal (PDec _) = True"
| "is_int_or_decimal (PBool _) = True"
| "is_int_or_decimal _ = False"

definition matches_exact :: "pyval \<Rightarrow> pyval \<Rightarrow> bool res" where
  "matches_exact match_value input_val =
     (if is_int_or_decimal input_val \<and> is_int_or_decimal match_value then
        rbind (to_dec input_val) (\<lambda>a. rbind (to_dec match_value) (\<lambda>b. Inr (dec_eq a b)))
      else Inr (py_strip (py_str input_val) = py_strip (py_str match_value)))"

text \<open>Only \<open>ValueError\<close> and \<open>TypeError\<close> are caught; \<open>Decimal()\<close> raises \<open>InvalidOperation\<close>.\<close>

definition matches_range :: "range_match \<Rightarrow> pyval \<Rightarrow> bool res" where
  "matches_range m input_val =
     (case to_dec input_val of
        Inl e \<Rightarrow> if e = ValueError \<or> e = TypeError then Inr False else Inl e
      | Inr v \<Rightarrow>
          rbind (case rm_minimum m of None \<Rightarrow> Inr True
                 | Some lo \<Rightarrow> rbind (to_dec lo) (\<lambda>l. Inr (\<not> dec_less v l)))
            (\<lambda>ok. if \<not> ok then Inr False
              else case rm_maximum m of None \<Rightarrow> Inr True
                | Some hi \<Rightarrow> rbind (to_dec hi) (\<lambda>h. Inr (\<not> dec_less h v))))"

definition matches_cell :: "table_lookup_type \<Rightarrow> table_match \<Rightarrow> pyval \<Rightarrow> bool res" where
  "matches_cell lookup m input_val =
     (case (lookup, m) of
        (EXACT, ExactMatch v) \<Rightarrow> matches_exact v input_val
      | (RANGE, RangeMatch r) \<Rightarrow> matches_range r input_val
      | _ \<Rightarrow> Inr False)"

text \<open>\<open>zip(\<dots>, strict=True)\<close>: a length mismatch is noticed when the shorter list ends.\<close>

fun row_matches_input ::
  "table_dimension list \<Rightarrow> table_match list \<Rightarrow> (string, pyval option) dict \<Rightarrow> bool res" where
  "row_matches_input [] [] dv = Inr True"
| "row_matches_input (d # ds) (m # ms) dv =
     (case dget dv (td_input_ref d) of
        Some (Some v) \<Rightarrow>
          rbind (matches_cell (td_lookup_type d) m v) (\<lambda>ok.
            if ok then row_matches_input ds ms dv else Inr False)
      | _ \<Rightarrow> Inr False)"
| "row_matches_input _ _ dv = Inl ValueError"

fun matching_rows ::
  "table_dimension list \<Rightarrow> (string, pyval option) dict \<Rightarrow> table_row list \<Rightarrow> table_row list res" where
  "matching_rows ds dv [] = Inr []"
| "matching_rows ds dv (r # rs) =
     rbind (row_matches_input ds (row_matches r) dv) (\<lambda>ok.
     rbind (matching_rows ds dv rs) (\<lambda>rest. Inr (if ok then r # rest else rest)))"

definition neutral_row :: table_row where
  "neutral_row = \<lparr>row_matches = [], row_value = Dec False 100 (-2), row_priority = None\<rparr>"

definition lookup_table :: "rate_table \<Rightarrow> (string, pyval option) dict \<Rightarrow> (decimal \<times> table_row) res" where
  "lookup_table t dv =
     rbind (matching_rows (tbl_dimensions t) dv (tbl_rows t)) (\<lambda>rows.
       case rows of
         [] \<Rightarrow> if 1 < length (tbl_dimensions t) then Inr (Dec False 100 (-2), neutral_row)
               else Inl (TableLookupError ''no_row'')
       | [r] \<Rightarrow> Inr (row_value r, r)
       | _ \<Rightarrow> Inl (TableLookupError ''ambiguous''))"

section \<open>expression\_evaluator.py\<close>

definition index_error :: exn where "index_error = LookupError ''IndexError''"

text \<open>\<open>_to_decimal\<close>.\<close>

fun to_decimal :: "pyval \<Rightarrow> decimal res" where
  "to_decimal (PDec d) = Inr d"
| "to_decimal v =
     (case to_dec v of
        Inl e \<Rightarrow> if e \<in> {InvalidOperation, TypeError, ValueError}
                 then Inl (ExpressionEvaluationError ''operand'') else Inl e
      | Inr d \<Rightarrow> Inr d)"

fun list_min :: "decimal list \<Rightarrow> decimal res" where
  "list_min [] = Inl ValueError"
| "list_min (d # ds) = Inr (fold (\<lambda>x m. dec_min m x) ds d)"

fun list_max :: "decimal list \<Rightarrow> decimal res" where
  "list_max [] = Inl ValueError"
| "list_max (d # ds) = Inr (fold (\<lambda>x m. dec_max m x) ds d)"

text \<open>One operator applied to its evaluated operands.\<close>

definition apply_operator :: "expression_operator \<Rightarrow> pyval list \<Rightarrow> decimal res" where
  "apply_operator op vals =
     (case op of
        ADD \<Rightarrow> rbind (rmap_list to_decimal vals) (\<lambda>ds.
          case ds of [] \<Rightarrow> Inl index_error | d # rest \<Rightarrow> rfold (\<lambda>x acc. dec_add acc x) rest d)
      | SUBTRACT \<Rightarrow> rbind (rmap_list to_decimal vals) (\<lambda>ds.
          case ds of [] \<Rightarrow> Inl index_error | d # rest \<Rightarrow> rfold (\<lambda>x acc. dec_sub acc x) rest d)
      | MULTIPLY \<Rightarrow> rbind (rmap_list to_decimal vals) (\<lambda>ds. rfold (\<lambda>x acc. dec_mul acc x) ds dec_one)
      | DIVIDE \<Rightarrow> rbind (rmap_list to_decimal vals) (\<lambda>ds.
          case ds of
            a # b # _ \<Rightarrow>
              if dec_eq b dec_zero then Inl (ExpressionEvaluationError ''division_by_zero'')
              else (case dec_div a b of
                      Inl e \<Rightarrow> if e = DivisionByZero
                               then Inl (ExpressionEvaluationError ''division_by_zero'') else Inl e
                    | Inr q \<Rightarrow> Inr q)
          | _ \<Rightarrow> Inl index_error)
      | MIN_OP \<Rightarrow> rbind (rmap_list to_decimal vals) list_min
      | MAX_OP \<Rightarrow> rbind (rmap_list to_decimal vals) list_max
      | ROUND \<Rightarrow>
          (case vals of
             [] \<Rightarrow> Inl index_error
           | v # rest \<Rightarrow> rbind (to_decimal v) (\<lambda>d.
               rbind (case rest of [] \<Rightarrow> Inr 2 | p # _ \<Rightarrow> py_int p) (\<lambda>precision.
                 round_decimal d precision HALF_UP))))"

text \<open>\<open>resolve_value\<close> of a reference or a literal.\<close>

definition resolve_ref :: "eval_context \<Rightarrow> string \<Rightarrow> pyval res" where
  "resolve_ref ctx r =
     (case dget ctx r of None \<Rightarrow> Inl (ReferenceResolutionError r) | Some v \<Rightarrow> Inr v)"

text \<open>\<open>if isinstance(resolved, (int, float)): return Decimal(str(resolved))\<close>; a bool is an int.\<close>

fun numeric_leaf :: "pyval \<Rightarrow> pyval res" where
  "numeric_leaf (PInt i) = rbind (to_dec (PInt i)) (\<lambda>d. Inr (PDec d))"
| "numeric_leaf (PBool b) = rbind (to_dec (PBool b)) (\<lambda>d. Inr (PDec d))"
| "numeric_leaf v = Inr v"

fun evaluate_expression :: "expr \<Rightarrow> eval_context \<Rightarrow> pyval res" where
  "evaluate_expression (ELit v) ctx = numeric_leaf v"
| "evaluate_expression (ERef r) ctx = rbind (resolve_ref ctx r) numeric_leaf"
| "evaluate_expression (EOp op es) ctx =
     rbind (rmap_list (\<lambda>e. evaluate_expression e ctx) es) (\<lambda>vals.
     rbind (apply_operator op vals) (\<lambda>d. Inr (PDec d)))"

section \<open>condition\_evaluator.py\<close>

fun resolve_value :: "expr \<Rightarrow> eval_context \<Rightarrow> pyval res" where
  "resolve_value (ERef r) ctx = resolve_ref ctx r"
| "resolve_value (ELit v) ctx = Inr v"
| "resolve_value (EOp op es) ctx = evaluate_expression (EOp op es) ctx"

fun compare_values :: "comparison_operator \<Rightarrow> pyval \<Rightarrow> pyval \<Rightarrow> bool res" where
  "compare_values EQ a b = Inr (py_eq a b)"
| "compare_values NE a b = Inr (\<not> py_eq a b)"
| "compare_values GT a b = py_less b a"
| "compare_values GTE a b = rbind (py_less a b) (\<lambda>l. Inr (\<not> l))"
| "compare_values LT a b = py_less a b"
| "compare_values LTE a b = rbind (py_less b a) (\<lambda>l. Inr (\<not> l))"

definition comparison_operands :: "pyval \<Rightarrow> pyval \<Rightarrow> (pyval \<times> pyval) res" where
  "comparison_operands a b =
     (if is_number a \<and> is_number b then
        rbind (to_dec a) (\<lambda>x. rbind (to_dec b) (\<lambda>y. Inr (PDec x, PDec y)))
      else Inr (a, b))"

definition evaluate_comparison ::
  "expr \<Rightarrow> comparison_operator \<Rightarrow> expr \<Rightarrow> eval_context \<Rightarrow> bool res" where
  "evaluate_comparison l op r ctx =
     rbind (resolve_value l ctx) (\<lambda>lv.
     rbind (resolve_value r ctx) (\<lambda>rv.
     rbind (comparison_operands lv rv) (\<lambda>(a, b).
       case compare_values op a b of
         Inl e \<Rightarrow> if e = TypeError then Inl ConditionEvaluationError else Inl e
       | Inr x \<Rightarrow> Inr x)))"

text \<open>\<open>all(\<dots>)\<close> and \<open>any(\<dots>)\<close> over a generator stop at the first deciding element.\<close>

fun rall :: "('a \<Rightarrow> bool res) \<Rightarrow> 'a list \<Rightarrow> bool res" where
  "rall f [] = Inr True"
| "rall f (x # xs) = rbind (f x) (\<lambda>b. if b then rall f xs else Inr False)"

fun rany :: "('a \<Rightarrow> bool res) \<Rightarrow> 'a list \<Rightarrow> bool res" where
  "rany f [] = Inr False"
| "rany f (x # xs) = rbind (f x) (\<lambda>b. if b then Inr True else rany f xs)"

lemma rall_cong [fundef_cong]:
  "xs = ys \<Longrightarrow> (\<And>x. x \<in> set ys \<Longrightarrow> f x = g x) \<Longrightarrow> rall f xs = rall g ys"
  by (induction ys arbitrary: xs) (auto cong: if_cong)

lemma rany_cong [fundef_cong]:
  "xs = ys \<Longrightarrow> (\<And>x. x \<in> set ys \<Longrightarrow> f x = g x) \<Longrightarrow> rany f xs = rany g ys"
  by (induction ys arbitrary: xs) (auto cong: if_cong)

fun evaluate_condition :: "condition \<Rightarrow> eval_context \<Rightarrow> bool res" where
  "evaluate_condition (Compare l op r) ctx = evaluate_comparison l op r ctx"
| "evaluate_condition (Logic op cs) ctx =
     (case op of
        AND_OP \<Rightarrow> rall (\<lambda>c. evaluate_condition c ctx) cs
      | OR_OP \<Rightarrow> rany (\<lambda>c. evaluate_condition c ctx) cs)"

section \<open>Table lookup as sets of numbers\<close>

definition adjacent_rows :: "table_row list" where
  "adjacent_rows =
     [\<lparr>row_matches = [RangeMatch \<lparr>rm_minimum = Some (PInt 0), rm_maximum = Some (PInt 10),
         rm_include_minimum = True, rm_include_maximum = False\<rparr>], row_value = dec_one, row_priority = None\<rparr>,
      range_row 10 20 (Dec False 2 0)]"

text \<open>A range whose bounds are numbers, as \<open>Decimal | int\<close> says.\<close>

definition range_typed :: "range_match \<Rightarrow> bool" where
  "range_typed m \<longleftrightarrow> (\<forall>v \<in> set_option (rm_minimum m) \<union> set_option (rm_maximum m). is_number v)"

fun row_range :: "table_row \<Rightarrow> range_match option" where
  "row_range r = (case row_matches r of [RangeMatch m] \<Rightarrow> Some m | _ \<Rightarrow> None)"

definition one_range_table :: "rate_table \<Rightarrow> bool" where
  "one_range_table t \<longleftrightarrow> map td_lookup_type (tbl_dimensions t) = [RANGE]
     \<and> (\<forall>r \<in> set (tbl_rows t). \<exists>m. row_range r = Some m \<and> range_typed m)"

definition row_hull :: "table_row \<Rightarrow> rat \<Rightarrow> bool" where
  "row_hull r x \<longleftrightarrow> (\<exists>m. row_range r = Some m \<and> in_hull (range_bounds m) x)"

lemma range_typed_bound:
  "range_typed m \<Longrightarrow> rm_minimum m = Some a \<Longrightarrow> \<exists>x. to_dec a = Inr x \<and> num_of a = Some x"
  "range_typed m \<Longrightarrow> rm_maximum m = Some a \<Longrightarrow> \<exists>x. to_dec a = Inr x \<and> num_of a = Some x"
  by (simp_all add: range_typed_def is_number_to_dec)

lemma matches_range_hull:
  assumes "range_typed m" "is_number v" "num_of v = Some d"
  shows "matches_range m v = Inr (in_hull (range_bounds m) (dval d))"
proof -
  have v: "to_dec v = Inr d" using is_number_to_dec [OF assms(2)] assms(3) by auto
  show ?thesis
    using range_typed_bound [OF assms(1)] v
    by (cases "rm_minimum m"; cases "rm_maximum m")
      (force simp: matches_range_def in_hull_def range_bounds_def number_bound_def above_def below_def)+
qed

lemma row_range_matches: "row_range r = Some m \<longleftrightarrow> row_matches r = [RangeMatch m]"
  by (auto split: list.splits table_match.splits)

lemma matching_rows_hull:
  assumes dm: "td_lookup_type dm = RANGE" "dget dv (td_input_ref dm) = Some (Some v)"
    and v: "is_number v" "num_of v = Some d"
    and rows: "\<forall>r \<in> set rs. \<exists>m. row_range r = Some m \<and> range_typed m"
  shows "matching_rows [dm] dv rs = Inr (filter (\<lambda>r. row_hull r (dval d)) rs)"
  using rows
proof (induction rs)
  case (Cons r rs)
  then obtain m where m: "row_range r = Some m" "range_typed m" by auto
  have "row_matches_input [dm] (row_matches r) dv = Inr (row_hull r (dval d))"
    using m dm matches_range_hull [OF m(2) v]
    by (auto simp: row_range_matches row_hull_def matches_cell_def simp del: row_range.simps)
  with Cons show ?case by (simp add: rbind_def)
qed simp

lemma lookup_hull:
  assumes "one_range_table t" "dget dv (td_input_ref (tbl_dimensions t ! 0)) = Some (Some v)"
    and "is_number v" "num_of v = Some d"
  shows "lookup_table t dv =
    (case filter (\<lambda>r. row_hull r (dval d)) (tbl_rows t) of
       [] \<Rightarrow> Inl (TableLookupError ''no_row'')
     | [r] \<Rightarrow> Inr (row_value r, r)
     | _ \<Rightarrow> Inl (TableLookupError ''ambiguous''))"
proof -
  obtain dm where dm: "tbl_dimensions t = [dm]" "td_lookup_type dm = RANGE"
    using assms(1) by (auto simp: one_range_table_def)
  have "matching_rows [dm] dv (tbl_rows t) = Inr (filter (\<lambda>r. row_hull r (dval d)) (tbl_rows t))"
    using assms dm by (intro matching_rows_hull) (auto simp: one_range_table_def)
  then show ?thesis by (simp add: lookup_table_def dm)
qed

section \<open>Expressions as rational arithmetic\<close>

text \<open>The exact meaning of an expression over the rationals.\<close>

definition val_rat :: "pyval \<Rightarrow> rat" where
  "val_rat v = (case num_of v of Some d \<Rightarrow> dval d | None \<Rightarrow> 0)"

fun rat_op :: "expression_operator \<Rightarrow> rat list \<Rightarrow> rat" where
  "rat_op ADD xs = sum_list xs"
| "rat_op SUBTRACT xs = hd xs - sum_list (tl xs)"
| "rat_op MULTIPLY xs = prod_list xs"
| "rat_op DIVIDE xs = xs ! 0 / xs ! 1"
| "rat_op MIN_OP xs = Min (set xs)"
| "rat_op MAX_OP xs = Max (set xs)"
| "rat_op ROUND xs =
     (let q = power_int 10 (quantum_exp (if length xs = 1 then 2 else \<lfloor>xs ! 1\<rfloor>)) in
      of_int (rat_round HALF_UP (xs ! 0 / q)) * q)"

text \<open>No intermediate result of a fold needs more than 28 digits; a quotient is one of at most 28 digits.\<close>

fun fits_chain :: "(decimal \<Rightarrow> decimal \<Rightarrow> decimal) \<Rightarrow> decimal \<Rightarrow> decimal list \<Rightarrow> bool" where
  "fits_chain g d [] = True"
| "fits_chain g d (x # xs) = (dec_fits (g d x) \<and> fits_chain g (g d x) xs)"

definition op_exact :: "expression_operator \<Rightarrow> decimal list \<Rightarrow> bool" where
  "op_exact op ds =
     (case op of
        ADD \<Rightarrow> fits_chain dec_exact_add (hd ds) (tl ds)
      | SUBTRACT \<Rightarrow> fits_chain (\<lambda>a b. dec_exact_add a (dec_negate b)) (hd ds) (tl ds)
      | MULTIPLY \<Rightarrow> fits_chain dec_exact_mul dec_one ds
      | DIVIDE \<Rightarrow> dval (ds ! 1) \<noteq> 0 \<and> (\<exists>d. dec_fits d \<and> dval d * dval (ds ! 1) = dval (ds ! 0))
      | ROUND \<Rightarrow> is_ok (round_decimal (hd ds) (if length ds = 1 then 2 else \<lfloor>dval (ds ! 1)\<rfloor>) HALF_UP)
      | _ \<Rightarrow> True)"

lemma fits_chain_fold:
  assumes "\<And>a b. dec_fits (g a b) \<Longrightarrow> f a b = Inr (g a b)" "fits_chain g d xs"
  shows "rfold (\<lambda>x acc. f acc x) xs d = Inr (fold (\<lambda>x acc. g acc x) xs d)"
  using assms(2) by (induction xs arbitrary: d) (auto simp: assms(1))

lemma dval_fold_add: "dval (fold (\<lambda>x acc. dec_exact_add acc x) xs d) = dval d + sum_list (map dval xs)"
  by (induction xs arbitrary: d) auto

lemma dval_fold_sub:
  "dval (fold (\<lambda>x acc. dec_exact_add acc (dec_negate x)) xs d) = dval d - sum_list (map dval xs)"
  by (induction xs arbitrary: d) auto

lemma dval_fold_mul: "dval (fold (\<lambda>x acc. dec_exact_mul acc x) xs d) = dval d * prod_list (map dval xs)"
  by (induction xs arbitrary: d) (auto simp: mult.assoc)

lemma dval_fold_min: "dval (fold (\<lambda>x m. dec_min m x) xs d) = Min (insert (dval d) (dval ` set xs))"
proof (induction xs arbitrary: d)
  case (Cons x xs)
  have "Min (insert (dval (dec_min d x)) (dval ` set xs)) = Min (insert (dval d) (insert (dval x) (dval ` set xs)))"
    by (cases "xs = []") (simp_all add: min.assoc)
  with Cons show ?case by simp
qed simp

lemma dval_fold_max: "dval (fold (\<lambda>x m. dec_max m x) xs d) = Max (insert (dval d) (dval ` set xs))"
proof (induction xs arbitrary: d)
  case (Cons x xs)
  have "Max (insert (dval (dec_max d x)) (dval ` set xs)) = Max (insert (dval d) (insert (dval x) (dval ` set xs)))"
    by (cases "xs = []") (simp_all add: max.assoc)
  with Cons show ?case by simp
qed simp

lemma rmap_list_map: "rmap_list f (map g xs) = rmap_list (\<lambda>x. f (g x)) xs"
  by (induction xs) auto

lemma to_decimal_PDec [simp]: "rmap_list to_decimal (map PDec ds) = Inr ds"
  by (induction ds) auto

lemma dec_trunc_floor: "0 \<le> dval d \<Longrightarrow> dec_trunc d = \<lfloor>dval d\<rfloor>"
proof -
  assume nn: "0 \<le> dval d"
  have "0 \<le> dec_trunc d"
  proof (rule ccontr)
    assume "\<not> 0 \<le> dec_trunc d"
    then obtain s c e where d: "d = Dec s c e" "s" "0 < (if 0 \<le> e then c * 10 ^ nat e else c div 10 ^ nat (- e))"
      by (cases d) (auto simp: Let_def split: if_splits)
    then have "0 < c" by (cases "c = 0") (auto split: if_splits)
    with d(1,2) have "dval d < 0" by (simp add: dval.simps)
    with nn show False by simp
  qed
  with nn dval_dec_trunc [of d] show ?thesis by (intro floor_unique [symmetric]) linarith+
qed

text \<open>\<open>int()\<close> truncates, but a precision that is not positive rounds to whole numbers in any case.\<close>

lemma quantum_exp_trunc: "quantum_exp (dec_trunc d) = quantum_exp \<lfloor>dval d\<rfloor>"
proof (cases "0 \<le> dval d")
  case False
  obtain s c e where d: "d = Dec s c e" by (cases d)
  have "dval d < 0" using False by simp
  moreover have "0 \<le> dval (Dec False c e)" by (simp add: dval.simps)
  ultimately have "s" using d by (cases s) auto
  then have "dec_trunc d \<le> 0" using d by (simp add: Let_def)
  moreover have "\<lfloor>dval d\<rfloor> \<le> 0" using \<open>dval d < 0\<close> by (simp add: floor_le_iff)
  ultimately show ?thesis by (simp add: quantum_exp_def)
qed (simp add: dec_trunc_floor)

lemma apply_operator_exact:
  assumes "operand_count_ok op (length ds)" "op_exact op ds"
  shows "\<exists>d. apply_operator op (map PDec ds) = Inr d \<and> dval d = rat_op op (map dval ds)"
proof -
  from assms have "ds \<noteq> []" by (auto simp: operand_count_ok_def split: if_splits)
  then obtain d rest where ds: "ds = d # rest" by (cases ds) auto
  show ?thesis
  proof (cases op)
    case ADD
    with assms ds show ?thesis
      using fits_chain_fold [of dec_exact_add dec_add d rest, OF dec_add_exact]
      by (simp add: apply_operator_def op_exact_def dval_fold_add del: list.map)
        (simp add: ds dval_fold_add)
  next
    case SUBTRACT
    with assms ds show ?thesis
      using fits_chain_fold [of "\<lambda>a b. dec_exact_add a (dec_negate b)" dec_sub d rest]
      by (auto simp: apply_operator_def op_exact_def dval_fold_sub dec_sub_def dec_add_exact)
  next
    case MULTIPLY
    with assms ds show ?thesis
      using fits_chain_fold [of dec_exact_mul dec_mul dec_one ds, OF dec_mul_exact]
      by (simp add: apply_operator_def op_exact_def dval_fold_mul del: rfold.simps fits_chain.simps)
  next
    case DIVIDE
    with assms ds obtain b where b: "rest = [b]" by (auto simp: operand_count_ok_def length_Suc_conv)
    with assms DIVIDE ds obtain q where q: "dval b \<noteq> 0" "dec_fits q" "dval q * dval b = dval d"
      by (auto simp: op_exact_def)
    from dec_div_exact [OF this] q(1,3) show ?thesis
      using DIVIDE ds b by (auto simp: apply_operator_def field_simps)
  next
    case MIN_OP
    with ds show ?thesis by (simp add: apply_operator_def dval_fold_min)
  next
    case MAX_OP
    with ds show ?thesis by (simp add: apply_operator_def dval_fold_max)
  next
    case ROUND
    then consider "rest = []" | p where "rest = [p]"
      using assms(1) ds by (cases rest) (auto simp: operand_count_ok_def)
    then show ?thesis
    proof cases
      case 1
      then obtain r where "round_decimal d 2 HALF_UP = Inr r"
        using assms(2) ROUND ds by (auto simp: op_exact_def is_ok_def split: sum.splits)
      then show ?thesis
        using ROUND ds 1 dec_quantize_spec [of HALF_UP d "quantum_exp 2" r]
        by (simp add: apply_operator_def round_decimal_def Let_def)
    next
      case (2 p)
      then obtain r where r: "round_decimal d \<lfloor>dval p\<rfloor> HALF_UP = Inr r"
        using assms(2) ROUND ds by (auto simp: op_exact_def is_ok_def split: sum.splits)
      then show ?thesis
        using ROUND ds 2 dec_quantize_spec [of HALF_UP d "quantum_exp \<lfloor>dval p\<rfloor>" r]
        by (simp add: apply_operator_def round_decimal_def quantum_exp_trunc Let_def)
    qed
  qed
qed

fun rat_expr :: "eval_context \<Rightarrow> expr \<Rightarrow> rat" where
  "rat_expr ctx (ELit v) = val_rat v"
| "rat_expr ctx (ERef r) = (case dget ctx r of Some v \<Rightarrow> val_rat v | None \<Rightarrow> 0)"
| "rat_expr ctx (EOp op es) = rat_op op (map (rat_expr ctx) es)"

definition dec_part :: "pyval \<Rightarrow> decimal" where
  "dec_part v = (case v of PDec d \<Rightarrow> d | _ \<Rightarrow> dec_zero)"

text \<open>
  Leaves are numbers, operators have the operand counts the schema demands, no divisor is 0, and no sum,
  difference, product, quotient or rounded number on the way needs more than 28 digits.
\<close>

fun exact_expr :: "eval_context \<Rightarrow> expr \<Rightarrow> bool" where
  "exact_expr ctx (ELit v) = is_number v"
| "exact_expr ctx (ERef r) = (case dget ctx r of Some v \<Rightarrow> is_number v | None \<Rightarrow> False)"
| "exact_expr ctx (EOp op es) =
     (list_all (exact_expr ctx) es \<and> operand_count_ok op (length es) \<and>
      op_exact op (map (\<lambda>e. case evaluate_expression e ctx of Inr v \<Rightarrow> dec_part v | Inl _ \<Rightarrow> dec_zero) es))"

lemma numeric_leaf_number: "is_number v \<Longrightarrow> \<exists>d. numeric_leaf v = Inr (PDec d) \<and> dval d = val_rat v"
  by (cases v) (auto simp: val_rat_def)

lemma evaluate_exact:
  "exact_expr ctx e \<Longrightarrow> \<exists>d. evaluate_expression e ctx = Inr (PDec d) \<and> dval d = rat_expr ctx e"
proof (induction e)
  case (ELit v)
  then show ?case using numeric_leaf_number by simp
next
  case (ERef r)
  then show ?case
    using numeric_leaf_number by (auto simp: resolve_ref_def split: option.splits)
next
  case (EOp op es)
  define ev where "ev e = (case evaluate_expression e ctx of Inr v \<Rightarrow> dec_part v | Inl _ \<Rightarrow> dec_zero)" for e
  have ev: "evaluate_expression e ctx = Inr (PDec (ev e)) \<and> dval (ev e) = rat_expr ctx e" if "e \<in> set es" for e
    using EOp.IH [OF that] EOp.prems that by (auto simp: list_all_iff ev_def dec_part_def)
  then have vals: "rmap_list (\<lambda>e. evaluate_expression e ctx) es = Inr (map PDec (map ev es))"
    by (induction es) auto
  have rats: "map dval (map ev es) = map (rat_expr ctx) es" using ev by simp
  have "operand_count_ok op (length (map ev es))" "op_exact op (map ev es)"
    using EOp.prems by (simp_all add: ev_def [abs_def])
  then obtain d where "apply_operator op (map PDec (map ev es)) = Inr d" "dval d = rat_op op (map dval (map ev es))"
    using apply_operator_exact by blast
  then show ?case by (auto simp only: evaluate_expression.simps vals rats rat_expr.simps rbind_simps)
qed

section \<open>Conditions as truth values\<close>

text \<open>The meaning of a condition when nothing fails; no evaluation order.\<close>

fun holds :: "eval_context \<Rightarrow> condition \<Rightarrow> bool" where
  "holds ctx (Compare l op r) = (evaluate_comparison l op r ctx = Inr True)"
| "holds ctx (Logic AND_OP cs) = list_all (holds ctx) cs"
| "holds ctx (Logic OR_OP cs) = list_ex (holds ctx) cs"

lemma rall_holds:
  "rall f xs = Inr b \<Longrightarrow> (\<And>x b. x \<in> set xs \<Longrightarrow> f x = Inr b \<Longrightarrow> b \<longleftrightarrow> h x) \<Longrightarrow> b \<longleftrightarrow> list_all h xs"
  by (induction xs) (fastforce simp: res_simps split: if_splits)+

lemma rany_holds:
  "rany f xs = Inr b \<Longrightarrow> (\<And>x b. x \<in> set xs \<Longrightarrow> f x = Inr b \<Longrightarrow> b \<longleftrightarrow> h x) \<Longrightarrow> b \<longleftrightarrow> list_ex h xs"
  by (induction xs) (fastforce simp: res_simps split: if_splits)+

lemma evaluate_condition_holds: "evaluate_condition c ctx = Inr b \<Longrightarrow> b \<longleftrightarrow> holds ctx c"
proof (induction c arbitrary: b)
  case (Logic op cs)
  then show ?case
    using rall_holds [of _ cs b "holds ctx"] rany_holds [of _ cs b "holds ctx"]
    by (cases op) auto
qed auto

lemma compare_numbers:
  assumes "is_number a" "is_number b"
  shows "\<exists>x y. comparison_operands a b = Inr (PDec x, PDec y) \<and> dval x = val_rat a \<and> dval y = val_rat b"
  using is_number_to_dec [OF assms(1)] is_number_to_dec [OF assms(2)] assms
  by (auto simp: comparison_operands_def val_rat_def)

fun rat_compare :: "comparison_operator \<Rightarrow> rat \<Rightarrow> rat \<Rightarrow> bool" where
  "rat_compare EQ a b = (a = b)"
| "rat_compare NE a b = (a \<noteq> b)"
| "rat_compare GT a b = (b < a)"
| "rat_compare GTE a b = (b \<le> a)"
| "rat_compare LT a b = (a < b)"
| "rat_compare LTE a b = (a \<le> b)"

lemma compare_rat:
  assumes "resolve_value l ctx = Inr a" "resolve_value r ctx = Inr b" "is_number a" "is_number b"
  shows "evaluate_comparison l op r ctx = Inr (rat_compare op (val_rat a) (val_rat b))"
proof -
  obtain x y where "comparison_operands a b = Inr (PDec x, PDec y)" "dval x = val_rat a" "dval y = val_rat b"
    using compare_numbers [OF assms(3,4)] by blast
  moreover from this have "compare_values op (PDec x) (PDec y) = Inr (rat_compare op (val_rat a) (val_rat b))"
    by (cases op) (auto simp: py_eq_def py_less_def)
  ultimately show ?thesis using assms(1,2) by (simp add: evaluate_comparison_def)
qed

section \<open>Properties\<close>

text \<open>A lookup of a number in a one-dimensional RANGE table returns the value of the row whose
  closed range holds the number when exactly one does, and otherwise fails with
  \<open>TableLookupError\<close>, telling no row from several.\<close>

theorem lookup_range_table:
  assumes "one_range_table t" "dget dv (td_input_ref (tbl_dimensions t ! 0)) = Some (Some v)"
    and "is_number v" "num_of v = Some d"
  shows "lookup_table t dv =
    (case filter (\<lambda>r. row_hull r (dval d)) (tbl_rows t) of
       [] \<Rightarrow> Inl (TableLookupError ''no_row'')
     | [r] \<Rightarrow> Inr (row_value r, r)
     | _ \<Rightarrow> Inl (TableLookupError ''ambiguous''))"
  by (rule lookup_hull) fact+

text \<open>The lookup does not read the inclusion flags the range check relies on: the rows
  \<open>[0, 10)\<close> and \<open>[10, 20]\<close> pass the check and only the second accepts 10, yet looking 10 up
  fails as ambiguous.\<close>

theorem lookup_ignores_inclusion_flags:
  "validate_range_coverage (range_table adjacent_rows) = []
   \<and> length (filter (\<lambda>x. in_range (snd x) 10) (range_rows (range_table adjacent_rows))) = 1
   \<and> lookup_table (range_table adjacent_rows) [(''age'', Some (PInt 10))] = Inl (TableLookupError ''ambiguous'')"
  by code_simp

text \<open>An EXACT table keyed by booleans cannot be used: looking a boolean up raises the uncaught
  \<open>InvalidOperation\<close> of \<open>Decimal("True")\<close> at its first row.\<close>

theorem boolean_exact_lookup_raises:
  assumes "tbl_dimensions t = [dm]" "td_lookup_type dm = EXACT"
    and "tbl_rows t = r # rs" "row_matches r = [ExactMatch (PBool k)]"
    and "dget dv (td_input_ref dm) = Some (Some (PBool b))"
  shows "lookup_table t dv = Inl InvalidOperation"
  using assms by (simp add: lookup_table_def matches_cell_def matches_exact_def to_dec_bool)

text \<open>C5: Expression evaluation is exact rational arithmetic, for all seven operators, as long as no divisor is
  zero and no intermediate result needs more than the 28 digits of the decimal context (so a quotient
  must have a finite decimal expansion of at most 28 digits): the result is a Decimal whose value is the
  rational meaning of the expression, \<open>ROUND\<close> being rounding half up to the given number of places, or to a
  whole number when that is not positive.\<close>

theorem evaluate_expression_exact:
  assumes "exact_expr ctx e"
  shows "\<exists>d. evaluate_expression e ctx = Inr (PDec d) \<and> dval d = rat_expr ctx e"
  using assms by (rule evaluate_exact)

text \<open>A condition that evaluates has the truth value of its meaning: \<open>and\<close> and \<open>or\<close> are
  unaffected by the short-circuit order, and a comparison of two numbers is the comparison
  of their exact values.\<close>

theorem evaluate_condition_sound:
  "(evaluate_condition c ctx = Inr b \<longrightarrow> (b \<longleftrightarrow> holds ctx c)) \<and>
   (resolve_value l ctx = Inr u \<longrightarrow> resolve_value r ctx = Inr v \<longrightarrow> is_number u \<longrightarrow> is_number v \<longrightarrow>
      holds ctx (Compare l op r) = rat_compare op (val_rat u) (val_rat v))"
  using evaluate_condition_holds [of c ctx b] compare_rat [of l ctx u r v op] by auto

section \<open>Witnesses\<close>

lemma lookup_range_table_witness:
  "lookup_table sample_table [(''roof_age'', Some (PInt 20))] = Inr (Dec False 125 (-2), range_row 11 100 (Dec False 125 (-2)))"
proof -
  have h: "one_range_table sample_table"
    "dget [(''roof_age'', Some (PInt 20))] (td_input_ref (tbl_dimensions sample_table ! 0)) = Some (Some (PInt 20))"
    "is_number (PInt 20)" "num_of (PInt 20) = Some (dec_of_int 20)"
    by (auto simp: one_range_table_def sample_table_def range_table_def range_row_def range_typed_def)
  show ?thesis
    unfolding lookup_range_table [OF h]
    by (simp add: sample_table_def range_table_def range_row_def row_hull_def in_hull_def range_bounds_def
        number_bound_def above_def below_def)
qed

definition flag_table :: rate_table where
  "flag_table = (range_table [\<lparr>row_matches = [ExactMatch (PBool True)], row_value = dec_one, row_priority = None\<rparr>])
     \<lparr>tbl_dimensions := [\<lparr>td_input_ref = ''flag'', td_lookup_type = EXACT\<rparr>]\<rparr>"

lemma boolean_exact_lookup_raises_witness:
  "lookup_table flag_table [(''flag'', Some (PBool True))] = Inl InvalidOperation"
  using boolean_exact_lookup_raises [of flag_table "\<lparr>td_input_ref = ''flag'', td_lookup_type = EXACT\<rparr>"
      "\<lparr>row_matches = [ExactMatch (PBool True)], row_value = dec_one, row_priority = None\<rparr>" "[]" True
      "[(''flag'', Some (PBool True))]" True]
  by (simp add: flag_table_def range_table_def)

definition sample_expr :: expr where
  "sample_expr = EOp DIVIDE [EOp ROUND [EOp MULTIPLY [ERef ''base'', ELit (PDec (Dec False 1255 (-3)))], ELit (PInt 2)],
     ELit (PInt 4)]"

lemma evaluate_expression_exact_witness:
  "\<exists>d. evaluate_expression sample_expr [(''base'', PInt 101)] = Inr (PDec d)
     \<and> dval d = rat_expr [(''base'', PInt 101)] sample_expr"
proof (rule evaluate_expression_exact)
  have "dec_fits (Dec False 3169 (-2)) \<and> dval (Dec False 3169 (-2)) * 4 = dval (Dec False 12676 (-2))"
    by (simp add: dec_fits_def dec_context_defs dval.simps)
  then have "\<exists>q. dec_fits q \<and> dval q * 4 = dval (Dec False 12676 (-2))" by blast
  then show "exact_expr [(''base'', PInt 101)] sample_expr"
    by (simp add: sample_expr_def op_exact_def operand_count_ok_def resolve_ref_def dec_part_def dec_of_int_def
        dec_one_def dec_fits_def ndigits.simps apply_operator_def dec_mul_def dec_fix.simps dec_context_defs
        round_decimal_def quantum_exp_def dec_quantize.simps dec_rescale.simps round_shift_def dval.simps)
qed

lemma evaluate_condition_sound_witness:
  "evaluate_condition (Logic AND_OP [Compare (ERef ''age'') GTE (ELit (PInt 10))]) [(''age'', PInt 12)] = Inr True
   \<and> holds [(''age'', PInt 12)] (Compare (ERef ''age'') GTE (ELit (PInt 10)))"
  using evaluate_condition_sound [of "Logic AND_OP [Compare (ERef ''age'') GTE (ELit (PInt 10))]" "[(''age'', PInt 12)]" True
      "ERef ''age''" "PInt 12" "ELit (PInt 10)" "PInt 10" GTE]
    compare_rat [of "ERef ''age''" "[(''age'', PInt 12)]" "PInt 12" "ELit (PInt 10)" "PInt 10" GTE]
  by (simp add: resolve_ref_def val_rat_def)

end
