(* ===== verification/OraclePackage.thy ===== *)
theory OraclePackage
  imports OracleEval
begin

text \<open>
  The premium oracle (\<open>src/backend/app/engines/oracle/evaluator.py\<close>, \<open>models.py\<close>,
  \<open>calculation_date.py\<close>, \<open>calculator.py\<close>, \<open>oracle.py\<close>) and the IPIR rating target
  (\<open>engines/target\<close>), which runs the same evaluator.

  \<open>networkx.topological_sort\<close> is not under \<open>src/\<close>: it is the argument \<open>topo\<close> of the
  definitions that use it, a function from the node list and the edge list to the sorted
  nodes, or \<open>None\<close> for \<open>NetworkXUnfeasible\<close>.  The locale \<open>topological_sorter\<close> states what
  networkx documents.  The free-text \<open>description\<close> of a trace step is left out; every
  other field is kept.
\<close>

section \<open>models.py\<close>

type_synonym risk_values = "(string, pyval) dict"

record trace_step =
  ts_sequence :: nat
  ts_node_id :: string
  ts_node_type :: string
  ts_operation :: string
  ts_inputs :: "(string, pyval option) dict"
  ts_result :: pyval
  ts_provenance :: "provenance option"
  ts_metadata :: "(string, pyval) dict"

text \<open>The union \<open>Decimal | str | int | bool\<close> of a result has no date.\<close>

fun result_value :: "pyval \<Rightarrow> bool" where
  "result_value (PDate _) = False"
| "result_value _ = True"

definition add_step ::
  "string \<Rightarrow> string \<Rightarrow> string \<Rightarrow> pyval \<Rightarrow> (string, pyval option) dict \<Rightarrow> provenance option \<Rightarrow>
   (string, pyval) dict \<Rightarrow> trace_step list \<Rightarrow> trace_step list res" where
  "add_step node_id node_type operation v inputs prov metadata steps =
     (if \<not> result_value v then Inl (ValidationError ''TraceStep.result'')
      else Inr (steps @ [\<lparr>ts_sequence = length steps + 1, ts_node_id = node_id, ts_node_type = node_type,
        ts_operation = operation, ts_inputs = inputs, ts_result = v, ts_provenance = prov,
        ts_metadata = metadata\<rparr>]))"

record oracle_result =
  or_package_id :: string
  or_package_version :: string
  or_effective_date :: date
  or_transaction_type :: transaction_type
  or_final_output_id :: string
  or_final_premium :: decimal
  or_currency :: string
  or_resolved_values :: eval_context
  or_trace :: "trace_step list"

section \<open>evaluator.py: dates and inputs\<close>

definition is_active :: "effective_period option \<Rightarrow> date \<Rightarrow> bool" where
  "is_active period d =
     (case period of None \<Rightarrow> True
      | Some p \<Rightarrow>
          if d < ep_start p then False
          else (case ep_end p of None \<Rightarrow> True | Some e \<Rightarrow> \<not> e < d))"

text \<open>The value of an input: supplied, derived from its claims-free twin, missing or skipped.\<close>

definition supplied_value :: "pricing_input \<Rightarrow> risk_values \<Rightarrow> pyval option res" where
  "supplied_value inp risk =
     (case dget risk (pi_id inp) of
        Some v \<Rightarrow> Inr (Some v)
      | None \<Rightarrow>
          (case (pi_id inp = ''claims_free'', dget risk ''claims_free_years'') of
             (True, Some w) \<Rightarrow> rbind (py_int w) (\<lambda>n. Inr (Some (PBool (3 \<le> n))))
           | _ \<Rightarrow>
          (case (pi_id inp = ''claims_free_years'', dget risk ''claims_free'') of
             (True, Some w) \<Rightarrow>
               Inr (Some (PInt (if py_lower (py_str w) \<in> {''true'', ''1''} then 3 else 0)))
           | _ \<Rightarrow>
               if pi_required inp then Inl (InputValidationError (''missing:'' @ pi_id inp)) else Inr None)))"

fun convert_raw :: "input_data_type \<Rightarrow> pyval \<Rightarrow> pyval res" where
  "convert_raw INTEGER_T v = rbind (py_int v) (\<lambda>i. Inr (PInt i))"
| "convert_raw DECIMAL_T v = rbind (to_dec v) (\<lambda>d. Inr (PDec d))"
| "convert_raw MONEY_T v = rbind (to_dec v) (\<lambda>d. Inr (PDec d))"
| "convert_raw STRING_T v = Inr (PStr (py_str v))"
| "convert_raw CATEGORY_T v = Inr (PStr (py_str v))"
| "convert_raw BOOLEAN_T v =
     (if is_bool v then Inr v
      else if py_lower (py_str v) \<in> {''true'', ''1''} then Inr (PBool True)
      else if py_lower (py_str v) \<in> {''false'', ''0''} then Inr (PBool False)
      else Inl (InputValidationError ''boolean''))"
| "convert_raw DATE_T v =
     (case v of PDate d \<Rightarrow> Inr (PDate d) | _ \<Rightarrow> rbind (date_fromisoformat (py_str v)) (\<lambda>d. Inr (PDate d)))"

definition convert_input :: "input_data_type \<Rightarrow> pyval \<Rightarrow> pyval res" where
  "convert_input dt v =
     (case convert_raw dt v of
        Inl e \<Rightarrow> if e \<in> {ValueError, TypeError, InvalidOperation}
                 then Inl (InputValidationError ''type'') else Inl e
      | Inr x \<Rightarrow> Inr x)"

definition check_bounds :: "pricing_input \<Rightarrow> pyval \<Rightarrow> unit res" where
  "check_bounds inp v =
     (if pi_data_type inp \<notin> {INTEGER_T, DECIMAL_T, MONEY_T} then Inr ()
      else
        rbind (to_dec v) (\<lambda>n.
        rbind (case pi_minimum inp of None \<Rightarrow> Inr ()
               | Some lo \<Rightarrow> rbind (to_dec lo) (\<lambda>l.
                   if dec_less n l then Inl (InputValidationError ''below_minimum'') else Inr ())) (\<lambda>_.
          case pi_maximum inp of None \<Rightarrow> Inr ()
          | Some hi \<Rightarrow> rbind (to_dec hi) (\<lambda>h.
              if dec_less h n then Inl (InputValidationError ''above_maximum'') else Inr ()))))"

definition validate_risk_input :: "risk_values \<Rightarrow> pricing_input \<Rightarrow> risk_values \<Rightarrow> risk_values res" where
  "validate_risk_input risk inp validated =
     rbind (supplied_value inp risk) (\<lambda>val.
       case val of
         None \<Rightarrow> Inr validated
       | Some v \<Rightarrow>
           rbind (convert_input (pi_data_type inp) v) (\<lambda>x.
             if (case pi_allowed_values inp of None \<Rightarrow> False | Some vs \<Rightarrow> py_str x \<notin> set vs)
             then Inl (InputValidationError ''not_allowed'')
             else rbind (check_bounds inp x) (\<lambda>_. Inr (dset (pi_id inp) x validated))))"

definition validate_risk_inputs :: "ipir_package \<Rightarrow> risk_values \<Rightarrow> bool \<Rightarrow> risk_values res" where
  "validate_risk_inputs package risk strict =
     rbind (rfold (validate_risk_input risk) (pkg_inputs package) []) (\<lambda>validated.
       if strict \<and> set (map fst risk) - set (map pi_id (pkg_inputs package)) \<noteq> {}
       then Inl (InputValidationError ''extra_inputs'') else Inr validated)"

section \<open>evaluator.py: calculation order\<close>

type_synonym topo_sort = "string list \<Rightarrow> (string \<times> string) list \<Rightarrow> string list option"

definition dependency_edges :: "(string, calculation_node) dict \<Rightarrow> (string \<times> string) list" where
  "dependency_edges calc_map =
     concat (map (\<lambda>(i, n). map (\<lambda>dep. (dep, i)) (filter (\<lambda>dep. dget calc_map dep \<noteq> None) (calc_depends_on n)))
       calc_map)"

definition topological_sort_calculations :: "topo_sort \<Rightarrow> ipir_package \<Rightarrow> calculation_node list res" where
  "topological_sort_calculations topo package =
     (let calc_map = index_by calc_id (pkg_calculations package) [] in
      case topo (map fst calc_map) (dependency_edges calc_map) of
        None \<Rightarrow> Inl (ExpressionEvaluationError ''cycle'')
      | Some ids \<Rightarrow> Inr (List.map_filter (dget calc_map) ids))"

section \<open>evaluator.py: evaluate\_package\<close>

record oracle_state =
  os_context :: eval_context
  os_trace :: "trace_step list"
  os_value :: decimal
  os_modifiers :: "string list"
  os_constraints :: "string list"
  os_fees :: "string list"

definition trace_to ::
  "string \<Rightarrow> string \<Rightarrow> string \<Rightarrow> pyval \<Rightarrow> (string, pyval option) dict \<Rightarrow> provenance option \<Rightarrow>
   (string, pyval) dict \<Rightarrow> oracle_state \<Rightarrow> oracle_state res" where
  "trace_to node_id node_type operation v inputs prov metadata st =
     rbind (add_step node_id node_type operation v inputs prov metadata (os_trace st)) (\<lambda>steps.
       Inr (st\<lparr>os_trace := steps\<rparr>))"

definition put :: "string \<Rightarrow> pyval \<Rightarrow> oracle_state \<Rightarrow> oracle_state" where
  "put i v st = st\<lparr>os_context := dset i v (os_context st)\<rparr>"

definition set_input :: "risk_values \<Rightarrow> string \<times> pyval \<Rightarrow> oracle_state \<Rightarrow> oracle_state res" where
  "set_input risk x st =
     trace_to (fst x) ''INPUT'' ''SET_INPUT'' (snd x) [(''raw_value'', dget risk (fst x))] None []
       (put (fst x) (snd x) st)"

definition set_constant :: "date \<Rightarrow> pricing_constant \<Rightarrow> oracle_state \<Rightarrow> oracle_state res" where
  "set_constant d c st =
     (if is_active (const_period c) d then
        trace_to (const_id c) ''CONSTANT'' ''SET_CONSTANT'' (PDec (const_value c)) [] (const_provenance c) []
          (put (const_id c) (PDec (const_value c)) st)
      else Inr st)"

definition set_fee :: "date \<Rightarrow> pricing_fee \<Rightarrow> oracle_state \<Rightarrow> oracle_state" where
  "set_fee d f = put (fee_id f) (PDec (if is_active (fee_period f) d then fee_amount f else Dec False 0 (-2)))"

definition set_constraint :: "date \<Rightarrow> premium_constraint \<Rightarrow> oracle_state \<Rightarrow> oracle_state" where
  "set_constraint d c = put (pc_id c) (PDec (if is_active (pc_period c) d then pc_amount c else Dec False 0 (-2)))"

text \<open>\<open>resolve_value(mod.value, context)\<close>: a Decimal is its own value.\<close>

definition modifier_operand :: "modifier_value \<Rightarrow> eval_context \<Rightarrow> pyval res" where
  "modifier_operand v ctx = (case v of ModDec d \<Rightarrow> Inr (PDec d) | ModRef r \<Rightarrow> resolve_ref ctx r)"

definition modifier_factor :: "pricing_modifier \<Rightarrow> eval_context \<Rightarrow> decimal res" where
  "modifier_factor m ctx =
     rbind (case mod_eligibility m of None \<Rightarrow> Inr True | Some c \<Rightarrow> evaluate_condition c ctx) (\<lambda>eligible.
       if \<not> eligible then Inr (Dec False 100 (-2))
       else
         rbind (modifier_operand (mod_value m) ctx) (\<lambda>raw.
         rbind (to_dec raw) (\<lambda>v.
           case mod_type m of
             PERCENTAGE_DISCOUNT \<Rightarrow> dec_sub (Dec False 100 (-2)) v
           | PERCENTAGE_SURCHARGE \<Rightarrow> dec_add (Dec False 100 (-2)) v
           | _ \<Rightarrow> Inr v)))"

definition set_modifier :: "date \<Rightarrow> pricing_modifier \<Rightarrow> oracle_state \<Rightarrow> oracle_state res" where
  "set_modifier d m st =
     rbind (if is_active (mod_period m) d then modifier_factor m (os_context st) else Inr (Dec False 100 (-2)))
       (\<lambda>v. Inr (put (mod_id m) (PDec v) st))"

definition dimension_values :: "rate_table \<Rightarrow> eval_context \<Rightarrow> (string, pyval option) dict" where
  "dimension_values t ctx =
     fold (\<lambda>dm. dset (td_input_ref dm) (dget ctx (td_input_ref dm))) (tbl_dimensions t) []"

definition set_table :: "date \<Rightarrow> rate_table \<Rightarrow> oracle_state \<Rightarrow> oracle_state res" where
  "set_table d t st =
     (if is_active (tbl_period t) d then
        let dv = dimension_values t (os_context st) in
        rbind (lookup_table t dv) (\<lambda>(factor, row).
          trace_to (tbl_id t) ''TABLE'' ''LOOKUP_TABLE'' (PDec factor) dv (tbl_provenance t) []
            (put (tbl_id t) (PDec factor) st))
      else Inr st)"

definition set_rule :: "date \<Rightarrow> pricing_rule \<Rightarrow> oracle_state \<Rightarrow> oracle_state res" where
  "set_rule d r st =
     (if is_active (rule_period r) d then
        rbind (evaluate_condition (rule_condition r) (os_context st)) (\<lambda>holds.
        rbind (evaluate_expression (if holds then rule_when_true r else rule_when_false r) (os_context st)) (\<lambda>v.
          trace_to (rule_id r) ''RULE'' ''EVALUATE_RULE'' v [(''condition_holds'', Some (PBool holds))]
            (rule_provenance r) [] (put (rule_id r) v st)))
      else Inr st)"

definition int_or_zero :: "int option \<Rightarrow> int" where
  "int_or_zero s = (case s of None \<Rightarrow> 0 | Some i \<Rightarrow> i)"

definition active_modifiers :: "ipir_package \<Rightarrow> date \<Rightarrow> pricing_modifier list" where
  "active_modifiers p d = sort_key (\<lambda>m. int_or_zero (mod_sequence m))
     (filter (\<lambda>m. is_active (mod_period m) d) (pkg_modifiers p))"

definition active_constraints :: "ipir_package \<Rightarrow> date \<Rightarrow> premium_constraint list" where
  "active_constraints p d = sort_key (\<lambda>c. int_or_zero (pc_sequence c))
     (filter (\<lambda>c. is_active (pc_period c) d) (pkg_constraints p))"

definition active_fees :: "ipir_package \<Rightarrow> date \<Rightarrow> pricing_fee list" where
  "active_fees p d = sort_key (\<lambda>f. int_or_zero (fee_sequence f))
     (filter (\<lambda>f. is_active (fee_period f) d) (pkg_fees p))"

definition node_rounding :: "ipir_package \<Rightarrow> calculation_node \<Rightarrow> rounding_rule option" where
  "node_rounding p n =
     (case calc_rounding_rule n of
        Some r \<Rightarrow> Some r
      | None \<Rightarrow>
          (case calc_rounding_rule_ref n of
             None \<Rightarrow> None
           | Some ref \<Rightarrow> if ref = [] then None else find (\<lambda>r. rr_id r = ref) (pkg_rounding_rules p)))"

definition apply_rounding :: "rounding_rule option \<Rightarrow> decimal \<Rightarrow> decimal res" where
  "apply_rounding rr v = (case rr of None \<Rightarrow> Inr v | Some r \<Rightarrow> round_decimal v (rr_precision r) (rr_mode r))"

fun modifier_name :: "modifier_type \<Rightarrow> string" where
  "modifier_name PERCENTAGE_DISCOUNT = ''PERCENTAGE_DISCOUNT''"
| "modifier_name PERCENTAGE_SURCHARGE = ''PERCENTAGE_SURCHARGE''"
| "modifier_name FLAT_DISCOUNT = ''FLAT_DISCOUNT''"
| "modifier_name FLAT_SURCHARGE = ''FLAT_SURCHARGE''"

text \<open>The amount a modifier moves the running value by, and the new running value.\<close>

definition adjust :: "modifier_type \<Rightarrow> decimal \<Rightarrow> decimal \<Rightarrow> (decimal \<times> decimal) res" where
  "adjust mt cur v =
     (case mt of
        PERCENTAGE_DISCOUNT \<Rightarrow>
          rbind (dec_mul cur v) (\<lambda>p. rbind (round_decimal p 2 HALF_UP) (\<lambda>a.
          rbind (dec_sub cur a) (\<lambda>c. Inr (a, c))))
      | PERCENTAGE_SURCHARGE \<Rightarrow>
          rbind (dec_mul cur v) (\<lambda>p. rbind (round_decimal p 2 HALF_UP) (\<lambda>a.
          rbind (dec_add cur a) (\<lambda>c. Inr (a, c))))
      | FLAT_DISCOUNT \<Rightarrow> rbind (dec_sub cur v) (\<lambda>c. Inr (v, c))
      | FLAT_SURCHARGE \<Rightarrow> rbind (dec_add cur v) (\<lambda>c. Inr (v, c)))"

definition apply_modifier :: "pricing_modifier \<Rightarrow> oracle_state \<Rightarrow> oracle_state res" where
  "apply_modifier m st0 =
     (let st = st0\<lparr>os_modifiers := mod_id m # os_modifiers st0\<rparr> in
      rbind (case mod_eligibility m of None \<Rightarrow> Inr True | Some c \<Rightarrow> evaluate_condition c (os_context st)) (\<lambda>eligible.
        if \<not> eligible then
          trace_to (mod_id m) ''MODIFIER'' ''SKIPPED_INELIGIBLE'' (PDec (Dec False 0 (-2)))
            [(''eligibility'', Some (PBool False))] (mod_provenance m) [] st
        else
          rbind (modifier_operand (mod_value m) (os_context st)) (\<lambda>raw.
          rbind (to_dec raw) (\<lambda>v.
          rbind (adjust (mod_type m) (os_value st) v) (\<lambda>(amount, cur).
            trace_to (mod_id m) ''MODIFIER'' (modifier_name (mod_type m)) (PDec amount)
              [(''target'', Some (PStr (mod_applies_to m))), (''modifier_value'', Some (PDec v))]
              (mod_provenance m)
              [(''adjustment_amount'', PDec amount), (''post_modifier_total'', PDec cur)]
              (put (mod_id m) (PDec amount) (st\<lparr>os_value := cur\<rparr>)))))))"

fun constrain :: "constraint_type \<Rightarrow> decimal \<Rightarrow> decimal \<Rightarrow> decimal" where
  "constrain MINIMUM cur amount = dec_max cur amount"
| "constrain MAXIMUM cur amount = dec_min cur amount"

fun constraint_name :: "constraint_type \<Rightarrow> string" where
  "constraint_name MINIMUM = ''MINIMUM''"
| "constraint_name MAXIMUM = ''MAXIMUM''"

definition apply_constraint :: "premium_constraint \<Rightarrow> oracle_state \<Rightarrow> oracle_state res" where
  "apply_constraint c st =
     (let cur = constrain (pc_type c) (os_value st) (pc_amount c) in
      trace_to (pc_id c) ''CONSTRAINT'' (constraint_name (pc_type c)) (PDec cur)
        [(''target'', Some (PStr (pc_applies_to c))), (''previous_value'', Some (PDec (os_value st))),
         (''constraint_amount'', Some (PDec (pc_amount c)))]
        (pc_provenance c) []
        (st\<lparr>os_constraints := pc_id c # os_constraints st, os_value := cur\<rparr>))"

text \<open>The ids an expression refers to directly, as operands.\<close>

fun operand_refs :: "expr \<Rightarrow> string list" where
  "operand_refs (EOp op es) = concat (map (\<lambda>e. case e of ERef r \<Rightarrow> [r] | _ \<Rightarrow> []) es)"
| "operand_refs _ = []"

definition apply_fee :: "calculation_node \<Rightarrow> pricing_fee \<Rightarrow> oracle_state \<Rightarrow> oracle_state res" where
  "apply_fee n f st0 =
     (let st = st0\<lparr>os_fees := fee_id f # os_fees st0\<rparr> in
      if fee_id f \<in> set (operand_refs (calc_expression n)) then Inr st
      else
        rbind (dec_add (os_value st) (fee_amount f)) (\<lambda>cur.
          trace_to (fee_id f) ''FEE'' ''ADD_FEE'' (PDec cur)
            [(''target'', Some (PStr (fee_applies_to f))), (''previous_value'', Some (PDec (os_value st))),
             (''fee_amount'', Some (PDec (fee_amount f)))]
            (fee_provenance f) [] (st\<lparr>os_value := cur\<rparr>)))"

definition node_modifiers :: "pricing_modifier list \<Rightarrow> calculation_node \<Rightarrow> oracle_state \<Rightarrow> pricing_modifier list" where
  "node_modifiers ms n st = filter (\<lambda>m. mod_id m \<in> set (calc_depends_on n) \<and> mod_id m \<notin> set (os_modifiers st)) ms"

definition node_constraints ::
  "premium_constraint list \<Rightarrow> calculation_node \<Rightarrow> oracle_state \<Rightarrow> premium_constraint list" where
  "node_constraints cs n st = filter (\<lambda>c. pc_id c \<in> set (calc_depends_on n) \<and> pc_id c \<notin> set (os_constraints st)) cs"

definition node_fees :: "pricing_fee list \<Rightarrow> calculation_node \<Rightarrow> oracle_state \<Rightarrow> pricing_fee list" where
  "node_fees fs n st = filter (\<lambda>f. fee_id f \<in> set (calc_depends_on n) \<and> fee_id f \<notin> set (os_fees st)) fs"

definition dependency_inputs :: "calculation_node \<Rightarrow> eval_context \<Rightarrow> (string, pyval option) dict" where
  "dependency_inputs n ctx = fold (\<lambda>dep. dset dep (dget ctx dep)) (calc_depends_on n) []"

text \<open>The body of the calculation loop for an active node.\<close>

definition run_node :: "ipir_package \<Rightarrow> date \<Rightarrow> calculation_node \<Rightarrow> oracle_state \<Rightarrow> oracle_state res" where
  "run_node p d n st =
     rbind (evaluate_expression (calc_expression n) (os_context st)) (\<lambda>base.
     rbind (to_dec base) (\<lambda>b.
     rbind (apply_rounding (node_rounding p n) b) (\<lambda>cur.
     rbind (rfold apply_modifier (node_modifiers (active_modifiers p d) n st) (st\<lparr>os_value := cur\<rparr>)) (\<lambda>st1.
     rbind (rfold apply_constraint (node_constraints (active_constraints p d) n st1) st1) (\<lambda>st2.
     rbind (rfold (apply_fee n) (node_fees (active_fees p d) n st2) st2) (\<lambda>st3.
       let st4 = put (calc_id n) (PDec (os_value st3)) st3 in
       trace_to (calc_id n) ''CALCULATION'' ''EVALUATE_CALCULATION'' (PDec (os_value st4))
         (dependency_inputs n (os_context st4)) (calc_provenance n) [] st4))))))"

definition step_node :: "ipir_package \<Rightarrow> date \<Rightarrow> calculation_node \<Rightarrow> oracle_state \<Rightarrow> oracle_state res" where
  "step_node p d n st = (if is_active (calc_period n) d then run_node p d n st else Inr st)"

definition initial_state :: oracle_state where
  "initial_state = \<lparr>os_context = [], os_trace = [], os_value = dec_zero, os_modifiers = [],
     os_constraints = [], os_fees = []\<rparr>"

text \<open>Steps 2 to 6: everything the calculations read.\<close>

definition resolve_nodes :: "ipir_package \<Rightarrow> risk_values \<Rightarrow> risk_values \<Rightarrow> date \<Rightarrow> oracle_state res" where
  "resolve_nodes p risk validated d =
     rbind (rfold (set_input risk) validated initial_state) (\<lambda>s1.
     rbind (rfold (set_constant d) (pkg_constants p) s1) (\<lambda>s2.
     let s3 = fold (set_constraint d) (pkg_constraints p) (fold (set_fee d) (pkg_fees p) s2) in
     rbind (rfold (set_modifier d) (pkg_modifiers p) s3) (\<lambda>s4.
     rbind (rfold (set_table d) (pkg_tables p) s4) (\<lambda>s5.
       rfold (set_rule d) (pkg_rules p) s5))))"

definition final_result :: "ipir_package \<Rightarrow> date \<Rightarrow> transaction_type \<Rightarrow> oracle_state \<Rightarrow> oracle_result res" where
  "final_result p d txn st =
     (case pkg_outputs p of
        [] \<Rightarrow> Inl (OracleError ''no_outputs'')
      | out # _ \<Rightarrow>
          rbind (case dget (os_context st) (out_source_ref out) of
                   None \<Rightarrow> Inl (KeyError (out_source_ref out)) | Some v \<Rightarrow> to_dec v) (\<lambda>premium.
          rbind (trace_to (out_id out) ''OUTPUT'' ''FINAL_OUTPUT'' (PDec premium)
                   [(''source_ref'', Some (PStr (out_source_ref out)))] None [] st) (\<lambda>st'.
            if \<not> list_all (\<lambda>(k, v). result_value v) (os_context st')
            then Inl (ValidationError ''OracleResult.resolved_values'')
            else Inr \<lparr>or_package_id = pkg_id p, or_package_version = pkg_version p, or_effective_date = d,
              or_transaction_type = txn, or_final_output_id = out_id out, or_final_premium = premium,
              or_currency = (case out_currency out of None \<Rightarrow> ''USD'' | Some c \<Rightarrow> if c = [] then ''USD'' else c),
              or_resolved_values = os_context st', or_trace = os_trace st'\<rparr>)))"

definition evaluate_package ::
  "topo_sort \<Rightarrow> ipir_package \<Rightarrow> risk_values \<Rightarrow> date \<Rightarrow> transaction_type \<Rightarrow> bool \<Rightarrow> oracle_result res" where
  "evaluate_package topo p risk d txn strict =
     (if \<not> is_active (Some (pkg_period p)) d then Inl (EffectiveDateError ''package_inactive'')
      else if txn \<notin> set (pkg_transaction_types p) then Inl (OracleError ''transaction_type'')
      else
        rbind (validate_risk_inputs p risk strict) (\<lambda>validated.
        rbind (resolve_nodes p risk validated d) (\<lambda>st.
        rbind (topological_sort_calculations topo p) (\<lambda>nodes.
        rbind (rfold (step_node p d) nodes st) (\<lambda>st'.
          final_result p d txn st')))))"

section \<open>calculation\_date.py\<close>

datatype calculation_date_source = EXPLICIT | CONTROL_CASE | PACKAGE_EFFECTIVE_START

definition parse_calculation_date :: "pyval \<Rightarrow> date res" where
  "parse_calculation_date raw =
     (case raw of
        PDate d \<Rightarrow> Inr d
      | PStr s \<Rightarrow>
          (case date_fromisoformat (py_strip s) of
             Inl e \<Rightarrow> if e = ValueError then Inl (CalculationDateError ''INVALID_CALCULATION_DATE'') else Inl e
           | Inr d \<Rightarrow> Inr d)
      | _ \<Rightarrow> Inl (CalculationDateError ''INVALID_CALCULATION_DATE''))"

definition resolve_calculation_date ::
  "ipir_package option \<Rightarrow> pyval option \<Rightarrow> pyval option \<Rightarrow> (date \<times> calculation_date_source) res" where
  "resolve_calculation_date package explicit control_case =
     rbind (case (explicit, control_case, package) of
              (Some raw, _, _) \<Rightarrow> rbind (parse_calculation_date raw) (\<lambda>d. Inr (d, EXPLICIT))
            | (None, Some raw, _) \<Rightarrow> rbind (parse_calculation_date raw) (\<lambda>d. Inr (d, CONTROL_CASE))
            | (None, None, Some p) \<Rightarrow> Inr (ep_start (pkg_period p), PACKAGE_EFFECTIVE_START)
            | (None, None, None) \<Rightarrow> Inl (CalculationDateError ''MISSING_CALCULATION_DATE'')) (\<lambda>(d, src).
       case package of
         None \<Rightarrow> Inr (d, src)
       | Some p \<Rightarrow>
           if d < ep_start (pkg_period p)
              \<or> (case ep_end (pkg_period p) of None \<Rightarrow> False | Some e \<Rightarrow> e < d)
           then Inl (CalculationDateError ''CALCULATION_DATE_OUT_OF_PERIOD'') else Inr (d, src))"

section \<open>calculator.py, oracle.py and the IPIR target\<close>

definition context_keys :: "string list" where
  "context_keys = [''effective_date'', ''transaction_type'']"

definition transaction_of_string :: "string \<Rightarrow> transaction_type option" where
  "transaction_of_string s =
     (if s = ''NEW_BUSINESS'' then Some NEW_BUSINESS else if s = ''RENEWAL'' then Some RENEWAL
      else if s = ''POLICY_CHANGE'' then Some POLICY_CHANGE else None)"

text \<open>\<open>TransactionType(txn)\<close>.\<close>

definition parse_transaction :: "pyval \<Rightarrow> transaction_type res" where
  "parse_transaction v =
     (case v of PStr s \<Rightarrow> (case transaction_of_string s of None \<Rightarrow> Inl ValueError | Some t \<Rightarrow> Inr t)
      | _ \<Rightarrow> Inl ValueError)"

definition resolve_date ::
  "ipir_package \<Rightarrow> risk_values \<Rightarrow> pyval option \<Rightarrow> pyval option \<Rightarrow> (date \<times> calculation_date_source) res" where
  "resolve_date p risk effective control_case =
     resolve_calculation_date (Some p)
       (case effective of None \<Rightarrow> dget risk ''effective_date'' | Some d \<Rightarrow> Some d) control_case"

definition clean_inputs :: "ipir_package \<Rightarrow> risk_values \<Rightarrow> risk_values" where
  "clean_inputs p risk =
     filter (\<lambda>(k, v). \<not> (k \<in> set context_keys \<and> k \<notin> set (map pi_id (pkg_inputs p)))
       \<and> (case v of PDate _ \<Rightarrow> False | _ \<Rightarrow> True)) risk"

definition calculate_policy_premium ::
  "topo_sort \<Rightarrow> ipir_package \<Rightarrow> risk_values \<Rightarrow> pyval option \<Rightarrow> pyval option \<Rightarrow> pyval option \<Rightarrow>
   (oracle_result \<times> date \<times> calculation_date_source) res" where
  "calculate_policy_premium topo p risk effective control_case txn =
     rbind (resolve_date p risk effective control_case) (\<lambda>(d, src).
     rbind (case (case txn of None \<Rightarrow> dget risk ''transaction_type'' | Some t \<Rightarrow> Some t) of
              None \<Rightarrow> Inr NEW_BUSINESS | Some v \<Rightarrow> parse_transaction v) (\<lambda>tt.
     rbind (evaluate_package topo p (clean_inputs p risk) d tt False) (\<lambda>r. Inr (r, d, src))))"

record target_quote_result =
  tq_target_id :: string
  tq_result :: oracle_result
  tq_status :: string

definition target_quote ::
  "topo_sort \<Rightarrow> string \<Rightarrow> ipir_package \<Rightarrow> risk_values \<Rightarrow> date \<Rightarrow> transaction_type \<Rightarrow> target_quote_result res" where
  "target_quote topo target_id p risk d txn =
     rbind (evaluate_package topo p risk d txn False) (\<lambda>r.
       Inr \<lparr>tq_target_id = target_id, tq_result = r, tq_status = ''SUCCESS''\<rparr>)"

end
