(* ===== verification/OracleLaws.thy ===== *)
theory OracleLaws
  imports OraclePackage
begin

text \<open>
  What the premium oracle guarantees: calculations run once each, dependencies first; the
  trace records every step in order and each modifier, constraint and fee at most once;
  constraints and discounts keep the running premium within its bounds; validated inputs
  have the declared types and ranges; a resolved calculation date is one the package is
  active on.  The order rests on the locale \<open>topological_sorter\<close>, the documented behaviour
  of \<open>networkx.topological_sort\<close>, interpreted on a concrete sort.
\<close>

section \<open>Topological sorting\<close>

definition precedes :: "'a list \<Rightarrow> 'a \<Rightarrow> 'a \<Rightarrow> bool" where
  "precedes xs u v \<longleftrightarrow> (\<exists>as bs cs. xs = as @ u # bs @ v # cs)"

definition edges_within :: "'a list \<Rightarrow> ('a \<times> 'a) list \<Rightarrow> bool" where
  "edges_within ns es \<longleftrightarrow> (\<forall>(u, v) \<in> set es. u \<in> set ns \<and> v \<in> set ns)"

locale topological_sorter =
  fixes topo :: topo_sort
  assumes sorts: "distinct ns \<Longrightarrow> edges_within ns es \<Longrightarrow> topo ns es = Some xs \<Longrightarrow>
      distinct xs \<and> set xs = set ns \<and> (\<forall>(u, v) \<in> set es. precedes xs u v)"
    and unfeasible: "distinct ns \<Longrightarrow> edges_within ns es \<Longrightarrow> topo ns es = None \<longleftrightarrow> \<not> acyclic (set es)"
begin

lemma feasible: "distinct ns \<Longrightarrow> edges_within ns es \<Longrightarrow> acyclic (set es) \<Longrightarrow> \<exists>xs. topo ns es = Some xs"
  using unfeasible [of ns es] by (cases "topo ns es") auto

lemma mset_sorted: "distinct ns \<Longrightarrow> edges_within ns es \<Longrightarrow> topo ns es = Some xs \<Longrightarrow> mset xs = mset ns"
  using sorts [of ns es xs] by (metis set_eq_iff_mset_eq_distinct)

end

text \<open>A topological sort: take the first node with no predecessor left.\<close>

definition ready :: "(string \<times> string) list \<Rightarrow> string list \<Rightarrow> string \<Rightarrow> bool" where
  "ready es ns n \<longleftrightarrow> list_all (\<lambda>(u, v). v = n \<longrightarrow> u \<notin> set ns) es"

function kahn_sort :: "string list \<Rightarrow> (string \<times> string) list \<Rightarrow> string list option" where
  "kahn_sort ns es =
     (if ns = [] then Some []
      else case find (ready es ns) ns of
        None \<Rightarrow> None
      | Some n \<Rightarrow> map_option (Cons n) (kahn_sort (remove1 n ns) es))"
  by pat_completeness auto
termination
  by (relation "measure (\<lambda>(ns, es). length ns)")
    (auto simp: length_remove1 dest: find_SomeD intro: length_pos_if_in_set)

declare kahn_sort.simps [simp del]

lemma kahn_sort_sound:
  "distinct ns \<Longrightarrow> kahn_sort ns es = Some xs \<Longrightarrow>
     distinct xs \<and> set xs = set ns
     \<and> (\<forall>(u, v) \<in> set es. u \<in> set ns \<longrightarrow> v \<in> set ns \<longrightarrow> precedes xs u v)"
proof (induction ns es arbitrary: xs rule: kahn_sort.induct)
  case (1 ns es)
  show ?case
  proof (cases "ns = []")
    case True
    then show ?thesis using "1.prems"(2) kahn_sort.simps [of "[]" es] by auto
  next
    case False
    then obtain n ys where n: "find (ready es ns) ns = Some n" "kahn_sort (remove1 n ns) es = Some ys"
      and xs: "xs = n # ys"
      using "1.prems"(2) by (subst (asm) kahn_sort.simps) (auto split: option.splits)
    have nin: "n \<in> set ns" "ready es ns n" using find_SomeD [OF n(1)] by auto
    have IH: "distinct ys" "set ys = set ns - {n}"
      "\<forall>(u, v) \<in> set es. u \<in> set ys \<longrightarrow> v \<in> set ys \<longrightarrow> precedes ys u v"
      using "1.IH" [OF False n(1) _ n(2)] "1.prems"(1) by auto
    have "precedes xs u v" if e: "(u, v) \<in> set es" "u \<in> set ns" "v \<in> set ns" for u v
    proof -
      have "v \<noteq> n" using nin(2) e by (auto simp: ready_def list_all_iff)
      then have v: "v \<in> set ys" using e IH by auto
      show ?thesis
      proof (cases "u = n")
        case True
        then show ?thesis using v xs by (auto simp: precedes_def in_set_conv_decomp) (metis append_Nil)
      next
        case False
        then have "precedes ys u v" using IH(2,3) e v by auto
        then show ?thesis unfolding precedes_def xs by (metis append_Cons)
      qed
    qed
    then show ?thesis using IH(1,2) nin xs by auto
  qed
qed

lemma kahn_sort_complete: "acyclic (set es) \<Longrightarrow> distinct ns \<Longrightarrow> \<exists>xs. kahn_sort ns es = Some xs"
proof (induction ns es rule: kahn_sort.induct)
  case (1 ns es)
  show ?case
  proof (cases "ns = []")
    case False
    have "wf (set es)" using "1.prems"(1) finite_acyclic_wf by blast
    then obtain m where "m \<in> set ns" "\<And>u. (u, m) \<in> set es \<Longrightarrow> u \<notin> set ns"
      using False wfE_min [of "set es" "hd ns" "set ns"] by (metis hd_in_set)
    then have "ready es ns m" by (auto simp: ready_def list_all_iff)
    with \<open>m \<in> set ns\<close> obtain n where "find (ready es ns) ns = Some n"
      by (cases "find (ready es ns) ns") (auto simp: find_None_iff)
    then show ?thesis
      using "1.IH" [OF False] "1.prems" False by (subst kahn_sort.simps) auto
  qed (simp add: kahn_sort.simps)
qed

lemma precedes_acyclic:
  assumes "distinct xs" "\<forall>(u, v) \<in> E. precedes xs u v"
  shows "acyclic E"
proof -
  define idx where "idx u = (LEAST i. i < length xs \<and> xs ! i = u)" for u
  have idx: "idx (xs ! i) = i" if "i < length xs" for i
    unfolding idx_def using that assms(1) by (intro Least_equality) (auto simp: nth_eq_iff_index_eq)
  have "idx u < idx v" if pre: "precedes xs u v" for u v
  proof -
    obtain as bs cs where xs: "xs = as @ u # bs @ v # cs" using pre by (auto simp: precedes_def)
    have "idx u = length as" using idx [of "length as"] xs by simp
    moreover have "idx v = length as + Suc (length bs)"
      using idx [of "length as + Suc (length bs)"] xs by (simp add: nth_append)
    ultimately show ?thesis by simp
  qed
  then have "E \<subseteq> inv_image less_than idx" using assms(2) by auto
  then show ?thesis by (meson wf_acyclic wf_inv_image wf_less_than wf_subset)
qed

interpretation kahn: topological_sorter kahn_sort
proof
  fix ns :: "string list" and es xs
  assume h: "distinct ns" "edges_within ns es"
  show "kahn_sort ns es = Some xs \<Longrightarrow> distinct xs \<and> set xs = set ns \<and> (\<forall>(u, v) \<in> set es. precedes xs u v)"
    using kahn_sort_sound [OF h(1)] h(2) by (fastforce simp: edges_within_def)
  show "kahn_sort ns es = None \<longleftrightarrow> \<not> acyclic (set es)"
  proof
    assume "kahn_sort ns es = None"
    then show "\<not> acyclic (set es)" using kahn_sort_complete [of es ns] h(1) by auto
  next
    assume cyc: "\<not> acyclic (set es)"
    show "kahn_sort ns es = None"
    proof (rule ccontr)
      assume "kahn_sort ns es \<noteq> None"
      then obtain ys where "kahn_sort ns es = Some ys" by blast
      then have "distinct ys" "\<forall>(u, v) \<in> set es. precedes ys u v"
        using kahn_sort_sound [OF h(1)] h(2) by (fastforce simp: edges_within_def)+
      with cyc show False using precedes_acyclic by blast
    qed
  qed
qed

section \<open>Calculation order\<close>

lemma index_by_distinct:
  "distinct (map key xs) \<Longrightarrow> set (map key xs) \<inter> fst ` set d = {} \<Longrightarrow>
     index_by key xs d = d @ map (\<lambda>x. (key x, x)) xs"
proof (induction xs arbitrary: d)
  case (Cons x xs)
  have "dset (key x) x d = d @ [(key x, x)]" if "key x \<notin> fst ` set d" for d
    using that by (induction d) auto
  with Cons show ?case by auto
qed simp

abbreviation calc_map :: "ipir_package \<Rightarrow> (string, calculation_node) dict" where
  "calc_map p \<equiv> map (\<lambda>n. (calc_id n, n)) (pkg_calculations p)"

definition depends :: "ipir_package \<Rightarrow> (string \<times> string) set" where
  "depends p = {(calc_id m, calc_id n) | m n. m \<in> set (pkg_calculations p) \<and> n \<in> set (pkg_calculations p)
     \<and> calc_id m \<in> set (calc_depends_on n)}"

lemma dget_calc_map:
  "distinct (map calc_id (pkg_calculations p)) \<Longrightarrow> n \<in> set (pkg_calculations p) \<Longrightarrow> dget (calc_map p) (calc_id n) = Some n"
  by (intro map_of_is_SomeI) (auto simp: comp_def)

lemma dget_calc_map_iff:
  "(\<exists>n. dget (calc_map p) i = Some n) \<longleftrightarrow> i \<in> calc_id ` set (pkg_calculations p)"
  using map_of_eq_None_iff [of "calc_map p" i] by (auto simp: image_image)

lemma set_dependency_edges:
  assumes "distinct (map calc_id (pkg_calculations p))"
  shows "set (dependency_edges (calc_map p)) = depends p"
  using dget_calc_map_iff [of p] by (auto simp: dependency_edges_def depends_def image_iff)

lemma edges_within_calcs:
  assumes "distinct (map calc_id (pkg_calculations p))"
  shows "edges_within (map calc_id (pkg_calculations p)) (dependency_edges (calc_map p))"
  unfolding edges_within_def set_dependency_edges [OF assms] by (auto simp: depends_def)

lemma precedes_map: "precedes xs u v \<Longrightarrow> precedes (map f xs) (f u) (f v)"
  by (auto simp: precedes_def) (metis list.simps(9) map_append)

context topological_sorter
begin

lemma calculations_sorted:
  assumes "distinct (map calc_id (pkg_calculations p))"
    and "topological_sort_calculations topo p = Inr ns"
  shows "mset ns = mset (pkg_calculations p)"
    and "m \<in> set ns \<Longrightarrow> n \<in> set ns \<Longrightarrow> calc_id m \<in> set (calc_depends_on n) \<Longrightarrow> precedes ns m n"
proof -
  let ?ids = "map calc_id (pkg_calculations p)"
  let ?es = "dependency_edges (calc_map p)"
  have cm: "index_by calc_id (pkg_calculations p) [] = calc_map p"
    using index_by_distinct [OF assms(1), of "[]"] by simp
  from assms(2) obtain xs where xs: "topo ?ids ?es = Some xs"
    and ns: "ns = List.map_filter (dget (calc_map p)) xs"
    by (auto simp: topological_sort_calculations_def Let_def cm comp_def split: option.splits)
  have perm: "mset xs = mset ?ids" using mset_sorted [OF assms(1) edges_within_calcs [OF assms(1)] xs] .
  then have "set xs = calc_id ` set (pkg_calculations p)" by (metis mset_eq_setD set_map)
  then have "\<forall>i \<in> set xs. dget (calc_map p) i \<noteq> None" using dget_calc_map_iff [of p] by blast
  then have "filter (\<lambda>i. dget (calc_map p) i \<noteq> None) xs = xs" by (rule filter_True)
  then have ns': "ns = map (\<lambda>i. the (dget (calc_map p) i)) xs"
    unfolding ns List.map_filter_def by (simp only: comp_def)
  have "mset ns = image_mset (\<lambda>i. the (dget (calc_map p) i)) (mset ?ids)"
    unfolding ns' using perm by simp
  also have "\<dots> = image_mset (\<lambda>n. the (dget (calc_map p) (calc_id n))) (mset (pkg_calculations p))"
    by (simp add: multiset.map_comp comp_def)
  also have "\<dots> = image_mset id (mset (pkg_calculations p))"
    by (rule image_mset_cong) (simp add: dget_calc_map [OF assms(1)])
  finally show perm': "mset ns = mset (pkg_calculations p)" by simp
  then have set_ns: "set ns = set (pkg_calculations p)" by (rule mset_eq_setD)
  assume mn: "m \<in> set ns" "n \<in> set ns" "calc_id m \<in> set (calc_depends_on n)"
  then have "(calc_id m, calc_id n) \<in> set ?es"
    unfolding set_dependency_edges [OF assms(1)] set_ns by (auto simp: depends_def)
  then have "precedes xs (calc_id m) (calc_id n)"
    using sorts [OF assms(1) edges_within_calcs [OF assms(1)] xs] by blast
  then have "precedes ns (the (dget (calc_map p) (calc_id m))) (the (dget (calc_map p) (calc_id n)))"
    unfolding ns' by (rule precedes_map)
  moreover have "the (dget (calc_map p) (calc_id m)) = m" "the (dget (calc_map p) (calc_id n)) = n"
    using mn(1,2) dget_calc_map [OF assms(1)] unfolding set_ns by simp_all
  ultimately show "precedes ns m n" by (simp only:)
qed

lemma calculations_cycle:
  assumes "distinct (map calc_id (pkg_calculations p))"
  shows "topological_sort_calculations topo p = Inl e \<longleftrightarrow>
    \<not> acyclic (depends p) \<and> e = ExpressionEvaluationError ''cycle''"
proof -
  have cm: "index_by calc_id (pkg_calculations p) [] = calc_map p"
    using index_by_distinct [OF assms, of "[]"] by simp
  have "topo (map calc_id (pkg_calculations p)) (dependency_edges (calc_map p)) = None \<longleftrightarrow> \<not> acyclic (depends p)"
    using unfeasible [OF assms edges_within_calcs [OF assms]] by (simp add: set_dependency_edges [OF assms])
  then show ?thesis
    by (auto simp: topological_sort_calculations_def Let_def cm comp_def split: option.splits)
qed

end

section \<open>The trace\<close>

definition kinds :: "oracle_state \<Rightarrow> (string \<times> string) list" where
  "kinds st = map (\<lambda>s. (ts_node_type s, ts_node_id s)) (os_trace st)"

text \<open>Steps are numbered from 1 and carry a result of the declared union.\<close>

definition trace_ok :: "trace_step list \<Rightarrow> bool" where
  "trace_ok steps \<longleftrightarrow> map ts_sequence steps = [1..<Suc (length steps)] \<and> list_all (\<lambda>s. result_value (ts_result s)) steps"

lemma put_simps [simp]:
  "os_trace (put i v st) = os_trace st" "os_value (put i v st) = os_value st"
  "os_modifiers (put i v st) = os_modifiers st" "os_constraints (put i v st) = os_constraints st"
  "os_fees (put i v st) = os_fees st" "os_context (put i v st) = dset i v (os_context st)"
  "kinds (put i v st) = kinds st"
  by (simp_all add: put_def kinds_def)

lemma trace_to_Inr:
  "trace_to i t op v ins pv md st = Inr st' \<Longrightarrow>
     kinds st' = kinds st @ [(t, i)] \<and> os_context st' = os_context st \<and> os_value st' = os_value st
     \<and> os_modifiers st' = os_modifiers st \<and> os_constraints st' = os_constraints st \<and> os_fees st' = os_fees st
     \<and> (trace_ok (os_trace st) \<longrightarrow> trace_ok (os_trace st')) \<and> result_value v"
  by (auto simp: trace_to_def add_step_def kinds_def trace_ok_def res_simps split: if_splits)

lemma trace_to_last:
  "trace_to i t op v ins pv md st = Inr st' \<Longrightarrow>
     \<exists>s. os_trace st' = os_trace st @ [s] \<and> ts_node_id s = i \<and> ts_operation s = op \<and> ts_result s = v"
  by (auto simp: trace_to_def add_step_def res_simps split: if_splits)

text \<open>What an operation of the evaluator does to the parts of the state the properties read.\<close>

definition effect ::
  "(string \<times> string) list \<Rightarrow> string list \<Rightarrow> string list \<Rightarrow> string list \<Rightarrow> oracle_state \<Rightarrow> oracle_state \<Rightarrow> bool" where
  "effect ks ms cs fs st st' \<longleftrightarrow> kinds st' = kinds st @ ks
     \<and> os_modifiers st' = rev ms @ os_modifiers st \<and> os_constraints st' = rev cs @ os_constraints st
     \<and> os_fees st' = rev fs @ os_fees st \<and> (trace_ok (os_trace st) \<longrightarrow> trace_ok (os_trace st'))"

lemma effect_refl [simp]: "effect [] [] [] [] st st"
  by (simp add: effect_def)

lemma effect_trans:
  "effect ks ms cs fs s1 s2 \<Longrightarrow> effect ks' ms' cs' fs' s2 s3 \<Longrightarrow>
     effect (ks @ ks') (ms @ ms') (cs @ cs') (fs @ fs') s1 s3"
  by (simp add: effect_def)

lemma effect_rfold:
  assumes "\<And>x s s'. x \<in> set xs \<Longrightarrow> f x s = Inr s' \<Longrightarrow> effect (k x) (m x) (c x) (g x) s s'"
    and "rfold f xs st = Inr st'"
  shows "effect (concat (map k xs)) (concat (map m xs)) (concat (map c xs)) (concat (map g xs)) st st'"
  using assms
proof (induction xs arbitrary: st)
  case (Cons x xs)
  then obtain s where s: "f x st = Inr s" "rfold f xs s = Inr st'" by (auto simp: res_simps)
  have "effect (k x) (m x) (c x) (g x) st s" using Cons.prems(1) [OF _ s(1)] by simp
  moreover have "effect (concat (map k xs)) (concat (map m xs)) (concat (map c xs)) (concat (map g xs)) s st'"
    using Cons.IH [OF _ s(2)] Cons.prems(1) by simp
  ultimately show ?case by (auto dest: effect_trans)
qed simp

lemma trace_to_effect: "trace_to i t op v ins pv md st = Inr st' \<Longrightarrow> effect [(t, i)] [] [] [] st st'"
  by (auto simp: effect_def dest: trace_to_Inr)

lemma effect_put [simp]: "effect ks ms cs fs (put i v st) st' = effect ks ms cs fs st st'"
  "effect ks ms cs fs st (put i v st') = effect ks ms cs fs st st'"
  by (simp_all add: effect_def)

lemma effect_value [simp]:
  "effect ks ms cs fs (st\<lparr>os_value := x\<rparr>) st' = effect ks ms cs fs st st'"
  "effect ks ms cs fs st (st'\<lparr>os_value := x\<rparr>) = effect ks ms cs fs st st'"
  by (simp_all add: effect_def kinds_def)

lemma set_input_effect: "set_input risk x st = Inr st' \<Longrightarrow> effect [(''INPUT'', fst x)] [] [] [] st st'"
  unfolding set_input_def by (drule trace_to_effect) simp

lemma set_constant_effect:
  "set_constant d c st = Inr st' \<Longrightarrow>
     effect (if is_active (const_period c) d then [(''CONSTANT'', const_id c)] else []) [] [] [] st st'"
  by (auto simp: set_constant_def split: if_splits dest!: trace_to_effect)

lemma set_modifier_effect: "set_modifier d m st = Inr st' \<Longrightarrow> effect [] [] [] [] st st'"
  by (auto simp: set_modifier_def res_simps)

lemma set_table_effect:
  "set_table d t st = Inr st' \<Longrightarrow>
     effect (if is_active (tbl_period t) d then [(''TABLE'', tbl_id t)] else []) [] [] [] st st'"
  by (auto simp: set_table_def Let_def res_simps split: if_splits dest!: trace_to_effect)

lemma set_rule_effect:
  "set_rule d r st = Inr st' \<Longrightarrow>
     effect (if is_active (rule_period r) d then [(''RULE'', rule_id r)] else []) [] [] [] st st'"
  by (auto simp: set_rule_def res_simps split: if_splits dest!: trace_to_effect)

lemma apply_modifier_effect:
  "apply_modifier m st = Inr st' \<Longrightarrow> effect [(''MODIFIER'', mod_id m)] [mod_id m] [] [] st st'"
  by (auto simp: apply_modifier_def Let_def res_simps effect_def kinds_def split: if_splits dest!: trace_to_Inr)

lemma apply_constraint_effect:
  "apply_constraint c st = Inr st' \<Longrightarrow> effect [(''CONSTRAINT'', pc_id c)] [] [pc_id c] [] st st'"
  by (auto simp: apply_constraint_def Let_def effect_def kinds_def dest!: trace_to_Inr)

lemma apply_fee_effect:
  "apply_fee n f st = Inr st' \<Longrightarrow>
     effect (if fee_id f \<in> set (operand_refs (calc_expression n)) then [] else [(''FEE'', fee_id f)]) [] [] [fee_id f] st st'"
  by (auto simp: apply_fee_def Let_def res_simps effect_def kinds_def split: if_splits dest!: trace_to_Inr)

definition of_type :: "string \<Rightarrow> (string \<times> string) list \<Rightarrow> string list" where
  "of_type t ks = map snd (filter (\<lambda>k. fst k = t) ks)"

lemma of_type_simps [simp]:
  "of_type t [] = []" "of_type t (ks @ ks') = of_type t ks @ of_type t ks'"
  "of_type t ((t', i) # ks) = (if t' = t then i # of_type t ks else of_type t ks)"
  "of_type t (map (\<lambda>x. (t', f x)) xs) = (if t' = t then map f xs else [])"
  by (auto simp: of_type_def filter_map comp_def)

lemma concat_single: "concat (map (\<lambda>x. [f x]) xs) = map f xs" "concat (map (\<lambda>x. []) xs) = []"
  by (induction xs) auto

definition shown_fees :: "calculation_node \<Rightarrow> pricing_fee list \<Rightarrow> pricing_fee list" where
  "shown_fees n fs = filter (\<lambda>f. fee_id f \<notin> set (operand_refs (calc_expression n))) fs"

lemma concat_shown_fees:
  "concat (map (\<lambda>f. if fee_id f \<in> set (operand_refs (calc_expression n)) then [] else [(''FEE'', fee_id f)]) fs)
     = map (\<lambda>f. (''FEE'', fee_id f)) (shown_fees n fs)"
  by (induction fs) (auto simp: shown_fees_def)

lemma run_node_effect:
  assumes "run_node p d n st = Inr st'"
  shows "effect (map (\<lambda>m. (''MODIFIER'', mod_id m)) (node_modifiers (active_modifiers p d) n st)
      @ map (\<lambda>c. (''CONSTRAINT'', pc_id c)) (node_constraints (active_constraints p d) n st)
      @ map (\<lambda>f. (''FEE'', fee_id f)) (shown_fees n (node_fees (active_fees p d) n st))
      @ [(''CALCULATION'', calc_id n)])
    (map mod_id (node_modifiers (active_modifiers p d) n st))
    (map pc_id (node_constraints (active_constraints p d) n st))
    (map fee_id (node_fees (active_fees p d) n st)) st st'"
proof -
  from assms obtain cur st1 st2 st3 where
    1: "rfold apply_modifier (node_modifiers (active_modifiers p d) n st) (st\<lparr>os_value := cur\<rparr>) = Inr st1" and
    2: "rfold apply_constraint (node_constraints (active_constraints p d) n st1) st1 = Inr st2" and
    3: "rfold (apply_fee n) (node_fees (active_fees p d) n st2) st2 = Inr st3" and
    4: "effect [(''CALCULATION'', calc_id n)] [] [] [] st3 st'"
    unfolding run_node_def rbind_Inr_iff Let_def by (auto dest!: trace_to_effect)
  have e1: "effect (map (\<lambda>m. (''MODIFIER'', mod_id m)) (node_modifiers (active_modifiers p d) n st))
      (map mod_id (node_modifiers (active_modifiers p d) n st)) [] [] st st1"
    using effect_rfold [OF apply_modifier_effect 1] by (simp add: concat_single)
  then have same1: "node_constraints (active_constraints p d) n st1 = node_constraints (active_constraints p d) n st"
      "os_fees st1 = os_fees st"
    by (simp_all add: effect_def node_constraints_def)
  have e2: "effect (map (\<lambda>c. (''CONSTRAINT'', pc_id c)) (node_constraints (active_constraints p d) n st)) []
      (map pc_id (node_constraints (active_constraints p d) n st)) [] st1 st2"
    using effect_rfold [OF apply_constraint_effect 2] by (simp add: concat_single same1)
  then have "node_fees (active_fees p d) n st2 = node_fees (active_fees p d) n st"
    by (simp add: effect_def node_fees_def same1)
  then have e3: "effect (map (\<lambda>f. (''FEE'', fee_id f)) (shown_fees n (node_fees (active_fees p d) n st))) [] []
      (map fee_id (node_fees (active_fees p d) n st)) st2 st3"
    using effect_rfold [where k = "\<lambda>f. if fee_id f \<in> set (operand_refs (calc_expression n)) then []
        else [(''FEE'', fee_id f)]" and m = "\<lambda>_. []" and c = "\<lambda>_. []" and g = "\<lambda>f. [fee_id f]",
        OF apply_fee_effect 3] by (simp add: concat_single concat_shown_fees)
  show ?thesis
    using effect_trans [OF e1 effect_trans [OF e2 effect_trans [OF e3 4]]] by simp
qed

text \<open>Modifiers, constraints and fees are applied at most once in a run.\<close>

definition once :: "oracle_state \<Rightarrow> bool" where
  "once st \<longleftrightarrow> distinct (os_modifiers st) \<and> of_type ''MODIFIER'' (kinds st) = rev (os_modifiers st)
     \<and> distinct (os_constraints st) \<and> of_type ''CONSTRAINT'' (kinds st) = rev (os_constraints st)
     \<and> distinct (os_fees st) \<and> distinct (of_type ''FEE'' (kinds st)) \<and> set (of_type ''FEE'' (kinds st)) \<subseteq> set (os_fees st)"

definition adjustments_distinct :: "ipir_package \<Rightarrow> bool" where
  "adjustments_distinct p \<longleftrightarrow> distinct (map mod_id (pkg_modifiers p)) \<and> distinct (map pc_id (pkg_constraints p))
     \<and> distinct (map fee_id (pkg_fees p))"

lemma step_node_once:
  assumes "adjustments_distinct p" "once st" "step_node p d n st = Inr st'"
  shows "once st'"
proof (cases "is_active (calc_period n) d")
  case True
  then have eff: "run_node p d n st = Inr st'" using assms(3) by (simp add: step_node_def)
  have m: "distinct (map mod_id (node_modifiers (active_modifiers p d) n st))"
    and c: "distinct (map pc_id (node_constraints (active_constraints p d) n st))"
    and f: "distinct (map fee_id (node_fees (active_fees p d) n st))"
    using assms(1) unfolding adjustments_distinct_def node_modifiers_def node_constraints_def node_fees_def
      active_modifiers_def active_constraints_def active_fees_def
    by (simp_all add: distinct_map_filter distinct_map_sort)
  have s: "distinct (map fee_id (shown_fees n (node_fees (active_fees p d) n st)))"
    unfolding shown_fees_def by (rule distinct_map_filter [OF f])
  have new: "set (map mod_id (node_modifiers (active_modifiers p d) n st)) \<inter> set (os_modifiers st) = {}"
    "set (map pc_id (node_constraints (active_constraints p d) n st)) \<inter> set (os_constraints st) = {}"
    "set (map fee_id (node_fees (active_fees p d) n st)) \<inter> set (os_fees st) = {}"
    by (auto simp: node_modifiers_def node_constraints_def node_fees_def)
  have sub: "set (map fee_id (shown_fees n (node_fees (active_fees p d) n st)))
      \<subseteq> set (map fee_id (node_fees (active_fees p d) n st))"
    by (auto simp: shown_fees_def)
  have dis: "set (of_type ''FEE'' (kinds st)) \<inter> fee_id ` set (shown_fees n (node_fees (active_fees p d) n st)) = {}"
    using assms(2) new(3) sub unfolding once_def set_map by blast
  show ?thesis
    using run_node_effect [OF eff] assms(2) m c f s new sub dis
    unfolding once_def effect_def by auto
qed (use assms in \<open>simp add: step_node_def\<close>)

text \<open>Which adjustments the calculations make: a modifier or constraint is applied when one of them depends on
  it; a fee is added by the first one that depends on it, unless that one has it as an operand already.\<close>

definition adjusts :: "date \<Rightarrow> calculation_node \<Rightarrow> string \<Rightarrow> bool" where
  "adjusts d n i \<longleftrightarrow> is_active (calc_period n) d \<and> i \<in> set (calc_depends_on n)"

lemma Collect_image: "{f x | x. x \<in> S \<and> P (f x)} = f ` S \<inter> {i. P i}"
  by auto

lemma step_node_adjusts:
  assumes "step_node p d n st = Inr st'"
  shows "set (os_modifiers st') = set (os_modifiers st) \<union> {mod_id m | m. m \<in> set (active_modifiers p d) \<and> adjusts d n (mod_id m)}
    \<and> set (os_constraints st') = set (os_constraints st) \<union> {pc_id c | c. c \<in> set (active_constraints p d) \<and> adjusts d n (pc_id c)}
    \<and> set (os_fees st') = set (os_fees st) \<union> {fee_id f | f. f \<in> set (active_fees p d) \<and> adjusts d n (fee_id f)}
    \<and> set (of_type ''FEE'' (kinds st')) = set (of_type ''FEE'' (kinds st)) \<union>
        {fee_id f | f. f \<in> set (active_fees p d) \<and> adjusts d n (fee_id f) \<and> fee_id f \<notin> set (os_fees st)
          \<and> fee_id f \<notin> set (operand_refs (calc_expression n))}"
proof (cases "is_active (calc_period n) d")
  case True
  then have "run_node p d n st = Inr st'" using assms by (simp add: step_node_def)
  from run_node_effect [OF this] True show ?thesis
    by (auto simp: effect_def adjusts_def node_modifiers_def node_constraints_def node_fees_def shown_fees_def)
qed (use assms in \<open>simp add: step_node_def adjusts_def\<close>)

lemma run_adjusts:
  "rfold (step_node p d) ns st = Inr st' \<Longrightarrow>
     set (os_modifiers st') = set (os_modifiers st) \<union> {mod_id m | m. m \<in> set (active_modifiers p d) \<and> (\<exists>n \<in> set ns. adjusts d n (mod_id m))}
   \<and> set (os_constraints st') = set (os_constraints st) \<union> {pc_id c | c. c \<in> set (active_constraints p d) \<and> (\<exists>n \<in> set ns. adjusts d n (pc_id c))}
   \<and> set (of_type ''FEE'' (kinds st')) = set (of_type ''FEE'' (kinds st)) \<union>
        {fee_id f | f. f \<in> set (active_fees p d) \<and> fee_id f \<notin> set (os_fees st)
          \<and> (\<exists>n. find (\<lambda>n. adjusts d n (fee_id f)) ns = Some n \<and> fee_id f \<notin> set (operand_refs (calc_expression n)))}"
proof (induction ns arbitrary: st)
  case (Cons n ns)
  then obtain s where s: "step_node p d n st = Inr s" "rfold (step_node p d) ns s = Inr st'" by (auto simp: res_simps)
  note step = step_node_adjusts [OF s(1)] and IH = Cons.IH [OF s(2)]
  have "set (of_type ''FEE'' (kinds st')) = set (of_type ''FEE'' (kinds st)) \<union>
        {fee_id f | f. f \<in> set (active_fees p d) \<and> fee_id f \<notin> set (os_fees st)
          \<and> (\<exists>k. find (\<lambda>n. adjusts d n (fee_id f)) (n # ns) = Some k \<and> fee_id f \<notin> set (operand_refs (calc_expression k)))}"
    unfolding IH [THEN conjunct2, THEN conjunct2] step [THEN conjunct2, THEN conjunct2, THEN conjunct2]
      step [THEN conjunct2, THEN conjunct2, THEN conjunct1] Collect_image by auto
  moreover have "set (os_modifiers st') = set (os_modifiers st) \<union> {mod_id m | m. m \<in> set (active_modifiers p d) \<and> (\<exists>k \<in> set (n # ns). adjusts d k (mod_id m))}"
    unfolding IH [THEN conjunct1] step [THEN conjunct1] by auto
  moreover have "set (os_constraints st') = set (os_constraints st) \<union> {pc_id c | c. c \<in> set (active_constraints p d) \<and> (\<exists>k \<in> set (n # ns). adjusts d k (pc_id c))}"
    unfolding IH [THEN conjunct2, THEN conjunct1] step [THEN conjunct2, THEN conjunct1] by auto
  ultimately show ?case by blast
qed simp

lemma step_node_calculation:
  "step_node p d n st = Inr st' \<Longrightarrow>
     of_type ''CALCULATION'' (kinds st') = of_type ''CALCULATION'' (kinds st)
       @ (if is_active (calc_period n) d then [calc_id n] else [])
     \<and> (trace_ok (os_trace st) \<longrightarrow> trace_ok (os_trace st'))"
  by (auto simp: step_node_def effect_def split: if_splits dest!: run_node_effect)

lemma run_calculations:
  "rfold (step_node p d) ns st = Inr st' \<Longrightarrow>
     of_type ''CALCULATION'' (kinds st') = of_type ''CALCULATION'' (kinds st)
       @ map calc_id (filter (\<lambda>n. is_active (calc_period n) d) ns)
     \<and> (trace_ok (os_trace st) \<longrightarrow> trace_ok (os_trace st'))"
proof (induction ns arbitrary: st)
  case (Cons n ns)
  then obtain s where s: "step_node p d n st = Inr s" "rfold (step_node p d) ns s = Inr st'" by (auto simp: res_simps)
  show ?case using Cons.IH [OF s(2)] step_node_calculation [OF s(1)] by simp
qed simp

text \<open>The steps before the calculations adjust nothing.\<close>

definition quiet :: "oracle_state \<Rightarrow> oracle_state \<Rightarrow> bool" where
  "quiet st st' \<longleftrightarrow> (\<exists>ks. effect ks [] [] [] st st' \<and>
     list_all (\<lambda>k. fst k \<in> {''INPUT'', ''CONSTANT'', ''TABLE'', ''RULE''}) ks)"

lemma quiet_refl [simp]: "quiet st st"
  unfolding quiet_def by (rule exI [of _ "[]"]) simp

lemma quiet_trans: "quiet a b \<Longrightarrow> quiet b c \<Longrightarrow> quiet a c"
  unfolding quiet_def using effect_trans [of _ "[]" "[]" "[]" a b _ "[]" "[]" "[]" c] by fastforce

lemma quietI: "effect ks [] [] [] st st' \<Longrightarrow> list_all (\<lambda>k. fst k \<in> {''INPUT'', ''CONSTANT'', ''TABLE'', ''RULE''}) ks \<Longrightarrow> quiet st st'"
  unfolding quiet_def by blast

lemma quiet_rfold:
  "(\<And>x s s'. f x s = Inr s' \<Longrightarrow> quiet s s') \<Longrightarrow> rfold f xs st = Inr st' \<Longrightarrow> quiet st st'"
  using rfold_invariant [where P = "quiet st"] quiet_trans by (metis quiet_refl)

lemma quiet_fold: "(\<And>x s. quiet s (f x s)) \<Longrightarrow> quiet st (fold f xs st)"
  by (induction xs arbitrary: st) (auto intro: quiet_trans)

lemma quiet_steps:
  "set_input risk x st = Inr st' \<Longrightarrow> quiet st st'"
  "set_constant d c st = Inr st' \<Longrightarrow> quiet st st'"
  "set_modifier d m st = Inr st' \<Longrightarrow> quiet st st'"
  "set_table d t st = Inr st' \<Longrightarrow> quiet st st'"
  "set_rule d r st = Inr st' \<Longrightarrow> quiet st st'"
  "quiet st (set_fee d f st)" "quiet st (set_constraint d k st)"
  by (auto intro!: quietI dest!: set_input_effect set_constant_effect set_modifier_effect set_table_effect
      set_rule_effect simp: set_fee_def set_constraint_def) (auto simp: effect_def)

lemma resolve_nodes_quiet:
  assumes "resolve_nodes p risk validated d = Inr st"
  shows "quiet initial_state st"
proof -
  from assms obtain s1 s2 s4 s5 where
    s1: "rfold (set_input risk) validated initial_state = Inr s1" and
    s2: "rfold (set_constant d) (pkg_constants p) s1 = Inr s2" and
    s4: "rfold (set_modifier d) (pkg_modifiers p)
      (fold (set_constraint d) (pkg_constraints p) (fold (set_fee d) (pkg_fees p) s2)) = Inr s4" and
    s5: "rfold (set_table d) (pkg_tables p) s4 = Inr s5" and s6: "rfold (set_rule d) (pkg_rules p) s5 = Inr st"
    by (auto simp: resolve_nodes_def Let_def res_simps)
  have "quiet initial_state s1" by (rule quiet_rfold [OF _ s1]) (rule quiet_steps(1))
  moreover have "quiet s1 s2" by (rule quiet_rfold [OF _ s2]) (rule quiet_steps(2))
  moreover have "quiet s2 (fold (set_fee d) (pkg_fees p) s2)" by (rule quiet_fold) (rule quiet_steps(6))
  moreover have "quiet (fold (set_fee d) (pkg_fees p) s2)
      (fold (set_constraint d) (pkg_constraints p) (fold (set_fee d) (pkg_fees p) s2))"
    by (rule quiet_fold) (rule quiet_steps(7))
  moreover have "quiet (fold (set_constraint d) (pkg_constraints p) (fold (set_fee d) (pkg_fees p) s2)) s4"
    by (rule quiet_rfold [OF _ s4]) (rule quiet_steps(3))
  moreover have "quiet s4 s5" by (rule quiet_rfold [OF _ s5]) (rule quiet_steps(4))
  moreover have "quiet s5 st" by (rule quiet_rfold [OF _ s6]) (rule quiet_steps(5))
  ultimately show ?thesis by (blast intro: quiet_trans)
qed

lemma of_type_quiet:
  "list_all (\<lambda>k. fst k \<in> T) ks \<Longrightarrow> t \<notin> T \<Longrightarrow> of_type t ks = []"
  by (induction ks) (auto simp: of_type_def)

lemma resolve_nodes_state:
  assumes "resolve_nodes p risk validated d = Inr st"
  shows "once st" "of_type ''CALCULATION'' (kinds st) = []" "trace_ok (os_trace st)"
    and "os_modifiers st = []" "os_constraints st = []" "os_fees st = []"
proof -
  obtain ks where ks: "effect ks [] [] [] initial_state st"
      "list_all (\<lambda>k. fst k \<in> {''INPUT'', ''CONSTANT'', ''TABLE'', ''RULE''}) ks"
    using resolve_nodes_quiet [OF assms] by (auto simp: quiet_def)
  then have "of_type t ks = []" if "t \<notin> {''INPUT'', ''CONSTANT'', ''TABLE'', ''RULE''}" for t
    using of_type_quiet that by blast
  then show "once st" "of_type ''CALCULATION'' (kinds st) = []" "trace_ok (os_trace st)"
    "os_modifiers st = []" "os_constraints st = []" "os_fees st = []"
    using ks(1) by (simp_all add: effect_def once_def initial_state_def kinds_def trace_ok_def)
qed

definition trace_ids :: "string \<Rightarrow> trace_step list \<Rightarrow> string list" where
  "trace_ids t steps = map ts_node_id (filter (\<lambda>s. ts_node_type s = t) steps)"

lemma trace_ids_kinds: "trace_ids t (os_trace st) = of_type t (kinds st)"
  by (simp add: trace_ids_def of_type_def kinds_def filter_map comp_def)

lemma final_result_Inr:
  assumes "final_result p d txn st = Inr r"
  obtains out rest v st' where "pkg_outputs p = out # rest" "dget (os_context st) (out_source_ref out) = Some v"
    "to_dec v = Inr (or_final_premium r)" "or_trace r = os_trace st'" "or_resolved_values r = os_context st"
    "effect [(''OUTPUT'', out_id out)] [] [] [] st st'"
    "ts_result (last (or_trace r)) = PDec (or_final_premium r)" "ts_operation (last (or_trace r)) = ''FINAL_OUTPUT''"
proof -
  obtain out rest where out: "pkg_outputs p = out # rest"
    using assms by (auto simp: final_result_def split: list.splits)
  with assms obtain v premium st' where v: "dget (os_context st) (out_source_ref out) = Some v" "to_dec v = Inr premium"
    and tr: "trace_to (out_id out) ''OUTPUT'' ''FINAL_OUTPUT'' (PDec premium)
       [(''source_ref'', Some (PStr (out_source_ref out)))] None [] st = Inr st'"
    and r: "or_final_premium r = premium" "or_trace r = os_trace st'" "or_resolved_values r = os_context st'"
    by (auto simp: final_result_def res_simps split: option.splits if_splits)
  show ?thesis
    using trace_to_last [OF tr] trace_to_Inr [OF tr] trace_to_effect [OF tr] r v
    by (intro that [OF out v(1)]) auto
qed

lemma evaluate_package_Inr:
  assumes "evaluate_package topo p risk d txn strict = Inr r"
  obtains validated st ns st' where "is_active (Some (pkg_period p)) d" "txn \<in> set (pkg_transaction_types p)"
    "validate_risk_inputs p risk strict = Inr validated" "resolve_nodes p risk validated d = Inr st"
    "topological_sort_calculations topo p = Inr ns" "rfold (step_node p d) ns st = Inr st'"
    "final_result p d txn st' = Inr r"
  using assms by (auto simp: evaluate_package_def res_simps split: if_splits)

section \<open>Constraints and discounts\<close>

definition obeys :: "decimal \<Rightarrow> premium_constraint \<Rightarrow> bool" where
  "obeys v c \<longleftrightarrow> (case pc_type c of MINIMUM \<Rightarrow> dval (pc_amount c) \<le> dval v | MAXIMUM \<Rightarrow> dval v \<le> dval (pc_amount c))"

text \<open>No minimum above a maximum.\<close>

definition consistent :: "premium_constraint set \<Rightarrow> bool" where
  "consistent C \<longleftrightarrow> (\<forall>a \<in> C. \<forall>b \<in> C. pc_type a = MINIMUM \<longrightarrow> pc_type b = MAXIMUM \<longrightarrow> dval (pc_amount a) \<le> dval (pc_amount b))"

lemma apply_constraint_value:
  "apply_constraint c st = Inr st' \<Longrightarrow> os_value st' = constrain (pc_type c) (os_value st) (pc_amount c)
     \<and> os_context st' = os_context st"
  by (auto simp: apply_constraint_def Let_def dest!: trace_to_Inr)

lemma constrain_obeys:
  assumes "consistent (insert c D)" "\<forall>b \<in> D. obeys v b"
  shows "\<forall>b \<in> insert c D. obeys (constrain (pc_type c) v (pc_amount c)) b"
  using assms by (cases "pc_type c") (auto simp: obeys_def consistent_def split: constraint_type.splits)

lemma constraints_obeyed:
  "rfold apply_constraint cs st = Inr st' \<Longrightarrow> consistent (D \<union> set cs) \<Longrightarrow> \<forall>b \<in> D. obeys (os_value st) b \<Longrightarrow>
     (\<forall>b \<in> D \<union> set cs. obeys (os_value st') b) \<and> os_context st' = os_context st"
proof (induction cs arbitrary: st D)
  case (Cons c cs)
  then obtain s where s: "apply_constraint c st = Inr s" "rfold apply_constraint cs s = Inr st'" by (auto simp: res_simps)
  have "consistent (insert c D)" using Cons.prems(2) by (auto simp: consistent_def)
  then have "\<forall>b \<in> insert c D. obeys (os_value s) b"
    using constrain_obeys [OF _ Cons.prems(3)] apply_constraint_value [OF s(1)] by simp
  then show ?case
    using Cons.IH [OF s(2), of "insert c D"] Cons.prems(2) apply_constraint_value [OF s(1)] by simp
qed simp

lemma run_node_constraints:
  assumes "run_node p d n st = Inr st'" "node_fees (active_fees p d) n st = []"
    and "consistent (set (node_constraints (active_constraints p d) n st))"
  shows "\<exists>v. dget (os_context st') (calc_id n) = Some (PDec v)
    \<and> (\<forall>c \<in> set (node_constraints (active_constraints p d) n st). obeys v c)"
proof -
  from assms(1) obtain cur st1 st2 st3 where
    1: "rfold apply_modifier (node_modifiers (active_modifiers p d) n st) (st\<lparr>os_value := cur\<rparr>) = Inr st1" and
    2: "rfold apply_constraint (node_constraints (active_constraints p d) n st1) st1 = Inr st2" and
    3: "rfold (apply_fee n) (node_fees (active_fees p d) n st2) st2 = Inr st3" and
    4: "os_context st' = dset (calc_id n) (PDec (os_value st3)) (os_context st3)"
    unfolding run_node_def rbind_Inr_iff Let_def by (auto dest!: trace_to_Inr)
  have "os_constraints st1 = os_constraints st" "os_fees st1 = os_fees st"
    using effect_rfold [OF apply_modifier_effect 1] by (simp_all add: effect_def concat_single)
  then have c: "node_constraints (active_constraints p d) n st1 = node_constraints (active_constraints p d) n st"
    and f: "os_fees st2 = os_fees st"
    using effect_rfold [OF apply_constraint_effect 2] by (simp_all add: effect_def concat_single node_constraints_def)
  have "st3 = st2" using 3 f assms(2) by (simp add: node_fees_def)
  then show ?thesis using constraints_obeyed [OF 2, of "{}"] assms(3) 4 c by simp
qed

lemma cents_value: "dexp d = -2 \<Longrightarrow> \<exists>k. dval d = of_int k / 100 \<and> \<bar>k\<bar> = int (dcoeff d)"
proof (cases d)
  case (Dec s c e)
  assume "dexp d = -2"
  then have "dval d = of_int (if s then - int c else int c) / 100"
    using Dec by (simp add: dval.simps power_int_def power2_eq_square)
  then show ?thesis using Dec by (intro exI [of _ "if s then - int c else int c"]) simp
qed

lemma discount_bounds:
  assumes cur: "dexp cur = -2" "dcoeff cur < 10 ^ 28" "0 \<le> dval cur"
    and v: "0 \<le> dval v" "dval v \<le> 1" "dec_fits (dec_exact_mul cur v)"
    and adj: "adjust PERCENTAGE_DISCOUNT cur v = Inr (a, c)"
  shows "0 \<le> dval a \<and> dval a \<le> dval cur \<and> \<bar>dval a - dval cur * dval v\<bar> \<le> 1 / 200 \<and> dval c = dval cur - dval a"
proof -
  let ?x = "dval cur * dval v * 100"
  from adj have q: "dec_quantize HALF_UP (dec_exact_mul cur v) (-2) = Inr a" and s: "dec_sub cur a = Inr c"
    using v(3) by (auto simp: adjust_def res_simps dec_mul_exact round_decimal_def quantum_exp_def dec_Etiny_def)
  have a: "dexp a = -2" "dval a = of_int (rat_round HALF_UP ?x) / 100"
    using dec_quantize_spec [OF q] by (simp_all add: power_int_def field_simps)
  obtain k where k: "dval cur = of_int k / 100" "\<bar>k\<bar> = int (dcoeff cur)" using cents_value [OF cur(1)] by blast
  have "0 \<le> ?x" using cur(3) v(1) by simp
  moreover have "?x \<le> of_int k"
  proof -
    have "?x \<le> dval cur * 100" using mult_left_le [OF v(2) cur(3)] by simp
    also have "\<dots> = of_int k" using k(1) by simp
    finally show ?thesis .
  qed
  ultimately have r: "0 \<le> rat_round HALF_UP ?x" "rat_round HALF_UP ?x \<le> k"
    using rat_round_mono [of 0 ?x HALF_UP] rat_round_mono [of ?x "of_int k" HALF_UP] rat_round_int [of HALF_UP 0]
      rat_round_int [of HALF_UP k] by auto
  have half: "\<bar>of_int (rat_round HALF_UP ?x) - ?x\<bar> \<le> 1 / 2" using rat_round_half [of HALF_UP ?x] by simp
  obtain j where j: "dval a = of_int j / 100" "\<bar>j\<bar> = int (dcoeff a)" using cents_value [OF a(1)] by blast
  have jr: "j = rat_round HALF_UP ?x" using j(1) a(2) by simp
  have "dec_fits (dec_exact_add cur (dec_negate a))"
  proof -
    have e: "dexp (dec_exact_add cur (dec_negate a)) = -2"
      using cur(1) a(1) by (cases a) (simp add: dec_exact_add_def Let_def)
    obtain i where i: "dval (dec_exact_add cur (dec_negate a)) = of_int i / 100"
      "\<bar>i\<bar> = int (dcoeff (dec_exact_add cur (dec_negate a)))" using cents_value [OF e] by blast
    have "i = k - j" using i(1) k(1) j(1) by (simp add: field_simps)
    then have "\<bar>i\<bar> \<le> \<bar>k\<bar>" using r jr by linarith
    then have "dcoeff (dec_exact_add cur (dec_negate a)) < 10 ^ 28" using i(2) k(2) cur(2) by linarith
    with e show ?thesis by (simp add: dec_fits_def dec_context_defs)
  qed
  then have c: "dval c = dval cur - dval a" using s by (auto simp: dec_sub_def dec_add_exact)
  have scale: "\<bar>x\<bar> \<le> 1 / 200" if "x = y / 100" "\<bar>y\<bar> \<le> 1 / 2" for x y :: rat
    using that by linarith
  have "dval a - dval cur * dval v = (of_int (rat_round HALF_UP ?x) - ?x) / 100"
    unfolding a(2) by (simp add: diff_divide_distrib)
  then have "\<bar>dval a - dval cur * dval v\<bar> \<le> 1 / 200" using half by (rule scale)
  moreover have "0 \<le> dval a" "dval a \<le> dval cur"
    using r unfolding a(2) k(1) by (simp_all add: divide_right_mono)
  ultimately show ?thesis using c by blast
qed

section \<open>Inputs\<close>

fun has_type :: "input_data_type \<Rightarrow> pyval \<Rightarrow> bool" where
  "has_type INTEGER_T v = (\<exists>i. v = PInt i)"
| "has_type DECIMAL_T v = (\<exists>d. v = PDec d)"
| "has_type MONEY_T v = (\<exists>d. v = PDec d)"
| "has_type STRING_T v = (\<exists>s. v = PStr s)"
| "has_type CATEGORY_T v = (\<exists>s. v = PStr s)"
| "has_type BOOLEAN_T v = (\<exists>b. v = PBool b)"
| "has_type DATE_T v = (\<exists>d. v = PDate d)"

definition in_bounds :: "pricing_input \<Rightarrow> pyval \<Rightarrow> bool" where
  "in_bounds inp v \<longleftrightarrow> pi_data_type inp \<in> {INTEGER_T, DECIMAL_T, MONEY_T} \<longrightarrow>
     (\<forall>lo l. pi_minimum inp = Some lo \<longrightarrow> to_dec lo = Inr l \<longrightarrow> dval l \<le> val_rat v) \<and>
     (\<forall>hi h. pi_maximum inp = Some hi \<longrightarrow> to_dec hi = Inr h \<longrightarrow> val_rat v \<le> dval h)"

definition accepts :: "pricing_input \<Rightarrow> pyval \<Rightarrow> bool" where
  "accepts inp v \<longleftrightarrow> has_type (pi_data_type inp) v \<and> in_bounds inp v
     \<and> (case pi_allowed_values inp of None \<Rightarrow> True | Some vs \<Rightarrow> py_str v \<in> set vs)"

lemma convert_raw_type: "convert_raw dt v = Inr x \<Longrightarrow> has_type dt x"
  by (cases dt) (auto simp: res_simps split: if_splits pyval.splits elim: is_bool.elims(2))

lemma convert_input_type: "convert_input dt v = Inr x \<Longrightarrow> has_type dt x"
  by (auto simp: convert_input_def intro: convert_raw_type split: sum.splits if_splits)

lemma check_bounds_ok:
  assumes "has_type (pi_data_type inp) v" "check_bounds inp v = Inr u"
  shows "in_bounds inp v"
proof (cases "pi_data_type inp \<in> {INTEGER_T, DECIMAL_T, MONEY_T}")
  case True
  with assms(1) obtain n where n: "to_dec v = Inr n" "val_rat v = dval n"
    by (auto simp: val_rat_def)
  show ?thesis
    using assms(2) True n unfolding check_bounds_def in_bounds_def
    by (auto simp: res_simps split: option.splits if_splits)
qed (simp add: in_bounds_def)

lemma supplied_None: "supplied_value inp risk = Inr None \<Longrightarrow> \<not> pi_required inp"
  by (auto simp: supplied_value_def res_simps split: option.splits bool.splits if_splits)

lemma validate_risk_input_ok:
  assumes "validate_risk_input risk inp vals = Inr vals'"
  shows "vals' = vals \<and> \<not> pi_required inp \<or> (\<exists>v. accepts inp v \<and> vals' = dset (pi_id inp) v vals)"
proof -
  from assms obtain val where val: "supplied_value inp risk = Inr val"
    unfolding validate_risk_input_def rbind_Inr_iff by blast
  show ?thesis
  proof (cases val)
    case None
    then show ?thesis using assms val supplied_None [of inp risk] by (simp add: validate_risk_input_def)
  next
    case (Some v)
    with assms val obtain x u where x: "convert_input (pi_data_type inp) v = Inr x"
      "\<not> (case pi_allowed_values inp of None \<Rightarrow> False | Some vs \<Rightarrow> py_str x \<notin> set vs)"
      "check_bounds inp x = Inr u" "vals' = dset (pi_id inp) x vals"
      by (auto simp: validate_risk_input_def rbind_Inr_iff split: if_splits)
    have "has_type (pi_data_type inp) x" using x(1) by (rule convert_input_type)
    moreover from this x(3) have "in_bounds inp x" by (rule check_bounds_ok)
    ultimately have "accepts inp x" using x(2) by (simp add: accepts_def split: option.splits)
    then show ?thesis using x(4) by blast
  qed
qed

definition validated_from :: "pricing_input list \<Rightarrow> risk_values \<Rightarrow> bool" where
  "validated_from inps vals \<longleftrightarrow> (\<forall>i v. dget vals i = Some v \<longrightarrow> (\<exists>inp \<in> set inps. pi_id inp = i \<and> accepts inp v))"

lemma validate_inputs_loop:
  "rfold (validate_risk_input risk) inps vals = Inr vals' \<Longrightarrow> validated_from done vals \<Longrightarrow>
     validated_from (done @ inps) vals'
     \<and> (\<forall>i. dget vals i \<noteq> None \<longrightarrow> dget vals' i \<noteq> None)
     \<and> (\<forall>inp \<in> set inps. pi_required inp \<longrightarrow> dget vals' (pi_id inp) \<noteq> None)"
proof (induction inps arbitrary: vals "done")
  case (Cons inp inps)
  then obtain s where s: "validate_risk_input risk inp vals = Inr s" "rfold (validate_risk_input risk) inps s = Inr vals'"
    by (auto simp: res_simps)
  have ok: "s = vals \<and> \<not> pi_required inp \<or> (\<exists>v. accepts inp v \<and> s = dset (pi_id inp) v vals)"
    by (rule validate_risk_input_ok [OF s(1)])
  then have "validated_from (done @ [inp]) s" using Cons.prems(2) by (fastforce simp: validated_from_def)
  from Cons.IH [OF s(2) this] ok show ?case by auto
qed (simp add: validated_from_def)

lemma date_value_traced: "rfold (set_input risk) vals st = Inr st' \<Longrightarrow> dget vals i \<noteq> Some (PDate d)"
proof (induction vals arbitrary: st)
  case (Cons x vals)
  then obtain s where s: "set_input risk x st = Inr s" "rfold (set_input risk) vals s = Inr st'" by (auto simp: res_simps)
  have "result_value (snd x)" using s(1) by (auto simp: set_input_def dest: trace_to_Inr)
  with Cons.IH [OF s(2)] show ?case by (cases x) auto
qed simp

lemma node_ids_distinct:
  assumes "distinct (node_ids p)"
  shows "distinct (map calc_id (pkg_calculations p))" "adjustments_distinct p" "distinct (map pi_id (pkg_inputs p))"
  using assms by (simp_all add: node_ids_def entities_def adjustments_distinct_def comp_def)

definition resolve_nodes_done :: "oracle_state \<Rightarrow> bool" where
  "resolve_nodes_done st \<longleftrightarrow> os_modifiers st = [] \<and> os_constraints st = [] \<and> os_fees st = [] \<and> once st
     \<and> of_type ''CALCULATION'' (kinds st) = [] \<and> trace_ok (os_trace st)"

lemma evaluate_run:
  assumes "distinct (node_ids p)" "evaluate_package topo p risk d txn strict = Inr r"
  obtains st0 st ns where "resolve_nodes_done st0" "topological_sort_calculations topo p = Inr ns"
    "rfold (step_node p d) ns st0 = Inr st" "once st" "trace_ok (or_trace r)"
    "\<And>t. t \<noteq> ''OUTPUT'' \<Longrightarrow> trace_ids t (or_trace r) = of_type t (kinds st)"
proof -
  obtain validated st0 ns st where run: "resolve_nodes p risk validated d = Inr st0"
      "topological_sort_calculations topo p = Inr ns" "rfold (step_node p d) ns st0 = Inr st"
      "final_result p d txn st = Inr r"
    by (rule evaluate_package_Inr [OF assms(2)])
  obtain i st' where fin: "or_trace r = os_trace st'" "effect [(''OUTPUT'', i)] [] [] [] st st'"
    by (rule final_result_Inr [OF run(4)]) iprover
  have init: "resolve_nodes_done st0" using resolve_nodes_state [OF run(1)] by (simp add: resolve_nodes_done_def)
  have once: "once st"
    by (rule rfold_invariant [OF run(3), of once])
      (use init step_node_once [OF node_ids_distinct(2) [OF assms(1)]] in \<open>auto simp: resolve_nodes_done_def\<close>)
  have out: "kinds st' = kinds st @ [(''OUTPUT'', i)]" "trace_ok (or_trace r)"
    using fin run_calculations [OF run(3)] init by (simp_all add: effect_def resolve_nodes_done_def)
  have ids: "trace_ids t (or_trace r) = of_type t (kinds st)" if "t \<noteq> ''OUTPUT''" for t
    unfolding fin(1) trace_ids_kinds out(1) using that by simp
  show ?thesis by (rule that [OF init run(2,3) once out(2) ids])
qed

lemma evaluate_trace:
  assumes "distinct (node_ids p)" "evaluate_package topo p risk d txn strict = Inr r"
  obtains st ns where "topological_sort_calculations topo p = Inr ns" "once st"
    "trace_ids ''CALCULATION'' (or_trace r) = map calc_id (filter (\<lambda>n. is_active (calc_period n) d) ns)"
    "trace_ok (or_trace r)" "\<And>t. t \<noteq> ''OUTPUT'' \<Longrightarrow> trace_ids t (or_trace r) = of_type t (kinds st)"
proof -
  obtain st0 st ns where run: "resolve_nodes_done st0" "topological_sort_calculations topo p = Inr ns"
      "rfold (step_node p d) ns st0 = Inr st" "once st" "trace_ok (or_trace r)"
      and ids: "\<And>t. t \<noteq> ''OUTPUT'' \<Longrightarrow> trace_ids t (or_trace r) = of_type t (kinds st)"
    by (rule evaluate_run [OF assms]) blast
  have "trace_ids ''CALCULATION'' (or_trace r) = map calc_id (filter (\<lambda>n. is_active (calc_period n) d) ns)"
    using ids [of "''CALCULATION''"] run_calculations [OF run(3)] run(1) by (simp add: resolve_nodes_done_def)
  then show ?thesis using run ids by (intro that [of ns st])
qed

lemma cyclic_fails:
  assumes "topological_sorter topo" "distinct (node_ids p)" "\<not> acyclic (depends p)"
  shows "evaluate_package topo p risk d txn strict \<noteq> Inr r"
proof
  assume "evaluate_package topo p risk d txn strict = Inr r"
  then obtain ns where "topological_sort_calculations topo p = Inr ns" by (rule evaluate_trace [OF assms(2)])
  then show False
    using topological_sorter.calculations_cycle [OF assms(1) node_ids_distinct(1) [OF assms(2)]] assms(3) by auto
qed

lemma resolved_date:
  assumes "resolve_calculation_date (Some p) explicit control = Inr (dt, src)"
  shows "is_active (Some (pkg_period p)) dt \<and> (src = EXPLICIT \<longleftrightarrow> explicit \<noteq> None)
    \<and> (src = CONTROL_CASE \<longleftrightarrow> explicit = None \<and> control \<noteq> None)
    \<and> (src = PACKAGE_EFFECTIVE_START \<longrightarrow> dt = ep_start (pkg_period p))"
  using assms
  by (cases explicit; cases control; cases "ep_end (pkg_period p)")
    (auto simp: resolve_calculation_date_def is_active_def rbind_Inr_iff split: if_splits)

section \<open>Properties\<close>

text \<open>C3: A run that succeeds executes every calculation active on its date exactly once, each
  after the calculations it depends on, and its trace lists them in that order.\<close>

theorem calculations_run_in_order:
  assumes "topological_sorter topo" "distinct (node_ids p)"
    and "evaluate_package topo p risk d txn strict = Inr r"
  shows "\<exists>ns. mset ns = mset (pkg_calculations p)
    \<and> (\<forall>m n. m \<in> set ns \<and> n \<in> set ns \<and> calc_id m \<in> set (calc_depends_on n) \<longrightarrow> precedes ns m n)
    \<and> trace_ids ''CALCULATION'' (or_trace r) = map calc_id (filter (\<lambda>n. is_active (calc_period n) d) ns)"
proof -
  obtain st ns where ns: "topological_sort_calculations topo p = Inr ns"
      "trace_ids ''CALCULATION'' (or_trace r) = map calc_id (filter (\<lambda>n. is_active (calc_period n) d) ns)"
    using evaluate_trace [OF assms(2,3)] by blast
  show ?thesis
    using topological_sorter.calculations_sorted [OF assms(1) node_ids_distinct(1) [OF assms(2)] ns(1)] ns(2) by blast
qed

text \<open>A package whose calculations depend on each other in a cycle is never priced, and the sort
  of an acyclic one never fails.\<close>

theorem cycle_never_priced:
  assumes "topological_sorter topo" "distinct (node_ids p)"
  shows "(\<not> acyclic (depends p) \<longrightarrow> \<not> (\<exists>r. evaluate_package topo p risk d txn strict = Inr r))
    \<and> (acyclic (depends p) \<longrightarrow> (\<exists>ns. topological_sort_calculations topo p = Inr ns))"
  using cyclic_fails [OF assms] topological_sorter.calculations_cycle [OF assms(1) node_ids_distinct(1) [OF assms(2)]]
  by (metis obj_sumE)

text \<open>C4: The adjustments of a successful run are exactly these, and none is traced twice: a modifier or a premium
  constraint active on the date is applied if and only if a calculation that runs depends on it; an active fee
  is added if and only if a calculation that runs depends on it and the first one that does, in the order of
  the run, does not name it as a direct operand, whatever the other calculations declare.\<close>

theorem adjustments_applied_once:
  assumes "distinct (node_ids p)" "evaluate_package topo p risk d txn strict = Inr r"
  shows "\<exists>ns. topological_sort_calculations topo p = Inr ns
    \<and> distinct (trace_ids ''MODIFIER'' (or_trace r)) \<and> distinct (trace_ids ''CONSTRAINT'' (or_trace r))
    \<and> distinct (trace_ids ''FEE'' (or_trace r))
    \<and> set (trace_ids ''MODIFIER'' (or_trace r))
        = {mod_id m | m. m \<in> set (active_modifiers p d) \<and> (\<exists>n \<in> set ns. adjusts d n (mod_id m))}
    \<and> set (trace_ids ''CONSTRAINT'' (or_trace r))
        = {pc_id c | c. c \<in> set (active_constraints p d) \<and> (\<exists>n \<in> set ns. adjusts d n (pc_id c))}
    \<and> set (trace_ids ''FEE'' (or_trace r))
        = {fee_id f | f. f \<in> set (active_fees p d) \<and> (\<exists>n. find (\<lambda>n. adjusts d n (fee_id f)) ns = Some n
            \<and> fee_id f \<notin> set (operand_refs (calc_expression n)))}"
proof -
  obtain st0 st ns where run: "resolve_nodes_done st0" "topological_sort_calculations topo p = Inr ns"
      "rfold (step_node p d) ns st0 = Inr st" "once st"
      and ids: "\<And>t. t \<noteq> ''OUTPUT'' \<Longrightarrow> trace_ids t (or_trace r) = of_type t (kinds st)"
    by (rule evaluate_run [OF assms]) blast
  have "of_type ''FEE'' (kinds st0) = []" using run(1) by (auto simp: once_def resolve_nodes_done_def)
  then show ?thesis
    using run_adjusts [OF run(3)] run(1,2,4) ids [of "''MODIFIER''"] ids [of "''CONSTRAINT''"] ids [of "''FEE''"]
    by (intro exI [of _ ns]) (simp add: once_def resolve_nodes_done_def)
qed

text \<open>The trace of a successful run is numbered 1, 2, 3 without a gap, no step's result is a
  date, and its last step is the final output carrying the premium, which is the value the
  context holds for the output's source.\<close>

theorem trace_complete:
  assumes "distinct (node_ids p)" "evaluate_package topo p risk d txn strict = Inr r"
  shows "map ts_sequence (or_trace r) = [1..<Suc (length (or_trace r))]
    \<and> list_all (\<lambda>s. result_value (ts_result s)) (or_trace r)
    \<and> ts_operation (last (or_trace r)) = ''FINAL_OUTPUT''
    \<and> ts_result (last (or_trace r)) = PDec (or_final_premium r)
    \<and> (\<exists>v. dget (or_resolved_values r) (out_source_ref (hd (pkg_outputs p))) = Some v \<and> to_dec v = Inr (or_final_premium r))"
proof -
  obtain st ns where "trace_ok (or_trace r)" using evaluate_trace [OF assms] by blast
  moreover obtain st where "final_result p d txn st = Inr r" using evaluate_package_Inr [OF assms(2)] by blast
  then have "ts_result (last (or_trace r)) = PDec (or_final_premium r)"
    "ts_operation (last (or_trace r)) = ''FINAL_OUTPUT''"
    "\<exists>v. dget (or_resolved_values r) (out_source_ref (hd (pkg_outputs p))) = Some v \<and> to_dec v = Inr (or_final_premium r)"
    by (elim final_result_Inr; force)+
  ultimately show ?thesis by (simp add: trace_ok_def)
qed

text \<open>A calculation without fees of its own obeys all its premium constraints together: if no
  minimum exceeds a maximum, the value it puts in the context lies above every minimum and
  below every maximum, in whatever sequence they are declared.\<close>

theorem constraints_hold_together:
  assumes "run_node p d n st = Inr st'" "node_fees (active_fees p d) n st = []"
    and "consistent (set (node_constraints (active_constraints p d) n st))"
  shows "\<exists>v. dget (os_context st') (calc_id n) = Some (PDec v)
    \<and> (\<forall>c \<in> set (node_constraints (active_constraints p d) n st). obeys v c)"
  using assms by (rule run_node_constraints)

text \<open>A percentage discount between 0 and 1 on an amount in cents takes off the discount rounded
  to the nearest cent, never more than the amount, so that the premium stays between 0 and
  what it was.\<close>

theorem percentage_discount_bounded:
  assumes "dexp cur = -2" "dcoeff cur < 10 ^ 28" "0 \<le> dval cur"
    and "0 \<le> dval v" "dval v \<le> 1" "dec_fits (dec_exact_mul cur v)"
    and "adjust PERCENTAGE_DISCOUNT cur v = Inr (a, c)"
  shows "0 \<le> dval c \<and> dval c \<le> dval cur \<and> \<bar>dval a - dval cur * dval v\<bar> \<le> 1 / 200 \<and> dval c = dval cur - dval a"
  using discount_bounds [OF assms] by simp

text \<open>Validated inputs are exactly typed: each accepted value has the Python type its input
  declares, lies within the declared bounds and among the allowed values; every required
  input has one; in strict mode nothing undeclared was supplied.\<close>

theorem validated_inputs_accepted:
  assumes "validate_risk_inputs p risk strict = Inr vals"
  shows "(\<forall>i v. dget vals i = Some v \<longrightarrow> (\<exists>inp \<in> set (pkg_inputs p). pi_id inp = i \<and> accepts inp v))
    \<and> (\<forall>inp \<in> set (pkg_inputs p). pi_required inp \<longrightarrow> dget vals (pi_id inp) \<noteq> None)
    \<and> (strict \<longrightarrow> set (map fst risk) \<subseteq> set (map pi_id (pkg_inputs p)))"
proof -
  from assms have loop: "rfold (validate_risk_input risk) (pkg_inputs p) [] = Inr vals"
      "strict \<longrightarrow> set (map fst risk) \<subseteq> set (map pi_id (pkg_inputs p))"
    by (auto simp: validate_risk_inputs_def res_simps split: if_splits)
  have "validated_from [] []" by (simp add: validated_from_def)
  from validate_inputs_loop [OF loop(1) this] loop(2) show ?thesis by (simp add: validated_from_def)
qed

text \<open>C6: A package with a required DATE input is never priced: the date is accepted, and then the
  trace step that should record it fails validation, because no result may be a date.\<close>

theorem date_input_never_priced:
  assumes "distinct (node_ids p)" "inp \<in> set (pkg_inputs p)" "pi_data_type inp = DATE_T" "pi_required inp"
  shows "\<not> (\<exists>r. evaluate_package topo p risk d txn strict = Inr r)"
proof
  assume "\<exists>r. evaluate_package topo p risk d txn strict = Inr r"
  then obtain r where "evaluate_package topo p risk d txn strict = Inr r" ..
  then obtain vals st where vals: "validate_risk_inputs p risk strict = Inr vals" "resolve_nodes p risk vals d = Inr st"
    using evaluate_package_Inr by blast
  have "rfold (validate_risk_input risk) (pkg_inputs p) [] = Inr vals"
    using vals(1) by (auto simp: validate_risk_inputs_def res_simps split: if_splits)
  from validate_inputs_loop [OF this, of "[]"] obtain v inp' where v: "dget vals (pi_id inp) = Some v"
      "inp' \<in> set (pkg_inputs p)" "pi_id inp' = pi_id inp" "accepts inp' v"
    using assms(2,4) by (fastforce simp: validated_from_def)
  then have "inp' = inp"
    using node_ids_distinct(3) [OF assms(1)] assms(2) by (auto simp: distinct_map dest: inj_onD)
  then obtain dt where "v = PDate dt" using v(4) assms(3) by (auto simp: accepts_def)
  moreover obtain s1 where "rfold (set_input risk) vals initial_state = Inr s1"
    using vals(2) by (auto simp: resolve_nodes_def res_simps)
  ultimately show False using date_value_traced [of risk vals initial_state s1 "pi_id inp" dt] v(1) by simp
qed

text \<open>The calculation date is taken from the first source supplied (explicit, control case,
  package start), and a date that is resolved is one the package is active on.\<close>

theorem calculation_date_active:
  assumes "resolve_calculation_date (Some p) explicit control = Inr (dt, src)"
  shows "is_active (Some (pkg_period p)) dt \<and> (src = EXPLICIT \<longleftrightarrow> explicit \<noteq> None)
    \<and> (src = CONTROL_CASE \<longleftrightarrow> explicit = None \<and> control \<noteq> None)
    \<and> (src = PACKAGE_EFFECTIVE_START \<longrightarrow> dt = ep_start (pkg_period p))"
  using assms by (rule resolved_date)

section \<open>A sample run\<close>

text \<open>Two calculations declared out of order, a discount, a minimum premium and a fee.\<close>

definition final_calculation :: calculation_node where
  "final_calculation = \<lparr>calc_id = ''final'', calc_name = ''Final'', calc_expression = ERef ''premium'',
     calc_depends_on = [''premium'', ''loyalty'', ''floor'', ''policy_fee''], calc_rounding_rule_ref = None,
     calc_rounding_rule = None, calc_period = None, calc_provenance = None, calc_description = None\<rparr>"

definition full_package :: ipir_package where
  "full_package = sample_package\<lparr>
     pkg_calculations := [final_calculation, sample_calculation],
     pkg_modifiers := [\<lparr>mod_id = ''loyalty'', mod_name = ''Loyalty'', mod_type = PERCENTAGE_DISCOUNT,
       mod_applies_to = ''final'', mod_value = ModDec (Dec False 10 (-2)), mod_eligibility = None,
       mod_sequence = None, mod_period = None, mod_provenance = None\<rparr>],
     pkg_constraints := [\<lparr>pc_id = ''floor'', pc_name = ''Minimum premium'', pc_type = MINIMUM,
       pc_amount = Dec False 120000 (-2), pc_applies_to = ''final'', pc_sequence = None, pc_period = None,
       pc_provenance = None\<rparr>],
     pkg_fees := [\<lparr>fee_id = ''policy_fee'', fee_name = ''Policy fee'', fee_amount = Dec False 2500 (-2),
       fee_applies_to = ''final'', fee_sequence = None, fee_period = None, fee_provenance = None\<rparr>],
     pkg_outputs := [\<lparr>out_id = ''total'', out_name = ''Total'', out_source_ref = ''final'',
       out_currency = Some ''USD'', out_description = None\<rparr>]\<rparr>"

definition roof20 :: risk_values where "roof20 = [(''roof_age'', PInt 20)]"

lemma full_inputs: "validate_risk_inputs full_package roof20 False = Inr roof20"
  by (simp add: validate_risk_inputs_def full_package_def sample_package_def sample_input_def roof20_def
     validate_risk_input_def supplied_value_def convert_input_def check_bounds_def)

lemma full_order: "topological_sort_calculations kahn_sort full_package = Inr [sample_calculation, final_calculation]"
  by (simp add: topological_sort_calculations_def full_package_def sample_calculation_def final_calculation_def
     dependency_edges_def kahn_sort.simps ready_def List.map_filter_def)

definition full_context :: eval_context where
  "full_context = [(''roof_age'', PInt 20), (''base_rate'', PDec (Dec False 100010 (-2))),
    (''policy_fee'', PDec (Dec False 2500 (-2))), (''floor'', PDec (Dec False 120000 (-2))), 
    (''loyalty'', PDec (Dec False 90 (-2))), (''roof_factor'', PDec (Dec False 125 (-2)))]"

lemmas dec_eval = dec_add_def dec_sub_def dec_exact_add_def dec_mul_def dec_fix.simps dec_context_defs ndigits.simps
   dec_quantize.simps dec_rescale.simps round_shift_def quantum_exp_def round_decimal_def dec_const_defs Let_def
   dval.simps dec_max_def dec_min_def

lemma full_lookup: "lookup_table sample_table [(''roof_age'', Some (PInt 20))] = Inr (Dec False 125 (-2), range_row 11 100 (Dec False 125 (-2)))"
  by (simp add: lookup_table_def sample_table_def range_table_def range_row_def matches_cell_def matches_range_def)

lemma sample_table_fields:
  "tbl_id sample_table = ''roof_factor''" "tbl_period sample_table = None" "tbl_provenance sample_table = None"
  "tbl_dimensions sample_table = [\<lparr>td_input_ref = ''roof_age'', td_lookup_type = RANGE\<rparr>]"
  by (simp_all add: sample_table_def range_table_def)

lemma full_nodes: "\<exists>st. resolve_nodes full_package roof20 roof20 (Date 2026 3 1) = Inr st \<and> os_context st = full_context \<and>
   os_modifiers st = [] \<and> os_constraints st = [] \<and> os_fees st = []"
  by (simp add: resolve_nodes_def full_package_def sample_package_def roof20_def full_context_def
    set_input_def set_constant_def set_fee_def set_constraint_def set_modifier_def set_table_def is_active_def
    put_def trace_to_def add_step_def initial_state_def modifier_factor_def modifier_operand_def dec_eval full_lookup
    dimension_values_def sample_table_fields)

lemma full_active:
  "active_modifiers full_package (Date 2026 3 1) = pkg_modifiers full_package"
  "active_constraints full_package (Date 2026 3 1) = pkg_constraints full_package"
  "active_fees full_package (Date 2026 3 1) = pkg_fees full_package"
  by (simp_all add: active_modifiers_def active_constraints_def active_fees_def full_package_def is_active_def)

lemma full_first: "os_context st = full_context \<Longrightarrow>
   \<exists>st'. step_node full_package (Date 2026 3 1) sample_calculation st = Inr st' \<and> 
     os_context st' = full_context @ [(''premium'', PDec (Dec False 125013 (-2)))] \<and>
     os_modifiers st' = os_modifiers st \<and> os_constraints st' = os_constraints st \<and> os_fees st' = os_fees st"
  unfolding step_node_def run_node_def full_active node_modifiers_def node_constraints_def node_fees_def
  by (simp add: sample_calculation_def full_context_def resolve_ref_def apply_operator_def is_active_def
     node_rounding_def full_package_def sample_package_def apply_rounding_def trace_to_def add_step_def put_def dec_eval)

lemma full_second: "os_context st = full_context @ [(''premium'', PDec (Dec False 125013 (-2)))] \<Longrightarrow>
   os_modifiers st = [] \<Longrightarrow> os_constraints st = [] \<Longrightarrow> os_fees st = [] \<Longrightarrow>
   \<exists>st'. step_node full_package (Date 2026 3 1) final_calculation st = Inr st' \<and> 
     dget (os_context st') ''final'' = Some (PDec (Dec False 122500 (-2))) \<and> list_all (\<lambda>(k, v). result_value v) (os_context st')"
  unfolding step_node_def run_node_def full_active node_modifiers_def node_constraints_def node_fees_def
  by (simp add: final_calculation_def full_context_def resolve_ref_def is_active_def
     node_rounding_def full_package_def apply_rounding_def trace_to_def add_step_def put_def dec_eval
     apply_modifier_def modifier_operand_def adjust_def apply_constraint_def apply_fee_def)

lemma full_run: "\<exists>r. evaluate_package kahn_sort full_package roof20 (Date 2026 3 1) NEW_BUSINESS False = Inr r
   \<and> or_final_premium r = Dec False 122500 (-2)"
proof -
  obtain st where 1: "resolve_nodes full_package roof20 roof20 (Date 2026 3 1) = Inr st" "os_context st = full_context"
   "os_modifiers st = []" "os_constraints st = []" "os_fees st = []" using full_nodes by blast
  obtain st1 where 2: "step_node full_package (Date 2026 3 1) sample_calculation st = Inr st1"
     "os_context st1 = full_context @ [(''premium'', PDec (Dec False 125013 (-2)))]"
     "os_modifiers st1 = []" "os_constraints st1 = []" "os_fees st1 = []" using full_first [OF 1(2)] 1 by auto
  obtain st2 where 3: "step_node full_package (Date 2026 3 1) final_calculation st1 = Inr st2"
     "dget (os_context st2) ''final'' = Some (PDec (Dec False 122500 (-2)))"
     "list_all (\<lambda>(k, v). result_value v) (os_context st2)"
    using full_second [OF 2(2-5)] by blast
  have 4: "\<exists>r. final_result full_package (Date 2026 3 1) NEW_BUSINESS st2 = Inr r \<and> or_final_premium r = Dec False 122500 (-2)"
    using 3(2,3) by (simp add: final_result_def full_package_def trace_to_def add_step_def)
  have 0: "is_active (Some (pkg_period full_package)) (Date 2026 3 1)" "NEW_BUSINESS \<in> set (pkg_transaction_types full_package)"
    by (simp_all add: full_package_def sample_package_def is_active_def less_date_def)
  show ?thesis
    unfolding evaluate_package_def using 0 full_inputs full_order 1(1) 2(1) 3(1) 4 by simp
qed

lemma full_distinct: "distinct (node_ids full_package)"
  by (simp add: node_ids_def entities_def full_package_def sample_package_def sample_input_def sample_table_fields
    sample_calculation_def final_calculation_def)

section \<open>Witnesses\<close>

lemma calculations_run_in_order_witness:
  "\<exists>r ns. evaluate_package kahn_sort full_package roof20 (Date 2026 3 1) NEW_BUSINESS False = Inr r
     \<and> mset ns = mset (pkg_calculations full_package)
     \<and> trace_ids ''CALCULATION'' (or_trace r) = map calc_id (filter (\<lambda>n. is_active (calc_period n) (Date 2026 3 1)) ns)"
  using calculations_run_in_order [OF kahn.topological_sorter_axioms full_distinct] full_run by blast

definition looped_package :: ipir_package where
  "looped_package = sample_package\<lparr>pkg_calculations := [sample_calculation\<lparr>calc_depends_on := [''premium'']\<rparr>]\<rparr>"

lemma cycle_never_priced_witness:
  "\<not> (\<exists>r. evaluate_package kahn_sort looped_package roof20 (Date 2026 3 1) NEW_BUSINESS False = Inr r)"
proof -
  have "distinct (node_ids looped_package)"
    by (simp add: node_ids_def entities_def looped_package_def sample_package_def sample_input_def
        sample_table_fields sample_calculation_def)
  moreover have "(''premium'', ''premium'') \<in> depends looped_package"
    by (auto simp: depends_def looped_package_def sample_calculation_def)
  then have "\<not> acyclic (depends looped_package)" by (auto simp: acyclic_def)
  ultimately show ?thesis using cycle_never_priced [OF kahn.topological_sorter_axioms] by blast
qed

lemma adjustments_applied_once_witness:
  "\<exists>r. evaluate_package kahn_sort full_package roof20 (Date 2026 3 1) NEW_BUSINESS False = Inr r
     \<and> distinct (trace_ids ''MODIFIER'' (or_trace r))"
  using adjustments_applied_once [OF full_distinct] full_run by blast

lemma trace_complete_witness:
  "\<exists>r. evaluate_package kahn_sort full_package roof20 (Date 2026 3 1) NEW_BUSINESS False = Inr r
     \<and> ts_result (last (or_trace r)) = PDec (Dec False 122500 (-2))"
  using trace_complete [OF full_distinct] full_run by metis

definition priced_state :: oracle_state where
  "priced_state = initial_state\<lparr>os_context := full_context @ [(''premium'', PDec (Dec False 125013 (-2)))],
     os_fees := [''policy_fee'']\<rparr>"

lemma constraints_hold_together_witness:
  "\<exists>st'. run_node full_package (Date 2026 3 1) final_calculation priced_state = Inr st'
     \<and> (\<exists>v. dget (os_context st') ''final'' = Some (PDec v) \<and> dval (Dec False 120000 (-2)) \<le> dval v)"
proof -
  let ?cs = "node_constraints (active_constraints full_package (Date 2026 3 1)) final_calculation priced_state"
  have "\<exists>st'. run_node full_package (Date 2026 3 1) final_calculation priced_state = Inr st'"
    unfolding run_node_def full_active node_modifiers_def node_constraints_def node_fees_def
    by (simp add: final_calculation_def full_context_def resolve_ref_def priced_state_def initial_state_def
      node_rounding_def full_package_def apply_rounding_def trace_to_def add_step_def put_def dec_eval
      apply_modifier_def modifier_operand_def adjust_def apply_constraint_def)
  moreover have "node_fees (active_fees full_package (Date 2026 3 1)) final_calculation priced_state = []"
    unfolding full_active by (simp add: node_fees_def priced_state_def full_package_def)
  moreover have cs: "?cs = pkg_constraints full_package"
    unfolding full_active by (simp add: node_constraints_def priced_state_def initial_state_def full_package_def final_calculation_def)
  then have "consistent (set ?cs)" by (auto simp: consistent_def full_package_def)
  moreover have "calc_id final_calculation = ''final''" by (simp add: final_calculation_def)
  ultimately show ?thesis
    using constraints_hold_together [of full_package "Date 2026 3 1" final_calculation priced_state] cs
    by (fastforce simp: full_package_def obeys_def)
qed

lemma percentage_discount_bounded_witness:
  "\<exists>a c. adjust PERCENTAGE_DISCOUNT (Dec False 125013 (-2)) (Dec False 10 (-2)) = Inr (a, c)
     \<and> 0 \<le> dval c \<and> dval c \<le> dval (Dec False 125013 (-2))"
proof -
  have adj: "adjust PERCENTAGE_DISCOUNT (Dec False 125013 (-2)) (Dec False 10 (-2))
      = Inr (Dec False 12501 (-2), Dec False 112512 (-2))"
    by (simp add: adjust_def dec_eval)
  show ?thesis
    using percentage_discount_bounded [OF _ _ _ _ _ _ adj] adj by (simp add: dval.simps dec_fits_def dec_context_defs power_int_def)
qed

lemma validated_inputs_accepted_witness:
  "\<exists>inp \<in> set (pkg_inputs full_package). pi_id inp = ''roof_age'' \<and> accepts inp (PInt 20)"
  using validated_inputs_accepted [OF full_inputs] by (simp add: roof20_def)

definition dated_package :: ipir_package where
  "dated_package = sample_package\<lparr>pkg_inputs := [sample_input\<lparr>pi_data_type := DATE_T\<rparr>]\<rparr>"

lemma date_input_never_priced_witness:
  "\<not> (\<exists>r. evaluate_package kahn_sort dated_package [(''roof_age'', PDate (Date 2001 5 4))] (Date 2026 3 1) NEW_BUSINESS False = Inr r)"
proof -
  have "distinct (node_ids dated_package)"
    by (simp add: node_ids_def entities_def dated_package_def sample_package_def sample_input_def
        sample_table_fields sample_calculation_def)
  then show ?thesis
    using date_input_never_priced [of dated_package "sample_input\<lparr>pi_data_type := DATE_T\<rparr>"]
    by (simp add: dated_package_def sample_input_def)
qed

lemma calculation_date_active_witness:
  "is_active (Some (pkg_period sample_package)) (Date 2026 3 1)"
proof -
  have "resolve_calculation_date (Some sample_package) (Some (PDate (Date 2026 3 1))) None = Inr (Date 2026 3 1, EXPLICIT)"
    by (simp add: resolve_calculation_date_def parse_calculation_date_def sample_package_def less_date_def)
  from calculation_date_active [OF this] show ?thesis by blast
qed

end
