(* ===== verification/RateLimit.thy ===== *)
theory RateLimit
  imports PyValue
begin

text \<open>
  Rate limiting, \<open>src/backend/app/ratelimit\<close>: policies (\<open>policy.py\<close>), the fixed-window
  counters and the two limiters (\<open>limiter.py\<close>).

  Time is a rational number of seconds (the code's float, without its rounding).  The SHA-256
  hex digest is the parameter \<open>digest\<close>.  Firestore is modelled by what its client documents:
  \<open>create\<close> is atomic and fails with \<open>AlreadyExists\<close> on an existing document, any call may be
  aborted, fail, or have its reply lost, and no call outlives its timeout.  A request is a
  state machine of its remote calls, so that any number of requests on any number of
  instances interleave (\<open>limiter_step\<close>).
\<close>

section \<open>policy.py\<close>

record rate_policy =
  rp_operation :: string
  rp_limit :: int
  rp_window :: int

definition default_policies :: "(string, int \<times> int) dict" where
  "default_policies =
     [(''connector_test'', (5, 3600)), (''mission_create'', (10, 3600)), (''source_upload'', (30, 3600)),
      (''source_compile'', (30, 3600)), (''explanation_create'', (20, 3600)),
      (''evidence_download'', (30, 3600)), (''source_download'', (60, 3600))]"

definition max_limit :: int where "max_limit = 10000"
definition max_window_seconds :: int where "max_window_seconds = 86400"

definition policy_error :: "string \<Rightarrow> 'a res" where
  "policy_error op = Inl (RateLimitConfigError op)"

text \<open>\<open>raw.split("/", 1)\<close> unpacked into two.\<close>

definition split_slash :: "string \<Rightarrow> (string \<times> string) option" where
  "split_slash raw =
     (case dropWhile (\<lambda>c. c \<noteq> CHR ''/'') raw of
        [] \<Rightarrow> None
      | _ # rest \<Rightarrow> Some (takeWhile (\<lambda>c. c \<noteq> CHR ''/'') raw, rest))"

definition parse_policy :: "string \<Rightarrow> string \<Rightarrow> rate_policy res" where
  "parse_policy operation raw =
     (case split_slash raw of
        None \<Rightarrow> policy_error operation
      | Some (l, w) \<Rightarrow>
          (case (parse_int l, parse_int w) of
             (Some lmt, Some wnd) \<Rightarrow>
               if \<not> (1 \<le> lmt \<and> lmt \<le> max_limit) then policy_error operation
               else if \<not> (1 \<le> wnd \<and> wnd \<le> max_window_seconds) then policy_error operation
               else Inr \<lparr>rp_operation = operation, rp_limit = lmt, rp_window = wnd\<rparr>
           | _ \<Rightarrow> policy_error operation))"

definition builtin_policies :: "(string, rate_policy) dict" where
  "builtin_policies = map (\<lambda>(op, lmt, wnd). (op, \<lparr>rp_operation = op, rp_limit = lmt, rp_window = wnd\<rparr>)) default_policies"

definition resolve_policies :: "(string, string) dict \<Rightarrow> (string, rate_policy) dict res" where
  "resolve_policies overrides =
     rfold (\<lambda>(operation, raw) policies.
       if dget default_policies operation = None then policy_error operation
       else rbind (parse_policy operation raw) (\<lambda>p. Inr (dset operation p policies))) overrides builtin_policies"

section \<open>limiter.py: windows and keys\<close>

definition expiry_grace_seconds :: int where "expiry_grace_seconds = 3600"
definition hit_budget_seconds :: rat where "hit_budget_seconds = 5"
definition rpc_timeout_seconds :: rat where "rpc_timeout_seconds = 2"
definition max_slot_probes :: nat where "max_slot_probes = 32"
definition max_contention_retries :: nat where "max_contention_retries = 3"
definition contention_retry_after :: int where "contention_retry_after = 1"

record rate_decision =
  rd_allowed :: bool
  rd_remaining :: int
  rd_retry_after :: int
  rd_corrupt_state :: bool
  rd_reason :: string

definition window_bounds :: "rat \<Rightarrow> rate_policy \<Rightarrow> int \<times> int" where
  "window_bounds now p =
     (let start = \<lfloor>now / of_int (rp_window p)\<rfloor> * rp_window p in (start, start + rp_window p))"

definition retry_after :: "rat \<Rightarrow> int \<Rightarrow> int" where
  "retry_after now window_end = max 1 \<lceil>of_int window_end - now\<rceil>"

text \<open>\<open>json.dumps\<close> of a string, ASCII only.\<close>

definition hex_digit :: "nat \<Rightarrow> char" where
  "hex_digit n = (if n < 10 then char_of (48 + n) else char_of (87 + n))"

definition json_char :: "char \<Rightarrow> string" where
  "json_char c =
     (let n = (of_char c :: nat) in
      if n = 34 then [CHR 0x5C, CHR 0x22] else if n = 92 then [CHR 0x5C, CHR 0x5C]
      else if n = 10 then [CHR 0x5C, CHR ''n''] else if n = 13 then [CHR 0x5C, CHR ''r'']
      else if n = 9 then [CHR 0x5C, CHR ''t''] else if n = 12 then [CHR 0x5C, CHR ''f'']
      else if n = 8 then [CHR 0x5C, CHR ''b'']
      else if 32 \<le> n \<and> n \<le> 126 then [c]
      else [CHR 0x5C, CHR ''u'', CHR ''0'', CHR ''0'', hex_digit (n div 16), hex_digit (n mod 16)])"

definition json_string :: "string \<Rightarrow> string" where
  "json_string s = CHR 0x22 # concat (map json_char s) @ [CHR 0x22]"

definition counter_raw :: "string \<Rightarrow> string \<Rightarrow> string \<Rightarrow> int \<Rightarrow> string" where
  "counter_raw operation tenant_id uid window_start =
     ''['' @ json_string operation @ '', '' @ json_string tenant_id @ '', '' @ json_string uid @ '', ''
       @ int_str window_start @ '']''"

definition counter_id :: "(string \<Rightarrow> string) \<Rightarrow> rate_policy \<Rightarrow> string \<Rightarrow> string \<Rightarrow> int \<Rightarrow> string" where
  "counter_id digest p tenant_id uid window_start =
     take 40 (digest (counter_raw (rp_operation p) tenant_id uid window_start))"

section \<open>limiter.py: InMemoryRateLimiter\<close>

type_synonym counters = "(string, int \<times> int) dict"

definition clean_counters :: "rat \<Rightarrow> rate_policy \<Rightarrow> counters \<Rightarrow> counters" where
  "clean_counters now p cs = filter (\<lambda>(k, ws, n). \<not> of_int (ws + 2 * rp_window p) < now) cs"

definition memory_hit ::
  "(string \<Rightarrow> string) \<Rightarrow> string \<Rightarrow> string \<Rightarrow> rate_policy \<Rightarrow> rat \<Rightarrow> counters \<Rightarrow> counters \<times> rate_decision" where
  "memory_hit digest tenant_id uid p now cs0 =
     (let (start, wend) = window_bounds now p;
          cid = counter_id digest p tenant_id uid start;
          cs = clean_counters now p cs0;
          count = snd (dget_default cs cid (start, 0)) in
      if rp_limit p \<le> count
      then (cs, \<lparr>rd_allowed = False, rd_remaining = 0, rd_retry_after = retry_after now wend,
                 rd_corrupt_state = False, rd_reason = ''limit_reached''\<rparr>)
      else (dset cid (start, count + 1) cs,
            \<lparr>rd_allowed = True, rd_remaining = rp_limit p - count - 1, rd_retry_after = retry_after now wend,
             rd_corrupt_state = False, rd_reason = []\<rparr>))"

section \<open>limiter.py: FirestoreRateLimiter\<close>

text \<open>A slot document; a field that is absent or of another type is \<open>None\<close>.\<close>

record slot_doc =
  sd_tenant :: "string option"
  sd_uid :: "string option"
  sd_operation :: "string option"
  sd_window_start :: "int option"
  sd_window_key :: "string option"
  sd_slot :: "int option"
  sd_expires_at :: int

type_synonym slot_store = "(string, slot_doc) dict"

record hit_request =
  hr_tenant :: string
  hr_uid :: string
  hr_policy :: rate_policy
  hr_now :: rat

definition hr_window :: "hit_request \<Rightarrow> int \<times> int" where
  "hr_window q = window_bounds (hr_now q) (hr_policy q)"

definition hr_key :: "(string \<Rightarrow> string) \<Rightarrow> hit_request \<Rightarrow> string" where
  "hr_key digest q = counter_id digest (hr_policy q) (hr_tenant q) (hr_uid q) (fst (hr_window q))"

definition slot_id :: "string \<Rightarrow> int \<Rightarrow> string" where
  "slot_id cid slot = cid @ ''_'' @ int_str slot"

definition new_slot :: "(string \<Rightarrow> string) \<Rightarrow> hit_request \<Rightarrow> int \<Rightarrow> slot_doc" where
  "new_slot digest q slot =
     \<lparr>sd_tenant = Some (hr_tenant q), sd_uid = Some (hr_uid q), sd_operation = Some (rp_operation (hr_policy q)),
      sd_window_start = Some (fst (hr_window q)), sd_window_key = Some (hr_key digest q), sd_slot = Some slot,
      sd_expires_at = snd (hr_window q) + expiry_grace_seconds\<rparr>"

definition valid_slot :: "(string \<Rightarrow> string) \<Rightarrow> hit_request \<Rightarrow> int \<Rightarrow> slot_doc \<Rightarrow> bool" where
  "valid_slot digest q slot d \<longleftrightarrow> sd_slot d = Some slot \<and> sd_window_key d = Some (hr_key digest q)
     \<and> sd_window_start d = Some (fst (hr_window q)) \<and> sd_operation d = Some (rp_operation (hr_policy q))
     \<and> sd_tenant d = Some (hr_tenant q) \<and> sd_uid d = Some (hr_uid q)"

definition used_slots :: "string \<Rightarrow> slot_store \<Rightarrow> int" where
  "used_slots cid st = int (length (filter (\<lambda>(i, d). sd_window_key d = Some cid) st))"

text \<open>
  Where a request stands: before its count query, before a \<open>create\<close>, before the \<open>get\<close> that
  follows an \<open>AlreadyExists\<close>, or decided (\<open>Unavailable\<close> is \<open>RateLimitUnavailable\<close>).
\<close>

datatype hit_state =
    Start
  | Probe int nat nat
  | Inspect int nat nat
  | Granted int
  | Denied string
  | Unavailable

text \<open>
  What a remote call meets: it works, it is aborted, the time budget is spent before it,
  or it fails, its effect applied (the reply lost) or not.
\<close>

datatype outcome = Works | Aborted | BudgetSpent | Fails bool

text \<open>The \<open>while\<close> test and the probe bound, before a \<open>create\<close>.\<close>

definition loop_head :: "hit_request \<Rightarrow> int \<Rightarrow> nat \<Rightarrow> nat \<Rightarrow> hit_state" where
  "loop_head q slot probes conflicts =
     (if \<not> slot < rp_limit (hr_policy q) then Denied ''limit_reached''
      else if max_slot_probes \<le> probes then Denied ''contention''
      else Probe slot probes conflicts)"

text \<open>One remote call of \<open>hit\<close> on the shared store.\<close>

fun hit_call ::
  "(string \<Rightarrow> string) \<Rightarrow> hit_request \<Rightarrow> outcome \<Rightarrow> slot_store \<times> hit_state \<Rightarrow> slot_store \<times> hit_state" where
  "hit_call digest q out (st, Start) =
     (case out of
        BudgetSpent \<Rightarrow> (st, Denied ''contention'')
      | Works \<Rightarrow>
          (let used = used_slots (hr_key digest q) st in
           (st, if rp_limit (hr_policy q) \<le> used then Denied ''limit_reached''
                else loop_head q (max used 0) 0 0))
      | _ \<Rightarrow> (st, Unavailable))"
| "hit_call digest q out (st, Probe n probes conflicts) =
     (let i = slot_id (hr_key digest q) n in
      case out of
        BudgetSpent \<Rightarrow> (st, Denied ''contention'')
      | Works \<Rightarrow>
          if dget st i = None then (dset i (new_slot digest q n) st, Granted n)
          else (st, Inspect n (probes + 1) conflicts)
      | Aborted \<Rightarrow>
          (st, if max_contention_retries < conflicts + 1 then Denied ''contention''
               else loop_head q n (probes + 1) (conflicts + 1))
      | Fails applied \<Rightarrow>
          (if applied \<and> dget st i = None then dset i (new_slot digest q n) st else st, Unavailable))"
| "hit_call digest q out (st, Inspect n probes conflicts) =
     (case out of
        BudgetSpent \<Rightarrow> (st, Denied ''contention'')
      | Works \<Rightarrow>
          (case dget st (slot_id (hr_key digest q) n) of
             None \<Rightarrow> (st, loop_head q n probes conflicts)
           | Some d \<Rightarrow>
               (st, if \<not> valid_slot digest q n d then Denied ''corrupt_state''
                    else loop_head q (n + 1) probes conflicts))
      | _ \<Rightarrow> (st, Unavailable))"
| "hit_call digest q out (st, s) = (st, s)"

text \<open>The decision of a request that has finished.\<close>

fun hit_decision :: "hit_request \<Rightarrow> hit_state \<Rightarrow> rate_decision res option" where
  "hit_decision q (Granted n) =
     Some (Inr \<lparr>rd_allowed = True, rd_remaining = rp_limit (hr_policy q) - n - 1,
       rd_retry_after = retry_after (hr_now q) (snd (hr_window q)), rd_corrupt_state = False, rd_reason = []\<rparr>)"
| "hit_decision q (Denied r) =
     (let ra = retry_after (hr_now q) (snd (hr_window q)) in
      Some (Inr \<lparr>rd_allowed = False, rd_remaining = 0,
        rd_retry_after = (if r = ''contention'' then min ra contention_retry_after else ra),
        rd_corrupt_state = (r = ''corrupt_state''), rd_reason = r\<rparr>))"
| "hit_decision q Unavailable = Some (Inl RateLimitUnavailable)"
| "hit_decision q _ = None"

definition purge_expired :: "rat \<Rightarrow> nat \<Rightarrow> slot_store \<Rightarrow> slot_store" where
  "purge_expired now batch_size st =
     (let expired = take batch_size (filter (\<lambda>(i, d). of_int (sd_expires_at d) < now) st) in
      filter (\<lambda>(i, d). i \<notin> fst ` set expired) st)"

section \<open>Any number of requests at once\<close>

record limiter_system =
  ls_clock :: rat
  ls_store :: slot_store
  ls_hits :: "(hit_request \<times> hit_state) list"

definition call_hit :: "(string \<Rightarrow> string) \<Rightarrow> nat \<Rightarrow> outcome \<Rightarrow> limiter_system \<Rightarrow> limiter_system" where
  "call_hit digest k out s =
     (let (q, h) = ls_hits s ! k; (st, h') = hit_call digest q out (ls_store s, h) in
      s\<lparr>ls_store := st, ls_hits := (ls_hits s)[k := (q, h')]\<rparr>)"

text \<open>
  Time passes, a request arrives (at the current time), a request makes its next remote
  call (none takes effect later than the time budget plus one call's timeout after the
  request began), or expired documents are purged.
\<close>

inductive limiter_step :: "(string \<Rightarrow> string) \<Rightarrow> limiter_system \<Rightarrow> limiter_system \<Rightarrow> bool" for digest where
  tick: "0 \<le> dt \<Longrightarrow> limiter_step digest s (s\<lparr>ls_clock := ls_clock s + dt\<rparr>)"
| arrive: "hr_now q = ls_clock s \<Longrightarrow> 0 < rp_window (hr_policy q) \<Longrightarrow>
     limiter_step digest s (s\<lparr>ls_hits := ls_hits s @ [(q, Start)]\<rparr>)"
| call: "k < length (ls_hits s) \<Longrightarrow>
     ls_clock s \<le> hr_now (fst (ls_hits s ! k)) + hit_budget_seconds + rpc_timeout_seconds \<Longrightarrow>
     limiter_step digest s (call_hit digest k out s)"
| purge: "limiter_step digest s (s\<lparr>ls_store := purge_expired (ls_clock s) n (ls_store s)\<rparr>)"

inductive limiter_run :: "(string \<Rightarrow> string) \<Rightarrow> limiter_system \<Rightarrow> bool" for digest where
  init: "limiter_run digest \<lparr>ls_clock = t, ls_store = [], ls_hits = []\<rparr>"
| step: "limiter_run digest s \<Longrightarrow> limiter_step digest s s' \<Longrightarrow> limiter_run digest s'"

end
