(* ===== verification/RateLimitLaws.thy ===== *)
theory RateLimitLaws
  imports RateLimit
begin

text \<open>
  What the rate limiters guarantee: however requests interleave, fail or are retried, no more
  are admitted for a counter than its limit; every request decides after a bounded number of
  remote calls; counters of different identities never share a key; policies are in range.
\<close>

section \<open>One remote call\<close>

fun hit_ok :: "hit_request \<Rightarrow> hit_state \<Rightarrow> bool" where
  "hit_ok q (Probe n p c) \<longleftrightarrow> 0 \<le> n \<and> n < rp_limit (hr_policy q) \<and> p < max_slot_probes"
| "hit_ok q (Inspect n p c) \<longleftrightarrow> 0 \<le> n"
| "hit_ok q (Granted n) \<longleftrightarrow> 0 \<le> n \<and> n < rp_limit (hr_policy q)"
| "hit_ok q h \<longleftrightarrow> True"

lemma loop_head_ok: "0 \<le> n \<Longrightarrow> hit_ok q (loop_head q n p c)"
  by (auto simp: loop_head_def)

lemma loop_head_not_granted: "loop_head q n p c \<noteq> Granted m"
  by (simp add: loop_head_def)

lemma hit_call_ok: "hit_ok q h \<Longrightarrow> hit_call digest q out (st, h) = (st', h') \<Longrightarrow> hit_ok q h'"
  by (cases h; cases out)
    (auto simp: Let_def loop_head_ok split: if_splits option.splits)

lemma hit_call_store:
  "hit_call digest q out (st, h) = (st', h') \<Longrightarrow>
     (dget st i = Some d \<longrightarrow> dget st' i = Some d) \<and> (distinct (map fst st) \<longrightarrow> distinct (map fst st'))"
  by (cases h; cases out) (auto simp: Let_def distinct_dset split: if_splits option.splits)

lemma hit_call_granted:
  "hit_call digest q out (st, h) = (st', Granted n) \<Longrightarrow>
     h = Granted n \<or> (\<exists>p c. h = Probe n p c) \<and> dget st (slot_id (hr_key digest q) n) = None
       \<and> dget st' (slot_id (hr_key digest q) n) = Some (new_slot digest q n)"
  by (cases h; cases out) (auto simp: Let_def loop_head_not_granted split: if_splits option.splits)

lemma granted_final: "hit_call digest q out (st, Granted n) = (st, Granted n)"
  by simp

lemma int_str_inject: "int_str i = int_str j \<longleftrightarrow> i = j"
  by (metis option.inject parse_int_str)

lemma slot_id_inject: "slot_id c n = slot_id c m \<longleftrightarrow> n = m"
  by (simp add: slot_id_def int_str_inject)

lemma window_contains: "0 < rp_window p \<Longrightarrow> window_bounds now p = (ws, we) \<Longrightarrow> of_int ws \<le> now \<and> now < of_int we"
proof -
  assume w: "0 < rp_window p" and b: "window_bounds now p = (ws, we)"
  let ?w = "of_int (rp_window p) :: rat"
  have w': "0 < ?w" using w by simp
  have "of_int \<lfloor>now / ?w\<rfloor> \<le> now / ?w" "now / ?w < of_int \<lfloor>now / ?w\<rfloor> + 1" by linarith+
  then have "of_int \<lfloor>now / ?w\<rfloor> * ?w \<le> now" "now < (of_int \<lfloor>now / ?w\<rfloor> + 1) * ?w"
    by (simp_all only: pos_le_divide_eq [OF w'] pos_divide_less_eq [OF w'])
  then show ?thesis using b by (auto simp: window_bounds_def Let_def algebra_simps)
qed

section \<open>Interleaved requests\<close>

text \<open>
  All requests that use the counter key \<open>c\<close> belong to one window (no collision of the digest
  on \<open>c\<close>) and have at most the limit \<open>L\<close>.
\<close>

definition one_counter :: "(string \<Rightarrow> string) \<Rightarrow> string \<Rightarrow> int \<Rightarrow> int \<Rightarrow> hit_request set \<Rightarrow> bool" where
  "one_counter digest c we L Q \<longleftrightarrow>
     (\<forall>q \<in> Q. hr_key digest q = c \<longrightarrow> snd (hr_window q) = we \<and> rp_limit (hr_policy q) \<le> L)"

definition granted_at :: "(string \<Rightarrow> string) \<Rightarrow> string \<Rightarrow> limiter_system \<Rightarrow> nat \<Rightarrow> int \<Rightarrow> bool" where
  "granted_at digest c s k n \<longleftrightarrow> k < length (ls_hits s)
     \<and> hr_key digest (fst (ls_hits s ! k)) = c \<and> snd (ls_hits s ! k) = Granted n"

text \<open>The slot \<open>n\<close> of \<open>c\<close> is still recorded, or its window has long passed.\<close>

definition recorded :: "string \<Rightarrow> int \<Rightarrow> limiter_system \<Rightarrow> int \<Rightarrow> bool" where
  "recorded c we s n \<longleftrightarrow> of_int (we + expiry_grace_seconds) < ls_clock s
     \<or> (\<exists>d. dget (ls_store s) (slot_id c n) = Some d \<and> sd_expires_at d = we + expiry_grace_seconds)"

definition limiter_inv :: "(string \<Rightarrow> string) \<Rightarrow> string \<Rightarrow> int \<Rightarrow> limiter_system \<Rightarrow> bool" where
  "limiter_inv digest c we s \<longleftrightarrow>
     (\<forall>q h. (q, h) \<in> set (ls_hits s) \<longrightarrow> hit_ok q h \<and> hr_now q < of_int (snd (hr_window q)))
     \<and> distinct (map fst (ls_store s))
     \<and> (\<forall>k j n. granted_at digest c s k n \<longrightarrow> granted_at digest c s j n \<longrightarrow> k = j)
     \<and> (\<forall>k n. granted_at digest c s k n \<longrightarrow> recorded c we s n)"

lemma limiter_invI:
  assumes "\<And>q h. (q, h) \<in> set (ls_hits s) \<Longrightarrow> hit_ok q h \<and> hr_now q < of_int (snd (hr_window q))"
    and "distinct (map fst (ls_store s))"
    and "\<And>k j n. granted_at digest c s k n \<Longrightarrow> granted_at digest c s j n \<Longrightarrow> k = j"
    and "\<And>k n. granted_at digest c s k n \<Longrightarrow> recorded c we s n"
  shows "limiter_inv digest c we s"
  using assms unfolding limiter_inv_def by blast

lemma limiter_invD:
  assumes "limiter_inv digest c we s"
  shows "(q, h) \<in> set (ls_hits s) \<Longrightarrow> hit_ok q h" "(q, h) \<in> set (ls_hits s) \<Longrightarrow> hr_now q < of_int (snd (hr_window q))"
    "distinct (map fst (ls_store s))" "granted_at digest c s k n \<Longrightarrow> granted_at digest c s j n \<Longrightarrow> k = j"
    "granted_at digest c s k n \<Longrightarrow> recorded c we s n"
  using assms unfolding limiter_inv_def by blast+

lemma one_counterD:
  "one_counter digest c we L (fst ` set hits) \<Longrightarrow> (q, h) \<in> set hits \<Longrightarrow> hr_key digest q = c \<Longrightarrow>
     snd (hr_window q) = we \<and> rp_limit (hr_policy q) \<le> L"
  unfolding one_counter_def by (metis fst_conv image_eqI)

lemma dget_purge:
  assumes "distinct (map fst st)" "dget st i = Some d"
  shows "dget (purge_expired now b st) i = Some d \<or> of_int (sd_expires_at d) < now"
proof -
  define E where "E = take b (filter (\<lambda>(i, d). of_int (sd_expires_at d) < now) st)"
  have pe: "purge_expired now b st = filter (\<lambda>(i, d). i \<notin> fst ` set E) st"
    by (simp add: purge_expired_def E_def Let_def)
  have id: "(i, d) \<in> set st" using assms(2) by (rule map_of_SomeD)
  show ?thesis
  proof (cases "i \<in> fst ` set E")
    case True
    then obtain d' where "(i, d') \<in> set E" by force
    then have "(i, d') \<in> set st" "of_int (sd_expires_at d') < now"
      unfolding E_def by (auto dest!: in_set_takeD)
    then have "d' = d" using id assms(1) by (metis eq_key_imp_eq_value)
    then show ?thesis using \<open>of_int (sd_expires_at d') < now\<close> by simp
  next
    case False
    then have "(i, d) \<in> set (purge_expired now b st)" using id by (simp add: pe)
    moreover have "distinct (map fst (purge_expired now b st))"
      unfolding pe using assms(1) by (rule distinct_map_filter)
    ultimately show ?thesis by simp
  qed
qed

lemma call_hit_cases:
  assumes "k < length (ls_hits s)"
  obtains q h st' h' where "ls_hits s ! k = (q, h)" "hit_call digest q out (ls_store s, h) = (st', h')"
    "call_hit digest k out s = s\<lparr>ls_store := st', ls_hits := (ls_hits s)[k := (q, h')]\<rparr>"
proof -
  obtain q h where q: "ls_hits s ! k = (q, h)" by (cases "ls_hits s ! k")
  obtain st' h' where h: "hit_call digest q out (ls_store s, h) = (st', h')"
    by (cases "hit_call digest q out (ls_store s, h)")
  show ?thesis by (rule that [OF q h]) (simp add: call_hit_def q h)
qed

text \<open>A call leaves the grants of the key \<open>c\<close> as they were, or grants one more, unused slot.\<close>

lemma call_hit_granted:
  assumes "k < length (ls_hits s)" "granted_at digest c (call_hit digest k out s) i n"
  shows "granted_at digest c s i n \<or>
    (i = k \<and> dget (ls_store s) (slot_id c n) = None \<and>
     (\<exists>q. ls_hits s ! k = (q, snd (ls_hits s ! k)) \<and> hr_key digest q = c \<and>
       dget (ls_store (call_hit digest k out s)) (slot_id c n) = Some (new_slot digest q n)))"
proof -
  obtain q h st' h' where k: "ls_hits s ! k = (q, h)" "hit_call digest q out (ls_store s, h) = (st', h')"
    "call_hit digest k out s = s\<lparr>ls_store := st', ls_hits := (ls_hits s)[k := (q, h')]\<rparr>"
    by (rule call_hit_cases [OF assms(1)])
  show ?thesis
  proof (cases "i = k")
    case True
    with assms k have "h' = Granted n" "hr_key digest q = c" by (simp_all add: granted_at_def)
    then show ?thesis
      using hit_call_granted [of digest q out "ls_store s" h st' n] k True assms(1)
      by (auto simp: granted_at_def)
  next
    case False
    then show ?thesis using assms k by (simp add: granted_at_def)
  qed
qed

lemma limiter_inv_call:
  assumes inv: "limiter_inv digest c we s" and k: "k < length (ls_hits s)"
    and clock: "ls_clock s \<le> hr_now (fst (ls_hits s ! k)) + hit_budget_seconds + rpc_timeout_seconds"
    and one: "one_counter digest c we L (fst ` set (ls_hits s))"
  shows "limiter_inv digest c we (call_hit digest k out s)"
proof -
  let ?s = "call_hit digest k out s"
  obtain q h st' h' where q: "ls_hits s ! k = (q, h)" "hit_call digest q out (ls_store s, h) = (st', h')"
    "?s = s\<lparr>ls_store := st', ls_hits := (ls_hits s)[k := (q, h')]\<rparr>"
    by (rule call_hit_cases [OF k])
  have mem: "(q, h) \<in> set (ls_hits s)" using q(1) k by (metis nth_mem)
  have keep: "dget (ls_store ?s) i = Some d" if "dget (ls_store s) i = Some d" for i d
    using hit_call_store [OF q(2), of i d] that q(3) by simp
  have unused: False
    if "granted_at digest c s j n" "dget (ls_store s) (slot_id c n) = None" "hr_key digest q = c" for j n
  proof -
    have "hr_now q < of_int we" using limiter_invD(2) [OF inv mem] one_counterD [OF one mem that(3)] by simp
    then have "ls_clock s < of_int (we + expiry_grace_seconds)"
      using clock q(1) by (simp add: expiry_grace_seconds_def hit_budget_seconds_def rpc_timeout_seconds_def)
    then show False using limiter_invD(5) [OF inv that(1)] that(2) by (simp add: recorded_def)
  qed
  have new: "granted_at digest c s i n \<or> i = k \<and> dget (ls_store s) (slot_id c n) = None
      \<and> hr_key digest q = c \<and> dget (ls_store ?s) (slot_id c n) = Some (new_slot digest q n)"
    if "granted_at digest c ?s i n" for i n
    using call_hit_granted [OF k that] q(1) by auto
  show ?thesis
  proof (rule limiter_invI)
    fix q' hh assume "(q', hh) \<in> set (ls_hits ?s)"
    then have "(q', hh) = (q, h') \<or> (q', hh) \<in> set (ls_hits s)"
      using q(3) set_update_subset_insert [of "ls_hits s" k "(q, h')"] by auto
    then show "hit_ok q' hh \<and> hr_now q' < of_int (snd (hr_window q'))"
      using limiter_invD(1,2) [OF inv] mem hit_call_ok [OF _ q(2)] by blast
  next
    show "distinct (map fst (ls_store ?s))"
      using hit_call_store [OF q(2)] limiter_invD(3) [OF inv] q(3) by simp
  next
    fix i j n assume "granted_at digest c ?s i n" "granted_at digest c ?s j n"
    from new [OF this(1)] new [OF this(2)] show "i = j"
      using limiter_invD(4) [OF inv] unused by blast
  next
    fix i n assume "granted_at digest c ?s i n"
    from new [OF this] show "recorded c we ?s n"
    proof
      assume "granted_at digest c s i n"
      then have "recorded c we s n" by (rule limiter_invD(5) [OF inv])
      then show ?thesis using keep q(3) by (auto simp: recorded_def)
    next
      assume "i = k \<and> dget (ls_store s) (slot_id c n) = None
        \<and> hr_key digest q = c \<and> dget (ls_store ?s) (slot_id c n) = Some (new_slot digest q n)"
      moreover from this have "snd (hr_window q) = we" using one_counterD [OF one mem] by blast
      ultimately show ?thesis by (simp add: recorded_def new_slot_def)
    qed
  qed
qed

lemma granted_at_same [simp]:
  "granted_at digest c (s\<lparr>ls_clock := t\<rparr>) k n = granted_at digest c s k n"
  "granted_at digest c (s\<lparr>ls_store := st\<rparr>) k n = granted_at digest c s k n"
  by (simp_all add: granted_at_def)

lemma granted_at_arrive [simp]:
  "granted_at digest c (s\<lparr>ls_hits := ls_hits s @ [(q, Start)]\<rparr>) k n = granted_at digest c s k n"
  by (auto simp: granted_at_def nth_append)

lemma limiter_step_requests: "limiter_step digest s s' \<Longrightarrow> fst ` set (ls_hits s) \<subseteq> fst ` set (ls_hits s')"
proof (induction rule: limiter_step.induct)
  case (call k s out)
  obtain q h st' h' where q: "ls_hits s ! k = (q, h)" 
    "call_hit digest k out s = s\<lparr>ls_store := st', ls_hits := (ls_hits s)[k := (q, h')]\<rparr>"
    by (rule call_hit_cases [OF call(1), of digest out])
  have "map fst ((ls_hits s)[k := (q, h')]) = map fst (ls_hits s)"
    using q(1) by (simp add: map_update) (metis fst_conv list_update_id length_map nth_map call.hyps(1))
  then show ?case using q(2) by (metis image_set order_refl limiter_system.select_convs(3) limiter_system.surjective limiter_system.update_convs(3))
qed auto

lemma limiter_inv_step:
  assumes "limiter_step digest s s'" "limiter_inv digest c we s" "one_counter digest c we L (fst ` set (ls_hits s))"
  shows "limiter_inv digest c we s'"
  using assms
proof (induction rule: limiter_step.induct)
  case (tick dt s)
  then show ?case
    by (intro limiter_invI) (auto simp: recorded_def dest: limiter_invD(1-4), force simp: recorded_def dest: limiter_invD(5))
next
  case (arrive q s)
  obtain ws e where w: "hr_window q = (ws, e)" by (cases "hr_window q")
  then have "hr_now q < of_int (snd (hr_window q))"
    using window_contains [OF arrive(2), of "hr_now q" ws e] by (simp add: hr_window_def)
  then show ?case
    using limiter_invD [OF arrive(3)] by (intro limiter_invI) (auto simp: recorded_def)
next
  case (call k s out)
  then show ?case using limiter_inv_call by blast
next
  case (purge s n)
  have "recorded c we (s\<lparr>ls_store := purge_expired (ls_clock s) n (ls_store s)\<rparr>) m" if "recorded c we s m" for m
    using that dget_purge [OF limiter_invD(3) [OF purge(1)], of "slot_id c m" _ "ls_clock s" n]
    by (auto simp: recorded_def)
  then show ?case
    using limiter_invD [OF purge(1)]
    by (intro limiter_invI) (auto simp: purge_expired_def Let_def intro: distinct_map_filter)
qed

lemma limiter_run_inv:
  "limiter_run digest s \<Longrightarrow> one_counter digest c we L (fst ` set (ls_hits s)) \<Longrightarrow> limiter_inv digest c we s"
proof (induction rule: limiter_run.induct)
  case (init t)
  then show ?case by (simp add: limiter_inv_def granted_at_def)
next
  case (step s s')
  have "one_counter digest c we L (fst ` set (ls_hits s))"
    using step.prems limiter_step_requests [OF step.hyps(2)] unfolding one_counter_def by blast
  then show ?case using limiter_inv_step [OF step.hyps(2) step.IH] by blast
qed

definition admitted :: "(string \<Rightarrow> string) \<Rightarrow> string \<Rightarrow> limiter_system \<Rightarrow> nat" where
  "admitted digest c s = length (filter (\<lambda>(q, h). hr_key digest q = c \<and> (\<exists>n. h = Granted n)) (ls_hits s))"

lemma admitted_bound:
  assumes "limiter_inv digest c we s" "one_counter digest c we L (fst ` set (ls_hits s))"
  shows "admitted digest c s \<le> nat L"
proof -
  let ?G = "{k. k < length (ls_hits s) \<and> (case ls_hits s ! k of (q, h) \<Rightarrow> hr_key digest q = c \<and> (\<exists>n. h = Granted n))}"
  define slot where "slot k = (case snd (ls_hits s ! k) of Granted n \<Rightarrow> n | _ \<Rightarrow> 0)" for k
  have g: "granted_at digest c s k (slot k)" "slot k \<in> {0..<L}" if G: "k \<in> ?G" for k
  proof -
    obtain q n where k: "ls_hits s ! k = (q, Granted n)" "hr_key digest q = c" "k < length (ls_hits s)"
      using G by (auto split: prod.splits)
    then show "granted_at digest c s k (slot k)" by (simp add: granted_at_def slot_def)
    have "(q, Granted n) \<in> set (ls_hits s)" using k by (metis nth_mem)
    then have "hit_ok q (Granted n)" "rp_limit (hr_policy q) \<le> L"
      using limiter_invD(1) [OF assms(1)] one_counterD [OF assms(2) _ k(2)] by blast+
    then show "slot k \<in> {0..<L}" using k by (simp add: slot_def)
  qed
  have "inj_on slot ?G"
  proof (rule inj_onI)
    fix k j assume kj: "k \<in> ?G" "j \<in> ?G" "slot k = slot j"
    have "granted_at digest c s j (slot k)" using g(1) [OF kj(2)] kj(3) by simp
    with g(1) [OF kj(1)] show "k = j" by (rule limiter_invD(4) [OF assms(1)])
  qed
  then have "card ?G \<le> card {0..<L}" using g(2) by (intro card_inj_on_le) auto
  then show ?thesis by (simp add: admitted_def length_filter_conv_card)
qed

section \<open>Every request decides\<close>

text \<open>What is left of a request's probe budget; every remote call uses some of it.\<close>

fun hit_rank :: "hit_state \<Rightarrow> nat" where
  "hit_rank Start = 2 * max_slot_probes + 1"
| "hit_rank (Probe n p c) = 2 * (max_slot_probes - p)"
| "hit_rank (Inspect n p c) = 2 * (max_slot_probes - p) + 1"
| "hit_rank _ = 0"

fun undecided :: "hit_state \<Rightarrow> bool" where
  "undecided Start = True" | "undecided (Probe n p c) = True" | "undecided (Inspect n p c) = True"
| "undecided _ = False"

lemma undecided_decision: "undecided h \<longleftrightarrow> hit_decision q h = None"
  by (cases h) (simp_all add: Let_def)

lemma rank_loop_head: "hit_rank (loop_head q n p c) \<le> 2 * (max_slot_probes - p)"
  by (simp add: loop_head_def)

lemma rank_decreases:
  assumes "hit_ok q h" "undecided h"
  shows "hit_rank (snd (hit_call digest q out (st, h))) < hit_rank h"
proof (cases h)
  case Start
  then show ?thesis
    using rank_loop_head [of q "max (used_slots (hr_key digest q) st) 0" 0 0]
    by (cases out) (auto simp: Let_def less_Suc_eq_le)
next
  case (Probe n p c)
  then have "p < max_slot_probes" using assms(1) by simp
  then show ?thesis
    using Probe rank_loop_head [of q n "p + 1" "c + 1"]
    by (cases out) (auto simp: Let_def)
next
  case (Inspect n p c)
  then show ?thesis
    using rank_loop_head [of q n p c] rank_loop_head [of q "n + 1" p c]
    by (cases out) (auto simp: less_Suc_eq_le split: option.splits)
qed (use assms(2) in auto)

text \<open>A request's calls, each on whatever store the others have left it.\<close>

fun hit_calls :: "(string \<Rightarrow> string) \<Rightarrow> hit_request \<Rightarrow> (outcome \<times> slot_store) list \<Rightarrow> hit_state \<Rightarrow> hit_state" where
  "hit_calls digest q [] h = h"
| "hit_calls digest q ((out, st) # cs) h = hit_calls digest q cs (snd (hit_call digest q out (st, h)))"

lemma decided_stays: "\<not> undecided h \<Longrightarrow> hit_calls digest q cs h = h"
  by (induction cs) (cases h; auto)+

lemma calls_decide: "hit_ok q h \<Longrightarrow> hit_rank h \<le> length cs \<Longrightarrow> \<not> undecided (hit_calls digest q cs h)"
proof (induction cs arbitrary: h)
  case Nil
  then show ?case by (cases h) auto
next
  case (Cons x cs)
  obtain out st where x: "x = (out, st)" by (cases x)
  show ?case
  proof (cases "undecided h")
    case True
    let ?h = "snd (hit_call digest q out (st, h))"
    have "hit_ok q ?h" using hit_call_ok [OF Cons.prems(1)] by (metis prod.collapse)
    moreover have "hit_rank ?h \<le> length cs" using rank_decreases [OF Cons.prems(1) True, of digest out st] Cons.prems(2) by simp
    ultimately show ?thesis using Cons.IH x by simp
  qed (simp add: decided_stays)
qed

section \<open>Counter keys\<close>

lemma of_char_hex: "n < 16 \<Longrightarrow> (of_char (hex_digit n) :: nat) = (if n < 10 then 48 + n else 87 + n)"
  by (simp add: hex_digit_def)

lemma hex_digit_inject:
  assumes "n < 16" "m < 16"
  shows "hex_digit n = hex_digit m \<longleftrightarrow> n = m"
proof
  assume "hex_digit n = hex_digit m"
  then have "(if n < 10 then 48 + n else 87 + n) = (if m < 10 then 48 + m else 87 + m)"
    using of_char_hex [OF assms(1)] of_char_hex [OF assms(2)] by argo
  then show "n = m" using assms by (auto split: if_splits)
qed simp

lemma of_char_less: "(of_char c :: nat) < 256"
  using of_char_mod_256 [of c, where 'a = nat] by (metis mod_less_divisor zero_less_numeral)

lemma json_char_head: "\<exists>h t. json_char c = h # t \<and> h \<noteq> CHR 0x22"
  by (auto simp: json_char_def Let_def)

definition unescape :: "char \<Rightarrow> char" where
  "unescape e = (if e = CHR ''n'' then CHR 0x0A else if e = CHR ''r'' then CHR 0x0D else if e = CHR ''t'' then CHR 0x09
     else if e = CHR ''f'' then CHR 0x0C else if e = CHR ''b'' then CHR 0x08 else e)"

lemma char_code: "(of_char c :: nat) = n \<Longrightarrow> c = char_of n"
  by auto

lemma json_char_shape:
  "(json_char c = [c] \<and> c \<noteq> CHR 0x5C)
   \<or> (\<exists>e. json_char c = [CHR 0x5C, e] \<and> e \<noteq> CHR ''u'' \<and> c = unescape e)
   \<or> json_char c = [CHR 0x5C, CHR ''u'', CHR ''0'', CHR ''0'', hex_digit (of_char c div 16), hex_digit (of_char c mod 16)]"
proof -
  let ?n = "of_char c :: nat"
  consider "?n \<in> {34, 92, 10, 13, 9, 12, 8}" | "?n \<notin> {34, 92, 10, 13, 9, 12, 8}" by blast
  then show ?thesis
  proof cases
    case 1
    then have "c \<in> char_of ` {34, 92, 10, 13, 9, 12, 8 :: nat}" using char_code by blast
    then have "c \<in> {CHR 0x22, CHR 0x5C, CHR 0x0A, CHR 0x0D, CHR 0x09, CHR 0x0C, CHR 0x08}"
      by (simp add: char_of_def bit_0)
    then show ?thesis
      by (elim insertE emptyE) (simp_all add: json_char_def unescape_def Let_def)
  next
    case 2
    moreover have "c \<noteq> CHR 0x5C" using 2 by auto
    ultimately show ?thesis by (simp add: json_char_def Let_def)
  qed
qed

lemma json_char_prefix: "json_char c @ x = json_char d @ y \<Longrightarrow> c = d \<and> x = y"
proof -
  assume eq: "json_char c @ x = json_char d @ y"
  let ?n = "of_char c :: nat" and ?m = "of_char d :: nat"
  have uni: "c = d" if "hex_digit (?n div 16) = hex_digit (?m div 16)" "hex_digit (?n mod 16) = hex_digit (?m mod 16)"
  proof -
    have "?n div 16 < 16" "?m div 16 < 16" using of_char_less [of c] of_char_less [of d] by (simp_all add: less_mult_imp_div_less)
    then have "?n div 16 = ?m div 16" "?n mod 16 = ?m mod 16" using that by (simp_all add: hex_digit_inject)
    then have "?n = ?m" by (metis div_mult_mod_eq)
    then show ?thesis by simp
  qed
  from json_char_shape [of c] json_char_shape [of d] eq uni show ?thesis
    by (elim disjE conjE exE) simp_all
qed

lemma json_body_prefix:
  "concat (map json_char a) @ CHR 0x22 # x = concat (map json_char b) @ CHR 0x22 # y \<Longrightarrow> a = b \<and> x = y"
proof (induction a arbitrary: b)
  case Nil
  then show ?case
  proof (cases b)
    case (Cons d b')
    with Nil show ?thesis using json_char_head [of d] by auto
  qed simp
next
  case (Cons c a)
  show ?case
  proof (cases b)
    case Nil
    then show ?thesis using Cons.prems json_char_head [of c] by auto
  next
    case (Cons d b')
    then have "json_char c @ (concat (map json_char a) @ CHR 0x22 # x) = json_char d @ (concat (map json_char b') @ CHR 0x22 # y)"
      using Cons.prems by simp
    then have "c = d" "concat (map json_char a) @ CHR 0x22 # x = concat (map json_char b') @ CHR 0x22 # y"
      by (auto dest: json_char_prefix)
    then show ?thesis using Cons.IH [of b'] Cons by simp
  qed
qed

lemma json_string_prefix: "json_string a @ x = json_string b @ y \<longleftrightarrow> a = b \<and> x = y"
  using json_body_prefix [of a x b y] by (auto simp: json_string_def)

lemma counter_raw_eq:
  "counter_raw op t u s = counter_raw op' t' u' s' \<longleftrightarrow> op = op' \<and> t = t' \<and> u = u' \<and> s = s'"
  by (auto simp: counter_raw_def json_string_prefix int_str_inject)

section \<open>The process-local limiter\<close>

fun memory_hits :: "(string \<Rightarrow> string) \<Rightarrow> hit_request list \<Rightarrow> counters \<Rightarrow> bool list" where
  "memory_hits digest [] cs = []"
| "memory_hits digest (q # qs) cs =
     (let (cs', d) = memory_hit digest (hr_tenant q) (hr_uid q) (hr_policy q) (hr_now q) cs in
      rd_allowed d # memory_hits digest qs cs')"

definition memory_admitted :: "(string \<Rightarrow> string) \<Rightarrow> string \<Rightarrow> hit_request list \<Rightarrow> counters \<Rightarrow> nat" where
  "memory_admitted digest c qs cs =
     length (filter (\<lambda>(q, ok). ok \<and> hr_key digest q = c) (zip qs (memory_hits digest qs cs)))"

definition counted :: "string \<Rightarrow> int \<Rightarrow> int \<Rightarrow> nat \<Rightarrow> rat \<Rightarrow> counters \<Rightarrow> bool" where
  "counted c ws w n now cs \<longleftrightarrow> distinct (map fst cs) \<and>
     (of_int (ws + 2 * w) < now \<or> dget cs c = (if n = 0 then None else Some (ws, int n)))"

lemma counted_step:
  assumes "counted c ws w n now0 cs" "now0 \<le> hr_now q" "rp_window (hr_policy q) = w" "0 < w"
    and one: "hr_key digest q = c \<Longrightarrow> fst (hr_window q) = ws \<and> rp_limit (hr_policy q) \<le> int L" and "n \<le> L"
    and hit: "memory_hit digest (hr_tenant q) (hr_uid q) (hr_policy q) (hr_now q) cs = (cs', d)"
    and m: "m = n + (if rd_allowed d \<and> hr_key digest q = c then 1 else 0)"
  shows "counted c ws w m (hr_now q) cs'" and "m \<le> L"
proof -
  let ?cs = "clean_counters (hr_now q) (hr_policy q) cs"
  obtain s e where b: "window_bounds (hr_now q) (hr_policy q) = (s, e)" by (cases "window_bounds (hr_now q) (hr_policy q)")
  have s: "fst (hr_window q) = s" and key: "counter_id digest (hr_policy q) (hr_tenant q) (hr_uid q) s = hr_key digest q"
    using b by (simp_all add: hr_window_def hr_key_def)
  have now: "of_int s \<le> hr_now q" "hr_now q < of_int e" "e = s + w"
    using window_contains [OF _ b] assms(3,4) b by (auto simp: window_bounds_def Let_def)
  have dist: "distinct (map fst ?cs)" using assms(1) by (simp add: counted_def clean_counters_def distinct_map_filter)
  have cleaned: "of_int (ws + 2 * w) < hr_now q \<or> dget ?cs c = (if n = 0 then None else Some (ws, int n))"
    using assms(1-3) unfolding counted_def clean_counters_def by (auto simp: dget_filter split: if_splits)
  note h = hit [unfolded memory_hit_def b Let_def prod.case key]
  show "counted c ws w m (hr_now q) cs'"
  proof (cases "hr_key digest q = c")
    case True
    then have "s = ws" using one s by simp
    then have live: "dget ?cs c = (if n = 0 then None else Some (ws, int n))"
      using cleaned now assms(4) by auto
    show ?thesis
      using h m live dist True \<open>s = ws\<close>
      by (auto simp: counted_def dget_default_def distinct_dset split: if_splits)
  next
    case False
    then show ?thesis
      using h m cleaned dist False
      by (auto simp: counted_def distinct_dset split: if_splits)
  qed
  show "m \<le> L"
  proof (cases "hr_key digest q = c")
    case True
    then have "s = ws" "rp_limit (hr_policy q) \<le> int L" using one s by simp_all
    then have "dget ?cs c = (if n = 0 then None else Some (ws, int n))"
      using cleaned now assms(4) by auto
    then show ?thesis
      using h m assms(6) True \<open>rp_limit (hr_policy q) \<le> int L\<close>
      by (auto simp: dget_default_def split: if_splits)
  qed (use m assms(6) in simp)
qed

lemma memory_bound:
  assumes "counted c ws w n now0 cs" "sorted (now0 # map hr_now qs)" "0 < w" "n \<le> L"
    and "\<And>q. q \<in> set qs \<Longrightarrow> rp_window (hr_policy q) = w"
    and "\<And>q. q \<in> set qs \<Longrightarrow> hr_key digest q = c \<Longrightarrow> fst (hr_window q) = ws \<and> rp_limit (hr_policy q) \<le> int L"
  shows "n + memory_admitted digest c qs cs \<le> L"
  using assms
proof (induction qs arbitrary: n now0 cs)
  case (Cons q qs)
  obtain cs' d where hit: "memory_hit digest (hr_tenant q) (hr_uid q) (hr_policy q) (hr_now q) cs = (cs', d)" by fastforce
  define m where "m = n + (if rd_allowed d \<and> hr_key digest q = c then 1 else 0)"
  have step: "counted c ws w m (hr_now q) cs'" "m \<le> L"
    using counted_step [OF Cons.prems(1) _ _ Cons.prems(3) _ Cons.prems(4) hit m_def] Cons.prems(2,5,6) by auto
  have "m + memory_admitted digest c qs cs' \<le> L"
    using Cons.IH [OF step(1) _ Cons.prems(3) step(2)] Cons.prems(2,5,6) by simp
  then show ?case using hit m_def by (auto simp: memory_admitted_def Let_def)
qed (simp add: memory_admitted_def)

section \<open>Policies\<close>

definition policy_in_range :: "rate_policy \<Rightarrow> bool" where
  "policy_in_range p \<longleftrightarrow> 1 \<le> rp_limit p \<and> rp_limit p \<le> max_limit \<and> 1 \<le> rp_window p \<and> rp_window p \<le> max_window_seconds"

lemma parse_policy_range: "parse_policy op raw = Inr p \<Longrightarrow> policy_in_range p \<and> rp_operation p = op"
  by (auto simp: parse_policy_def policy_error_def policy_in_range_def split: option.splits if_splits)

definition policies_ok :: "(string, rate_policy) dict \<Rightarrow> bool" where
  "policies_ok ps \<longleftrightarrow> (\<forall>op. (dget ps op \<noteq> None \<longleftrightarrow> dget default_policies op \<noteq> None)
     \<and> (\<forall>p. dget ps op = Some p \<longrightarrow> policy_in_range p \<and> rp_operation p = op))"

lemma builtin_ok: "policies_ok builtin_policies"
  by (auto simp: policies_ok_def builtin_policies_def default_policies_def policy_in_range_def max_limit_def
      max_window_seconds_def split: if_splits)

lemma policies_ok_dset:
  assumes "policies_ok ps" "dget default_policies op \<noteq> None" "parse_policy op raw = Inr p"
  shows "policies_ok (dset op p ps)"
  unfolding policies_ok_def
proof (intro allI conjI impI)
  fix op'
  show "(dget (dset op p ps) op' \<noteq> None) = (dget default_policies op' \<noteq> None)"
    using assms(1,2) by (simp add: policies_ok_def)
  fix p' assume "dget (dset op p ps) op' = Some p'"
  then show "policy_in_range p'" "rp_operation p' = op'"
    using assms(1) parse_policy_range [OF assms(3)] by (auto simp: policies_ok_def split: if_splits)
qed

lemma resolve_policies_ok: "resolve_policies overrides = Inr ps \<Longrightarrow> policies_ok ps"
  unfolding resolve_policies_def
proof (erule rfold_invariant [where P = policies_ok])
  show "policies_ok builtin_policies" by (rule builtin_ok)
  fix x s s' assume "policies_ok s"
    and "(case x of (operation, raw) \<Rightarrow> \<lambda>policies.
       if dget default_policies operation = None then policy_error operation
       else rbind (parse_policy operation raw) (\<lambda>p. Inr (dset operation p policies))) s = Inr s'"
  then show "policies_ok s'"
    by (auto simp: policy_error_def rbind_Inr_iff split: prod.splits if_splits intro: policies_ok_dset)
qed

lemma digits_no_slash: "list_all is_digit s \<Longrightarrow> CHR ''/'' \<notin> set s"
  by (auto simp: list_all_iff is_digit_def)

lemma int_str_no_slash: "CHR ''/'' \<notin> set (int_str i)"
  unfolding int_str_def using digits_no_slash [OF nat_str_digits] by simp

lemma split_slash_render: "split_slash (int_str l @ CHR ''/'' # w) = Some (int_str l, w)"
proof -
  have all: "\<And>c. c \<in> set (int_str l) \<Longrightarrow> c \<noteq> CHR ''/''" using int_str_no_slash [of l] by metis
  have "dropWhile (\<lambda>c. c \<noteq> CHR ''/'') (int_str l @ CHR ''/'' # w) = CHR ''/'' # w"
    using all by (subst dropWhile_append2) simp_all
  moreover have "takeWhile (\<lambda>c. c \<noteq> CHR ''/'') (int_str l @ CHR ''/'' # w) = int_str l"
    using all by (subst takeWhile_append2) simp_all
  ultimately show ?thesis by (simp add: split_slash_def)
qed

section \<open>Properties\<close>

text \<open>The counter a request is for, and how many requests for it were let through.\<close>

definition same_counter :: "hit_request \<Rightarrow> hit_request \<Rightarrow> bool" where
  "same_counter q r \<longleftrightarrow> rp_operation (hr_policy q) = rp_operation (hr_policy r) \<and> hr_tenant q = hr_tenant r
     \<and> hr_uid q = hr_uid r \<and> fst (hr_window q) = fst (hr_window r)"

definition let_through :: "hit_request \<Rightarrow> limiter_system \<Rightarrow> nat" where
  "let_through r s = length (filter (\<lambda>(q, h). same_counter q r \<and> (\<exists>n. h = Granted n)) (ls_hits s))"

text \<open>The truncated digests of the requests' counter texts do not collide.\<close>

definition hr_raw :: "hit_request \<Rightarrow> string" where
  "hr_raw q = counter_raw (rp_operation (hr_policy q)) (hr_tenant q) (hr_uid q) (fst (hr_window q))"

definition collision_free :: "(string \<Rightarrow> string) \<Rightarrow> hit_request set \<Rightarrow> bool" where
  "collision_free digest Q \<longleftrightarrow> inj_on (\<lambda>raw. take 40 (digest raw)) (hr_raw ` Q)"

text \<open>Every instance has the same policy for an operation.\<close>

definition one_policy :: "hit_request set \<Rightarrow> bool" where
  "one_policy Q \<longleftrightarrow> (\<forall>q\<in>Q. \<forall>r\<in>Q. rp_operation (hr_policy q) = rp_operation (hr_policy r) \<longrightarrow> hr_policy q = hr_policy r)"

lemma same_counter_key: "same_counter q r \<Longrightarrow> hr_key digest q = hr_key digest r"
  by (simp add: same_counter_def hr_key_def counter_id_def)

lemma same_window_end: "hr_policy q = hr_policy r \<Longrightarrow> fst (hr_window q) = fst (hr_window r) \<Longrightarrow> snd (hr_window q) = snd (hr_window r)"
  by (auto simp: hr_window_def window_bounds_def Let_def)

text \<open>The hashed text determines the counter.\<close>

lemma collision_freeD:
  assumes "collision_free digest Q" "q \<in> Q" "r \<in> Q" "hr_key digest q = hr_key digest r"
  shows "same_counter q r"
proof -
  have "take 40 (digest (hr_raw q)) = take 40 (digest (hr_raw r))"
    using assms(4) by (simp add: hr_key_def counter_id_def hr_raw_def)
  then have "hr_raw q = hr_raw r"
    using assms(1-3) unfolding collision_free_def by (meson image_eqI inj_on_def)
  then show ?thesis by (simp add: hr_raw_def counter_raw_eq same_counter_def)
qed

lemma one_policyD:
  "one_policy Q \<Longrightarrow> q \<in> Q \<Longrightarrow> r \<in> Q \<Longrightarrow> rp_operation (hr_policy q) = rp_operation (hr_policy r) \<Longrightarrow> hr_policy q = hr_policy r"
  by (simp add: one_policy_def)

lemma length_filter_mono: "(\<And>x. x \<in> set xs \<Longrightarrow> P x \<Longrightarrow> Q x) \<Longrightarrow> length (filter P xs) \<le> length (filter Q xs)"
  by (induction xs) (auto simp: le_SucI)

lemma let_through_admitted: "let_through r s \<le> admitted digest (hr_key digest r) s"
  unfolding let_through_def admitted_def by (rule length_filter_mono) (auto dest: same_counter_key)

text \<open>C7: However the remote calls of any number of requests on any number of instances
  interleave, and whichever of them abort, time out or fail (before or after taking effect), and
  whenever expired documents are purged, the Firestore limiter never lets through more requests
  for one operation, tenant, user and window than the policy's limit.\<close>

theorem rate_limit_never_exceeded:
  assumes "limiter_run digest s" "collision_free digest (fst ` set (ls_hits s))" "one_policy (fst ` set (ls_hits s))"
    and "r \<in> fst ` set (ls_hits s)"
  shows "let_through r s \<le> nat (rp_limit (hr_policy r))"
proof -
  have "one_counter digest (hr_key digest r) (snd (hr_window r)) (rp_limit (hr_policy r)) (fst ` set (ls_hits s))"
    unfolding one_counter_def
  proof (intro ballI impI)
    fix q assume q: "q \<in> fst ` set (ls_hits s)" "hr_key digest q = hr_key digest r"
    have same: "same_counter q r" by (rule collision_freeD [OF assms(2) q(1) assms(4) q(2)])
    then have "hr_policy q = hr_policy r"
      by (intro one_policyD [OF assms(3) q(1) assms(4)]) (simp add: same_counter_def)
    moreover from this same have "snd (hr_window q) = snd (hr_window r)"
      by (intro same_window_end) (simp_all add: same_counter_def)
    ultimately show "snd (hr_window q) = snd (hr_window r) \<and> rp_limit (hr_policy q) \<le> rp_limit (hr_policy r)"
      by simp
  qed
  from admitted_bound [OF limiter_run_inv [OF assms(1) this] this] let_through_admitted [of r s digest]
  show ?thesis by linarith
qed

text \<open>Two requests at once against a limit of one: the second finds the slot taken.\<close>

definition sample_policy :: "int \<Rightarrow> int \<Rightarrow> string \<Rightarrow> rate_policy" where
  "sample_policy l w op = \<lparr>rp_operation = op, rp_limit = l, rp_window = w\<rparr>"

definition sample_hit :: "rate_policy \<Rightarrow> rat \<Rightarrow> hit_request" where
  "sample_hit p t = \<lparr>hr_tenant = ''t'', hr_uid = ''u'', hr_policy = p, hr_now = t\<rparr>"

definition two_requests :: limiter_system where
  "two_requests = (let q = sample_hit (sample_policy 1 60 ''m'') 61; calls = [0, 1, 0, 1, 1] in
     foldl (\<lambda>s k. call_hit (\<lambda>raw. raw) k Works s)
       \<lparr>ls_clock = 61, ls_store = [], ls_hits = [(q, Start), (q, Start)]\<rparr> calls)"

lemma sample_hit_window: "hr_window (sample_hit (sample_policy 1 60 ''m'') 61) = (60, 120)"
  by (simp add: hr_window_def window_bounds_def sample_hit_def sample_policy_def Let_def floor_divide_of_int_eq [of 61 60, simplified])

lemma limiter_run_calls:
  assumes "limiter_run digest s" "set calls \<subseteq> {..<length (ls_hits s)}"
    and "\<And>k. k < length (ls_hits s) \<Longrightarrow> ls_clock s \<le> hr_now (fst (ls_hits s ! k)) + hit_budget_seconds + rpc_timeout_seconds"
  shows "limiter_run digest (foldl (\<lambda>s k. call_hit digest k Works s) s calls)"
  using assms
proof (induction calls arbitrary: s)
  case (Cons k calls)
  then have k: "k < length (ls_hits s)" by simp
  then obtain q h st' h' where q: "ls_hits s ! k = (q, h)"
    "call_hit digest k Works s = s\<lparr>ls_store := st', ls_hits := (ls_hits s)[k := (q, h')]\<rparr>"
    by (rule call_hit_cases [of k s digest Works]) blast
  have "limiter_run digest (call_hit digest k Works s)"
    using Cons.prems(1,3) k by (blast intro: limiter_run.step limiter_step.call)
  moreover have "ls_clock (call_hit digest k Works s) \<le> hr_now (fst (ls_hits (call_hit digest k Works s) ! j)) + hit_budget_seconds + rpc_timeout_seconds"
    if "j < length (ls_hits s)" for j
    using Cons.prems(3) [OF that] Cons.prems(3) [OF k] q k that by (auto simp: nth_list_update)
  ultimately show ?case using Cons.IH [of "call_hit digest k Works s"] Cons.prems(2) q(2) by simp
qed simp

lemma two_requests_run: "limiter_run (\<lambda>raw. raw) two_requests"
proof -
  let ?q = "sample_hit (sample_policy 1 60 ''m'') 61"
  have now: "hr_now ?q = 61" "0 < rp_window (hr_policy ?q)" by (simp_all add: sample_hit_def sample_policy_def)
  have "limiter_run (\<lambda>raw. raw) \<lparr>ls_clock = 61, ls_store = [], ls_hits = [(?q, Start), (?q, Start)]\<rparr>"
    using limiter_run.step [OF limiter_run.step [OF limiter_run.init [of "\<lambda>raw. raw" 61] limiter_step.arrive [of ?q]] limiter_step.arrive [of ?q]] now
    by simp
  moreover have "ls_clock s \<le> hr_now (fst (ls_hits s ! k)) + hit_budget_seconds + rpc_timeout_seconds"
    if "s = \<lparr>ls_clock = 61, ls_store = [], ls_hits = [(?q, Start), (?q, Start)]\<rparr>" "k < length (ls_hits s)" for s k
    using that now by (auto simp: less_Suc_eq hit_budget_seconds_def rpc_timeout_seconds_def)
  ultimately show ?thesis
    unfolding two_requests_def Let_def by (intro limiter_run_calls) auto
qed

lemma two_requests_hits: "ls_hits two_requests =
    [(sample_hit (sample_policy 1 60 ''m'') 61, Granted 0), (sample_hit (sample_policy 1 60 ''m'') 61, Denied ''limit_reached'')]"
  by (simp add: two_requests_def call_hit_def Let_def used_slots_def sample_hit_window hr_key_def slot_id_def new_slot_def valid_slot_def
      loop_head_def max_slot_probes_def) (simp add: sample_hit_def sample_policy_def hr_key_def)

theorem rate_limit_never_exceeded_witness:
  "let_through (sample_hit (sample_policy 1 60 ''m'') 61) two_requests \<le> nat 1"
proof -
  let ?q = "sample_hit (sample_policy 1 60 ''m'') 61"
  have "let_through ?q two_requests \<le> nat (rp_limit (hr_policy ?q))"
    by (rule rate_limit_never_exceeded [OF two_requests_run])
      (simp_all add: two_requests_hits collision_free_def one_policy_def)
  then show ?thesis by (simp add: sample_hit_def sample_policy_def)
qed

text \<open>C8: A request to the Firestore limiter decides after at most 65 remote calls, whatever the
  calls meet and whatever other requests do to the store between them: once a decision is there it
  stays, and after 65 calls there is one.\<close>

theorem rate_limit_hit_decides:
  assumes "2 * max_slot_probes + 1 \<le> length cs"
  shows "hit_decision q (hit_calls digest q cs Start) \<noteq> None"
  using calls_decide [of q Start cs digest] assms by (simp add: undecided_decision [of _ q])

theorem rate_limit_hit_decides_witness:
  "hit_decision (sample_hit (sample_policy 1 60 ''m'') 61)
     (hit_calls (\<lambda>raw. raw) (sample_hit (sample_policy 1 60 ''m'') 61) (replicate 65 (Works, [])) Start) \<noteq> None"
  by (rule rate_limit_hit_decides) (simp add: max_slot_probes_def)

text \<open>The process-local limiter, fed requests in the order of time, never lets through more
  requests for one counter than the limit, provided the policies of all its requests have one
  window length.\<close>

theorem memory_limit_one_window:
  assumes "sorted (map hr_now qs)" "collision_free digest (set qs)" "one_policy (set qs)" "r \<in> set qs"
    and "0 < rp_window (hr_policy r)" "0 \<le> rp_limit (hr_policy r)"
    and "\<And>q. q \<in> set qs \<Longrightarrow> rp_window (hr_policy q) = rp_window (hr_policy r)"
  shows "int (length (filter (\<lambda>(q, ok). ok \<and> same_counter q r) (zip qs (memory_hits digest qs [])))) \<le> rp_limit (hr_policy r)"
proof -
  let ?c = "hr_key digest r" and ?zs = "zip qs (memory_hits digest qs [])"
  obtain q0 qs' where qs: "qs = q0 # qs'" using assms(4) by (cases qs) auto
  have one: "fst (hr_window q) = fst (hr_window r) \<and> rp_limit (hr_policy q) \<le> int (nat (rp_limit (hr_policy r)))"
    if "q \<in> set qs" "hr_key digest q = ?c" for q
  proof -
    have "same_counter q r" by (rule collision_freeD [OF assms(2) that(1) assms(4) that(2)])
    moreover from this have "hr_policy q = hr_policy r"
      by (intro one_policyD [OF assms(3) that(1) assms(4)]) (simp add: same_counter_def)
    ultimately show ?thesis using assms(6) by (simp add: same_counter_def)
  qed
  have "0 + memory_admitted digest ?c qs [] \<le> nat (rp_limit (hr_policy r))"
  proof (rule memory_bound)
    show "counted ?c (fst (hr_window r)) (rp_window (hr_policy r)) 0 (hr_now q0) []" by (simp add: counted_def)
    show "sorted (hr_now q0 # map hr_now qs)" using assms(1) qs by auto
  qed (use assms(5,7) one in auto)
  moreover have "length (filter (\<lambda>(q, ok). ok \<and> same_counter q r) ?zs) \<le> memory_admitted digest ?c qs []"
    unfolding memory_admitted_def by (rule length_filter_mono) (auto dest: same_counter_key)
  ultimately show ?thesis using assms(6) by linarith
qed

theorem memory_limit_one_window_witness:
  "int (length (filter (\<lambda>(q, ok). ok \<and> same_counter q (sample_hit (sample_policy 1 60 ''m'') 61))
     (zip [sample_hit (sample_policy 1 60 ''m'') 61] (memory_hits (\<lambda>raw. raw) [sample_hit (sample_policy 1 60 ''m'') 61] [])))) \<le> 1"
proof -
  let ?q = "sample_hit (sample_policy 1 60 ''m'') 61"
  have pol: "rp_limit (hr_policy ?q) = 1" "rp_window (hr_policy ?q) = 60" by (simp_all add: sample_hit_def sample_policy_def)
  have "int (length (filter (\<lambda>(q, ok). ok \<and> same_counter q ?q) (zip [?q] (memory_hits (\<lambda>raw. raw) [?q] [])))) \<le> rp_limit (hr_policy ?q)"
    by (rule memory_limit_one_window) (use pol in \<open>simp_all add: collision_free_def one_policy_def\<close>)
  then show ?thesis unfolding pol .
qed

text \<open>With policies of different windows the process-local limiter forgets live counters: a
  request under a 60 second policy removes the counter of a 3600 second policy, so that two
  requests pass where the limit is one.\<close>

theorem memory_limit_forgets_counters:
  "memory_hits (\<lambda>raw. raw)
     [sample_hit (sample_policy 1 3600 ''a'') 0, sample_hit (sample_policy 9 60 ''b'') 200, sample_hit (sample_policy 1 3600 ''a'') 201] []
   = [True, True, True]"
  by (simp add: sample_hit_def sample_policy_def memory_hit_def window_bounds_def clean_counters_def dget_default_def
      Let_def floor_divide_of_int_eq [of 200 60, simplified] floor_divide_of_int_eq [of 201 3600, simplified] counter_id_def
      counter_raw_def json_string_def json_char_def)

text \<open>A policy override of the form \<open>limit/window\<close> is read back exactly when both numbers are
  in range, and refused otherwise.\<close>

theorem policy_override_roundtrip:
  "parse_policy op (int_str l @ ''/'' @ int_str w) =
     (if 1 \<le> l \<and> l \<le> max_limit \<and> 1 \<le> w \<and> w \<le> max_window_seconds
      then Inr \<lparr>rp_operation = op, rp_limit = l, rp_window = w\<rparr> else Inl (RateLimitConfigError op))"
  by (simp add: parse_policy_def split_slash_render policy_error_def)

text \<open>Resolving the overrides fails or gives exactly one policy per built-in operation, each
  under its own name and within the accepted range.\<close>

theorem resolved_policies_in_range:
  "case resolve_policies overrides of
     Inl e \<Rightarrow> True
   | Inr ps \<Rightarrow> (dget ps op = None \<longleftrightarrow> dget default_policies op = None)
       \<and> (case dget ps op of None \<Rightarrow> True | Some p \<Rightarrow> policy_in_range p \<and> rp_operation p = op)"
proof (cases "resolve_policies overrides")
  case (Inr ps)
  have ok: "policies_ok ps" by (rule resolve_policies_ok [OF Inr])
  then have "(dget ps op \<noteq> None) = (dget default_policies op \<noteq> None)" unfolding policies_ok_def by blast
  moreover have "policy_in_range p \<and> rp_operation p = op" if "dget ps op = Some p" for p
    using ok that unfolding policies_ok_def by blast
  ultimately show ?thesis using Inr by (auto split: option.split)
qed simp

end
