(* ===== verification/Portfolio.thy ===== *)
theory Portfolio
  imports Ipir
begin

text \<open>
  Portfolio policies and the consumer-protection analytics over them,
  \<open>src/backend/app/engines/portfolio\<close> (\<open>models.py\<close>, \<open>consumer_protection.py\<close>), and the
  connector-visible rating inputs of \<open>src/backend/app/impact/snapshot.py\<close>.

  The rates that the code rounds as floats (\<open>round(a / b, 4)\<close>) are exact rationals here, not
  rounded; the money amounts are decimals with the code's own rounding.
\<close>

section \<open>engines/portfolio/models.py\<close>

record synthetic_policy =
  sp_policy_id :: string
  sp_product_id :: string
  sp_state :: string
  sp_form :: string
  sp_transaction_type :: transaction_type
  sp_effective_date :: date
  sp_territory :: string
  sp_roof_age :: int
  sp_deductible :: int
  sp_protection_class :: int
  sp_construction_type :: string
  sp_dwelling_limit :: int
  sp_multi_policy :: bool
  sp_claims_free :: bool
  sp_claims_free_years :: int
  sp_canonical_premium :: decimal
  sp_target_premium :: "decimal option"

section \<open>impact/snapshot.py: what a connector may see of a policy\<close>

definition approved_rating_fields :: "string list" where
  "approved_rating_fields =
     [''territory'', ''roof_age'', ''deductible'', ''protection_class'', ''construction_type'', ''dwelling_limit'',
      ''multi_policy'', ''claims_free'', ''claims_free_years'']"

definition rating_values :: "synthetic_policy \<Rightarrow> (string, pyval) dict" where
  "rating_values p =
     [(''territory'', PStr (sp_territory p)), (''roof_age'', PInt (sp_roof_age p)),
      (''deductible'', PInt (sp_deductible p)), (''protection_class'', PInt (sp_protection_class p)),
      (''construction_type'', PStr (sp_construction_type p)), (''dwelling_limit'', PInt (sp_dwelling_limit p)),
      (''multi_policy'', PBool (sp_multi_policy p)), (''claims_free'', PBool (sp_claims_free p)),
      (''claims_free_years'', PInt (sp_claims_free_years p))]"

definition rating_inputs :: "synthetic_policy \<Rightarrow> string list \<Rightarrow> (string, pyval) dict" where
  "rating_inputs p declared = filter (\<lambda>(k, v). k \<in> set declared) (rating_values p)"

record portfolio_snapshot =
  ps_dataset :: string
  ps_sha256 :: string
  ps_rows :: "synthetic_policy list"

section \<open>consumer_protection.py\<close>

definition default_cohort_dimensions :: "string list" where
  "default_cohort_dimensions = [''territory'', ''construction_type'']"

definition default_minimum_cohort_size :: nat where "default_minimum_cohort_size = 30"

definition default_pipeline_windows :: "(int \<times> int \<times> string) list" where
  "default_pipeline_windows = [(0, 30, ''0-30''), (31, 60, ''31-60''), (61, 90, ''61-90'')]"

record policy_impact =
  im_policy_id :: string
  im_signed_variance :: decimal
  im_absolute_variance :: decimal

definition im_overcharged :: "policy_impact \<Rightarrow> bool" where
  "im_overcharged r \<longleftrightarrow> dec_less dec_zero (im_signed_variance r)"

record cohort_metrics =
  cm_dimension :: string
  cm_value :: string
  cm_sample_size :: nat
  cm_suppressed :: bool
  cm_selection_rate :: "rat option"
  cm_affected_rate :: "rat option"
  cm_mean_absolute_change :: "string option"
  cm_mean_percentage_change :: "rat option"
  cm_overcharge_rate :: "rat option"

text \<open>\<open>str(getattr(policy, dimension))\<close>.\<close>

definition transaction_text :: "transaction_type \<Rightarrow> string" where
  "transaction_text t = (case t of NEW_BUSINESS \<Rightarrow> ''NEW_BUSINESS'' | RENEWAL \<Rightarrow> ''RENEWAL'' | POLICY_CHANGE \<Rightarrow> ''POLICY_CHANGE'')"

definition policy_attributes :: "synthetic_policy \<Rightarrow> (string, string) dict" where
  "policy_attributes p =
     map (\<lambda>(k, v). (k, py_str v)) (rating_values p) @
     [(''policy_id'', sp_policy_id p), (''product_id'', sp_product_id p), (''state'', sp_state p), (''form'', sp_form p),
      (''transaction_type'', transaction_text (sp_transaction_type p)),
      (''effective_date'', isoformat (sp_effective_date p)), (''canonical_premium'', dec_str (sp_canonical_premium p)),
      (''target_premium'', case sp_target_premium p of None \<Rightarrow> ''None'' | Some d \<Rightarrow> dec_str d)]"

definition cohort_value :: "string \<Rightarrow> synthetic_policy \<Rightarrow> string res" where
  "cohort_value dimension p =
     (case dget (policy_attributes p) dimension of None \<Rightarrow> Inl (AttributeError dimension) | Some v \<Rightarrow> Inr v)"

text \<open>The counters of one cohort value, as the loop over the policies accumulates them.\<close>

record cohort_counts =
  cc_total :: nat
  cc_exposed :: nat
  cc_affected :: nat
  cc_abs_change :: decimal
  cc_pct_changes :: "rat list"
  cc_overcharged :: nat

definition no_counts :: cohort_counts where
  "no_counts = \<lparr>cc_total = 0, cc_exposed = 0, cc_affected = 0, cc_abs_change = dec_zero, cc_pct_changes = [], cc_overcharged = 0\<rparr>"

definition count_policy ::
  "(string, policy_impact) dict \<Rightarrow> string set \<Rightarrow> synthetic_policy \<Rightarrow> cohort_counts \<Rightarrow> cohort_counts res" where
  "count_policy impact exposed p c =
     (let c1 = c\<lparr>cc_total := cc_total c + 1,
                cc_exposed := cc_exposed c + (if sp_policy_id p \<in> exposed then 1 else 0)\<rparr> in
      case dget impact (sp_policy_id p) of
        None \<Rightarrow> Inr c1
      | Some r \<Rightarrow>
          rbind (dec_add (cc_abs_change c) (im_absolute_variance r)) (\<lambda>change.
          Inr (c1\<lparr>cc_affected := cc_affected c + 1, cc_abs_change := change,
                  cc_pct_changes := cc_pct_changes c @
                    (if dcoeff (sp_canonical_premium p) = 0 then []
                     else [dval (im_absolute_variance r) / dval (sp_canonical_premium p) * 100]),
                  cc_overcharged := cc_overcharged c + (if im_overcharged r then 1 else 0)\<rparr>)))"

definition count_cohorts ::
  "(string, policy_impact) dict \<Rightarrow> string set \<Rightarrow> string \<Rightarrow> synthetic_policy list \<Rightarrow> (string, cohort_counts) dict res" where
  "count_cohorts impact exposed dimension policies =
     rfold (\<lambda>p counts.
       rbind (cohort_value dimension p) (\<lambda>v.
       rbind (count_policy impact exposed p (dget_default counts v no_counts)) (\<lambda>c. Inr (dset v c counts)))) policies []"

definition cents :: "decimal \<Rightarrow> decimal res" where
  "cents d = dec_quantize HALF_EVEN d (- 2)"

definition money_text :: "decimal \<Rightarrow> string res" where
  "money_text d = rbind (cents d) (\<lambda>r. Inr (dec_str r))"

definition cohort_row :: "nat \<Rightarrow> string \<Rightarrow> string \<times> cohort_counts \<Rightarrow> cohort_metrics res" where
  "cohort_row minimum dimension = (\<lambda>(v, c).
     if cc_total c < minimum
     then Inr \<lparr>cm_dimension = dimension, cm_value = v, cm_sample_size = cc_total c, cm_suppressed = True,
               cm_selection_rate = None, cm_affected_rate = None, cm_mean_absolute_change = None,
               cm_mean_percentage_change = None, cm_overcharge_rate = None\<rparr>
     else rbind (if cc_affected c = 0 then Inr None
                 else rbind (dec_div (cc_abs_change c) (dec_of_int (int (cc_affected c)))) (\<lambda>m.
                      rbind (money_text m) (\<lambda>s. Inr (Some s)))) (\<lambda>mean.
          Inr \<lparr>cm_dimension = dimension, cm_value = v, cm_sample_size = cc_total c, cm_suppressed = False,
               cm_selection_rate = Some (of_nat (cc_exposed c) / of_nat (cc_total c)),
               cm_affected_rate = Some (of_nat (cc_affected c) / of_nat (cc_total c)),
               cm_mean_absolute_change = mean,
               cm_mean_percentage_change =
                 (if cc_pct_changes c = [] then None
                  else Some (sum_list (cc_pct_changes c) / of_nat (length (cc_pct_changes c)))),
               cm_overcharge_rate =
                 (if cc_affected c = 0 then None
                  else Some (of_nat (cc_overcharged c) / of_nat (cc_affected c)))\<rparr>))"

definition compute_cohort_distribution ::
  "synthetic_policy list \<Rightarrow> (string, policy_impact) dict \<Rightarrow> string set \<Rightarrow> string list \<Rightarrow> nat \<Rightarrow> cohort_metrics list res" where
  "compute_cohort_distribution policies impact exposed dimensions minimum =
     rbind (rmap_list (\<lambda>dimension.
       rbind (count_cohorts impact exposed dimension policies) (\<lambda>counts.
       rmap_list (cohort_row minimum dimension) (sort_key fst counts))) dimensions) (\<lambda>rows. Inr (concat rows))"

record renewal_bucket =
  rb_label :: string
  rb_count :: nat
  rb_impact :: string

definition renewal_in :: "(string, synthetic_policy) dict \<Rightarrow> date \<Rightarrow> int \<Rightarrow> int \<Rightarrow> string \<Rightarrow> bool" where
  "renewal_in by_id as_of lo hi pid =
     (case dget by_id pid of
        None \<Rightarrow> False
      | Some p \<Rightarrow> sp_transaction_type p = RENEWAL \<and>
          (let d = days_between (sp_effective_date p) as_of in lo \<le> d \<and> d \<le> hi))"

definition renewal_window ::
  "(string, synthetic_policy) dict \<Rightarrow> (string, policy_impact) dict \<Rightarrow> date \<Rightarrow> int \<times> int \<times> string \<Rightarrow> renewal_bucket res" where
  "renewal_window by_id impact as_of = (\<lambda>(lo, hi, label).
     let hits = filter (\<lambda>(pid, r). renewal_in by_id as_of lo hi pid) impact in
     rbind (rfold (\<lambda>(pid, r) t. dec_add t (im_absolute_variance r)) hits (Dec False 0 (- 2))) (\<lambda>total.
     rbind (money_text total) (\<lambda>s. Inr \<lparr>rb_label = label, rb_count = length hits, rb_impact = s\<rparr>)))"

record pipeline_impact =
  pl_as_of :: date
  pl_buckets :: "renewal_bucket list"
  pl_total :: nat

definition compute_pipeline_impact ::
  "synthetic_policy list \<Rightarrow> (string, policy_impact) dict \<Rightarrow> date \<Rightarrow> (int \<times> int \<times> string) list \<Rightarrow> pipeline_impact res" where
  "compute_pipeline_impact policies impact as_of windows =
     (let by_id = index_by sp_policy_id policies [] in
      rbind (rmap_list (renewal_window by_id impact as_of) windows) (\<lambda>buckets.
      Inr \<lparr>pl_as_of = as_of, pl_buckets = buckets, pl_total = (\<Sum>b\<leftarrow>buckets. rb_count b)\<rparr>))"

end
