(* ===== verification/RuntimeConfig.thy ===== *)
theory RuntimeConfig
  imports PyText
begin

text \<open>
  Startup validation of configuration: \<open>src/backend/app/core/runtime_config.py\<close> (AI runtime and
  guardrails) and \<open>src/backend/app/impact/config.py\<close> (impact budgets).

  An environment is an association list.  \<open>RuntimeConfigError\<close> carries the names of the offending
  variables, in the order the message lists them.  A float is the decimal number it is written
  as, without rounding to binary; \<open>nan\<close> and \<open>inf\<close>, which \<open>float\<close> accepts, are numbers of no range.
\<close>

type_synonym env = "(string, string) dict"

definition env_get :: "env \<Rightarrow> string \<Rightarrow> string" where
  "env_get env name = py_strip (dget_default env name [])"

definition merged_environment :: "env option \<Rightarrow> env \<Rightarrow> (string, string option) dict option \<Rightarrow> env" where
  "merged_environment environ process dotenv =
     (let merged = (case (environ, dotenv) of
        (None, Some file) \<Rightarrow> fold (\<lambda>(k, v) m. case v of None \<Rightarrow> m | Some s \<Rightarrow> dset k s m) file []
      | _ \<Rightarrow> []) in
      fold (\<lambda>(k, v). dset k v) (case environ of None \<Rightarrow> process | Some e \<Rightarrow> e) merged)"

section \<open>The AI runtime\<close>

definition locked_gemini_model :: string where "locked_gemini_model = ''gemini-3.1-flash-lite''"
definition locked_vertex_location :: string where "locked_vertex_location = ''us''"
definition model_env_var :: string where "model_env_var = ''RATEGUARD_GEMINI_MODEL''"
definition location_env_var :: string where "location_env_var = ''VERTEX_AI_LOCATION''"

definition forbidden_env_vars :: "string list" where
  "forbidden_env_vars =
     [''GEMINI_MODEL'', ''GEMINI_API_KEY'', ''GOOGLE_API_KEY'', ''FIREBASE_ADMIN_KEY_SECRET'', ''RATEGUARD_GEMINI_LOCATION'',
      ''MAX_GEMINI_CALLS_PER_MISSION'', ''MAX_PROBE_ROUNDS'', ''LOW_CONFIDENCE_REVIEW_THRESHOLD'']"

record ai_runtime_config =
  ai_model :: string
  ai_location :: string
  ai_project :: "string option"

definition ai_problems :: "env \<Rightarrow> string list" where
  "ai_problems env =
     (let location = env_get env location_env_var; sdk = env_get env ''GOOGLE_CLOUD_LOCATION'' in
      filter (\<lambda>name. env_get env name \<noteq> []) forbidden_env_vars
      @ (if env_get env model_env_var = [] \<or> env_get env model_env_var \<noteq> locked_gemini_model then [model_env_var] else [])
      @ (if location = [] \<or> location \<noteq> locked_vertex_location then [location_env_var] else [])
      @ (if sdk \<noteq> [] \<and> location \<noteq> [] \<and> sdk \<noteq> location then [''GOOGLE_CLOUD_LOCATION''] else [])
      @ (if py_lower (env_get env ''GOOGLE_GENAI_USE_VERTEXAI'') \<in> {''0'', ''false''} then [''GOOGLE_GENAI_USE_VERTEXAI''] else []))"

definition first_set :: "env \<Rightarrow> string list \<Rightarrow> string option" where
  "first_set env names = map_option (env_get env) (find (\<lambda>n. env_get env n \<noteq> []) names)"

definition resolve_ai_runtime_config :: "env \<Rightarrow> ai_runtime_config res" where
  "resolve_ai_runtime_config env =
     (if ai_problems env \<noteq> [] then Inl (RuntimeConfigError (ai_problems env))
      else Inr \<lparr>ai_model = env_get env model_env_var, ai_location = env_get env location_env_var,
                ai_project = first_set env [''RATEGUARD_GOOGLE_CLOUD_PROJECT'', ''GOOGLE_CLOUD_PROJECT'', ''GCP_PROJECT_ID'']\<rparr>)"

section \<open>Numbers with ranges\<close>

datatype cast = CastInt | CastFloat

text \<open>\<open>cast(raw)\<close>: \<open>None\<close> is the ValueError, \<open>Some None\<close> a \<open>nan\<close> or \<open>inf\<close>.\<close>

fun cast_number :: "cast \<Rightarrow> string \<Rightarrow> rat option option" where
  "cast_number CastInt raw = map_option (\<lambda>i. Some (of_int i)) (parse_int raw)"
| "cast_number CastFloat raw =
     (case decimal_of_string raw of
        Inr d \<Rightarrow> Some (Some (dval d))
      | Inl OutOfModel \<Rightarrow> Some None
      | Inl _ \<Rightarrow> None)"

type_synonym number_spec = "string \<times> cast \<times> rat \<times> rat"

datatype reading = Unset | BadCast | OutOfRange | Value rat

definition read_number :: "env \<Rightarrow> number_spec \<Rightarrow> reading" where
  "read_number env = (\<lambda>(name, cast, low, high).
     let raw = env_get env name in
     if raw = [] then Unset
     else case cast_number cast raw of
         None \<Rightarrow> BadCast
       | Some None \<Rightarrow> OutOfRange
       | Some (Some v) \<Rightarrow> if low \<le> v \<and> v \<le> high then Value v else OutOfRange)"

text \<open>The loop over a table of specifications: the values read and the variables refused.\<close>

definition read_spec :: "env \<Rightarrow> number_spec \<Rightarrow> (string, rat) dict \<times> string list \<Rightarrow> (string, rat) dict \<times> string list" where
  "read_spec env spec = (\<lambda>(values, problems).
     case read_number env spec of
       Unset \<Rightarrow> (values, problems)
     | Value v \<Rightarrow> (dset (fst spec) v values, problems)
     | _ \<Rightarrow> (values, problems @ [fst spec]))"

definition guardrail_specs :: "(number_spec \<times> rat) list" where
  "guardrail_specs =
     [((''RATEGUARD_MAX_GEMINI_CALLS_PER_MISSION'', CastInt, 1, 50), 6),
      ((''RATEGUARD_MAX_PROBE_ROUNDS'', CastInt, 0, 10), 1),
      ((''RATEGUARD_LOW_CONFIDENCE_REVIEW_THRESHOLD'', CastFloat, 1 / 2, 1), 3 / 5)]"

definition resolve_guardrails :: "env \<Rightarrow> (string, rat) dict res" where
  "resolve_guardrails env =
     (let (values, problems) = fold (\<lambda>(spec, dflt) (values, problems).
        if read_number env spec = Unset then (dset (fst spec) dflt values, problems)
        else read_spec env spec (values, problems)) guardrail_specs ([], []) in
      if problems \<noteq> [] then Inl (RuntimeConfigError problems) else Inr values)"

section \<open>impact/config.py\<close>

definition impact_specs :: "number_spec list" where
  "impact_specs =
     [(''RATEGUARD_IMPACT_MAX_POLICIES'', CastInt, 1, 100000),
      (''RATEGUARD_IMPACT_BATCH_SIZE'', CastInt, 10, 250),
      (''RATEGUARD_IMPACT_MAX_INFLIGHT_BATCHES'', CastInt, 1, 10),
      (''RATEGUARD_IMPACT_REQUEST_CONCURRENCY_PER_BATCH'', CastInt, 1, 20),
      (''RATEGUARD_IMPACT_MAX_QPS'', CastFloat, 1, 500),
      (''RATEGUARD_IMPACT_REQUEST_TIMEOUT_SECONDS'', CastFloat, 1, 30),
      (''RATEGUARD_IMPACT_BATCH_TIMEOUT_SECONDS'', CastInt, 30, 540),
      (''RATEGUARD_IMPACT_MAX_RETRY_ATTEMPTS'', CastInt, 1, 5),
      (''RATEGUARD_IMPACT_MAX_BATCH_ATTEMPTS'', CastInt, 1, 6),
      (''RATEGUARD_IMPACT_MAX_MISSION_SECONDS'', CastInt, 30, 570),
      (''RATEGUARD_IMPACT_MAX_MISMATCH_EXAMPLES'', CastInt, 0, 100),
      (''RATEGUARD_IMPACT_MAX_EVIDENCE_BYTES'', CastInt, 10000, 5000000),
      (''RATEGUARD_IMPACT_BREAKER_THRESHOLD'', CastInt, 2, 100),
      (''RATEGUARD_IMPACT_BREAKER_COOLDOWN_SECONDS'', CastFloat, 1, 300),
      (''RATEGUARD_IMPACT_POLL_INTERVAL_SECONDS'', CastFloat, 1 / 20, 30)]"

definition max_global_concurrent_requests :: int where "max_global_concurrent_requests = 20"
definition premium_tolerance_var :: string where "premium_tolerance_var = ''RATEGUARD_IMPACT_PREMIUM_TOLERANCE''"

record impact_config =
  ic_max_policies :: int
  ic_batch_size :: int
  ic_max_inflight_batches :: int
  ic_request_concurrency :: int
  ic_max_qps :: rat
  ic_request_timeout :: rat
  ic_batch_timeout :: int
  ic_max_retry_attempts :: int
  ic_max_batch_attempts :: int
  ic_max_mission_seconds :: int
  ic_max_mismatch_examples :: int
  ic_max_evidence_bytes :: int
  ic_breaker_threshold :: int
  ic_breaker_cooldown :: rat
  ic_poll_interval :: rat
  ic_premium_tolerance :: decimal

definition ic_global_concurrency :: "impact_config \<Rightarrow> int" where
  "ic_global_concurrency c = ic_max_inflight_batches c * ic_request_concurrency c"

definition ic_per_batch_qps :: "impact_config \<Rightarrow> rat" where
  "ic_per_batch_qps c = ic_max_qps c / of_int (ic_max_inflight_batches c)"

text \<open>\<open>ImpactConfig(**values)\<close>: the values read (an int was read as an int) over the defaults.\<close>

definition spec_int :: "(string, rat) dict \<Rightarrow> string \<Rightarrow> int \<Rightarrow> int" where
  "spec_int vs name dflt = \<lfloor>dget_default vs (''RATEGUARD_IMPACT_'' @ name) (of_int dflt)\<rfloor>"

definition spec_float :: "(string, rat) dict \<Rightarrow> string \<Rightarrow> rat \<Rightarrow> rat" where
  "spec_float vs name dflt = dget_default vs (''RATEGUARD_IMPACT_'' @ name) dflt"

definition impact_config_of :: "(string, rat) dict \<Rightarrow> decimal \<Rightarrow> impact_config" where
  "impact_config_of vs tolerance =
     \<lparr>ic_max_policies = spec_int vs ''MAX_POLICIES'' 50000, ic_batch_size = spec_int vs ''BATCH_SIZE'' 200,
      ic_max_inflight_batches = spec_int vs ''MAX_INFLIGHT_BATCHES'' 3,
      ic_request_concurrency = spec_int vs ''REQUEST_CONCURRENCY_PER_BATCH'' 5,
      ic_max_qps = spec_float vs ''MAX_QPS'' 120, ic_request_timeout = spec_float vs ''REQUEST_TIMEOUT_SECONDS'' 10,
      ic_batch_timeout = spec_int vs ''BATCH_TIMEOUT_SECONDS'' 240,
      ic_max_retry_attempts = spec_int vs ''MAX_RETRY_ATTEMPTS'' 3, ic_max_batch_attempts = spec_int vs ''MAX_BATCH_ATTEMPTS'' 3,
      ic_max_mission_seconds = spec_int vs ''MAX_MISSION_SECONDS'' 540,
      ic_max_mismatch_examples = spec_int vs ''MAX_MISMATCH_EXAMPLES'' 20,
      ic_max_evidence_bytes = spec_int vs ''MAX_EVIDENCE_BYTES'' 512000,
      ic_breaker_threshold = spec_int vs ''BREAKER_THRESHOLD'' 8,
      ic_breaker_cooldown = spec_float vs ''BREAKER_COOLDOWN_SECONDS'' 20,
      ic_poll_interval = spec_float vs ''POLL_INTERVAL_SECONDS'' 2, ic_premium_tolerance = tolerance\<rparr>"

definition validate_problems :: "impact_config \<Rightarrow> string list" where
  "validate_problems c =
     (if max_global_concurrent_requests < ic_global_concurrency c then [''RATEGUARD_IMPACT_MAX_INFLIGHT_BATCHES''] else [])
     @ (if ic_max_mission_seconds c \<le> ic_batch_timeout c then [''RATEGUARD_IMPACT_BATCH_TIMEOUT_SECONDS''] else [])
     @ (if dec_less (ic_premium_tolerance c) dec_zero \<or> dec_less dec_one (ic_premium_tolerance c) then [premium_tolerance_var] else [])"

definition resolve_impact_config :: "env \<Rightarrow> impact_config res" where
  "resolve_impact_config env =
     (let (values, problems) = fold (read_spec env) impact_specs ([], []);
          raw = env_get env premium_tolerance_var;
          tolerance = (if raw = [] then Inr (Dec False 0 (- 2)) else decimal_of_string raw) in
      case tolerance of
        Inl OutOfModel \<Rightarrow> Inl (if problems = [] then OutOfModel else RuntimeConfigError problems)
      | Inl _ \<Rightarrow> Inl (RuntimeConfigError (problems @ [premium_tolerance_var]))
      | Inr t \<Rightarrow>
          if problems \<noteq> [] then Inl (RuntimeConfigError problems)
          else (let c = impact_config_of values t in
                if validate_problems c \<noteq> [] then Inl (RuntimeConfigError (validate_problems c)) else Inr c))"

section \<open>Lemmas\<close>

definition in_spec :: "number_spec list \<Rightarrow> string \<Rightarrow> rat \<Rightarrow> bool" where
  "in_spec specs name v \<longleftrightarrow> (\<exists>cast low high. (name, cast, low, high) \<in> set specs \<and> low \<le> v \<and> v \<le> high
     \<and> (cast = CastInt \<longrightarrow> v \<in> \<int>))"

lemma read_number_Value:
  "read_number env (name, cast, low, high) = Value v \<Longrightarrow> low \<le> v \<and> v \<le> high \<and> (cast = CastInt \<longrightarrow> v \<in> \<int>)"
  by (cases cast) (auto simp: read_number_def Let_def split: option.splits if_splits)

lemma read_specs_in_spec:
  assumes "set specs' \<subseteq> set specs" "\<And>n v. dget vs n = Some v \<Longrightarrow> in_spec specs n v"
  shows "dget (fst (fold (read_spec env) specs' (vs, problems))) n = Some v \<Longrightarrow> in_spec specs n v"
  using assms
proof (induction specs' arbitrary: vs problems)
  case (Cons spec specs')
  obtain name cast low high where spec: "spec = (name, cast, low, high)" by (cases spec)
  obtain vs' ps' where step: "read_spec env spec (vs, problems) = (vs', ps')" by fastforce
  have "in_spec specs m w" if "dget vs' m = Some w" for m w
  proof (cases "read_number env spec")
    case (Value x)
    then have "in_spec specs name x" using read_number_Value [of env name cast low high x] Cons.prems(2) spec
      by (auto simp: in_spec_def)
    then show ?thesis using that Cons.prems(3) step Value spec by (auto simp: read_spec_def split: if_splits)
  qed (use that Cons.prems(3) step in \<open>auto simp: read_spec_def\<close>)
  then show ?case using Cons.IH [of vs' ps'] Cons.prems(1,2) step by simp
qed auto

lemma floor_between: "of_int a \<le> (v :: rat) \<Longrightarrow> v \<le> of_int b \<Longrightarrow> a \<le> \<lfloor>v\<rfloor> \<and> \<lfloor>v\<rfloor> \<le> b"
  by (simp add: le_floor_iff floor_le_iff)

lemma values_in_spec: "fold (read_spec env) specs ([], []) = (values, problems) \<Longrightarrow> dget values n = Some v \<Longrightarrow> in_spec specs n v"
  using read_specs_in_spec [of specs specs "[]" env "[]" n v] by simp

lemma spec_int_between:
  assumes "\<And>v. dget vs (''RATEGUARD_IMPACT_'' @ name) = Some v \<Longrightarrow> of_int low \<le> v \<and> v \<le> of_int high" "low \<le> d" "d \<le> high"
  shows "low \<le> spec_int vs name d \<and> spec_int vs name d \<le> high"
  using assms by (cases "dget vs (''RATEGUARD_IMPACT_'' @ name)") (auto simp: spec_int_def dget_default_def le_floor_iff floor_le_iff intro: le_less_trans)

lemma spec_float_between:
  assumes "\<And>v. dget vs (''RATEGUARD_IMPACT_'' @ name) = Some v \<Longrightarrow> low \<le> v \<and> v \<le> high" "low \<le> d" "d \<le> high"
  shows "low \<le> spec_float vs name d \<and> spec_float vs name d \<le> high"
  using assms by (cases "dget vs (''RATEGUARD_IMPACT_'' @ name)") (auto simp: spec_float_def dget_default_def)

lemma impact_config_select:
  "ic_batch_size (impact_config_of vs t) = spec_int vs ''BATCH_SIZE'' 200"
  "ic_max_inflight_batches (impact_config_of vs t) = spec_int vs ''MAX_INFLIGHT_BATCHES'' 3"
  "ic_request_concurrency (impact_config_of vs t) = spec_int vs ''REQUEST_CONCURRENCY_PER_BATCH'' 5"
  "ic_max_batch_attempts (impact_config_of vs t) = spec_int vs ''MAX_BATCH_ATTEMPTS'' 3"
  "ic_max_qps (impact_config_of vs t) = spec_float vs ''MAX_QPS'' 120"
  "ic_max_mission_seconds (impact_config_of vs t) = spec_int vs ''MAX_MISSION_SECONDS'' 540"
  "ic_breaker_threshold (impact_config_of vs t) = spec_int vs ''BREAKER_THRESHOLD'' 8"
  "ic_poll_interval (impact_config_of vs t) = spec_float vs ''POLL_INTERVAL_SECONDS'' 2"
  "ic_premium_tolerance (impact_config_of vs t) = t"
  by (simp_all add: impact_config_of_def)

text \<open>A configuration that is accepted is within its budgets: batch size, parallelism, attempts,
  breaker, polling and pacing are in their ranges, the batches in flight never ask for more than
  20 requests at once, a batch ends before its mission does, and the tolerance is at most 1.00.\<close>

theorem impact_config_within_budgets:
  assumes "resolve_impact_config env = Inr c"
  shows "10 \<le> ic_batch_size c \<and> ic_batch_size c \<le> 250
    \<and> 1 \<le> ic_max_inflight_batches c \<and> 1 \<le> ic_request_concurrency c \<and> ic_max_inflight_batches c * ic_request_concurrency c \<le> 20
    \<and> 1 \<le> ic_max_batch_attempts c \<and> ic_max_batch_attempts c \<le> 6
    \<and> ic_batch_timeout c < ic_max_mission_seconds c \<and> ic_max_mission_seconds c \<le> 570
    \<and> 2 \<le> ic_breaker_threshold c \<and> 1 / 20 \<le> ic_poll_interval c \<and> 0 < ic_per_batch_qps c \<and> ic_per_batch_qps c \<le> 500
    \<and> 0 \<le> dval (ic_premium_tolerance c) \<and> dval (ic_premium_tolerance c) \<le> 1"
proof -
  obtain vs ps where f: "fold (read_spec env) impact_specs ([], []) = (vs, ps)" by fastforce
  obtain t where c: "c = impact_config_of vs t" and val: "validate_problems c = []"
    using assms unfolding resolve_impact_config_def f Let_def prod.case
    by (auto split: sum.splits exn.splits if_splits)
  note spec = values_in_spec [OF f, unfolded in_spec_def impact_specs_def]
  have "10 \<le> ic_batch_size c \<and> ic_batch_size c \<le> 250"
    unfolding c impact_config_select by (rule spec_int_between) (auto dest!: spec)
  moreover have inflight: "1 \<le> ic_max_inflight_batches c \<and> ic_max_inflight_batches c \<le> 10"
    unfolding c impact_config_select by (rule spec_int_between) (auto dest!: spec)
  moreover have "1 \<le> ic_request_concurrency c \<and> ic_request_concurrency c \<le> 20"
    unfolding c impact_config_select by (rule spec_int_between) (auto dest!: spec)
  moreover have "1 \<le> ic_max_batch_attempts c \<and> ic_max_batch_attempts c \<le> 6"
    unfolding c impact_config_select by (rule spec_int_between) (auto dest!: spec)
  moreover have "30 \<le> ic_max_mission_seconds c \<and> ic_max_mission_seconds c \<le> 570"
    unfolding c impact_config_select by (rule spec_int_between) (auto dest!: spec)
  moreover have "2 \<le> ic_breaker_threshold c \<and> ic_breaker_threshold c \<le> 100"
    unfolding c impact_config_select by (rule spec_int_between) (auto dest!: spec)
  moreover have "1 / 20 \<le> ic_poll_interval c \<and> ic_poll_interval c \<le> 30"
    unfolding c impact_config_select by (rule spec_float_between) (auto dest!: spec)
  moreover have qps: "1 \<le> ic_max_qps c \<and> ic_max_qps c \<le> 500"
    unfolding c impact_config_select by (rule spec_float_between) (auto dest!: spec)
  moreover have "0 < ic_per_batch_qps c \<and> ic_per_batch_qps c \<le> 500"
  proof -
    have "(1 :: rat) \<le> of_int (ic_max_inflight_batches c)" using inflight by simp
    moreover have "ic_max_qps c / of_int (ic_max_inflight_batches c) \<le> ic_max_qps c / 1"
      using calculation qps by (intro divide_left_mono) auto
    ultimately show ?thesis using qps by (simp add: ic_per_batch_qps_def)
  qed
  moreover have "ic_max_inflight_batches c * ic_request_concurrency c \<le> 20" "ic_batch_timeout c < ic_max_mission_seconds c"
    "0 \<le> dval (ic_premium_tolerance c) \<and> dval (ic_premium_tolerance c) \<le> 1"
    using val by (auto simp: validate_problems_def max_global_concurrent_requests_def ic_global_concurrency_def split: if_splits)
  ultimately show ?thesis by linarith
qed

lemma default_impact_config: "resolve_impact_config [] = Inr (impact_config_of [] (Dec False 0 (- 2)))"
  by (simp add: resolve_impact_config_def impact_specs_def read_spec_def read_number_def env_get_def dget_default_def py_strip_def
      validate_problems_def impact_config_of_def spec_int_def spec_float_def ic_global_concurrency_def
      max_global_concurrent_requests_def)

theorem impact_config_within_budgets_witness:
  "ic_max_inflight_batches (impact_config_of [] (Dec False 0 (- 2))) * ic_request_concurrency (impact_config_of [] (Dec False 0 (- 2))) \<le> 20"
  using impact_config_within_budgets [OF default_impact_config] by simp

text \<open>The AI runtime configuration is resolved only for the locked model and location, with every
  forbidden variable unset and no conflicting SDK location.\<close>

theorem ai_runtime_locked:
  assumes "resolve_ai_runtime_config env = Inr c"
  shows "ai_model c = locked_gemini_model \<and> ai_location c = locked_vertex_location
    \<and> (\<forall>name \<in> set forbidden_env_vars. env_get env name = [])
    \<and> env_get env ''GOOGLE_CLOUD_LOCATION'' \<in> {[], locked_vertex_location}"
  using assms
  by (auto simp: resolve_ai_runtime_config_def ai_problems_def Let_def filter_empty_conv split: if_splits)

definition sample_env :: env where
  "sample_env = [(''RATEGUARD_GEMINI_MODEL'', ''gemini-3.1-flash-lite ''), (''VERTEX_AI_LOCATION'', ''us'')]"

theorem ai_runtime_locked_witness: "\<exists>c. resolve_ai_runtime_config sample_env = Inr c \<and> ai_location c = ''us''"
proof -
  have "ai_problems sample_env = []"
    by (simp add: ai_problems_def sample_env_def env_get_def dget_default_def forbidden_env_vars_def model_env_var_def
        location_env_var_def locked_gemini_model_def locked_vertex_location_def py_strip_def is_space_def py_lower_def Let_def)
  then obtain c where "resolve_ai_runtime_config sample_env = Inr c" by (simp add: resolve_ai_runtime_config_def)
  with ai_runtime_locked [OF this] show ?thesis by (simp add: locked_vertex_location_def)
qed

end
