(* ===== verification/ImpactModels.thy ===== *)
theory ImpactModels
  imports Portfolio RuntimeConfig
begin

text \<open>
  Records of a portfolio impact scan, \<open>src/backend/app/impact/models.py\<close>, with the aggregate
  record of \<open>aggregate.py\<close> (an impact job stores one).  The budgets recorded with either are the
  configuration itself, not its values as text.

  A timestamp is a number of microseconds (\<open>datetime\<close>'s resolution; \<open>isoformat\<close> and
  \<open>fromisoformat\<close> are inverse on it).  A row \<open>[index, ...]\<close> of a batch record is a tuple.
\<close>

type_synonym timestamp = int

definition seconds :: "int \<Rightarrow> timestamp" where "seconds s = s * 1000000"

section \<open>Statuses\<close>

datatype impact_status = NOT_RUN | QUEUED | RUNNING | COMPLETE | PARTIAL | CANCELLED | FAILED

datatype batch_state = PENDING | LEASED | DONE | INCOMPLETE

datatype lease_result =
  ACQUIRED | ALREADY_DONE | LEASED_ELSEWHERE | ATTEMPTS_EXHAUSTED | NOT_FOUND | JOB_CLOSED

definition terminal_job_statuses :: "impact_status set" where
  "terminal_job_statuses = {COMPLETE, PARTIAL, CANCELLED, FAILED}"

section \<open>compute_job_id\<close>

fun join_bar :: "string list \<Rightarrow> string" where
  "join_bar [] = []"
| "join_bar [s] = s"
| "join_bar (s # t # ss) = s @ ''|'' @ join_bar (t # ss)"

definition job_material ::
  "string \<Rightarrow> string \<Rightarrow> int \<Rightarrow> string \<Rightarrow> string \<Rightarrow> string \<Rightarrow> string \<Rightarrow> int \<Rightarrow> int \<Rightarrow> string" where
  "job_material tenant mission attempt snapshot source connector version batch_size row_limit =
     join_bar [tenant, mission, int_str attempt, snapshot, source, connector, version, int_str batch_size, int_str row_limit]"

definition compute_job_id ::
  "(string \<Rightarrow> string) \<Rightarrow> string \<Rightarrow> string \<Rightarrow> int \<Rightarrow> string \<Rightarrow> string \<Rightarrow> string \<Rightarrow> string \<Rightarrow> int \<Rightarrow> int \<Rightarrow> string" where
  "compute_job_id digest tenant mission attempt snapshot source connector version batch_size row_limit =
     ''IJ-'' @ take 24 (digest (job_material tenant mission attempt snapshot source connector version batch_size row_limit))"

section \<open>Batches\<close>

type_synonym scope_row = "nat \<times> string"
type_synonym affected_row = "nat \<times> string \<times> string"
type_synonym inconclusive_row = "nat \<times> string \<times> bool"

record batch_record =
  br_tenant :: string
  br_job_id :: string
  br_batch_no :: nat
  br_row_start :: nat
  br_row_end :: nat
  br_state :: batch_state
  br_attempts :: int
  br_lease_owner :: "string option"
  br_lease_expires_at :: "timestamp option"
  br_matched :: nat
  br_out_of_scope :: "scope_row list"
  br_affected :: "affected_row list"
  br_inconclusive :: "inconclusive_row list"
  br_retries :: nat
  br_requests :: nat
  br_duration_ms :: int
  br_error_classes :: "(string, nat) dict"
  br_breaker_opened :: bool
  br_connector_revision :: "string option"
  br_completed_at :: "timestamp option"
  br_updated_at :: timestamp

text \<open>\<open>BatchRecord(tenant_id=..., job_id=..., batch_no=..., row_start=..., row_end=...)\<close>.\<close>

definition new_batch :: "timestamp \<Rightarrow> string \<Rightarrow> string \<Rightarrow> nat \<times> nat \<times> nat \<Rightarrow> batch_record" where
  "new_batch now tenant job_id = (\<lambda>(n, a, b).
     \<lparr>br_tenant = tenant, br_job_id = job_id, br_batch_no = n, br_row_start = a, br_row_end = b,
      br_state = PENDING, br_attempts = 0, br_lease_owner = None, br_lease_expires_at = None,
      br_matched = 0, br_out_of_scope = [], br_affected = [], br_inconclusive = [],
      br_retries = 0, br_requests = 0, br_duration_ms = 0, br_error_classes = [], br_breaker_opened = False,
      br_connector_revision = None, br_completed_at = None, br_updated_at = now\<rparr>)"

definition br_rows :: "batch_record \<Rightarrow> int" where
  "br_rows b = int (br_row_end b) - int (br_row_start b)"

definition unresolved_transient :: "batch_record \<Rightarrow> nat list" where
  "unresolved_transient b = map fst (filter (\<lambda>(i, code, transient). transient) (br_inconclusive b))"

text \<open>What a handler writes with \<open>complete_batch\<close>: a full result, or (after a crash) the duration alone.\<close>

record batch_result =
  bt_matched :: nat
  bt_out_of_scope :: "scope_row list"
  bt_affected :: "affected_row list"
  bt_inconclusive :: "inconclusive_row list"
  bt_retries :: nat
  bt_requests :: nat
  bt_error_classes :: "(string, nat) dict"
  bt_breaker_opened :: bool
  bt_connector_revision :: "string option"

datatype batch_update = FullResult batch_result int | DurationOnly int

section \<open>The aggregate\<close>

record mismatch_example =
  me_row_ref :: string
  me_expected :: string
  me_candidate :: string
  me_delta :: string
  me_rating_inputs :: "(string, pyval) dict"

record impact_provenance =
  pv_connector_id :: string
  pv_engine_version :: string
  pv_connector_revisions :: "string list"
  pv_batch_quote_used :: bool
  pv_source :: "(string, string) dict"
  pv_snapshot :: "string \<times> string \<times> nat"
  pv_as_of :: date
  pv_premium_tolerance :: string

record impact_aggregate =
  ag_tenant :: string
  ag_job_id :: string
  ag_mission_id :: string
  ag_status :: impact_status
  ag_decision :: string
  ag_completeness :: string
  ag_incomplete_reasons :: "string list"
  ag_lower_bound :: bool
  ag_rows_total :: int
  ag_rows_in_scope :: int
  ag_processed :: int
  ag_eligible :: int
  ag_out_of_scope :: int
  ag_out_of_scope_reasons :: "(string, nat) dict"
  ag_compared :: int
  ag_mismatches :: int
  ag_inconclusive :: int
  ag_inconclusive_transient :: int
  ag_unprocessed :: int
  ag_coverage_pct :: rat
  ag_affected_pct :: rat
  ag_overcharge_count :: nat
  ag_overcharge_total :: string
  ag_undercharge_count :: nat
  ag_undercharge_total :: string
  ag_signed_net_delta :: string
  ag_absolute_exposure :: string
  ag_mean_abs_delta :: "string option"
  ag_median_abs_delta :: "string option"
  ag_mean_signed_delta :: "string option"
  ag_median_signed_delta :: "string option"
  ag_min_delta :: "string option"
  ag_max_delta :: "string option"
  ag_batch_count :: int
  ag_batches_done :: int
  ag_batches_incomplete :: int
  ag_batches_pending :: int
  ag_retry_count :: nat
  ag_request_count :: nat
  ag_batch_seconds :: rat
  ag_error_classes :: "(string, nat) dict"
  ag_breaker_opened :: bool
  ag_cohorts :: "cohort_metrics list"
  ag_pipeline :: pipeline_impact
  ag_examples :: "mismatch_example list"
  ag_budget :: impact_config
  ag_wall_seconds :: "rat option"
  ag_budget_exhausted :: "string list"
  ag_halt_reason :: "string option"
  ag_provenance :: impact_provenance
  ag_result_sha256 :: string
  ag_evidence_bytes :: "nat option"
  ag_evidence_trimmed :: "string list"

section \<open>Jobs\<close>

record connector_ref =
  cr_connector_id :: string
  cr_engine_version :: string
  cr_batch_max_items :: nat

record impact_job =
  ij_tenant :: string
  ij_job_id :: string
  ij_mission_id :: string
  ij_attempt :: int
  ij_created_at :: timestamp
  ij_as_of :: date
  ij_status :: impact_status
  ij_product :: string
  ij_jurisdiction :: "string option"
  ij_snapshot :: "string \<times> string \<times> nat"
  ij_source :: "(string, string) dict"
  ij_connector :: connector_ref
  ij_batch_size :: nat
  ij_batch_count :: nat
  ij_rows_total :: nat
  ij_rows_in_scope :: nat
  ij_budgets :: impact_config
  ij_cancel_requested :: bool
  ij_halt_reason :: "string option"
  ij_budget_exhausted :: "string list"
  ij_progress :: "(string, string) dict"
  ij_aggregate :: "impact_aggregate option"
  ij_finalized_at :: "timestamp option"

text \<open>The fields \<open>update_job\<close> is called with.\<close>

datatype job_update =
    CancelRequested
  | Budget "string list" "string option"
  | Progress "(string, string) dict"

fun apply_job_update :: "job_update \<Rightarrow> impact_job \<Rightarrow> impact_job" where
  "apply_job_update CancelRequested j = j\<lparr>ij_cancel_requested := True\<rparr>"
| "apply_job_update (Budget bs h) j = j\<lparr>ij_budget_exhausted := bs, ij_halt_reason := h\<rparr>"
| "apply_job_update (Progress p) j = j\<lparr>ij_progress := p\<rparr>"

end
