(* ===== verification/ImpactStore.thy ===== *)
theory ImpactStore
  imports ImpactModels
begin

text \<open>
  The two checkpoint stores of \<open>src/backend/app/impact/store.py\<close>: \<open>InMemoryImpactStore\<close>
  (\<open>mem_\<close>) and \<open>FirestoreImpactStore\<close> (\<open>fs_\<close>).  Every operation is one step (the lock of
  the one, the transaction of the other) that takes the time it happens at; \<open>store_op\<close> names the operations
  on one job and its batches, so that a history of a store is a list of them.  \<open>find_jobs_for_mission\<close>, which
  reads all jobs of a mission and changes nothing, is a query on the state after a history.

  Two operations of the Firestore store are no transaction in the code: \<open>update_job\<close> checks that the job exists,
  writes the given fields and reads the job again, and \<open>ensure_batches\<close> reads the batch numbers that exist and
  then creates the other documents one by one.  The model takes each as one step, at its write; what another
  process does between those reads and writes is not modelled.

  A Firestore document is the record it stores, with the rows of a batch encoded as the code
  encodes them.  A pydantic model survives \<open>model_dump\<close>/\<open>model_validate\<close>.
\<close>

section \<open>The lease state machine\<close>

definition lease_decision ::
  "batch_record \<Rightarrow> string \<Rightarrow> int \<Rightarrow> int \<Rightarrow> timestamp \<Rightarrow> lease_result \<times> batch_record" where
  "lease_decision b owner lease_seconds max_attempts now =
     (if br_state b = DONE then (ALREADY_DONE, b)
      else if br_state b = LEASED \<and> (case br_lease_expires_at b of None \<Rightarrow> False | Some e \<Rightarrow> now < e)
        then (LEASED_ELSEWHERE, b)
      else if max_attempts \<le> br_attempts b then (ATTEMPTS_EXHAUSTED, b)
      else (ACQUIRED,
        b\<lparr>br_state := LEASED, br_attempts := br_attempts b + 1, br_lease_owner := Some owner,
          br_lease_expires_at := Some (now + seconds lease_seconds), br_updated_at := now\<rparr>))"

text \<open>\<open>{**result, "state": state, "lease_owner": None, ...}\<close> of \<open>complete_batch\<close>.\<close>

definition release :: "timestamp \<Rightarrow> batch_state \<Rightarrow> batch_record \<Rightarrow> batch_record" where
  "release now st b =
     b\<lparr>br_state := st, br_lease_owner := None, br_lease_expires_at := None, br_updated_at := now\<rparr>"

definition apply_batch_update :: "timestamp \<Rightarrow> batch_state \<Rightarrow> batch_update \<Rightarrow> batch_record \<Rightarrow> batch_record" where
  "apply_batch_update now st u b =
     (case u of
        DurationOnly ms \<Rightarrow> release now st (b\<lparr>br_duration_ms := ms\<rparr>)
      | FullResult r ms \<Rightarrow> release now st
          (b\<lparr>br_matched := bt_matched r, br_out_of_scope := bt_out_of_scope r, br_affected := bt_affected r,
             br_inconclusive := bt_inconclusive r, br_retries := bt_retries r, br_requests := bt_requests r,
             br_duration_ms := ms, br_error_classes := bt_error_classes r, br_breaker_opened := bt_breaker_opened r,
             br_connector_revision := bt_connector_revision r, br_completed_at := Some now\<rparr>))"

section \<open>Operations and replies\<close>

datatype store_op =
    CreateJob impact_job
  | GetJob string string
  | UpdateJob string string job_update
  | EnsureBatches string string "(nat \<times> nat \<times> nat) list" timestamp
  | GetBatch string string nat
  | ListBatches string string
  | LeaseBatch string string nat string int int timestamp
  | CompleteBatch string string nat string batch_update batch_state timestamp
  | FinalizeJob string string impact_status impact_aggregate timestamp

datatype store_reply =
    JobReply "impact_job option"
  | BatchReply "batch_record option"
  | BatchesReply "batch_record list"
  | LeaseReply lease_result "batch_record option"
  | Written bool
  | FinalizeReply "impact_job option" bool
  | NoReply

section \<open>InMemoryImpactStore\<close>

record mem_store =
  ms_jobs :: "(string \<times> string, impact_job) dict"
  ms_batches :: "(string \<times> string, (nat, batch_record) dict) dict"

definition empty_mem :: mem_store where "empty_mem = \<lparr>ms_jobs = [], ms_batches = []\<rparr>"

definition mem_get_job :: "string \<Rightarrow> string \<Rightarrow> mem_store \<Rightarrow> impact_job option" where
  "mem_get_job t j s = dget (ms_jobs s) (t, j)"

definition mem_put_job :: "string \<Rightarrow> string \<Rightarrow> impact_job \<Rightarrow> mem_store \<Rightarrow> mem_store" where
  "mem_put_job t j job s = s\<lparr>ms_jobs := dset (t, j) job (ms_jobs s)\<rparr>"

definition mem_bucket :: "string \<Rightarrow> string \<Rightarrow> mem_store \<Rightarrow> (nat, batch_record) dict" where
  "mem_bucket t j s = dget_default (ms_batches s) (t, j) []"

definition mem_get_batch :: "string \<Rightarrow> string \<Rightarrow> nat \<Rightarrow> mem_store \<Rightarrow> batch_record option" where
  "mem_get_batch t j n s = dget (mem_bucket t j s) n"

definition mem_put_batch :: "string \<Rightarrow> string \<Rightarrow> nat \<Rightarrow> batch_record \<Rightarrow> mem_store \<Rightarrow> mem_store" where
  "mem_put_batch t j n b s = s\<lparr>ms_batches := dset (t, j) (dset n b (mem_bucket t j s)) (ms_batches s)\<rparr>"

definition mem_create_job :: "impact_job \<Rightarrow> mem_store \<Rightarrow> mem_store \<times> store_reply" where
  "mem_create_job job s =
     (case mem_get_job (ij_tenant job) (ij_job_id job) s of
        Some old \<Rightarrow> (s, JobReply (Some old))
      | None \<Rightarrow> (mem_put_job (ij_tenant job) (ij_job_id job) job s, JobReply (Some job)))"

definition mem_update_job :: "string \<Rightarrow> string \<Rightarrow> job_update \<Rightarrow> mem_store \<Rightarrow> mem_store \<times> store_reply" where
  "mem_update_job t j u s =
     (case mem_get_job t j s of
        None \<Rightarrow> (s, JobReply None)
      | Some job \<Rightarrow> (let job' = apply_job_update u job in (mem_put_job t j job' s, JobReply (Some job'))))"

definition add_batch :: "timestamp \<Rightarrow> string \<Rightarrow> string \<Rightarrow> nat \<times> nat \<times> nat \<Rightarrow> (nat, batch_record) dict \<Rightarrow> (nat, batch_record) dict" where
  "add_batch now t j spec bucket =
     (case dget bucket (fst spec) of None \<Rightarrow> dset (fst spec) (new_batch now t j spec) bucket | Some _ \<Rightarrow> bucket)"

definition mem_ensure_batches ::
  "string \<Rightarrow> string \<Rightarrow> (nat \<times> nat \<times> nat) list \<Rightarrow> timestamp \<Rightarrow> mem_store \<Rightarrow> mem_store \<times> store_reply" where
  "mem_ensure_batches t j specs now s =
     (s\<lparr>ms_batches := dset (t, j) (fold (add_batch now t j) specs (mem_bucket t j s)) (ms_batches s)\<rparr>, NoReply)"

definition mem_list_batches :: "string \<Rightarrow> string \<Rightarrow> mem_store \<Rightarrow> batch_record list" where
  "mem_list_batches t j s = map snd (sort_key fst (mem_bucket t j s))"

definition mem_lease_batch ::
  "string \<Rightarrow> string \<Rightarrow> nat \<Rightarrow> string \<Rightarrow> int \<Rightarrow> int \<Rightarrow> timestamp \<Rightarrow> mem_store \<Rightarrow> mem_store \<times> store_reply" where
  "mem_lease_batch t j n owner lease_seconds max_attempts now s =
     (case mem_get_job t j s of
        None \<Rightarrow> (s, LeaseReply NOT_FOUND None)
      | Some job \<Rightarrow>
          if ij_status job \<in> terminal_job_statuses \<or> ij_cancel_requested job then (s, LeaseReply JOB_CLOSED None)
          else
            (case mem_get_batch t j n s of
               None \<Rightarrow> (s, LeaseReply NOT_FOUND None)
             | Some b \<Rightarrow>
                 (let (outcome, b') = lease_decision b owner lease_seconds max_attempts now in
                  if outcome = ACQUIRED then (mem_put_batch t j n b' s, LeaseReply outcome (Some b'))
                  else (s, LeaseReply outcome (Some b)))))"

definition mem_complete_batch ::
  "string \<Rightarrow> string \<Rightarrow> nat \<Rightarrow> string \<Rightarrow> batch_update \<Rightarrow> batch_state \<Rightarrow> timestamp \<Rightarrow> mem_store \<Rightarrow> mem_store \<times> store_reply" where
  "mem_complete_batch t j n owner u st now s =
     (case mem_get_batch t j n s of
        None \<Rightarrow> (s, Written False)
      | Some b \<Rightarrow>
          if br_state b \<noteq> LEASED \<or> br_lease_owner b \<noteq> Some owner then (s, Written False)
          else (mem_put_batch t j n (apply_batch_update now st u b) s, Written True))"

definition finalized :: "impact_status \<Rightarrow> impact_aggregate \<Rightarrow> timestamp \<Rightarrow> impact_job \<Rightarrow> impact_job" where
  "finalized st agg now job = job\<lparr>ij_status := st, ij_aggregate := Some agg, ij_finalized_at := Some now\<rparr>"

definition mem_finalize_job ::
  "string \<Rightarrow> string \<Rightarrow> impact_status \<Rightarrow> impact_aggregate \<Rightarrow> timestamp \<Rightarrow> mem_store \<Rightarrow> mem_store \<times> store_reply" where
  "mem_finalize_job t j st agg now s =
     (case mem_get_job t j s of
        None \<Rightarrow> (s, FinalizeReply None False)
      | Some job \<Rightarrow>
          if ij_finalized_at job \<noteq> None then (s, FinalizeReply (Some job) False)
          else (let job' = finalized st agg now job in (mem_put_job t j job' s, FinalizeReply (Some job') True)))"

definition mem_find_jobs :: "string \<Rightarrow> string \<Rightarrow> mem_store \<Rightarrow> impact_job list" where
  "mem_find_jobs t mission s =
     sort_key (\<lambda>j. - ij_created_at j)
       (map snd (filter (\<lambda>((t', j), job). t' = t \<and> ij_mission_id job = mission) (ms_jobs s)))"

fun mem_exec :: "store_op \<Rightarrow> mem_store \<Rightarrow> mem_store \<times> store_reply" where
  "mem_exec (CreateJob job) s = mem_create_job job s"
| "mem_exec (GetJob t j) s = (s, JobReply (mem_get_job t j s))"
| "mem_exec (UpdateJob t j u) s = mem_update_job t j u s"
| "mem_exec (EnsureBatches t j specs now) s = mem_ensure_batches t j specs now s"
| "mem_exec (GetBatch t j n) s = (s, BatchReply (mem_get_batch t j n s))"
| "mem_exec (ListBatches t j) s = (s, BatchesReply (mem_list_batches t j s))"
| "mem_exec (LeaseBatch t j n owner secs k now) s = mem_lease_batch t j n owner secs k now s"
| "mem_exec (CompleteBatch t j n owner u st now) s = mem_complete_batch t j n owner u st now s"
| "mem_exec (FinalizeJob t j st agg now) s = mem_finalize_job t j st agg now s"

section \<open>FirestoreImpactStore: stored rows\<close>

datatype cell = CInt nat | CStr string | CBool bool

text \<open>A stored row: \<open>{"v": [...]}\<close>, or a bare array (which the decoder also accepts).\<close>

datatype stored_row = Wrapped "cell list" | Bare "cell list"

fun stored_cells :: "stored_row \<Rightarrow> cell list" where
  "stored_cells (Wrapped cs) = cs"
| "stored_cells (Bare cs) = cs"

definition scope_cells :: "scope_row \<Rightarrow> cell list" where
  "scope_cells = (\<lambda>(i, code). [CInt i, CStr code])"

definition affected_cells :: "affected_row \<Rightarrow> cell list" where
  "affected_cells = (\<lambda>(i, e, c). [CInt i, CStr e, CStr c])"

definition inconclusive_cells :: "inconclusive_row \<Rightarrow> cell list" where
  "inconclusive_cells = (\<lambda>(i, code, transient). [CInt i, CStr code, CBool transient])"

fun scope_of_cells :: "cell list \<Rightarrow> scope_row res" where
  "scope_of_cells [CInt i, CStr code] = Inr (i, code)"
| "scope_of_cells _ = Inl (ValidationError ''out_of_scope'')"

fun affected_of_cells :: "cell list \<Rightarrow> affected_row res" where
  "affected_of_cells [CInt i, CStr e, CStr c] = Inr (i, e, c)"
| "affected_of_cells _ = Inl (ValidationError ''affected'')"

fun inconclusive_of_cells :: "cell list \<Rightarrow> inconclusive_row res" where
  "inconclusive_of_cells [CInt i, CStr code, CBool t] = Inr (i, code, t)"
| "inconclusive_of_cells _ = Inl (ValidationError ''inconclusive'')"

text \<open>A batch document: its three row fields as stored, and its other fields.\<close>

record batch_doc =
  bd_fields :: batch_record
  bd_out_of_scope :: "stored_row list"
  bd_affected :: "stored_row list"
  bd_inconclusive :: "stored_row list"

definition encode_rows :: "batch_record \<Rightarrow> batch_doc" where
  "encode_rows b =
     \<lparr>bd_fields = b\<lparr>br_out_of_scope := [], br_affected := [], br_inconclusive := []\<rparr>,
      bd_out_of_scope = map (Wrapped \<circ> scope_cells) (br_out_of_scope b),
      bd_affected = map (Wrapped \<circ> affected_cells) (br_affected b),
      bd_inconclusive = map (Wrapped \<circ> inconclusive_cells) (br_inconclusive b)\<rparr>"

definition decode_rows :: "batch_doc \<Rightarrow> batch_record res" where
  "decode_rows d =
     rbind (rmap_list (scope_of_cells \<circ> stored_cells) (bd_out_of_scope d)) (\<lambda>os.
     rbind (rmap_list (affected_of_cells \<circ> stored_cells) (bd_affected d)) (\<lambda>as.
     rbind (rmap_list (inconclusive_of_cells \<circ> stored_cells) (bd_inconclusive d)) (\<lambda>ics.
     Inr ((bd_fields d)\<lparr>br_out_of_scope := os, br_affected := as, br_inconclusive := ics\<rparr>))))"

section \<open>FirestoreImpactStore: documents\<close>

definition doc_id :: "string \<Rightarrow> string \<Rightarrow> string" where
  "doc_id t j = t @ ''--'' @ j"

text \<open>\<open>f"{batch_no:05d}"\<close>.\<close>

definition batch_key :: "nat \<Rightarrow> string" where
  "batch_key n = replicate (5 - length (nat_str n)) (CHR ''0'') @ nat_str n"

record fs_store =
  fs_jobs :: "(string, impact_job) dict"
  fs_batches :: "(string, (string, batch_doc) dict) dict"

definition empty_fs :: fs_store where "empty_fs = \<lparr>fs_jobs = [], fs_batches = []\<rparr>"

definition fs_subcollection :: "string \<Rightarrow> string \<Rightarrow> fs_store \<Rightarrow> (string, batch_doc) dict" where
  "fs_subcollection t j s = dget_default (fs_batches s) (doc_id t j) []"

definition fs_get_job :: "string \<Rightarrow> string \<Rightarrow> fs_store \<Rightarrow> impact_job option" where
  "fs_get_job t j s =
     (case dget (fs_jobs s) (doc_id t j) of
        None \<Rightarrow> None
      | Some job \<Rightarrow> if ij_tenant job \<noteq> t then None else Some job)"

definition fs_put_job :: "string \<Rightarrow> string \<Rightarrow> impact_job \<Rightarrow> fs_store \<Rightarrow> fs_store" where
  "fs_put_job t j job s = s\<lparr>fs_jobs := dset (doc_id t j) job (fs_jobs s)\<rparr>"

definition fs_put_batch :: "string \<Rightarrow> string \<Rightarrow> nat \<Rightarrow> batch_doc \<Rightarrow> fs_store \<Rightarrow> fs_store" where
  "fs_put_batch t j n d s =
     s\<lparr>fs_batches := dset (doc_id t j) (dset (batch_key n) d (fs_subcollection t j s)) (fs_batches s)\<rparr>"

definition to_batch :: "string \<Rightarrow> batch_doc option \<Rightarrow> batch_record option res" where
  "to_batch t d =
     (case d of
        None \<Rightarrow> Inr None
      | Some d \<Rightarrow> if br_tenant (bd_fields d) \<noteq> t then Inr None else rbind (decode_rows d) (\<lambda>b. Inr (Some b)))"

definition fs_get_batch :: "string \<Rightarrow> string \<Rightarrow> nat \<Rightarrow> fs_store \<Rightarrow> batch_record option res" where
  "fs_get_batch t j n s = to_batch t (dget (fs_subcollection t j s) (batch_key n))"

definition fs_create_job :: "impact_job \<Rightarrow> fs_store \<Rightarrow> fs_store \<times> store_reply res" where
  "fs_create_job job s =
     (case dget (fs_jobs s) (doc_id (ij_tenant job) (ij_job_id job)) of
        Some old \<Rightarrow> (s, Inr (JobReply (Some old)))
      | None \<Rightarrow> (fs_put_job (ij_tenant job) (ij_job_id job) job s, Inr (JobReply (Some job))))"

definition fs_update_job :: "string \<Rightarrow> string \<Rightarrow> job_update \<Rightarrow> fs_store \<Rightarrow> fs_store \<times> store_reply res" where
  "fs_update_job t j u s =
     (case fs_get_job t j s of
        None \<Rightarrow> (s, Inr (JobReply None))
      | Some job \<Rightarrow>
          (let s' = fs_put_job t j (apply_job_update u job) s in (s', Inr (JobReply (fs_get_job t j s')))))"

definition create_batch_doc ::
  "timestamp \<Rightarrow> string \<Rightarrow> string \<Rightarrow> string list \<Rightarrow> nat \<times> nat \<times> nat \<Rightarrow> (string, batch_doc) dict \<Rightarrow> (string, batch_doc) dict" where
  "create_batch_doc now t j existing spec sub =
     (let k = batch_key (fst spec) in
      if k \<in> set existing then sub
      else case dget sub k of None \<Rightarrow> dset k (encode_rows (new_batch now t j spec)) sub | Some _ \<Rightarrow> sub)"

definition fs_ensure_batches ::
  "string \<Rightarrow> string \<Rightarrow> (nat \<times> nat \<times> nat) list \<Rightarrow> timestamp \<Rightarrow> fs_store \<Rightarrow> fs_store \<times> store_reply res" where
  "fs_ensure_batches t j specs now s =
     (let sub = fs_subcollection t j s; existing = map fst sub in
      (s\<lparr>fs_batches := dset (doc_id t j) (fold (create_batch_doc now t j existing) specs sub) (fs_batches s)\<rparr>, Inr NoReply))"

definition fs_list_batches :: "string \<Rightarrow> string \<Rightarrow> fs_store \<Rightarrow> batch_record list res" where
  "fs_list_batches t j s =
     rbind (rmap_list (\<lambda>(k, d). to_batch t (Some d)) (fs_subcollection t j s)) (\<lambda>bs.
     Inr (sort_key br_batch_no (map the (filter (\<lambda>b. b \<noteq> None) bs))))"

definition fs_lease_batch ::
  "string \<Rightarrow> string \<Rightarrow> nat \<Rightarrow> string \<Rightarrow> int \<Rightarrow> int \<Rightarrow> timestamp \<Rightarrow> fs_store \<Rightarrow> fs_store \<times> store_reply res" where
  "fs_lease_batch t j n owner lease_seconds max_attempts now s =
     (case fs_get_job t j s of
        None \<Rightarrow> (s, Inr (LeaseReply NOT_FOUND None))
      | Some job \<Rightarrow>
          if ij_status job \<in> terminal_job_statuses \<or> ij_cancel_requested job then (s, Inr (LeaseReply JOB_CLOSED None))
          else
            (case fs_get_batch t j n s of
               Inl e \<Rightarrow> (s, Inl e)
             | Inr None \<Rightarrow> (s, Inr (LeaseReply NOT_FOUND None))
             | Inr (Some b) \<Rightarrow>
                 (let (outcome, b') = lease_decision b owner lease_seconds max_attempts now in
                  if outcome = ACQUIRED
                  then (case dget (fs_subcollection t j s) (batch_key n) of
                          None \<Rightarrow> (s, Inr (LeaseReply outcome (Some b')))
                        | Some d \<Rightarrow>
                            (fs_put_batch t j n (d\<lparr>bd_fields := (bd_fields d)\<lparr>br_state := br_state b',
                               br_attempts := br_attempts b', br_lease_owner := br_lease_owner b',
                               br_lease_expires_at := br_lease_expires_at b', br_updated_at := br_updated_at b'\<rparr>\<rparr>) s,
                             Inr (LeaseReply outcome (Some b'))))
                  else (s, Inr (LeaseReply outcome (Some b))))))"

text \<open>The update of a batch document: its row fields are written encoded.\<close>

definition apply_doc_update :: "timestamp \<Rightarrow> batch_state \<Rightarrow> batch_update \<Rightarrow> batch_doc \<Rightarrow> batch_doc" where
  "apply_doc_update now st u d =
     (let b = apply_batch_update now st u (bd_fields d) in
      case u of
        DurationOnly _ \<Rightarrow> d\<lparr>bd_fields := b\<rparr>
      | FullResult _ _ \<Rightarrow> encode_rows b)"

definition fs_complete_batch ::
  "string \<Rightarrow> string \<Rightarrow> nat \<Rightarrow> string \<Rightarrow> batch_update \<Rightarrow> batch_state \<Rightarrow> timestamp \<Rightarrow> fs_store \<Rightarrow> fs_store \<times> store_reply res" where
  "fs_complete_batch t j n owner u st now s =
     (case dget (fs_subcollection t j s) (batch_key n) of
        None \<Rightarrow> (s, Inr (Written False))
      | Some d \<Rightarrow>
          if br_tenant (bd_fields d) \<noteq> t \<or> br_state (bd_fields d) \<noteq> LEASED \<or> br_lease_owner (bd_fields d) \<noteq> Some owner
          then (s, Inr (Written False))
          else (fs_put_batch t j n (apply_doc_update now st u d) s, Inr (Written True)))"

definition fs_finalize_job ::
  "string \<Rightarrow> string \<Rightarrow> impact_status \<Rightarrow> impact_aggregate \<Rightarrow> timestamp \<Rightarrow> fs_store \<Rightarrow> fs_store \<times> store_reply res" where
  "fs_finalize_job t j st agg now s =
     (case fs_get_job t j s of
        None \<Rightarrow> (s, Inr (FinalizeReply None False))
      | Some job \<Rightarrow>
          if ij_finalized_at job \<noteq> None then (s, Inr (FinalizeReply (Some job) False))
          else (let job' = finalized st agg now job in (fs_put_job t j job' s, Inr (FinalizeReply (Some job') True))))"

definition fs_find_jobs :: "string \<Rightarrow> string \<Rightarrow> fs_store \<Rightarrow> impact_job list" where
  "fs_find_jobs t mission s =
     sort_key (\<lambda>j. - ij_created_at j)
       (map snd (take 20 (sort_key fst (filter (\<lambda>(k, job). ij_tenant job = t \<and> ij_mission_id job = mission) (fs_jobs s)))))"

fun fs_exec :: "store_op \<Rightarrow> fs_store \<Rightarrow> fs_store \<times> store_reply res" where
  "fs_exec (CreateJob job) s = fs_create_job job s"
| "fs_exec (GetJob t j) s = (s, Inr (JobReply (fs_get_job t j s)))"
| "fs_exec (UpdateJob t j u) s = fs_update_job t j u s"
| "fs_exec (EnsureBatches t j specs now) s = fs_ensure_batches t j specs now s"
| "fs_exec (GetBatch t j n) s = (s, rbind (fs_get_batch t j n s) (\<lambda>b. Inr (BatchReply b)))"
| "fs_exec (ListBatches t j) s = (s, rbind (fs_list_batches t j s) (\<lambda>bs. Inr (BatchesReply bs)))"
| "fs_exec (LeaseBatch t j n owner secs k now) s = fs_lease_batch t j n owner secs k now s"
| "fs_exec (CompleteBatch t j n owner u st now) s = fs_complete_batch t j n owner u st now s"
| "fs_exec (FinalizeJob t j st agg now) s = fs_finalize_job t j st agg now s"

section \<open>Histories\<close>

fun run_store :: "(store_op \<Rightarrow> 's \<Rightarrow> 's \<times> 'r) \<Rightarrow> store_op list \<Rightarrow> 's \<Rightarrow> 's \<times> 'r list" where
  "run_store exec [] s = (s, [])"
| "run_store exec (op # ops) s =
     (let (s', r) = exec op s; (s'', rs) = run_store exec ops s' in (s'', r # rs))"

end
