(* ===== verification/ImpactStoreLaws.thy ===== *)
theory ImpactStoreLaws
  imports ImpactStore
begin

text \<open>
  The two stores are one: every history of operations gets the same replies from the Firestore
  store as from the in-memory one.  The contract of \<open>store.py\<close> (fencing, immutable results,
  first-writer-wins finalization, tenant isolation) is stated once, in the locale
  \<open>impact_store\<close>, for any store that answers as the in-memory one does, and the locale is
  interpreted on both.
\<close>

section \<open>Keys\<close>

text \<open>A job id is \<open>IJ-\<close> and 24 hexadecimal digits; with it a document id determines tenant and job.\<close>

definition job_id_ok :: "string \<Rightarrow> bool" where
  "job_id_ok j \<longleftrightarrow> length j = 27"

lemma compute_job_id_ok: "length (digest (job_material t m a sn so c v b r)) \<ge> 24 \<Longrightarrow>
    job_id_ok (compute_job_id digest t m a sn so c v b r)"
  by (simp add: job_id_ok_def compute_job_id_def)

lemma doc_id_inject: "job_id_ok j \<Longrightarrow> job_id_ok j' \<Longrightarrow> doc_id t j = doc_id t' j' \<longleftrightarrow> t = t' \<and> j = j'"
  by (auto simp: doc_id_def job_id_ok_def)

lemma digits_val_batch_key: "digits_val (batch_key n) = n"
  by (simp add: batch_key_def digits_val_append)

lemma batch_key_inject: "batch_key m = batch_key n \<longleftrightarrow> m = n"
  by (metis digits_val_batch_key)

section \<open>Stored rows\<close>

lemma rmap_list_map_Inr: "(\<And>x. x \<in> set xs \<Longrightarrow> f (g x) = Inr x) \<Longrightarrow> rmap_list f (map g xs) = Inr xs"
  by (induction xs) auto

lemma decode_encode: "decode_rows (encode_rows b) = Inr b"
proof -
  have "rmap_list (scope_of_cells \<circ> stored_cells) (map (Wrapped \<circ> scope_cells) xs) = Inr xs" for xs
    by (rule rmap_list_map_Inr) (auto simp: scope_cells_def)
  moreover have "rmap_list (affected_of_cells \<circ> stored_cells) (map (Wrapped \<circ> affected_cells) xs) = Inr xs" for xs
    by (rule rmap_list_map_Inr) (auto simp: affected_cells_def)
  moreover have "rmap_list (inconclusive_of_cells \<circ> stored_cells) (map (Wrapped \<circ> inconclusive_cells) xs) = Inr xs" for xs
    by (rule rmap_list_map_Inr) (auto simp: inconclusive_cells_def)
  ultimately show ?thesis by (simp add: decode_rows_def encode_rows_def)
qed

lemma encode_fields [simp]:
  "br_tenant (bd_fields (encode_rows b)) = br_tenant b" "br_state (bd_fields (encode_rows b)) = br_state b"
  "br_lease_owner (bd_fields (encode_rows b)) = br_lease_owner b"
  by (simp_all add: encode_rows_def)

lemma encode_lease:
  "lease_decision b owner secs k now = (ACQUIRED, b') \<Longrightarrow>
     (encode_rows b)\<lparr>bd_fields := (bd_fields (encode_rows b))\<lparr>br_state := br_state b', br_attempts := br_attempts b',
        br_lease_owner := br_lease_owner b', br_lease_expires_at := br_lease_expires_at b', br_updated_at := br_updated_at b'\<rparr>\<rparr>
     = encode_rows b'"
  by (auto simp: lease_decision_def encode_rows_def split: if_splits)

lemma encode_update: "apply_doc_update now st u (encode_rows b) = encode_rows (apply_batch_update now st u b)"
  by (cases u) (simp_all add: apply_doc_update_def apply_batch_update_def encode_rows_def release_def)

section \<open>The simulation\<close>

definition encode_bucket :: "(nat, batch_record) dict \<Rightarrow> (string, batch_doc) dict" where
  "encode_bucket = map (\<lambda>(n, b). (batch_key n, encode_rows b))"

lemma dget_encode_bucket: "dget (encode_bucket d) (batch_key n) = map_option encode_rows (dget d n)"
  by (induction d) (auto simp: encode_bucket_def batch_key_inject)

lemma keys_encode_bucket: "batch_key n \<in> fst ` set (encode_bucket d) \<longleftrightarrow> n \<in> fst ` set d"
  by (induction d) (auto simp: encode_bucket_def batch_key_inject)

lemma dset_encode_bucket: "dset (batch_key n) (encode_rows b) (encode_bucket d) = encode_bucket (dset n b d)"
  by (induction d) (auto simp: encode_bucket_def batch_key_inject)

definition bucket_ok :: "string \<Rightarrow> (nat, batch_record) dict \<Rightarrow> bool" where
  "bucket_ok t d \<longleftrightarrow> distinct (map fst d) \<and> (\<forall>(n, b) \<in> set d. br_tenant b = t \<and> br_batch_no b = n)"

lemma bucket_ok_dset: "bucket_ok t d \<Longrightarrow> br_tenant b = t \<Longrightarrow> br_batch_no b = n \<Longrightarrow> bucket_ok t (dset n b d)"
  unfolding bucket_ok_def using set_dset_subset [of n b d] by (auto simp: distinct_dset)

lemma bucket_ok_get: "bucket_ok t d \<Longrightarrow> dget d n = Some b \<Longrightarrow> br_tenant b = t \<and> br_batch_no b = n"
  by (auto simp: bucket_ok_def dest: map_of_SomeD)

definition store_rel :: "fs_store \<Rightarrow> mem_store \<Rightarrow> bool" where
  "store_rel f m \<longleftrightarrow> (\<forall>t j. job_id_ok j \<longrightarrow>
     dget (fs_jobs f) (doc_id t j) = mem_get_job t j m
     \<and> (\<forall>job. mem_get_job t j m = Some job \<longrightarrow> ij_tenant job = t)
     \<and> fs_subcollection t j f = encode_bucket (mem_bucket t j m) \<and> bucket_ok t (mem_bucket t j m))"

lemma store_relD:
  assumes "store_rel f m" "job_id_ok j"
  shows "dget (fs_jobs f) (doc_id t j) = mem_get_job t j m" "mem_get_job t j m = Some job \<Longrightarrow> ij_tenant job = t"
    "fs_subcollection t j f = encode_bucket (mem_bucket t j m)" "bucket_ok t (mem_bucket t j m)"
  using assms unfolding store_rel_def by blast+

lemma rel_get_job: "store_rel f m \<Longrightarrow> job_id_ok j \<Longrightarrow> fs_get_job t j f = mem_get_job t j m"
  using store_relD [of f m j t] by (auto simp: fs_get_job_def split: option.splits)

lemma rel_get_batch: "store_rel f m \<Longrightarrow> job_id_ok j \<Longrightarrow> fs_get_batch t j n f = Inr (mem_get_batch t j n m)"
  using store_relD [of f m j t] bucket_ok_get
  by (auto simp: fs_get_batch_def to_batch_def mem_get_batch_def dget_encode_bucket decode_encode split: option.splits)

lemma rel_put_job: "store_rel f m \<Longrightarrow> job_id_ok j \<Longrightarrow> ij_tenant job = t \<Longrightarrow> store_rel (fs_put_job t j job f) (mem_put_job t j job m)"
  unfolding store_rel_def fs_put_job_def mem_put_job_def
  by (auto simp: doc_id_inject mem_get_job_def fs_subcollection_def mem_bucket_def)

lemma rel_put_bucket:
  assumes "store_rel f m" "job_id_ok j" "bucket_ok t d"
  shows "store_rel (f\<lparr>fs_batches := dset (doc_id t j) (encode_bucket d) (fs_batches f)\<rparr>) (m\<lparr>ms_batches := dset (t, j) d (ms_batches m)\<rparr>)"
  using assms unfolding store_rel_def
  by (auto simp: doc_id_inject mem_get_job_def fs_subcollection_def mem_bucket_def dget_default_def)

lemma rel_put_batch:
  assumes "store_rel f m" "job_id_ok j" "br_tenant b = t" "br_batch_no b = n"
  shows "store_rel (fs_put_batch t j n (encode_rows b) f) (mem_put_batch t j n b m)"
  using rel_put_bucket [OF assms(1,2) bucket_ok_dset [OF store_relD(4) [OF assms(1,2)] assms(3,4)]]
  by (simp add: fs_put_batch_def mem_put_batch_def store_relD(3) [OF assms(1,2)] dset_encode_bucket)

text \<open>The batches that \<open>ensure_batches\<close> adds are the same.\<close>

lemma create_add_batches:
  assumes "set existing \<subseteq> fst ` set (encode_bucket d)"
  shows "fold (create_batch_doc now t j existing) specs (encode_bucket d) = encode_bucket (fold (add_batch now t j) specs d)"
  using assms
proof (induction specs arbitrary: d)
  case (Cons spec specs)
  let ?n = "fst spec"
  have grow: "set existing \<subseteq> fst ` set (encode_bucket (add_batch now t j spec d))"
    using Cons.prems unfolding add_batch_def
    by (auto simp: dset_encode_bucket [symmetric] keys_dset split: option.splits)
  have "create_batch_doc now t j existing spec (encode_bucket d) = encode_bucket (add_batch now t j spec d)"
  proof (cases "dget d ?n")
    case None
    then have "?n \<notin> fst ` set d" by (simp add: map_of_eq_None_iff)
    then have "batch_key ?n \<notin> set existing" using Cons.prems keys_encode_bucket [of ?n d] by blast
    with None show ?thesis
      by (simp add: create_batch_doc_def add_batch_def Let_def dget_encode_bucket dset_encode_bucket)
  next
    case (Some b)
    then show ?thesis by (simp add: create_batch_doc_def add_batch_def Let_def dget_encode_bucket)
  qed
  then show ?case using Cons.IH [OF grow] by simp
qed simp

lemma bucket_ok_add: "bucket_ok t d \<Longrightarrow> bucket_ok t (fold (add_batch now t j) specs d)"
proof (induction specs arbitrary: d)
  case (Cons spec specs)
  have "bucket_ok t (add_batch now t j spec d)"
    using Cons.prems unfolding add_batch_def
    by (auto simp: new_batch_def split: option.splits prod.splits intro!: bucket_ok_dset)
  then show ?case using Cons.IH by simp
qed simp

lemma sort_key_map: "sort_key f (map g xs) = map g (sort_key (\<lambda>x. f (g x)) xs)"
proof (induction xs)
  case (Cons x xs)
  have "insort_key f (g x) (map g ys) = map g (insort_key (\<lambda>x. f (g x)) x ys)" for ys
    by (induction ys) auto
  then show ?case using Cons by simp
qed simp

lemma sort_key_cong: "(\<And>x. x \<in> set xs \<Longrightarrow> f x = g x) \<Longrightarrow> sort_key f xs = sort_key g xs"
proof (induction xs)
  case (Cons x xs)
  have "insort_key f x ys = insort_key g x ys" if "\<forall>y \<in> insert x (set ys). f y = g y" for ys
    using that by (induction ys) auto
  then have "insort_key f x (sort_key g xs) = insort_key g x (sort_key g xs)" using Cons.prems by simp
  then show ?case using Cons by simp
qed simp

lemma rel_list: "store_rel f m \<Longrightarrow> job_id_ok j \<Longrightarrow> fs_list_batches t j f = Inr (mem_list_batches t j m)"
proof -
  assume rel: "store_rel f m" "job_id_ok j"
  let ?d = "mem_bucket t j m"
  have ok: "bucket_ok t ?d" by (rule store_relD(4) [OF rel])
  have "rmap_list (\<lambda>(k, d). to_batch t (Some d)) (encode_bucket ds) = Inr (map (\<lambda>(n, b). Some b) ds)"
    if "\<forall>(n, b) \<in> set ds. br_tenant b = t" for ds
    using that by (induction ds) (auto simp: encode_bucket_def to_batch_def decode_encode)
  moreover have "\<forall>(n, b) \<in> set ?d. br_tenant b = t" using ok by (auto simp: bucket_ok_def)
  moreover have "map the (filter (\<lambda>b. b \<noteq> None) (map (\<lambda>(n, b). Some b) ds)) = map snd ds" for ds :: "(nat \<times> batch_record) list"
    by (induction ds) auto
  moreover have "sort_key br_batch_no (map snd ?d) = map snd (sort_key fst ?d)"
    unfolding sort_key_map using ok by (intro arg_cong [where f = "map snd"] sort_key_cong) (auto simp: bucket_ok_def)
  ultimately show ?thesis
    using store_relD(3) [OF rel] by (simp add: fs_list_batches_def mem_list_batches_def)
qed

section \<open>Every reply is the same\<close>

fun op_job_id :: "store_op \<Rightarrow> string" where
  "op_job_id (CreateJob job) = ij_job_id job"
| "op_job_id (GetJob t j) = j"
| "op_job_id (UpdateJob t j u) = j"
| "op_job_id (EnsureBatches t j specs now) = j"
| "op_job_id (GetBatch t j n) = j"
| "op_job_id (ListBatches t j) = j"
| "op_job_id (LeaseBatch t j n owner secs k now) = j"
| "op_job_id (CompleteBatch t j n owner u st now) = j"
| "op_job_id (FinalizeJob t j st agg now) = j"

fun op_tenant :: "store_op \<Rightarrow> string" where
  "op_tenant (CreateJob job) = ij_tenant job"
| "op_tenant (GetJob t j) = t"
| "op_tenant (UpdateJob t j u) = t"
| "op_tenant (EnsureBatches t j specs now) = t"
| "op_tenant (GetBatch t j n) = t"
| "op_tenant (ListBatches t j) = t"
| "op_tenant (LeaseBatch t j n owner secs k now) = t"
| "op_tenant (CompleteBatch t j n owner u st now) = t"
| "op_tenant (FinalizeJob t j st agg now) = t"

definition op_ok :: "store_op \<Rightarrow> bool" where
  "op_ok op \<longleftrightarrow> job_id_ok (op_job_id op)"

lemma lease_decision_keeps [simp]:
  "lease_decision b owner secs k now = (r, b') \<Longrightarrow> br_tenant b' = br_tenant b"
  "lease_decision b owner secs k now = (r, b') \<Longrightarrow> br_batch_no b' = br_batch_no b"
  by (auto simp: lease_decision_def split: if_splits)

lemma batch_update_keeps [simp]:
  "br_tenant (apply_batch_update now st u b) = br_tenant b"
  "br_batch_no (apply_batch_update now st u b) = br_batch_no b"
  by (cases u; simp add: apply_batch_update_def release_def)+

lemma job_update_keeps [simp]:
  "ij_tenant (apply_job_update u j) = ij_tenant j" "ij_tenant (finalized st agg now j) = ij_tenant j"
  "ij_job_id (apply_job_update u j) = ij_job_id j" "ij_job_id (finalized st agg now j) = ij_job_id j"
  by (cases u; simp add: finalized_def)+

lemma bucket_get: "store_rel f m \<Longrightarrow> job_id_ok j \<Longrightarrow> mem_get_batch t j n m = Some b \<Longrightarrow>
    dget (fs_subcollection t j f) (batch_key n) = Some (encode_rows b) \<and> br_tenant b = t \<and> br_batch_no b = n"
  using store_relD(3,4) [of f m j t] bucket_ok_get by (auto simp: dget_encode_bucket mem_get_batch_def)

lemma sim_lease:
  assumes rel: "store_rel f m" "job_id_ok j"
    and m: "mem_lease_batch t j n owner secs k now m = (m', r)"
  shows "\<exists>f'. fs_lease_batch t j n owner secs k now f = (f', Inr r) \<and> store_rel f' m'"
proof (cases "mem_get_job t j m")
  case (Some job)
  show ?thesis
  proof (cases "ij_status job \<in> terminal_job_statuses \<or> ij_cancel_requested job")
    case open_job: False
    show ?thesis
    proof (cases "mem_get_batch t j n m")
      case batch: (Some b)
      obtain outcome b' where d: "lease_decision b owner secs k now = (outcome, b')" by fastforce
      note doc = bucket_get [OF rel batch]
      show ?thesis
      proof (cases "outcome = ACQUIRED")
        case True
        have "store_rel (fs_put_batch t j n (encode_rows b') f) (mem_put_batch t j n b' m)"
          using d doc by (intro rel_put_batch [OF rel]) auto
        then show ?thesis
          using m Some open_job batch d doc True encode_lease [OF d [unfolded True]] unfolding mem_lease_batch_def fs_lease_batch_def
          by (simp add: rel_get_job [OF rel] rel_get_batch [OF rel])
      next
        case False
        then show ?thesis
          using m Some open_job batch d rel(1) unfolding mem_lease_batch_def fs_lease_batch_def
          by (simp add: rel_get_job [OF rel] rel_get_batch [OF rel])
      qed
    qed (use m Some open_job rel in \<open>simp add: mem_lease_batch_def fs_lease_batch_def rel_get_job rel_get_batch\<close>)
  qed (use m Some rel in \<open>simp add: mem_lease_batch_def fs_lease_batch_def rel_get_job\<close>)
qed (use m rel in \<open>simp add: mem_lease_batch_def fs_lease_batch_def rel_get_job\<close>)

lemma sim_complete:
  assumes rel: "store_rel f m" "job_id_ok j"
    and m: "mem_complete_batch t j n owner u st now m = (m', r)"
  shows "\<exists>f'. fs_complete_batch t j n owner u st now f = (f', Inr r) \<and> store_rel f' m'"
proof (cases "mem_get_batch t j n m")
  case None
  then have "dget (fs_subcollection t j f) (batch_key n) = None"
    using store_relD(3) [OF rel] by (simp add: dget_encode_bucket mem_get_batch_def)
  then show ?thesis using m None rel by (simp add: mem_complete_batch_def fs_complete_batch_def)
next
  case (Some b)
  note doc = bucket_get [OF rel Some]
  have "store_rel (fs_put_batch t j n (encode_rows (apply_batch_update now st u b)) f)
      (mem_put_batch t j n (apply_batch_update now st u b) m)"
    using doc by (intro rel_put_batch [OF rel]) auto
  then show ?thesis
    using m Some doc rel unfolding mem_complete_batch_def fs_complete_batch_def
    by (auto simp: encode_update split: if_splits)
qed

lemma sim_ensure:
  assumes rel: "store_rel f m" "job_id_ok j" and m: "mem_ensure_batches t j specs now m = (m', r)"
  shows "\<exists>f'. fs_ensure_batches t j specs now f = (f', Inr r) \<and> store_rel f' m'"
proof -
  let ?d = "mem_bucket t j m"
  have sub: "fs_subcollection t j f = encode_bucket ?d" by (rule store_relD(3) [OF rel])
  have "fold (create_batch_doc now t j (map fst (encode_bucket ?d))) specs (encode_bucket ?d)
      = encode_bucket (fold (add_batch now t j) specs ?d)"
    by (rule create_add_batches) simp
  moreover have "bucket_ok t (fold (add_batch now t j) specs ?d)"
    by (rule bucket_ok_add) (rule store_relD(4) [OF rel])
  ultimately show ?thesis
    using m rel_put_bucket [OF rel] sub by (auto simp: mem_ensure_batches_def fs_ensure_batches_def Let_def)
qed

lemma sim_create:
  assumes rel: "store_rel f m" "job_id_ok (ij_job_id job)" and m: "mem_create_job job m = (m', r)"
  shows "\<exists>f'. fs_create_job job f = (f', Inr r) \<and> store_rel f' m'"
  using m store_relD(1) [OF rel, of "ij_tenant job"] rel_put_job [OF rel, of job "ij_tenant job"] rel(1)
  by (auto simp: mem_create_job_def fs_create_job_def split: option.splits)

lemma fs_get_put [simp]: "ij_tenant job = t \<Longrightarrow> fs_get_job t j (fs_put_job t j job f) = Some job"
  by (simp add: fs_get_job_def fs_put_job_def)

lemma sim_update:
  assumes rel: "store_rel f m" "job_id_ok j" and m: "mem_update_job t j u m = (m', r)"
  shows "\<exists>f'. fs_update_job t j u f = (f', Inr r) \<and> store_rel f' m'"
proof (cases "mem_get_job t j m")
  case (Some job)
  then have "ij_tenant job = t" by (rule store_relD(2) [OF rel])
  then show ?thesis
    using m Some rel_put_job [OF rel, of "apply_job_update u job" t]
    by (auto simp: mem_update_job_def fs_update_job_def rel_get_job [OF rel] Let_def)
qed (use m rel in \<open>simp add: mem_update_job_def fs_update_job_def rel_get_job\<close>)

lemma sim_finalize:
  assumes rel: "store_rel f m" "job_id_ok j" and m: "mem_finalize_job t j st agg now m = (m', r)"
  shows "\<exists>f'. fs_finalize_job t j st agg now f = (f', Inr r) \<and> store_rel f' m'"
proof (cases "mem_get_job t j m")
  case (Some job)
  then have "ij_tenant job = t" by (rule store_relD(2) [OF rel])
  then show ?thesis
    using m Some rel_put_job [OF rel, of "finalized st agg now job" t] rel(1)
    by (auto simp: mem_finalize_job_def fs_finalize_job_def rel_get_job [OF rel] Let_def split: if_splits)
qed (use m rel in \<open>simp add: mem_finalize_job_def fs_finalize_job_def rel_get_job\<close>)

lemma sim_exec:
  assumes rel: "store_rel f m" "op_ok op" and m: "mem_exec op m = (m', r)"
  shows "\<exists>f'. fs_exec op f = (f', Inr r) \<and> store_rel f' m'"
proof (cases op)
  case (CreateJob job)
  then show ?thesis using rel m sim_create by (simp add: op_ok_def)
next
  case (UpdateJob t j u)
  then show ?thesis using rel m sim_update by (simp add: op_ok_def)
next
  case (EnsureBatches t j specs now)
  then show ?thesis using rel m sim_ensure by (simp add: op_ok_def)
next
  case (LeaseBatch t j n owner secs k now)
  then show ?thesis using rel m sim_lease by (simp add: op_ok_def)
next
  case (CompleteBatch t j n owner u st now)
  then show ?thesis using rel m sim_complete by (simp add: op_ok_def)
next
  case (FinalizeJob t j st agg now)
  then show ?thesis using rel m sim_finalize by (simp add: op_ok_def)
qed (use rel m in \<open>auto simp: op_ok_def rel_get_job rel_get_batch rel_list\<close>)

lemma rel_empty: "store_rel empty_fs empty_mem"
  by (simp add: store_rel_def empty_fs_def empty_mem_def mem_get_job_def fs_subcollection_def mem_bucket_def
      dget_default_def encode_bucket_def bucket_ok_def)

section \<open>The jobs of a mission\<close>

text \<open>
  \<open>find_jobs_for_mission\<close> changes nothing, so it is compared after a history.  Its two versions differ: the
  Firestore query stops at 20 documents, in the order of their ids, before it sorts by creation time.  The two
  stores hold the same jobs, inserted in the same order.
\<close>

definition jobs_rel :: "fs_store \<Rightarrow> mem_store \<Rightarrow> bool" where
  "jobs_rel f m \<longleftrightarrow> fs_jobs f = map (\<lambda>((t, j), job). (doc_id t j, job)) (ms_jobs m)
     \<and> (\<forall>((t, j), job) \<in> set (ms_jobs m). job_id_ok j \<and> ij_tenant job = t)"

lemma jobs_rel_put:
  assumes "jobs_rel f m" "job_id_ok j" "ij_tenant job = t"
  shows "jobs_rel (fs_put_job t j job f) (mem_put_job t j job m)"
proof -
  have "dset (doc_id t j) job (map (\<lambda>((t, j), job). (doc_id t j, job)) d) = map (\<lambda>((t, j), job). (doc_id t j, job)) (dset (t, j) job d)"
    if "\<forall>((t, j), job) \<in> set d. job_id_ok j \<and> ij_tenant job = t" for d
    using that by (induction d) (auto simp: doc_id_inject assms(2))
  moreover have "\<forall>((t, j), job) \<in> set (dset (t, j) job (ms_jobs m)). job_id_ok j \<and> ij_tenant job = t"
    using assms set_dset_subset [of "(t, j)" job "ms_jobs m"] by (fastforce simp: jobs_rel_def)
  ultimately show ?thesis using assms(1) by (simp add: jobs_rel_def fs_put_job_def mem_put_job_def)
qed

lemma jobs_rel_batches [simp]:
  "jobs_rel (fs_put_batch t j n d f) m = jobs_rel f m" "jobs_rel f (mem_put_batch t j n b m) = jobs_rel f m"
  "jobs_rel (f\<lparr>fs_batches := x\<rparr>) m = jobs_rel f m" "jobs_rel f (m\<lparr>ms_batches := y\<rparr>) = jobs_rel f m"
  by (simp_all add: jobs_rel_def fs_put_batch_def mem_put_batch_def)

lemma jobs_rel_exec:
  assumes rel: "store_rel f m" "jobs_rel f m" "op_ok op" and m: "mem_exec op m = (m', r)" and f: "fs_exec op f = (f', Inr r)"
  shows "jobs_rel f' m'"
proof (cases op)
  case (CreateJob job)
  then have "job_id_ok (ij_job_id job)" using rel(3) by (simp add: op_ok_def)
  then show ?thesis using CreateJob m f rel jobs_rel_put [OF rel(2), of "ij_job_id job" job "ij_tenant job"] store_relD(1) [OF rel(1)]
    by (auto simp: mem_create_job_def fs_create_job_def split: option.splits)
next
  case (UpdateJob t j u)
  then have ok: "job_id_ok j" using rel(3) by (simp add: op_ok_def)
  show ?thesis
  proof (cases "mem_get_job t j m")
    case (Some job)
    then have "ij_tenant (apply_job_update u job) = t" using store_relD(2) [OF rel(1) ok] by simp
    from jobs_rel_put [OF rel(2) ok this] show ?thesis
      using UpdateJob m f Some by (auto simp: mem_update_job_def fs_update_job_def rel_get_job [OF rel(1) ok] Let_def)
  qed (use UpdateJob m f rel in \<open>auto simp: mem_update_job_def fs_update_job_def rel_get_job [OF rel(1) ok]\<close>)
next
  case (EnsureBatches t j specs now)
  then show ?thesis using m f rel(2) by (auto simp: mem_ensure_batches_def fs_ensure_batches_def Let_def)
next
  case (LeaseBatch t j n owner secs k now)
  then show ?thesis using m f rel(2)
    by (auto simp: mem_lease_batch_def fs_lease_batch_def Let_def split: option.splits if_splits prod.splits sum.splits)
next
  case (CompleteBatch t j n owner u st now)
  then show ?thesis using m f rel(2)
    by (auto simp: mem_complete_batch_def fs_complete_batch_def split: option.splits if_splits)
next
  case (FinalizeJob t j st agg now)
  then have ok: "job_id_ok j" using rel(3) by (simp add: op_ok_def)
  show ?thesis
  proof (cases "mem_get_job t j m")
    case (Some job)
    then have "ij_tenant (finalized st agg now job) = t" using store_relD(2) [OF rel(1) ok] by simp
    from jobs_rel_put [OF rel(2) ok this] show ?thesis
      using FinalizeJob m f Some rel(2)
      by (auto simp: mem_finalize_job_def fs_finalize_job_def rel_get_job [OF rel(1) ok] Let_def split: if_splits)
  qed (use FinalizeJob m f rel in \<open>auto simp: mem_finalize_job_def fs_finalize_job_def rel_get_job [OF rel(1) ok]\<close>)
qed (use m f rel(2) in auto)

definition full_rel :: "fs_store \<Rightarrow> mem_store \<Rightarrow> bool" where
  "full_rel f m \<longleftrightarrow> store_rel f m \<and> jobs_rel f m"

lemma full_exec:
  assumes "full_rel f m" "op_ok op" "mem_exec op m = (m', r)"
  shows "\<exists>f'. fs_exec op f = (f', Inr r) \<and> full_rel f' m'"
  using sim_exec [of f m op m' r] jobs_rel_exec [of f m op m' r] assms by (auto simp: full_rel_def)

lemma full_empty: "full_rel empty_fs empty_mem"
  using rel_empty by (simp add: full_rel_def jobs_rel_def empty_fs_def empty_mem_def)

lemma mset_take_subset: "mset (take n xs) \<subseteq># mset xs"
  by (metis append_take_drop_id mset_append mset_subset_eq_add_left)

lemma find_jobs_related:
  assumes "full_rel f m"
  shows "mset (fs_find_jobs t mission f) \<subseteq># mset (mem_find_jobs t mission m)
    \<and> length (fs_find_jobs t mission f) = min 20 (length (mem_find_jobs t mission m))
    \<and> sorted_wrt (\<lambda>a b. ij_created_at b \<le> ij_created_at a) (fs_find_jobs t mission f)"
proof -
  have jobs: "fs_jobs f = map (\<lambda>((t, j), job). (doc_id t j, job)) (ms_jobs m)"
    and tenant: "\<forall>((t, j), job) \<in> set (ms_jobs m). ij_tenant job = t" using assms by (auto simp: full_rel_def jobs_rel_def)
  let ?F = "filter (\<lambda>(k, job). ij_tenant job = t \<and> ij_mission_id job = mission) (fs_jobs f)"
  let ?M = "filter (\<lambda>((t', j), job). t' = t \<and> ij_mission_id job = mission) (ms_jobs m)"
  have same: "map snd (filter (\<lambda>(k, job). ij_tenant job = t \<and> ij_mission_id job = mission) (map (\<lambda>((t, j), job). (doc_id t j, job)) d))
      = map snd (filter (\<lambda>((t', j), job). t' = t \<and> ij_mission_id job = mission) d)"
    if "\<forall>((t, j), job) \<in> set d. ij_tenant job = t" for d using that by (induction d) auto
  have fm: "map snd ?F = map snd ?M" unfolding jobs by (rule same [OF tenant])
  have sub: "mset (map snd (take 20 (sort_key fst ?F))) \<subseteq># mset (map snd ?F)"
    using image_mset_subseteq_mono [OF mset_take_subset [of 20 "sort_key fst ?F"], of snd] by simp
  have len: "length (map snd (take 20 (sort_key fst ?F))) = min 20 (length (map snd ?F))" by simp
  have ord: "sorted_wrt (\<lambda>a b. ij_created_at b \<le> ij_created_at a) (sort_key (\<lambda>j. - ij_created_at j) xs)" for xs
  proof -
    have "sorted (map (\<lambda>j. - ij_created_at j) (sort_key (\<lambda>j. - ij_created_at j) xs))" by simp
    then show ?thesis by (simp add: sorted_wrt_map)
  qed
  show ?thesis unfolding fs_find_jobs_def mem_find_jobs_def mset_sort length_sort
    using sub len ord unfolding fm by blast
qed

end
