(* ===== verification/ImpactContract.thy ===== *)
theory ImpactContract
  imports ImpactStoreLaws
begin

text \<open>
  The contract of the checkpoint store, over histories: what the docstring of \<open>store.py\<close>
  promises, as facts about the replies a history gets.  \<open>holder\<close> is the abstract
  specification of the lease: who may write a batch's result is decided by the history alone.
\<close>

type_synonym history = "(store_op \<times> store_reply res) list"

section \<open>The lease, read off a history\<close>

fun acquires :: "string \<Rightarrow> string \<Rightarrow> nat \<Rightarrow> store_op \<times> store_reply res \<Rightarrow> string option" where
  "acquires t j n (LeaseBatch t' j' n' owner secs k now, Inr (LeaseReply outcome b)) =
     (if t' = t \<and> j' = j \<and> n' = n \<and> outcome = ACQUIRED then Some owner else None)"
| "acquires t j n _ = None"

fun completes :: "string \<Rightarrow> string \<Rightarrow> nat \<Rightarrow> store_op \<times> store_reply res \<Rightarrow> bool" where
  "completes t j n (CompleteBatch t' j' n' owner u st now, Inr (Written w)) \<longleftrightarrow> t' = t \<and> j' = j \<and> n' = n \<and> w"
| "completes t j n _ \<longleftrightarrow> False"

text \<open>The last to acquire the lease holds it until it completes the batch.\<close>

fun holds :: "string \<Rightarrow> string \<Rightarrow> nat \<Rightarrow> store_op \<times> store_reply res \<Rightarrow> string option \<Rightarrow> string option" where
  "holds t j n e h = (case acquires t j n e of Some owner \<Rightarrow> Some owner | None \<Rightarrow> if completes t j n e then None else h)"

definition holder :: "string \<Rightarrow> string \<Rightarrow> nat \<Rightarrow> history \<Rightarrow> string option" where
  "holder t j n hist = fold (holds t j n) hist None"

definition acquisitions :: "string \<Rightarrow> string \<Rightarrow> nat \<Rightarrow> history \<Rightarrow> nat" where
  "acquisitions t j n hist = length (filter (\<lambda>e. acquires t j n e \<noteq> None) hist)"

definition completions :: "string \<Rightarrow> string \<Rightarrow> nat \<Rightarrow> history \<Rightarrow> nat" where
  "completions t j n hist = length (filter (completes t j n) hist)"

definition history_of :: "(store_op \<Rightarrow> 's \<Rightarrow> 's \<times> store_reply res) \<Rightarrow> store_op list \<Rightarrow> 's \<Rightarrow> history" where
  "history_of exec ops s = zip ops (snd (run_store exec ops s))"

lemma run_store_fst: "exec op s = (s', r) \<Longrightarrow> fst (run_store exec (op # ops) s) = fst (run_store exec ops s')"
  by (auto split: prod.splits)

lemma history_Cons:
  "exec op s = (s', r) \<Longrightarrow> history_of exec (op # ops) s = (op, r) # history_of exec ops s'"
  by (auto simp: history_of_def split: prod.splits)

text \<open>The in-memory store with the Firestore store's reply type.\<close>

definition mem_exec_res :: "store_op \<Rightarrow> mem_store \<Rightarrow> mem_store \<times> store_reply res" where
  "mem_exec_res op s = (let (s', r) = mem_exec op s in (s', Inr r))"

section \<open>Steps of the in-memory store\<close>

lemma mem_get_put_job [simp]:
  "mem_get_job t j (mem_put_job t' j' job s) = (if t' = t \<and> j' = j then Some job else mem_get_job t j s)"
  "mem_get_batch t j n (mem_put_job t' j' job s) = mem_get_batch t j n s"
  by (auto simp: mem_get_job_def mem_put_job_def mem_get_batch_def mem_bucket_def)

lemma mem_get_put_batch [simp]:
  "mem_get_batch t j n (mem_put_batch t' j' n' b s) = (if t' = t \<and> j' = j \<and> n' = n then Some b else mem_get_batch t j n s)"
  "mem_get_job t j (mem_put_batch t' j' n' b s) = mem_get_job t j s"
  by (auto simp: mem_get_job_def mem_put_batch_def mem_get_batch_def mem_bucket_def dget_default_def)

lemma add_batches_get:
  "dget (fold (add_batch now t j) specs d) n =
     (case dget d n of Some b \<Rightarrow> Some b
      | None \<Rightarrow> map_option (new_batch now t j) (find (\<lambda>spec. fst spec = n) specs))"
proof (induction specs arbitrary: d)
  case (Cons spec specs)
  show ?case
    unfolding fold.simps comp_def Cons.IH by (auto simp: add_batch_def split: option.splits)
qed (simp split: option.splits)

lemma mem_ensure_get:
  "mem_ensure_batches t j specs now s = (s', r) \<Longrightarrow>
     mem_get_batch t' j' n s' =
       (if t' = t \<and> j' = j then (case mem_get_batch t j n s of Some b \<Rightarrow> Some b
          | None \<Rightarrow> map_option (new_batch now t j) (find (\<lambda>spec. fst spec = n) specs))
        else mem_get_batch t' j' n s)
     \<and> mem_get_job t' j' s' = mem_get_job t' j' s"
  by (auto simp: mem_ensure_batches_def mem_get_batch_def mem_bucket_def mem_get_job_def dget_default_def add_batches_get
      split: option.splits)

text \<open>What one operation does to one batch.\<close>

inductive batch_step :: "string \<Rightarrow> string \<Rightarrow> nat \<Rightarrow> store_op \<Rightarrow> store_reply \<Rightarrow> batch_record option \<Rightarrow> batch_record option \<Rightarrow> bool"
  for t j n where
  other: "acquires t j n (op, Inr r) = None \<Longrightarrow> \<not> completes t j n (op, Inr r) \<Longrightarrow> batch_step t j n op r b b"
| added: "acquires t j n (op, Inr r) = None \<Longrightarrow> \<not> completes t j n (op, Inr r) \<Longrightarrow>
    br_state b = PENDING \<Longrightarrow> br_attempts b = 0 \<Longrightarrow> batch_step t j n op r None (Some b)"
| lease: "lease_decision b owner secs k now = (ACQUIRED, b') \<Longrightarrow>
    batch_step t j n (LeaseBatch t j n owner secs k now) (LeaseReply ACQUIRED (Some b')) (Some b) (Some b')"
| complete: "br_state b = LEASED \<Longrightarrow> br_lease_owner b = Some owner \<Longrightarrow>
    batch_step t j n (CompleteBatch t j n owner u st now) (Written True) (Some b) (Some (apply_batch_update now st u b))"

lemma acquires_reply: "acquires t j n (op, Inr r) \<noteq> None \<Longrightarrow> \<exists>b. r = LeaseReply ACQUIRED b"
  by (cases op; cases r) (auto split: if_splits)

lemma lease_not_acquired: "outcome \<noteq> ACQUIRED \<Longrightarrow> acquires t j n (op, Inr (LeaseReply outcome b)) = None"
  by (cases op) auto

lemma step_same:
  "mem_exec op s = (s', r) \<Longrightarrow> mem_get_batch t j n s' = mem_get_batch t j n s \<Longrightarrow>
     acquires t j n (op, Inr r) = None \<Longrightarrow> \<not> completes t j n (op, Inr r) \<Longrightarrow>
     batch_step t j n op r (mem_get_batch t j n s) (mem_get_batch t j n s')"
  using batch_step.other by simp

lemma mem_batch_step:
  assumes "mem_exec op s = (s', r)"
  shows "batch_step t j n op r (mem_get_batch t j n s) (mem_get_batch t j n s')"
proof (cases op)
  case (CreateJob job)
  then show ?thesis
    using assms by (intro step_same [OF assms]) (auto simp: mem_create_job_def split: option.splits)
next
  case (GetJob t' j')
  then show ?thesis using assms by (intro step_same [OF assms]) auto
next
  case (UpdateJob t' j' u)
  then show ?thesis
    using assms by (intro step_same [OF assms]) (auto simp: mem_update_job_def Let_def split: option.splits)
next
  case (EnsureBatches t' j' specs now)
  then have e: "mem_ensure_batches t' j' specs now s = (s', r)" using assms by simp
  show ?thesis
  proof (cases "mem_get_batch t j n s' = mem_get_batch t j n s")
    case False
    then have "mem_get_batch t j n s = None"
      and "\<exists>spec. mem_get_batch t j n s' = Some (new_batch now t' j' spec)"
      using mem_ensure_get [OF e, of t j n] by (auto split: if_splits option.splits) blast
    then show ?thesis
      using EnsureBatches by (auto intro!: batch_step.added simp: new_batch_def)
  next
    case True
    show ?thesis by (rule step_same [OF assms True]) (use EnsureBatches in simp_all)
  qed
next
  case (GetBatch t' j' n')
  then show ?thesis using assms by (intro step_same [OF assms]) auto
next
  case (ListBatches t' j')
  then show ?thesis using assms by (intro step_same [OF assms]) auto
next
  case (LeaseBatch t' j' n' owner secs k now)
  then have l: "mem_lease_batch t' j' n' owner secs k now s = (s', r)" using assms by simp
  show ?thesis
  proof (cases "\<exists>b b'. mem_get_batch t' j' n' s = Some b \<and> lease_decision b owner secs k now = (ACQUIRED, b')
      \<and> s' = mem_put_batch t' j' n' b' s \<and> r = LeaseReply ACQUIRED (Some b')")
    case True
    then obtain b b' where b: "mem_get_batch t' j' n' s = Some b" "lease_decision b owner secs k now = (ACQUIRED, b')"
      "s' = mem_put_batch t' j' n' b' s" "r = LeaseReply ACQUIRED (Some b')" by blast
    show ?thesis
    proof (cases "t' = t \<and> j' = j \<and> n' = n")
      case True
      then show ?thesis using b LeaseBatch batch_step.lease [OF b(2)] by simp
    qed (use b LeaseBatch in \<open>auto intro!: batch_step.other\<close>)
  next
    case False
    then have "s' = s" "\<exists>outcome b. outcome \<noteq> ACQUIRED \<and> r = LeaseReply outcome b"
      using l unfolding mem_lease_batch_def by (auto split: option.splits if_splits prod.splits)
    then show ?thesis using LeaseBatch by (auto intro!: batch_step.other)
  qed
next
  case (CompleteBatch t' j' n' owner u st now)
  then have c: "mem_complete_batch t' j' n' owner u st now s = (s', r)" using assms by simp
  show ?thesis
  proof (cases "t' = t \<and> j' = j \<and> n' = n \<and> r = Written True")
    case True
    then show ?thesis
      using c CompleteBatch batch_step.complete [of _ owner t j n u st now]
      by (auto simp: mem_complete_batch_def split: option.splits if_splits)
  next
    case False
    then have "mem_get_batch t j n s' = mem_get_batch t j n s" "\<exists>w. r = Written w"
      using c by (auto simp: mem_complete_batch_def split: option.splits if_splits)
    then show ?thesis using CompleteBatch False by (auto intro!: batch_step.other)
  qed
next
  case (FinalizeJob t' j' st agg now)
  then show ?thesis
    using assms by (intro step_same [OF assms]) (auto simp: mem_finalize_job_def Let_def split: option.splits if_splits)
qed

section \<open>The lease invariant\<close>

text \<open>What a batch record tells of its history: the owner recorded in a leased batch holds the
  lease, every acquisition was counted, and a completion used one up.\<close>

definition lease_inv :: "string option \<Rightarrow> nat \<Rightarrow> nat \<Rightarrow> batch_record option \<Rightarrow> bool" where
  "lease_inv h a c b \<longleftrightarrow>
     (case b of
        None \<Rightarrow> h = None \<and> a = 0 \<and> c = 0
      | Some b \<Rightarrow> h = (if br_state b = LEASED then br_lease_owner b else None)
          \<and> br_attempts b = int a \<and> c + (if h = None then 0 else 1) \<le> a)"

fun lease_attempts_within :: "int \<Rightarrow> store_op \<Rightarrow> bool" where
  "lease_attempts_within M (LeaseBatch t j n owner secs k now) \<longleftrightarrow> k \<le> M"
| "lease_attempts_within M op \<longleftrightarrow> True"

lemma acquires_complete: "acquires t j n e \<noteq> None \<Longrightarrow> \<not> completes t j n e"
  by (cases "(t, j, n, e)" rule: acquires.cases) auto

lemma lease_acquired:
  assumes "lease_decision b owner secs k now = (ACQUIRED, b')"
  shows "br_state b' = LEASED" "br_lease_owner b' = Some owner" "br_attempts b' = br_attempts b + 1" "br_attempts b < k"
    "br_state b \<noteq> DONE"
proof -
  let ?b = "b\<lparr>br_state := LEASED, br_attempts := br_attempts b + 1, br_lease_owner := Some owner,
    br_lease_expires_at := Some (now + seconds secs), br_updated_at := now\<rparr>"
  have "br_state b \<noteq> DONE \<and> br_attempts b < k \<and> b' = ?b"
    using assms unfolding lease_decision_def
    by (metis (no_types, lifting) Pair_inject lease_result.distinct(1,3,5) linorder_not_le)
  then show "br_state b' = LEASED" "br_lease_owner b' = Some owner" "br_attempts b' = br_attempts b + 1" "br_attempts b < k"
    "br_state b \<noteq> DONE" by simp_all
qed

lemma lease_inv_lease:
  assumes d: "lease_decision b owner secs k now = (ACQUIRED, b')" and "lease_inv h a c (Some b)"
  shows "lease_inv (Some owner) (Suc a) c (Some b')"
  using assms(2) lease_acquired [OF d] by (simp add: lease_inv_def split: if_splits)

lemma lease_inv_complete:
  "br_state b = LEASED \<Longrightarrow> br_lease_owner b = Some owner \<Longrightarrow> lease_inv h a c (Some b) \<Longrightarrow>
     lease_inv None a (Suc c) (Some (apply_batch_update now st u b))"
  by (cases u) (auto simp: lease_inv_def apply_batch_update_def release_def)

lemma lease_inv_step:
  assumes "batch_step t j n op r b b'" "lease_inv h a c b"
  shows "lease_inv (holds t j n (op, Inr r) h) (a + (if acquires t j n (op, Inr r) = None then 0 else 1))
    (c + (if completes t j n (op, Inr r) then 1 else 0)) b'"
  using assms(1)
proof cases
  case other
  then show ?thesis using assms(2) by simp
next
  case (added b1)
  then show ?thesis using assms(2) by (simp add: lease_inv_def)
next
  case (lease b1 owner secs k now b2)
  then show ?thesis using assms(2) lease_inv_lease [OF lease(5)] by simp
next
  case (complete b1 owner u st now)
  then show ?thesis using assms(2) lease_inv_complete [OF complete(5,6)] by simp
qed

lemma attempts_step:
  assumes "batch_step t j n op r b b'" "lease_attempts_within M op" "0 \<le> M" "b' = Some b1"
    and "\<And>b0. b = Some b0 \<Longrightarrow> br_attempts b0 \<le> M"
  shows "br_attempts b1 \<le> M"
  using assms(1)
proof cases
  case (lease b2 owner secs k now b3)
  then show ?thesis using assms(2,4) lease_acquired [OF lease(5)] by simp
next
  case (complete b2 owner u st now)
  then show ?thesis using assms(4,5) by (cases u) (auto simp: apply_batch_update_def release_def)
qed (use assms in auto)

lemma acquisitions_step:
  "acquisitions t j n (hist @ [e]) = acquisitions t j n hist + (if acquires t j n e = None then 0 else 1)"
  "completions t j n (hist @ [e]) = completions t j n hist + (if completes t j n e then 1 else 0)"
  "holder t j n (hist @ [e]) = holds t j n e (holder t j n hist)"
  by (simp_all add: acquisitions_def completions_def holder_def del: holds.simps)

text \<open>A history of the in-memory store, seen backwards.\<close>

lemma run_store_append:
  "run_store exec (xs @ ys) s = (let (s1, r1) = run_store exec xs s; (s2, r2) = run_store exec ys s1 in (s2, r1 @ r2))"
  by (induction xs arbitrary: s) (auto simp: Let_def split: prod.splits)

lemma run_store_fst_append: "fst (run_store exec (xs @ ys) s) = fst (run_store exec ys (fst (run_store exec xs s)))"
  by (simp add: run_store_append Let_def split: prod.split)

lemma run_store_length: "length (snd (run_store exec ops s)) = length ops"
proof (induction ops arbitrary: s)
  case (Cons op ops)
  then show ?case by (auto split: prod.split) (metis snd_conv)
qed simp

lemma history_append:
  "history_of exec (xs @ ys) s = history_of exec xs s @ history_of exec ys (fst (run_store exec xs s))"
  by (simp add: history_of_def run_store_append run_store_length split: prod.splits)
    (metis run_store_length snd_conv zip_append)

lemma mem_history_inv:
  "lease_inv (holder t j n (history_of mem_exec_res ops empty_mem)) (acquisitions t j n (history_of mem_exec_res ops empty_mem))
     (completions t j n (history_of mem_exec_res ops empty_mem)) (mem_get_batch t j n (fst (run_store mem_exec_res ops empty_mem)))
   \<and> (list_all (lease_attempts_within M) ops \<and> 0 \<le> M \<longrightarrow>
        (\<forall>b. mem_get_batch t j n (fst (run_store mem_exec_res ops empty_mem)) = Some b \<longrightarrow> br_attempts b \<le> M))"
proof (induction ops rule: rev_induct)
  case Nil
  then show ?case
    by (simp add: lease_inv_def history_of_def holder_def acquisitions_def completions_def mem_get_batch_def mem_bucket_def
        empty_mem_def dget_default_def)
next
  case (snoc op ops)
  let ?s = "fst (run_store mem_exec_res ops empty_mem)"
  obtain s' r where e: "mem_exec op ?s = (s', r)" by fastforce
  have hist: "history_of mem_exec_res (ops @ [op]) empty_mem = history_of mem_exec_res ops empty_mem @ [(op, Inr r)]"
    unfolding history_append by (simp add: history_of_def mem_exec_res_def e)
  have st: "fst (run_store mem_exec_res (ops @ [op]) empty_mem) = s'"
    by (simp add: run_store_append mem_exec_res_def e split: prod.splits) (metis e fst_conv)
  note step = mem_batch_step [OF e, of t j n]
  show ?case
    unfolding hist st acquisitions_step using lease_inv_step [OF step] attempts_step [OF step, of M] snoc by auto
qed

text \<open>A completion is written exactly when its caller holds the lease.\<close>

lemma mem_complete_iff_holder:
  assumes "lease_inv h a c (mem_get_batch t j n s)" "mem_complete_batch t j n owner u st now s = (s', Written w)"
  shows "w \<longleftrightarrow> h = Some owner"
  using assms by (auto simp: mem_complete_batch_def lease_inv_def split: option.splits if_splits)

text \<open>A batch that is done stays as it is.\<close>

lemma done_step:
  assumes "batch_step t j n op r (Some b) b'" "br_state b = DONE"
  shows "b' = Some b"
  using assms(1)
proof cases
  case (lease owner secs k now b2)
  then show ?thesis using assms(2) lease_acquired [OF lease(4)] by simp
qed (use assms(2) in auto)

lemma mem_done_stays:
  "mem_get_batch t j n s = Some b \<Longrightarrow> br_state b = DONE \<Longrightarrow> mem_get_batch t j n (fst (run_store mem_exec ops s)) = Some b"
proof (induction ops arbitrary: s)
  case (Cons op ops)
  obtain s' r where e: "mem_exec op s = (s', r)" by fastforce
  have "batch_step t j n op r (Some b) (mem_get_batch t j n s')"
    using mem_batch_step [OF e, of t j n] Cons.prems(1) by simp
  then have "mem_get_batch t j n s' = Some b" using Cons.prems(2) by (rule done_step)
  then show ?case using Cons.IH [OF _ Cons.prems(2)] by (simp only: run_store_fst [where exec = mem_exec, OF e])
qed simp

text \<open>A finalized job keeps its status, aggregate and time.\<close>

definition outcome_of :: "impact_job \<Rightarrow> impact_status \<times> impact_aggregate option \<times> timestamp option" where
  "outcome_of job = (ij_status job, ij_aggregate job, ij_finalized_at job)"

lemma outcome_update [simp]: "outcome_of (apply_job_update u job) = outcome_of job"
  by (cases u) (simp_all add: outcome_of_def)

lemma mem_finalized_step:
  assumes "mem_exec op s = (s', r)" "mem_get_job t j s = Some job" "ij_finalized_at job \<noteq> None"
  shows "\<exists>job'. mem_get_job t j s' = Some job' \<and> outcome_of job' = outcome_of job"
proof (cases op)
  case (CreateJob new)
  then show ?thesis using assms by (auto simp: mem_create_job_def split: option.splits)
next
  case (UpdateJob t' j' u)
  then show ?thesis using assms by (auto simp: mem_update_job_def Let_def split: option.splits)
next
  case (EnsureBatches t' j' specs now)
  then have "mem_ensure_batches t' j' specs now s = (s', r)" using assms by simp
  from mem_ensure_get [OF this, of t j] show ?thesis using assms by simp
next
  case (LeaseBatch t' j' n owner secs k now)
  then show ?thesis using assms by (auto simp: mem_lease_batch_def split: option.splits if_splits prod.splits)
next
  case (CompleteBatch t' j' n owner u st now)
  then show ?thesis using assms by (auto simp: mem_complete_batch_def split: option.splits if_splits)
next
  case (FinalizeJob t' j' st agg now)
  then show ?thesis using assms by (auto simp: mem_finalize_job_def Let_def split: option.splits if_splits)
qed (use assms in auto)

lemma mem_finalized_stays:
  "mem_get_job t j s = Some job \<Longrightarrow> ij_finalized_at job \<noteq> None \<Longrightarrow>
     \<exists>job'. mem_get_job t j (fst (run_store mem_exec ops s)) = Some job' \<and> outcome_of job' = outcome_of job"
proof (induction ops arbitrary: s job)
  case (Cons op ops)
  obtain s' r where e: "mem_exec op s = (s', r)" by fastforce
  obtain job1 where j1: "mem_get_job t j s' = Some job1" "outcome_of job1 = outcome_of job"
    using mem_finalized_step [OF e Cons.prems] by blast
  have "ij_finalized_at job1 \<noteq> None" using j1(2) Cons.prems(2) by (auto simp: outcome_of_def)
  from Cons.IH [OF j1(1) this] obtain job2 where
    "mem_get_job t j (fst (run_store mem_exec ops s')) = Some job2" "outcome_of job2 = outcome_of job1" by blast
  then show ?case using j1(2) unfolding run_store_fst [where exec = mem_exec, OF e] by simp
qed auto

section \<open>Tenants\<close>

text \<open>What a tenant can see of a store.\<close>

definition same_view :: "string \<Rightarrow> mem_store \<Rightarrow> mem_store \<Rightarrow> bool" where
  "same_view t s s' \<longleftrightarrow> (\<forall>j. mem_get_job t j s = mem_get_job t j s' \<and> mem_bucket t j s = mem_bucket t j s')"

lemma mem_bucket_puts [simp]:
  "mem_bucket t j (mem_put_job t' j' job s) = mem_bucket t j s"
  "mem_bucket t j (mem_put_batch t' j' n b s) = (if t' = t \<and> j' = j then dset n b (mem_bucket t j s) else mem_bucket t j s)"
  by (auto simp: mem_bucket_def mem_put_job_def mem_put_batch_def dget_default_def)

lemma mem_bucket_ensure:
  "mem_ensure_batches t' j' specs now s = (s', r) \<Longrightarrow>
     mem_bucket t j s' = (if t' = t \<and> j' = j then fold (add_batch now t j) specs (mem_bucket t j s) else mem_bucket t j s)"
  by (auto simp: mem_ensure_batches_def mem_bucket_def dget_default_def)

lemma mem_other_tenant:
  assumes "mem_exec op s = (s', r)" "op_tenant op \<noteq> t"
  shows "same_view t s' s"
proof (cases op)
  case (CreateJob new)
  then show ?thesis using assms by (auto simp: mem_create_job_def same_view_def split: option.splits)
next
  case (UpdateJob t' j' u)
  then show ?thesis using assms by (auto simp: mem_update_job_def Let_def same_view_def split: option.splits)
next
  case (EnsureBatches t' j' specs now)
  then have "mem_ensure_batches t' j' specs now s = (s', r)" using assms by simp
  from mem_ensure_get [OF this] mem_bucket_ensure [OF this] show ?thesis
    using assms(2) EnsureBatches by (auto simp: same_view_def)
next
  case (LeaseBatch t' j' n owner secs k now)
  then show ?thesis using assms by (auto simp: mem_lease_batch_def same_view_def split: option.splits if_splits prod.splits)
next
  case (CompleteBatch t' j' n owner u st now)
  then show ?thesis using assms by (auto simp: mem_complete_batch_def same_view_def split: option.splits if_splits)
next
  case (FinalizeJob t' j' st agg now)
  then show ?thesis using assms by (auto simp: mem_finalize_job_def Let_def same_view_def split: option.splits if_splits)
qed (use assms in \<open>auto simp: same_view_def\<close>)

lemma mem_own_tenant:
  assumes "same_view t s1 s2" "op_tenant op = t" "mem_exec op s1 = (s1', r1)" "mem_exec op s2 = (s2', r2)"
  shows "r1 = r2 \<and> same_view t s1' s2'"
proof -
  have j: "mem_get_job t j s1 = mem_get_job t j s2" and b: "mem_bucket t j s1 = mem_bucket t j s2"
    and g: "mem_get_batch t j n s1 = mem_get_batch t j n s2" for j n
    using assms(1) by (simp_all add: same_view_def mem_get_batch_def)
  show ?thesis
  proof (cases op)
    case (CreateJob new)
    then show ?thesis using assms by (auto simp: mem_create_job_def same_view_def split: option.splits)
  next
    case (UpdateJob t' j' u)
    then show ?thesis using assms by (auto simp: mem_update_job_def Let_def same_view_def split: option.splits)
  next
    case (EnsureBatches t' j' specs now)
    then have e: "mem_ensure_batches t' j' specs now s1 = (s1', r1)" "mem_ensure_batches t' j' specs now s2 = (s2', r2)"
      using assms by simp_all
    from e have "r1 = r2" by (simp add: mem_ensure_batches_def)
    moreover have "same_view t s1' s2'"
      using mem_ensure_get [OF e(1)] mem_ensure_get [OF e(2)] mem_bucket_ensure [OF e(1)] mem_bucket_ensure [OF e(2)] j b
      by (simp add: same_view_def)
    ultimately show ?thesis ..
  next
    case (LeaseBatch t' j' n owner secs k now)
    then show ?thesis using assms j b g
      by (auto simp: mem_lease_batch_def same_view_def split: option.splits if_splits prod.splits)
  next
    case (CompleteBatch t' j' n owner u st now)
    then show ?thesis using assms j b g by (auto simp: mem_complete_batch_def same_view_def split: option.splits if_splits)
  next
    case (FinalizeJob t' j' st agg now)
    then show ?thesis using assms j b by (auto simp: mem_finalize_job_def Let_def same_view_def split: option.splits if_splits)
  qed (use assms j b g in \<open>auto simp: mem_list_batches_def same_view_def\<close>)
qed

definition tenant_part :: "string \<Rightarrow> history \<Rightarrow> history" where
  "tenant_part t hist = filter (\<lambda>(op, r). op_tenant op = t) hist"

lemma mem_isolation:
  "same_view t s1 s2 \<Longrightarrow>
     tenant_part t (history_of mem_exec_res ops s1) = history_of mem_exec_res (filter (\<lambda>op. op_tenant op = t) ops) s2"
proof (induction ops arbitrary: s1 s2)
  case Nil
  then show ?case by (simp add: history_of_def tenant_part_def)
next
  case (Cons op ops)
  obtain s1' r1 where e1: "mem_exec op s1 = (s1', r1)" by fastforce
  have res: "mem_exec_res op s = (s', Inr r)" if "mem_exec op s = (s', r)" for s s' r
    using that by (simp add: mem_exec_res_def)
  note hist = history_Cons [where exec = mem_exec_res, OF res]
  show ?case
  proof (cases "op_tenant op = t")
    case True
    obtain s2' r2 where e2: "mem_exec op s2 = (s2', r2)" by fastforce
    have "r1 = r2" "same_view t s1' s2'" using mem_own_tenant [OF Cons.prems True e1 e2] by simp_all
    then show ?thesis
      using Cons.IH [of s1' s2'] True by (simp add: hist [OF e1] hist [OF e2] tenant_part_def)
  next
    case False
    then have "same_view t s1' s2" using mem_other_tenant [OF e1 False] Cons.prems by (simp add: same_view_def)
    then show ?thesis using Cons.IH False by (simp add: hist [OF e1] tenant_part_def)
  qed
qed

section \<open>Any store that answers as the in-memory one\<close>

lemma mem_res_step: "mem_exec_res op s = (s', r) \<longleftrightarrow> (\<exists>q. mem_exec op s = (s', q) \<and> r = Inr q)"
  by (auto simp: mem_exec_res_def split: prod.splits)

lemma mem_res_state: "fst (run_store mem_exec_res ops s) = fst (run_store mem_exec ops s)"
proof (induction ops arbitrary: s)
  case (Cons op ops)
  obtain s' q where e: "mem_exec op s = (s', q)" by fastforce
  then have e': "mem_exec_res op s = (s', Inr q)" by (simp add: mem_exec_res_def)
  show ?case
    unfolding run_store_fst [where exec = mem_exec, OF e] run_store_fst [where exec = mem_exec_res, OF e'] by (rule Cons.IH)
qed simp

locale impact_store =
  fixes exec :: "store_op \<Rightarrow> 's \<Rightarrow> 's \<times> store_reply res" and start :: 's and rel :: "'s \<Rightarrow> mem_store \<Rightarrow> bool"
  assumes rel_start: "rel start empty_mem"
    and answers: "rel s m \<Longrightarrow> op_ok op \<Longrightarrow> mem_exec op m = (m', r) \<Longrightarrow> \<exists>s'. exec op s = (s', Inr r) \<and> rel s' m'"
begin

lemma simulates:
  "rel s m \<Longrightarrow> list_all op_ok ops \<Longrightarrow>
     history_of exec ops s = history_of mem_exec_res ops m \<and> rel (fst (run_store exec ops s)) (fst (run_store mem_exec_res ops m))"
proof (induction ops arbitrary: s m)
  case (Cons op ops)
  obtain m' q where e: "mem_exec op m = (m', q)" by fastforce
  obtain s' where s': "exec op s = (s', Inr q)" "rel s' m'"
    using answers [OF Cons.prems(1) _ e] Cons.prems(2) by auto
  have e': "mem_exec_res op m = (m', Inr q)" using e by (simp add: mem_exec_res_def)
  show ?case
    using Cons.IH [OF s'(2)] Cons.prems(2)
    unfolding history_Cons [where exec = exec, OF s'(1)] run_store_fst [where exec = exec, OF s'(1)]
      history_Cons [where exec = mem_exec_res, OF e'] run_store_fst [where exec = mem_exec_res, OF e'] by simp
qed (simp add: history_of_def)

lemmas simulates_start = simulates [OF rel_start]

lemma same_history: "list_all op_ok ops \<Longrightarrow> history_of exec ops start = history_of mem_exec_res ops empty_mem"
  using simulates_start by blast

lemma reply:
  assumes "rel s m" "op_ok op" shows "snd (exec op s) = Inr (snd (mem_exec op m))"
proof -
  obtain m' q where e: "mem_exec op m = (m', q)" by fastforce
  from answers [OF assms e] show ?thesis using e by auto
qed

text \<open>A completion is written exactly when its caller holds the lease.\<close>

lemma fenced:
  assumes "list_all op_ok ops" "op_ok (CompleteBatch t j n owner u st now)"
  shows "snd (exec (CompleteBatch t j n owner u st now) (fst (run_store exec ops start))) =
     Inr (Written (holder t j n (history_of exec ops start) = Some owner))"
proof -
  let ?m = "fst (run_store mem_exec_res ops empty_mem)"
  obtain m' r where e: "mem_complete_batch t j n owner u st now ?m = (m', r)" by fastforce
  then obtain w where w: "r = Written w"
    by (auto simp: mem_complete_batch_def split: option.splits if_splits)
  have "w \<longleftrightarrow> holder t j n (history_of mem_exec_res ops empty_mem) = Some owner"
    using mem_complete_iff_holder [of _ _ _ t j n ?m owner u st now m' w] mem_history_inv [of t j n ops] e w by blast
  then show ?thesis
    using reply [OF conjunct2 [OF simulates_start [OF assms(1)]] assms(2)] e w same_history [OF assms(1)] by simp
qed

lemma bounded_attempts:
  assumes "list_all op_ok ops" "list_all (lease_attempts_within M) ops" "0 \<le> M"
  shows "completions t j n (history_of exec ops start) \<le> acquisitions t j n (history_of exec ops start)
    \<and> int (acquisitions t j n (history_of exec ops start)) \<le> M"
proof -
  let ?b = "mem_get_batch t j n (fst (run_store mem_exec_res ops empty_mem))"
  note inv = mem_history_inv [of t j n ops M]
  show ?thesis
  proof (cases ?b)
    case None
    then show ?thesis using inv assms(3) unfolding same_history [OF assms(1)] by (simp add: lease_inv_def)
  next
    case (Some b)
    then show ?thesis
      using inv assms(2,3) unfolding same_history [OF assms(1)] by (auto simp: lease_inv_def split: if_splits)
  qed
qed

lemma done_forever:
  assumes "list_all op_ok ops" "list_all op_ok later" "job_id_ok j"
    and "snd (exec (GetBatch t j n) (fst (run_store exec ops start))) = Inr (BatchReply (Some b))" "br_state b = DONE"
  shows "snd (exec (GetBatch t j n) (fst (run_store exec (ops @ later) start))) = Inr (BatchReply (Some b))"
proof -
  have ok: "op_ok (GetBatch t j n)" using assms(3) by (simp add: op_ok_def)
  let ?m = "\<lambda>ops. fst (run_store mem_exec_res ops empty_mem)"
  have get: "snd (exec (GetBatch t j n) (fst (run_store exec xs start))) = Inr (BatchReply (mem_get_batch t j n (?m xs)))"
    if "list_all op_ok xs" for xs
    using reply [OF conjunct2 [OF simulates_start [OF that]] ok] by simp
  have "mem_get_batch t j n (?m ops) = Some b" using get [OF assms(1)] assms(4) by simp
  then have "mem_get_batch t j n (?m (ops @ later)) = Some b"
    using mem_done_stays [of t j n "?m ops" b later] assms(5)
    by (simp add: mem_res_state run_store_fst_append)
  then show ?thesis using get [of "ops @ later"] assms(1,2) by simp
qed

lemma finalized_forever:
  assumes "list_all op_ok ops" "list_all op_ok later" "job_id_ok j"
    and "snd (exec (GetJob t j) (fst (run_store exec ops start))) = Inr (JobReply (Some job))" "ij_finalized_at job \<noteq> None"
  shows "\<exists>job'. snd (exec (GetJob t j) (fst (run_store exec (ops @ later) start))) = Inr (JobReply (Some job'))
    \<and> outcome_of job' = outcome_of job"
proof -
  have ok: "op_ok (GetJob t j)" using assms(3) by (simp add: op_ok_def)
  let ?m = "\<lambda>ops. fst (run_store mem_exec_res ops empty_mem)"
  have get: "snd (exec (GetJob t j) (fst (run_store exec xs start))) = Inr (JobReply (mem_get_job t j (?m xs)))"
    if "list_all op_ok xs" for xs
    using reply [OF conjunct2 [OF simulates_start [OF that]] ok] by simp
  have "mem_get_job t j (?m ops) = Some job" using get [OF assms(1)] assms(4) by simp
  then have "\<exists>job'. mem_get_job t j (?m (ops @ later)) = Some job' \<and> outcome_of job' = outcome_of job"
    using mem_finalized_stays [of t j "?m ops" job later] assms(5)
    by (simp add: mem_res_state run_store_fst_append)
  then show ?thesis using get [of "ops @ later"] assms(1,2) by auto
qed

lemma isolated:
  assumes "list_all op_ok ops"
  shows "tenant_part t (history_of exec ops start) = history_of exec (filter (\<lambda>op. op_tenant op = t) ops) start"
proof -
  have "list_all op_ok (filter (\<lambda>op. op_tenant op = t) ops)" using assms by (auto simp: list_all_iff)
  then show ?thesis
    using mem_isolation [of t empty_mem empty_mem ops] same_history [OF assms] same_history by (simp add: same_view_def)
qed

end

interpretation memory: impact_store mem_exec_res empty_mem "(=)"
  by unfold_locales (auto simp: mem_exec_res_def)

interpretation firestore: impact_store fs_exec empty_fs full_rel
  by unfold_locales (auto simp: full_empty intro: full_exec)

section \<open>Properties\<close>

text \<open>A job, a batch of two rows leased and finished by one worker while another one waits.\<close>

definition sample_job_id :: string where "sample_job_id = ''IJ-0123456789abcdef01234567''"

definition sample_job :: impact_job where
  "sample_job = \<lparr>ij_tenant = ''t'', ij_job_id = sample_job_id, ij_mission_id = ''m'', ij_attempt = 1, ij_created_at = 0,
     ij_as_of = Date 2026 1 1, ij_status = RUNNING, ij_product = ''HO3'', ij_jurisdiction = None,
     ij_snapshot = (''d'', ''s'', 2), ij_source = [], ij_connector = \<lparr>cr_connector_id = ''c'', cr_engine_version = ''1'', cr_batch_max_items = 0\<rparr>,
     ij_batch_size = 2, ij_batch_count = 1, ij_rows_total = 2, ij_rows_in_scope = 2, ij_budgets = impact_config_of [] (Dec False 0 (- 2)),
     ij_cancel_requested = False, ij_halt_reason = None, ij_budget_exhausted = [], ij_progress = [],
     ij_aggregate = None, ij_finalized_at = None\<rparr>"

definition sample_ops :: "store_op list" where
  "sample_ops =
     [CreateJob sample_job, EnsureBatches ''t'' sample_job_id [(0, 0, 2)] 0,
      LeaseBatch ''t'' sample_job_id 0 ''w'' 300 3 10, LeaseBatch ''t'' sample_job_id 0 ''x'' 300 3 20]"

definition sample_finish :: store_op where
  "sample_finish = CompleteBatch ''t'' sample_job_id 0 ''w'' (DurationOnly 5) DONE 30"

lemma sample_ok: "list_all op_ok sample_ops" "op_ok sample_finish" "job_id_ok sample_job_id"
  by (simp_all add: sample_ops_def sample_finish_def op_ok_def job_id_ok_def sample_job_def sample_job_id_def)

lemma sample_holder: "holder ''t'' sample_job_id 0 (history_of mem_exec_res sample_ops empty_mem) = Some ''w''"
  by (simp add: sample_ops_def history_of_def holder_def mem_exec_res_def mem_create_job_def mem_get_job_def empty_mem_def
      sample_job_def mem_put_job_def mem_ensure_batches_def mem_bucket_def dget_default_def add_batch_def new_batch_def
      mem_lease_batch_def terminal_job_statuses_def mem_get_batch_def lease_decision_def mem_put_batch_def seconds_def)

text \<open>C9: The Firestore store and the in-memory store are the same store, up to the one query over several jobs.
  Every history of the operations on one job and its batches gets the same replies from both, and the
  Firestore store never fails on one; after it, \<open>find_jobs_for_mission\<close> of the Firestore store gives jobs that
  the in-memory one gives, newest first: all of them if they are at most 20, and 20 of them otherwise.\<close>

theorem firestore_refines_memory:
  assumes "list_all op_ok ops"
  shows "history_of fs_exec ops empty_fs = history_of mem_exec_res ops empty_mem
    \<and> (let f = fs_find_jobs t mission (fst (run_store fs_exec ops empty_fs));
           m = mem_find_jobs t mission (fst (run_store mem_exec_res ops empty_mem)) in
       mset f \<subseteq># mset m \<and> length f = min 20 (length m) \<and> (length m \<le> 20 \<longrightarrow> mset f = mset m)
       \<and> sorted_wrt (\<lambda>a b. ij_created_at b \<le> ij_created_at a) f)"
proof -
  have rel: "full_rel (fst (run_store fs_exec ops empty_fs)) (fst (run_store mem_exec_res ops empty_mem))"
    using firestore.simulates_start [OF assms] by blast
  note find = find_jobs_related [OF rel, of t mission]
  let ?f = "fs_find_jobs t mission (fst (run_store fs_exec ops empty_fs))" and ?m = "mem_find_jobs t mission (fst (run_store mem_exec_res ops empty_mem))"
  have "mset ?f = mset ?m" if "length ?m \<le> 20"
    using find that mset_subset_size [of "mset ?f" "mset ?m"] by (auto simp: subset_mset.less_le)
  then show ?thesis using find firestore.same_history [OF assms] by (simp add: Let_def)
qed

theorem firestore_refines_memory_witness:
  "history_of fs_exec sample_ops empty_fs = history_of mem_exec_res sample_ops empty_mem"
  using firestore_refines_memory [OF sample_ok(1)] by blast

text \<open>C10: Fencing.  After any history, a worker's result is written exactly when that worker is the
  last one to have acquired the batch's lease and the batch has not been completed since: a
  stale or redelivered handler never overwrites a result, and a current one always writes.\<close>

theorem result_fenced:
  assumes "list_all op_ok ops" "job_id_ok j"
  shows "snd (fs_exec (CompleteBatch t j n owner u st now) (fst (run_store fs_exec ops empty_fs))) =
    Inr (Written (holder t j n (history_of fs_exec ops empty_fs) = Some owner))"
  using firestore.fenced [OF assms(1)] assms(2) by (simp add: op_ok_def)

theorem result_fenced_witness:
  "snd (fs_exec sample_finish (fst (run_store fs_exec sample_ops empty_fs))) = Inr (Written True)"
  using result_fenced [OF sample_ok(1,3), of "''t''" 0 "''w''" "DurationOnly 5" DONE 30]
  by (simp add: sample_finish_def firestore.same_history [OF sample_ok(1)] sample_holder)

text \<open>C11: No batch is completed more often than its lease was acquired, nor is its lease acquired
  more often than the largest attempt limit any worker passes.\<close>

theorem attempts_bounded:
  assumes "list_all op_ok ops" "list_all (lease_attempts_within M) ops" "0 \<le> M"
  shows "completions t j n (history_of fs_exec ops empty_fs) \<le> acquisitions t j n (history_of fs_exec ops empty_fs)
    \<and> int (acquisitions t j n (history_of fs_exec ops empty_fs)) \<le> M"
  by (rule firestore.bounded_attempts [OF assms])

theorem attempts_bounded_witness:
  "completions ''t'' sample_job_id 0 (history_of fs_exec sample_ops empty_fs) \<le> acquisitions ''t'' sample_job_id 0 (history_of fs_exec sample_ops empty_fs)
    \<and> int (acquisitions ''t'' sample_job_id 0 (history_of fs_exec sample_ops empty_fs)) \<le> 3"
  by (rule attempts_bounded [OF sample_ok(1)]) (simp_all add: sample_ops_def)

text \<open>What is settled stays settled, whatever operations follow: a batch that is DONE is read
  back unchanged, and a finalized job keeps its status, aggregate and finalization time (the
  first finalization wins).\<close>

theorem settled_forever:
  assumes "list_all op_ok ops" "list_all op_ok later" "job_id_ok j"
  shows "(snd (fs_exec (GetBatch t j n) (fst (run_store fs_exec ops empty_fs))) = Inr (BatchReply (Some b)) \<and> br_state b = DONE \<longrightarrow>
      snd (fs_exec (GetBatch t j n) (fst (run_store fs_exec (ops @ later) empty_fs))) = Inr (BatchReply (Some b)))
    \<and> (snd (fs_exec (GetJob t j) (fst (run_store fs_exec ops empty_fs))) = Inr (JobReply (Some job)) \<and> ij_finalized_at job \<noteq> None \<longrightarrow>
      (\<exists>job'. snd (fs_exec (GetJob t j) (fst (run_store fs_exec (ops @ later) empty_fs))) = Inr (JobReply (Some job'))
        \<and> outcome_of job' = outcome_of job))"
  using firestore.done_forever [OF assms] firestore.finalized_forever [OF assms] by blast

definition sample_later :: "store_op list" where
  "sample_later = [LeaseBatch ''t'' sample_job_id 0 ''x'' 300 3 40, CompleteBatch ''t'' sample_job_id 0 ''x'' (DurationOnly 1) INCOMPLETE 50]"

lemma sample_done:
  "\<exists>b. snd (fs_exec (GetBatch ''t'' sample_job_id 0) (fst (run_store fs_exec (sample_ops @ [sample_finish]) empty_fs)))
      = Inr (BatchReply (Some b)) \<and> br_state b = DONE"
proof -
  have ok: "list_all op_ok (sample_ops @ [sample_finish])" "op_ok (GetBatch ''t'' sample_job_id 0)"
    using sample_ok by (simp_all add: op_ok_def)
  have "\<exists>b. mem_get_batch ''t'' sample_job_id 0 (fst (run_store mem_exec_res (sample_ops @ [sample_finish]) empty_mem)) = Some b
      \<and> br_state b = DONE"
  proof -
    let ?m = "fst (run_store mem_exec_res sample_ops empty_mem)"
    obtain b where "mem_get_batch ''t'' sample_job_id 0 ?m = Some b" "br_state b = LEASED" "br_lease_owner b = Some ''w''"
      using conjunct1 [OF mem_history_inv [of "''t''" sample_job_id 0 sample_ops]] unfolding sample_holder lease_inv_def
      by (cases "mem_get_batch ''t'' sample_job_id 0 ?m") (auto split: if_splits)
    then show ?thesis
      by (simp add: run_store_fst_append sample_finish_def mem_exec_res_def mem_complete_batch_def apply_batch_update_def release_def)
  qed
  then show ?thesis
    using firestore.reply [OF conjunct2 [OF firestore.simulates_start [OF ok(1)]] ok(2)] by simp
qed

theorem settled_forever_witness:
  "\<exists>b. snd (fs_exec (GetBatch ''t'' sample_job_id 0) (fst (run_store fs_exec ((sample_ops @ [sample_finish]) @ sample_later) empty_fs)))
     = Inr (BatchReply (Some b)) \<and> br_state b = DONE"
proof -
  have ok: "list_all op_ok (sample_ops @ [sample_finish])" "list_all op_ok sample_later"
    using sample_ok by (simp_all add: op_ok_def sample_later_def)
  from sample_done obtain b where
    "snd (fs_exec (GetBatch ''t'' sample_job_id 0) (fst (run_store fs_exec (sample_ops @ [sample_finish]) empty_fs)))
      = Inr (BatchReply (Some b))" "br_state b = DONE" by blast
  with settled_forever [OF ok sample_ok(3), of "''t''" 0 b] show ?thesis by blast
qed

text \<open>C12: A tenant's operations get the replies they would get if no other tenant used the store.\<close>

theorem tenants_isolated:
  assumes "list_all op_ok ops"
  shows "tenant_part t (history_of fs_exec ops empty_fs) = history_of fs_exec (filter (\<lambda>op. op_tenant op = t) ops) empty_fs"
  by (rule firestore.isolated [OF assms])

theorem tenants_isolated_witness:
  "tenant_part ''u'' (history_of fs_exec sample_ops empty_fs) = history_of fs_exec (filter (\<lambda>op. op_tenant op = ''u'') sample_ops) empty_fs"
  by (rule tenants_isolated [OF sample_ok(1)])

end
