(* ===== verification/ImpactProcessor.thy ===== *)
theory ImpactProcessor
  imports ImpactStore OraclePackage RuntimeConfig
begin

text \<open>
  One impact batch: \<open>src/backend/app/impact/resilience.py\<close> (retry classes, circuit breaker, pacing)
  and \<open>processor.py\<close>.

  The concurrent part of a batch (\<open>_remote\<close>, an asyncio program with one task per chunk) is the
  step relation \<open>remote_step\<close>: a task begins, waits for the cancel flag it re-reads, passes or
  fails the breaker's gate, waits for the semaphore, sends, and gets an answer; any interleaving
  of the tasks is a run.  What the connector answers and when is arbitrary.  The rest of a batch
  (\<open>execute\<close>) is a function of the snapshot, the package and the finished run.
\<close>

section \<open>resilience.py\<close>

datatype failure_category = RETRYABLE | NON_RETRYABLE | REVIEW_REQUIRED

record connector_error =
  ce_code :: string
  ce_category :: failure_category

definition circuit_open_code :: string where "circuit_open_code = ''CONNECTOR_CIRCUIT_OPEN''"

definition transient_item_codes :: "string list" where
  "transient_item_codes = [''TEMPORARILY_UNAVAILABLE'', ''RATE_LIMITED'']"

definition auth_codes :: "string list" where
  "auth_codes = [''CONNECTOR_AUTH_DENIED'', ''CONNECTOR_AUTH_UNAVAILABLE'']"

definition transient_codes :: "string list" where
  "transient_codes = [''CONNECTOR_TARGET_BUDGET_EXCEEDED'', circuit_open_code] @ transient_item_codes"

definition is_transient :: "connector_error \<Rightarrow> bool" where
  "is_transient e \<longleftrightarrow> ce_category e = RETRYABLE \<or> ce_code e \<in> set transient_codes"

definition is_auth_failure :: "string \<Rightarrow> bool" where
  "is_auth_failure code \<longleftrightarrow> code \<in> set auth_codes"

definition systemic_permanent_codes :: "string list" where
  "systemic_permanent_codes = auth_codes @
     [''CONNECTOR_NOT_REGISTERED'', ''CONNECTOR_ENGINE_VERSION_NOT_ALLOWED'', ''CONNECTOR_ENGINE_VERSION_MISMATCH'',
      ''CONNECTOR_SCHEMA_VIOLATION'', ''CONNECTOR_UNEXPECTED_REDIRECT'', ''CONNECTOR_REQUEST_ID_MISMATCH'']"

definition is_systemic_permanent :: "string \<Rightarrow> bool" where
  "is_systemic_permanent code \<longleftrightarrow> code \<in> set systemic_permanent_codes"

record circuit_breaker =
  cb_threshold :: int
  cb_cooldown :: rat
  cb_failures :: int
  cb_opened_at :: "rat option"
  cb_permanent :: "string option"
  cb_times_opened :: nat

definition new_breaker :: "int \<Rightarrow> rat \<Rightarrow> circuit_breaker" where
  "new_breaker threshold cooldown =
     \<lparr>cb_threshold = threshold, cb_cooldown = cooldown, cb_failures = 0, cb_opened_at = None, cb_permanent = None, cb_times_opened = 0\<rparr>"

definition breaker_allow :: "rat \<Rightarrow> circuit_breaker \<Rightarrow> circuit_breaker \<times> bool" where
  "breaker_allow now b =
     (if cb_permanent b \<noteq> None then (b, False)
      else case cb_opened_at b of
          None \<Rightarrow> (b, True)
        | Some t \<Rightarrow>
            if cb_cooldown b \<le> now - t
            then (b\<lparr>cb_opened_at := None, cb_failures := cb_threshold b - 1\<rparr>, True)
            else (b, False))"

definition record_success :: "circuit_breaker \<Rightarrow> circuit_breaker" where
  "record_success b = b\<lparr>cb_failures := 0, cb_opened_at := None\<rparr>"

definition record_failure :: "rat \<Rightarrow> string \<Rightarrow> bool \<Rightarrow> circuit_breaker \<Rightarrow> circuit_breaker" where
  "record_failure now code permanent b =
     (if permanent \<or> is_systemic_permanent code
      then b\<lparr>cb_times_opened := cb_times_opened b + (if cb_permanent b = None then 1 else 0), cb_permanent := Some code\<rparr>
      else (let b' = b\<lparr>cb_failures := cb_failures b + 1\<rparr> in
            if cb_threshold b \<le> cb_failures b' \<and> cb_opened_at b = None
            then b'\<lparr>cb_opened_at := Some now, cb_times_opened := cb_times_opened b + 1\<rparr> else b'))"

record async_pacer =
  ap_interval :: rat
  ap_next_slot :: rat

definition new_pacer :: "rat \<Rightarrow> async_pacer" where
  "new_pacer qps = \<lparr>ap_interval = (if 0 < qps then 1 / qps else 0), ap_next_slot = 0\<rparr>"

text \<open>The seconds to sleep before the request starts.\<close>

definition pacer_acquire :: "rat \<Rightarrow> async_pacer \<Rightarrow> async_pacer \<times> rat" where
  "pacer_acquire now p =
     (if ap_interval p \<le> 0 then (p, 0)
      else (p\<lparr>ap_next_slot := max now (ap_next_slot p) + ap_interval p\<rparr>, max 0 (ap_next_slot p - now)))"

section \<open>processor.py: one row, locally\<close>

datatype row_result = Match | OutOfScope string | Affected string string | Inconclusive string bool

record pending_row =
  pr_index :: nat
  pr_inputs :: "(string, pyval) dict"
  pr_date :: date
  pr_txn :: string
  pr_expected :: decimal

datatype local_outcome = Settled nat row_result | Priced pending_row

definition norm :: "string \<Rightarrow> string" where
  "norm v = py_replace_char (CHR '' '') (CHR ''_'') (py_replace_char (CHR ''-'') (CHR ''_'') (py_lower (py_strip v)))"

definition connector_inputs :: "(string, pyval) dict \<Rightarrow> (string, pyval) dict" where
  "connector_inputs = map (\<lambda>(k, v). (k, case v of PDec d \<Rightarrow> PStr (dec_str d) | _ \<Rightarrow> v))"

definition local_row :: "topo_sort \<Rightarrow> ipir_package \<Rightarrow> string \<Rightarrow> synthetic_policy list \<Rightarrow> nat \<Rightarrow> local_outcome res" where
  "local_row topo pkg product rows idx =
     (if length rows \<le> idx then Inl (LookupError ''rows'')
      else
        let policy = rows ! idx; inputs = rating_inputs policy (map pi_id (pkg_inputs pkg)) in
        if norm (sp_product_id policy) \<noteq> norm product then Inr (Settled idx (OutOfScope ''PRODUCT_MISMATCH''))
        else case calculate_policy_premium topo pkg inputs (Some (PDate (sp_effective_date policy))) None
                    (Some (PStr (transaction_text (sp_transaction_type policy)))) of
            Inl OutOfModel \<Rightarrow> Inl OutOfModel
          | Inl (CalculationDateError code) \<Rightarrow>
              Inr (Settled idx (if code = ''CALCULATION_DATE_OUT_OF_PERIOD'' then OutOfScope ''OUTSIDE_EFFECTIVE_PERIOD''
                                else Inconclusive code False))
          | Inl _ \<Rightarrow> Inr (Settled idx (Inconclusive ''LOCAL_CALCULATION_ERROR'' False))
          | Inr (r, d, src) \<Rightarrow>
              Inr (Priced \<lparr>pr_index = idx, pr_inputs = inputs, pr_date = d,
                pr_txn = transaction_text (sp_transaction_type policy), pr_expected = or_final_premium r\<rparr>))"

section \<open>processor.py: the connector\<close>

datatype remote_result = Premium decimal | Failed string bool

definition parse_premium :: "string option \<Rightarrow> remote_result" where
  "parse_premium raw =
     (case raw of
        None \<Rightarrow> Failed ''CONNECTOR_INCOMPLETE_OUTPUT'' False
      | Some s \<Rightarrow>
          if py_strip s = [] then Failed ''CONNECTOR_INCOMPLETE_OUTPUT'' False
          else (case decimal_of_string s of Inr d \<Rightarrow> Premium d | Inl _ \<Rightarrow> Failed ''CONNECTOR_INVALID_PREMIUM'' False))"

text \<open>One item of a batch answer; an answer to a chunk.\<close>

datatype item_answer = ItemOk "string option" | ItemFailed "string option"

datatype chunk_answer =
    BatchAnswer "string option" "(nat, item_answer) dict"
  | SingleAnswer "string option"
  | ChunkFailed connector_error

definition item_result :: "item_answer \<Rightarrow> remote_result" where
  "item_result a =
     (case a of
        ItemOk raw \<Rightarrow> parse_premium raw
      | ItemFailed code \<Rightarrow>
          (let c = (case code of None \<Rightarrow> ''ITEM_ERROR'' | Some c \<Rightarrow> c) in
           Failed (''CONNECTOR_ITEM_'' @ c) (c \<in> set transient_item_codes)))"

fun item_transient :: "item_answer \<Rightarrow> bool" where
  "item_transient (ItemFailed (Some c)) = (c \<in> set transient_item_codes)"
| "item_transient _ = False"

fun is_failed :: "remote_result \<Rightarrow> bool" where
  "is_failed (Failed _ _) = True"
| "is_failed _ = False"

datatype chunk_phase = Waiting | Reading | Queued | Sending | Finished

record remote_state =
  rm_breaker :: circuit_breaker
  rm_results :: "(nat, remote_result) dict"
  rm_requests :: nat
  rm_revision :: "string option"
  rm_checked_at :: "rat option"
  rm_cancelled :: bool
  rm_phases :: "chunk_phase list"

text \<open>\<open>chunks = [pending[i : i + chunk] for i in range(0, len(pending), chunk)]\<close>.\<close>

function chunks_of :: "nat \<Rightarrow> 'a list \<Rightarrow> 'a list list" where
  "chunks_of n xs = (if xs = [] \<or> n = 0 then [] else take n xs # chunks_of n (drop n xs))"
  by pat_completeness auto
termination by (relation "measure (\<lambda>(n, xs). length xs)") auto

declare chunks_of.simps [simp del]

definition chunk_size :: "impact_config \<Rightarrow> nat \<Rightarrow> nat" where
  "chunk_size cfg batch_max = (if batch_max = 0 then 1 else max 1 (min batch_max (nat (ic_batch_size cfg))))"

definition fail_rows :: "nat list \<Rightarrow> string \<Rightarrow> bool \<Rightarrow> (nat, remote_result) dict \<Rightarrow> (nat, remote_result) dict" where
  "fail_rows idxs code transient = fold (\<lambda>i. dset i (Failed code transient)) idxs"

definition finish_failed :: "nat \<Rightarrow> nat list \<Rightarrow> string \<Rightarrow> bool \<Rightarrow> remote_state \<Rightarrow> remote_state" where
  "finish_failed k idxs code transient s =
     s\<lparr>rm_results := fail_rows idxs code transient (rm_results s), rm_phases := (rm_phases s)[k := Finished]\<rparr>"

text \<open>From the cancel flag to the semaphore.\<close>

definition gate :: "nat \<Rightarrow> nat list \<Rightarrow> rat \<Rightarrow> remote_state \<Rightarrow> remote_state" where
  "gate k idxs now s =
     (if rm_cancelled s then finish_failed k idxs ''IMPACT_CANCELLED'' True s
      else
        let (b, ok) = breaker_allow now (rm_breaker s) in
        if ok then s\<lparr>rm_breaker := b, rm_phases := (rm_phases s)[k := Queued]\<rparr>
        else finish_failed k idxs (case cb_permanent b of None \<Rightarrow> circuit_open_code | Some c \<Rightarrow> c) (cb_permanent b = None) s)"

text \<open>A task starts: the cancel flag is re-read when the last read is two seconds old.\<close>

definition begin_chunk :: "nat \<Rightarrow> nat list \<Rightarrow> rat \<Rightarrow> remote_state \<Rightarrow> remote_state" where
  "begin_chunk k idxs now s =
     (if (case rm_checked_at s of None \<Rightarrow> True | Some t \<Rightarrow> 2 \<le> now - t)
      then s\<lparr>rm_checked_at := Some now, rm_phases := (rm_phases s)[k := Reading]\<rparr>
      else gate k idxs now s)"

definition cancel_read :: "nat \<Rightarrow> nat list \<Rightarrow> bool \<Rightarrow> rat \<Rightarrow> remote_state \<Rightarrow> remote_state" where
  "cancel_read k idxs flag now s = gate k idxs now (s\<lparr>rm_cancelled := flag\<rparr>)"

definition send_chunk :: "nat \<Rightarrow> remote_state \<Rightarrow> remote_state" where
  "send_chunk k s = s\<lparr>rm_requests := rm_requests s + 1, rm_phases := (rm_phases s)[k := Sending]\<rparr>"

text \<open>The answer; an item missing from a batch answer is a KeyError.\<close>

definition answer_chunk :: "nat \<Rightarrow> nat list \<Rightarrow> chunk_answer \<Rightarrow> rat \<Rightarrow> remote_state \<Rightarrow> remote_state res" where
  "answer_chunk k idxs a now s =
     (case a of
        ChunkFailed e \<Rightarrow>
          Inr (finish_failed k idxs (ce_code e) (is_transient e) (s\<lparr>rm_breaker := record_failure now (ce_code e) False (rm_breaker s)\<rparr>))
      | SingleAnswer raw \<Rightarrow>
          Inr (s\<lparr>rm_results := dset (hd idxs) (parse_premium raw) (rm_results s), rm_breaker := record_success (rm_breaker s),
                 rm_phases := (rm_phases s)[k := Finished]\<rparr>)
      | BatchAnswer revision items \<Rightarrow>
          rbind (rmap_list (\<lambda>i. case dget items i of None \<Rightarrow> Inl (KeyError (''r'' @ nat_str i)) | Some it \<Rightarrow> Inr (i, it)) idxs) (\<lambda>its.
          let results = fold (\<lambda>(i, it). dset i (item_result it)) its (rm_results s);
              failed = list_ex (\<lambda>(i, it). item_transient it) its \<and> list_all (\<lambda>(i, it). is_failed (item_result it)) its in
          Inr (s\<lparr>rm_results := results,
                 rm_revision := (case revision of None \<Rightarrow> rm_revision s | Some [] \<Rightarrow> rm_revision s | Some r \<Rightarrow> Some r),
                 rm_breaker := (if failed then record_failure now ''CONNECTOR_ITEM_TRANSIENT'' False (rm_breaker s)
                                else record_success (rm_breaker s)),
                 rm_phases := (rm_phases s)[k := Finished]\<rparr>)))"

definition sending :: "remote_state \<Rightarrow> nat" where
  "sending s = length (filter (\<lambda>p. p = Sending) (rm_phases s))"

definition remote_start :: "impact_config \<Rightarrow> nat \<Rightarrow> remote_state" where
  "remote_start cfg n =
     \<lparr>rm_breaker = new_breaker (ic_breaker_threshold cfg) (ic_breaker_cooldown cfg), rm_results = [], rm_requests = 0,
      rm_revision = None, rm_checked_at = None, rm_cancelled = False, rm_phases = replicate n Waiting\<rparr>"

text \<open>A connector without batch quotes (\<open>batch_max = 0\<close>) answers singly, another one in batches.\<close>

fun answer_fits :: "nat \<Rightarrow> chunk_answer \<Rightarrow> bool" where
  "answer_fits batch_max (SingleAnswer raw) \<longleftrightarrow> batch_max = 0"
| "answer_fits batch_max (BatchAnswer revision items) \<longleftrightarrow> batch_max \<noteq> 0"
| "answer_fits batch_max (ChunkFailed e) \<longleftrightarrow> True"

inductive remote_step :: "impact_config \<Rightarrow> nat \<Rightarrow> nat list list \<Rightarrow> remote_state \<Rightarrow> remote_state \<Rightarrow> bool" for cfg batch_max chunks where
  begins: "k < length chunks \<Longrightarrow> rm_phases s ! k = Waiting \<Longrightarrow>
    remote_step cfg batch_max chunks s (begin_chunk k (chunks ! k) now s)"
| reads: "k < length chunks \<Longrightarrow> rm_phases s ! k = Reading \<Longrightarrow>
    remote_step cfg batch_max chunks s (cancel_read k (chunks ! k) flag now s)"
| sends: "k < length chunks \<Longrightarrow> rm_phases s ! k = Queued \<Longrightarrow> int (sending s) < ic_request_concurrency cfg \<Longrightarrow>
    remote_step cfg batch_max chunks s (send_chunk k s)"
| answers: "k < length chunks \<Longrightarrow> rm_phases s ! k = Sending \<Longrightarrow> answer_fits batch_max a \<Longrightarrow>
    answer_chunk k (chunks ! k) a now s = Inr s' \<Longrightarrow> remote_step cfg batch_max chunks s s'"

inductive remote_run :: "impact_config \<Rightarrow> nat \<Rightarrow> nat list list \<Rightarrow> remote_state \<Rightarrow> bool" for cfg batch_max chunks where
  start: "remote_run cfg batch_max chunks (remote_start cfg (length chunks))"
| step: "remote_run cfg batch_max chunks s \<Longrightarrow> remote_step cfg batch_max chunks s s' \<Longrightarrow> remote_run cfg batch_max chunks s'"

section \<open>processor.py: the batch\<close>

record remote_summary =
  rs_results :: "(nat, remote_result) dict"
  rs_retries :: nat
  rs_requests :: nat
  rs_revision :: "string option"
  rs_breaker_opened :: bool

definition no_remote :: remote_summary where
  "no_remote = \<lparr>rs_results = [], rs_retries = 0, rs_requests = 0, rs_revision = None, rs_breaker_opened = False\<rparr>"

text \<open>A connector that is not registered fails every row, permanently.\<close>

definition unregistered :: "string \<Rightarrow> pending_row list \<Rightarrow> remote_summary" where
  "unregistered code pending = no_remote\<lparr>rs_results := fail_rows (map pr_index pending) code False []\<rparr>"

definition summary_of :: "nat \<Rightarrow> remote_state \<Rightarrow> remote_summary" where
  "summary_of retries s =
     \<lparr>rs_results = rm_results s, rs_retries = retries, rs_requests = rm_requests s, rs_revision = rm_revision s,
      rs_breaker_opened = (0 < cb_times_opened (rm_breaker s))\<rparr>"

definition run_remote :: "(pending_row list \<Rightarrow> remote_summary res) \<Rightarrow> pending_row list \<Rightarrow> remote_summary res" where
  "run_remote remote pending = (if pending = [] then Inr no_remote else remote pending)"

definition remote_row :: "decimal \<Rightarrow> (nat, remote_result) dict \<Rightarrow> pending_row \<Rightarrow> (nat \<times> row_result) res" where
  "remote_row tolerance results p =
     (case dget results (pr_index p) of
        None \<Rightarrow> Inl (KeyError (nat_str (pr_index p)))
      | Some (Failed code transient) \<Rightarrow> Inr (pr_index p, Inconclusive code transient)
      | Some (Premium v) \<Rightarrow>
          rbind (dec_sub v (pr_expected p)) (\<lambda>delta.
          rbind (dec_abs delta) (\<lambda>a.
          Inr (pr_index p, if dec_less tolerance a then Affected (dec_str (pr_expected p)) (dec_str v) else Match))))"

definition settled_rows :: "local_outcome list \<Rightarrow> (nat \<times> row_result) list" where
  "settled_rows ls = concat (map (\<lambda>l. case l of Settled i r \<Rightarrow> [(i, r)] | Priced _ \<Rightarrow> []) ls)"

definition pending_rows :: "local_outcome list \<Rightarrow> pending_row list" where
  "pending_rows ls = concat (map (\<lambda>l. case l of Settled _ _ \<Rightarrow> [] | Priced p \<Rightarrow> [p]) ls)"

definition scope_rows :: "(nat \<times> row_result) list \<Rightarrow> scope_row list" where
  "scope_rows rows = concat (map (\<lambda>(i, r). case r of OutOfScope c \<Rightarrow> [(i, c)] | _ \<Rightarrow> []) rows)"

definition affected_rows :: "(nat \<times> row_result) list \<Rightarrow> affected_row list" where
  "affected_rows rows = concat (map (\<lambda>(i, r). case r of Affected e c \<Rightarrow> [(i, e, c)] | _ \<Rightarrow> []) rows)"

definition inconclusive_rows :: "(nat \<times> row_result) list \<Rightarrow> inconclusive_row list" where
  "inconclusive_rows rows = concat (map (\<lambda>(i, r). case r of Inconclusive c t \<Rightarrow> [(i, c, t)] | _ \<Rightarrow> []) rows)"

definition matched_rows :: "(nat \<times> row_result) list \<Rightarrow> nat" where
  "matched_rows rows = length (filter (\<lambda>(i, r). r = Match) rows)"

definition bump :: "string \<Rightarrow> (string, nat) dict \<Rightarrow> (string, nat) dict" where
  "bump code d = dset code (dget_default d code 0 + 1) d"

text \<open>\<open>Counter(a) + b\<close>.\<close>

definition counter_add :: "(string, nat) dict \<Rightarrow> (string, nat) dict \<Rightarrow> (string, nat) dict" where
  "counter_add a b =
     filter (\<lambda>(k, n). 0 < n) (map (\<lambda>(k, n). (k, n + dget_default b k 0)) a)
     @ filter (\<lambda>(k, n). dget a k = None \<and> 0 < n) b"

definition unknown_code :: "string \<Rightarrow> string" where
  "unknown_code code = (if code = [] then ''UNKNOWN'' else code)"

definition first_pass :: "batch_record \<Rightarrow> bool" where
  "first_pass b \<longleftrightarrow> br_completed_at b = None"

definition batch_indexes :: "batch_record \<Rightarrow> nat list" where
  "batch_indexes b = (if first_pass b then [br_row_start b..<br_row_end b] else sort (unresolved_transient b))"

definition collect :: "batch_record \<Rightarrow> remote_summary \<Rightarrow> (nat \<times> row_result) list \<Rightarrow> batch_result" where
  "collect b s rows =
     (let fresh = first_pass b;
          inc = inconclusive_rows rows in
      \<lparr>bt_matched = (if fresh then 0 else br_matched b) + matched_rows rows,
       bt_out_of_scope = (if fresh then [] else br_out_of_scope b) @ scope_rows rows,
       bt_affected = sort_key fst ((if fresh then [] else br_affected b) @ affected_rows rows),
       bt_inconclusive = sort_key fst
         ((if fresh then [] else filter (\<lambda>(i, c, t). \<not> t) (br_inconclusive b)) @ inc),
       bt_retries = br_retries b + rs_retries s,
       bt_requests = br_requests b + rs_requests s,
       bt_error_classes = counter_add (br_error_classes b) (fold (\<lambda>(i, c, t). bump (unknown_code c)) inc []),
       bt_breaker_opened = (br_breaker_opened b \<or> rs_breaker_opened s),
       bt_connector_revision = (case rs_revision s of None \<Rightarrow> br_connector_revision b | Some r \<Rightarrow> Some r)\<rparr>)"

definition execute ::
  "topo_sort \<Rightarrow> impact_config \<Rightarrow> ipir_package \<Rightarrow> portfolio_snapshot \<Rightarrow> (pending_row list \<Rightarrow> remote_summary res) \<Rightarrow>
   impact_job \<Rightarrow> batch_record \<Rightarrow> batch_result res" where
  "execute topo cfg pkg snapshot remote job b =
     (if ps_sha256 snapshot \<noteq> fst (snd (ij_snapshot job)) then Inl (RuntimeError ''SNAPSHOT_CHANGED'')
      else
        rbind (rmap_list (local_row topo pkg (ij_product job) (ps_rows snapshot)) (batch_indexes b)) (\<lambda>ls.
        rbind (run_remote remote (pending_rows ls)) (\<lambda>s.
        rbind (rmap_list (remote_row (ic_premium_tolerance cfg) (rs_results s)) (pending_rows ls)) (\<lambda>rows.
        Inr (collect b s (settled_rows ls @ rows))))))"

datatype batch_outcome = O_DONE | O_INCOMPLETE | O_DUPLICATE | O_CLOSED | O_EXHAUSTED | O_LOST_LEASE

definition result_state :: "batch_result \<Rightarrow> batch_state" where
  "result_state r = (if list_ex (\<lambda>(i, c, t). t) (bt_inconclusive r) then INCOMPLETE else DONE)"

text \<open>
  \<open>process\<close>: its calls on the store, with whatever other workers do between them (\<open>others1\<close>
  before \<open>get_job\<close>, \<open>others2\<close> before the result is written).  \<open>Inl\<close> is the exception that
  \<open>process\<close> raises again after it has released the lease.
\<close>

definition process ::
  "(store_op \<Rightarrow> 's \<Rightarrow> 's \<times> store_reply res) \<Rightarrow> ('s \<Rightarrow> 's) \<Rightarrow> ('s \<Rightarrow> 's) \<Rightarrow>
   (impact_job \<Rightarrow> batch_record \<Rightarrow> batch_result res) \<Rightarrow> impact_config \<Rightarrow>
   string \<Rightarrow> string \<Rightarrow> nat \<Rightarrow> string \<Rightarrow> timestamp \<Rightarrow> timestamp \<Rightarrow> 's \<Rightarrow> 's \<times> batch_outcome res" where
  "process exec others1 others2 run cfg t j n owner now later s =
     (case exec (LeaseBatch t j n owner (ic_batch_timeout cfg + 60) (ic_max_batch_attempts cfg) now) s of
        (s, Inr (LeaseReply ACQUIRED (Some b))) \<Rightarrow>
          (case exec (GetJob t j) (others1 s) of
             (s, Inr (JobReply (Some job))) \<Rightarrow>
               (let ms = (later - now) div 1000 in
                case run job b of
                  Inl e \<Rightarrow> (fst (exec (CompleteBatch t j n owner (DurationOnly ms) INCOMPLETE later) (others2 s)), Inl e)
                | Inr r \<Rightarrow>
                    (case exec (CompleteBatch t j n owner (FullResult r ms) (result_state r) later) (others2 s) of
                       (s, Inr (Written True)) \<Rightarrow> (s, Inr (if result_state r = DONE then O_DONE else O_INCOMPLETE))
                     | (s, Inr _) \<Rightarrow> (s, Inr O_LOST_LEASE)
                     | (s, Inl e) \<Rightarrow> (s, Inl e)))
           | (s, Inr _) \<Rightarrow> (s, Inr O_CLOSED)
           | (s, Inl e) \<Rightarrow> (s, Inl e))
      | (s, Inr (LeaseReply ALREADY_DONE _)) \<Rightarrow> (s, Inr O_DUPLICATE)
      | (s, Inr (LeaseReply LEASED_ELSEWHERE _)) \<Rightarrow> (s, Inr O_DUPLICATE)
      | (s, Inr (LeaseReply ATTEMPTS_EXHAUSTED _)) \<Rightarrow> (s, Inr O_EXHAUSTED)
      | (s, Inr _) \<Rightarrow> (s, Inr O_CLOSED)
      | (s, Inl e) \<Rightarrow> (s, Inl e))"

end
