(* ===== verification/ImpactProcessorLaws.thy ===== *)
theory ImpactProcessorLaws
  imports ImpactProcessor OracleLaws
begin

text \<open>
  What a batch run guarantees: every pending row gets a result, the connector never sees more
  requests at once than configured, a batch accounts for each of its rows exactly once, and a
  row is reported as affected exactly when the premiums differ by more than the tolerance.
  The circuit breaker, which the tasks of a batch pass before they queue, does not stop a batch.
\<close>

section \<open>Rows of a chunk\<close>

abbreviation keys :: "('k, 'v) dict \<Rightarrow> 'k set" where
  "keys d \<equiv> fst ` set d"

lemma keys_fail_rows: "keys (fail_rows idxs code t d) = keys d \<union> set idxs"
  by (induction idxs arbitrary: d) (auto simp: fail_rows_def keys_dset)

lemma keys_items: "keys (fold (\<lambda>(i, it). dset i (f it)) its d) = keys d \<union> fst ` set its"
proof (induction its arbitrary: d)
  case (Cons x its)
  show ?case by (cases x) (simp add: keys_dset Cons.IH)
qed simp

definition chunk_ok :: "nat \<Rightarrow> nat list \<Rightarrow> bool" where
  "chunk_ok batch_max idxs \<longleftrightarrow> idxs \<noteq> [] \<and> (batch_max = 0 \<longrightarrow> length idxs = 1)"

lemma items_indexes:
  "rmap_list (\<lambda>i. case dget items i of None \<Rightarrow> Inl (e i) | Some it \<Rightarrow> Inr (i, it)) idxs = Inr its \<Longrightarrow> fst ` set its = set idxs"
proof -
  assume "rmap_list (\<lambda>i. case dget items i of None \<Rightarrow> Inl (e i) | Some it \<Rightarrow> Inr (i, it)) idxs = Inr its"
  then have "map fst its = idxs"
    by (induction idxs arbitrary: its) (auto simp: rbind_Inr_iff split: option.splits)
  then show ?thesis by (metis image_set)
qed

text \<open>What a step does to the bookkeeping of its task.\<close>

definition task_done :: "nat \<Rightarrow> nat list \<Rightarrow> remote_state \<Rightarrow> remote_state \<Rightarrow> bool" where
  "task_done k idxs s s' \<longleftrightarrow> rm_phases s' = (rm_phases s)[k := Finished] \<and> keys (rm_results s') = keys (rm_results s) \<union> set idxs
     \<and> rm_requests s' = rm_requests s"

definition task_moved :: "nat \<Rightarrow> chunk_phase \<Rightarrow> remote_state \<Rightarrow> remote_state \<Rightarrow> bool" where
  "task_moved k p s s' \<longleftrightarrow> rm_phases s' = (rm_phases s)[k := p] \<and> rm_results s' = rm_results s \<and> rm_requests s' = rm_requests s"

lemma finish_failed_done: "task_done k idxs s (finish_failed k idxs code t s)"
  by (simp add: task_done_def finish_failed_def keys_fail_rows)

lemma gate_task: "task_moved k Queued s (gate k idxs now s) \<or> task_done k idxs s (gate k idxs now s)"
  using finish_failed_done [of k idxs s]
  by (auto simp: gate_def Let_def task_moved_def split: prod.split)

lemma begin_task:
  "task_moved k Reading s (begin_chunk k idxs now s) \<or> task_moved k Queued s (begin_chunk k idxs now s)
   \<or> task_done k idxs s (begin_chunk k idxs now s)"
  using gate_task [of k s idxs now] by (simp add: begin_chunk_def task_moved_def split: option.split)

lemma read_task:
  "task_moved k Queued s (cancel_read k idxs flag now s) \<or> task_done k idxs s (cancel_read k idxs flag now s)"
  using gate_task [of k "s\<lparr>rm_cancelled := flag\<rparr>" idxs now] by (simp add: cancel_read_def task_moved_def task_done_def)

lemma answer_task:
  assumes "answer_chunk k idxs a now s = Inr s'" "answer_fits batch_max a" "chunk_ok batch_max idxs"
  shows "task_done k idxs s s'"
proof (cases a)
  case (BatchAnswer revision items)
  then obtain its where its: "rmap_list (\<lambda>i. case dget items i of None \<Rightarrow> Inl (KeyError (''r'' @ nat_str i)) | Some it \<Rightarrow> Inr (i, it)) idxs = Inr its"
    and s': "rm_results s' = fold (\<lambda>(i, it). dset i (item_result it)) its (rm_results s)"
      "rm_phases s' = (rm_phases s)[k := Finished]" "rm_requests s' = rm_requests s"
    using assms(1) by (auto simp: answer_chunk_def rbind_Inr_iff Let_def)
  show ?thesis unfolding task_done_def s' keys_items items_indexes [OF its] by simp
next
  case (SingleAnswer raw)
  then have "batch_max = 0" using assms(2) by simp
  then obtain i where "idxs = [i]" using assms(3) by (auto simp: chunk_ok_def length_Suc_conv)
  then have "s' = s\<lparr>rm_results := dset i (parse_premium raw) (rm_results s), rm_breaker := record_success (rm_breaker s),
      rm_phases := (rm_phases s)[k := Finished]\<rparr>"
    using assms(1) SingleAnswer by (simp add: answer_chunk_def)
  with \<open>idxs = [i]\<close> show ?thesis by (simp add: task_done_def keys_dset)
next
  case (ChunkFailed e)
  then show ?thesis
    using assms(1) finish_failed_done [of k idxs "s\<lparr>rm_breaker := record_failure now (ce_code e) False (rm_breaker s)\<rparr>" "ce_code e" "is_transient e"]
    by (auto simp: answer_chunk_def task_done_def)
qed

section \<open>The invariant of a run\<close>

definition unsent :: "remote_state \<Rightarrow> nat" where
  "unsent s = length (filter (\<lambda>p. p \<noteq> Sending \<and> p \<noteq> Finished) (rm_phases s))"

definition remote_inv :: "impact_config \<Rightarrow> nat list list \<Rightarrow> remote_state \<Rightarrow> bool" where
  "remote_inv cfg chunks s \<longleftrightarrow> length (rm_phases s) = length chunks
     \<and> keys (rm_results s) = (\<Union>k \<in> {k. k < length chunks \<and> rm_phases s ! k = Finished}. set (chunks ! k))
     \<and> rm_requests s + unsent s \<le> length chunks \<and> int (sending s) \<le> max 0 (ic_request_concurrency cfg)"

lemma count_update:
  assumes "k < length xs"
  shows "length (filter P (xs[k := x])) + (if P (xs ! k) then 1 else 0) = length (filter P xs) + (if P x then 1 else 0)"
  using assms
proof (induction xs arbitrary: k)
  case (Cons y ys)
  then show ?case by (cases k) (auto split: if_splits)
qed simp

lemma inv_moved:
  assumes "remote_inv cfg chunks s" "k < length chunks" "task_moved k p s s'" "p \<noteq> Sending" "p \<noteq> Finished"
    and "rm_phases s ! k \<noteq> Sending" "rm_phases s ! k \<noteq> Finished"
  shows "remote_inv cfg chunks s'"
proof -
  have len: "k < length (rm_phases s)" using assms by (simp add: remote_inv_def)
  have fin: "{i. i < length chunks \<and> rm_phases s' ! i = Finished} = {i. i < length chunks \<and> rm_phases s ! i = Finished}"
    using assms len by (auto simp: task_moved_def nth_list_update)
  show ?thesis
    using assms fin count_update [OF len, of "\<lambda>p. p \<noteq> Sending \<and> p \<noteq> Finished" p] count_update [OF len, of "\<lambda>p. p = Sending" p]
    by (simp add: remote_inv_def task_moved_def unsent_def sending_def)
qed

lemma inv_done:
  assumes "remote_inv cfg chunks s" "k < length chunks" "task_done k (chunks ! k) s s'" "rm_phases s ! k \<noteq> Finished"
  shows "remote_inv cfg chunks s'"
proof -
  have len: "k < length (rm_phases s)" using assms by (simp add: remote_inv_def)
  have fin: "{i. i < length chunks \<and> rm_phases s' ! i = Finished} = insert k {i. i < length chunks \<and> rm_phases s ! i = Finished}"
    using assms len by (auto simp: task_done_def nth_list_update)
  show ?thesis
    using assms fin count_update [OF len, of "\<lambda>p. p \<noteq> Sending \<and> p \<noteq> Finished" Finished] count_update [OF len, of "\<lambda>p. p = Sending" Finished]
    by (auto simp: remote_inv_def task_done_def unsent_def sending_def split: if_splits)
qed

lemma inv_send:
  assumes "remote_inv cfg chunks s" "k < length chunks" "rm_phases s ! k = Queued" "int (sending s) < ic_request_concurrency cfg"
  shows "remote_inv cfg chunks (send_chunk k s)"
proof -
  have len: "k < length (rm_phases s)" using assms by (simp add: remote_inv_def)
  have fin: "{i. i < length chunks \<and> (rm_phases s)[k := Sending] ! i = Finished} = {i. i < length chunks \<and> rm_phases s ! i = Finished}"
    using assms len by (auto simp: nth_list_update)
  show ?thesis
    using assms fin count_update [OF len, of "\<lambda>p. p \<noteq> Sending \<and> p \<noteq> Finished" Sending] count_update [OF len, of "\<lambda>p. p = Sending" Sending]
    by (auto simp: remote_inv_def send_chunk_def unsent_def sending_def)
qed

lemma remote_run_inv:
  assumes "remote_run cfg batch_max chunks s" "list_all (chunk_ok batch_max) chunks"
  shows "remote_inv cfg chunks s"
  using assms(1)
proof induction
  case start
  then show ?case by (auto simp: remote_inv_def remote_start_def unsent_def sending_def)
next
  case (step s s')
  from step.hyps(2) show ?case
  proof cases
    case (begins k now)
    then have "rm_phases s ! k \<noteq> Sending" "rm_phases s ! k \<noteq> Finished" by simp_all
    then show ?thesis
      using begin_task [of k s "chunks ! k" now] inv_moved [OF step.IH begins(2), where s' = s'] inv_done [OF step.IH begins(2), where s' = s']
      unfolding begins(1) [symmetric] by blast
  next
    case (reads k flag now)
    then have "rm_phases s ! k \<noteq> Sending" "rm_phases s ! k \<noteq> Finished" by simp_all
    then show ?thesis
      using read_task [of k s "chunks ! k" flag now] inv_moved [OF step.IH reads(2), where s' = s'] inv_done [OF step.IH reads(2), where s' = s']
      unfolding reads(1) [symmetric] by blast
  next
    case (sends k)
    then show ?thesis using inv_send [OF step.IH sends(2,3,4)] by simp
  next
    case (answers k a now)
    have "chunk_ok batch_max (chunks ! k)" using assms(2) answers(1) by (simp add: list_all_length)
    from answer_task [OF answers(4,3) this] show ?thesis using inv_done [OF step.IH answers(1)] answers(2) by simp
  qed
qed

lemma chunks_of_ok:
  "0 < n \<Longrightarrow> (batch_max = 0 \<longrightarrow> n = 1) \<Longrightarrow> list_all (chunk_ok batch_max) (chunks_of n xs) \<and> concat (chunks_of n xs) = xs"
proof (induction n xs rule: chunks_of.induct)
  case (1 n xs)
  show ?case
  proof (cases "xs = []")
    case False
    then have "chunk_ok batch_max (take n xs)" using "1.prems" by (cases xs) (auto simp: chunk_ok_def)
    moreover have "list_all (chunk_ok batch_max) (chunks_of n (drop n xs)) \<and> concat (chunks_of n (drop n xs)) = drop n xs"
      using "1.IH" "1.prems" False by simp
    ultimately show ?thesis using False "1.prems"(1) by (simp add: chunks_of.simps [of n xs])
  qed (simp add: chunks_of.simps)
qed

lemma chunk_size_ok: "0 < chunk_size cfg batch_max \<and> (batch_max = 0 \<longrightarrow> chunk_size cfg batch_max = 1)"
  by (auto simp: chunk_size_def)

text \<open>The concurrent part of a batch, however its tasks interleave and whatever the connector
  answers: at every moment at most the configured number of requests is outstanding and no more
  requests have been sent than there are chunks; and when every task has finished, exactly the
  pending rows have a result.\<close>

theorem remote_rows_resolved:
  assumes "remote_run cfg batch_max (chunks_of (chunk_size cfg batch_max) idxs) s" "0 \<le> ic_request_concurrency cfg"
  shows "int (sending s) \<le> ic_request_concurrency cfg \<and> rm_requests s \<le> length (chunks_of (chunk_size cfg batch_max) idxs)
    \<and> (set (rm_phases s) \<subseteq> {Finished} \<longrightarrow> fst ` set (rm_results s) = set idxs)"
proof -
  let ?cs = "chunks_of (chunk_size cfg batch_max) idxs"
  have ok: "list_all (chunk_ok batch_max) ?cs" and idxs: "concat ?cs = idxs"
    using chunks_of_ok [OF conjunct1 [OF chunk_size_ok] conjunct2 [OF chunk_size_ok]] by simp_all
  have inv: "remote_inv cfg ?cs s" by (rule remote_run_inv [OF assms(1) ok])
  have "fst ` set (rm_results s) = set idxs" if "set (rm_phases s) \<subseteq> {Finished}"
  proof -
    have len: "length (rm_phases s) = length ?cs" using inv by (simp add: remote_inv_def)
    have "rm_phases s ! k = Finished" if "k < length ?cs" for k
    proof -
      have "rm_phases s ! k \<in> set (rm_phases s)" using that len by simp
      then show ?thesis using \<open>set (rm_phases s) \<subseteq> {Finished}\<close> by blast
    qed
    then have "{k. k < length ?cs \<and> rm_phases s ! k = Finished} = {..<length ?cs}" by auto
    then have "fst ` set (rm_results s) = (\<Union>k \<in> {..<length ?cs}. set (?cs ! k))" using inv by (simp add: remote_inv_def)
    also have "\<dots> = \<Union> (set ` set ?cs)" unfolding set_conv_nth [of ?cs] by (simp add: setcompr_eq_image image_image lessThan_def)
    also have "\<dots> = set (concat ?cs)" by simp
    finally show ?thesis using idxs by simp
  qed
  moreover have "rm_requests s \<le> length ?cs" "int (sending s) \<le> ic_request_concurrency cfg"
    using inv assms(2) by (simp_all add: remote_inv_def)
  ultimately show ?thesis by blast
qed

definition small_config :: impact_config where "small_config = impact_config_of [] (Dec False 0 (- 2))"

theorem remote_rows_resolved_witness:
  "int (sending (remote_start small_config 1)) \<le> 5 \<and> rm_requests (remote_start small_config 1) \<le> 1"
proof -
  have c: "ic_request_concurrency small_config = 5" and cs: "chunks_of (chunk_size small_config 0) [7 :: nat] = [[7]]"
    by (simp_all add: small_config_def impact_config_of_def spec_int_def dget_default_def chunk_size_def chunks_of.simps)
  have "remote_run small_config 0 (chunks_of (chunk_size small_config 0) [7]) (remote_start small_config 1)"
    using remote_run.start [of small_config 0 "[[7]]"] cs by simp
  from remote_rows_resolved [OF this] show ?thesis by (simp add: c cs)
qed

section \<open>The breaker does not stop a batch\<close>

definition timeout_error :: connector_error where
  "timeout_error = \<lparr>ce_code = ''CONNECTOR_TIMEOUT'', ce_category = RETRYABLE\<rparr>"

definition queued_state :: "impact_config \<Rightarrow> nat \<Rightarrow> nat \<Rightarrow> remote_state" where
  "queued_state cfg m n = (remote_start cfg (m + n))\<lparr>rm_checked_at := Some 0, rm_phases := replicate m Queued @ replicate n Waiting\<rparr>"

lemma replicate_update: "(replicate m a @ b # xs)[m := c] = replicate m a @ c # xs"
  by (simp add: list_update_append)

lemma queued_run:
  assumes "length chunks = Suc m + n"
  shows "remote_run cfg 0 chunks (queued_state cfg (Suc m) n)"
  using assms
proof (induction m arbitrary: n)
  case 0
  let ?s = "(remote_start cfg (Suc n))\<lparr>rm_checked_at := Some 0, rm_phases := (replicate (Suc n) Waiting)[0 := Reading]\<rparr>"
  have s: "remote_start cfg (length chunks) = remote_start cfg (Suc n)" using 0 by simp
  have "remote_step cfg 0 chunks (remote_start cfg (Suc n)) (begin_chunk 0 (chunks ! 0) 0 (remote_start cfg (Suc n)))"
    using 0 by (intro remote_step.begins) (simp_all add: remote_start_def)
  moreover have "begin_chunk 0 (chunks ! 0) 0 (remote_start cfg (Suc n)) = ?s"
    by (simp add: begin_chunk_def remote_start_def)
  ultimately have "remote_run cfg 0 chunks ?s"
    using remote_run.step [OF remote_run.start [of cfg 0 chunks]] s by simp
  moreover have "remote_step cfg 0 chunks ?s (cancel_read 0 (chunks ! 0) False 0 ?s)"
    using 0 by (intro remote_step.reads) simp_all
  moreover have "cancel_read 0 (chunks ! 0) False 0 ?s = queued_state cfg (Suc 0) n"
    by (simp add: cancel_read_def gate_def breaker_allow_def remote_start_def new_breaker_def queued_state_def)
  ultimately show ?case using remote_run.step by metis
next
  case (Suc m)
  let ?s = "queued_state cfg (Suc m) (Suc n)"
  have "remote_run cfg 0 chunks ?s" using Suc by simp
  moreover have "remote_step cfg 0 chunks ?s (begin_chunk (Suc m) (chunks ! Suc m) 0 ?s)"
    using Suc.prems by (intro remote_step.begins) (simp_all add: queued_state_def nth_append)
  moreover have "begin_chunk (Suc m) (chunks ! Suc m) 0 ?s = queued_state cfg (Suc (Suc m)) n"
    using replicate_update [of "Suc m" Queued Waiting "replicate n Waiting" Queued]
    by (simp add: begin_chunk_def gate_def breaker_allow_def remote_start_def new_breaker_def queued_state_def
        replicate_append_same)
  ultimately show ?case using remote_run.step by metis
qed

text \<open>Every queued task is sent, one after the other, and times out.\<close>

definition timed_out :: "nat \<Rightarrow> nat \<Rightarrow> remote_state \<Rightarrow> bool" where
  "timed_out j n s \<longleftrightarrow> rm_phases s = replicate j Finished @ replicate n Queued \<and> rm_requests s = j
     \<and> cb_permanent (rm_breaker s) = None \<and> cb_failures (rm_breaker s) = int j
     \<and> (cb_threshold (rm_breaker s) \<le> int j \<longrightarrow> j = 0 \<or> 0 < cb_times_opened (rm_breaker s))
     \<and> (cb_opened_at (rm_breaker s) \<noteq> None \<longrightarrow> 0 < cb_times_opened (rm_breaker s))"

lemma timeout_run:
  assumes "remote_run cfg 0 chunks s" "timed_out j (Suc n) s" "length chunks = j + Suc n" "1 \<le> ic_request_concurrency cfg"
  shows "\<exists>s'. remote_run cfg 0 chunks s' \<and> timed_out (Suc j) n s' \<and> cb_threshold (rm_breaker s') = cb_threshold (rm_breaker s)"
proof -
  let ?s1 = "send_chunk j s"
  let ?s2 = "finish_failed j (chunks ! j) ''CONNECTOR_TIMEOUT'' True (?s1\<lparr>rm_breaker := record_failure 0 ''CONNECTOR_TIMEOUT'' False (rm_breaker s)\<rparr>)"
  have ph: "rm_phases s ! j = Queued" and s0: "sending s = 0"
    using assms(2) by (simp_all add: timed_out_def nth_append sending_def)
  have len: "length (rm_phases s) = j + Suc n" using assms(2) by (simp add: timed_out_def)
  have "remote_step cfg 0 chunks s ?s1"
    using assms(3,4) ph s0 by (intro remote_step.sends) simp_all
  then have run1: "remote_run cfg 0 chunks ?s1" by (rule remote_run.step [OF assms(1)])
  have "answer_chunk j (chunks ! j) (ChunkFailed timeout_error) 0 ?s1 = Inr ?s2"
    by (simp add: answer_chunk_def timeout_error_def is_transient_def send_chunk_def)
  then have "remote_step cfg 0 chunks ?s1 ?s2"
    using assms(3) len by (intro remote_step.answers [where a = "ChunkFailed timeout_error"]) (simp_all add: send_chunk_def)
  then have run2: "remote_run cfg 0 chunks ?s2" by (rule remote_run.step [OF run1])
  have code: "\<not> is_systemic_permanent ''CONNECTOR_TIMEOUT''"
    by (simp add: is_systemic_permanent_def systemic_permanent_codes_def auth_codes_def)
  have phases: "rm_phases ?s2 = replicate (Suc j) Finished @ replicate n Queued"
    using assms(2) replicate_update [of j Finished Queued "replicate n Queued" Finished]
    by (simp add: timed_out_def finish_failed_def send_chunk_def replicate_append_same)
  have "timed_out (Suc j) n ?s2 \<and> cb_threshold (rm_breaker ?s2) = cb_threshold (rm_breaker s)"
    using assms(2) code phases
    by (auto simp: timed_out_def finish_failed_def send_chunk_def record_failure_def Let_def)
  with run2 show ?thesis by blast
qed

text \<open>C15: The circuit breaker does not protect the connector within a batch: the tasks pass its gate
  before they queue for the semaphore, so there is a run in which every request times out, the
  breaker opens, and all requests of the batch are sent all the same.\<close>

theorem breaker_never_stops_queued_requests:
  assumes "1 \<le> ic_request_concurrency cfg" "1 \<le> ic_breaker_threshold cfg" "ic_breaker_threshold cfg \<le> int n"
  shows "\<exists>s. remote_run cfg 0 (map (\<lambda>i. [i]) [0..<n]) s \<and> set (rm_phases s) \<subseteq> {Finished}
    \<and> rm_requests s = n \<and> 0 < cb_times_opened (rm_breaker s)"
proof -
  let ?cs = "map (\<lambda>i. [i]) [0..<n]"
  have n: "0 < n" using assms by linarith
  then obtain m where m: "n = Suc m" by (cases n) auto
  have "\<exists>s. remote_run cfg 0 ?cs s \<and> timed_out j (n - j) s \<and> cb_threshold (rm_breaker s) = ic_breaker_threshold cfg" if "j \<le> n" for j
    using that
  proof (induction j)
    case 0
    have "remote_run cfg 0 ?cs (queued_state cfg n 0)" using queued_run [of ?cs m 0 cfg] m by simp
    moreover have "timed_out 0 n (queued_state cfg n 0)"
      by (simp add: timed_out_def queued_state_def remote_start_def new_breaker_def)
    moreover have "cb_threshold (rm_breaker (queued_state cfg n 0)) = ic_breaker_threshold cfg"
      by (simp add: queued_state_def remote_start_def new_breaker_def)
    ultimately show ?case by (metis diff_zero)
  next
    case (Suc j)
    then obtain s where s: "remote_run cfg 0 ?cs s" "timed_out j (n - j) s" "cb_threshold (rm_breaker s) = ic_breaker_threshold cfg"
      by auto
    have "n - j = Suc (n - Suc j)" using Suc.prems by simp
    then show ?case using timeout_run [OF s(1), of j "n - Suc j"] s(2,3) assms(1) Suc.prems by auto
  qed
  from this [of n] obtain s where s: "remote_run cfg 0 ?cs s" "timed_out n 0 s" "cb_threshold (rm_breaker s) = ic_breaker_threshold cfg"
    by auto
  then have "set (rm_phases s) \<subseteq> {Finished}" "rm_requests s = n" "0 < cb_times_opened (rm_breaker s)"
    using assms(3) n by (auto simp: timed_out_def)
  with s(1) show ?thesis by blast
qed

theorem breaker_never_stops_queued_requests_witness:
  "\<exists>s. remote_run small_config 0 (map (\<lambda>i. [i]) [0..<200]) s \<and> rm_requests s = 200 \<and> 0 < cb_times_opened (rm_breaker s)"
  using breaker_never_stops_queued_requests [of small_config 200]
  by (auto simp: small_config_def impact_config_of_def spec_int_def dget_default_def simp del: upt_rec_numeral)

section \<open>A batch accounts for its rows\<close>

text \<open>The row indices that a batch record lists, and those that are matched.\<close>

definition listed :: "scope_row list \<Rightarrow> affected_row list \<Rightarrow> inconclusive_row list \<Rightarrow> nat list" where
  "listed os as ics = map fst os @ map fst as @ map fst ics"

definition accounted :: "batch_record \<Rightarrow> bool" where
  "accounted b \<longleftrightarrow> (let idxs = listed (br_out_of_scope b) (br_affected b) (br_inconclusive b) in
     distinct idxs \<and> set idxs \<subseteq> {br_row_start b..<br_row_end b}
     \<and> br_matched b + length idxs = br_row_end b - br_row_start b)"

definition batch_ok :: "batch_record \<Rightarrow> bool" where
  "batch_ok b \<longleftrightarrow> first_pass b \<or> accounted b"

definition matched_indexes :: "(nat \<times> row_result) list \<Rightarrow> nat list" where
  "matched_indexes rows = map fst (filter (\<lambda>(i, r). r = Match) rows)"

lemma matched_rows_length: "matched_rows rows = length (matched_indexes rows)"
  by (simp add: matched_rows_def matched_indexes_def)

lemma rows_partition:
  "mset (map fst rows) = mset (listed (scope_rows rows) (affected_rows rows) (inconclusive_rows rows)) + mset (matched_indexes rows)"
proof (induction rows)
  case (Cons x rows)
  obtain i r where "x = (i, r)" by (cases x)
  with Cons show ?case
    by (cases r) (simp_all add: listed_def scope_rows_def affected_rows_def inconclusive_rows_def matched_indexes_def)
qed (simp add: listed_def scope_rows_def affected_rows_def inconclusive_rows_def matched_indexes_def)

fun outcome_index :: "local_outcome \<Rightarrow> nat" where
  "outcome_index (Settled i r) = i"
| "outcome_index (Priced p) = pr_index p"

lemma local_row_index: "local_row topo pkg product rows i = Inr l \<Longrightarrow> outcome_index l = i"
  by (auto simp: local_row_def Let_def split: if_splits sum.splits exn.splits prod.splits)

lemma local_rows_indexes: "rmap_list (local_row topo pkg product rows) idxs = Inr ls \<Longrightarrow> map outcome_index ls = idxs"
  by (induction idxs arbitrary: ls) (auto simp: rbind_Inr_iff dest: local_row_index)

lemma settled_pending: "mset (map fst (settled_rows ls)) + mset (map pr_index (pending_rows ls)) = mset (map outcome_index ls)"
proof (induction ls)
  case (Cons l ls)
  then show ?case by (cases l) (simp_all add: settled_rows_def pending_rows_def)
qed (simp add: settled_rows_def pending_rows_def)

lemma remote_row_index: "remote_row tol results p = Inr x \<Longrightarrow> fst x = pr_index p"
  by (auto simp: remote_row_def rbind_Inr_iff split: option.splits remote_result.splits)

lemma remote_rows_indexes: "rmap_list (remote_row tol results) ps = Inr rows \<Longrightarrow> map fst rows = map pr_index ps"
  by (induction ps arbitrary: rows) (auto simp: rbind_Inr_iff dest: remote_row_index)

lemma execute_cases:
  assumes "execute topo cfg pkg snapshot remote job b = Inr r"
  obtains ls s rows where "rmap_list (local_row topo pkg (ij_product job) (ps_rows snapshot)) (batch_indexes b) = Inr ls"
    "run_remote remote (pending_rows ls) = Inr s" "rmap_list (remote_row (ic_premium_tolerance cfg) (rs_results s)) (pending_rows ls) = Inr rows"
    "r = collect b s (settled_rows ls @ rows)"
  using assms that by (auto simp: execute_def rbind_Inr_iff split: if_splits)

lemma executed_indexes:
  assumes "rmap_list (local_row topo pkg product rws) idxs = Inr ls" "rmap_list (remote_row tol results) (pending_rows ls) = Inr rows"
  shows "mset (map fst (settled_rows ls @ rows)) = mset idxs"
  using settled_pending [of ls] local_rows_indexes [OF assms(1)] remote_rows_indexes [OF assms(2)] by simp

text \<open>The rows a batch has already settled before a pass.\<close>

definition kept_rows :: "batch_record \<Rightarrow> nat list" where
  "kept_rows b = (if first_pass b then [] else
     listed (br_out_of_scope b) (br_affected b) (filter (\<lambda>(i, c, t). \<not> t) (br_inconclusive b)))"

definition all_rows :: "batch_record \<Rightarrow> nat list" where
  "all_rows b = (if first_pass b then [br_row_start b..<br_row_end b]
     else listed (br_out_of_scope b) (br_affected b) (br_inconclusive b))"

lemma kept_and_open: "mset (kept_rows b) + mset (batch_indexes b) = mset (all_rows b)"
proof -
  have "mset (map fst (filter (\<lambda>(i, c, t). \<not> t) xs)) + mset (map fst (filter (\<lambda>(i, c, t). t) xs)) = mset (map fst xs)"
    for xs :: "inconclusive_row list"
    by (induction xs) auto
  then show ?thesis
    by (auto simp: kept_rows_def batch_indexes_def all_rows_def listed_def unresolved_transient_def add_ac)
qed

lemma collect_listed:
  "mset (listed (bt_out_of_scope (collect b s rows)) (bt_affected (collect b s rows)) (bt_inconclusive (collect b s rows)))
     + mset (matched_indexes rows) = mset (kept_rows b) + mset (map fst rows)"
proof -
  have "mset (map fst (sort_key fst xs)) = mset (map fst xs)" for xs :: "(nat \<times> 'c) list" by (metis mset_map mset_sort)
  then show ?thesis
    using rows_partition [of rows] by (simp add: collect_def Let_def listed_def kept_rows_def add_ac)
qed

text \<open>C13: A successful pass over a batch, the first one or a retry of its transient failures, leaves
  every row of the batch in exactly one place: matched, out of scope, affected or inconclusive;
  no row is lost or counted twice.\<close>

theorem batch_rows_accounted:
  assumes "execute topo cfg pkg snapshot remote job b = Inr r" "batch_ok b"
  shows "accounted (apply_batch_update now st (FullResult r ms) b)"
proof -
  from assms(1) obtain ls s rows where e: "rmap_list (local_row topo pkg (ij_product job) (ps_rows snapshot)) (batch_indexes b) = Inr ls"
    "rmap_list (remote_row (ic_premium_tolerance cfg) (rs_results s)) (pending_rows ls) = Inr rows"
    and r: "r = collect b s (settled_rows ls @ rows)" by (rule execute_cases)
  let ?rows = "settled_rows ls @ rows" and ?l = "listed (bt_out_of_scope r) (bt_affected r) (bt_inconclusive r)"
  have total: "mset ?l + mset (matched_indexes ?rows) = mset (all_rows b)"
    using collect_listed [of b s ?rows] executed_indexes [OF e] kept_and_open [of b] r by simp
  have base: "distinct (all_rows b)" "set (all_rows b) \<subseteq> {br_row_start b..<br_row_end b}"
    "(if first_pass b then 0 else br_matched b) + length (all_rows b) = br_row_end b - br_row_start b"
    using assms(2) by (auto simp: all_rows_def batch_ok_def accounted_def Let_def)
  have "distinct (?l @ matched_indexes ?rows)"
    using base(1) total by (metis mset_append mset_eq_imp_distinct_iff)
  moreover have "set (?l @ matched_indexes ?rows) = set (all_rows b)"
    using total by (metis mset_append mset_eq_setD)
  moreover have "length ?l + length (matched_indexes ?rows) = length (all_rows b)"
    using total by (metis length_append mset_append mset_eq_length)
  moreover have "bt_matched r = (if first_pass b then 0 else br_matched b) + length (matched_indexes ?rows)"
    using r by (simp add: collect_def Let_def matched_rows_length)
  ultimately show ?thesis
    using base by (auto simp: accounted_def Let_def apply_batch_update_def release_def)
qed

section \<open>Affected rows\<close>

lemma affected_rows_iff: "(i, e, c) \<in> set (affected_rows rows) \<longleftrightarrow> (i, Affected e c) \<in> set rows"
  by (induction rows) (auto simp: affected_rows_def split: row_result.splits)

lemma settled_not_affected:
  assumes "rmap_list (local_row topo pkg product rws) idxs = Inr ls"
  shows "(i, Affected e c) \<notin> set (settled_rows ls)"
proof -
  have "local_row topo pkg product rws k \<noteq> Inr (Settled i (Affected e c))" for k
    by (auto simp: local_row_def Let_def split: if_splits sum.splits exn.splits)
  then show ?thesis
    using assms by (induction idxs arbitrary: ls) (auto simp: rbind_Inr_iff settled_rows_def split: local_outcome.splits)
qed

lemma pending_iff:
  "rmap_list (local_row topo pkg product rws) idxs = Inr ls \<Longrightarrow>
     p \<in> set (pending_rows ls) \<longleftrightarrow> pr_index p \<in> set idxs \<and> local_row topo pkg product rws (pr_index p) = Inr (Priced p)"
proof (induction idxs arbitrary: ls)
  case (Cons i idxs)
  then obtain l ls' where l: "local_row topo pkg product rws i = Inr l" "rmap_list (local_row topo pkg product rws) idxs = Inr ls'" "ls = l # ls'"
    by (auto simp: rbind_Inr_iff)
  have "outcome_index l = i" by (rule local_row_index [OF l(1)])
  then show ?case using Cons.IH [OF l(2)] l by (cases l) (auto simp: pending_rows_def)
qed (simp add: pending_rows_def)

lemma rmap_list_set: "rmap_list f xs = Inr ys \<Longrightarrow> y \<in> set ys \<longleftrightarrow> (\<exists>x \<in> set xs. f x = Inr y)"
  by (induction xs arbitrary: ys) (auto simp: rbind_Inr_iff)

text \<open>The connector's premium \<open>v\<close> differs from the expected one by more than the tolerance.\<close>

definition mismatch :: "decimal \<Rightarrow> pending_row \<Rightarrow> decimal \<Rightarrow> bool" where
  "mismatch tolerance p v \<longleftrightarrow>
     (\<exists>d a. dec_sub v (pr_expected p) = Inr d \<and> dec_abs d = Inr a \<and> dec_less tolerance a)"

lemma remote_row_affected:
  "remote_row tol results p = Inr (i, Affected e c) \<longleftrightarrow> i = pr_index p \<and> e = dec_str (pr_expected p) \<and>
     (\<exists>v. dget results i = Some (Premium v) \<and> c = dec_str v \<and> mismatch tol p v)"
  by (auto simp: remote_row_def rbind_Inr_iff mismatch_def split: option.splits remote_result.splits if_splits)

text \<open>C14: On its first pass a batch reports exactly these rows as affected: those the package prices
  locally for which the connector returned a premium that differs from the expected one by more
  than the tolerance, each with the two premiums as text.\<close>

theorem affected_rows_exact:
  assumes "execute topo cfg pkg snapshot (\<lambda>_. Inr sm) job b = Inr r" "first_pass b"
  shows "(i, e, c) \<in> set (bt_affected r) \<longleftrightarrow> br_row_start b \<le> i \<and> i < br_row_end b
    \<and> (\<exists>p v. local_row topo pkg (ij_product job) (ps_rows snapshot) i = Inr (Priced p) \<and> dget (rs_results sm) i = Some (Premium v)
         \<and> mismatch (ic_premium_tolerance cfg) p v \<and> e = dec_str (pr_expected p) \<and> c = dec_str v)"
proof -
  from assms(1) obtain ls s rows where l: "rmap_list (local_row topo pkg (ij_product job) (ps_rows snapshot)) (batch_indexes b) = Inr ls"
    and s: "run_remote (\<lambda>_. Inr sm) (pending_rows ls) = Inr s"
    and rows: "rmap_list (remote_row (ic_premium_tolerance cfg) (rs_results s)) (pending_rows ls) = Inr rows"
    and r: "r = collect b s (settled_rows ls @ rows)" by (rule execute_cases)
  have idx: "set (batch_indexes b) = {br_row_start b..<br_row_end b}" using assms(2) by (simp add: batch_indexes_def)
  have "(i, e, c) \<in> set (bt_affected r) \<longleftrightarrow> (i, Affected e c) \<in> set rows"
    using assms(2) r settled_not_affected [OF l, of i e c] by (simp add: collect_def Let_def affected_rows_iff)
  also have "\<dots> \<longleftrightarrow> (\<exists>p \<in> set (pending_rows ls). remote_row (ic_premium_tolerance cfg) (rs_results s) p = Inr (i, Affected e c))"
    by (rule rmap_list_set [OF rows])
  also have "\<dots> \<longleftrightarrow> (\<exists>p \<in> set (pending_rows ls). remote_row (ic_premium_tolerance cfg) (rs_results sm) p = Inr (i, Affected e c))"
    using s by (cases "pending_rows ls = []") (auto simp: run_remote_def)
  also have "\<dots> \<longleftrightarrow> br_row_start b \<le> i \<and> i < br_row_end b
    \<and> (\<exists>p v. local_row topo pkg (ij_product job) (ps_rows snapshot) i = Inr (Priced p) \<and> dget (rs_results sm) i = Some (Premium v)
         \<and> mismatch (ic_premium_tolerance cfg) p v \<and> e = dec_str (pr_expected p) \<and> c = dec_str v)"
    using local_row_index [of topo pkg "ij_product job" "ps_rows snapshot" i]
    unfolding remote_row_affected Bex_def pending_iff [OF l] idx by (auto; fastforce)
  finally show ?thesis .
qed

text \<open>One policy that the package prices at 1225.00 and the connector at 1300.00.\<close>

definition sample_policy_row :: synthetic_policy where
  "sample_policy_row = \<lparr>sp_policy_id = ''P1'', sp_product_id = ''HO3'', sp_state = ''AZ'', sp_form = ''HO3'',
     sp_transaction_type = NEW_BUSINESS, sp_effective_date = Date 2026 3 1, sp_territory = ''T1'', sp_roof_age = 20,
     sp_deductible = 1000, sp_protection_class = 3, sp_construction_type = ''FRAME'', sp_dwelling_limit = 250000,
     sp_multi_policy = False, sp_claims_free = True, sp_claims_free_years = 3, sp_canonical_premium = Dec False 1225 0,
     sp_target_premium = None\<rparr>"

definition sample_snapshot :: portfolio_snapshot where
  "sample_snapshot = \<lparr>ps_dataset = ''d'', ps_sha256 = ''s'', ps_rows = [sample_policy_row]\<rparr>"

definition scan_job :: impact_job where
  "scan_job = \<lparr>ij_tenant = ''t'', ij_job_id = ''IJ-0123456789abcdef01234567'', ij_mission_id = ''m'', ij_attempt = 1, ij_created_at = 0,
     ij_as_of = Date 2026 1 1, ij_status = RUNNING, ij_product = ''ho3'', ij_jurisdiction = None,
     ij_snapshot = (''d'', ''s'', 1), ij_source = [], ij_connector = \<lparr>cr_connector_id = ''c'', cr_engine_version = ''1'', cr_batch_max_items = 0\<rparr>,
     ij_batch_size = 10, ij_batch_count = 1, ij_rows_total = 1, ij_rows_in_scope = 1, ij_budgets = impact_config_of [] (Dec False 0 (- 2)),
     ij_cancel_requested = False, ij_halt_reason = None, ij_budget_exhausted = [], ij_progress = [],
     ij_aggregate = None, ij_finalized_at = None\<rparr>"

definition scan_batch :: batch_record where "scan_batch = new_batch 0 ''t'' ''IJ-0123456789abcdef01234567'' (0, 0, 1)"

definition dear_answer :: remote_summary where
  "dear_answer = no_remote\<lparr>rs_results := [(0, Premium (Dec False 130000 (-2)))], rs_requests := 1\<rparr>"

lemma sample_local: "\<exists>p. local_row kahn_sort full_package ''ho3'' [sample_policy_row] 0 = Inr (Priced p)
    \<and> pr_index p = 0 \<and> pr_expected p = Dec False 122500 (-2)"
proof -
  obtain r where r: "evaluate_package kahn_sort full_package roof20 (Date 2026 3 1) NEW_BUSINESS False = Inr r"
    "or_final_premium r = Dec False 122500 (-2)" using full_run by blast
  have "rating_inputs sample_policy_row (map pi_id (pkg_inputs full_package)) = roof20"
    by (simp add: rating_inputs_def rating_values_def sample_policy_row_def full_package_def sample_package_def sample_input_def roof20_def)
  moreover have "calculate_policy_premium kahn_sort full_package roof20 (Some (PDate (Date 2026 3 1))) None (Some (PStr ''NEW_BUSINESS''))
      = Inr (r, Date 2026 3 1, EXPLICIT)"
    using r by (simp add: calculate_policy_premium_def resolve_date_def resolve_calculation_date_def parse_calculation_date_def
        full_package_def sample_package_def less_date_def parse_transaction_def transaction_of_string_def clean_inputs_def roof20_def context_keys_def)
  moreover have "norm (sp_product_id sample_policy_row) = norm ''ho3''"
    by (simp add: norm_def sample_policy_row_def py_strip_def is_space_def py_lower_def lower_char_def py_replace_char_def Let_def char_of_def bit_0)
  ultimately show ?thesis
    using r by (simp add: local_row_def Let_def sample_policy_row_def transaction_text_def)
qed

lemma sample_execute: "\<exists>r. execute kahn_sort small_config full_package sample_snapshot (\<lambda>_. Inr dear_answer) scan_job scan_batch = Inr r
    \<and> bt_affected r = [(0, dec_str (Dec False 122500 (-2)), dec_str (Dec False 130000 (-2)))]"
proof -
  obtain p where p: "local_row kahn_sort full_package ''ho3'' [sample_policy_row] 0 = Inr (Priced p)" "pr_index p = 0"
    "pr_expected p = Dec False 122500 (-2)" using sample_local by blast
  have "remote_row (Dec False 0 (- 2)) [(0, Premium (Dec False 130000 (-2)))] p
      = Inr (0, Affected (dec_str (Dec False 122500 (-2))) (dec_str (Dec False 130000 (-2))))"
    using p by (simp add: remote_row_def dec_sub_def dec_add_def dec_exact_add_def dec_abs_def dec_fix_fits dec_fits_def dec_context_defs dval.simps Let_def)
  then show ?thesis
    using p by (simp add: execute_def scan_job_def sample_snapshot_def scan_batch_def new_batch_def batch_indexes_def first_pass_def
        run_remote_def pending_rows_def settled_rows_def dear_answer_def no_remote_def small_config_def impact_config_of_def
        collect_def Let_def affected_rows_def)
qed

theorem batch_rows_accounted_witness:
  "\<exists>r. execute kahn_sort small_config full_package sample_snapshot (\<lambda>_. Inr dear_answer) scan_job scan_batch = Inr r
    \<and> accounted (apply_batch_update 5 DONE (FullResult r 1) scan_batch)"
proof -
  obtain r where "execute kahn_sort small_config full_package sample_snapshot (\<lambda>_. Inr dear_answer) scan_job scan_batch = Inr r"
    using sample_execute by blast
  moreover from this have "accounted (apply_batch_update 5 DONE (FullResult r 1) scan_batch)"
    by (rule batch_rows_accounted) (simp add: batch_ok_def first_pass_def scan_batch_def new_batch_def)
  ultimately show ?thesis by blast
qed

theorem affected_rows_exact_witness:
  "\<exists>p v. local_row kahn_sort full_package (ij_product scan_job) (ps_rows sample_snapshot) 0 = Inr (Priced p)
     \<and> mismatch (ic_premium_tolerance small_config) p v \<and> dec_str v = dec_str (Dec False 130000 (-2))"
proof -
  obtain r where r: "execute kahn_sort small_config full_package sample_snapshot (\<lambda>_. Inr dear_answer) scan_job scan_batch = Inr r"
    "bt_affected r = [(0, dec_str (Dec False 122500 (-2)), dec_str (Dec False 130000 (-2)))]" using sample_execute by blast
  have "first_pass scan_batch" by (simp add: first_pass_def scan_batch_def new_batch_def)
  from affected_rows_exact [OF r(1) this, of 0 "dec_str (Dec False 122500 (-2))" "dec_str (Dec False 130000 (-2))"] r(2)
  show ?thesis by (metis list.set_intros(1))
qed

end
