(* ===== verification/ImpactAggregation.thy ===== *)
theory ImpactAggregation
  imports ImpactProcessorLaws
begin

text \<open>
  One result from the batches of a scan, \<open>src/backend/app/impact/aggregate.py\<close>.

  The JSON of an aggregate is the library's: its size in bytes and the SHA-256 of the part that
  is hashed are the parameters \<open>json_size\<close> and \<open>fingerprint\<close>.  The two percentages are exact
  rationals, not rounded to two digits.
\<close>

section \<open>Decimals\<close>

definition dec_sum :: "decimal list \<Rightarrow> decimal res" where
  "dec_sum ds = rfold (\<lambda>d t. dec_add t d) ds dec_zero"

definition sorted_decimals :: "decimal list \<Rightarrow> decimal list" where
  "sorted_decimals = sort_key dval"

text \<open>\<open>statistics.median\<close>.\<close>

definition dec_median :: "decimal list \<Rightarrow> decimal res" where
  "dec_median ds =
     (let xs = sorted_decimals ds; n = length xs in
      if n = 0 then Inr dec_zero
      else if odd n then Inr (xs ! (n div 2))
      else rbind (dec_add (xs ! (n div 2 - 1)) (xs ! (n div 2))) (\<lambda>s. dec_div s (Dec False 2 0)))"

definition dec_mean :: "decimal list \<Rightarrow> decimal res" where
  "dec_mean ds = rbind (dec_sum ds) (\<lambda>s. dec_div s (dec_of_int (int (length ds))))"

definition first_min :: "decimal list \<Rightarrow> decimal" where
  "first_min ds = fold (\<lambda>d m. dec_min m d) (tl ds) (hd ds)"

definition first_max :: "decimal list \<Rightarrow> decimal" where
  "first_max ds = fold (\<lambda>d m. dec_max m d) (tl ds) (hd ds)"

text \<open>\<open>_money(f(deltas)) if deltas else None\<close>.\<close>

definition money_of :: "decimal list \<Rightarrow> (decimal list \<Rightarrow> decimal res) \<Rightarrow> string option res" where
  "money_of ds f = (if ds = [] then Inr None else rbind (f ds) (\<lambda>d. rbind (money_text d) (\<lambda>s. Inr (Some s))))"

section \<open>The mismatches\<close>

definition row_delta :: "affected_row \<Rightarrow> decimal res" where
  "row_delta = (\<lambda>(i, expected, candidate).
     rbind (decimal_of_string candidate) (\<lambda>c. rbind (decimal_of_string expected) (\<lambda>e. dec_sub c e)))"

record exposure =
  ex_deltas :: "decimal list"
  ex_over_count :: nat
  ex_over_total :: decimal
  ex_under_count :: nat
  ex_under_total :: decimal
  ex_impact :: "(string, policy_impact) dict"

definition no_exposure :: exposure where
  "no_exposure = \<lparr>ex_deltas = [], ex_over_count = 0, ex_over_total = dec_zero, ex_under_count = 0, ex_under_total = dec_zero, ex_impact = []\<rparr>"

definition add_exposure :: "synthetic_policy list \<Rightarrow> affected_row \<Rightarrow> exposure \<Rightarrow> exposure res" where
  "add_exposure rows row x =
     rbind (row_delta row) (\<lambda>delta.
     rbind (if dec_less dec_zero delta
            then rbind (dec_add (ex_over_total x) delta) (\<lambda>t. Inr (x\<lparr>ex_over_count := ex_over_count x + 1, ex_over_total := t\<rparr>))
            else if dec_less delta dec_zero
            then rbind (dec_neg delta) (\<lambda>d. rbind (dec_add (ex_under_total x) d) (\<lambda>t.
                   Inr (x\<lparr>ex_under_count := ex_under_count x + 1, ex_under_total := t\<rparr>)))
            else Inr x) (\<lambda>x'.
     if length rows \<le> fst row then Inl (LookupError ''rows'')
     else rbind (dec_abs delta) (\<lambda>a.
       let pid = sp_policy_id (rows ! fst row) in
       Inr (x'\<lparr>ex_deltas := ex_deltas x @ [delta],
               ex_impact := dset pid \<lparr>im_policy_id = pid, im_signed_variance = delta, im_absolute_variance = a\<rparr> (ex_impact x)\<rparr>))))"

definition exposure_of :: "synthetic_policy list \<Rightarrow> affected_row list \<Rightarrow> exposure res" where
  "exposure_of rows affected = rfold (add_exposure rows) affected no_exposure"

text \<open>\<open>f"ROW-{idx:06d}"\<close>.\<close>

definition row_ref :: "nat \<Rightarrow> string" where
  "row_ref i = ''ROW-'' @ replicate (6 - length (nat_str i)) (CHR ''0'') @ nat_str i"

definition mismatch_example_of :: "synthetic_policy list \<Rightarrow> string list option \<Rightarrow> affected_row \<Rightarrow> mismatch_example res" where
  "mismatch_example_of rows declared = (\<lambda>(i, expected, candidate).
     rbind (row_delta (i, expected, candidate)) (\<lambda>d.
     Inr \<lparr>me_row_ref = row_ref i, me_expected = expected, me_candidate = candidate, me_delta = dec_str d,
          me_rating_inputs = (case declared of None \<Rightarrow> rating_values (rows ! i) | Some ids \<Rightarrow> rating_inputs (rows ! i) ids)\<rparr>))"

text \<open>Largest difference first, then by row.\<close>

definition rank_affected :: "affected_row list \<Rightarrow> affected_row list res" where
  "rank_affected affected =
     rbind (rmap_list (\<lambda>row. rbind (row_delta row) (\<lambda>d. rbind (dec_abs d) (\<lambda>a. Inr (dval a, row)))) affected) (\<lambda>keyed.
     Inr (map snd (sort_key (\<lambda>(a, row). - a) (sort_key (\<lambda>(a, row). fst row) keyed))))"

section \<open>The scan\<close>

definition completed_batches :: "batch_record list \<Rightarrow> batch_record list" where
  "completed_batches = filter (\<lambda>b. br_completed_at b \<noteq> None)"

definition merge_errors :: "batch_record list \<Rightarrow> (string, nat) dict" where
  "merge_errors bs =
     fold (\<lambda>b. fold (\<lambda>(code, n) d. dset code (dget_default d code 0 + n) d) (br_error_classes b)) bs []"

definition revisions_of :: "batch_record list \<Rightarrow> string list" where
  "revisions_of bs =
     sorted_set (concat (map (\<lambda>b. case br_connector_revision b of None \<Rightarrow> [] | Some r \<Rightarrow> if r = [] then [] else [r]) bs))"

definition resolved_rows :: "batch_record list \<Rightarrow> nat list" where
  "resolved_rows bs =
     sorted_set (concat (map (\<lambda>b. filter (\<lambda>i. i \<notin> set (unresolved_transient b)) [br_row_start b..<br_row_end b]) bs))"

record scan_counts =
  sc_processed :: int
  sc_matched :: int
  sc_scope :: "scope_row list"
  sc_inconclusive :: "inconclusive_row list"
  sc_affected :: "affected_row list"

definition count_scan :: "batch_record list \<Rightarrow> scan_counts" where
  "count_scan bs =
     (let cs = completed_batches bs in
      \<lparr>sc_processed = (\<Sum>b\<leftarrow>cs. int (br_row_end b - br_row_start b)),
       sc_matched = (\<Sum>b\<leftarrow>cs. int (br_matched b)),
       sc_scope = concat (map br_out_of_scope cs),
       sc_inconclusive = sort_key fst (concat (map br_inconclusive cs)),
       sc_affected = sort_key fst (concat (map br_affected cs))\<rparr>)"

definition incomplete_reasons :: "impact_job \<Rightarrow> int \<Rightarrow> nat \<Rightarrow> string list" where
  "incomplete_reasons job unprocessed inconclusive =
     (let beyond = int (ij_rows_total job) - int (ij_rows_in_scope job) in
      (if 0 < beyond then [''ROW_BUDGET: '' @ int_str beyond @ '' rows exceed the per-mission row budget.''] else [])
      @ (if 0 < unprocessed - beyond then [''BATCHES_NOT_COMPLETED: some batches did not finish within the mission budget.''] else [])
      @ (if 0 < inconclusive then [''INCONCLUSIVE_ROWS: '' @ nat_str inconclusive @ '' rows could not be compared.''] else [])
      @ map (\<lambda>b. ''BUDGET_EXHAUSTED: '' @ b) (ij_budget_exhausted job)
      @ (case ij_halt_reason job of None \<Rightarrow> [] | Some h \<Rightarrow> if h = [] then [] else [''HALTED: '' @ h]))"

definition scan_complete :: "impact_job \<Rightarrow> batch_record list \<Rightarrow> string list \<Rightarrow> int \<Rightarrow> bool" where
  "scan_complete job bs reasons unprocessed \<longleftrightarrow>
     \<not> ij_cancel_requested job \<and> reasons = [] \<and> unprocessed = 0 \<and> list_all (\<lambda>b. br_state b = DONE) bs"

definition impact_decision :: "bool \<Rightarrow> bool \<Rightarrow> nat \<Rightarrow> string" where
  "impact_decision cancelled whole mismatches =
     (if 0 < mismatches then ''BLOCK'' else if cancelled then ''CANCELLED''
      else if whole then ''PASS_ELIGIBLE'' else ''REVIEW_REQUIRED'')"

definition percent :: "int \<Rightarrow> int \<Rightarrow> rat" where
  "percent a b = (if b = 0 then 0 else of_int a / of_int b * 100)"

definition row_at :: "synthetic_policy list \<Rightarrow> nat \<Rightarrow> synthetic_policy res" where
  "row_at rows i = (if length rows \<le> i then Inl (LookupError ''rows'') else Inr (rows ! i))"

text \<open>The amounts as text.\<close>

record money_fields =
  mf_over :: string
  mf_under :: string
  mf_net :: string
  mf_total :: string
  mf_mean_abs :: "string option"
  mf_median_abs :: "string option"
  mf_mean_signed :: "string option"
  mf_median_signed :: "string option"
  mf_least :: "string option"
  mf_greatest :: "string option"

definition money_fields_of :: "exposure \<Rightarrow> money_fields res" where
  "money_fields_of x =
     rbind (dec_sum (ex_deltas x)) (\<lambda>net.
     rbind (dec_add (ex_over_total x) (ex_under_total x)) (\<lambda>total.
     rbind (rmap_list dec_abs (ex_deltas x)) (\<lambda>abs_deltas.
     rbind (money_text (ex_over_total x)) (\<lambda>over.
     rbind (money_text (ex_under_total x)) (\<lambda>under.
     rbind (money_text net) (\<lambda>net_text.
     rbind (money_text total) (\<lambda>total_text.
     rbind (money_of abs_deltas dec_mean) (\<lambda>mean_abs.
     rbind (money_of abs_deltas dec_median) (\<lambda>median_abs.
     rbind (money_of (ex_deltas x) dec_mean) (\<lambda>mean_signed.
     rbind (money_of (ex_deltas x) dec_median) (\<lambda>median_signed.
     rbind (money_of (ex_deltas x) (\<lambda>ds. Inr (first_min ds))) (\<lambda>least.
     rbind (money_of (ex_deltas x) (\<lambda>ds. Inr (first_max ds))) (\<lambda>greatest.
     Inr \<lparr>mf_over = over, mf_under = under, mf_net = net_text, mf_total = total_text, mf_mean_abs = mean_abs,
          mf_median_abs = median_abs, mf_mean_signed = mean_signed, mf_median_signed = median_signed,
          mf_least = least, mf_greatest = greatest\<rparr>)))))))))))))"

definition aggregate_record ::
  "impact_job \<Rightarrow> batch_record list \<Rightarrow> scan_counts \<Rightarrow> impact_config \<Rightarrow> rat option \<Rightarrow> exposure \<Rightarrow> money_fields \<Rightarrow>
   cohort_metrics list \<Rightarrow> pipeline_impact \<Rightarrow> mismatch_example list \<Rightarrow> impact_aggregate" where
  "aggregate_record job bs c cfg duration x money cohorts pipeline examples =
     (let affected = sc_affected c;
          scoped = sc_scope c;
          inc = sc_inconclusive c;
          compared = sc_matched c + int (length affected);
          eligible = int (ij_rows_total job) - int (length scoped);
          unprocessed = int (ij_rows_total job) - sc_processed c;
          reasons = incomplete_reasons job unprocessed (length inc);
          cancelled = ij_cancel_requested job;
          whole = scan_complete job bs reasons unprocessed;
          done = length (filter (\<lambda>b. br_state b = DONE) bs);
          incomplete = length (filter (\<lambda>b. br_state b = INCOMPLETE) bs) in
      \<lparr>ag_tenant = ij_tenant job, ag_job_id = ij_job_id job, ag_mission_id = ij_mission_id job,
        ag_status = (if cancelled then CANCELLED else if whole then COMPLETE else PARTIAL),
        ag_decision = impact_decision cancelled whole (length affected),
        ag_completeness = (if cancelled then ''CANCELLED'' else if whole then ''COMPLETE'' else ''PARTIAL''),
        ag_incomplete_reasons = reasons, ag_lower_bound = (affected \<noteq> [] \<and> \<not> whole),
        ag_rows_total = int (ij_rows_total job), ag_rows_in_scope = int (ij_rows_in_scope job), ag_processed = sc_processed c,
        ag_eligible = eligible, ag_out_of_scope = int (length scoped),
        ag_out_of_scope_reasons = sort_key fst (fold (\<lambda>(i, reason). bump reason) scoped []),
        ag_compared = compared, ag_mismatches = int (length affected), ag_inconclusive = int (length inc),
        ag_inconclusive_transient = int (length (filter (\<lambda>(i, code, t). t) inc)), ag_unprocessed = unprocessed,
        ag_coverage_pct = percent compared eligible, ag_affected_pct = percent (int (length affected)) eligible,
        ag_overcharge_count = ex_over_count x, ag_overcharge_total = mf_over money,
        ag_undercharge_count = ex_under_count x, ag_undercharge_total = mf_under money,
        ag_signed_net_delta = mf_net money, ag_absolute_exposure = mf_total money,
        ag_mean_abs_delta = mf_mean_abs money, ag_median_abs_delta = mf_median_abs money,
        ag_mean_signed_delta = mf_mean_signed money, ag_median_signed_delta = mf_median_signed money,
        ag_min_delta = mf_least money, ag_max_delta = mf_greatest money,
        ag_batch_count = int (ij_batch_count job), ag_batches_done = int done, ag_batches_incomplete = int incomplete,
        ag_batches_pending = int (length bs) - int done - int incomplete,
        ag_retry_count = sum_list (map br_retries bs), ag_request_count = sum_list (map br_requests bs),
        ag_batch_seconds = sum_list (map (\<lambda>b. of_int (br_duration_ms b) / 1000) bs),
        ag_error_classes = sort_key fst (merge_errors bs), ag_breaker_opened = list_ex br_breaker_opened bs,
        ag_cohorts = cohorts, ag_pipeline = pipeline, ag_examples = examples,
        ag_budget = cfg, ag_wall_seconds = duration, ag_budget_exhausted = ij_budget_exhausted job,
        ag_halt_reason = ij_halt_reason job,
        ag_provenance = \<lparr>pv_connector_id = cr_connector_id (ij_connector job), pv_engine_version = cr_engine_version (ij_connector job),
          pv_connector_revisions = revisions_of bs, pv_batch_quote_used = (0 < cr_batch_max_items (ij_connector job)),
          pv_source = ij_source job, pv_snapshot = ij_snapshot job, pv_as_of = ij_as_of job,
          pv_premium_tolerance = dec_str (ic_premium_tolerance cfg)\<rparr>,
        ag_result_sha256 = [], ag_evidence_bytes = None, ag_evidence_trimmed = []\<rparr>)"

text \<open>The policies that were compared: resolved, in scope, not inconclusive.\<close>

definition compared_policies :: "batch_record list \<Rightarrow> scan_counts \<Rightarrow> synthetic_policy list \<Rightarrow> synthetic_policy list res" where
  "compared_policies bs c rows =
     (let bad = set (map fst (sc_inconclusive c)) \<union> set (map fst (sc_scope c)) in
      rmap_list (row_at rows) (filter (\<lambda>i. i \<notin> bad) (resolved_rows (completed_batches bs))))"

definition aggregate_core ::
  "impact_job \<Rightarrow> batch_record list \<Rightarrow> portfolio_snapshot \<Rightarrow> impact_config \<Rightarrow> string list option \<Rightarrow> rat option \<Rightarrow> impact_aggregate res" where
  "aggregate_core job batches snapshot cfg declared duration =
     (let bs = sort_key br_batch_no batches; c = count_scan bs; rows = ps_rows snapshot in
      rbind (exposure_of rows (sc_affected c)) (\<lambda>x.
      rbind (compared_policies bs c rows) (\<lambda>policies.
      rbind (compute_cohort_distribution policies (ex_impact x) (set (map sp_policy_id policies))
               default_cohort_dimensions default_minimum_cohort_size) (\<lambda>cohorts.
      rbind (compute_pipeline_impact policies (ex_impact x) (ij_as_of job) default_pipeline_windows) (\<lambda>pipeline.
      rbind (rank_affected (sc_affected c)) (\<lambda>ranked.
      rbind (rmap_list (mismatch_example_of rows declared) (take (nat (ic_max_mismatch_examples cfg)) ranked)) (\<lambda>examples.
      rbind (money_fields_of x) (\<lambda>money.
      Inr (aggregate_record job bs c cfg duration x money cohorts pipeline examples)))))))))"

text \<open>Mismatch examples go first, the last one first; then the cohorts.\<close>

function trim_examples :: "(impact_aggregate \<Rightarrow> nat) \<Rightarrow> int \<Rightarrow> impact_aggregate \<Rightarrow> impact_aggregate" where
  "trim_examples json_size limit a =
     (if limit < int (json_size a) \<and> ag_examples a \<noteq> []
      then trim_examples json_size limit (a\<lparr>ag_examples := butlast (ag_examples a)\<rparr>)
      else a)"
  by pat_completeness auto
termination by (relation "measure (\<lambda>(f, l, a). length (ag_examples a))") auto

declare trim_examples.simps [simp del]

definition enforce_evidence_budget :: "(impact_aggregate \<Rightarrow> nat) \<Rightarrow> int \<Rightarrow> impact_aggregate \<Rightarrow> impact_aggregate" where
  "enforce_evidence_budget json_size limit a =
     (let b = trim_examples json_size limit a;
          over = limit < int (json_size b);
          c = (if over then b\<lparr>ag_cohorts := []\<rparr> else b);
          trimmed = (if ag_examples b = ag_examples a then [] else [''mismatch_examples'']) @ (if over then [''cohort_distribution''] else []) in
      c\<lparr>ag_evidence_bytes := Some (json_size c), ag_evidence_trimmed := trimmed\<rparr>)"

definition aggregate_job ::
  "(impact_aggregate \<Rightarrow> string) \<Rightarrow> (impact_aggregate \<Rightarrow> nat) \<Rightarrow> impact_job \<Rightarrow> batch_record list \<Rightarrow> portfolio_snapshot \<Rightarrow>
   impact_config \<Rightarrow> string list option \<Rightarrow> rat option \<Rightarrow> impact_aggregate res" where
  "aggregate_job fingerprint json_size job batches snapshot cfg declared duration =
     rbind (aggregate_core job batches snapshot cfg declared duration) (\<lambda>a.
     Inr (enforce_evidence_budget json_size (ic_max_evidence_bytes cfg) (a\<lparr>ag_result_sha256 := fingerprint a\<rparr>)))"

section \<open>Lemmas\<close>

lemma trim_examples_keeps: "\<exists>xs. trim_examples f l a = a\<lparr>ag_examples := xs\<rparr>"
proof (induction f l a rule: trim_examples.induct)
  case (1 f l a)
  show ?case
  proof (cases "l < int (f a) \<and> ag_examples a \<noteq> []")
    case True
    with "1.IH" obtain xs where "trim_examples f l (a\<lparr>ag_examples := butlast (ag_examples a)\<rparr>) = a\<lparr>ag_examples := xs\<rparr>" by auto
    then show ?thesis using True by (metis trim_examples.simps)
  next
    case False
    have "trim_examples f l a = a" by (subst trim_examples.simps) (simp only: False if_False)
    then have "trim_examples f l a = a\<lparr>ag_examples := ag_examples a\<rparr>" by simp
    then show ?thesis by blast
  qed
qed

lemma evidence_keeps:
  defines "e \<equiv> enforce_evidence_budget"
  shows "ag_compared (e f l a) = ag_compared a" "ag_inconclusive (e f l a) = ag_inconclusive a"
    "ag_out_of_scope (e f l a) = ag_out_of_scope a" "ag_processed (e f l a) = ag_processed a" "ag_decision (e f l a) = ag_decision a"
    "ag_mismatches (e f l a) = ag_mismatches a" "ag_status (e f l a) = ag_status a" "ag_rows_total (e f l a) = ag_rows_total a"
    "ag_rows_in_scope (e f l a) = ag_rows_in_scope a" "ag_eligible (e f l a) = ag_eligible a"
    "ag_result_sha256 (e f l a) = ag_result_sha256 a"
proof -
  obtain xs where t: "trim_examples f l a = a\<lparr>ag_examples := xs\<rparr>" using trim_examples_keeps by blast
  show "ag_compared (e f l a) = ag_compared a" "ag_inconclusive (e f l a) = ag_inconclusive a"
    "ag_out_of_scope (e f l a) = ag_out_of_scope a" "ag_processed (e f l a) = ag_processed a" "ag_decision (e f l a) = ag_decision a"
    "ag_mismatches (e f l a) = ag_mismatches a" "ag_status (e f l a) = ag_status a" "ag_rows_total (e f l a) = ag_rows_total a"
    "ag_rows_in_scope (e f l a) = ag_rows_in_scope a" "ag_eligible (e f l a) = ag_eligible a"
    "ag_result_sha256 (e f l a) = ag_result_sha256 a"
    by (simp_all add: e_def enforce_evidence_budget_def Let_def t)
qed

lemma core_record:
  assumes "aggregate_core job batches snapshot cfg declared duration = Inr a"
  obtains x money cohorts pipeline examples where
    "a = aggregate_record job (sort_key br_batch_no batches) (count_scan (sort_key br_batch_no batches)) cfg duration x money cohorts pipeline examples"
  using assms unfolding aggregate_core_def Let_def rbind_Inr_iff by blast

lemma record_fields:
  fixes job bs cfg duration x money cohorts pipeline examples c
  defines "unprocessed \<equiv> int (ij_rows_total job) - sc_processed c"
  defines "whole \<equiv> scan_complete job bs (incomplete_reasons job unprocessed (length (sc_inconclusive c))) unprocessed"
  defines "a \<equiv> aggregate_record job bs c cfg duration x money cohorts pipeline examples"
  shows "ag_decision a = impact_decision (ij_cancel_requested job) whole (length (sc_affected c))"
    "ag_status a = (if ij_cancel_requested job then CANCELLED else if whole then COMPLETE else PARTIAL)"
    "ag_mismatches a = int (length (sc_affected c))" "ag_inconclusive a = int (length (sc_inconclusive c))"
    "ag_out_of_scope a = int (length (sc_scope c))" "ag_compared a = sc_matched c + int (length (sc_affected c))"
    "ag_processed a = sc_processed c" "ag_rows_total a = int (ij_rows_total job)"
    "ag_eligible a = int (ij_rows_total job) - int (length (sc_scope c))"
    "ag_rows_in_scope a = int (ij_rows_in_scope job)"
  unfolding a_def aggregate_record_def Let_def whole_def unprocessed_def by simp_all

lemma scan_conserved:
  assumes "\<forall>b \<in> set bs. br_completed_at b \<noteq> None \<longrightarrow> accounted b"
  shows "sc_matched (count_scan bs) + int (length (sc_affected (count_scan bs))) + int (length (sc_inconclusive (count_scan bs)))
    + int (length (sc_scope (count_scan bs))) = sc_processed (count_scan bs)"
  using assms
proof (induction bs)
  case (Cons b bs)
  then show ?case
    by (cases "br_completed_at b") (auto simp: count_scan_def completed_batches_def Let_def accounted_def listed_def)
qed (simp add: count_scan_def completed_batches_def)

lemma no_reasons:
  "incomplete_reasons job unprocessed n = [] \<Longrightarrow> int (ij_rows_total job) \<le> int (ij_rows_in_scope job) \<and> n = 0
     \<and> ij_budget_exhausted job = []"
  by (auto simp: incomplete_reasons_def Let_def split: if_splits)

text \<open>C16: The decision contract.  Every processed row is compared, inconclusive or out of scope; a scan
  blocks exactly when a mismatch was proven; and it is eligible to pass only if it was not
  cancelled, no row was left out by a budget, every batch is done, nothing is inconclusive, and
  every eligible row was compared and matched.\<close>

theorem pass_means_all_compared:
  assumes "aggregate_job fingerprint json_size job batches snapshot cfg declared duration = Inr a"
    and "\<forall>b \<in> set batches. br_completed_at b \<noteq> None \<longrightarrow> accounted b"
  shows "ag_compared a + ag_inconclusive a + ag_out_of_scope a = ag_processed a
    \<and> (ag_decision a = ''BLOCK'' \<longleftrightarrow> 0 < ag_mismatches a)
    \<and> (ag_decision a = ''PASS_ELIGIBLE'' \<longrightarrow> \<not> ij_cancel_requested job \<and> ag_status a = COMPLETE \<and> ag_mismatches a = 0
        \<and> ag_inconclusive a = 0 \<and> ag_rows_total a \<le> ag_rows_in_scope a \<and> (\<forall>b \<in> set batches. br_state b = DONE)
        \<and> ag_compared a = ag_eligible a \<and> ag_compared a + ag_out_of_scope a = ag_rows_total a)"
proof -
  from assms(1) obtain a0 where a0: "aggregate_core job batches snapshot cfg declared duration = Inr a0"
    and a: "a = enforce_evidence_budget json_size (ic_max_evidence_bytes cfg) (a0\<lparr>ag_result_sha256 := fingerprint a0\<rparr>)"
    by (auto simp: aggregate_job_def rbind_Inr_iff)
  have same: "ag_compared a = ag_compared a0" "ag_inconclusive a = ag_inconclusive a0" "ag_out_of_scope a = ag_out_of_scope a0"
    "ag_processed a = ag_processed a0" "ag_decision a = ag_decision a0" "ag_mismatches a = ag_mismatches a0" "ag_status a = ag_status a0"
    "ag_rows_total a = ag_rows_total a0" "ag_rows_in_scope a = ag_rows_in_scope a0" "ag_eligible a = ag_eligible a0"
    unfolding a evidence_keeps by simp_all
  let ?bs = "sort_key br_batch_no batches"
  have acc: "\<forall>b \<in> set ?bs. br_completed_at b \<noteq> None \<longrightarrow> accounted b" using assms(2) by simp
  obtain x money cohorts pipeline examples where rec: "a0 = aggregate_record job ?bs (count_scan ?bs) cfg duration x money cohorts pipeline examples"
    by (rule core_record [OF a0])
  note f = record_fields [where job = job and bs = ?bs and c = "count_scan ?bs", of cfg duration x money cohorts pipeline examples, folded rec] and sum = scan_conserved [OF acc]
  have "ag_compared a0 + ag_inconclusive a0 + ag_out_of_scope a0 = ag_processed a0" using sum unfolding f by linarith
  moreover have "ag_decision a0 = ''BLOCK'' \<longleftrightarrow> 0 < ag_mismatches a0" unfolding f impact_decision_def by simp
  moreover have "\<not> ij_cancel_requested job \<and> ag_status a0 = COMPLETE \<and> ag_mismatches a0 = 0
        \<and> ag_inconclusive a0 = 0 \<and> ag_rows_total a0 \<le> ag_rows_in_scope a0 \<and> (\<forall>b \<in> set batches. br_state b = DONE)
        \<and> ag_compared a0 = ag_eligible a0 \<and> ag_compared a0 + ag_out_of_scope a0 = ag_rows_total a0"
    if "ag_decision a0 = ''PASS_ELIGIBLE''"
  proof -
    let ?c = "count_scan ?bs"
    let ?u = "int (ij_rows_total job) - sc_processed ?c"
    have none: "sc_affected ?c = []" and open_job: "\<not> ij_cancel_requested job"
      and whole: "scan_complete job ?bs (incomplete_reasons job ?u (length (sc_inconclusive ?c))) ?u"
      using that unfolding f impact_decision_def by (auto split: if_splits)
    from whole have "?u = 0" "\<forall>b \<in> set ?bs. br_state b = DONE" "incomplete_reasons job ?u (length (sc_inconclusive ?c)) = []"
      unfolding scan_complete_def list_all_iff by blast+
    moreover from no_reasons [OF this(3)] have "int (ij_rows_total job) \<le> int (ij_rows_in_scope job)" "sc_inconclusive ?c = []" by simp_all
    ultimately show ?thesis using none open_job whole sum unfolding f by simp
  qed
  ultimately show ?thesis unfolding same by blast
qed

text \<open>The sample portfolio's one policy, compared and matched.\<close>

definition matched_batch :: batch_record where
  "matched_batch = scan_batch\<lparr>br_state := DONE, br_matched := 1, br_completed_at := Some 5\<rparr>"

lemma zero_money: "money_text dec_zero = Inr (dec_str (Dec False 0 (- 2)))" "money_text (Dec False 0 (- 2)) = Inr (dec_str (Dec False 0 (- 2)))"
  by (simp_all add: money_text_def cents_def dec_zero_def dec_quantize.simps dec_context_defs)

lemma matched_money: "\<exists>m. money_fields_of no_exposure = Inr m"
proof -
  have "dec_add dec_zero dec_zero = Inr dec_zero"
    by (simp add: dec_add_def dec_exact_add_def dec_zero_def dec_fix.simps dec_context_defs Let_def)
  then show ?thesis by (simp add: money_fields_of_def no_exposure_def dec_sum_def zero_money money_of_def)
qed

lemma matched_core: "\<exists>a. aggregate_core scan_job [matched_batch] sample_snapshot small_config None None = Inr a \<and> ag_decision a = ''PASS_ELIGIBLE''"
proof -
  let ?c = "count_scan [matched_batch]"
  have c: "sc_affected ?c = []" "sc_inconclusive ?c = []" "sc_scope ?c = []" "sc_processed ?c = 1"
    by (simp_all add: count_scan_def completed_batches_def matched_batch_def scan_batch_def new_batch_def)
  have pol: "compared_policies [matched_batch] ?c [sample_policy_row] = Inr [sample_policy_row]"
    unfolding compared_policies_def Let_def c
    by (simp add: resolved_rows_def completed_batches_def matched_batch_def scan_batch_def new_batch_def
        unresolved_transient_def sorted_set_def row_at_def)
  obtain m where m: "money_fields_of no_exposure = Inr m" using matched_money by blast
  have win: "renewal_window by_id [] d w = Inr \<lparr>rb_label = snd (snd w), rb_count = 0, rb_impact = dec_str (Dec False 0 (- 2))\<rparr>" for by_id d w
    by (simp add: renewal_window_def zero_money split: prod.split)
  have pipe: "\<exists>p. compute_pipeline_impact [sample_policy_row] [] (Date 2026 1 1) default_pipeline_windows = Inr p"
    by (simp add: compute_pipeline_impact_def default_pipeline_windows_def win)
  have cohorts: "\<exists>cs. compute_cohort_distribution [sample_policy_row] [] {''P1''} default_cohort_dimensions default_minimum_cohort_size = Inr cs"
    by (simp add: compute_cohort_distribution_def default_cohort_dimensions_def default_minimum_cohort_size_def count_cohorts_def
        cohort_value_def policy_attributes_def rating_values_def sample_policy_row_def count_policy_def no_counts_def dget_default_def
        cohort_row_def Let_def)
  have reasons: "incomplete_reasons scan_job 0 0 = []"
    by (simp add: incomplete_reasons_def scan_job_def)
  have "ag_decision (aggregate_record scan_job [matched_batch] ?c cfg dur x money cs p exs) = ''PASS_ELIGIBLE''"
    for cfg dur x money cs p exs
    unfolding record_fields c impact_decision_def scan_complete_def
    using reasons by (simp add: scan_job_def matched_batch_def)
  then show ?thesis
    using pol m pipe cohorts c
    by (auto simp: aggregate_core_def Let_def sample_snapshot_def exposure_of_def no_exposure_def rank_affected_def
        sample_policy_row_def scan_job_def)
qed

theorem pass_means_all_compared_witness:
  "\<exists>a. aggregate_job (\<lambda>_. ''h'') (\<lambda>_. 100) scan_job [matched_batch] sample_snapshot small_config None None = Inr a
     \<and> ag_decision a = ''PASS_ELIGIBLE'' \<and> ag_compared a = ag_eligible a"
proof -
  obtain a0 where "aggregate_core scan_job [matched_batch] sample_snapshot small_config None None = Inr a0" "ag_decision a0 = ''PASS_ELIGIBLE''"
    using matched_core by blast
  then obtain a where a: "aggregate_job (\<lambda>_. ''h'') (\<lambda>_. 100) scan_job [matched_batch] sample_snapshot small_config None None = Inr a"
    "ag_decision a = ''PASS_ELIGIBLE''" by (auto simp: aggregate_job_def evidence_keeps)
  have "\<forall>b \<in> set [matched_batch]. br_completed_at b \<noteq> None \<longrightarrow> accounted b"
    by (simp add: accounted_def listed_def matched_batch_def scan_batch_def new_batch_def)
  from pass_means_all_compared [OF a(1) this] a show ?thesis by blast
qed

end
