(* ===== verification/ImpactCoordination.thy ===== *)
theory ImpactCoordination
  imports ImpactAggregation
begin

text \<open>
  The coordinator of a scan, \<open>src/backend/app/impact/coordinator.py\<close>: planning, the polling loop
  and finalization.

  One turn of the loop sees a \<open>poll\<close>: what the cancellation check, the store, the clocks, the
  dispatcher and the random jitter give it.  A run is the list of its polls.
\<close>

section \<open>Planning\<close>

definition halt_after_permanent_failed_batches :: nat where "halt_after_permanent_failed_batches = 3"
definition batch_max_items :: int where "batch_max_items = 250"

definition rows_in_scope :: "impact_config \<Rightarrow> nat option \<Rightarrow> nat \<Rightarrow> nat" where
  "rows_in_scope cfg sample_limit rows_total =
     (let most = nat (ic_max_policies cfg);
          cap = (case sample_limit of None \<Rightarrow> most | Some l \<Rightarrow> if l = 0 then most else min most l) in
      min rows_total cap)"

definition batch_count :: "impact_config \<Rightarrow> nat \<Rightarrow> nat" where
  "batch_count cfg rows = (if rows = 0 then 0 else nat \<lceil>of_nat rows / of_int (ic_batch_size cfg) :: rat\<rceil>)"

record plan_request =
  pq_tenant :: string
  pq_mission :: string
  pq_attempt :: int
  pq_sample_limit :: "nat option"
  pq_package_id :: string
  pq_package_sha :: string
  pq_source_ref :: "(string, string) dict"
  pq_connector :: string
  pq_version :: string
  pq_product :: string
  pq_jurisdiction :: "string option"

text \<open>The capability probe: \<open>None\<close> when there is none or it raises a ConnectorException.\<close>

definition probed_batch_max :: "int option \<Rightarrow> nat" where
  "probed_batch_max probe = (case probe of None \<Rightarrow> 0 | Some n \<Rightarrow> nat (max 0 (min n batch_max_items)))"

definition planned_job ::
  "(string \<Rightarrow> string) \<Rightarrow> impact_config \<Rightarrow> portfolio_snapshot \<Rightarrow> plan_request \<Rightarrow> int option \<Rightarrow> date \<Rightarrow> timestamp \<Rightarrow> impact_job" where
  "planned_job digest cfg snapshot q probe today now =
     (let total = length (ps_rows snapshot); rows = rows_in_scope cfg (pq_sample_limit q) total in
      \<lparr>ij_tenant = pq_tenant q,
       ij_job_id = compute_job_id digest (pq_tenant q) (pq_mission q) (pq_attempt q) (ps_sha256 snapshot) (pq_package_sha q)
         (pq_connector q) (pq_version q) (ic_batch_size cfg) (int rows),
       ij_mission_id = pq_mission q, ij_attempt = pq_attempt q, ij_created_at = now, ij_as_of = today, ij_status = RUNNING,
       ij_product = pq_product q, ij_jurisdiction = pq_jurisdiction q,
       ij_snapshot = (ps_dataset snapshot, ps_sha256 snapshot, total),
       ij_source = dset ''package_id'' (pq_package_id q) (dset ''ipir_sha256'' (pq_package_sha q) (pq_source_ref q)),
       ij_connector = \<lparr>cr_connector_id = pq_connector q, cr_engine_version = pq_version q, cr_batch_max_items = probed_batch_max probe\<rparr>,
       ij_batch_size = nat (ic_batch_size cfg), ij_batch_count = batch_count cfg rows, ij_rows_total = total, ij_rows_in_scope = rows,
       ij_budgets = cfg, ij_cancel_requested = False, ij_halt_reason = None, ij_budget_exhausted = [], ij_progress = [],
       ij_aggregate = None, ij_finalized_at = None\<rparr>)"

definition plan ::
  "(store_op \<Rightarrow> 's \<Rightarrow> 's \<times> store_reply res) \<Rightarrow> (string \<Rightarrow> string) \<Rightarrow> impact_config \<Rightarrow> portfolio_snapshot \<Rightarrow> plan_request \<Rightarrow>
   int option \<Rightarrow> date \<Rightarrow> timestamp \<Rightarrow> 's \<Rightarrow> 's \<times> store_reply res" where
  "plan exec digest cfg snapshot q probe today now s =
     (let job = planned_job digest cfg snapshot q probe today now in
      case exec (GetJob (pq_tenant q) (ij_job_id job)) s of
        (s', Inr (JobReply None)) \<Rightarrow> exec (CreateJob job) s'
      | found \<Rightarrow> found)"

definition batch_specs :: "impact_config \<Rightarrow> impact_job \<Rightarrow> (nat \<times> nat \<times> nat) list" where
  "batch_specs cfg job =
     (let k = nat (ic_batch_size cfg) in
      map (\<lambda>n. (n, n * k, min ((n + 1) * k) (ij_rows_in_scope job))) [0..<ij_batch_count job])"

section \<open>The state of a batch, seen by the coordinator\<close>

definition settled :: "impact_config \<Rightarrow> timestamp \<Rightarrow> batch_record \<Rightarrow> bool" where
  "settled cfg now b \<longleftrightarrow>
     br_state b = DONE \<or>
     (ic_max_batch_attempts cfg \<le> br_attempts b
      \<and> \<not> (br_state b = LEASED \<and> (case br_lease_expires_at b of None \<Rightarrow> False | Some e \<Rightarrow> now < e)))"

definition in_flight :: "(nat, timestamp) dict \<Rightarrow> timestamp \<Rightarrow> timestamp \<Rightarrow> batch_record \<Rightarrow> bool" where
  "in_flight dispatched now stall b \<longleftrightarrow>
     (if br_state b = LEASED then (case br_lease_expires_at b of None \<Rightarrow> False | Some e \<Rightarrow> now < e)
      else case dget dispatched (br_batch_no b) of
          None \<Rightarrow> False
        | Some sent \<Rightarrow> br_updated_at b \<le> sent \<and> now - sent < stall \<and> br_state b \<noteq> DONE)"

text \<open>\<open>min(30.0, 2.0 ** attempts) * (0.5 + random() / 2)\<close> seconds.\<close>

definition retry_wait :: "int \<Rightarrow> rat \<Rightarrow> rat" where
  "retry_wait attempts r = min 30 (2 ^ nat attempts) * (1 / 2 + r / 2)"

definition dispatchable :: "impact_config \<Rightarrow> (nat, timestamp) dict \<Rightarrow> timestamp \<Rightarrow> timestamp \<Rightarrow> rat \<Rightarrow> batch_record \<Rightarrow> bool" where
  "dispatchable cfg dispatched now stall r b \<longleftrightarrow>
     \<not> settled cfg now b \<and> \<not> in_flight dispatched now stall b
     \<and> \<not> (br_state b = INCOMPLETE \<and> (case br_completed_at b of None \<Rightarrow> False
           | Some d \<Rightarrow> of_int (now - d) / 1000000 < retry_wait (br_attempts b) r))"

definition systemic_permanent_failure :: "batch_record list \<Rightarrow> bool" where
  "systemic_permanent_failure bs \<longleftrightarrow>
     \<not> list_ex (\<lambda>b. 0 < br_matched b \<or> br_affected b \<noteq> []) bs
     \<and> halt_after_permanent_failed_batches \<le> length (filter (\<lambda>b. br_state b = DONE \<and> br_completed_at b \<noteq> None
           \<and> br_inconclusive b \<noteq> [] \<and> br_rows b \<le> int (length (br_inconclusive b) + length (br_out_of_scope b))) bs)"

section \<open>The polling loop\<close>

record poll =
  po_cancelled :: bool
  po_batches :: "batch_record list"
  po_now :: timestamp
  po_clock :: rat
  po_sent :: "(nat, timestamp) dict"
  po_jitter :: "(nat, rat) dict"

text \<open>Why a loop ends.\<close>

datatype stop = CancelledScan | AllSettled | PermanentFailure | MissionTimeout

text \<open>\<open>for b in batches\<close>: dispatch while fewer than the maximum are in flight.  \<open>po_sent\<close> has the
  wall time after each dispatch that works.\<close>

fun dispatch_loop :: "impact_config \<Rightarrow> poll \<Rightarrow> timestamp \<Rightarrow> batch_record list \<Rightarrow> int \<Rightarrow> (nat, timestamp) dict \<Rightarrow> int \<times> (nat, timestamp) dict" where
  "dispatch_loop cfg p stall [] inflight dispatched = (inflight, dispatched)"
| "dispatch_loop cfg p stall (b # bs) inflight dispatched =
     (if ic_max_inflight_batches cfg \<le> inflight then (inflight, dispatched)
      else if dispatchable cfg dispatched (po_now p) stall (dget_default (po_jitter p) (br_batch_no b) 0) b then
        (case dget (po_sent p) (br_batch_no b) of
           None \<Rightarrow> dispatch_loop cfg p stall bs inflight dispatched
         | Some t \<Rightarrow> dispatch_loop cfg p stall bs (inflight + 1) (dset (br_batch_no b) t dispatched))
      else dispatch_loop cfg p stall bs inflight dispatched)"

definition stall_time :: "impact_config \<Rightarrow> timestamp" where
  "stall_time cfg = seconds (ic_batch_timeout cfg + 90)"

definition count_in_flight :: "impact_config \<Rightarrow> poll \<Rightarrow> (nat, timestamp) dict \<Rightarrow> int" where
  "count_in_flight cfg p dispatched = int (length (filter (in_flight dispatched (po_now p) (stall_time cfg)) (po_batches p)))"

definition poll_once :: "impact_config \<Rightarrow> rat \<Rightarrow> poll \<Rightarrow> (nat, timestamp) dict \<Rightarrow> stop + (nat, timestamp) dict" where
  "poll_once cfg started p dispatched =
     (if po_cancelled p then Inl CancelledScan
      else if list_all (settled cfg (po_now p)) (po_batches p) then Inl AllSettled
      else if systemic_permanent_failure (po_batches p) then Inl PermanentFailure
      else if started + of_int (ic_max_mission_seconds cfg) \<le> po_clock p then Inl MissionTimeout
      else Inr (snd (dispatch_loop cfg p (stall_time cfg) (po_batches p) (count_in_flight cfg p dispatched) dispatched)))"

fun run_loop :: "impact_config \<Rightarrow> rat \<Rightarrow> poll list \<Rightarrow> (nat, timestamp) dict \<Rightarrow> stop option" where
  "run_loop cfg started [] dispatched = None"
| "run_loop cfg started (p # ps) dispatched =
     (case poll_once cfg started p dispatched of Inl why \<Rightarrow> Some why | Inr d \<Rightarrow> run_loop cfg started ps d)"

text \<open>The \<open>budget_exhausted\<close> and \<open>halt_reason\<close> the loop leaves on the job.\<close>

definition loop_budget :: "impact_job \<Rightarrow> stop \<Rightarrow> string list" where
  "loop_budget job why =
     ij_budget_exhausted job
     @ (if ij_rows_in_scope job < ij_rows_total job \<and> ''ROW_BUDGET'' \<notin> set (ij_budget_exhausted job) then [''ROW_BUDGET''] else [])
     @ (if why = MissionTimeout then [''MAX_MISSION_SECONDS''] else [])"

definition loop_halt :: "impact_job \<Rightarrow> stop \<Rightarrow> string option" where
  "loop_halt job why = (if why = PermanentFailure then Some ''CONNECTOR_PERMANENT_FAILURE'' else ij_halt_reason job)"

section \<open>Finalization\<close>

definition finalize ::
  "(store_op \<Rightarrow> 's \<Rightarrow> 's \<times> store_reply res) \<Rightarrow> (impact_job \<Rightarrow> batch_record list \<Rightarrow> impact_aggregate res) \<Rightarrow>
   ('s \<Rightarrow> 's) \<Rightarrow> string \<Rightarrow> string \<Rightarrow> timestamp \<Rightarrow> 's \<Rightarrow> 's \<times> impact_aggregate res" where
  "finalize exec aggregate others t j now s =
     (case exec (GetJob t j) s of
        (s, Inr (JobReply (Some job))) \<Rightarrow>
          (case (ij_finalized_at job, ij_aggregate job) of
             (Some _, Some agg) \<Rightarrow> (s, Inr agg)
           | _ \<Rightarrow>
               (case exec (ListBatches t j) s of
                  (s, Inr (BatchesReply bs)) \<Rightarrow>
                    (case aggregate job bs of
                       Inl e \<Rightarrow> (s, Inl e)
                     | Inr agg \<Rightarrow>
                         (case exec (FinalizeJob t j (ag_status agg) agg now) (others s) of
                            (s, Inr (FinalizeReply (Some stored) False)) \<Rightarrow>
                              (s, Inr (case ij_aggregate stored of None \<Rightarrow> agg | Some winner \<Rightarrow> winner))
                          | (s, Inl e) \<Rightarrow> (s, Inl e)
                          | (s, Inr _) \<Rightarrow> (s, Inr agg)))
                | (s, Inl e) \<Rightarrow> (s, Inl e)
                | (s, Inr _) \<Rightarrow> (s, Inl OutOfModel)))
      | (s, Inl e) \<Rightarrow> (s, Inl e)
      | (s, Inr _) \<Rightarrow> (s, Inl (LookupError ''impact job'')))"

text \<open>The end of \<open>run\<close>: what stopped the loop is recorded, then the job is finalized.\<close>

definition finish_run ::
  "(store_op \<Rightarrow> 's \<Rightarrow> 's \<times> store_reply res) \<Rightarrow> (impact_job \<Rightarrow> batch_record list \<Rightarrow> impact_aggregate res) \<Rightarrow>
   ('s \<Rightarrow> 's) \<Rightarrow> impact_job \<Rightarrow> stop \<Rightarrow> timestamp \<Rightarrow> 's \<Rightarrow> 's \<times> impact_aggregate res" where
  "finish_run exec aggregate others job why now s =
     (let t = ij_tenant job; j = ij_job_id job;
          s1 = (if why = CancelledScan then fst (exec (UpdateJob t j CancelRequested) s) else s);
          s2 = fst (exec (UpdateJob t j (Budget (loop_budget job why) (loop_halt job why))) s1) in
      finalize exec aggregate others t j now s2)"

definition progress_of :: "impact_job \<Rightarrow> batch_record list \<Rightarrow> (string, int) dict" where
  "progress_of job bs =
     [(''batches_total'', int (ij_batch_count job)),
      (''batches_done'', int (length (filter (\<lambda>b. br_state b = DONE) bs))),
      (''batches_incomplete'', int (length (filter (\<lambda>b. br_state b = INCOMPLETE) bs))),
      (''rows_processed'', sum_list (map br_rows (filter (\<lambda>b. br_completed_at b \<noteq> None) bs))),
      (''rows_in_scope'', int (ij_rows_in_scope job)), (''rows_total'', int (ij_rows_total job)),
      (''mismatches_so_far'', sum_list (map (int \<circ> length \<circ> br_affected) bs)),
      (''inconclusive_so_far'', sum_list (map (int \<circ> length \<circ> br_inconclusive) bs)),
      (''retries'', sum_list (map (int \<circ> br_retries) bs))]"

text \<open>\<open>run\<close>: a job that is finalized already keeps its result; \<open>None\<close> is a loop that has not ended.\<close>

definition run_scan ::
  "(store_op \<Rightarrow> 's \<Rightarrow> 's \<times> store_reply res) \<Rightarrow> (impact_job \<Rightarrow> batch_record list \<Rightarrow> impact_aggregate res) \<Rightarrow> ('s \<Rightarrow> 's) \<Rightarrow>
   impact_config \<Rightarrow> impact_job \<Rightarrow> rat \<Rightarrow> poll list \<Rightarrow> timestamp \<Rightarrow> 's \<Rightarrow> ('s \<times> impact_aggregate res) option" where
  "run_scan exec aggregate others cfg job started polls now s =
     (case (ij_finalized_at job, ij_aggregate job) of
        (Some _, Some agg) \<Rightarrow> Some (s, Inr agg)
      | _ \<Rightarrow>
          (let s1 = fst (exec (EnsureBatches (ij_tenant job) (ij_job_id job) (batch_specs cfg job) now) s) in
           map_option (\<lambda>why. finish_run exec aggregate others job why now (others s1)) (run_loop cfg started polls [])))"

section \<open>The plan\<close>

lemma tiles: "concat (map (\<lambda>n. [n * k..<min ((n + 1) * k) r]) [0..<m]) = [0..<min (m * k) (r :: nat)]"
proof (induction m)
  case (Suc m)
  have "[0..<min (m * k) r] @ [m * k..<min ((m + 1) * k) r] = [0..<min (Suc m * k) r]"
  proof (cases "m * k \<le> r")
    case True
    then show ?thesis using upt_add_eq_append [of 0 "m * k" "min ((m + 1) * k) r - m * k"] by (auto simp: min_def)
  qed (simp add: min_def)
  with Suc show ?case by simp
qed simp

lemma batch_count_bounds:
  fixes cfg :: impact_config and r n :: nat
  assumes "0 < ic_batch_size cfg"
  defines "k \<equiv> nat (ic_batch_size cfg)" and "m \<equiv> batch_count cfg r"
  shows "r \<le> m * k" and "n < m \<Longrightarrow> n * k < r"
proof -
  let ?q = "of_nat r / of_int (ic_batch_size cfg) :: rat"
  have k: "(of_nat k :: rat) = of_int (ic_batch_size cfg)" "0 < (of_nat k :: rat)" using assms by simp_all
  have q: "0 \<le> ?q" using assms(1) by simp
  show "r \<le> m * k"
  proof (cases "r = 0")
    case False
    have "?q \<le> of_int \<lceil>?q\<rceil>" by (rule le_of_int_ceiling)
    also have "\<dots> = of_nat m" using False q by (simp add: m_def batch_count_def)
    finally have "of_nat r \<le> of_nat m * (of_nat k :: rat)" using k by (simp add: field_simps)
    then show ?thesis by (metis of_nat_le_iff of_nat_mult)
  qed simp
  show "n * k < r" if "n < m"
  proof -
    have r: "r \<noteq> 0" using that by (cases "r = 0") (simp_all add: m_def batch_count_def)
    then have "int n < \<lceil>?q\<rceil>" using that by (simp add: m_def batch_count_def)
    then have "of_nat n < ?q" by (simp add: less_ceiling_iff)
    then have "of_nat n * (of_nat k :: rat) < of_nat r" using k by (simp add: field_simps)
    then show ?thesis by (metis of_nat_less_iff of_nat_mult)
  qed
qed

text \<open>The planned batches tile the rows in scope: taken in order they list each row from 0 up to
  the row budget exactly once, none is empty, and none is larger than the batch size.\<close>

theorem plan_covers_rows:
  fixes digest cfg snapshot q probe today now
  assumes "0 < ic_batch_size cfg"
  defines "job \<equiv> planned_job digest cfg snapshot q probe today now"
  shows "concat (map (\<lambda>(n, a, b). [a..<b]) (batch_specs cfg job)) = [0..<ij_rows_in_scope job]
    \<and> ij_rows_in_scope job \<le> ij_rows_total job
    \<and> list_all (\<lambda>(n, a, b). a < b \<and> int (b - a) \<le> ic_batch_size cfg) (batch_specs cfg job)"
proof -
  let ?r = "ij_rows_in_scope job" and ?m = "ij_batch_count job" and ?k = "nat (ic_batch_size cfg)"
  have m: "?m = batch_count cfg ?r" and le: "?r \<le> ij_rows_total job"
    by (simp_all add: job_def planned_job_def Let_def rows_in_scope_def)
  note bounds = batch_count_bounds [OF assms(1), where r = ?r, folded m]
  have "(\<lambda>(n, a, b). [a..<b]) \<circ> (\<lambda>n. (n, n * ?k, min ((n + 1) * ?k) ?r)) = (\<lambda>n. [n * ?k..<min ((n + 1) * ?k) ?r])"
    by (simp add: fun_eq_iff)
  then have "concat (map (\<lambda>(n, a, b). [a..<b]) (batch_specs cfg job)) = [0..<min (?m * ?k) ?r]"
    unfolding batch_specs_def Let_def map_map by (simp only: tiles)
  also have "min (?m * ?k) ?r = ?r" using bounds(1) by simp
  finally have tile: "concat (map (\<lambda>(n, a, b). [a..<b]) (batch_specs cfg job)) = [0..<?r]" .
  have "list_all (\<lambda>(n, a, b). a < b \<and> int (b - a) \<le> ic_batch_size cfg) (batch_specs cfg job)"
    unfolding batch_specs_def Let_def list_all_iff
  proof (intro ballI)
    fix x assume "x \<in> set (map (\<lambda>n. (n, n * ?k, min ((n + 1) * ?k) ?r)) [0..<?m])"
    then obtain n where n: "n < ?m" "x = (n, n * ?k, min ((n + 1) * ?k) ?r)" by auto
    have "n * ?k < ?r" using n(1) by (rule bounds(2))
    moreover have "0 < ?k" using assms(1) by simp
    moreover have "min ((n + 1) * ?k) ?r - n * ?k \<le> ?k" by auto
    then have "int (min ((n + 1) * ?k) ?r - n * ?k) \<le> ic_batch_size cfg" using assms(1) by linarith
    ultimately show "case x of (n, a, b) \<Rightarrow> a < b \<and> int (b - a) \<le> ic_batch_size cfg"
      by (simp add: n(2))
  qed
  with tile le show ?thesis by blast
qed

definition sample_request :: plan_request where
  "sample_request = \<lparr>pq_tenant = ''t'', pq_mission = ''m'', pq_attempt = 1, pq_sample_limit = Some 7, pq_package_id = ''p'',
     pq_package_sha = ''s'', pq_source_ref = [], pq_connector = ''c'', pq_version = ''1'', pq_product = ''HO3'', pq_jurisdiction = None\<rparr>"

theorem plan_covers_rows_witness:
  "concat (map (\<lambda>(n, a, b). [a..<b]) (batch_specs small_config
     (planned_job (\<lambda>s. s) small_config sample_snapshot sample_request None (Date 2026 1 1) 0))) = [0..<1]"
proof -
  have "0 < ic_batch_size small_config" by (simp add: small_config_def impact_config_of_def spec_int_def dget_default_def)
  from plan_covers_rows [OF this, of "\<lambda>s. s" sample_snapshot sample_request None "Date 2026 1 1" 0] show ?thesis
    by (simp add: planned_job_def Let_def rows_in_scope_def sample_snapshot_def sample_request_def small_config_def
        impact_config_of_def spec_int_def dget_default_def)
qed

section \<open>The loop ends\<close>

lemma loop_ends: "i < length ps \<Longrightarrow> started + of_int (ic_max_mission_seconds cfg) \<le> po_clock (ps ! i) \<Longrightarrow> run_loop cfg started ps d \<noteq> None"
proof (induction ps arbitrary: i d)
  case (Cons p ps)
  show ?case
  proof (cases "poll_once cfg started p d")
    case (Inr d')
    then have "i \<noteq> 0" using Cons.prems(2) by (cases i) (auto simp: poll_once_def split: if_splits)
    then obtain j where "i = Suc j" by (cases i) auto
    then show ?thesis using Cons Inr by auto
  qed simp
qed simp

text \<open>C17: The polling loop ends: as every turn sleeps for the polling interval, the turn at which the
  mission's time is over comes, and the loop stops there at the latest.\<close>

theorem polling_ends:
  assumes "\<And>i. i < length polls \<Longrightarrow> started + of_nat i * ic_poll_interval cfg \<le> po_clock (polls ! i)"
    and "0 < ic_poll_interval cfg" "of_int (ic_max_mission_seconds cfg) / ic_poll_interval cfg + 1 \<le> of_nat (length polls)"
    and "0 \<le> ic_max_mission_seconds cfg"
  shows "\<exists>why. run_loop cfg started polls dispatched = Some why"
proof -
  let ?i = "length polls - 1"
  have "0 \<le> of_int (ic_max_mission_seconds cfg) / ic_poll_interval cfg" using assms(2,4) by simp
  then have "(1 :: rat) \<le> of_nat (length polls)" using assms(3) by linarith
  then have i: "?i < length polls" "(of_nat ?i :: rat) = of_nat (length polls) - 1" by (simp_all add: of_nat_diff)
  then have "of_int (ic_max_mission_seconds cfg) \<le> of_nat ?i * ic_poll_interval cfg" using assms(2,3) by (simp add: field_simps)
  then have "started + of_int (ic_max_mission_seconds cfg) \<le> po_clock (polls ! ?i)" using assms(1) [OF i(1)] by linarith
  from loop_ends [OF i(1) this] show ?thesis by blast
qed

definition idle_poll :: "nat \<Rightarrow> poll" where
  "idle_poll i = \<lparr>po_cancelled = False, po_batches = [scan_batch], po_now = 0, po_clock = of_nat i * 2, po_sent = [], po_jitter = []\<rparr>"

theorem polling_ends_witness: "\<exists>why. run_loop small_config 0 (map idle_poll [0..<271]) [] = Some why"
proof (rule polling_ends)
  have c: "ic_poll_interval small_config = 2" "ic_max_mission_seconds small_config = 540"
    by (simp_all add: small_config_def impact_config_of_def spec_int_def spec_float_def dget_default_def)
  show "0 + of_nat i * ic_poll_interval small_config \<le> po_clock (map idle_poll [0..<271] ! i)" if "i < length (map idle_poll [0..<271])" for i
    using that by (simp add: c idle_poll_def del: upt_rec_numeral)
  show "0 < ic_poll_interval small_config" "0 \<le> ic_max_mission_seconds small_config" by (simp_all add: c)
  show "of_int (ic_max_mission_seconds small_config) / ic_poll_interval small_config + 1 \<le> of_nat (length (map idle_poll [0..<271]))"
    by (simp add: c del: upt_rec_numeral)
qed

end
