(* ===== verification/IpirV2.thy ===== *)
theory IpirV2
  imports OraclePackage
begin

text \<open>
  Version 0.2 of the rate-plan model, \<open>src/backend/app/ipir/v0_2\<close>: the tagged expression tree,
  the leaf models, the package with its checks (\<open>package.py\<close>) and the gate two packages pass
  before they are compared (\<open>compatibility.py\<close>).  Inputs, constants and tables are those of
  version 0.1 (theory Ipir).

  networkx is a library: \<open>cyclic\<close>, the negation of \<open>is_directed_acyclic_graph\<close>, is a parameter.
  Times (\<open>compiled_at\<close>, \<open>validated_at\<close>) are kept as text.
\<close>

section \<open>Identifiers (common.py)\<close>

definition is_lower :: "char \<Rightarrow> bool" where
  "is_lower c \<longleftrightarrow> CHR ''a'' \<le> c \<and> c \<le> CHR ''z''"

definition is_upper :: "char \<Rightarrow> bool" where
  "is_upper c \<longleftrightarrow> CHR ''A'' \<le> c \<and> c \<le> CHR ''Z''"

definition id_char_v2 :: "char \<Rightarrow> bool" where
  "id_char_v2 c \<longleftrightarrow> is_lower c \<or> is_digit c \<or> c = CHR ''_''"

text \<open>\<open>^[a-z][a-z0-9_]{1,63}$\<close>.\<close>

fun id_pattern_v2 :: "string \<Rightarrow> bool" where
  "id_pattern_v2 [] = False"
| "id_pattern_v2 (c # cs) \<longleftrightarrow> is_lower c \<and> list_all id_char_v2 cs \<and> 1 \<le> length cs \<and> length cs \<le> 63"

definition validate_identifier_string_v2 :: "string \<Rightarrow> string res" where
  "validate_identifier_string_v2 v =
     (let s = py_strip v in if id_pattern_v2 s then Inr s else Inl (ValidationError ''identifier_v2''))"

text \<open>\<open>len(c) != 3 or not c.isupper()\<close>.\<close>

definition currency_ok :: "string \<Rightarrow> bool" where
  "currency_ok c \<longleftrightarrow> length c = 3 \<and> list_ex is_upper c \<and> \<not> list_ex is_lower c"

section \<open>Expressions (expressions.py)\<close>

datatype binary_operator = B_ADD | B_SUBTRACT | B_MULTIPLY | B_DIVIDE | B_MIN | B_MAX

datatype nary_operator = N_ADD | N_MULTIPLY | N_MIN | N_MAX

text \<open>\<open>on_zero_behavior\<close> can only be \<open>REJECT\<close>, and NEGATE is the one unary operator.\<close>

datatype expr2 =
    Literal2 pyval
  | Reference2 string
  | Negate2 expr2
  | Binary2 binary_operator expr2 expr2
  | Nary2 nary_operator "expr2 list"
  | Conditional2 cond2 expr2 expr2
  | TableLookup2 string
  | Round2 expr2 int rounding_mode
and cond2 =
    Compare2 expr2 comparison_operator expr2
  | Logic2 logical_operator "cond2 list"

fun validate_expr2 :: "expr2 \<Rightarrow> expr2 res" and validate_cond2 :: "cond2 \<Rightarrow> cond2 res" where
  "validate_expr2 (Literal2 v) = Inr (Literal2 v)"
| "validate_expr2 (Reference2 r) = rbind (validate_identifier_string_v2 r) (\<lambda>r'. Inr (Reference2 r'))"
| "validate_expr2 (Negate2 e) = rbind (validate_expr2 e) (\<lambda>e'. Inr (Negate2 e'))"
| "validate_expr2 (Binary2 op l r) =
     rbind (validate_expr2 l) (\<lambda>l'. rbind (validate_expr2 r) (\<lambda>r'. Inr (Binary2 op l' r')))"
| "validate_expr2 (Nary2 op es) =
     rbind (rmap_list validate_expr2 es) (\<lambda>es'.
       if length es' < 2 then Inl (ValidationError ''nary_operands'') else Inr (Nary2 op es'))"
| "validate_expr2 (Conditional2 c a b) =
     rbind (validate_cond2 c) (\<lambda>c'. rbind (validate_expr2 a) (\<lambda>a'. rbind (validate_expr2 b) (\<lambda>b'.
       Inr (Conditional2 c' a' b'))))"
| "validate_expr2 (TableLookup2 t) = rbind (validate_identifier_string_v2 t) (\<lambda>t'. Inr (TableLookup2 t'))"
| "validate_expr2 (Round2 e scale m) =
     rbind (validate_expr2 e) (\<lambda>e'.
       if scale < 0 \<or> 10 < scale then Inl (ValidationError ''scale'') else Inr (Round2 e' scale m))"
| "validate_cond2 (Compare2 l op r) =
     rbind (validate_expr2 l) (\<lambda>l'. rbind (validate_expr2 r) (\<lambda>r'. Inr (Compare2 l' op r')))"
| "validate_cond2 (Logic2 op cs) =
     rbind (rmap_list validate_cond2 cs) (\<lambda>cs'.
       if length cs' < 1 then Inl (ValidationError ''conditions'') else Inr (Logic2 op cs'))"

text \<open>What \<open>_iter_expression_refs\<close> yields: \<open>("node", id)\<close> and \<open>("table", id)\<close>.\<close>

datatype expr_ref = NodeRef string | TableRef string

fun iter_expression_refs :: "expr2 \<Rightarrow> expr_ref list" and iter_condition_refs :: "cond2 \<Rightarrow> expr_ref list" where
  "iter_expression_refs (Literal2 v) = []"
| "iter_expression_refs (Reference2 r) = [NodeRef r]"
| "iter_expression_refs (Negate2 e) = iter_expression_refs e"
| "iter_expression_refs (Binary2 op l r) = iter_expression_refs l @ iter_expression_refs r"
| "iter_expression_refs (Nary2 op es) = concat (map iter_expression_refs es)"
| "iter_expression_refs (Conditional2 c a b) = iter_condition_refs c @ iter_expression_refs a @ iter_expression_refs b"
| "iter_expression_refs (TableLookup2 t) = [TableRef t]"
| "iter_expression_refs (Round2 e scale m) = iter_expression_refs e"
| "iter_condition_refs (Compare2 l op r) = iter_expression_refs l @ iter_expression_refs r"
| "iter_condition_refs (Logic2 op cs) = concat (map iter_condition_refs cs)"

section \<open>Leaf models\<close>

record calculation_node_v2 =
  c2_id :: string
  c2_name :: string
  c2_expression :: expr2
  c2_depends_on :: "string list"
  c2_period :: "effective_period option"
  c2_description :: "string option"

definition validate_node_v2 :: "calculation_node_v2 \<Rightarrow> calculation_node_v2 res" where
  "validate_node_v2 n =
     rbind (validate_expr2 (c2_expression n)) (\<lambda>e.
     rbind (validate_opt validate_dates (c2_period n)) (\<lambda>_.
     rbind (validate_identifier_string_v2 (c2_id n)) (\<lambda>i.
     rbind (rmap_list validate_identifier_string_v2 (c2_depends_on n)) (\<lambda>deps.
       Inr (n\<lparr>c2_id := i, c2_expression := e, c2_depends_on := deps\<rparr>)))))"

record pricing_output_v2 =
  o2_id :: string
  o2_name :: string
  o2_source_ref :: string
  o2_currency :: string
  o2_scale :: int
  o2_rounding_mode :: rounding_mode

definition validate_output_v2 :: "pricing_output_v2 \<Rightarrow> pricing_output_v2 res" where
  "validate_output_v2 out =
     (if o2_scale out < 0 \<or> 10 < o2_scale out then Inl (ValidationError ''scale'')
      else
        rbind (validate_identifier_string_v2 (o2_id out)) (\<lambda>i.
        rbind (validate_identifier_string_v2 (o2_source_ref out)) (\<lambda>s.
          if currency_ok (o2_currency out) then Inr (out\<lparr>o2_id := i, o2_source_ref := s\<rparr>)
          else Inl (ValidationError ''currency''))))"

datatype ipir_source_type = STRUCTURED_JSON | CONTROLLED_XLSX | API_CONNECTOR

record source_metadata =
  sm_type :: ipir_source_type
  sm_artifact_sha256 :: string
  sm_compiler_version :: string
  sm_compiled_at :: string

definition hex_char :: "char \<Rightarrow> bool" where
  "hex_char c \<longleftrightarrow> c \<in> set ''0123456789abcdef''"

definition validate_hash :: "source_metadata \<Rightarrow> source_metadata res" where
  "validate_hash s =
     (let digest = py_lower (py_strip (sm_artifact_sha256 s)) in
      if length digest \<noteq> 64 \<or> \<not> list_all hex_char digest then Inl (ValidationError ''artifact_sha256'')
      else Inr (s\<lparr>sm_artifact_sha256 := digest\<rparr>))"

record product_ref_v2 =
  pr_id :: string
  pr_line :: insurance_line
  pr_jurisdiction :: jurisdiction
  pr_currency :: string

definition validate_product_ref :: "product_ref_v2 \<Rightarrow> product_ref_v2 res" where
  "validate_product_ref p =
     rbind (validate_identifier_string_v2 (pr_id p)) (\<lambda>i.
       if currency_ok (pr_currency p) then Inr (p\<lparr>pr_id := i\<rparr>) else Inl (ValidationError ''currency''))"

record control_case =
  cc_id :: string
  cc_inputs :: risk_values
  cc_expected :: "(string, string) dict"
  cc_tolerance :: decimal

definition validate_case :: "control_case \<Rightarrow> control_case res" where
  "validate_case c =
     rbind (validate_identifier_string_v2 (cc_id c)) (\<lambda>i.
       if dec_less (cc_tolerance c) dec_zero then Inl (ValidationError ''tolerance'')
       else if cc_expected c = [] then Inl (ValidationError ''expected_outputs'')
       else Inr (c\<lparr>cc_id := i\<rparr>))"

datatype verification_status = VERIFIED | REVIEW_REQUIRED_STATUS | REJECTED

record attestation =
  at_compiler_version :: string
  at_schema_version :: string
  at_source_hash :: string
  at_status :: verification_status
  at_validated_at :: string
  at_control_case_results :: "string list"

section \<open>The package (package.py)\<close>

record ipir_package_v2 =
  p2_schema_version :: string
  p2_id :: string
  p2_version :: string
  p2_source :: source_metadata
  p2_product :: product_ref_v2
  p2_period :: effective_period
  p2_transaction_types :: "transaction_type list"
  p2_inputs :: "pricing_input list"
  p2_constants :: "pricing_constant list"
  p2_tables :: "rate_table list"
  p2_calculations :: "calculation_node_v2 list"
  p2_outputs :: "pricing_output_v2 list"
  p2_control_cases :: "control_case list"
  p2_attestation :: "attestation option"

text \<open>\<open>^0\.2\.\d+$\<close>: a dollar also matches before a line end that closes the text.\<close>

definition schema_version_ok :: "string \<Rightarrow> bool" where
  "schema_version_ok s =
     (let t = (if s \<noteq> [] \<and> last s = CHR 0x0A then butlast s else s) in
      take 4 t = ''0.2.'' \<and> drop 4 t \<noteq> [] \<and> list_all is_digit (drop 4 t))"

definition entities_v2 :: "ipir_package_v2 \<Rightarrow> (string \<times> string) list" where
  "entities_v2 p =
     map (\<lambda>x. (pi_id x, ''input'')) (p2_inputs p)
     @ map (\<lambda>x. (const_id x, ''constant'')) (p2_constants p)
     @ map (\<lambda>x. (tbl_id x, ''table'')) (p2_tables p)
     @ map (\<lambda>x. (c2_id x, ''calculation'')) (p2_calculations p)
     @ map (\<lambda>x. (o2_id x, ''output'')) (p2_outputs p)"

definition see_entity_v2 :: "string \<times> string \<Rightarrow> (string, string) dict \<Rightarrow> (string, string) dict res" where
  "see_entity_v2 x seen = rbind (validate_identifier_string_v2 (fst x)) (\<lambda>_. see_entity x seen)"

definition see_case :: "control_case \<Rightarrow> string list \<Rightarrow> string list res" where
  "see_case c seen =
     (if cc_id c \<in> set seen then Inl (ValidationError (''duplicate_case:'' @ cc_id c)) else Inr (cc_id c # seen))"

definition check_ref :: "string list \<Rightarrow> string list \<Rightarrow> expr_ref \<Rightarrow> unit \<Rightarrow> unit res" where
  "check_ref table_ids known_ids r _ =
     (case r of
        TableRef t \<Rightarrow> if t \<in> set table_ids then Inr () else Inl (ValidationError (''unknown_table:'' @ t))
      | NodeRef i \<Rightarrow> if i \<in> set known_ids then Inr () else Inl (ValidationError (''unresolved_node:'' @ i)))"

definition check_calculation :: "string list \<Rightarrow> string list \<Rightarrow> calculation_node_v2 \<Rightarrow> unit \<Rightarrow> unit res" where
  "check_calculation table_ids known_ids n u =
     rbind (rfold (check_ref table_ids known_ids) (iter_expression_refs (c2_expression n)) u)
       (rfold (check_ref table_ids known_ids) (map NodeRef (c2_depends_on n)))"

definition check_source :: "string list \<Rightarrow> pricing_output_v2 \<Rightarrow> unit \<Rightarrow> unit res" where
  "check_source known_ids out _ =
     (if o2_source_ref out \<in> set known_ids then Inr () else Inl (ValidationError (''output_source:'' @ o2_id out)))"

text \<open>The edges from what a calculation declares or refers to.\<close>

definition node_refs :: "expr2 \<Rightarrow> string list" where
  "node_refs e = List.map_filter (\<lambda>r. case r of NodeRef i \<Rightarrow> Some i | TableRef t \<Rightarrow> None) (iter_expression_refs e)"

definition derived_edges :: "calculation_node_v2 list \<Rightarrow> (string \<times> string) list" where
  "derived_edges ns =
     concat (map (\<lambda>n. map (\<lambda>dep. (dep, c2_id n))
       (filter (\<lambda>dep. dep \<in> set (map c2_id ns)) (c2_depends_on n @ node_refs (c2_expression n)))) ns)"

definition check_coverage :: "rate_table \<Rightarrow> unit \<Rightarrow> unit res" where
  "check_coverage t _ =
     (if validate_range_coverage t = [] then Inr () else Inl (ValidationError (''coverage:'' @ tbl_id t)))"

text \<open>An output of a calculation that rounds at the top declares that rounding.\<close>

definition check_rounding :: "calculation_node_v2 list \<Rightarrow> pricing_output_v2 \<Rightarrow> unit \<Rightarrow> unit res" where
  "check_rounding ns out _ =
     (case dget (index_by c2_id ns []) (o2_source_ref out) of
        Some n \<Rightarrow>
          (case c2_expression n of
             Round2 e scale m \<Rightarrow>
               if scale \<noteq> o2_scale out \<or> m \<noteq> o2_rounding_mode out
               then Inl (ValidationError (''output_rounding:'' @ o2_id out)) else Inr ()
           | _ \<Rightarrow> Inr ())
      | None \<Rightarrow> Inr ())"

type_synonym cycle_test = "string list \<Rightarrow> (string \<times> string) list \<Rightarrow> bool"

definition validate_package_v2 :: "cycle_test \<Rightarrow> ipir_package_v2 \<Rightarrow> ipir_package_v2 res" where
  "validate_package_v2 cyclic p =
     (if \<not> schema_version_ok (p2_schema_version p) then Inl (ValidationError ''schema_version'')
      else
        rbind (validate_identifier_string_v2 (p2_id p)) (\<lambda>i.
          if p2_calculations p = [] then Inl (ValidationError ''no_calculations'')
          else if p2_outputs p = [] then Inl (ValidationError ''no_outputs'')
          else
            let table_ids = map tbl_id (p2_tables p); known_ids = map fst (entities_v2 p);
                calc_ids = map c2_id (p2_calculations p) in
            rbind (rfold see_entity_v2 (entities_v2 p) []) (\<lambda>_.
            rbind (rfold see_case (p2_control_cases p) []) (\<lambda>_.
            rbind (rfold (check_calculation table_ids known_ids) (p2_calculations p) ()) (\<lambda>_.
            rbind (rfold (check_source known_ids) (p2_outputs p) ()) (\<lambda>_.
            if cyclic calc_ids (derived_edges (p2_calculations p)) then Inl (ValidationError ''cycle'')
            else
              rbind (rfold check_coverage (p2_tables p) ()) (\<lambda>_.
              rbind (rfold (check_rounding (p2_calculations p)) (p2_outputs p) ()) (\<lambda>_.
                Inr (p\<lparr>p2_id := i\<rparr>)))))))))"

definition construct_package_v2 :: "cycle_test \<Rightarrow> ipir_package_v2 \<Rightarrow> ipir_package_v2 res" where
  "construct_package_v2 cyclic p =
     rbind (validate_hash (p2_source p)) (\<lambda>src.
     rbind (validate_product_ref (p2_product p)) (\<lambda>prod.
     rbind (validate_dates (p2_period p)) (\<lambda>period.
     rbind (rmap_list validate_input (p2_inputs p)) (\<lambda>inputs.
     rbind (rmap_list validate_constant (p2_constants p)) (\<lambda>constants.
     rbind (rmap_list validate_table (p2_tables p)) (\<lambda>tables.
     rbind (rmap_list validate_node_v2 (p2_calculations p)) (\<lambda>calculations.
     rbind (rmap_list validate_output_v2 (p2_outputs p)) (\<lambda>outputs.
     rbind (rmap_list validate_case (p2_control_cases p)) (\<lambda>cases.
       validate_package_v2 cyclic
         (p\<lparr>p2_source := src, p2_product := prod, p2_period := period, p2_inputs := inputs, p2_constants := constants,
            p2_tables := tables, p2_calculations := calculations, p2_outputs := outputs, p2_control_cases := cases\<rparr>))))))))))"

section \<open>The compatibility gate (compatibility.py)\<close>

text \<open>The reasons, in the order of the checks.\<close>

datatype mismatch_reason =
  SchemaMajor | ProductLine | JurisdictionMismatch | CurrencyMismatch | PeriodsApart | NoCommonTransaction

definition schema_major :: "string \<Rightarrow> string" where
  "schema_major v = takeWhile (\<lambda>c. c \<noteq> CHR ''.'') v"

definition periods_overlap :: "effective_period \<Rightarrow> effective_period \<Rightarrow> bool" where
  "periods_overlap a b =
     (if (case ep_end a of None \<Rightarrow> False | Some e \<Rightarrow> e < ep_start b) then False
      else if (case ep_end b of None \<Rightarrow> False | Some e \<Rightarrow> e < ep_start a) then False
      else True)"

definition check_compatibility :: "ipir_package_v2 \<Rightarrow> ipir_package_v2 \<Rightarrow> bool \<times> mismatch_reason list" where
  "check_compatibility a b =
     (let pa = p2_product a; pb = p2_product b;
          reasons =
            (if schema_major (p2_schema_version a) \<noteq> schema_major (p2_schema_version b) then [SchemaMajor] else [])
            @ (if pr_line pa \<noteq> pr_line pb then [ProductLine] else [])
            @ (if jur_country (pr_jurisdiction pa) \<noteq> jur_country (pr_jurisdiction pb)
                  \<or> jur_state (pr_jurisdiction pa) \<noteq> jur_state (pr_jurisdiction pb) then [JurisdictionMismatch] else [])
            @ (if pr_currency pa \<noteq> pr_currency pb then [CurrencyMismatch] else [])
            @ (if \<not> periods_overlap (p2_period a) (p2_period b) then [PeriodsApart] else [])
            @ (if set (p2_transaction_types a) \<inter> set (p2_transaction_types b) = {} then [NoCommonTransaction] else []) in
      (reasons = [], reasons))"

end
