(* ===== verification/IpirLowering.thy ===== *)
theory IpirLowering
  imports IpirV2 OracleLaws
begin

text \<open>
  The translation of a version 0.2 package to version 0.1, which the oracle prices, and the
  control cases of a package: \<open>src/backend/app/ipir/v0_2/compat.py\<close>.

  \<open>eval2\<close> and \<open>node_value\<close> say what a version 0.2 expression means, with no reference to the
  translation; the laws about the two are in IpirLoweringLaws.
\<close>

section \<open>Lowering\<close>

record lowering =
  lw_rules :: "pricing_rule list"
  lw_counter :: nat

definition empty_lowering :: lowering where
  "empty_lowering = \<lparr>lw_rules = [], lw_counter = 0\<rparr>"

definition rule_name_of :: "string \<Rightarrow> nat \<Rightarrow> string" where
  "rule_name_of calc n = ''_lowered_rule_'' @ calc @ ''_'' @ nat_str n"

definition next_rule_id :: "string \<Rightarrow> lowering \<Rightarrow> string \<times> lowering" where
  "next_rule_id calc s = (let n = lw_counter s + 1 in (rule_name_of calc n, s\<lparr>lw_counter := n\<rparr>))"

text \<open>The constructors of version 0.1.  Each runs its own validator; the objects it is given have
  run theirs, and pydantic does not run those again.\<close>

definition new_reference :: "string \<Rightarrow> expr res" where
  "new_reference r = rbind (validate_identifier_string r) (\<lambda>i. Inr (ERef i))"

definition new_expression :: "expression_operator \<Rightarrow> expr list \<Rightarrow> expr res" where
  "new_expression op es = (if operand_count_ok op (length es) then Inr (EOp op es) else Inl (ValidationError ''operands''))"

definition new_logic :: "logical_operator \<Rightarrow> condition list \<Rightarrow> condition res" where
  "new_logic op cs = (if length cs < 1 then Inl (ValidationError ''conditions'') else Inr (Logic op cs))"

fun binary_op :: "binary_operator \<Rightarrow> expression_operator" where
  "binary_op B_ADD = ADD" | "binary_op B_SUBTRACT = SUBTRACT" | "binary_op B_MULTIPLY = MULTIPLY"
| "binary_op B_DIVIDE = DIVIDE" | "binary_op B_MIN = MIN_OP" | "binary_op B_MAX = MAX_OP"

fun nary_op :: "nary_operator \<Rightarrow> expression_operator" where
  "nary_op N_ADD = ADD" | "nary_op N_MULTIPLY = MULTIPLY" | "nary_op N_MIN = MIN_OP" | "nary_op N_MAX = MAX_OP"

text \<open>The rule that stands for a conditional.\<close>

definition lowered_rule :: "string \<Rightarrow> string \<Rightarrow> condition \<Rightarrow> expr \<Rightarrow> expr \<Rightarrow> pricing_rule" where
  "lowered_rule i calc c a b =
     \<lparr>rule_id = i, rule_name = ''Lowered conditional for '' @ calc, rule_condition = c, rule_when_true = a,
      rule_when_false = b, rule_period = None, rule_provenance = None\<rparr>"

definition new_rule :: "string \<Rightarrow> string \<Rightarrow> condition \<Rightarrow> expr \<Rightarrow> expr \<Rightarrow> pricing_rule res" where
  "new_rule i calc c a b = rbind (validate_identifier_string i) (\<lambda>j. Inr (lowered_rule j calc c a b))"

definition add_rule :: "pricing_rule \<Rightarrow> lowering \<Rightarrow> lowering" where
  "add_rule r s = s\<lparr>lw_rules := lw_rules s @ [r]\<rparr>"

text \<open>Only the outermost expression of a calculation knows its id: the recursive calls leave
  \<open>calc_id\<close> at its default.\<close>

fun lower_expression :: "string \<Rightarrow> expr2 \<Rightarrow> lowering \<Rightarrow> (expr \<times> lowering) res"
  and lower_condition :: "cond2 \<Rightarrow> lowering \<Rightarrow> (condition \<times> lowering) res" where
  "lower_expression calc (Literal2 v) s = Inr (ELit v, s)"
| "lower_expression calc (Reference2 r) s = rbind (new_reference r) (\<lambda>e. Inr (e, s))"
| "lower_expression calc (TableLookup2 t) s = rbind (new_reference t) (\<lambda>e. Inr (e, s))"
| "lower_expression calc (Negate2 e) s =
     rbind (lower_expression ''expr'' e s) (\<lambda>(x, s1).
     rbind (new_expression SUBTRACT [ELit (PDec dec_zero), x]) (\<lambda>e'. Inr (e', s1)))"
| "lower_expression calc (Binary2 op l r) s =
     rbind (lower_expression ''expr'' l s) (\<lambda>(x, s1).
     rbind (lower_expression ''expr'' r s1) (\<lambda>(y, s2).
     rbind (new_expression (binary_op op) [x, y]) (\<lambda>e'. Inr (e', s2))))"
| "lower_expression calc (Nary2 op es) s =
     rbind (rmap_state (lower_expression ''expr'') es s) (\<lambda>(xs, s1).
     rbind (new_expression (nary_op op) xs) (\<lambda>e'. Inr (e', s1)))"
| "lower_expression calc (Round2 e scale m) s = Inl (LoweringNotSupportedError ''nested_round'')"
| "lower_expression calc (Conditional2 c a b) s =
     (let (i, s0) = next_rule_id calc s in
      rbind (lower_condition c s0) (\<lambda>(c', s1).
      rbind (lower_expression ''expr'' a s1) (\<lambda>(a', s2).
      rbind (lower_expression ''expr'' b s2) (\<lambda>(b', s3).
      rbind (new_rule i calc c' a' b') (\<lambda>r.
      rbind (new_reference i) (\<lambda>e'. Inr (e', add_rule r s3)))))))"
| "lower_condition (Compare2 l op r) s =
     rbind (lower_expression ''expr'' l s) (\<lambda>(x, s1).
     rbind (lower_expression ''expr'' r s1) (\<lambda>(y, s2). Inr (Compare x op y, s2)))"
| "lower_condition (Logic2 op cs) s =
     rbind (rmap_state lower_condition cs s) (\<lambda>(ds, s1).
     rbind (new_logic op ds) (\<lambda>c'. Inr (c', s1)))"

text \<open>A ROUND at the top of a calculation is its rounding rule.\<close>

definition node_body :: "calculation_node_v2 \<Rightarrow> (expr2 \<times> rounding_rule option) res" where
  "node_body n =
     (case c2_expression n of
        Round2 e scale m \<Rightarrow>
          rbind (validate_rounding_rule \<lparr>rr_id = ''_lowered_rounding_'' @ c2_id n, rr_precision = scale, rr_mode = m\<rparr>) (\<lambda>r.
            Inr (e, Some r))
      | e \<Rightarrow> Inr (e, None))"

definition new_node :: "calculation_node_v2 \<Rightarrow> expr \<Rightarrow> rounding_rule option \<Rightarrow> calculation_node res" where
  "new_node n e rounding =
     rbind (validate_identifier_string (c2_id n)) (\<lambda>i.
     rbind (rmap_list validate_identifier_string (c2_depends_on n)) (\<lambda>deps.
       Inr \<lparr>calc_id = i, calc_name = c2_name n, calc_expression = e, calc_depends_on = deps,
            calc_rounding_rule_ref = own_rounding_ref rounding None, calc_rounding_rule = rounding,
            calc_period = c2_period n, calc_provenance = None, calc_description = c2_description n\<rparr>))"

definition lower_calculation_node :: "calculation_node_v2 \<Rightarrow> lowering \<Rightarrow> (calculation_node \<times> lowering) res" where
  "lower_calculation_node n s =
     rbind (node_body n) (\<lambda>(body, rounding).
     rbind (lower_expression (c2_id n) body s) (\<lambda>(e, s1).
     rbind (new_node n e rounding) (\<lambda>m. Inr (m, s1))))"

definition lowered_output :: "pricing_output_v2 \<Rightarrow> pricing_output" where
  "lowered_output x =
     \<lparr>out_id = o2_id x, out_name = o2_name x, out_source_ref = o2_source_ref x, out_currency = Some (o2_currency x),
      out_description = None\<rparr>"

definition lowered_product :: "product_ref_v2 \<Rightarrow> insurance_product" where
  "lowered_product p =
     \<lparr>prod_id = pr_id p, prod_name = pr_id p, prod_line = pr_line p, prod_form = None, prod_jurisdiction = pr_jurisdiction p\<rparr>"

definition lowered_package ::
  "ipir_package_v2 \<Rightarrow> insurance_product \<Rightarrow> calculation_node list \<Rightarrow> pricing_rule list \<Rightarrow> pricing_output list \<Rightarrow> ipir_package" where
  "lowered_package p product calculations rules outputs =
     \<lparr>pkg_ipir_version = ''0.1'', pkg_id = p2_id p, pkg_name = p2_id p, pkg_version = p2_version p, pkg_product = product,
      pkg_period = p2_period p, pkg_transaction_types = p2_transaction_types p, pkg_inputs = p2_inputs p,
      pkg_constants = p2_constants p, pkg_tables = p2_tables p, pkg_rules = rules, pkg_calculations = calculations,
      pkg_rounding_rules = [], pkg_modifiers = [], pkg_constraints = [], pkg_fees = [], pkg_coverages = [],
      pkg_outputs = outputs, pkg_provenance = None\<rparr>"

text \<open>Inputs, constants and tables are objects already: pydantic takes them as they are.\<close>

definition lower_to_v0_1 :: "ipir_package_v2 \<Rightarrow> ipir_package res" where
  "lower_to_v0_1 p =
     rbind (rmap_state lower_calculation_node (p2_calculations p) empty_lowering) (\<lambda>(calculations, s).
     rbind (validate_product (lowered_product (p2_product p))) (\<lambda>product.
     rbind (rmap_list validate_output (map lowered_output (p2_outputs p))) (\<lambda>outputs.
       validate_package (lowered_package p product calculations (lw_rules s) outputs))))"

section \<open>Control cases\<close>

datatype case_detail = Undeclared | Raised exn

record control_case_result =
  cr_case_id :: string
  cr_passed :: bool
  cr_output_id :: string
  cr_expected :: string
  cr_actual :: string
  cr_difference :: string
  cr_detail :: "case_detail option"

definition failed_case :: "string \<Rightarrow> string \<Rightarrow> string \<Rightarrow> case_detail \<Rightarrow> control_case_result" where
  "failed_case i out expected why =
     \<lparr>cr_case_id = i, cr_passed = False, cr_output_id = out, cr_expected = expected, cr_actual = [], cr_difference = [],
      cr_detail = Some why\<rparr>"

definition case_effective_date :: "ipir_package_v2 \<Rightarrow> control_case \<Rightarrow> date res" where
  "case_effective_date p c =
     (case dget (cc_inputs c) ''effective_date'' of
        Some (PStr s) \<Rightarrow> date_fromisoformat s
      | _ \<Rightarrow> Inr (ep_start (p2_period p)))"

definition case_transaction_type :: "ipir_package_v2 \<Rightarrow> control_case \<Rightarrow> transaction_type res" where
  "case_transaction_type p c =
     (case dget (cc_inputs c) ''transaction_type'' of
        Some (PStr s) \<Rightarrow> (case transaction_of_string s of None \<Rightarrow> Inl ValueError | Some t \<Rightarrow> Inr t)
      | _ \<Rightarrow> (case p2_transaction_types p of [] \<Rightarrow> Inl (LookupError ''IndexError'') | t # _ \<Rightarrow> Inr t))"

text \<open>The body of the \<open>try\<close>.\<close>

definition try_case ::
  "topo_sort \<Rightarrow> ipir_package_v2 \<Rightarrow> ipir_package \<Rightarrow> control_case \<Rightarrow> string \<Rightarrow> string \<Rightarrow> control_case_result res" where
  "try_case topo p lowered c out expected =
     rbind (case_effective_date p c) (\<lambda>d.
     rbind (case_transaction_type p c) (\<lambda>txn.
     rbind (evaluate_package topo lowered (cc_inputs c) d txn False) (\<lambda>r.
     rbind (decimal_of_string expected) (\<lambda>want.
     rbind (dec_sub (or_final_premium r) want) (\<lambda>diff.
     rbind (dec_abs diff) (\<lambda>gap.
       Inr \<lparr>cr_case_id = cc_id c, cr_passed = dec_le gap (cc_tolerance c), cr_output_id = out, cr_expected = expected,
            cr_actual = dec_str (or_final_premium r), cr_difference = dec_str gap, cr_detail = None\<rparr>))))))"

definition run_case ::
  "topo_sort \<Rightarrow> ipir_package_v2 \<Rightarrow> ipir_package \<Rightarrow> control_case \<Rightarrow> string \<times> string \<Rightarrow> control_case_result res" where
  "run_case topo p lowered c = (\<lambda>(out, expected).
     if out \<notin> set (map o2_id (p2_outputs p)) then Inr (failed_case (cc_id c) out expected Undeclared)
     else (case try_case topo p lowered c out expected of
             Inl OutOfModel \<Rightarrow> Inl OutOfModel
           | Inl e \<Rightarrow> Inr (failed_case (cc_id c) out expected (Raised e))
           | Inr r \<Rightarrow> Inr r))"

definition run_control_cases :: "topo_sort \<Rightarrow> ipir_package_v2 \<Rightarrow> control_case_result list res" where
  "run_control_cases topo p =
     rbind (lower_to_v0_1 p) (\<lambda>lowered.
     rmap_list (\<lambda>(c, x). run_case topo p lowered c x)
       (concat (map (\<lambda>c. map (\<lambda>x. (c, x)) (cc_expected c)) (p2_control_cases p))))"

section \<open>The meaning of an expression\<close>

fun eval2 :: "expr2 \<Rightarrow> eval_context \<Rightarrow> pyval res"
  and operand2 :: "expr2 \<Rightarrow> eval_context \<Rightarrow> pyval res"
  and holds2 :: "cond2 \<Rightarrow> eval_context \<Rightarrow> bool res" where
  "eval2 (Literal2 v) ctx = numeric_leaf v"
| "eval2 (Reference2 r) ctx = rbind (resolve_ref ctx r) numeric_leaf"
| "eval2 (TableLookup2 t) ctx = rbind (resolve_ref ctx t) numeric_leaf"
| "eval2 (Negate2 e) ctx =
     rbind (eval2 e ctx) (\<lambda>v. rbind (to_decimal v) (\<lambda>d. rbind (dec_sub dec_zero d) (\<lambda>x. Inr (PDec x))))"
| "eval2 (Binary2 op l r) ctx =
     rbind (eval2 l ctx) (\<lambda>x. rbind (eval2 r ctx) (\<lambda>y. rbind (apply_operator (binary_op op) [x, y]) (\<lambda>d. Inr (PDec d))))"
| "eval2 (Nary2 op es) ctx =
     rbind (rmap_list (\<lambda>e. eval2 e ctx) es) (\<lambda>vs. rbind (apply_operator (nary_op op) vs) (\<lambda>d. Inr (PDec d)))"
| "eval2 (Conditional2 c a b) ctx = rbind (holds2 c ctx) (\<lambda>h. if h then eval2 a ctx else eval2 b ctx)"
| "eval2 (Round2 e scale m) ctx =
     rbind (eval2 e ctx) (\<lambda>v. rbind (to_dec v) (\<lambda>d. rbind (round_decimal d scale m) (\<lambda>x. Inr (PDec x))))"
| "operand2 (Literal2 v) ctx = Inr v"
| "operand2 (Reference2 r) ctx = resolve_ref ctx r"
| "operand2 (TableLookup2 t) ctx = resolve_ref ctx t"
| "operand2 (Negate2 e) ctx = eval2 (Negate2 e) ctx"
| "operand2 (Binary2 op l r) ctx = eval2 (Binary2 op l r) ctx"
| "operand2 (Nary2 op es) ctx = eval2 (Nary2 op es) ctx"
| "operand2 (Conditional2 c a b) ctx = eval2 (Conditional2 c a b) ctx"
| "operand2 (Round2 e scale m) ctx = eval2 (Round2 e scale m) ctx"
| "holds2 (Compare2 l op r) ctx =
     rbind (operand2 l ctx) (\<lambda>x. rbind (operand2 r ctx) (\<lambda>y. rbind (comparison_operands x y) (\<lambda>(a, b).
       case compare_values op a b of
         Inl e \<Rightarrow> if e = TypeError then Inl ConditionEvaluationError else Inl e
       | Inr h \<Rightarrow> Inr h)))"
| "holds2 (Logic2 op cs) ctx =
     (case op of AND_OP \<Rightarrow> rall (\<lambda>c. holds2 c ctx) cs | OR_OP \<Rightarrow> rany (\<lambda>c. holds2 c ctx) cs)"

text \<open>The number a calculation stands for.\<close>

definition node_value :: "calculation_node_v2 \<Rightarrow> eval_context \<Rightarrow> decimal res" where
  "node_value n ctx = rbind (eval2 (c2_expression n) ctx) to_dec"

end
