(* ===== verification/IpirLoweringLaws.thy ===== *)
theory IpirLoweringLaws
  imports IpirLowering
begin

text \<open>The translation of theory IpirLowering is correct: when the oracle prices a lowered package, the
  resolved values solve the equations the version 0.2 package states, and what has no equivalent
  is refused.
\<close>

section \<open>More values, the same results\<close>

abbreviation extends :: "eval_context \<Rightarrow> eval_context \<Rightarrow> bool" where
  "extends c c' \<equiv> map_of c \<subseteq>\<^sub>m map_of c'"

lemma extendsD: "extends c c' \<Longrightarrow> dget c i = Some v \<Longrightarrow> dget c' i = Some v"
  by (metis domI map_le_def)

lemma rmap_list_mono:
  "rmap_list f xs = Inr ys \<Longrightarrow> (\<And>x y. x \<in> set xs \<Longrightarrow> f x = Inr y \<Longrightarrow> g x = Inr y) \<Longrightarrow> rmap_list g xs = Inr ys"
  by (induction xs arbitrary: ys) (auto simp: res_simps)

lemma rall_mono:
  "rall f xs = Inr b \<Longrightarrow> (\<And>x y. x \<in> set xs \<Longrightarrow> f x = Inr y \<Longrightarrow> g x = Inr y) \<Longrightarrow> rall g xs = Inr b"
proof (induction xs)
  case (Cons x xs)
  then obtain y where y: "f x = Inr y" "(if y then rall f xs else Inr False) = Inr b" by (auto simp: rbind_Inr_iff)
  have "g x = Inr y" by (rule Cons.prems(2) [OF _ y(1)]) simp
  moreover have "rall g xs = Inr b" if "rall f xs = Inr b" by (rule Cons.IH [OF that]) (rule Cons.prems(2), simp)
  ultimately show ?case using y(2) by (cases y) simp_all
qed simp

lemma rany_mono:
  "rany f xs = Inr b \<Longrightarrow> (\<And>x y. x \<in> set xs \<Longrightarrow> f x = Inr y \<Longrightarrow> g x = Inr y) \<Longrightarrow> rany g xs = Inr b"
proof (induction xs)
  case (Cons x xs)
  then obtain y where y: "f x = Inr y" "(if y then Inr True else rany f xs) = Inr b" by (auto simp: rbind_Inr_iff)
  have "g x = Inr y" by (rule Cons.prems(2) [OF _ y(1)]) simp
  moreover have "rany g xs = Inr b" if "rany f xs = Inr b" by (rule Cons.IH [OF that]) (rule Cons.prems(2), simp)
  ultimately show ?case using y(2) by (cases y) simp_all
qed simp

lemma resolve_ref_mono: "extends c c' \<Longrightarrow> resolve_ref c r = Inr v \<Longrightarrow> resolve_ref c' r = Inr v"
  by (auto simp: resolve_ref_def extendsD split: option.splits)

lemma evaluate_expression_mono:
  "extends c c' \<Longrightarrow> evaluate_expression e c = Inr v \<Longrightarrow> evaluate_expression e c' = Inr v"
proof (induction e arbitrary: v)
  case (EOp op es)
  then obtain vs d where vs: "rmap_list (\<lambda>e. evaluate_expression e c) es = Inr vs" "apply_operator op vs = Inr d" "v = PDec d"
    by (auto simp: res_simps)
  have "rmap_list (\<lambda>e. evaluate_expression e c') es = Inr vs" by (rule rmap_list_mono [OF vs(1)]) (use EOp in blast)
  with vs show ?case by simp
qed (auto simp: res_simps resolve_ref_mono)

lemma resolve_value_mono: "extends c c' \<Longrightarrow> resolve_value e c = Inr v \<Longrightarrow> resolve_value e c' = Inr v"
  using evaluate_expression_mono by (cases e) (auto simp: resolve_ref_mono simp del: evaluate_expression.simps)

lemma evaluate_condition_mono:
  "extends c c' \<Longrightarrow> evaluate_condition q c = Inr b \<Longrightarrow> evaluate_condition q c' = Inr b"
proof (induction q arbitrary: b)
  case (Compare l op r)
  then show ?case by (auto simp: evaluate_comparison_def res_simps dest!: resolve_value_mono [OF Compare.prems(1)])
next
  case (Logic op qs)
  show ?case
  proof (cases op)
    case AND_OP
    then have "rall (\<lambda>q. evaluate_condition q c) qs = Inr b" using Logic.prems by simp
    then show ?thesis using AND_OP by (auto intro: rall_mono Logic.IH [OF _ Logic.prems(1)])
  next
    case OR_OP
    then have "rany (\<lambda>q. evaluate_condition q c) qs = Inr b" using Logic.prems by simp
    then show ?thesis using OR_OP by (auto intro: rany_mono Logic.IH [OF _ Logic.prems(1)])
  qed
qed

lemma evaluated_leaf: "evaluate_expression e c = Inr v \<Longrightarrow> numeric_leaf v = Inr v"
proof -
  have leaf: "numeric_leaf v = Inr v" if "numeric_leaf u = Inr v" for u v
    using that by (cases u) (auto simp: res_simps)
  assume "evaluate_expression e c = Inr v"
  then show ?thesis by (cases e) (auto simp: res_simps intro: leaf)
qed

section \<open>Rules\<close>

lemma set_rule_Inr:
  assumes "set_rule d r st = Inr st'" "rule_period r = None"
  obtains h v where "evaluate_condition (rule_condition r) (os_context st) = Inr h"
    "evaluate_expression (if h then rule_when_true r else rule_when_false r) (os_context st) = Inr v"
    "os_context st' = dset (rule_id r) v (os_context st)"
proof -
  from assms obtain h v where hv: "evaluate_condition (rule_condition r) (os_context st) = Inr h"
    "evaluate_expression (if h then rule_when_true r else rule_when_false r) (os_context st) = Inr v"
    "trace_to (rule_id r) ''RULE'' ''EVALUATE_RULE'' v [(''condition_holds'', Some (PBool h))]
       (rule_provenance r) [] (put (rule_id r) v st) = Inr st'"
    unfolding set_rule_def is_active_def by (simp only: option.case if_True rbind_Inr_iff) blast
  from trace_to_Inr [OF hv(3)] have "os_context st' = dset (rule_id r) v (os_context st)" by simp
  from that [OF hv(1,2) this] show ?thesis .
qed

lemma set_rules_grow:
  "rfold (set_rule d) rs st = Inr st' \<Longrightarrow> distinct (map rule_id rs) \<Longrightarrow> \<forall>r \<in> set rs. rule_period r = None \<and> dget (os_context st) (rule_id r) = None \<Longrightarrow>
     extends (os_context st) (os_context st') \<and> dom (map_of (os_context st')) \<subseteq> dom (map_of (os_context st)) \<union> rule_id ` set rs"
proof (induction rs arbitrary: st)
  case (Cons r rs)
  then obtain s where s: "set_rule d r st = Inr s" "rfold (set_rule d) rs s = Inr st'" by (auto simp: res_simps)
  from s(1) Cons.prems(3) obtain v where v: "os_context s = dset (rule_id r) v (os_context st)" by (auto elim: set_rule_Inr)
  have fresh: "\<forall>r' \<in> set rs. rule_period r' = None \<and> dget (os_context s) (rule_id r') = None"
    using Cons.prems(2,3) v by (auto simp: image_iff)
  have "distinct (map rule_id rs)" using Cons.prems(2) by simp
  note rest = Cons.IH [OF s(2) this fresh]
  have "map_of (os_context st) (rule_id r) = None" using Cons.prems(3) by simp
  then have "extends (os_context st) (os_context s)" by (auto simp: v map_le_def)
  then have "extends (os_context st) (os_context st')" using rest map_le_trans by blast
  moreover have "dom (map_of (os_context s)) = insert (rule_id r) (dom (map_of (os_context st)))"
    by (auto simp: v dom_def)
  then have "dom (map_of (os_context st')) \<subseteq> dom (map_of (os_context st)) \<union> rule_id ` set (r # rs)" using rest by auto
  ultimately show ?case by (rule conjI)
qed simp

text \<open>\<open>supports d rs P\<close>: once the rules \<open>rs\<close> have run, \<open>P\<close> holds of the values and of more.\<close>

definition supports :: "date \<Rightarrow> pricing_rule list \<Rightarrow> (eval_context \<Rightarrow> bool) \<Rightarrow> bool" where
  "supports d rs P \<longleftrightarrow> (\<forall>r \<in> set rs. rule_period r = None) \<and>
     (\<forall>st st' ctx. rfold (set_rule d) rs st = Inr st' \<longrightarrow> distinct (map rule_id rs) \<longrightarrow>
        (\<forall>r \<in> set rs. dget (os_context st) (rule_id r) = None) \<longrightarrow> extends (os_context st') ctx \<longrightarrow> P ctx)"

lemma supportsD:
  "supports d rs P \<Longrightarrow> rfold (set_rule d) rs st = Inr st' \<Longrightarrow> distinct (map rule_id rs) \<Longrightarrow>
     (\<And>r. r \<in> set rs \<Longrightarrow> dget (os_context st) (rule_id r) = None) \<Longrightarrow> extends (os_context st') ctx \<Longrightarrow> P ctx"
  unfolding supports_def by blast

lemma supports_period: "supports d rs P \<Longrightarrow> r \<in> set rs \<Longrightarrow> rule_period r = None"
  unfolding supports_def by blast

lemma supports_weaken: "supports d rs P \<Longrightarrow> (\<And>ctx. P ctx \<Longrightarrow> Q ctx) \<Longrightarrow> supports d rs Q"
  unfolding supports_def by blast

lemma supports_none: "(\<And>ctx. P ctx) \<Longrightarrow> supports d [] P"
  by (simp add: supports_def)

lemma supports_append1:
  assumes "supports d rs P" "\<forall>r \<in> set bs. rule_period r = None"
  shows "supports d (rs @ bs) P"
  unfolding supports_def
proof (intro conjI allI impI)
  show "\<forall>r \<in> set (rs @ bs). rule_period r = None" using assms by (auto simp: supports_def)
next
  fix st st' ctx
  assume run: "rfold (set_rule d) (rs @ bs) st = Inr st'" and dist: "distinct (map rule_id (rs @ bs))"
    and fresh: "\<forall>r \<in> set (rs @ bs). dget (os_context st) (rule_id r) = None" and ext: "extends (os_context st') ctx"
  from run obtain s where s: "rfold (set_rule d) rs st = Inr s" "rfold (set_rule d) bs s = Inr st'"
    by (auto simp: rfold_append res_simps)
  have "\<forall>r \<in> set rs. rule_period r = None \<and> dget (os_context st) (rule_id r) = None" using fresh assms(1) by (auto simp: supports_def)
  then have "dom (map_of (os_context s)) \<subseteq> dom (map_of (os_context st)) \<union> rule_id ` set rs"
    using set_rules_grow [OF s(1)] dist by simp
  then have "dget (os_context s) (rule_id r) = None" if "r \<in> set bs" for r
    using that fresh dist by (force simp: dom_def)
  then have "extends (os_context s) (os_context st')"
    using set_rules_grow [OF s(2)] dist assms(2) by simp
  then have "extends (os_context s) ctx" using ext map_le_trans by blast
  then show "P ctx" using supportsD [OF assms(1) s(1)] dist fresh by simp
qed

lemma supports_append2:
  assumes "supports d bs P" "\<forall>r \<in> set rs. rule_period r = None"
  shows "supports d (rs @ bs) P"
  unfolding supports_def
proof (intro conjI allI impI)
  show "\<forall>r \<in> set (rs @ bs). rule_period r = None" using assms by (auto simp: supports_def)
next
  fix st st' ctx
  assume run: "rfold (set_rule d) (rs @ bs) st = Inr st'" and dist: "distinct (map rule_id (rs @ bs))"
    and fresh: "\<forall>r \<in> set (rs @ bs). dget (os_context st) (rule_id r) = None" and ext: "extends (os_context st') ctx"
  from run obtain s where s: "rfold (set_rule d) rs st = Inr s" "rfold (set_rule d) bs s = Inr st'"
    by (auto simp: rfold_append res_simps)
  have "dom (map_of (os_context s)) \<subseteq> dom (map_of (os_context st)) \<union> rule_id ` set rs"
    using set_rules_grow [OF s(1)] dist fresh assms(2) by simp
  then have "dget (os_context s) (rule_id r) = None" if "r \<in> set bs" for r
    using that fresh dist by (force simp: dom_def)
  then show "P ctx" using supportsD [OF assms(1) s(2)] dist ext by simp
qed

lemma supports_both:
  assumes "supports d as P" "supports d bs Q"
  shows "supports d (as @ bs) (\<lambda>ctx. P ctx \<and> Q ctx)"
  using supports_append1 [OF assms(1)] supports_append2 [OF assms(2)] assms unfolding supports_def by blast

section \<open>Lowered expressions mean the same\<close>

definition agrees :: "expr \<Rightarrow> expr2 \<Rightarrow> eval_context \<Rightarrow> bool" where
  "agrees e' e ctx \<longleftrightarrow> (\<forall>v. evaluate_expression e' ctx = Inr v \<longrightarrow> eval2 e ctx = Inr v)
     \<and> (\<forall>v. resolve_value e' ctx = Inr v \<longrightarrow> operand2 e ctx = Inr v)"

definition agrees_cond :: "condition \<Rightarrow> cond2 \<Rightarrow> eval_context \<Rightarrow> bool" where
  "agrees_cond c' c ctx \<longleftrightarrow> (\<forall>h. evaluate_condition c' ctx = Inr h \<longrightarrow> holds2 c ctx = Inr h)"

fun ref_id :: "expr_ref \<Rightarrow> string" where
  "ref_id (NodeRef i) = i" | "ref_id (TableRef i) = i"

definition stripped :: "expr_ref list \<Rightarrow> bool" where
  "stripped rs \<longleftrightarrow> (\<forall>r \<in> set rs. py_strip (ref_id r) = ref_id r)"

lemma stripped_simps [simp]:
  "stripped []" "stripped (as @ bs) \<longleftrightarrow> stripped as \<and> stripped bs" "stripped (r # rs) \<longleftrightarrow> py_strip (ref_id r) = ref_id r \<and> stripped rs"
  "stripped (concat xss) \<longleftrightarrow> (\<forall>xs \<in> set xss. stripped xs)"
  by (auto simp: stripped_def)

lemma new_reference_Inr: "new_reference r = Inr e \<Longrightarrow> py_strip r = r \<Longrightarrow> e = ERef r"
  by (auto simp: new_reference_def res_simps validate_identifier_Inr)

lemma agrees_op:
  assumes "\<And>v. evaluate_expression (EOp op es) ctx = Inr v \<Longrightarrow> eval2 e ctx = Inr v" "operand2 e ctx = eval2 e ctx"
  shows "agrees (EOp op es) e ctx"
  using assms by (simp add: agrees_def del: evaluate_expression.simps)

lemma agrees_binary:
  assumes "agrees x l ctx" "agrees y r ctx"
  shows "agrees (EOp (binary_op op) [x, y]) (Binary2 op l r) ctx"
  using assms by (intro agrees_op) (auto simp: agrees_def res_simps)

lemma agrees_negate: "agrees x e ctx \<Longrightarrow> agrees (EOp SUBTRACT [ELit (PDec dec_zero), x]) (Negate2 e) ctx"
  by (intro agrees_op) (auto simp: agrees_def res_simps apply_operator_def)

lemma agrees_nary:
  assumes "list_all2 (\<lambda>x e. agrees x e ctx) xs es"
  shows "agrees (EOp (nary_op op) xs) (Nary2 op es) ctx"
proof (intro agrees_op)
  have each: "rmap_list (\<lambda>e. eval2 e ctx) es = Inr vs" if "rmap_list (\<lambda>x. evaluate_expression x ctx) xs = Inr vs" for vs
    using assms that by (induction arbitrary: vs) (auto simp: res_simps agrees_def)
  show "eval2 (Nary2 op es) ctx = Inr v" if "evaluate_expression (EOp (nary_op op) xs) ctx = Inr v" for v
    using that each by (auto simp: res_simps)
qed simp

lemma agrees_compare:
  assumes "agrees x l ctx" "agrees y r ctx"
  shows "agrees_cond (Compare x op y) (Compare2 l op r) ctx"
  using assms by (auto simp: agrees_def agrees_cond_def evaluate_comparison_def res_simps)

lemma agrees_logic:
  assumes "list_all2 (\<lambda>c' c. agrees_cond c' c ctx) ds cs"
  shows "agrees_cond (Logic op ds) (Logic2 op cs) ctx"
proof -
  have all: "rall (\<lambda>c. holds2 c ctx) cs = Inr h" if "rall (\<lambda>c. evaluate_condition c ctx) ds = Inr h" for h
    using assms that
  proof (induction ds cs)
    case (Cons q ds c cs)
    then obtain b where b: "evaluate_condition q ctx = Inr b" "(if b then rall (\<lambda>c. evaluate_condition c ctx) ds else Inr False) = Inr h"
      by (auto simp: rbind_Inr_iff)
    have "holds2 c ctx = Inr b" using Cons.hyps(1) b(1) by (simp add: agrees_cond_def)
    with b(2) Cons.IH show ?case by (cases b) simp_all
  qed simp
  have any: "rany (\<lambda>c. holds2 c ctx) cs = Inr h" if "rany (\<lambda>c. evaluate_condition c ctx) ds = Inr h" for h
    using assms that
  proof (induction ds cs)
    case (Cons q ds c cs)
    then obtain b where b: "evaluate_condition q ctx = Inr b" "(if b then Inr True else rany (\<lambda>c. evaluate_condition c ctx) ds) = Inr h"
      by (auto simp: rbind_Inr_iff)
    have "holds2 c ctx = Inr b" using Cons.hyps(1) b(1) by (simp add: agrees_cond_def)
    with b(2) Cons.IH show ?case by (cases b) simp_all
  qed simp
  show ?thesis using all any by (cases op) (simp_all add: agrees_cond_def)
qed

text \<open>A rule computes its conditional.\<close>

lemma lowered_rule_simps [simp]:
  "rule_id (lowered_rule i calc c a b) = i" "rule_condition (lowered_rule i calc c a b) = c"
  "rule_when_true (lowered_rule i calc c a b) = a" "rule_when_false (lowered_rule i calc c a b) = b"
  "rule_period (lowered_rule i calc c a b) = None"
  by (simp_all add: lowered_rule_def)

lemma agrees_rule:
  assumes "set_rule d r st = Inr st'" and r: "r = lowered_rule i calc c' a' b'" and new: "dget (os_context st) i = None"
    and ext: "extends (os_context st') ctx"
    and sub: "agrees_cond c' c ctx" "agrees a' a ctx" "agrees b' b ctx"
  shows "agrees (ERef i) (Conditional2 c a b) ctx"
proof -
  have "rule_period r = None" by (simp add: r)
  from set_rule_Inr [OF assms(1) this] obtain h v where h: "evaluate_condition c' (os_context st) = Inr h"
    and v: "evaluate_expression (if h then a' else b') (os_context st) = Inr v" and st': "os_context st' = dset i v (os_context st)"
    unfolding r lowered_rule_simps .
  have "extends (os_context st) (os_context st')" using new by (auto simp: st' map_le_def)
  then have "extends (os_context st) ctx" using ext map_le_trans by blast
  from evaluate_condition_mono [OF this h] evaluate_expression_mono [OF this v]
  have "eval2 (Conditional2 c a b) ctx = Inr v" using sub by (cases h) (auto simp: agrees_def agrees_cond_def)
  moreover have "dget ctx i = Some v" by (rule extendsD [OF ext]) (simp add: st')
  ultimately show ?thesis using evaluated_leaf [OF v] by (simp add: agrees_def resolve_ref_def)
qed

definition produces :: "date \<Rightarrow> lowering \<Rightarrow> lowering \<Rightarrow> (eval_context \<Rightarrow> bool) \<Rightarrow> bool" where
  "produces d s s' P \<longleftrightarrow> (\<exists>new. lw_rules s' = lw_rules s @ new \<and> supports d new P)"

lemma produces_same: "(\<And>ctx. P ctx) \<Longrightarrow> produces d s s P"
  unfolding produces_def by (rule exI [of _ "[]"]) (simp add: supports_none)

lemma produces_weaken: "produces d s s' P \<Longrightarrow> (\<And>ctx. P ctx \<Longrightarrow> Q ctx) \<Longrightarrow> produces d s s' Q"
  unfolding produces_def using supports_weaken by blast

lemma produces_both:
  assumes "produces d s s1 P" "produces d s1 s2 Q"
  shows "produces d s s2 (\<lambda>ctx. P ctx \<and> Q ctx)"
proof -
  obtain as where as: "lw_rules s1 = lw_rules s @ as" "supports d as P" using assms(1) unfolding produces_def by blast
  obtain bs where bs: "lw_rules s2 = lw_rules s1 @ bs" "supports d bs Q" using assms(2) unfolding produces_def by blast
  have "lw_rules s2 = lw_rules s @ (as @ bs)" using as(1) bs(1) by simp
  with supports_both [OF as(2) bs(2)] show ?thesis unfolding produces_def by blast
qed

lemma produces_list:
  "rmap_state f es s = Inr (xs, s') \<Longrightarrow> (\<And>e u x u'. e \<in> set es \<Longrightarrow> f e u = Inr (x, u') \<Longrightarrow> produces d u u' (A x e)) \<Longrightarrow>
     produces d s s' (\<lambda>ctx. list_all2 (\<lambda>x e. A x e ctx) xs es)"
proof (induction es arbitrary: s xs)
  case (Cons e es)
  then obtain x s1 ys where x: "f e s = Inr (x, s1)" "rmap_state f es s1 = Inr (ys, s')" "xs = x # ys"
    by (auto simp: rbind_Inr_iff)
  have "produces d s s1 (A x e)" using x(1) Cons.prems(2) by simp
  moreover have "produces d s1 s' (\<lambda>ctx. list_all2 (\<lambda>x e. A x e ctx) ys es)" using x(2) Cons.IH Cons.prems(2) by simp
  ultimately have "produces d s s' (\<lambda>ctx. A x e ctx \<and> list_all2 (\<lambda>x e. A x e ctx) ys es)" by (rule produces_both)
  then show ?case by (rule produces_weaken) (simp add: x(3))
qed (simp add: produces_same)

text \<open>A conditional: its parts, then its rule.\<close>

lemma produces_rule:
  assumes "produces d s s' (\<lambda>ctx. agrees_cond c' c ctx \<and> agrees a' a ctx \<and> agrees b' b ctx)"
  shows "produces d s (add_rule (lowered_rule i calc c' a' b') s') (agrees (ERef i) (Conditional2 c a b))"
proof -
  let ?r = "lowered_rule i calc c' a' b'" and ?P = "\<lambda>ctx. agrees_cond c' c ctx \<and> agrees a' a ctx \<and> agrees b' b ctx"
  obtain new where new: "lw_rules s' = lw_rules s @ new" "supports d new ?P" using assms unfolding produces_def by blast
  have "supports d (new @ [?r]) (agrees (ERef i) (Conditional2 c a b))"
    unfolding supports_def
  proof (intro conjI allI impI)
    show "\<forall>r \<in> set (new @ [?r]). rule_period r = None" using new(2) by (auto simp: supports_def)
  next
    fix st st' ctx
    assume run: "rfold (set_rule d) (new @ [?r]) st = Inr st'" and dist: "distinct (map rule_id (new @ [?r]))"
      and fresh: "\<forall>r \<in> set (new @ [?r]). dget (os_context st) (rule_id r) = None" and ext: "extends (os_context st') ctx"
    from run obtain s1 where s1: "rfold (set_rule d) new st = Inr s1" "set_rule d ?r s1 = Inr st'"
      by (auto simp: rfold_append res_simps)
    have "dom (map_of (os_context s1)) \<subseteq> dom (map_of (os_context st)) \<union> rule_id ` set new"
      using set_rules_grow [OF s1(1)] dist fresh supports_period [OF new(2)] by simp
    then have free: "dget (os_context s1) i = None" using fresh dist by (auto simp: dom_def)
    have "?P ctx" by (rule supportsD [OF supports_append1 [OF new(2), of "[?r]"] run dist _ ext]) (use fresh in auto)
    then show "agrees (ERef i) (Conditional2 c a b) ctx"
      by (elim conjE) (rule agrees_rule [OF s1(2) refl free ext])
  qed
  then show ?thesis unfolding produces_def using new(1) by (intro exI [of _ "new @ [?r]"]) (simp add: add_rule_def)
qed

lemma lower_sound:
  fixes d :: date
  shows "lower_expression calc e s = Inr (e', s') \<Longrightarrow> stripped (iter_expression_refs e) \<Longrightarrow> produces d s s' (agrees e' e)"
    and "lower_condition c s = Inr (c', s') \<Longrightarrow> stripped (iter_condition_refs c) \<Longrightarrow> produces d s s' (agrees_cond c' c)"
proof (induction calc e s and c s arbitrary: e' s' and c' s' rule: lower_expression_lower_condition.induct)
  case (1 calc v s)
  then show ?case by (auto intro: produces_same simp: agrees_def)
next
  case (2 calc r s)
  then have "e' = ERef r" "s' = s" by (auto simp: rbind_Inr_iff dest: new_reference_Inr)
  then show ?case by (auto intro: produces_same simp: agrees_def)
next
  case (3 calc t s)
  then have "e' = ERef t" "s' = s" by (auto simp: rbind_Inr_iff dest: new_reference_Inr)
  then show ?case by (auto intro: produces_same simp: agrees_def)
next
  case (4 calc e s)
  from "4.prems"(1) obtain x where x: "lower_expression ''expr'' e s = Inr (x, s')" "e' = EOp SUBTRACT [ELit (PDec dec_zero), x]"
    by (auto simp: rbind_Inr_iff new_expression_def split: if_splits)
  have "produces d s s' (agrees x e)" using "4.IH" x(1) "4.prems"(2) by simp
  then show ?case unfolding x(2) by (rule produces_weaken) (rule agrees_negate)
next
  case (5 calc op l r s)
  from "5.prems"(1) obtain x s1 y where x: "lower_expression ''expr'' l s = Inr (x, s1)" "lower_expression ''expr'' r s1 = Inr (y, s')"
    "e' = EOp (binary_op op) [x, y]"
    by (auto simp: rbind_Inr_iff new_expression_def split: if_splits)
  have "produces d s s1 (agrees x l)" using "5.IH"(1) x(1) "5.prems"(2) by simp
  moreover have "produces d s1 s' (agrees y r)" using "5.IH"(2) [OF x(1) refl] x(2) "5.prems"(2) by simp
  ultimately have "produces d s s' (\<lambda>ctx. agrees x l ctx \<and> agrees y r ctx)" by (rule produces_both)
  then show ?case unfolding x(3) by (rule produces_weaken) (simp add: agrees_binary)
next
  case (6 calc op es s)
  from "6.prems"(1) obtain xs where xs: "rmap_state (lower_expression ''expr'') es s = Inr (xs, s')" "e' = EOp (nary_op op) xs"
    by (auto simp: rbind_Inr_iff new_expression_def split: if_splits)
  have "produces d s s' (\<lambda>ctx. list_all2 (\<lambda>x e. agrees x e ctx) xs es)"
    by (rule produces_list [OF xs(1)]) (use "6.IH" "6.prems"(2) in auto)
  then show ?case unfolding xs(2) by (rule produces_weaken) (rule agrees_nary)
next
  case (7 calc e scale m s)
  then show ?case by simp
next
  case (8 calc c a b s)
  obtain i s0 where i: "next_rule_id calc s = (i, s0)" by (cases "next_rule_id calc s")
  then have s0: "lw_rules s0 = lw_rules s" by (auto simp: next_rule_id_def Let_def)
  from "8.prems"(1) i obtain c' s1 a' s2 b' s3 j where
    c: "lower_condition c s0 = Inr (c', s1)" and a: "lower_expression ''expr'' a s1 = Inr (a', s2)"
    and b: "lower_expression ''expr'' b s2 = Inr (b', s3)" and j: "validate_identifier_string i = Inr j"
    and e: "e' = ERef j" "s' = add_rule (lowered_rule j calc c' a' b') s3"
    by (auto simp: rbind_Inr_iff new_rule_def new_reference_def)
  have "produces d s0 s1 (agrees_cond c' c)" using "8.IH"(1) [OF i [symmetric] refl] c "8.prems"(2) by simp
  moreover have "produces d s1 s2 (agrees a' a)" using "8.IH"(2) [OF i [symmetric] refl c refl] a "8.prems"(2) by simp
  moreover have "produces d s2 s3 (agrees b' b)" using "8.IH"(3) [OF i [symmetric] refl c refl a refl] b "8.prems"(2) by simp
  ultimately have "produces d s0 s3 (\<lambda>ctx. agrees_cond c' c ctx \<and> agrees a' a ctx \<and> agrees b' b ctx)"
    by (intro produces_both)
  then have "produces d s s3 (\<lambda>ctx. agrees_cond c' c ctx \<and> agrees a' a ctx \<and> agrees b' b ctx)"
    by (simp add: produces_def s0)
  then show ?case unfolding e by (rule produces_rule)
next
  case (9 l op r s)
  from "9.prems"(1) obtain x s1 y where x: "lower_expression ''expr'' l s = Inr (x, s1)" "lower_expression ''expr'' r s1 = Inr (y, s')"
    "c' = Compare x op y"
    by (auto simp: rbind_Inr_iff)
  have "produces d s s1 (agrees x l)" using "9.IH"(1) x(1) "9.prems"(2) by simp
  moreover have "produces d s1 s' (agrees y r)" using "9.IH"(2) [OF x(1) refl] x(2) "9.prems"(2) by simp
  ultimately have "produces d s s' (\<lambda>ctx. agrees x l ctx \<and> agrees y r ctx)" by (rule produces_both)
  then show ?case unfolding x(3) by (rule produces_weaken) (simp add: agrees_compare)
next
  case (10 op cs s)
  from "10.prems"(1) obtain ds where ds: "rmap_state lower_condition cs s = Inr (ds, s')" "c' = Logic op ds"
    by (auto simp: rbind_Inr_iff new_logic_def split: if_splits)
  have "produces d s s' (\<lambda>ctx. list_all2 (\<lambda>c' c. agrees_cond c' c ctx) ds cs)"
    by (rule produces_list [OF ds(1)]) (use "10.IH" "10.prems"(2) in auto)
  then show ?case unfolding ds(2) by (rule produces_weaken) (rule agrees_logic)
qed

section \<open>Valid packages\<close>

lemma id_pattern_v2_char: "id_pattern_v2 s \<Longrightarrow> s \<noteq> [] \<and> list_all id_char_v2 s"
  by (cases s) (auto simp: id_char_v2_def)

lemma id_char_v2_id: "id_char_v2 c \<Longrightarrow> id_char c"
  by (auto simp: id_char_v2_def id_char_def is_lower_def is_digit_def less_eq_char_def)

lemma identifier_v2_Inr:
  "validate_identifier_string_v2 v = Inr s \<longleftrightarrow> s = py_strip v \<and> id_pattern_v2 s"
  by (auto simp: validate_identifier_string_v2_def Let_def)

lemma identifier_v2_stripped: "validate_identifier_string_v2 v = Inr s \<Longrightarrow> py_strip s = s"
  by (auto simp: identifier_v2_Inr py_strip_idem)

text \<open>A version 0.2 identifier is one of version 0.1.\<close>

lemma identifier_v2_v1: "id_pattern_v2 s \<Longrightarrow> py_strip s = s \<Longrightarrow> validate_identifier_string s = Inr s"
  using id_pattern_v2_char [of s] id_char_v2_id by (auto simp: validate_identifier_Inr list_all_iff)

definition proper_refs :: "expr_ref list \<Rightarrow> bool" where
  "proper_refs rs \<longleftrightarrow> (\<forall>r \<in> set rs. id_pattern_v2 (ref_id r) \<and> py_strip (ref_id r) = ref_id r)"

lemma proper_refs_simps [simp]:
  "proper_refs []" "proper_refs (as @ bs) \<longleftrightarrow> proper_refs as \<and> proper_refs bs"
  "proper_refs (r # rs) \<longleftrightarrow> (id_pattern_v2 (ref_id r) \<and> py_strip (ref_id r) = ref_id r) \<and> proper_refs rs"
  "proper_refs (concat xss) \<longleftrightarrow> (\<forall>xs \<in> set xss. proper_refs xs)"
  by (auto simp: proper_refs_def)

lemma proper_refs_stripped: "proper_refs rs \<Longrightarrow> stripped rs"
  by (simp add: proper_refs_def stripped_def)

lemma rmap_list_all: "rmap_list f xs = Inr ys \<Longrightarrow> (\<And>x y. x \<in> set xs \<Longrightarrow> f x = Inr y \<Longrightarrow> P y) \<Longrightarrow> \<forall>y \<in> set ys. P y"
  unfolding rmap_list_Inr_iff list_all2_conv_all_nth by (metis in_set_conv_nth nth_mem)

lemma validate_expr2_refs:
  "validate_expr2 e = Inr e' \<Longrightarrow> proper_refs (iter_expression_refs e')"
  "validate_cond2 c = Inr c' \<Longrightarrow> proper_refs (iter_condition_refs c')"
proof (induction e and c arbitrary: e' and c' rule: validate_expr2_validate_cond2.induct)
  case (5 op es)
  then obtain es' where es: "rmap_list validate_expr2 es = Inr es'" "e' = Nary2 op es'" by (auto simp: res_simps split: if_splits)
  have "\<forall>y \<in> set es'. proper_refs (iter_expression_refs y)" by (rule rmap_list_all [OF es(1)]) (use "5.IH" in blast)
  then show ?case by (simp add: es(2))
next
  case (10 op cs)
  then obtain cs' where cs: "rmap_list validate_cond2 cs = Inr cs'" "c' = Logic2 op cs'" by (auto simp: res_simps split: if_splits)
  have "\<forall>y \<in> set cs'. proper_refs (iter_condition_refs y)" by (rule rmap_list_all [OF cs(1)]) (use "10.IH" in blast)
  then show ?case by (simp add: cs(2))
qed (auto simp: res_simps identifier_v2_Inr py_strip_idem split: if_splits)

definition node_proper :: "calculation_node_v2 \<Rightarrow> bool" where
  "node_proper n \<longleftrightarrow> id_pattern_v2 (c2_id n) \<and> py_strip (c2_id n) = c2_id n \<and> proper_refs (iter_expression_refs (c2_expression n))
     \<and> (\<forall>dep \<in> set (c2_depends_on n). id_pattern_v2 dep \<and> py_strip dep = dep)"

lemma validate_node_v2_proper: "validate_node_v2 n = Inr m \<Longrightarrow> node_proper m"
proof -
  assume "validate_node_v2 n = Inr m"
  then obtain e i deps where e: "validate_expr2 (c2_expression n) = Inr e" and i: "validate_identifier_string_v2 (c2_id n) = Inr i"
    and deps: "rmap_list validate_identifier_string_v2 (c2_depends_on n) = Inr deps"
    and m: "m = n\<lparr>c2_id := i, c2_expression := e, c2_depends_on := deps\<rparr>"
    by (auto simp: validate_node_v2_def res_simps)
  have "\<forall>dep \<in> set deps. id_pattern_v2 dep \<and> py_strip dep = dep"
    by (rule rmap_list_all [OF deps]) (auto simp: identifier_v2_Inr py_strip_idem)
  moreover have "id_pattern_v2 i \<and> py_strip i = i" using i by (auto simp: identifier_v2_Inr py_strip_idem)
  moreover note validate_expr2_refs(1) [OF e]
  ultimately show ?thesis by (simp add: node_proper_def m)
qed

lemma see_entities_v2:
  "rfold see_entity_v2 es seen = Inr seen' \<Longrightarrow>
     rfold see_entity es seen = Inr seen' \<and> (\<forall>x \<in> set es. id_pattern_v2 (py_strip (fst x)))"
  by (induction es arbitrary: seen) (auto simp: see_entity_v2_def rbind_Inr_iff identifier_v2_Inr)

lemma rfold_unit_all: "rfold f xs () = Inr u \<Longrightarrow> \<forall>x \<in> set xs. f x () = Inr ()"
  by (induction xs) (auto simp: rbind_Inr_iff)

lemma validate_package_v2_Inr:
  assumes "validate_package_v2 cyclic p = Inr q"
  shows "q = p\<lparr>p2_id := p2_id q\<rparr>" "id_pattern_v2 (p2_id q)" "py_strip (p2_id q) = p2_id q" "p2_calculations p \<noteq> []" "p2_outputs p \<noteq> []"
    "distinct (map fst (entities_v2 p))" "\<forall>x \<in> set (entities_v2 p). id_pattern_v2 (py_strip (fst x))"
    "\<forall>n \<in> set (p2_calculations p). check_calculation (map tbl_id (p2_tables p)) (map fst (entities_v2 p)) n () = Inr ()"
    "\<forall>x \<in> set (p2_outputs p). o2_source_ref x \<in> set (map fst (entities_v2 p))"
    "\<not> cyclic (map c2_id (p2_calculations p)) (derived_edges (p2_calculations p))"
    "\<forall>t \<in> set (p2_tables p). validate_range_coverage t = []"
    "\<forall>x \<in> set (p2_outputs p). check_rounding (p2_calculations p) x () = Inr ()"
proof -
  from assms obtain i seen cases u v w x where
    i: "validate_identifier_string_v2 (p2_id p) = Inr i" "q = p\<lparr>p2_id := i\<rparr>" and ne: "p2_calculations p \<noteq> []" "p2_outputs p \<noteq> []"
    and seen: "rfold see_entity_v2 (entities_v2 p) [] = Inr seen"
    and calcs: "rfold (check_calculation (map tbl_id (p2_tables p)) (map fst (entities_v2 p))) (p2_calculations p) () = Inr u"
    and srcs: "rfold (check_source (map fst (entities_v2 p))) (p2_outputs p) () = Inr v"
    and cyc: "\<not> cyclic (map c2_id (p2_calculations p)) (derived_edges (p2_calculations p))"
    and cov: "rfold check_coverage (p2_tables p) () = Inr w"
    and rnd: "rfold (check_rounding (p2_calculations p)) (p2_outputs p) () = Inr x"
    unfolding validate_package_v2_def Let_def by (auto simp: rbind_Inr_iff split: if_splits)
  show "q = p\<lparr>p2_id := p2_id q\<rparr>" "id_pattern_v2 (p2_id q)" "py_strip (p2_id q) = p2_id q" "p2_calculations p \<noteq> []" "p2_outputs p \<noteq> []"
    using i ne by (auto simp: identifier_v2_Inr py_strip_idem)
  show "distinct (map fst (entities_v2 p))" "\<forall>x \<in> set (entities_v2 p). id_pattern_v2 (py_strip (fst x))"
    using see_entities_v2 [OF seen] by (auto simp: see_entity_loop)
  show "\<forall>n \<in> set (p2_calculations p). check_calculation (map tbl_id (p2_tables p)) (map fst (entities_v2 p)) n () = Inr ()"
    by (rule rfold_unit_all [OF calcs])
  show "\<forall>x \<in> set (p2_outputs p). o2_source_ref x \<in> set (map fst (entities_v2 p))"
    using rfold_unit_all [OF srcs] by (auto simp: check_source_def split: if_splits)
  show "\<not> cyclic (map c2_id (p2_calculations p)) (derived_edges (p2_calculations p))" by (rule cyc)
  show "\<forall>t \<in> set (p2_tables p). validate_range_coverage t = []"
    using rfold_unit_all [OF cov] by (auto simp: check_coverage_def split: if_splits)
  show "\<forall>x \<in> set (p2_outputs p). check_rounding (p2_calculations p) x () = Inr ()" by (rule rfold_unit_all [OF rnd])
qed

section \<open>Lowered calculations\<close>

definition body_of :: "expr2 \<Rightarrow> expr2" where
  "body_of e = (case e of Round2 x scale m \<Rightarrow> x | _ \<Rightarrow> e)"

text \<open>What a lowered calculation keeps of its original.\<close>

definition lowers_to :: "calculation_node \<Rightarrow> calculation_node_v2 \<Rightarrow> bool" where
  "lowers_to m n \<longleftrightarrow> calc_id m = py_strip (c2_id n) \<and> calc_period m = c2_period n \<and> (calc_rounding_rule m = None \<longrightarrow> calc_rounding_rule_ref m = None)
     \<and> (case c2_expression n of
          Round2 e scale md \<Rightarrow> (\<exists>r. calc_rounding_rule m = Some r \<and> rr_precision r = scale \<and> rr_mode r = md)
        | _ \<Rightarrow> calc_rounding_rule m = None)
     \<and> calc_depends_on m = map py_strip (c2_depends_on n)"

lemma rounding_rule_keeps: "validate_rounding_rule r = Inr r' \<Longrightarrow> rr_precision r' = rr_precision r \<and> rr_mode r' = rr_mode r"
  by (auto simp: validate_rounding_rule_def res_simps split: if_splits)

lemma rmap_identifier: "rmap_list validate_identifier_string xs = Inr ys \<Longrightarrow> ys = map py_strip xs"
  by (induction xs arbitrary: ys) (auto simp: res_simps validate_identifier_Inr)

lemma new_node_Inr:
  assumes "new_node n e rounding = Inr m"
  shows "calc_id m = py_strip (c2_id n)" "calc_expression m = e" "calc_depends_on m = map py_strip (c2_depends_on n)"
    "calc_rounding_rule m = rounding" "rounding = None \<Longrightarrow> calc_rounding_rule_ref m = None" "calc_period m = c2_period n"
  using assms by (auto simp: new_node_def res_simps own_rounding_ref_def validate_identifier_Inr dest: rmap_identifier)

lemma lower_node_Inr:
  assumes "lower_calculation_node n s = Inr (m, s')"
  shows "lowers_to m n" and "stripped (iter_expression_refs (body_of (c2_expression n))) \<Longrightarrow> produces d s s' (agrees (calc_expression m) (body_of (c2_expression n)))"
proof -
  from assms obtain body rounding e where b: "node_body n = Inr (body, rounding)"
    and e: "lower_expression (c2_id n) body s = Inr (e, s')" and m: "new_node n e rounding = Inr m"
    by (auto simp: lower_calculation_node_def rbind_Inr_iff)
  have body: "body = body_of (c2_expression n)"
    using b by (auto simp: node_body_def body_of_def rbind_Inr_iff split: expr2.splits)
  show "lowers_to m n"
    using b new_node_Inr [OF m] unfolding lowers_to_def
    by (auto simp: node_body_def rbind_Inr_iff dest!: rounding_rule_keeps split: expr2.splits) (metis option.inject)
  show "stripped (iter_expression_refs (body_of (c2_expression n))) \<Longrightarrow> produces d s s' (agrees (calc_expression m) (body_of (c2_expression n)))"
    using lower_sound(1) [OF e] by (simp add: body new_node_Inr(2) [OF m])
qed

lemma rmap_state_all2:
  "rmap_state f es s = Inr (xs, s') \<Longrightarrow> (\<And>e u x u'. e \<in> set es \<Longrightarrow> f e u = Inr (x, u') \<Longrightarrow> R x e) \<Longrightarrow> list_all2 R xs es"
proof (induction es arbitrary: s xs)
  case (Cons e es)
  then obtain x s1 ys where x: "f e s = Inr (x, s1)" "rmap_state f es s1 = Inr (ys, s')" "xs = x # ys"
    by (auto simp: rbind_Inr_iff)
  have "R x e" using x(1) Cons.prems(2) by simp
  moreover have "list_all2 R ys es" using x(2) Cons.IH Cons.prems(2) by simp
  ultimately show ?case by (simp add: x(3))
qed simp

section \<open>The run of a lowered package\<close>

text \<open>The ids a step may put a value at.\<close>

lemma put_dom: "dom (map_of (os_context (put i v st))) = insert i (dom (map_of (os_context st)))"
  by (auto simp: dom_def)

lemma set_inputs_dom:
  "rfold (set_input risk) vals st = Inr st' \<Longrightarrow> dom (map_of (os_context st')) \<subseteq> dom (map_of (os_context st)) \<union> fst ` set vals"
proof (induction vals arbitrary: st)
  case (Cons x vals)
  then obtain s where s: "set_input risk x st = Inr s" "rfold (set_input risk) vals s = Inr st'" by (auto simp: res_simps)
  have "os_context s = dset (fst x) (snd x) (os_context st)" using s(1) by (auto simp: set_input_def dest: trace_to_Inr)
  then have "dom (map_of (os_context s)) = insert (fst x) (dom (map_of (os_context st)))" by (auto simp: dom_def)
  with Cons.IH [OF s(2)] show ?case by auto
qed simp

lemma set_constants_dom:
  "rfold (set_constant d) cs st = Inr st' \<Longrightarrow> dom (map_of (os_context st')) \<subseteq> dom (map_of (os_context st)) \<union> const_id ` set cs"
proof (induction cs arbitrary: st)
  case (Cons c cs)
  then obtain s where s: "set_constant d c st = Inr s" "rfold (set_constant d) cs s = Inr st'" by (auto simp: res_simps)
  have "os_context s = os_context st \<or> os_context s = dset (const_id c) (PDec (const_value c)) (os_context st)"
    using s(1) by (auto simp: set_constant_def split: if_splits dest: trace_to_Inr)
  then have "dom (map_of (os_context s)) \<subseteq> insert (const_id c) (dom (map_of (os_context st)))" by (auto split: if_splits)
  with Cons.IH [OF s(2)] show ?case by auto
qed simp

lemma set_tables_dom:
  "rfold (set_table d) ts st = Inr st' \<Longrightarrow> dom (map_of (os_context st')) \<subseteq> dom (map_of (os_context st)) \<union> tbl_id ` set ts"
proof (induction ts arbitrary: st)
  case (Cons t ts)
  then obtain s where s: "set_table d t st = Inr s" "rfold (set_table d) ts s = Inr st'" by (auto simp: res_simps)
  have "os_context s = os_context st \<or> (\<exists>v. os_context s = dset (tbl_id t) v (os_context st))"
    using s(1) by (auto simp: set_table_def Let_def rbind_Inr_iff split: if_splits dest!: trace_to_Inr)
  then have "dom (map_of (os_context s)) \<subseteq> insert (tbl_id t) (dom (map_of (os_context st)))" by (auto split: if_splits)
  with Cons.IH [OF s(2)] show ?case by auto
qed simp

lemma resolve_nodes_rules:
  assumes "resolve_nodes q risk vals d = Inr st" and "pkg_fees q = []" "pkg_constraints q = []" "pkg_modifiers q = []"
  obtains s where "rfold (set_rule d) (pkg_rules q) s = Inr st"
    "dom (map_of (os_context s)) \<subseteq> fst ` set vals \<union> const_id ` set (pkg_constants q) \<union> tbl_id ` set (pkg_tables q)"
proof -
  from assms obtain s1 s2 s where s: "rfold (set_input risk) vals initial_state = Inr s1" "rfold (set_constant d) (pkg_constants q) s1 = Inr s2"
    "rfold (set_table d) (pkg_tables q) s2 = Inr s" "rfold (set_rule d) (pkg_rules q) s = Inr st"
    by (auto simp: resolve_nodes_def Let_def rbind_Inr_iff)
  have "dom (map_of (os_context s)) \<subseteq> fst ` set vals \<union> const_id ` set (pkg_constants q) \<union> tbl_id ` set (pkg_tables q)"
    using set_inputs_dom [OF s(1)] set_constants_dom [OF s(2)] set_tables_dom [OF s(3)]
    unfolding initial_state_def oracle_state.simps map_of.simps dom_empty by blast
  with s(4) that show thesis by blast
qed

lemma run_node_plain:
  assumes "run_node q d n st = Inr st'" and "pkg_fees q = []" "pkg_constraints q = []" "pkg_modifiers q = []"
  obtains base b cur where "evaluate_expression (calc_expression n) (os_context st) = Inr base" "to_dec base = Inr b"
    "apply_rounding (node_rounding q n) b = Inr cur" "os_context st' = dset (calc_id n) (PDec cur) (os_context st)"
proof -
  have none: "active_modifiers q d = []" "active_constraints q d = []" "active_fees q d = []"
    by (simp_all add: active_modifiers_def active_constraints_def active_fees_def assms)
  from assms(1) obtain base b cur where e: "evaluate_expression (calc_expression n) (os_context st) = Inr base" "to_dec base = Inr b"
    "apply_rounding (node_rounding q n) b = Inr cur"
    and t: "trace_to (calc_id n) ''CALCULATION'' ''EVALUATE_CALCULATION'' (PDec cur)
         (dependency_inputs n (os_context (put (calc_id n) (PDec cur) (st\<lparr>os_value := cur\<rparr>)))) (calc_provenance n) []
         (put (calc_id n) (PDec cur) (st\<lparr>os_value := cur\<rparr>)) = Inr st'"
    unfolding run_node_def none node_modifiers_def node_constraints_def node_fees_def by (auto simp: rbind_Inr_iff Let_def)
  have "os_context st' = dset (calc_id n) (PDec cur) (os_context st)" using trace_to_Inr [OF t] by simp
  with e that show thesis by blast
qed

text \<open>A calculation that ran is solved by the values it left.\<close>

definition solved :: "ipir_package \<Rightarrow> eval_context \<Rightarrow> calculation_node \<Rightarrow> bool" where
  "solved q ctx n \<longleftrightarrow> (\<exists>base b cur. evaluate_expression (calc_expression n) ctx = Inr base \<and> to_dec base = Inr b
     \<and> apply_rounding (node_rounding q n) b = Inr cur \<and> dget ctx (calc_id n) = Some (PDec cur))"

lemma solved_mono: "solved q c n \<Longrightarrow> extends c c' \<Longrightarrow> solved q c' n"
  unfolding solved_def using evaluate_expression_mono extendsD by blast

lemma calculations_solved:
  assumes "pkg_fees q = []" "pkg_constraints q = []" "pkg_modifiers q = []"
  shows "rfold (step_node q d) ns st = Inr st' \<Longrightarrow> distinct (map calc_id ns) \<Longrightarrow> (\<And>n. n \<in> set ns \<Longrightarrow> dget (os_context st) (calc_id n) = None) \<Longrightarrow>
     extends (os_context st) (os_context st') \<and> (\<forall>n \<in> set ns. is_active (calc_period n) d \<longrightarrow> solved q (os_context st') n)"
proof (induction ns arbitrary: st)
  case (Cons n ns)
  then obtain s where s: "step_node q d n st = Inr s" "rfold (step_node q d) ns s = Inr st'" by (auto simp: res_simps)
  have new: "dget (os_context st) (calc_id n) = None" using Cons.prems(3) by simp
  have dist: "distinct (map calc_id ns)" using Cons.prems(2) by simp
  have step: "extends (os_context st) (os_context s) \<and> (is_active (calc_period n) d \<longrightarrow> solved q (os_context s) n)
      \<and> dom (map_of (os_context s)) \<subseteq> insert (calc_id n) (dom (map_of (os_context st)))"
  proof (cases "is_active (calc_period n) d")
    case True
    then have "run_node q d n st = Inr s" using s(1) by (simp add: step_node_def)
    from run_node_plain [OF this assms] obtain base b cur where r: "evaluate_expression (calc_expression n) (os_context st) = Inr base"
      "to_dec base = Inr b" "apply_rounding (node_rounding q n) b = Inr cur" "os_context s = dset (calc_id n) (PDec cur) (os_context st)" .
    have ext: "extends (os_context st) (os_context s)" using new by (auto simp: r(4) map_le_def)
    have "solved q (os_context s) n" unfolding solved_def using evaluate_expression_mono [OF ext r(1)] r by auto
    then show ?thesis using ext by (auto simp: r(4) split: if_splits)
  qed (use s(1) in \<open>simp add: step_node_def, blast\<close>)
  have fresh: "dget (os_context s) (calc_id m) = None" if "m \<in> set ns" for m
  proof -
    have "calc_id m \<noteq> calc_id n" "dget (os_context st) (calc_id m) = None" using that Cons.prems(2,3) by (auto simp: image_iff)
    then have "calc_id m \<notin> dom (map_of (os_context s))" using step by auto
    then show ?thesis by (simp add: domIff)
  qed
  note rest = Cons.IH [OF s(2) dist fresh]
  have "extends (os_context st) (os_context st')" using step rest map_le_trans by blast
  moreover have "is_active (calc_period n) d \<longrightarrow> solved q (os_context st') n" using step rest solved_mono by blast
  ultimately show ?case using rest by simp
qed simp

section \<open>A lowered package\<close>

lemma lower_package_Inr:
  assumes "lower_to_v0_1 p = Inr q"
  obtains calcs s product outputs i where "rmap_state lower_calculation_node (p2_calculations p) empty_lowering = Inr (calcs, s)"
    "rmap_list validate_output (map lowered_output (p2_outputs p)) = Inr outputs"
    "q = lowered_package p product calcs (lw_rules s) outputs\<lparr>pkg_id := i\<rparr>" "distinct (node_ids q)"
proof -
  from assms obtain calcs s product outputs where
    c: "rmap_state lower_calculation_node (p2_calculations p) empty_lowering = Inr (calcs, s)"
    and o: "rmap_list validate_output (map lowered_output (p2_outputs p)) = Inr outputs"
    and v: "validate_package (lowered_package p product calcs (lw_rules s) outputs) = Inr q"
    by (auto simp: lower_to_v0_1_def rbind_Inr_iff)
  from v obtain i where i: "q = lowered_package p product calcs (lw_rules s) outputs\<lparr>pkg_id := i\<rparr>"
    and dist: "distinct (node_ids (lowered_package p product calcs (lw_rules s) outputs))"
    unfolding validate_package_Inr by blast
  have "distinct (node_ids q)" using dist by (simp add: i node_ids_def entities_def)
  from that [OF c o i this] show thesis .
qed

lemma lowered_simps [simp]:
  "pkg_fees (lowered_package p product calcs rules outputs) = []" "pkg_constraints (lowered_package p product calcs rules outputs) = []"
  "pkg_modifiers (lowered_package p product calcs rules outputs) = []" "pkg_rules (lowered_package p product calcs rules outputs) = rules"
  "pkg_calculations (lowered_package p product calcs rules outputs) = calcs" "pkg_inputs (lowered_package p product calcs rules outputs) = p2_inputs p"
  "pkg_constants (lowered_package p product calcs rules outputs) = p2_constants p" "pkg_tables (lowered_package p product calcs rules outputs) = p2_tables p"
  "pkg_outputs (lowered_package p product calcs rules outputs) = outputs" "pkg_rounding_rules (lowered_package p product calcs rules outputs) = []"
  "pkg_coverages (lowered_package p product calcs rules outputs) = []"
  by (simp_all add: lowered_package_def)

lemma validated_keys:
  assumes "validate_risk_inputs q risk strict = Inr vals"
  shows "fst ` set vals \<subseteq> pi_id ` set (pkg_inputs q)"
proof
  fix i assume "i \<in> fst ` set vals"
  then obtain v where v: "dget vals i = Some v" by (metis map_of_eq_None_iff not_None_eq)
  have "rfold (validate_risk_input risk) (pkg_inputs q) [] = Inr vals"
    using assms by (auto simp: validate_risk_inputs_def res_simps split: if_splits)
  then have "validated_from ([] @ pkg_inputs q) vals" by (rule validate_inputs_loop [THEN conjunct1]) (simp add: validated_from_def)
  with v show "i \<in> pi_id ` set (pkg_inputs q)" by (auto simp: validated_from_def)
qed

definition base_ids :: "ipir_package_v2 \<Rightarrow> string set" where
  "base_ids p = pi_id ` set (p2_inputs p) \<union> const_id ` set (p2_constants p) \<union> tbl_id ` set (p2_tables p)"

text \<open>The state in which the rules of a lowered package start, and what they leave.\<close>

lemma lowered_start:
  assumes low: "lower_to_v0_1 p = Inr q"
    and str: "\<And>n. n \<in> set (p2_calculations p) \<Longrightarrow> stripped (iter_expression_refs (body_of (c2_expression n)))"
    and run: "evaluate_package topo q risk d txn strict = Inr r"
  obtains calcs s s0 st st' ns where "rmap_state lower_calculation_node (p2_calculations p) empty_lowering = Inr (calcs, s)"
    "rfold (set_rule d) (lw_rules s) s0 = Inr st" "dom (map_of (os_context s0)) \<subseteq> base_ids p"
    "\<forall>x \<in> set (lw_rules s). rule_period x = None \<and> dget (os_context s0) (rule_id x) = None" "distinct (map rule_id (lw_rules s))"
    "calc_id ` set calcs \<inter> (base_ids p \<union> rule_id ` set (lw_rules s)) = {}" "distinct (map calc_id calcs)"
    "supports d (lw_rules s) (\<lambda>ctx. list_all2 (\<lambda>m n. agrees (calc_expression m) (body_of (c2_expression n)) ctx) calcs (p2_calculations p))"
    "pkg_fees q = []" "pkg_constraints q = []" "pkg_modifiers q = []" "pkg_calculations q = calcs"
    "topological_sort_calculations topo q = Inr ns" "rfold (step_node q d) ns st = Inr st'" "or_resolved_values r = os_context st'"
proof -
  from low obtain calcs s product outputs i where c: "rmap_state lower_calculation_node (p2_calculations p) empty_lowering = Inr (calcs, s)"
    and q: "q = lowered_package p product calcs (lw_rules s) outputs\<lparr>pkg_id := i\<rparr>" and dist: "distinct (node_ids q)"
    by (rule lower_package_Inr)
  have fields: "pkg_fees q = []" "pkg_constraints q = []" "pkg_modifiers q = []" "pkg_rules q = lw_rules s" "pkg_calculations q = calcs"
    "pkg_inputs q = p2_inputs p" "pkg_constants q = p2_constants p" "pkg_tables q = p2_tables p"
    by (simp_all add: q)
  from run obtain vals st ns st' where vals: "validate_risk_inputs q risk strict = Inr vals" and st: "resolve_nodes q risk vals d = Inr st"
    and ns: "topological_sort_calculations topo q = Inr ns" and st': "rfold (step_node q d) ns st = Inr st'" and fin: "final_result q d txn st' = Inr r"
    by (rule evaluate_package_Inr)
  have ctx: "or_resolved_values r = os_context st'" using fin by (rule final_result_Inr)
  obtain s0 where s0: "rfold (set_rule d) (lw_rules s) s0 = Inr st"
    "dom (map_of (os_context s0)) \<subseteq> fst ` set vals \<union> const_id ` set (pkg_constants q) \<union> tbl_id ` set (pkg_tables q)"
    using resolve_nodes_rules [OF st fields(1-3)] fields(4) by metis
  have dom0: "dom (map_of (os_context s0)) \<subseteq> base_ids p" using s0(2) validated_keys [OF vals] unfolding base_ids_def fields by blast
  have ids: "distinct (map rule_id (lw_rules s))" "rule_id ` set (lw_rules s) \<inter> base_ids p = {}"
    "calc_id ` set calcs \<inter> (base_ids p \<union> rule_id ` set (lw_rules s)) = {}" "distinct (map calc_id calcs)"
    using dist unfolding node_ids_def entities_def fields base_ids_def by (auto simp: comp_def image_image)
  have prod: "produces d empty_lowering s (\<lambda>ctx. list_all2 (\<lambda>m n. agrees (calc_expression m) (body_of (c2_expression n)) ctx) calcs (p2_calculations p))"
    by (rule produces_list [OF c]) (use lower_node_Inr(2) str in blast)
  then have sup: "supports d (lw_rules s) (\<lambda>ctx. list_all2 (\<lambda>m n. agrees (calc_expression m) (body_of (c2_expression n)) ctx) calcs (p2_calculations p))"
    by (auto simp: produces_def empty_lowering_def)
  have fresh: "rule_period x = None \<and> dget (os_context s0) (rule_id x) = None" if "x \<in> set (lw_rules s)" for x
  proof -
    have "rule_id x \<notin> dom (map_of (os_context s0))" using that dom0 ids(2) by blast
    then show ?thesis using supports_period [OF sup that] by (simp add: domIff)
  qed
  from that [OF c s0(1) dom0 _ ids(1,3,4) sup fields(1-3,5) ns st' ctx] fresh show thesis by blast
qed

lemma lowered_run:
  assumes topo: "topological_sorter topo" and low: "lower_to_v0_1 p = Inr q"
    and str: "\<And>n. n \<in> set (p2_calculations p) \<Longrightarrow> stripped (iter_expression_refs (body_of (c2_expression n)))"
    and run: "evaluate_package topo q risk d txn strict = Inr r"
  shows "\<exists>ms. list_all2 (\<lambda>m n. lowers_to m n \<and> agrees (calc_expression m) (body_of (c2_expression n)) (or_resolved_values r)) ms (p2_calculations p)
    \<and> (\<forall>m \<in> set ms. is_active (calc_period m) d \<longrightarrow> solved q (or_resolved_values r) m)"
proof -
  obtain calcs s s0 st st' ns where c: "rmap_state lower_calculation_node (p2_calculations p) empty_lowering = Inr (calcs, s)"
    and s0: "rfold (set_rule d) (lw_rules s) s0 = Inr st" and dom0: "dom (map_of (os_context s0)) \<subseteq> base_ids p"
    and fresh: "\<forall>x \<in> set (lw_rules s). rule_period x = None \<and> dget (os_context s0) (rule_id x) = None" and dr: "distinct (map rule_id (lw_rules s))"
    and ci: "calc_id ` set calcs \<inter> (base_ids p \<union> rule_id ` set (lw_rules s)) = {}" and dc: "distinct (map calc_id calcs)"
    and sup: "supports d (lw_rules s) (\<lambda>ctx. list_all2 (\<lambda>m n. agrees (calc_expression m) (body_of (c2_expression n)) ctx) calcs (p2_calculations p))"
    and fields: "pkg_fees q = []" "pkg_constraints q = []" "pkg_modifiers q = []" and calcs: "pkg_calculations q = calcs"
    and ns: "topological_sort_calculations topo q = Inr ns" and st': "rfold (step_node q d) ns st = Inr st'" and ctx: "or_resolved_values r = os_context st'"
    by (rule lowered_start [OF low str run])
  have grow: "dom (map_of (os_context st)) \<subseteq> base_ids p \<union> rule_id ` set (lw_rules s)"
    using set_rules_grow [OF s0 dr fresh] dom0 by blast
  have perm: "mset ns = mset calcs"
    using topological_sorter.calculations_sorted(1) [OF topo _ ns] dc calcs by simp
  then have set_ns: "set ns = set calcs" by (metis set_mset_mset)
  have dist_ns: "distinct (map calc_id ns)" using perm dc by (metis mset_eq_imp_distinct_iff mset_map)
  have new: "dget (os_context st) (calc_id n) = None" if "n \<in> set ns" for n
  proof -
    have "calc_id n \<notin> dom (map_of (os_context st))" using that grow ci set_ns by blast
    then show ?thesis by (simp add: domIff)
  qed
  from calculations_solved [OF fields st' dist_ns new] have fin':
    "extends (os_context st) (os_context st')" "\<forall>n \<in> set calcs. is_active (calc_period n) d \<longrightarrow> solved q (os_context st') n"
    using set_ns by auto
  have "list_all2 (\<lambda>m n. agrees (calc_expression m) (body_of (c2_expression n)) (os_context st')) calcs (p2_calculations p)"
    by (rule supportsD [OF sup s0 dr _ fin'(1)]) (use fresh in blast)
  moreover have "list_all2 lowers_to calcs (p2_calculations p)" by (rule rmap_state_all2 [OF c]) (rule lower_node_Inr(1))
  ultimately show ?thesis using fin'(2) unfolding ctx by (intro exI [of _ calcs]) (simp add: list_all2_conv_all_nth)
qed

lemma solved_value:
  assumes low: "lowers_to m n" and agr: "agrees (calc_expression m) (body_of (c2_expression n)) ctx" and sol: "solved q ctx m"
  shows "\<exists>v. node_value n ctx = Inr v \<and> dget ctx (py_strip (c2_id n)) = Some (PDec v)"
proof -
  from sol obtain base b cur where e: "evaluate_expression (calc_expression m) ctx = Inr base" "to_dec base = Inr b"
    "apply_rounding (node_rounding q m) b = Inr cur" "dget ctx (calc_id m) = Some (PDec cur)" unfolding solved_def by blast
  have body: "eval2 (body_of (c2_expression n)) ctx = Inr base" using agr e(1) by (simp add: agrees_def)
  have rnd: "node_rounding q m = calc_rounding_rule m" using low by (auto simp: node_rounding_def lowers_to_def split: option.splits)
  have "node_value n ctx = Inr cur"
  proof (cases "\<exists>x scale md. c2_expression n = Round2 x scale md")
    case True
    then obtain x scale md where x: "c2_expression n = Round2 x scale md" by blast
    then obtain rr where "calc_rounding_rule m = Some rr" "rr_precision rr = scale" "rr_mode rr = md" using low by (auto simp: lowers_to_def)
    then have "round_decimal b scale md = Inr cur" using e(3) by (simp add: rnd apply_rounding_def)
    then show ?thesis using body e(2) by (simp add: node_value_def x body_of_def)
  next
    case False
    then have "body_of (c2_expression n) = c2_expression n" "calc_rounding_rule m = None"
      using low by (auto simp: body_of_def lowers_to_def split: expr2.splits)
    then show ?thesis using body e(2,3) by (simp add: node_value_def rnd apply_rounding_def)
  qed
  moreover have "calc_id m = py_strip (c2_id n)" using low by (simp add: lowers_to_def)
  ultimately show ?thesis using e(4) by auto
qed

end
