(* ===== verification/IpirV2Theorems.thy ===== *)
theory IpirV2Theorems
  imports IpirLoweringLaws
begin

text \<open>
  What version 0.2 of the model guarantees: valid packages are well formed, the compatibility gate
  says what it checks, a package is lowered unless it rounds inside an expression, and the oracle
  prices a lowered package by its own equations.
\<close>

section \<open>When lowering is refused\<close>

fun has_round :: "expr2 \<Rightarrow> bool" and cond_has_round :: "cond2 \<Rightarrow> bool" where
  "has_round (Literal2 v) = False"
| "has_round (Reference2 r) = False"
| "has_round (Negate2 e) = has_round e"
| "has_round (Binary2 op l r) = (has_round l \<or> has_round r)"
| "has_round (Nary2 op es) = list_ex has_round es"
| "has_round (Conditional2 c a b) = (cond_has_round c \<or> has_round a \<or> has_round b)"
| "has_round (TableLookup2 t) = False"
| "has_round (Round2 e scale m) = True"
| "cond_has_round (Compare2 l op r) = (has_round l \<or> has_round r)"
| "cond_has_round (Logic2 op cs) = list_ex cond_has_round cs"

text \<open>What the validators ensure of an expression.\<close>

fun expr_ok :: "expr2 \<Rightarrow> bool" and cond_ok :: "cond2 \<Rightarrow> bool" where
  "expr_ok (Literal2 v) = True"
| "expr_ok (Reference2 r) = (id_pattern_v2 r \<and> py_strip r = r)"
| "expr_ok (Negate2 e) = expr_ok e"
| "expr_ok (Binary2 op l r) = (expr_ok l \<and> expr_ok r)"
| "expr_ok (Nary2 op es) = (2 \<le> length es \<and> list_all expr_ok es)"
| "expr_ok (Conditional2 c a b) = (cond_ok c \<and> expr_ok a \<and> expr_ok b)"
| "expr_ok (TableLookup2 t) = (id_pattern_v2 t \<and> py_strip t = t)"
| "expr_ok (Round2 e scale m) = (expr_ok e \<and> 0 \<le> scale \<and> scale \<le> 10)"
| "cond_ok (Compare2 l op r) = (expr_ok l \<and> expr_ok r)"
| "cond_ok (Logic2 op cs) = (cs \<noteq> [] \<and> list_all cond_ok cs)"

lemma validate_expr2_ok:
  "validate_expr2 e = Inr e' \<Longrightarrow> expr_ok e'"
  "validate_cond2 c = Inr c' \<Longrightarrow> cond_ok c'"
proof (induction e and c arbitrary: e' and c' rule: validate_expr2_validate_cond2.induct)
  case (5 op es)
  then obtain es' where es: "rmap_list validate_expr2 es = Inr es'" "e' = Nary2 op es'" "2 \<le> length es'"
    by (auto simp: res_simps split: if_splits)
  have "\<forall>y \<in> set es'. expr_ok y" by (rule rmap_list_all [OF es(1)]) (use "5.IH" in blast)
  then show ?case using es(3) by (simp add: es(2) list_all_iff)
next
  case (10 op cs)
  then obtain cs' where cs: "rmap_list validate_cond2 cs = Inr cs'" "c' = Logic2 op cs'" "cs' \<noteq> []"
    by (auto simp: res_simps split: if_splits)
  have "\<forall>y \<in> set cs'. cond_ok y" by (rule rmap_list_all [OF cs(1)]) (use "10.IH" in blast)
  then show ?case using cs(3) by (simp add: cs(2) list_all_iff)
qed (auto simp: res_simps identifier_v2_Inr py_strip_idem split: if_splits)

text \<open>The synthesized rules have different numbers, and so different ids.\<close>

definition numbered :: "lowering \<Rightarrow> lowering \<Rightarrow> bool" where
  "numbered s s' \<longleftrightarrow> lw_counter s \<le> lw_counter s' \<and>
     (\<exists>ks. map rule_id (lw_rules s') = map rule_id (lw_rules s) @ map (\<lambda>(c, k). rule_name_of c k) ks
        \<and> distinct (map snd ks) \<and> (\<forall>k \<in> snd ` set ks. lw_counter s < k \<and> k \<le> lw_counter s'))"

lemma numbered_refl: "numbered s s"
  unfolding numbered_def by (intro conjI exI [of _ "[]"]) simp_all

lemma numbered_trans:
  assumes "numbered s s1" "numbered s1 s2"
  shows "numbered s s2"
proof -
  obtain ks where ks: "map rule_id (lw_rules s1) = map rule_id (lw_rules s) @ map (\<lambda>(c, k). rule_name_of c k) ks"
    "distinct (map snd ks)" "\<forall>k \<in> snd ` set ks. lw_counter s < k \<and> k \<le> lw_counter s1" "lw_counter s \<le> lw_counter s1"
    using assms(1) unfolding numbered_def by blast
  obtain js where js: "map rule_id (lw_rules s2) = map rule_id (lw_rules s1) @ map (\<lambda>(c, k). rule_name_of c k) js"
    "distinct (map snd js)" "\<forall>k \<in> snd ` set js. lw_counter s1 < k \<and> k \<le> lw_counter s2" "lw_counter s1 \<le> lw_counter s2"
    using assms(2) unfolding numbered_def by blast
  have "distinct (map snd (ks @ js))" using ks(2,3) js(2,3) by (fastforce simp: disjoint_iff)
  moreover have "\<forall>k \<in> snd ` set (ks @ js). lw_counter s < k \<and> k \<le> lw_counter s2"
    using ks(3,4) js(3,4) by (simp add: image_Un ball_Un) (meson le_less_trans le_trans less_le_trans)
  moreover have "map rule_id (lw_rules s2) = map rule_id (lw_rules s) @ map (\<lambda>(c, k). rule_name_of c k) (ks @ js)"
    using ks(1) js(1) by simp
  ultimately show ?thesis using ks(4) js(4) unfolding numbered_def by (intro conjI exI [of _ "ks @ js"]) auto
qed

lemma rule_name_number:
  assumes "rule_name_of c k = rule_name_of c' k'"
  shows "k = k'"
proof -
  have digits: "\<forall>x \<in> set (rev (nat_str n)). x \<noteq> CHR ''_''" for n
    using nat_str_digits [of n] by (auto simp: list_all_iff is_digit_def)
  have "takeWhile (\<lambda>x. x \<noteq> CHR ''_'') (rev (rule_name_of c n)) = rev (nat_str n)" for c n
    using digits [of n] by (simp add: rule_name_of_def takeWhile_append)
  with assms have "nat_str k = nat_str k'" by (metis rev_rev_ident)
  then show ?thesis by (metis nat_str_val)
qed

lemma strip_ends: "s \<noteq> [] \<Longrightarrow> \<not> is_space (hd s) \<Longrightarrow> \<not> is_space (last s) \<Longrightarrow> py_strip s = s"
proof -
  assume s: "s \<noteq> []" "\<not> is_space (hd s)" "\<not> is_space (last s)"
  have drop: "dropWhile is_space t = t" if "t \<noteq> []" "\<not> is_space (hd t)" for t using that by (cases t) auto
  have "dropWhile is_space s = s" by (rule drop) (use s in auto)
  moreover have "dropWhile is_space (rev s) = rev s" by (rule drop) (use s in \<open>auto simp: hd_rev\<close>)
  ultimately show "py_strip s = s" by (simp add: py_strip_def)
qed

lemma strip_id: "list_all id_char s \<Longrightarrow> py_strip s = s"
proof -
  assume s: "list_all id_char s"
  have space: "\<not> is_space x" if "id_char x" for x
    using that by (auto simp: id_char_def is_space_def Let_def less_eq_char_def)
  show "py_strip s = s"
  proof (cases "s = []")
    case False
    then show ?thesis using s space by (intro strip_ends) (auto simp: list_all_iff)
  qed (simp add: py_strip_def)
qed

lemma rule_name_valid: "list_all id_char c \<Longrightarrow> validate_identifier_string (rule_name_of c k) = Inr (rule_name_of c k)"
proof -
  assume c: "list_all id_char c"
  have digit: "id_char x" if "is_digit x" for x using that by (auto simp: id_char_def is_digit_def less_eq_char_def)
  have all: "list_all id_char (rule_name_of c k)"
    using c nat_str_digits [of k] digit by (auto simp: rule_name_of_def id_char_def list_all_iff)
  then show ?thesis by (simp add: validate_identifier_Inr strip_id) (simp add: rule_name_of_def)
qed

text \<open>Lowering ends in one of two ways.\<close>

definition lowers :: "bool \<Rightarrow> ('a \<times> lowering) res \<Rightarrow> lowering \<Rightarrow> bool" where
  "lowers bad result s \<longleftrightarrow>
     (if bad then result = Inl (LoweringNotSupportedError ''nested_round'') else \<exists>x s'. result = Inr (x, s') \<and> numbered s s')"

lemma lowers_state:
  assumes "\<And>e u. e \<in> set es \<Longrightarrow> lowers (bad e) (f e u) u"
  shows "lowers (list_ex bad es) (rmap_state f es s) s"
  using assms
proof (induction es arbitrary: s)
  case (Cons e es)
  have e: "lowers (bad e) (f e s) s" using Cons.prems by simp
  show ?case
  proof (cases "bad e")
    case False
    then obtain x s1 where x: "f e s = Inr (x, s1)" "numbered s s1" using e by (auto simp: lowers_def)
    have "lowers (list_ex bad es) (rmap_state f es s1) s1" using Cons by simp
    then show ?thesis using x False numbered_trans [OF x(2)] by (auto simp: lowers_def)
  qed (use e in \<open>simp add: lowers_def\<close>)
qed (simp add: lowers_def numbered_refl)

lemma lowers_bind:
  assumes "lowers bad result s" "\<And>x s1. result = Inr (x, s1) \<Longrightarrow> lowers bad' (f x s1) s1"
  shows "lowers (bad \<or> bad') (rbind result (\<lambda>(x, s1). f x s1)) s"
proof (cases bad)
  case False
  then obtain x s1 where x: "result = Inr (x, s1)" "numbered s s1" using assms(1) by (auto simp: lowers_def)
  with assms(2) [OF x(1)] False numbered_trans [OF x(2)] show ?thesis by (auto simp: lowers_def)
qed (use assms(1) in \<open>simp add: lowers_def\<close>)

lemma lowers_done: "lowers False (Inr (x, s)) s"
  by (simp add: lowers_def numbered_refl)

lemma numbered_rule:
  assumes "numbered s0 s'" "next_rule_id calc s = (i, s0)"
  shows "numbered s (add_rule (lowered_rule i name c a b) s')"
proof -
  from assms(2) have s0: "s0 = s\<lparr>lw_counter := lw_counter s + 1\<rparr>" "i = rule_name_of calc (lw_counter s + 1)"
    by (simp_all add: next_rule_id_def Let_def)
  obtain ks where ks: "map rule_id (lw_rules s') = map rule_id (lw_rules s0) @ map (\<lambda>(c, k). rule_name_of c k) ks"
    "distinct (map snd ks)" "\<forall>k \<in> snd ` set ks. lw_counter s0 < k \<and> k \<le> lw_counter s'" "lw_counter s0 \<le> lw_counter s'"
    using assms(1) unfolding numbered_def by blast
  let ?ks = "ks @ [(calc, lw_counter s + 1)]"
  have "map rule_id (lw_rules (add_rule (lowered_rule i name c a b) s')) = map rule_id (lw_rules s) @ map (\<lambda>(c, k). rule_name_of c k) ?ks"
    using ks(1) by (simp add: add_rule_def s0)
  moreover have "distinct (map snd ?ks)" using ks(2,3) by (auto simp: s0 image_iff)
  moreover have "\<forall>k \<in> snd ` set ?ks. lw_counter s < k \<and> k \<le> lw_counter (add_rule (lowered_rule i name c a b) s')"
    using ks(3,4) by (auto simp: s0 add_rule_def)
  moreover have "lw_counter s \<le> lw_counter (add_rule (lowered_rule i name c a b) s')" using ks(4) by (simp add: s0 add_rule_def)
  ultimately show ?thesis unfolding numbered_def by blast
qed

lemma binary_count: "operand_count_ok (binary_op op) (Suc (Suc 0))"
  by (cases op) (simp_all add: operand_count_ok_def)

lemma nary_count: "2 \<le> n \<Longrightarrow> operand_count_ok (nary_op op) n"
  by (cases op) (simp_all add: operand_count_ok_def)

lemma rmap_state_length: "rmap_state f es s = Inr (xs, s') \<Longrightarrow> length xs = length es"
  by (induction es arbitrary: s xs) (auto simp: rbind_Inr_iff)

lemma lower_total:
  "expr_ok e \<Longrightarrow> list_all id_char calc \<Longrightarrow> lowers (has_round e) (lower_expression calc e s) s"
  "cond_ok c \<Longrightarrow> lowers (cond_has_round c) (lower_condition c s) s"
proof (induction calc e s and c s rule: lower_expression_lower_condition.induct)
  case (1 calc v s)
  show ?case by (simp add: lowers_done)
next
  case (2 calc r s)
  then show ?case by (simp add: new_reference_def identifier_v2_v1 lowers_done)
next
  case (3 calc t s)
  then show ?case by (simp add: new_reference_def identifier_v2_v1 lowers_done)
next
  case (4 calc e s)
  have "lowers (has_round e) (lower_expression ''expr'' e s) s" using 4 by (simp add: id_char_def)
  from lowers_bind [OF this, of False "\<lambda>x s1. Inr (EOp SUBTRACT [ELit (PDec dec_zero), x], s1)"] show ?case
    by (simp add: new_expression_def operand_count_ok_def lowers_done)
next
  case (5 calc op l r s)
  have l: "lowers (has_round l) (lower_expression ''expr'' l s) s" using 5 by (simp add: id_char_def)
  have "lowers (has_round r \<or> False) (rbind (lower_expression ''expr'' r s1) (\<lambda>(y, s2).
      rbind (new_expression (binary_op op) [x, y]) (\<lambda>e'. Inr (e', s2)))) s1" if "lower_expression ''expr'' l s = Inr (x, s1)" for x s1
    by (rule lowers_bind) (use 5 that in \<open>simp_all add: id_char_def new_expression_def binary_count lowers_done\<close>)
  from lowers_bind [OF l this] show ?case by simp
next
  case (6 calc op es s)
  have "lowers (list_ex has_round es) (rmap_state (lower_expression ''expr'') es s) s"
    by (rule lowers_state) (use 6 in \<open>simp add: id_char_def list_all_iff\<close>)
  from lowers_bind [OF this, of False "\<lambda>xs s1. rbind (new_expression (nary_op op) xs) (\<lambda>e'. Inr (e', s1))"] show ?case
    using "6.prems"(1) by (simp add: new_expression_def nary_count lowers_done rmap_state_length)
next
  case (7 calc e scale m s)
  show ?case by (simp add: lowers_def)
next
  case (8 calc c a b s)
  obtain i s0 where i: "next_rule_id calc s = (i, s0)" by (cases "next_rule_id calc s")
  have valid: "validate_identifier_string i = Inr i"
    using i rule_name_valid [OF "8.prems"(2)] by (auto simp: next_rule_id_def Let_def)
  have c: "lowers (cond_has_round c) (lower_condition c s0) s0" using 8 i by simp
  show ?case
  proof (cases "cond_has_round c \<or> has_round a \<or> has_round b")
    case False
    then obtain c' s1 where c': "lower_condition c s0 = Inr (c', s1)" "numbered s0 s1" using c by (auto simp: lowers_def)
    have "lowers (has_round a) (lower_expression ''expr'' a s1) s1" using 8 i c' by (simp add: id_char_def)
    then obtain a' s2 where a': "lower_expression ''expr'' a s1 = Inr (a', s2)" "numbered s1 s2" using False by (auto simp: lowers_def)
    have "lowers (has_round b) (lower_expression ''expr'' b s2) s2" using 8 i c' a' by (simp add: id_char_def)
    then obtain b' s3 where b': "lower_expression ''expr'' b s2 = Inr (b', s3)" "numbered s2 s3" using False by (auto simp: lowers_def)
    have "numbered s0 s3" using c' a' b' numbered_trans by blast
    from numbered_rule [OF this i] show ?thesis
      using False by (simp add: lowers_def i c' a' b' new_rule_def new_reference_def valid)
  next
    case True
    show ?thesis
    proof (cases "cond_has_round c")
      case False
      then obtain c' s1 where c': "lower_condition c s0 = Inr (c', s1)" using c by (auto simp: lowers_def)
      have a: "lowers (has_round a) (lower_expression ''expr'' a s1) s1" using 8 i c' by (simp add: id_char_def)
      show ?thesis
      proof (cases "has_round a")
        case False
        then obtain a' s2 where a': "lower_expression ''expr'' a s1 = Inr (a', s2)" using a by (auto simp: lowers_def)
        have "lowers (has_round b) (lower_expression ''expr'' b s2) s2" using 8 i c' a' by (simp add: id_char_def)
        then show ?thesis using \<open>\<not> cond_has_round c\<close> False True by (simp add: lowers_def i c' a')
      qed (use a True in \<open>simp add: lowers_def i c'\<close>)
    qed (use c True in \<open>simp add: lowers_def i\<close>)
  qed
next
  case (9 l op r s)
  have l: "lowers (has_round l) (lower_expression ''expr'' l s) s" using 9 by (simp add: id_char_def)
  have "lowers (has_round r \<or> False) (rbind (lower_expression ''expr'' r s1) (\<lambda>(y, s2). Inr (Compare x op y, s2))) s1"
    if "lower_expression ''expr'' l s = Inr (x, s1)" for x s1
    by (rule lowers_bind) (use 9 that in \<open>simp_all add: id_char_def lowers_done\<close>)
  from lowers_bind [OF l this] show ?case by simp
next
  case (10 op cs s)
  have cs: "lowers (list_ex cond_has_round cs) (rmap_state lower_condition cs s) s"
    by (rule lowers_state) (use 10 in \<open>simp add: list_all_iff\<close>)
  have "lowers False (rbind (new_logic op ds) (\<lambda>c'. Inr (c', s1))) s1" if "rmap_state lower_condition cs s = Inr (ds, s1)" for ds s1
  proof -
    have "length ds = length cs" using that by (rule rmap_state_length)
    then have "ds \<noteq> []" using "10.prems"(1) by auto
    then show ?thesis by (simp add: new_logic_def Suc_le_eq lowers_done)
  qed
  from lowers_bind [OF cs this] show ?case by simp
qed

section \<open>Valid packages\<close>

definition output_proper :: "pricing_output_v2 \<Rightarrow> bool" where
  "output_proper x \<longleftrightarrow> id_pattern_v2 (o2_id x) \<and> py_strip (o2_id x) = o2_id x
     \<and> id_pattern_v2 (o2_source_ref x) \<and> py_strip (o2_source_ref x) = o2_source_ref x"

lemma validate_output_v2_proper: "validate_output_v2 x = Inr y \<Longrightarrow> output_proper y"
  by (auto simp: validate_output_v2_def output_proper_def res_simps identifier_v2_Inr py_strip_idem split: if_splits)

lemma construct_package_v2_Inr:
  assumes "construct_package_v2 cyclic p0 = Inr p"
  shows "\<forall>n \<in> set (p2_calculations p). node_proper n \<and> expr_ok (c2_expression n)" "\<forall>x \<in> set (p2_outputs p). output_proper x"
    "id_pattern_v2 (pr_id (p2_product p)) \<and> py_strip (pr_id (p2_product p)) = pr_id (p2_product p)"
    "validate_package_v2 cyclic p = Inr p" "validate_dates (p2_period p) = Inr (p2_period p)"
proof -
  from assms obtain src prod period ins cs ts ns os ccs where period: "validate_dates (p2_period p0) = Inr period" and
    prod: "validate_product_ref (p2_product p0) = Inr prod" and ns: "rmap_list validate_node_v2 (p2_calculations p0) = Inr ns"
    and os: "rmap_list validate_output_v2 (p2_outputs p0) = Inr os"
    and v: "validate_package_v2 cyclic (p0\<lparr>p2_source := src, p2_product := prod, p2_period := period, p2_inputs := ins, p2_constants := cs,
            p2_tables := ts, p2_calculations := ns, p2_outputs := os, p2_control_cases := ccs\<rparr>) = Inr p" (is "validate_package_v2 cyclic ?p = _")
    unfolding construct_package_v2_def rbind_Inr_iff by blast
  note w = validate_package_v2_Inr [OF v]
  have eq: "p = ?p\<lparr>p2_id := p2_id p\<rparr>" by (rule w(1))
  have sel: "p2_calculations p = ns" "p2_outputs p = os" "p2_product p = prod" "p2_period p = period" by (subst eq, simp)+
  show "validate_dates (p2_period p) = Inr (p2_period p)" using period unfolding sel by (rule idemD [OF idem_dates])
  have "node_proper m \<and> expr_ok (c2_expression m)" if "validate_node_v2 n = Inr m" for n m
  proof -
    from that obtain e where "validate_expr2 (c2_expression n) = Inr e" "c2_expression m = e"
      by (auto simp: validate_node_v2_def res_simps)
    with validate_expr2_ok(1) validate_node_v2_proper [OF that] show ?thesis by blast
  qed
  then show "\<forall>n \<in> set (p2_calculations p). node_proper n \<and> expr_ok (c2_expression n)"
    unfolding sel by (intro rmap_list_all [OF ns])
  show "\<forall>x \<in> set (p2_outputs p). output_proper x" unfolding sel by (rule rmap_list_all [OF os]) (rule validate_output_v2_proper)
  show "id_pattern_v2 (pr_id (p2_product p)) \<and> py_strip (pr_id (p2_product p)) = pr_id (p2_product p)"
    using prod unfolding sel by (auto simp: validate_product_ref_def res_simps identifier_v2_Inr py_strip_idem split: if_splits)
  have "validate_package_v2 cyclic (?p\<lparr>p2_id := p2_id p\<rparr>) = Inr (?p\<lparr>p2_id := p2_id p\<rparr>)"
    using v w(2,3) eq unfolding validate_package_v2_def Let_def
    by (auto simp: rbind_Inr_iff identifier_v2_Inr entities_v2_def split: if_splits)
  then show "validate_package_v2 cyclic p = Inr p" using eq by simp
qed

text \<open>Every id of the package is stripped by the model that holds it, so that the check of the package on the
  stripped id is one of the id itself.\<close>

lemma see_cases_distinct: "rfold see_case cs seen = Inr seen' \<Longrightarrow> distinct seen \<Longrightarrow> distinct (map cc_id cs) \<and> set (map cc_id cs) \<inter> set seen = {}"
proof (induction cs arbitrary: seen)
  case (Cons c cs)
  have c: "see_case c seen = (if cc_id c \<in> set seen then Inl (ValidationError (''duplicate_case:'' @ cc_id c)) else Inr (cc_id c # seen))"
    by (simp add: see_case_def)
  have "cc_id c \<notin> set seen" "rfold see_case cs (cc_id c # seen) = Inr seen'"
    using Cons.prems(1) by (auto simp: c rbind_Inr_iff split: if_splits)
  with Cons.IH [OF this(2)] Cons.prems(2) show ?case by auto
qed simp

lemma construct_package_v2_ids:
  assumes "construct_package_v2 cyclic p0 = Inr p"
  shows "\<forall>i \<in> set (p2_id p # map fst (entities_v2 p) @ map cc_id (p2_control_cases p)). id_pattern_v2 i"
    and "distinct (map fst (entities_v2 p))" "distinct (map cc_id (p2_control_cases p))"
proof -
  note c = construct_package_v2_Inr [OF assms] and v = validate_package_v2_Inr [OF construct_package_v2_Inr(4) [OF assms]]
  from assms obtain src prod period ins cs ts ns os ccs where ins: "rmap_list validate_input (p2_inputs p0) = Inr ins"
    and cs: "rmap_list validate_constant (p2_constants p0) = Inr cs" and ts: "rmap_list validate_table (p2_tables p0) = Inr ts"
    and ccs: "rmap_list validate_case (p2_control_cases p0) = Inr ccs"
    and w: "validate_package_v2 cyclic (p0\<lparr>p2_source := src, p2_product := prod, p2_period := period, p2_inputs := ins, p2_constants := cs,
            p2_tables := ts, p2_calculations := ns, p2_outputs := os, p2_control_cases := ccs\<rparr>) = Inr p" (is "validate_package_v2 cyclic ?p = _")
    unfolding construct_package_v2_def rbind_Inr_iff by blast
  have eq: "p = ?p\<lparr>p2_id := p2_id p\<rparr>" by (rule validate_package_v2_Inr(1) [OF w])
  have sel: "p2_inputs p = ins" "p2_constants p = cs" "p2_tables p = ts" "p2_control_cases p = ccs" by (subst eq, simp)+
  have "\<forall>x \<in> set (p2_inputs p). py_strip (pi_id x) = pi_id x" unfolding sel
    by (rule rmap_list_all [OF ins]) (auto simp: validate_input_def res_simps validate_identifier_Inr py_strip_idem split: if_splits)
  moreover have "\<forall>x \<in> set (p2_constants p). py_strip (const_id x) = const_id x" unfolding sel
    by (rule rmap_list_all [OF cs]) (auto simp: validate_constant_def res_simps validate_identifier_Inr py_strip_idem)
  moreover have "\<forall>x \<in> set (p2_tables p). py_strip (tbl_id x) = tbl_id x" unfolding sel
    by (rule rmap_list_all [OF ts]) (auto simp: validate_table_def res_simps validate_identifier_Inr py_strip_idem split: if_splits)
  ultimately have "\<forall>i \<in> set (map fst (entities_v2 p)). py_strip i = i"
    using c(1,2) unfolding entities_v2_def by (auto simp: node_proper_def output_proper_def)
  then have ents: "\<forall>i \<in> set (map fst (entities_v2 p)). id_pattern_v2 i" using v(7) by fastforce
  have cases: "\<forall>x \<in> set (p2_control_cases p). id_pattern_v2 (cc_id x)" unfolding sel
    by (rule rmap_list_all [OF ccs]) (auto simp: validate_case_def res_simps identifier_v2_Inr split: if_splits)
  show "\<forall>i \<in> set (p2_id p # map fst (entities_v2 p) @ map cc_id (p2_control_cases p)). id_pattern_v2 i"
    using v(2) ents cases by auto
  show "distinct (map fst (entities_v2 p))" by (rule v(6))
  obtain seen where "rfold see_case (p2_control_cases p) [] = Inr seen"
    using construct_package_v2_Inr(4) [OF assms] unfolding validate_package_v2_def Let_def by (auto simp: rbind_Inr_iff split: if_splits)
  then show "distinct (map cc_id (p2_control_cases p))" using see_cases_distinct by auto
qed

lemma numbered_ids:
  assumes "numbered empty_lowering s"
  shows "distinct (map rule_id (lw_rules s))" "i \<in> rule_id ` set (lw_rules s) \<Longrightarrow> \<exists>c k. i = rule_name_of c k"
proof -
  obtain ks where ks: "map rule_id (lw_rules s) = map (\<lambda>(c, k). rule_name_of c k) ks" "distinct (map snd ks)"
    using assms by (auto simp: numbered_def empty_lowering_def)
  have "inj_on (\<lambda>(c, k). rule_name_of c k) (set ks)"
  proof (rule inj_onI)
    fix x y assume xy: "x \<in> set ks" "y \<in> set ks" and eq: "(case x of (c, k) \<Rightarrow> rule_name_of c k) = (case y of (c, k) \<Rightarrow> rule_name_of c k)"
    have "snd x = snd y" using eq by (cases x; cases y) (auto dest: rule_name_number)
    with xy ks(2) show "x = y" by (auto simp: distinct_map dest: inj_onD)
  qed
  moreover have "distinct ks" using ks(2) by (simp add: distinct_map)
  ultimately show "distinct (map rule_id (lw_rules s))" unfolding ks(1) by (simp add: distinct_map)
  show "\<exists>c k. i = rule_name_of c k" if "i \<in> rule_id ` set (lw_rules s)"
  proof -
    have "i \<in> set (map rule_id (lw_rules s))" using that by simp
    then show ?thesis unfolding ks(1) by auto
  qed
qed

lemma rule_name_not_v2: "\<not> id_pattern_v2 (py_strip (rule_name_of c k))"
proof -
  have "last (rule_name_of c k) \<in> set (nat_str k)" by (simp add: rule_name_of_def)
  then have "is_digit (last (rule_name_of c k))" using nat_str_digits [of k] by (simp add: list_all_iff)
  then have "\<not> is_space (last (rule_name_of c k))" by (auto simp: is_digit_def is_space_def Let_def)
  moreover have "rule_name_of c k = CHR ''_'' # drop 1 (rule_name_of c k)" by (simp add: rule_name_of_def)
  then obtain t where t: "rule_name_of c k = CHR ''_'' # t" by blast
  ultimately have "py_strip (rule_name_of c k) = CHR ''_'' # t"
    using strip_ends [of "rule_name_of c k"] by (simp add: is_space_def)
  then show ?thesis by (simp add: is_lower_def less_eq_char_def)
qed

definition rounding_name :: "string \<Rightarrow> string" where
  "rounding_name i = ''_lowered_rounding_'' @ i"

lemma rounding_name_valid: "list_all id_char i \<Longrightarrow> validate_identifier_string (rounding_name i) = Inr (rounding_name i)"
proof -
  assume "list_all id_char i"
  then have "list_all id_char (rounding_name i)" by (simp add: rounding_name_def id_char_def)
  moreover from this have "py_strip (rounding_name i) = rounding_name i" by (rule strip_id)
  moreover have "rounding_name i \<noteq> []" by (simp add: rounding_name_def)
  ultimately show ?thesis unfolding validate_identifier_Inr by simp
qed

lemma node_body_total:
  assumes "list_all id_char (c2_id n)" "expr_ok (c2_expression n)"
  shows "\<exists>rounding. node_body n = Inr (body_of (c2_expression n), rounding)"
proof (cases "c2_expression n")
  case (Round2 x scale md)
  then have "\<not> scale < 0 \<and> \<not> 10 < scale" using assms(2) by simp
  then show ?thesis using rounding_name_valid [OF assms(1), unfolded rounding_name_def]
    by (simp add: Round2 node_body_def body_of_def validate_rounding_rule_def)
qed (simp_all add: node_body_def body_of_def)

lemma lower_node_total:
  assumes "node_proper n" "expr_ok (c2_expression n)"
  shows "lowers (has_round (body_of (c2_expression n))) (lower_calculation_node n s) s"
proof -
  have id: "validate_identifier_string (c2_id n) = Inr (c2_id n)" using assms(1) by (simp add: node_proper_def identifier_v2_v1)
  then have chars: "list_all id_char (c2_id n)" unfolding validate_identifier_Inr by blast
  obtain rounding where b: "node_body n = Inr (body_of (c2_expression n), rounding)" using node_body_total [OF chars assms(2)] by blast
  have ok: "expr_ok (body_of (c2_expression n))" using assms(2) by (cases "c2_expression n") (simp_all add: body_of_def)
  have "validate_identifier_string dep = Inr dep" if "dep \<in> set (c2_depends_on n)" for dep
    using assms(1) that by (simp add: node_proper_def identifier_v2_v1)
  then have deps: "rmap_list validate_identifier_string (c2_depends_on n) = Inr (c2_depends_on n)"
    unfolding rmap_list_Inr_iff list_all2_conv_all_nth by simp
  have eq: "lower_calculation_node n s = rbind (lower_expression (c2_id n) (body_of (c2_expression n)) s)
      (\<lambda>(e, s1). rbind (new_node n e rounding) (\<lambda>m. Inr (m, s1)))"
    by (simp only: lower_calculation_node_def b rbind_simps prod.case)
  have "lowers False (rbind (new_node n e rounding) (\<lambda>m. Inr (m, s1))) s1" for e s1
    by (simp only: new_node_def id deps rbind_simps lowers_done)
  from lowers_bind [OF lower_total(1) [OF ok chars] this] show ?thesis unfolding eq by simp
qed

lemma lower_to_v0_1_total:
  assumes valid: "construct_package_v2 cyclic p0 = Inr p"
  shows "if list_ex (\<lambda>n. has_round (body_of (c2_expression n))) (p2_calculations p)
    then lower_to_v0_1 p = Inl (LoweringNotSupportedError ''nested_round'') else \<exists>q. lower_to_v0_1 p = Inr q"
proof -
  note c = construct_package_v2_Inr [OF valid] and v = validate_package_v2_Inr [OF construct_package_v2_Inr(4) [OF valid]]
  have low: "lowers (list_ex (\<lambda>n. has_round (body_of (c2_expression n))) (p2_calculations p))
      (rmap_state lower_calculation_node (p2_calculations p) empty_lowering) empty_lowering"
    by (rule lowers_state) (use lower_node_total c(1) in blast)
  show ?thesis
  proof (cases "list_ex (\<lambda>n. has_round (body_of (c2_expression n))) (p2_calculations p)")
    case True
    then show ?thesis using low by (simp add: lowers_def lower_to_v0_1_def)
  next
    case False
    then obtain calcs s where calcs: "rmap_state lower_calculation_node (p2_calculations p) empty_lowering = Inr (calcs, s)"
      and num: "numbered empty_lowering s" using low by (auto simp: lowers_def)
    have prod: "validate_product (lowered_product (p2_product p)) = Inr (lowered_product (p2_product p))"
      using c(3) by (simp add: validate_product_def lowered_product_def identifier_v2_v1)
    have outs: "rmap_list validate_output (map lowered_output (p2_outputs p)) = Inr (map lowered_output (p2_outputs p))"
      unfolding rmap_list_Inr_iff list_all2_conv_all_nth
      using c(2) by (auto simp: validate_output_def lowered_output_def output_proper_def identifier_v2_v1)
    let ?q = "lowered_package p (lowered_product (p2_product p)) calcs (lw_rules s) (map lowered_output (p2_outputs p))"
    have "list_all2 lowers_to calcs (p2_calculations p)" by (rule rmap_state_all2 [OF calcs]) (rule lower_node_Inr(1))
    then have low: "length calcs = length (p2_calculations p)" "\<And>j. j < length calcs \<Longrightarrow> calc_id (calcs ! j) = py_strip (c2_id (p2_calculations p ! j))"
      by (simp_all add: list_all2_conv_all_nth lowers_to_def)
    have "calc_id (calcs ! j) = c2_id (p2_calculations p ! j)" if "j < length calcs" for j
      unfolding low(2) [OF that] using c(1) low(1) that by (simp add: node_proper_def)
    then have ids: "map calc_id calcs = map c2_id (p2_calculations p)" using low(1) by (simp add: list_eq_iff_nth_eq)
    have ne: "calcs \<noteq> []" using low(1) v(4) by auto
    let ?A = "map pi_id (p2_inputs p) @ map const_id (p2_constants p) @ map tbl_id (p2_tables p)"
      and ?C = "map c2_id (p2_calculations p) @ map o2_id (p2_outputs p)"
    have ents: "map fst (entities_v2 p) = ?A @ ?C" by (simp add: entities_v2_def comp_def)
    have nodes: "node_ids ?q = ?A @ map rule_id (lw_rules s) @ ?C"
      by (simp add: node_ids_def entities_def comp_def ids lowered_output_def)
    have "set (map rule_id (lw_rules s)) \<inter> set (?A @ ?C) = {}"
    proof -
      have "i \<notin> set (?A @ ?C)" if i: "i \<in> rule_id ` set (lw_rules s)" for i
      proof
        assume "i \<in> set (?A @ ?C)"
        then have "id_pattern_v2 (py_strip i)" using v(7) unfolding ents [symmetric] by auto
        moreover obtain k n where "i = rule_name_of k n" using numbered_ids(2) [OF num i] by blast
        ultimately show False using rule_name_not_v2 by simp
      qed
      then show ?thesis unfolding set_map [of rule_id] by blast
    qed
    then have dist: "distinct (node_ids ?q)" using v(6) numbered_ids(1) [OF num] unfolding nodes ents by auto
    have "validate_identifier_string (pkg_id ?q) = Inr (p2_id p)" using v(2,3) by (simp add: lowered_package_def identifier_v2_v1)
    moreover have "\<forall>x \<in> set (pkg_outputs ?q). out_source_ref x \<in> set (node_ids ?q)"
      using v(9) unfolding nodes ents by (auto simp: lowered_output_def)
    moreover have "pkg_outputs ?q \<noteq> []" "pkg_calculations ?q \<noteq> []" "distinct (map rr_id (pkg_rounding_rules ?q))" using ne v(5) by simp_all
    ultimately have "validate_package ?q = Inr (?q\<lparr>pkg_id := p2_id p\<rparr>)" unfolding validate_package_Inr using dist by blast
    then show ?thesis using False calcs prod outs by (simp add: lower_to_v0_1_def)
  qed
qed

section \<open>A condition on a calculation\<close>

lemma rmap_state_member:
  assumes "\<And>e u x u'. e \<in> set all \<Longrightarrow> f e u = Inr (x, u') \<Longrightarrow> set (lw_rules u) \<subseteq> set (lw_rules u')"
  shows "set es \<subseteq> set all \<Longrightarrow> rmap_state f es s = Inr (xs, s') \<Longrightarrow> e \<in> set es \<Longrightarrow>
    \<exists>u x u'. f e u = Inr (x, u') \<and> set (lw_rules u') \<subseteq> set (lw_rules s')"
proof (induction es arbitrary: s xs)
  case (Cons e' es)
  then obtain x s1 ys where x: "f e' s = Inr (x, s1)" "rmap_state f es s1 = Inr (ys, s')" by (auto simp: rbind_Inr_iff)
  have grow: "set es \<subseteq> set all \<Longrightarrow> rmap_state f es s1 = Inr (ys, s') \<Longrightarrow> set (lw_rules s1) \<subseteq> set (lw_rules s')" for es s1 ys
  proof (induction es arbitrary: s1 ys)
    case (Cons e es)
    then obtain x s2 ys' where "f e s1 = Inr (x, s2)" "rmap_state f es s2 = Inr (ys', s')" by (auto simp: rbind_Inr_iff)
    then show ?case using Cons.IH [of s2 ys'] Cons.prems(1) assms [of e s1 x s2] by auto
  qed simp
  have sub: "set es \<subseteq> set all" using Cons.prems(1) by simp
  show ?case
  proof (cases "e = e'")
    case True
    then show ?thesis using x(1) grow [OF sub x(2)] by blast
  next
    case False
    then show ?thesis using Cons.IH [OF sub x(2)] Cons.prems(3) by simp
  qed
qed simp

lemma set_rules_member:
  assumes "rfold (set_rule d) rs st = Inr st'" "r \<in> set rs" "distinct (map rule_id rs)"
    "\<forall>r \<in> set rs. rule_period r = None \<and> dget (os_context st) (rule_id r) = None"
  shows "\<exists>s s'. set_rule d r s = Inr s' \<and> dom (map_of (os_context s)) \<subseteq> dom (map_of (os_context st)) \<union> rule_id ` set rs"
proof -
  from assms(2) obtain as bs where rs: "rs = as @ r # bs" by (metis split_list)
  with assms(1) obtain s s' where s: "rfold (set_rule d) as st = Inr s" "set_rule d r s = Inr s'"
    by (auto simp: rfold_append rbind_Inr_iff)
  have "dom (map_of (os_context s)) \<subseteq> dom (map_of (os_context st)) \<union> rule_id ` set as"
    using set_rules_grow [OF s(1)] assms(3,4) rs by simp
  then have "dom (map_of (os_context s)) \<subseteq> dom (map_of (os_context st)) \<union> rule_id ` set rs" using rs by auto
  with s(2) show ?thesis by blast
qed

lemma node_rule_added:
  assumes "lower_calculation_node n s = Inr (m, s')" "body_of (c2_expression n) = Conditional2 (Compare2 (Reference2 i) op y) a b"
    and "py_strip i = i"
  shows "\<exists>j calc y' a' b'. lowered_rule j calc (Compare (ERef i) op y') a' b' \<in> set (lw_rules s')"
proof -
  from assms(1) obtain body rounding e where bd: "node_body n = Inr (body, rounding)" and e: "lower_expression (c2_id n) body s = Inr (e, s')"
    by (auto simp: lower_calculation_node_def rbind_Inr_iff)
  have "body = body_of (c2_expression n)"
    using bd by (auto simp: node_body_def body_of_def rbind_Inr_iff split: expr2.splits)
  then have body: "body = Conditional2 (Compare2 (Reference2 i) op y) a b" by (simp only: assms(2))
  obtain k s0 where k: "next_rule_id (c2_id n) s = (k, s0)" by (cases "next_rule_id (c2_id n) s")
  from e k obtain c' s1 a' s2 b' s3 j where c: "lower_condition (Compare2 (Reference2 i) op y) s0 = Inr (c', s1)"
    and s': "s' = add_rule (lowered_rule j (c2_id n) c' a' b') s3"
    by (auto simp: body rbind_Inr_iff new_rule_def new_reference_def)
  from c obtain y' where "c' = Compare (ERef i) op y'"
    using assms(3) by (auto simp: rbind_Inr_iff dest: new_reference_Inr)
  then show ?thesis unfolding s' add_rule_def by fastforce
qed

lemma lower_node_rules_grow: "node_proper n \<Longrightarrow> lower_calculation_node n s = Inr (m, s') \<Longrightarrow> set (lw_rules s) \<subseteq> set (lw_rules s')"
proof -
  assume n: "node_proper n" "lower_calculation_node n s = Inr (m, s')"
  have "stripped (iter_expression_refs (c2_expression n))" using n(1) by (simp add: node_proper_def proper_refs_stripped)
  then have "stripped (iter_expression_refs (body_of (c2_expression n)))" by (auto simp: body_of_def split: expr2.splits)
  from lower_node_Inr(2) [OF n(2) this, of undefined] show ?thesis by (auto simp: produces_def)
qed

text \<open>The premium of a lowered package is the value of the source of its first output.\<close>

lemma lowered_premium:
  assumes "construct_package_v2 cyclic p0 = Inr p" "lower_to_v0_1 p = Inr q" "evaluate_package topo q risk d txn strict = Inr r"
  shows "\<exists>v. dget (or_resolved_values r) (o2_source_ref (hd (p2_outputs p))) = Some v \<and> to_dec v = Inr (or_final_premium r)"
proof -
  note c = construct_package_v2_Inr [OF assms(1)] and v = validate_package_v2_Inr [OF construct_package_v2_Inr(4) [OF assms(1)]]
  obtain calcs s product outputs i where "rmap_state lower_calculation_node (p2_calculations p) empty_lowering = Inr (calcs, s)"
    and outs: "rmap_list validate_output (map lowered_output (p2_outputs p)) = Inr outputs"
    and q: "q = lowered_package p product calcs (lw_rules s) outputs\<lparr>pkg_id := i\<rparr>" and "distinct (node_ids q)"
    by (rule lower_package_Inr [OF assms(2)])
  obtain st where "final_result q d txn st = Inr r" using assms(3) by (rule evaluate_package_Inr)
  then obtain out rest v where f: "pkg_outputs q = out # rest" "dget (or_resolved_values r) (out_source_ref out) = Some v" "to_dec v = Inr (or_final_premium r)"
    by (rule final_result_Inr) auto
  obtain x xs where x: "p2_outputs p = x # xs" using v(5) by (cases "p2_outputs p") auto
  then have "validate_output (lowered_output x) = Inr out" using outs f(1) by (auto simp: q rbind_Inr_iff)
  then have "out_source_ref out = o2_source_ref x"
    using c(2) x by (auto simp: validate_output_def lowered_output_def output_proper_def rbind_Inr_iff validate_identifier_Inr)
  then show ?thesis using f(2,3) x by auto
qed

section \<open>Properties of version 0.2\<close>

text \<open>C19: A version 0.2 package that validates is well formed: ids are distinct across its
  collections, the ids of control cases are distinct, all these ids and that of the package follow the strict
  id pattern, every reference anywhere inside an
  expression resolves, the graph of declared and implied dependencies has no cycle, no range table
  is ambiguous or has a gap, and an output fed by a rounding calculation declares that rounding.\<close>

theorem package_v2_well_formed:
  assumes "\<And>ns es. distinct ns \<Longrightarrow> edges_within ns es \<Longrightarrow> cyclic ns es \<longleftrightarrow> \<not> acyclic (set es)"
    and "construct_package_v2 cyclic p0 = Inr p"
  shows "distinct (map fst (entities_v2 p))
    \<and> distinct (map cc_id (p2_control_cases p))
    \<and> (\<forall>i \<in> set (p2_id p # map fst (entities_v2 p) @ map cc_id (p2_control_cases p)). id_pattern_v2 i)
    \<and> (\<forall>n \<in> set (p2_calculations p). \<forall>r \<in> set (iter_expression_refs (c2_expression n)) \<union> NodeRef ` set (c2_depends_on n).
         case r of NodeRef i \<Rightarrow> i \<in> set (map fst (entities_v2 p)) | TableRef t \<Rightarrow> t \<in> set (map tbl_id (p2_tables p)))
    \<and> acyclic (set (derived_edges (p2_calculations p)))
    \<and> (\<forall>t \<in> set (p2_tables p). validate_range_coverage t = [])
    \<and> (\<forall>x \<in> set (p2_outputs p). o2_source_ref x \<in> set (map fst (entities_v2 p))
         \<and> (\<forall>n \<in> set (p2_calculations p). \<forall>e scale m. c2_id n = o2_source_ref x \<longrightarrow> c2_expression n = Round2 e scale m
              \<longrightarrow> scale = o2_scale x \<and> m = o2_rounding_mode x))"
proof -
  note c = construct_package_v2_Inr [OF assms(2)] and v = validate_package_v2_Inr [OF construct_package_v2_Inr(4) [OF assms(2)]]
  have dist: "distinct (map c2_id (p2_calculations p))" using v(6) unfolding entities_v2_def by (simp add: comp_def)
  have "edges_within (map c2_id (p2_calculations p)) (derived_edges (p2_calculations p))"
    by (auto simp: edges_within_def derived_edges_def)
  then have acy: "acyclic (set (derived_edges (p2_calculations p)))" using assms(1) [OF dist] v(10) by blast
  have refs: "case r of NodeRef i \<Rightarrow> i \<in> set (map fst (entities_v2 p)) | TableRef t \<Rightarrow> t \<in> set (map tbl_id (p2_tables p))"
    if n: "n \<in> set (p2_calculations p)" and r: "r \<in> set (iter_expression_refs (c2_expression n)) \<union> NodeRef ` set (c2_depends_on n)" for n r
  proof -
    let ?check = "check_ref (map tbl_id (p2_tables p)) (map fst (entities_v2 p))"
    obtain u where "rfold ?check (iter_expression_refs (c2_expression n)) () = Inr u" "rfold ?check (map NodeRef (c2_depends_on n)) u = Inr ()"
      using v(8) n unfolding check_calculation_def rbind_Inr_iff by blast
    then have "?check r () = Inr ()" using r rfold_unit_all [of ?check] by (cases u) auto
    then show ?thesis by (auto simp: check_ref_def split: expr_ref.splits if_splits)
  qed
  have rounds: "scale = o2_scale x \<and> m = o2_rounding_mode x"
    if x: "x \<in> set (p2_outputs p)" and n: "n \<in> set (p2_calculations p)" "c2_id n = o2_source_ref x" "c2_expression n = Round2 e scale m" for x n e scale m
  proof -
    have "dget (index_by c2_id (p2_calculations p) []) (o2_source_ref x) = Some n"
      unfolding index_by_distinct [OF dist, of "[]", simplified]
      by (rule map_of_is_SomeI) (use dist n in \<open>auto simp: comp_def image_iff\<close>)
    then show ?thesis using v(12) x n(3) by (auto simp: check_rounding_def split: if_splits)
  qed
  note ids = construct_package_v2_ids [OF assms(2)]
  have srcs: "o2_source_ref x \<in> set (map fst (entities_v2 p))" if "x \<in> set (p2_outputs p)" for x using v(9) that by blast
  show ?thesis
    by (intro conjI ballI allI impI v(6,11) acy ids(3) ids(1) [THEN bspec] refs rounds [THEN conjunct1] rounds [THEN conjunct2] srcs v(11) [THEN bspec])
qed

text \<open>The compatibility gate passes exactly the pairs of packages with the same schema major
  version, product line, jurisdiction and currency that have a day on which both are in force and
  a transaction type both allow.\<close>

theorem compatibility_gate_exact:
  assumes "construct_package_v2 cyclic a0 = Inr a" "construct_package_v2 cyclic b0 = Inr b"
  shows "fst (check_compatibility a b) \<longleftrightarrow>
    schema_major (p2_schema_version a) = schema_major (p2_schema_version b)
    \<and> pr_line (p2_product a) = pr_line (p2_product b) \<and> pr_jurisdiction (p2_product a) = pr_jurisdiction (p2_product b)
    \<and> pr_currency (p2_product a) = pr_currency (p2_product b)
    \<and> (\<exists>d. is_active (Some (p2_period a)) d \<and> is_active (Some (p2_period b)) d)
    \<and> (\<exists>t. t \<in> set (p2_transaction_types a) \<and> t \<in> set (p2_transaction_types b))"
proof -
  have overlap: "periods_overlap u w \<longleftrightarrow> (\<exists>d. is_active (Some u) d \<and> is_active (Some w) d)"
    if "validate_dates u = Inr u" "validate_dates w = Inr w" for u w
  proof
    assume "periods_overlap u w"
    then have "is_active (Some u) (max (ep_start u) (ep_start w)) \<and> is_active (Some w) (max (ep_start u) (ep_start w))"
      using that by (auto simp: periods_overlap_def is_active_def validate_dates_def max_def split: option.splits if_splits)
    then show "\<exists>d. is_active (Some u) d \<and> is_active (Some w) d" by blast
  next
    assume "\<exists>d. is_active (Some u) d \<and> is_active (Some w) d"
    then show "periods_overlap u w"
      by (auto simp: periods_overlap_def is_active_def split: option.splits if_splits)
  qed
  have jur: "u = w \<longleftrightarrow> \<not> (jur_country u \<noteq> jur_country w \<or> jur_state u \<noteq> jur_state w)" for u w :: jurisdiction
    by (cases u; cases w) auto
  show ?thesis
    unfolding check_compatibility_def Let_def fst_conv append_is_Nil_conv jur
      overlap [OF construct_package_v2_Inr(5) [OF assms(1)] construct_package_v2_Inr(5) [OF assms(2)], symmetric]
    by auto
qed

text \<open>C18: The oracle prices a lowered package by the package's own equations: in the resolved
  values of a successful run, the value of every active calculation is the value of its version 0.2
  expression in those same values, and the premium is the value of the first output's source.\<close>

theorem lowering_correct:
  assumes "topological_sorter topo" "construct_package_v2 cyclic p0 = Inr p"
    and "lower_to_v0_1 p = Inr q" "evaluate_package topo q risk d txn strict = Inr r"
  shows "(\<forall>n \<in> set (p2_calculations p). is_active (c2_period n) d \<longrightarrow>
      (\<exists>v. node_value n (or_resolved_values r) = Inr v \<and> dget (or_resolved_values r) (c2_id n) = Some (PDec v)))
    \<and> (\<exists>v. dget (or_resolved_values r) (o2_source_ref (hd (p2_outputs p))) = Some v \<and> to_dec v = Inr (or_final_premium r))"
proof -
  note c = construct_package_v2_Inr [OF assms(2)] and v = validate_package_v2_Inr [OF construct_package_v2_Inr(4) [OF assms(2)]]
  have str: "stripped (iter_expression_refs (body_of (c2_expression n)))" if "n \<in> set (p2_calculations p)" for n
    using c(1) that by (auto simp: node_proper_def body_of_def proper_refs_stripped split: expr2.splits)
  obtain ms where ms: "list_all2 (\<lambda>m n. lowers_to m n \<and> agrees (calc_expression m) (body_of (c2_expression n)) (or_resolved_values r)) ms (p2_calculations p)"
    "\<forall>m \<in> set ms. is_active (calc_period m) d \<longrightarrow> solved q (or_resolved_values r) m"
    using lowered_run [OF assms(1,3) str assms(4)] by blast
  have "\<exists>v. node_value n (or_resolved_values r) = Inr v \<and> dget (or_resolved_values r) (c2_id n) = Some (PDec v)"
    if n: "n \<in> set (p2_calculations p)" "is_active (c2_period n) d" for n
  proof -
    obtain k where k: "k < length (p2_calculations p)" "n = p2_calculations p ! k" using n(1) by (auto simp: in_set_conv_nth)
    then have m: "lowers_to (ms ! k) n" "agrees (calc_expression (ms ! k)) (body_of (c2_expression n)) (or_resolved_values r)" "ms ! k \<in> set ms"
      using ms(1) by (auto simp: list_all2_conv_all_nth)
    then have "solved q (or_resolved_values r) (ms ! k)" using ms(2) n(2) by (simp add: lowers_to_def)
    from solved_value [OF m(1,2) this] show ?thesis using c(1) n(1) by (auto simp: node_proper_def)
  qed
  then show ?thesis using lowered_premium [OF assms(2-4)] by blast
qed

text \<open>C26: Lowering fails closed: a valid package is lowered exactly when no calculation rounds
  inside its expression, and is otherwise refused with LoweringNotSupportedError.\<close>

theorem lowering_fails_closed:
  assumes "construct_package_v2 cyclic p0 = Inr p"
  shows "((\<exists>q. lower_to_v0_1 p = Inr q) \<longleftrightarrow> (\<forall>n \<in> set (p2_calculations p). \<not> has_round (body_of (c2_expression n))))
    \<and> (\<forall>e. lower_to_v0_1 p = Inl e \<longrightarrow> e = LoweringNotSupportedError ''nested_round'')"
  using lower_to_v0_1_total [OF assms] by (auto simp: list_ex_iff split: if_splits)

text \<open>A package whose conditional asks for the value of a calculation is valid and is lowered,
  but no input ever gets a premium from it: the rule that stands for the conditional runs before
  all calculations.\<close>

theorem conditional_on_calculation_never_priced:
  assumes "construct_package_v2 cyclic p0 = Inr p" "lower_to_v0_1 p = Inr q"
    and "n \<in> set (p2_calculations p)" "body_of (c2_expression n) = Conditional2 (Compare2 (Reference2 i) op y) a b"
    and "i \<in> c2_id ` set (p2_calculations p)"
  shows "evaluate_package topo q risk d txn strict \<noteq> Inr r"
proof
  assume run: "evaluate_package topo q risk d txn strict = Inr r"
  note c = construct_package_v2_Inr [OF assms(1)]
  have proper: "node_proper m" if "m \<in> set (p2_calculations p)" for m using c(1) that by blast
  have str: "stripped (iter_expression_refs (body_of (c2_expression n)))" if "n \<in> set (p2_calculations p)" for n
    using proper [OF that] by (auto simp: node_proper_def body_of_def proper_refs_stripped split: expr2.splits)
  obtain calcs s s0 st st' ns where calcs: "rmap_state lower_calculation_node (p2_calculations p) empty_lowering = Inr (calcs, s)"
    and s0: "rfold (set_rule d) (lw_rules s) s0 = Inr st" and dom0: "dom (map_of (os_context s0)) \<subseteq> base_ids p"
    and fresh: "\<forall>x \<in> set (lw_rules s). rule_period x = None \<and> dget (os_context s0) (rule_id x) = None" and dr: "distinct (map rule_id (lw_rules s))"
    and ci: "calc_id ` set calcs \<inter> (base_ids p \<union> rule_id ` set (lw_rules s)) = {}"
    using lowered_start [OF assms(2) str run] by metis
  obtain m where m: "m \<in> set (p2_calculations p)" "i = c2_id m" using assms(5) by blast
  have i: "py_strip i = i" using proper [OF m(1)] m(2) by (simp add: node_proper_def)
  have "list_all2 lowers_to calcs (p2_calculations p)" by (rule rmap_state_all2 [OF calcs]) (rule lower_node_Inr(1))
  then obtain m' where "m' \<in> set calcs" "lowers_to m' m"
    using m(1) by (metis in_set_conv_nth list_all2_conv_all_nth)
  then have "i \<in> calc_id ` set calcs" using i m(2) by (force simp: lowers_to_def)
  then have away: "i \<notin> base_ids p \<union> rule_id ` set (lw_rules s)" using ci by blast
  have grow: "set (lw_rules u) \<subseteq> set (lw_rules u')" if "m \<in> set (p2_calculations p)" "lower_calculation_node m u = Inr (x, u')" for m u x u'
    using lower_node_rules_grow [OF proper [OF that(1)] that(2)] .
  obtain u x u' where u: "lower_calculation_node n u = Inr (x, u')" "set (lw_rules u') \<subseteq> set (lw_rules s)"
    using rmap_state_member [OF _ subset_refl calcs assms(3)] grow by metis
  obtain j calc y' a' b' where r: "lowered_rule j calc (Compare (ERef i) op y') a' b' \<in> set (lw_rules s)" (is "?r \<in> _")
    using node_rule_added [OF u(1) assms(4) i] u(2) by blast
  obtain t t' where t: "set_rule d ?r t = Inr t'" "dom (map_of (os_context t)) \<subseteq> dom (map_of (os_context s0)) \<union> rule_id ` set (lw_rules s)"
    using set_rules_member [OF s0 r dr fresh] by blast
  have "dget (os_context t) i = None" using t(2) dom0 away by (meson Un_iff domIff subsetD)
  then have "evaluate_condition (rule_condition ?r) (os_context t) \<noteq> Inr h" for h
    by (simp add: evaluate_comparison_def resolve_ref_def)
  then show False using set_rule_Inr [OF t(1)] by simp
qed

end
