(* ===== verification/IpirV2Samples.thy ===== *)
theory IpirV2Samples
  imports IpirV2Theorems
begin

text \<open>
  Concrete packages of version 0.2, on which the theorems of IpirV2Theorems are applied: a
  rounded calculation with a conditional, which prices a policy, one with a ROUND inside, which is
  not lowered, and one whose conditional tests another calculation.
\<close>

section \<open>A package that is priced\<close>

text \<open>The base rate, times the roof factor for a roof of ten years or more, rounded to cents.\<close>

definition old_roof :: "expr2 \<Rightarrow> expr2" where
  "old_roof x = Conditional2 (Compare2 x GTE (Literal2 (PInt 10)))
     (Binary2 B_MULTIPLY (Reference2 ''base_rate'') (TableLookup2 ''roof_factor'')) (Reference2 ''base_rate'')"

definition sample_node_v2 :: calculation_node_v2 where
  "sample_node_v2 = \<lparr>c2_id = ''premium'', c2_name = ''Premium'', c2_expression = Round2 (old_roof (Reference2 ''roof_age'')) 2 HALF_UP,
     c2_depends_on = [], c2_period = None, c2_description = None\<rparr>"

definition sample_v2 :: ipir_package_v2 where
  "sample_v2 =
     \<lparr>p2_schema_version = ''0.2.0'', p2_id = ''az_ho3'', p2_version = ''1.0.0'',
      p2_source = \<lparr>sm_type = STRUCTURED_JSON, sm_artifact_sha256 = replicate 64 (CHR ''0''), sm_compiler_version = ''1'', sm_compiled_at = ''2026-01-01''\<rparr>,
      p2_product = \<lparr>pr_id = ''ho3'', pr_line = HOMEOWNERS, pr_jurisdiction = \<lparr>jur_country = ''US'', jur_state = Some ''AZ''\<rparr>, pr_currency = ''USD''\<rparr>,
      p2_period = \<lparr>ep_start = Date 2026 1 1, ep_end = None\<rparr>, p2_transaction_types = [NEW_BUSINESS, RENEWAL],
      p2_inputs = [sample_input], p2_constants = pkg_constants sample_package, p2_tables = [sample_table],
      p2_calculations = [sample_node_v2],
      p2_outputs = [\<lparr>o2_id = ''total'', o2_name = ''Total'', o2_source_ref = ''premium'', o2_currency = ''USD'', o2_scale = 2, o2_rounding_mode = HALF_UP\<rparr>],
      p2_control_cases = [], p2_attestation = None\<rparr>"

definition kahn_cyclic :: cycle_test where
  "kahn_cyclic ns es \<longleftrightarrow> kahn_sort ns es = None"

lemma kahn_cyclic_exact: "distinct ns \<Longrightarrow> edges_within ns es \<Longrightarrow> kahn_cyclic ns es \<longleftrightarrow> \<not> acyclic (set es)"
  unfolding kahn_cyclic_def by (rule kahn.unfeasible)

lemmas validate_v2_simps = validate_identifier_string_v2_def py_strip_def is_space_def id_char_v2_def is_lower_def is_digit_def less_eq_char_def Let_def

lemma sample_node_v2_valid: "validate_node_v2 sample_node_v2 = Inr sample_node_v2"
  by (simp add: sample_node_v2_def old_roof_def validate_node_v2_def validate_opt_def validate_v2_simps)

lemma sample_coverage: "validate_range_coverage sample_table = []"
  by code_simp

lemma sample_v2_fields:
  "validate_hash (p2_source sample_v2) = Inr (p2_source sample_v2)" "validate_product_ref (p2_product sample_v2) = Inr (p2_product sample_v2)"
  "validate_dates (p2_period sample_v2) = Inr (p2_period sample_v2)" "rmap_list validate_output_v2 (p2_outputs sample_v2) = Inr (p2_outputs sample_v2)"
  "rmap_list validate_constant (p2_constants sample_v2) = Inr (p2_constants sample_v2)"
  by (simp_all add: sample_v2_def validate_hash_def list_all_iff py_strip_def is_space_def py_lower_def lower_char_def hex_char_def Let_def
      validate_product_ref_def validate_output_v2_def validate_v2_simps currency_ok_def is_upper_def validate_dates_def
      sample_package_def validate_constant_def validate_simps)

lemma sample_v2_entities:
  "entities_v2 sample_v2 = [(''roof_age'', ''input''), (''base_rate'', ''constant''), (''roof_factor'', ''table''), (''premium'', ''calculation''), (''total'', ''output'')]"
  by (simp add: entities_v2_def sample_v2_def sample_input_def sample_package_def sample_table_fields sample_node_v2_def)

lemma construct_sample_v2: "construct_package_v2 kahn_cyclic sample_v2 = Inr sample_v2"
proof -
  have same: "sample_v2\<lparr>p2_inputs := [sample_input], p2_tables := [sample_table], p2_calculations := [sample_node_v2], p2_control_cases := []\<rparr> = sample_v2"
    by (simp add: sample_v2_def)
  have "rfold see_entity_v2 (entities_v2 sample_v2) [] \<noteq> Inl e" for e
    unfolding sample_v2_entities by (simp add: see_entity_v2_def see_entity_def validate_v2_simps)
  then obtain seen where seen: "rfold see_entity_v2 (entities_v2 sample_v2) [] = Inr seen" by (metis sum.exhaust)
  have "validate_package_v2 kahn_cyclic sample_v2 = Inr sample_v2"
    unfolding validate_package_v2_def Let_def
    using seen unfolding sample_v2_entities
    by (simp add: sample_v2_def sample_node_v2_def old_roof_def schema_version_ok_def is_digit_def validate_v2_simps check_calculation_def check_ref_def
        check_source_def derived_edges_def node_refs_def List.map_filter_def kahn_cyclic_def kahn_sort.simps ready_def check_coverage_def
        sample_coverage check_rounding_def sample_table_fields)
  moreover have "p2_inputs sample_v2 = [sample_input]" "p2_tables sample_v2 = [sample_table]" "p2_calculations sample_v2 = [sample_node_v2]"
    "p2_control_cases sample_v2 = []" by (simp_all add: sample_v2_def)
  ultimately show ?thesis
    by (simp add: construct_package_v2_def sample_v2_fields sample_parts sample_node_v2_valid same)
qed

lemma package_v2_well_formed_witness:
  "construct_package_v2 kahn_cyclic sample_v2 = Inr sample_v2 \<and> acyclic (set (derived_edges (p2_calculations sample_v2)))"
  using package_v2_well_formed [OF kahn_cyclic_exact construct_sample_v2] construct_sample_v2 by blast

text \<open>The same package for another state.\<close>

lemma compatibility_gate_exact_witness:
  "fst (check_compatibility sample_v2 sample_v2) \<longleftrightarrow> (\<exists>d. is_active (Some (p2_period sample_v2)) d)"
proof -
  have "NEW_BUSINESS \<in> set (p2_transaction_types sample_v2)" by (simp add: sample_v2_def)
  then show ?thesis using compatibility_gate_exact [OF construct_sample_v2 construct_sample_v2] by blast
qed

text \<open>What it is lowered to.\<close>

definition sample_rule :: pricing_rule where
  "sample_rule = lowered_rule ''_lowered_rule_premium_1'' ''premium'' (Compare (ERef ''roof_age'') GTE (ELit (PInt 10)))
     (EOp MULTIPLY [ERef ''base_rate'', ERef ''roof_factor'']) (ERef ''base_rate'')"

definition sample_lowered_node :: calculation_node where
  "sample_lowered_node = \<lparr>calc_id = ''premium'', calc_name = ''Premium'', calc_expression = ERef ''_lowered_rule_premium_1'',
     calc_depends_on = [], calc_rounding_rule_ref = Some ''_lowered_rounding_premium'',
     calc_rounding_rule = Some \<lparr>rr_id = ''_lowered_rounding_premium'', rr_precision = 2, rr_mode = HALF_UP\<rparr>,
     calc_period = None, calc_provenance = None, calc_description = None\<rparr>"

lemma nat_str_one: "nat_str (Suc 0) = ''1''"
  by code_simp

lemma sample_calculations_lowered:
  "rmap_state lower_calculation_node (p2_calculations sample_v2) empty_lowering =
     Inr ([sample_lowered_node], \<lparr>lw_rules = [sample_rule], lw_counter = 1\<rparr>)"
  by (simp add: sample_v2_def sample_node_v2_def old_roof_def lower_calculation_node_def node_body_def validate_rounding_rule_def
     new_node_def new_rule_def new_reference_def new_expression_def operand_count_ok_def validate_simps empty_lowering_def
     next_rule_id_def rule_name_of_def add_rule_def sample_rule_def sample_lowered_node_def own_rounding_ref_def nat_str_one)

definition sample_lowered :: ipir_package where
  "sample_lowered = lowered_package sample_v2 (lowered_product (p2_product sample_v2)) [sample_lowered_node] [sample_rule]
     (map lowered_output (p2_outputs sample_v2))"

lemmas sample_lowered_defs = sample_lowered_def lowered_package_def lowered_product_def lowered_output_def sample_v2_def
  sample_package_def

lemma sample_lowered_ids:
  "map fst (entities sample_lowered) = [''roof_age'', ''base_rate'', ''roof_factor'', ''_lowered_rule_premium_1'', ''premium'', ''total'']"
  by (simp add: entities_def sample_lowered_defs sample_input_def sample_table_fields sample_rule_def lowered_rule_def
     sample_lowered_node_def)

lemma lower_sample: "lower_to_v0_1 sample_v2 = Inr sample_lowered"
proof -
  have "validate_package sample_lowered = Inr sample_lowered"
    unfolding validate_package_Inr node_ids_def sample_lowered_ids
    by (simp add: sample_lowered_defs validate_simps)
  moreover have "validate_product (lowered_product (p2_product sample_v2)) = Inr (lowered_product (p2_product sample_v2))"
    "rmap_list validate_output (map lowered_output (p2_outputs sample_v2)) = Inr (map lowered_output (p2_outputs sample_v2))"
    by (simp_all add: sample_lowered_defs validate_simps validate_product_def validate_output_def)
  ultimately show ?thesis by (simp add: lower_to_v0_1_def sample_calculations_lowered sample_lowered_def)
qed

lemma sample_lowered_inputs: "validate_risk_inputs sample_lowered roof20 False = Inr roof20"
  by (simp add: validate_risk_inputs_def sample_lowered_defs sample_input_def roof20_def
     validate_risk_input_def supplied_value_def convert_input_def check_bounds_def)

lemma sample_lowered_order: "topological_sort_calculations kahn_sort sample_lowered = Inr [sample_lowered_node]"
  by (simp add: topological_sort_calculations_def sample_lowered_defs sample_lowered_node_def
     dependency_edges_def kahn_sort.simps ready_def List.map_filter_def)

definition sample_context :: eval_context where
  "sample_context = [(''roof_age'', PInt 20), (''base_rate'', PDec (Dec False 100010 (-2))),
     (''roof_factor'', PDec (Dec False 125 (-2))), (''_lowered_rule_premium_1'', PDec (Dec False 12501250 (-4)))]"

lemma roof20_old:
  "comparison_operands (PInt 20) (PInt 10) = Inr (PDec (Dec False 20 0), PDec (Dec False 10 0))"
  "py_less (PDec (Dec False 20 0)) (PDec (Dec False 10 0)) = Inr False"
  by code_simp+

lemma sample_lowered_nodes:
  "\<exists>st. resolve_nodes sample_lowered roof20 roof20 (Date 2026 3 1) = Inr st \<and> os_context st = sample_context \<and>
     os_modifiers st = [] \<and> os_constraints st = [] \<and> os_fees st = []"
  by (simp add: resolve_nodes_def sample_lowered_defs roof20_def sample_context_def
    set_input_def set_constant_def set_fee_def set_constraint_def set_modifier_def set_table_def is_active_def
    put_def trace_to_def add_step_def initial_state_def dec_eval full_lookup set_rule_def sample_rule_def lowered_rule_def
    dimension_values_def sample_table_fields evaluate_comparison_def resolve_ref_def apply_operator_def roof20_old)

lemma sample_lowered_step:
  "os_context st = sample_context \<Longrightarrow>
   \<exists>st'. step_node sample_lowered (Date 2026 3 1) sample_lowered_node st = Inr st' \<and>
     os_context st' = sample_context @ [(''premium'', PDec (Dec False 125013 (-2)))]"
  unfolding step_node_def run_node_def node_modifiers_def node_constraints_def node_fees_def
    active_modifiers_def active_constraints_def active_fees_def
  by (simp add: sample_lowered_node_def sample_context_def resolve_ref_def is_active_def
     node_rounding_def sample_lowered_defs apply_rounding_def trace_to_def add_step_def put_def dec_eval)

lemma sample_lowered_run:
  "\<exists>r. evaluate_package kahn_sort sample_lowered roof20 (Date 2026 3 1) NEW_BUSINESS False = Inr r
     \<and> or_final_premium r = Dec False 125013 (-2)"
proof -
  obtain st where 1: "resolve_nodes sample_lowered roof20 roof20 (Date 2026 3 1) = Inr st" "os_context st = sample_context"
    using sample_lowered_nodes by blast
  obtain st1 where 2: "step_node sample_lowered (Date 2026 3 1) sample_lowered_node st = Inr st1"
     "os_context st1 = sample_context @ [(''premium'', PDec (Dec False 125013 (-2)))]"
    using sample_lowered_step [OF 1(2)] by blast
  have 3: "\<exists>r. final_result sample_lowered (Date 2026 3 1) NEW_BUSINESS st1 = Inr r \<and> or_final_premium r = Dec False 125013 (-2)"
    using 2(2) by (simp add: final_result_def sample_lowered_defs trace_to_def add_step_def sample_context_def)
  have 0: "is_active (Some (pkg_period sample_lowered)) (Date 2026 3 1)" "NEW_BUSINESS \<in> set (pkg_transaction_types sample_lowered)"
    by (simp_all add: sample_lowered_defs is_active_def less_date_def)
  show ?thesis
    unfolding evaluate_package_def using 0 sample_lowered_inputs sample_lowered_order 1(1) 2(1) 3 by simp
qed

lemma lowering_correct_witness:
  "\<exists>r v. evaluate_package kahn_sort sample_lowered roof20 (Date 2026 3 1) NEW_BUSINESS False = Inr r
     \<and> or_final_premium r = Dec False 125013 (-2)
     \<and> node_value sample_node_v2 (or_resolved_values r) = Inr v"
proof -
  obtain r where r: "evaluate_package kahn_sort sample_lowered roof20 (Date 2026 3 1) NEW_BUSINESS False = Inr r"
    "or_final_premium r = Dec False 125013 (-2)" using sample_lowered_run by blast
  have "sample_node_v2 \<in> set (p2_calculations sample_v2)" "is_active (c2_period sample_node_v2) (Date 2026 3 1)"
    by (simp_all add: sample_v2_def sample_node_v2_def is_active_def)
  then show ?thesis
    using r lowering_correct [OF kahn.topological_sorter_axioms construct_sample_v2 lower_sample r(1)] by blast
qed

section \<open>Packages that are not\<close>

definition nested_node :: calculation_node_v2 where
  "nested_node = sample_node_v2\<lparr>c2_expression := Binary2 B_ADD (Literal2 (PInt 1)) (Round2 (Reference2 ''base_rate'') 2 HALF_UP)\<rparr>"

definition tested_node :: calculation_node_v2 where
  "tested_node = \<lparr>c2_id = ''subtotal'', c2_name = ''Subtotal'', c2_expression = Reference2 ''base_rate'', c2_depends_on = [],
     c2_period = None, c2_description = None\<rparr>"

definition testing_node :: calculation_node_v2 where
  "testing_node = sample_node_v2\<lparr>c2_expression := old_roof (Reference2 ''subtotal'')\<rparr>"

lemma construct_sample_with:
  assumes "rmap_list validate_node_v2 calcs = Inr calcs" "validate_package_v2 kahn_cyclic (sample_v2\<lparr>p2_calculations := calcs\<rparr>) = Inr p"
  shows "construct_package_v2 kahn_cyclic (sample_v2\<lparr>p2_calculations := calcs\<rparr>) = Inr p"
proof -
  have f: "p2_inputs sample_v2 = [sample_input]" "p2_tables sample_v2 = [sample_table]" "p2_control_cases sample_v2 = []"
    by (simp_all add: sample_v2_def)
  have same: "sample_v2\<lparr>p2_inputs := [sample_input], p2_tables := [sample_table], p2_calculations := calcs, p2_control_cases := []\<rparr>
    = sample_v2\<lparr>p2_calculations := calcs\<rparr>" by (simp add: sample_v2_def)
  show ?thesis using assms
    by (simp add: construct_package_v2_def sample_v2_fields sample_parts f same)
qed

lemmas sample_check_simps = sample_v2_def sample_node_v2_def old_roof_def nested_node_def tested_node_def testing_node_def
  schema_version_ok_def is_digit_def validate_v2_simps check_calculation_def check_ref_def check_source_def derived_edges_def
  node_refs_def List.map_filter_def kahn_cyclic_def kahn_sort.simps ready_def check_coverage_def sample_coverage
  check_rounding_def sample_table_fields

lemma nested_nodes_valid: "rmap_list validate_node_v2 [nested_node] = Inr [nested_node]"
  by (simp add: nested_node_def sample_node_v2_def validate_node_v2_def validate_opt_def validate_v2_simps)

lemma tested_nodes_valid: "rmap_list validate_node_v2 [tested_node, testing_node] = Inr [tested_node, testing_node]"
  by (simp add: tested_node_def testing_node_def sample_node_v2_def old_roof_def validate_node_v2_def validate_opt_def validate_v2_simps)

lemma construct_nested:
  "construct_package_v2 kahn_cyclic (sample_v2\<lparr>p2_calculations := [nested_node]\<rparr>) = Inr (sample_v2\<lparr>p2_calculations := [nested_node]\<rparr>)"
proof (rule construct_sample_with [OF nested_nodes_valid])
  have ents: "entities_v2 (sample_v2\<lparr>p2_calculations := [nested_node]\<rparr>) =
      [(''roof_age'', ''input''), (''base_rate'', ''constant''), (''roof_factor'', ''table''), (''premium'', ''calculation''), (''total'', ''output'')]"
    by (simp add: entities_v2_def sample_v2_def sample_input_def sample_package_def sample_table_fields sample_node_v2_def nested_node_def)
  show "validate_package_v2 kahn_cyclic (sample_v2\<lparr>p2_calculations := [nested_node]\<rparr>) = Inr (sample_v2\<lparr>p2_calculations := [nested_node]\<rparr>)"
    unfolding validate_package_v2_def Let_def ents
    by (simp add: see_entity_v2_def see_entity_def sample_check_simps)
qed

lemma construct_tested:
  "construct_package_v2 kahn_cyclic (sample_v2\<lparr>p2_calculations := [tested_node, testing_node]\<rparr>) =
     Inr (sample_v2\<lparr>p2_calculations := [tested_node, testing_node]\<rparr>)"
proof (rule construct_sample_with [OF tested_nodes_valid])
  have ents: "entities_v2 (sample_v2\<lparr>p2_calculations := [tested_node, testing_node]\<rparr>) =
      [(''roof_age'', ''input''), (''base_rate'', ''constant''), (''roof_factor'', ''table''), (''subtotal'', ''calculation''),
       (''premium'', ''calculation''), (''total'', ''output'')]"
    by (simp add: entities_v2_def sample_v2_def sample_input_def sample_package_def sample_table_fields sample_node_v2_def
        tested_node_def testing_node_def)
  show "validate_package_v2 kahn_cyclic (sample_v2\<lparr>p2_calculations := [tested_node, testing_node]\<rparr>) =
      Inr (sample_v2\<lparr>p2_calculations := [tested_node, testing_node]\<rparr>)"
    unfolding validate_package_v2_def Let_def ents
    by (simp add: see_entity_v2_def see_entity_def sample_check_simps)
qed

lemma lowering_fails_closed_witness:
  "\<exists>e. lower_to_v0_1 (sample_v2\<lparr>p2_calculations := [nested_node]\<rparr>) = Inl e \<and> e = LoweringNotSupportedError ''nested_round''"
proof -
  have "has_round (body_of (c2_expression nested_node))" by (simp add: nested_node_def body_of_def)
  then have "\<nexists>q. lower_to_v0_1 (sample_v2\<lparr>p2_calculations := [nested_node]\<rparr>) = Inr q"
    using lowering_fails_closed [OF construct_nested] by simp
  then show ?thesis
    using lowering_fails_closed [OF construct_nested] by (metis sum.exhaust)
qed

lemma conditional_on_calculation_never_priced_witness:
  "\<exists>q. lower_to_v0_1 (sample_v2\<lparr>p2_calculations := [tested_node, testing_node]\<rparr>) = Inr q
     \<and> (\<forall>r. evaluate_package kahn_sort q roof20 (Date 2026 3 1) NEW_BUSINESS False \<noteq> Inr r)"
proof -
  let ?p = "sample_v2\<lparr>p2_calculations := [tested_node, testing_node]\<rparr>"
  obtain q where q: "lower_to_v0_1 ?p = Inr q"
    using lower_to_v0_1_total [OF construct_tested]
    by (auto simp: tested_node_def testing_node_def sample_node_v2_def body_of_def old_roof_def)
  have n: "testing_node \<in> set (p2_calculations ?p)" "''subtotal'' \<in> c2_id ` set (p2_calculations ?p)"
    by (simp_all add: tested_node_def)
  have "body_of (c2_expression testing_node) = Conditional2 (Compare2 (Reference2 ''subtotal'') GTE (Literal2 (PInt 10)))
     (Binary2 B_MULTIPLY (Reference2 ''base_rate'') (TableLookup2 ''roof_factor'')) (Reference2 ''base_rate'')"
    by (simp add: testing_node_def body_of_def old_roof_def)
  then show ?thesis
    using q conditional_on_calculation_never_priced [OF construct_tested q n(1) _ n(2)] by blast
qed

section \<open>Control cases\<close>

text \<open>Whatever output a case names, the number it is compared with is the premium of the run: two
  outputs of one case cannot be told apart.\<close>

lemma control_cases_one_premium:
  assumes "run_case topo p q c (o1, x1) = Inr r1" "run_case topo p q c (o2, x2) = Inr r2"
    and "cr_detail r1 = None" "cr_detail r2 = None"
  shows "cr_actual r1 = cr_actual r2"
proof -
  have actual: "\<exists>d t run. case_effective_date p c = Inr d \<and> case_transaction_type p c = Inr t
      \<and> evaluate_package topo q (cc_inputs c) d t False = Inr run \<and> cr_actual r = dec_str (or_final_premium run)"
    if "run_case topo p q c (out, x) = Inr r" "cr_detail r = None" for out x r
  proof (cases "try_case topo p q c out x")
    case (Inl e)
    then show ?thesis using that by (auto simp: run_case_def failed_case_def split: if_splits exn.splits)
  next
    case (Inr r')
    then have "r' = r" using that by (auto simp: run_case_def failed_case_def split: if_splits)
    then show ?thesis using Inr by (fastforce simp: try_case_def rbind_Inr_iff)
  qed
  show ?thesis using actual [OF assms(1,3)] actual [OF assms(2,4)] by auto
qed

end
