(* ===== verification/MissionModels.thy ===== *)
theory MissionModels
  imports PyText
begin

text \<open>
  The data of a mission and the policy of its life cycle:
  \<open>storage/models.py\<close> (the persisted record), \<open>services/mission_transitions.py\<close> (which
  changes of status are legal, which actions a user may take), \<open>models/stages.py\<close> (the ledger
  of the twenty stages) and \<open>messaging/outcomes.py\<close> (what a worker answers to Pub/Sub).

  A datetime is a number of microseconds.  The metadata of a record is a dict of strings,
  numbers, booleans, \<open>None\<close>, timestamps written with \<open>isoformat()\<close> (\<open>MTime\<close>) and other objects (\<open>MObject\<close>,
  a non-empty dict; its content is never looked into).  Fields that no modelled code reads or
  writes (the summaries of the analyses, \<open>errors\<close>) are left out.
\<close>

section \<open>The record (storage/models.py)\<close>

datatype run_status =
    DRAFT | VALIDATING | CREATED | PENDING | QUEUED | PROCESSING | RUNNING | IN_PROGRESS | WAITING_RETRY
  | NEEDS_REVIEW | COMPLETED | FAILED | CANCELLED | ARCHIVED

fun status_name :: "run_status \<Rightarrow> string" where
  "status_name DRAFT = ''DRAFT''" | "status_name VALIDATING = ''VALIDATING''" | "status_name CREATED = ''CREATED''"
| "status_name PENDING = ''PENDING''" | "status_name QUEUED = ''QUEUED''" | "status_name PROCESSING = ''PROCESSING''"
| "status_name RUNNING = ''RUNNING''" | "status_name IN_PROGRESS = ''IN_PROGRESS''"
| "status_name WAITING_RETRY = ''WAITING_RETRY''" | "status_name NEEDS_REVIEW = ''NEEDS_REVIEW''"
| "status_name COMPLETED = ''COMPLETED''" | "status_name FAILED = ''FAILED''" | "status_name CANCELLED = ''CANCELLED''"
| "status_name ARCHIVED = ''ARCHIVED''"

datatype meta_value = MNone | MInt int | MBool bool | MStr string | MTime int | MObject string

type_synonym metadata = "(string, meta_value) dict"

record run_record =
  rn_id :: string
  rn_tenant :: "string option"
  rn_created_by :: "string option"
  rn_created_at :: int
  rn_updated_at :: int
  rn_status :: run_status
  rn_workflow_stage :: string
  rn_left :: "string option"
  rn_right :: "string option"
  rn_evidence_refs :: "string list"
  rn_activity :: "string list"
  rn_metadata :: metadata
  rn_decision :: "string option"
  rn_summary :: "string option"
  rn_report :: "string option"
  rn_status_reason :: "string option"
  rn_current_stage :: "string option"
  rn_queued_at :: "int option"
  rn_started_at :: "int option"
  rn_completed_at :: "int option"
  rn_attempt :: int
  rn_cancel :: bool

record run_event =
  ev_run :: string
  ev_stage :: string
  ev_action :: string

record evidence_record =
  ed_id :: string
  ed_run :: string
  ed_title :: string

text \<open>\<open>bool(v)\<close> and \<open>int(v)\<close>.\<close>

fun meta_true :: "meta_value option \<Rightarrow> bool" where
  "meta_true None = False"
| "meta_true (Some MNone) = False"
| "meta_true (Some (MInt i)) = (i \<noteq> 0)"
| "meta_true (Some (MBool b)) = b"
| "meta_true (Some (MStr s)) = (s \<noteq> [])"
| "meta_true (Some (MTime t)) = True"
| "meta_true (Some (MObject x)) = True"

fun meta_int :: "meta_value \<Rightarrow> int res" where
  "meta_int MNone = Inl TypeError"
| "meta_int (MInt i) = Inr i"
| "meta_int (MBool b) = Inr (if b then 1 else 0)"
| "meta_int (MStr s) = (case parse_int s of None \<Rightarrow> Inl ValueError | Some i \<Rightarrow> Inr i)"
| "meta_int (MTime t) = Inl ValueError"
| "meta_int (MObject x) = Inl TypeError"

text \<open>\<open>int(meta.get("attempt_number", d) or 1)\<close>.\<close>

definition attempt_of :: "metadata \<Rightarrow> int \<Rightarrow> int res" where
  "attempt_of m d =
     (let v = (case dget m ''attempt_number'' of None \<Rightarrow> MInt d | Some v \<Rightarrow> v) in
      if meta_true (Some v) then meta_int v else Inr 1)"

section \<open>Legal transitions (services/mission_transitions.py)\<close>

fun allowed_transitions :: "run_status \<Rightarrow> run_status list" where
  "allowed_transitions DRAFT = [VALIDATING, QUEUED, CANCELLED, FAILED]"
| "allowed_transitions VALIDATING = [QUEUED, FAILED, CANCELLED]"
| "allowed_transitions QUEUED = [RUNNING, CANCELLED, FAILED]"
| "allowed_transitions RUNNING = [WAITING_RETRY, NEEDS_REVIEW, COMPLETED, FAILED, CANCELLED]"
| "allowed_transitions WAITING_RETRY = [QUEUED, RUNNING, CANCELLED, FAILED]"
| "allowed_transitions NEEDS_REVIEW = [COMPLETED, CANCELLED, ARCHIVED]"
| "allowed_transitions COMPLETED = [ARCHIVED]"
| "allowed_transitions FAILED = [WAITING_RETRY, QUEUED, ARCHIVED, CANCELLED]"
| "allowed_transitions CANCELLED = [ARCHIVED]"
| "allowed_transitions ARCHIVED = []"
| "allowed_transitions _ = []"

definition terminal_statuses :: "run_status list" where
  "terminal_statuses = [COMPLETED, FAILED, CANCELLED, ARCHIVED]"

definition direct_cancellable :: "run_status list" where
  "direct_cancellable = [QUEUED, VALIDATING, WAITING_RETRY, DRAFT]"

definition cooperative_cancellable :: "run_status list" where
  "cooperative_cancellable = [RUNNING]"

definition cancellable :: "run_status list" where
  "cancellable = direct_cancellable @ cooperative_cancellable"

definition retryable_statuses :: "run_status list" where
  "retryable_statuses = [FAILED, WAITING_RETRY]"

definition archivable :: "run_status list" where
  "archivable = [COMPLETED, FAILED, CANCELLED, NEEDS_REVIEW]"

definition max_retry_attempts :: int where
  "max_retry_attempts = 5"

lemmas status_sets = terminal_statuses_def direct_cancellable_def cooperative_cancellable_def cancellable_def
  retryable_statuses_def archivable_def

definition is_demo_record :: "run_record \<Rightarrow> bool" where
  "is_demo_record r \<longleftrightarrow>
     meta_true (dget (rn_metadata r) ''is_demo_sample'') \<or> meta_true (dget (rn_metadata r) ''disposable_sample_run'')
     \<or> prefix ''RUN-DEMO'' (rn_id r) \<or> prefix ''MIS-SAMPLE'' (rn_id r)"

definition is_retryable :: "run_record \<Rightarrow> bool res" where
  "is_retryable r =
     (if rn_status r \<notin> set retryable_statuses then Inr False
      else rbind (attempt_of (rn_metadata r) 1) (\<lambda>n. Inr (n < max_retry_attempts)))"

definition is_deletable :: "run_record \<Rightarrow> bool" where
  "is_deletable r \<longleftrightarrow> rn_status r \<in> {DRAFT, CANCELLED} \<or> rn_status r = FAILED \<and> is_demo_record r"

record actions =
  act_cancel :: bool
  act_retry :: bool
  act_archive :: bool
  act_delete :: bool

definition eligible_actions :: "run_record \<Rightarrow> actions res" where
  "eligible_actions r =
     rbind (is_retryable r) (\<lambda>retry.
       Inr \<lparr>act_cancel = (rn_status r \<in> set cancellable \<and> \<not> meta_true (dget (rn_metadata r) ''cancellation_requested'')),
            act_retry = retry,
            act_archive = (rn_status r \<in> set archivable \<and> \<not> meta_true (dget (rn_metadata r) ''archived'')),
            act_delete = is_deletable r\<rparr>)"

definition validate_transition :: "run_status \<Rightarrow> run_status \<Rightarrow> bool" where
  "validate_transition current target \<longleftrightarrow> current = target \<or> target \<in> set (allowed_transitions current)"

text \<open>The optional arguments of \<open>apply_transition\<close>; \<open>extra_metadata=None\<close> and \<open>{}\<close> do the same.\<close>

record transition_args =
  ta_status_reason :: "string option"
  ta_current_stage :: "string option"
  ta_workflow_stage :: "string option"
  ta_extra :: metadata
  ta_expected :: "run_status option"

definition no_args :: transition_args where
  "no_args = \<lparr>ta_status_reason = None, ta_current_stage = None, ta_workflow_stage = None, ta_extra = [], ta_expected = None\<rparr>"

datatype transition_error = RunNotFound | ConcurrentModification | InvalidTransition

record transition_result =
  tr_ok :: bool
  tr_record :: "run_record option"
  tr_error :: "transition_error option"

definition or_else :: "'a option \<Rightarrow> 'a \<Rightarrow> 'a" where
  "or_else x d = (case x of None \<Rightarrow> d | Some y \<Rightarrow> y)"

definition or_keep :: "'a option \<Rightarrow> 'a option \<Rightarrow> 'a option" where
  "or_keep x y = (case x of None \<Rightarrow> y | Some z \<Rightarrow> Some z)"

text \<open>\<open>record.metadata.update(extra)\<close>.\<close>

definition meta_update :: "metadata \<Rightarrow> metadata \<Rightarrow> metadata" where
  "meta_update m extra = AList.merge m extra"

text \<open>The checks, and the record that is written when they pass.\<close>

definition transition_error_of :: "run_record \<Rightarrow> run_status \<Rightarrow> transition_args \<Rightarrow> transition_error option" where
  "transition_error_of r target a =
     (if ta_expected a \<noteq> None \<and> ta_expected a \<noteq> Some (rn_status r) then Some ConcurrentModification
      else if \<not> validate_transition (rn_status r) target then Some InvalidTransition
      else None)"

definition transitioned :: "int \<Rightarrow> run_record \<Rightarrow> run_status \<Rightarrow> transition_args \<Rightarrow> run_record" where
  "transitioned now r target a =
     r\<lparr>rn_status := target,
       rn_workflow_stage := or_else (ta_workflow_stage a) (rn_workflow_stage r),
       rn_current_stage := or_keep (ta_current_stage a) (rn_current_stage r),
       rn_status_reason := or_keep (ta_status_reason a) (rn_status_reason r),
       rn_started_at := (if target = RUNNING \<and> rn_started_at r = None then Some now else rn_started_at r),
       rn_completed_at := (if target \<in> set terminal_statuses \<and> rn_completed_at r = None then Some now else rn_completed_at r),
       rn_metadata := meta_update (rn_metadata r) (ta_extra a)\<rparr>"

section \<open>The ledger of stages (models/stages.py)\<close>

datatype mission_stage =
    REQUEST_VALIDATION | SOURCE_A_LOAD | SOURCE_B_LOAD_OR_CONNECTOR_CHECK | COMPATIBILITY_GATE | SEMANTIC_DIFF
  | DEPENDENCY_IMPACT | TEST_CANDIDATE_GENERATION | TEST_SELECTION | ORACLE_EXECUTION | TARGET_EXECUTION
  | RECONCILIATION | PORTFOLIO_IMPACT | PIPELINE_IMPACT | COHORT_DISTRIBUTION | REMEDIATION | REVALIDATION
  | EXPLANATION_FACTS | EXPLANATION_DRAFT | DECISION | EVIDENCE_FINALIZATION

definition mission_stage_order :: "mission_stage list" where
  "mission_stage_order =
     [REQUEST_VALIDATION, SOURCE_A_LOAD, SOURCE_B_LOAD_OR_CONNECTOR_CHECK, COMPATIBILITY_GATE, SEMANTIC_DIFF,
      DEPENDENCY_IMPACT, TEST_CANDIDATE_GENERATION, TEST_SELECTION, ORACLE_EXECUTION, TARGET_EXECUTION,
      RECONCILIATION, PORTFOLIO_IMPACT, PIPELINE_IMPACT, COHORT_DISTRIBUTION, REMEDIATION, REVALIDATION,
      EXPLANATION_FACTS, EXPLANATION_DRAFT, DECISION, EVIDENCE_FINALIZATION]"

datatype stage_status = SS_COMPLETED | SS_FAILED | SS_REVIEW_REQUIRED | SS_NOT_APPLICABLE

record stage_outcome =
  so_stage :: mission_stage
  so_status :: stage_status
  so_reason :: "string option"

text \<open>\<open>not self.reason\<close>: absent or empty.\<close>

definition no_reason :: "string option \<Rightarrow> bool" where
  "no_reason r \<longleftrightarrow> r = None \<or> r = Some []"

definition validate_outcome :: "stage_outcome \<Rightarrow> stage_outcome res" where
  "validate_outcome x =
     (if so_status x \<in> {SS_NOT_APPLICABLE, SS_FAILED, SS_REVIEW_REQUIRED} \<and> no_reason (so_reason x)
      then Inl (ValidationError ''reason'') else Inr x)"

type_synonym stage_recorder = "(mission_stage, stage_outcome) dict"

definition record_stage :: "mission_stage \<Rightarrow> stage_status \<Rightarrow> string option \<Rightarrow> stage_recorder \<Rightarrow> stage_recorder res" where
  "record_stage stage status reason r =
     rbind (validate_outcome \<lparr>so_stage = stage, so_status = status, so_reason = reason\<rparr>) (\<lambda>x. Inr (dset stage x r))"

definition outcome_for :: "stage_recorder \<Rightarrow> mission_stage \<Rightarrow> stage_outcome option" where
  "outcome_for r stage = dget r stage"

definition missing_stages :: "stage_recorder \<Rightarrow> mission_stage list" where
  "missing_stages r = filter (\<lambda>s. dget r s = None) mission_stage_order"

definition all_accounted_for :: "stage_recorder \<Rightarrow> bool" where
  "all_accounted_for r \<longleftrightarrow> missing_stages r = []"

definition outcomes :: "stage_recorder \<Rightarrow> stage_outcome list" where
  "outcomes r = List.map_filter (dget r) mission_stage_order"

text \<open>\<open>AssuranceSupervisor._finalize_stage_outcomes\<close>.\<close>

definition finalize_stage_outcomes :: "string \<Rightarrow> stage_recorder \<Rightarrow> stage_recorder res" where
  "finalize_stage_outcomes reason r =
     rfold (\<lambda>s. record_stage s SS_NOT_APPLICABLE (Some reason)) (missing_stages r) r"

section \<open>What the worker answers (messaging/outcomes.py)\<close>

datatype processing_outcome =
  SUCCEEDED | DUPLICATE_ALREADY_PROCESSED | RETRYABLE_FAILURE | TERMINAL_INVALID_MESSAGE | PO_CANCELLED

fun outcome_http_status :: "processing_outcome \<Rightarrow> nat" where
  "outcome_http_status SUCCEEDED = 200"
| "outcome_http_status DUPLICATE_ALREADY_PROCESSED = 200"
| "outcome_http_status PO_CANCELLED = 200"
| "outcome_http_status RETRYABLE_FAILURE = 503"
| "outcome_http_status TERMINAL_INVALID_MESSAGE = 400"

definition should_ack :: "processing_outcome \<Rightarrow> bool" where
  "should_ack x \<longleftrightarrow> 200 \<le> outcome_http_status x \<and> outcome_http_status x < 300"

record processing_result =
  po_outcome :: processing_outcome
  po_decision :: "string option"
  po_write_ok :: bool

section \<open>Laws of the policy\<close>

text \<open>Once a mission is archived no transition leaves that status, and from a cancelled or a completed
  one only the archive can be reached.\<close>

lemma validate_from_archived: "validate_transition ARCHIVED t \<longleftrightarrow> t = ARCHIVED"
  by (auto simp: validate_transition_def)

lemma validate_from_closed:
  "s \<in> {COMPLETED, CANCELLED} \<Longrightarrow> validate_transition s t \<longleftrightarrow> t = s \<or> t = ARCHIVED"
  by (auto simp: validate_transition_def)

lemma dget_meta_update: "dget (meta_update m e) k = (case dget e k of None \<Rightarrow> dget m k | Some v \<Rightarrow> Some v)"
  by (simp add: meta_update_def merge_conv' map_add_def)

lemma set_mission_stage_order: "set mission_stage_order = UNIV" "distinct mission_stage_order"
proof -
  have "x \<in> set mission_stage_order" for x by (cases x) (simp_all add: mission_stage_order_def)
  then show "set mission_stage_order = UNIV" by blast
qed (simp add: mission_stage_order_def)

lemma missing_stages_iff: "s \<in> set (missing_stages r) \<longleftrightarrow> dget r s = None"
  by (simp add: missing_stages_def set_mission_stage_order)

end
