(* ===== verification/MissionStore.thy ===== *)
theory MissionStore
  imports MissionModels
begin

text \<open>
  The run store: \<open>storage/memory_store.py\<close>, \<open>storage/firestore_store.py\<close> and the defaults of
  \<open>storage/interfaces.py\<close>.

  A Firestore store is two stores: the documents, shared by all processes, and the fallback, an
  in-memory store of its own process.  Every method is a program (\<open>'a prog\<close>) of calls; a call
  is one request to Firestore, one locked operation on the fallback, one reading of the clock or
  one publication, and happens at once.  What happens between two calls of a program is up to the
  others: \<open>run_calls\<close> runs a program alone, MissionLifecycle has the interleavings.

  A request may fail, and then may have been applied or not (\<open>fault\<close>).  A transaction that
  Firestore retries after a conflict is one call: its last attempt.
  The in-memory store hands out the record object itself, the model its value: they differ only
  between a change of the object and the write of it that follows.
\<close>

section \<open>Programs of calls\<close>

record job =
  jb_id :: string
  jb_run :: string
  jb_type :: string

datatype lease_outcome = ACQUIRED | NOT_FOUND | ALREADY_TERMINAL | ALREADY_LEASED | INVALID_TRANSITION

datatype call =
    DocGet string
  | DocSet run_record
  | DocMerge run_record
  | TxnUpdateOwned run_record string bool
  | TxnDeleteOwned string string bool
  | TxnLease string string int
  | HeartbeatField string
  | SubDelete string
  | EventAdd run_event
  | EvidenceAdd evidence_record
  | Publish job
  | Now
  | LocalGet string
  | LocalCreate run_record
  | LocalUpdate run_record
  | LocalDelete string
  | LocalLease string string int
  | LocalEvent run_event
  | LocalEvidence evidence_record

datatype reply =
    RDone
  | RRecord "run_record option"
  | RBool bool
  | RTime int
  | RLease lease_outcome "run_record option"
  | RFail

datatype 'a prog = Done 'a | Raise exn | Call call "reply \<Rightarrow> 'a prog"

primrec pbind :: "'a prog \<Rightarrow> ('a \<Rightarrow> 'b prog) \<Rightarrow> 'b prog" where
  "pbind (Done x) f = f x"
| "pbind (Raise e) f = Raise e"
| "pbind (Call c k) f = Call c (\<lambda>r. pbind (k r) f)"

text \<open>\<open>try: p except Exception as e: h(e)\<close>.\<close>

primrec ptry :: "'a prog \<Rightarrow> (exn \<Rightarrow> 'a prog) \<Rightarrow> 'a prog" where
  "ptry (Done x) h = Done x"
| "ptry (Raise e) h = h e"
| "ptry (Call c k) h = Call c (\<lambda>r. ptry (k r) h)"

definition invoke :: "call \<Rightarrow> reply prog" where
  "invoke c = Call c (\<lambda>r. if r = RFail then Raise (RuntimeError ''storage'') else Done r)"

definition lift :: "'a res \<Rightarrow> 'a prog" where
  "lift m = (case m of Inl e \<Rightarrow> Raise e | Inr x \<Rightarrow> Done x)"

fun reply_record :: "reply \<Rightarrow> run_record option" where
  "reply_record (RRecord x) = x" | "reply_record _ = None"

fun reply_bool :: "reply \<Rightarrow> bool" where
  "reply_bool (RBool b) = b" | "reply_bool _ = False"

fun reply_time :: "reply \<Rightarrow> int" where
  "reply_time (RTime t) = t" | "reply_time _ = 0"

fun reply_lease :: "reply \<Rightarrow> lease_outcome \<times> run_record option" where
  "reply_lease (RLease x r) = (x, r)" | "reply_lease _ = (NOT_FOUND, None)"

definition ask_record :: "call \<Rightarrow> run_record option prog" where
  "ask_record c = pbind (invoke c) (\<lambda>r. Done (reply_record r))"

definition ask_bool :: "call \<Rightarrow> bool prog" where
  "ask_bool c = pbind (invoke c) (\<lambda>r. Done (reply_bool r))"

definition ask_lease :: "call \<Rightarrow> (lease_outcome \<times> run_record option) prog" where
  "ask_lease c = pbind (invoke c) (\<lambda>r. Done (reply_lease r))"

definition tell :: "call \<Rightarrow> unit prog" where
  "tell c = pbind (invoke c) (\<lambda>_. Done ())"

definition utc_now :: "int prog" where
  "utc_now = pbind (invoke Now) (\<lambda>r. Done (reply_time r))"

section \<open>The in-memory store (memory_store.py)\<close>

record mem_store =
  ms_runs :: "(string, run_record) dict"
  ms_events :: "(string, run_event list) dict"
  ms_evidence :: "(string, evidence_record list) dict"

definition empty_mem :: mem_store where
  "empty_mem = \<lparr>ms_runs = [], ms_events = [], ms_evidence = []\<rparr>"

definition setdefault :: "'k \<Rightarrow> 'v \<Rightarrow> ('k, 'v) dict \<Rightarrow> ('k, 'v) dict" where
  "setdefault k v d = (if dget d k = None then dset k v d else d)"

definition dpop :: "'k \<Rightarrow> ('k, 'v) dict \<Rightarrow> ('k, 'v) dict" where
  "dpop k d = filter (\<lambda>x. fst x \<noteq> k) d"

definition mem_create :: "run_record \<Rightarrow> mem_store \<Rightarrow> mem_store" where
  "mem_create r m =
     m\<lparr>ms_runs := dset (rn_id r) r (ms_runs m), ms_events := setdefault (rn_id r) [] (ms_events m),
       ms_evidence := setdefault (rn_id r) [] (ms_evidence m)\<rparr>"

definition mem_get :: "string \<Rightarrow> mem_store \<Rightarrow> run_record option" where
  "mem_get i m = dget (ms_runs m) i"

text \<open>The record is stamped: the caller's object is the one that is stored.\<close>

definition mem_update :: "int \<Rightarrow> run_record \<Rightarrow> mem_store \<Rightarrow> run_record \<times> mem_store" where
  "mem_update now r m =
     (let r' = r\<lparr>rn_updated_at := now\<rparr> in (r', m\<lparr>ms_runs := dset (rn_id r) r' (ms_runs m)\<rparr>))"

definition mem_delete :: "string \<Rightarrow> mem_store \<Rightarrow> bool \<times> mem_store" where
  "mem_delete i m =
     (dget (ms_runs m) i \<noteq> None,
      m\<lparr>ms_runs := dpop i (ms_runs m), ms_events := dpop i (ms_events m), ms_evidence := dpop i (ms_evidence m)\<rparr>)"

definition mem_add_event :: "run_event \<Rightarrow> mem_store \<Rightarrow> mem_store" where
  "mem_add_event e m = m\<lparr>ms_events := dset (ev_run e) (dget_default (ms_events m) (ev_run e) [] @ [e]) (ms_events m)\<rparr>"

definition mem_add_evidence :: "evidence_record \<Rightarrow> mem_store \<Rightarrow> mem_store" where
  "mem_add_evidence x m =
     m\<lparr>ms_evidence := dset (ed_run x) (dget_default (ms_evidence m) (ed_run x) [] @ [x]) (ms_evidence m),
       ms_runs := (case dget (ms_runs m) (ed_run x) of
            None \<Rightarrow> ms_runs m
          | Some r \<Rightarrow> if ed_id x \<in> set (rn_evidence_refs r) then ms_runs m
                      else dset (ed_run x) (r\<lparr>rn_evidence_refs := rn_evidence_refs r @ [ed_id x]\<rparr>) (ms_runs m))\<rparr>"

definition mem_list_runs :: "nat \<Rightarrow> mem_store \<Rightarrow> run_record list" where
  "mem_list_runs limit m = take limit (sort_key (\<lambda>r. - rn_created_at r) (map snd (ms_runs m)))"

section \<open>The lease\<close>

text \<open>\<open>(now - hb).total_seconds() < lease_seconds\<close>.  A heartbeat that is no timestamp is
  skipped by the \<open>except\<close>.\<close>

definition heartbeat_fresh :: "int \<Rightarrow> int \<Rightarrow> metadata \<Rightarrow> bool" where
  "heartbeat_fresh now secs m =
     (case dget m ''last_heartbeat_at'' of Some (MTime t) \<Rightarrow> now - t < secs * 1000000 | _ \<Rightarrow> False)"

definition lease_taken :: "int \<Rightarrow> string \<Rightarrow> run_record \<Rightarrow> run_record" where
  "lease_taken now job r =
     r\<lparr>rn_status := RUNNING, rn_workflow_stage := ''RUNNING'',
       rn_started_at := (if rn_started_at r = None then Some now else rn_started_at r),
       rn_metadata := dset ''lease_owner'' (MStr job) (dset ''last_heartbeat_at'' (MTime now) (rn_metadata r)),
       rn_updated_at := now\<rparr>"

definition lease_run :: "int \<Rightarrow> string \<Rightarrow> int \<Rightarrow> run_record option \<Rightarrow> lease_outcome \<times> run_record option" where
  "lease_run now job secs x =
     (case x of
        None \<Rightarrow> (NOT_FOUND, None)
      | Some r \<Rightarrow>
          if rn_status r \<in> set terminal_statuses then (ALREADY_TERMINAL, Some r)
          else if rn_status r = RUNNING \<and> heartbeat_fresh now secs (rn_metadata r) then (ALREADY_LEASED, Some r)
          else (ACQUIRED, Some (lease_taken now job r)))"

definition mem_lease :: "int \<Rightarrow> string \<Rightarrow> string \<Rightarrow> int \<Rightarrow> mem_store \<Rightarrow> (lease_outcome \<times> run_record option) \<times> mem_store" where
  "mem_lease now i job secs m =
     (case lease_run now job secs (dget (ms_runs m) i) of
        (ACQUIRED, Some r) \<Rightarrow> ((ACQUIRED, Some r), m\<lparr>ms_runs := dset i r (ms_runs m)\<rparr>)
      | x \<Rightarrow> (x, m))"

section \<open>The documents (firestore_store.py)\<close>

text \<open>\<open>owned_by\<close>: a record without a tenant belongs to whom the server says.\<close>

definition owned_by :: "run_record option \<Rightarrow> string \<Rightarrow> bool \<Rightarrow> bool" where
  "owned_by x tenant legacy =
     (case x of
        None \<Rightarrow> False
      | Some r \<Rightarrow>
          if tenant = [] then False
          else (case rn_tenant r of Some t \<Rightarrow> if t \<noteq> [] then t = tenant else legacy | None \<Rightarrow> legacy))"

record cloud =
  cl_runs :: "(string, run_record) dict"
  cl_events :: "run_event list"
  cl_evidence :: "evidence_record list"
  cl_jobs :: "job list"

text \<open>\<open>set(payload, merge=True)\<close> writes every field of the record; the metadata is a map, which is
  merged key by key.\<close>

definition merged :: "run_record option \<Rightarrow> run_record \<Rightarrow> run_record" where
  "merged old new =
     (case old of None \<Rightarrow> new | Some r \<Rightarrow> new\<lparr>rn_metadata := meta_update (rn_metadata r) (rn_metadata new)\<rparr>)"

definition put_run :: "run_record \<Rightarrow> cloud \<Rightarrow> cloud" where
  "put_run r c = c\<lparr>cl_runs := dset (rn_id r) r (cl_runs c)\<rparr>"

definition merge_run :: "run_record \<Rightarrow> cloud \<Rightarrow> cloud" where
  "merge_run r c = put_run (merged (dget (cl_runs c) (rn_id r)) r) c"

text \<open>The body of the transaction of \<open>update_run_for_tenant\<close>.\<close>

definition update_owned :: "run_record \<Rightarrow> string \<Rightarrow> bool \<Rightarrow> cloud \<Rightarrow> run_record option \<times> cloud" where
  "update_owned r tenant legacy c =
     (case dget (cl_runs c) (rn_id r) of
        None \<Rightarrow> (None, c)
      | Some old \<Rightarrow>
          if \<not> owned_by (Some old) tenant legacy then (None, c)
          else (let r' = r\<lparr>rn_tenant := rn_tenant old\<rparr> in (Some r', merge_run r' c)))"

definition delete_owned :: "string \<Rightarrow> string \<Rightarrow> bool \<Rightarrow> cloud \<Rightarrow> bool \<times> cloud" where
  "delete_owned i tenant legacy c =
     (if owned_by (dget (cl_runs c) i) tenant legacy then (True, c\<lparr>cl_runs := dpop i (cl_runs c)\<rparr>) else (False, c))"

definition lease_doc :: "int \<Rightarrow> string \<Rightarrow> string \<Rightarrow> int \<Rightarrow> cloud \<Rightarrow> (lease_outcome \<times> run_record option) \<times> cloud" where
  "lease_doc now i job secs c =
     (case lease_run now job secs (dget (cl_runs c) i) of
        (ACQUIRED, Some r) \<Rightarrow> ((ACQUIRED, Some r), merge_run r c)
      | x \<Rightarrow> (x, c))"

text \<open>\<open>update({"metadata.last_heartbeat_at": now})\<close> fails on a document that does not exist.\<close>

definition heartbeat_doc :: "int \<Rightarrow> string \<Rightarrow> cloud \<Rightarrow> bool \<times> cloud" where
  "heartbeat_doc now i c =
     (case dget (cl_runs c) i of
        None \<Rightarrow> (False, c)
      | Some r \<Rightarrow> (True, put_run (r\<lparr>rn_metadata := dset ''last_heartbeat_at'' (MTime now) (rn_metadata r)\<rparr>) c))"

section \<open>What a call does\<close>

datatype fault = Works | Fails | FailsApplied

definition answer_lease :: "(lease_outcome \<times> run_record option) \<times> 's \<Rightarrow> reply \<times> 's" where
  "answer_lease x = (RLease (fst (fst x)) (snd (fst x)), snd x)"

text \<open>A request to Firestore or Pub/Sub that goes through.\<close>

fun serve :: "int \<Rightarrow> call \<Rightarrow> cloud \<Rightarrow> reply \<times> cloud" where
  "serve now (DocGet i) c = (RRecord (dget (cl_runs c) i), c)"
| "serve now (DocSet r) c = (RDone, put_run r c)"
| "serve now (DocMerge r) c = (RDone, merge_run r c)"
| "serve now (TxnUpdateOwned r tenant legacy) c = (let (x, c') = update_owned r tenant legacy c in (RRecord x, c'))"
| "serve now (TxnDeleteOwned i tenant legacy) c = (let (b, c') = delete_owned i tenant legacy c in (RBool b, c'))"
| "serve now (TxnLease i job secs) c = answer_lease (lease_doc now i job secs c)"
| "serve now (HeartbeatField i) c = (let (b, c') = heartbeat_doc now i c in (if b then RDone else RFail, c'))"
| "serve now (SubDelete i) c =
     (RDone, c\<lparr>cl_events := filter (\<lambda>e. ev_run e \<noteq> i) (cl_events c), cl_evidence := filter (\<lambda>e. ed_run e \<noteq> i) (cl_evidence c)\<rparr>)"
| "serve now (EventAdd e) c = (RDone, c\<lparr>cl_events := cl_events c @ [e]\<rparr>)"
| "serve now (EvidenceAdd e) c = (RDone, c\<lparr>cl_evidence := cl_evidence c @ [e]\<rparr>)"
| "serve now (Publish j) c = (RDone, c\<lparr>cl_jobs := cl_jobs c @ [j]\<rparr>)"
| "serve now _ c = (RDone, c)"

text \<open>An operation of the process itself, which does not fail.\<close>

fun serve_local :: "int \<Rightarrow> call \<Rightarrow> mem_store \<Rightarrow> (reply \<times> mem_store) option" where
  "serve_local now Now m = Some (RTime now, m)"
| "serve_local now (LocalGet i) m = Some (RRecord (mem_get i m), m)"
| "serve_local now (LocalCreate r) m = Some (RDone, mem_create r m)"
| "serve_local now (LocalUpdate r) m = Some (let (r', m') = mem_update now r m in (RRecord (Some r'), m'))"
| "serve_local now (LocalDelete i) m = Some (let (b, m') = mem_delete i m in (RBool b, m'))"
| "serve_local now (LocalLease i job secs) m = Some (answer_lease (mem_lease now i job secs m))"
| "serve_local now (LocalEvent e) m = Some (RDone, mem_add_event e m)"
| "serve_local now (LocalEvidence e) m = Some (RDone, mem_add_evidence e m)"
| "serve_local now _ m = None"

definition do_call :: "fault \<Rightarrow> int \<Rightarrow> call \<Rightarrow> cloud \<Rightarrow> mem_store \<Rightarrow> reply \<times> cloud \<times> mem_store" where
  "do_call f now x c m =
     (case serve_local now x m of
        Some (r, m') \<Rightarrow> (r, c, m')
      | None \<Rightarrow>
          (case f of
             Works \<Rightarrow> (let (r, c') = serve now x c in (r, c', m))
           | Fails \<Rightarrow> (RFail, c, m)
           | FailsApplied \<Rightarrow> (RFail, snd (serve now x c), m)))"

text \<open>A program alone, nothing failing, at one instant.\<close>

primrec run_calls :: "int \<Rightarrow> 'a prog \<Rightarrow> cloud \<Rightarrow> mem_store \<Rightarrow> 'a res \<times> cloud \<times> mem_store" where
  "run_calls now (Done x) = (\<lambda>c m. (Inr x, c, m))"
| "run_calls now (Raise e) = (\<lambda>c m. (Inl e, c, m))"
| "run_calls now (Call x k) = (\<lambda>c m. case do_call Works now x c m of (r, c', m') \<Rightarrow> run_calls now (k r) c' m')"

section \<open>The methods of the stores\<close>

text \<open>\<open>Firestore lenient\<close> is a Firestore store with \<open>fallback_on_error = lenient\<close>; one whose
  client could not be made (\<open>_db is None\<close>) passes everything to its fallback, as \<open>InMemory\<close> does.\<close>

datatype store_kind = InMemory | Firestore bool

text \<open>\<open>except Exception: if not self.fallback_on_error: raise\<close>, then \<open>p\<close>.\<close>

definition degraded :: "bool \<Rightarrow> 'a prog \<Rightarrow> exn \<Rightarrow> 'a prog" where
  "degraded lenient p e = (if lenient then p else Raise e)"

definition create_run :: "store_kind \<Rightarrow> run_record \<Rightarrow> unit prog" where
  "create_run k r =
     pbind (tell (LocalCreate r)) (\<lambda>_.
       case k of InMemory \<Rightarrow> Done () | Firestore lenient \<Rightarrow> ptry (tell (DocSet r)) (degraded lenient (Done ())))"

definition get_run :: "store_kind \<Rightarrow> string \<Rightarrow> run_record option prog" where
  "get_run k i =
     (case k of
        InMemory \<Rightarrow> ask_record (LocalGet i)
      | Firestore lenient \<Rightarrow>
          pbind (ptry (ask_record (DocGet i)) (degraded lenient (Done None))) (\<lambda>x.
            case x of Some r \<Rightarrow> Done (Some r) | None \<Rightarrow> ask_record (LocalGet i)))"

text \<open>The fallback stamps the object first, so the stamped record is the one that is sent.\<close>

definition update_run :: "store_kind \<Rightarrow> run_record \<Rightarrow> run_record prog" where
  "update_run k r =
     pbind (ask_record (LocalUpdate r)) (\<lambda>x. let r' = or_else x r in
       case k of InMemory \<Rightarrow> Done r'
       | Firestore lenient \<Rightarrow> pbind (ptry (tell (DocMerge r')) (degraded lenient (Done ()))) (\<lambda>_. Done r'))"

definition save_run :: "store_kind \<Rightarrow> run_record \<Rightarrow> unit prog" where
  "save_run k r =
     pbind (get_run k (rn_id r)) (\<lambda>x.
       if x \<noteq> None then pbind (update_run k r) (\<lambda>_. Done ()) else create_run k r)"

definition get_run_for_tenant :: "store_kind \<Rightarrow> string \<Rightarrow> string \<Rightarrow> bool \<Rightarrow> run_record option prog" where
  "get_run_for_tenant k i tenant legacy =
     pbind (get_run k i) (\<lambda>x. Done (if owned_by x tenant legacy then x else None))"

definition update_run_for_tenant :: "store_kind \<Rightarrow> run_record \<Rightarrow> string \<Rightarrow> bool \<Rightarrow> run_record option prog" where
  "update_run_for_tenant k r tenant legacy =
     (case k of
        InMemory \<Rightarrow>
          pbind (get_run k (rn_id r)) (\<lambda>x.
            case x of
              Some old \<Rightarrow>
                if owned_by x tenant legacy
                then pbind (update_run k (r\<lparr>rn_tenant := rn_tenant old\<rparr>)) (\<lambda>y. Done (Some y))
                else Done None
            | None \<Rightarrow> Done None)
      | Firestore lenient \<Rightarrow>
          pbind (ptry (ask_record (TxnUpdateOwned r tenant legacy)) (degraded lenient (Done None))) (\<lambda>x.
            case x of None \<Rightarrow> Done None
            | Some saved \<Rightarrow> ask_record (LocalUpdate saved)))"

text \<open>The subcollections go only after the ownership check, and the answer is that of a last look.\<close>

definition delete_run_for_tenant :: "store_kind \<Rightarrow> string \<Rightarrow> string \<Rightarrow> bool \<Rightarrow> bool prog" where
  "delete_run_for_tenant k i tenant legacy =
     (case k of
        InMemory \<Rightarrow>
          pbind (get_run k i) (\<lambda>x. if owned_by x tenant legacy then ask_bool (LocalDelete i) else Done False)
      | Firestore lenient \<Rightarrow>
          ptry
            (pbind (ask_bool (TxnDeleteOwned i tenant legacy)) (\<lambda>b.
               if \<not> b then Done False
               else pbind (tell (SubDelete i)) (\<lambda>_.
                    pbind (tell (LocalDelete i)) (\<lambda>_.
                    pbind (ask_record (DocGet i)) (\<lambda>x. Done (x = None))))))
            (degraded lenient (Done False)))"

definition add_event :: "store_kind \<Rightarrow> run_event \<Rightarrow> unit prog" where
  "add_event k e =
     pbind (tell (LocalEvent e)) (\<lambda>_.
       case k of InMemory \<Rightarrow> Done () | Firestore lenient \<Rightarrow> ptry (tell (EventAdd e)) (degraded lenient (Done ())))"

definition add_evidence :: "store_kind \<Rightarrow> evidence_record \<Rightarrow> unit prog" where
  "add_evidence k e =
     pbind (tell (LocalEvidence e)) (\<lambda>_.
       case k of InMemory \<Rightarrow> Done () | Firestore lenient \<Rightarrow> ptry (tell (EvidenceAdd e)) (degraded lenient (Done ())))"

definition log_event :: "store_kind \<Rightarrow> string \<Rightarrow> string \<Rightarrow> string \<Rightarrow> unit prog" where
  "log_event k i stage msg = add_event k \<lparr>ev_run = i, ev_stage = stage, ev_action = msg\<rparr>"

text \<open>The default of \<open>BaseRunStore\<close>, which the in-memory store inherits, is a read and a write.\<close>

definition touch_heartbeat :: "store_kind \<Rightarrow> string \<Rightarrow> unit prog" where
  "touch_heartbeat k i =
     (case k of
        InMemory \<Rightarrow>
          pbind (get_run k i) (\<lambda>x.
            case x of None \<Rightarrow> Done ()
            | Some r \<Rightarrow>
                pbind utc_now (\<lambda>now.
                pbind (update_run k (r\<lparr>rn_metadata := dset ''last_heartbeat_at'' (MTime now) (rn_metadata r)\<rparr>)) (\<lambda>_. Done ())))
      | Firestore lenient \<Rightarrow> ptry (tell (HeartbeatField i)) (degraded lenient (Done ())))"

definition lease_ttl_seconds :: int where
  "lease_ttl_seconds = 120"

definition acquire_lease :: "store_kind \<Rightarrow> string \<Rightarrow> string \<Rightarrow> (lease_outcome \<times> run_record option) prog" where
  "acquire_lease k i job =
     (case k of
        InMemory \<Rightarrow> ask_lease (LocalLease i job lease_ttl_seconds)
      | Firestore lenient \<Rightarrow>
          ptry
            (pbind (ask_lease (TxnLease i job lease_ttl_seconds)) (\<lambda>(x, r).
               case r of None \<Rightarrow> Done (x, None)
               | Some r' \<Rightarrow> pbind (ask_record (LocalUpdate r')) (\<lambda>y. Done (x, y))))
            (degraded lenient (ask_lease (LocalLease i job lease_ttl_seconds))))"

end
