(* ===== verification/MissionLifecycle.thy ===== *)
theory MissionLifecycle
  imports MissionStore
begin

text \<open>
  What happens to a mission: \<open>apply_transition\<close> (\<open>services/mission_transitions.py\<close>), the endpoints that
  create, cancel, retry, archive and delete it (\<open>api/missions.py\<close>), the execution of a job
  (\<open>services/mission_execution_service.py\<close>, \<open>messaging/worker.py\<close>, \<open>api/worker_endpoint.py\<close>) and the
  parts of \<open>agents/supervisor.py\<close> that write the record.  At the end the system: threads that run
  these programs, their calls interleaved in any order and failing at any time.

  The body of \<open>run_mission\<close> is not modelled: it is a list of the steps by which it touches the
  store (\<open>mission_step\<close>), any list, and the verdict it reaches.  The check of a
  message's envelope by pydantic and the loading of the packages are a function of the record
  (\<open>mission_of\<close> and \<open>sc_resolve\<close>).
\<close>

section \<open>Transitions\<close>

definition apply_transition :: "store_kind \<Rightarrow> string \<Rightarrow> run_status \<Rightarrow> transition_args \<Rightarrow> transition_result prog" where
  "apply_transition k i target a =
     pbind (get_run k i) (\<lambda>x.
       case x of
         None \<Rightarrow> Done \<lparr>tr_ok = False, tr_record = None, tr_error = Some RunNotFound\<rparr>
       | Some r \<Rightarrow>
           (case transition_error_of r target a of
              Some e \<Rightarrow> Done \<lparr>tr_ok = False, tr_record = Some r, tr_error = Some e\<rparr>
            | None \<Rightarrow>
                pbind utc_now (\<lambda>now.
                pbind (update_run k (transitioned now r target a)) (\<lambda>r'.
                  Done \<lparr>tr_ok = True, tr_record = Some r', tr_error = None\<rparr>))))"

section \<open>The endpoints (api/missions.py)\<close>

text \<open>A reply: its code, and for an error its machine readable part.\<close>

datatype http = Http nat string

definition not_found :: http where
  "not_found = Http 404 ''''"

text \<open>\<open>get_scoped_run\<close>: another tenant's record is no record.\<close>

definition scoped :: "store_kind \<Rightarrow> string \<Rightarrow> string \<Rightarrow> bool \<Rightarrow> (run_record \<Rightarrow> http prog) \<Rightarrow> http prog" where
  "scoped k i tenant legacy f =
     pbind (get_run_for_tenant k i tenant legacy) (\<lambda>x. case x of None \<Rightarrow> Done not_found | Some r \<Rightarrow> f r)"

record mission_request =
  mr_name :: string
  mr_mode :: string
  mr_source_a :: string
  mr_source_b :: "string option"
  mr_disposable :: bool
  mr_demo :: bool

definition new_mission :: "string \<Rightarrow> string \<Rightarrow> string \<Rightarrow> string \<Rightarrow> mission_request \<Rightarrow> int \<Rightarrow> run_record" where
  "new_mission i tenant uid corr q now =
     \<lparr>rn_id = i, rn_tenant = Some tenant, rn_created_by = Some uid, rn_created_at = now, rn_updated_at = now,
      rn_status = QUEUED, rn_workflow_stage = ''QUEUED'', rn_left = Some (mr_source_a q), rn_right = mr_source_b q,
      rn_evidence_refs = [], rn_activity = [],
      rn_metadata =
        [(''name'', MStr (mr_name q)), (''mode'', MStr (mr_mode q)), (''correlation_id'', MStr corr),
         (''disposable_sample_run'', MBool (mr_disposable q)), (''is_demo_sample'', MBool (mr_demo q)),
         (''record_type'', MStr ''ASSURANCE_MISSION_V2''), (''schema_version'', MInt 2), (''mission_object'', MObject i),
         (''source_a'', MStr (mr_source_a q)), (''source_b'', case mr_source_b q of None \<Rightarrow> MNone | Some b \<Rightarrow> MStr b),
         (''attempt_number'', MInt 1), (''cancellation_requested'', MBool False)],
      rn_decision = None, rn_summary = None, rn_report = None, rn_status_reason = None, rn_current_stage = None,
      rn_queued_at = Some now, rn_started_at = None, rn_completed_at = None, rn_attempt = 1, rn_cancel = False\<rparr>"

definition queue_failed :: "run_record \<Rightarrow> run_record" where
  "queue_failed r =
     r\<lparr>rn_status := QUEUED, rn_workflow_stage := ''QUEUE_FAILED'',
       rn_metadata := dset ''error_code'' (MStr ''MISSION_QUEUE_UNAVAILABLE'') (dset ''last_error'' (MStr ''error'') (rn_metadata r))\<rparr>"

definition create_mission ::
  "store_kind \<Rightarrow> string \<Rightarrow> string \<Rightarrow> string \<Rightarrow> string \<Rightarrow> mission_request \<Rightarrow> http prog" where
  "create_mission k i tenant uid corr q =
     pbind utc_now (\<lambda>now. let r = new_mission i tenant uid corr q now in
     pbind (save_run k r) (\<lambda>_.
     pbind (log_event k i ''QUEUED'' ''Mission accepted and queued'') (\<lambda>_.
     ptry
       (pbind (tell (Publish \<lparr>jb_id = ''JOB-'' @ i, jb_run = i, jb_type = ''ASSURANCE_MISSION_V2''\<rparr>)) (\<lambda>_. Done (Http 202 '''')))
       (\<lambda>_. pbind (update_run k (queue_failed r)) (\<lambda>_.
            pbind (log_event k i ''QUEUE_FAILED'' ''PubSub queue publishing failed'') (\<lambda>_.
              Done (Http 503 ''MISSION_QUEUE_UNAVAILABLE'')))))))"

definition cancel_args :: transition_args where
  "cancel_args = no_args\<lparr>ta_status_reason := Some ''Cancelled by user request.'', ta_workflow_stage := Some ''CANCELLED''\<rparr>"

definition cancel_requested :: "run_record \<Rightarrow> run_record" where
  "cancel_requested r =
     r\<lparr>rn_metadata := dset ''cancellation_requested'' (MBool True) (rn_metadata r), rn_cancel := True,
       rn_status_reason := Some ''Cancellation requested''\<rparr>"

definition cancel_mission :: "store_kind \<Rightarrow> string \<Rightarrow> string \<Rightarrow> bool \<Rightarrow> http prog" where
  "cancel_mission k i tenant legacy =
     scoped k i tenant legacy (\<lambda>r.
       if rn_status r = CANCELLED then Done (Http 200 ''CANCELLED'')
       else if rn_status r \<notin> set cancellable then Done (Http 409 ''MISSION_NOT_CANCELLABLE'')
       else if rn_status r \<in> set direct_cancellable then
         pbind (apply_transition k i CANCELLED cancel_args) (\<lambda>t.
           if \<not> tr_ok t then Done (Http 409 '''')
           else pbind (log_event k i ''CANCELLED'' ''Mission cancelled by user request.'') (\<lambda>_. Done (Http 200 ''CANCELLED'')))
       else
         pbind (update_run_for_tenant k (cancel_requested r) tenant legacy) (\<lambda>x.
           if x = None then Done not_found
           else pbind (log_event k i (status_name (rn_status r)) ''Cancellation requested'') (\<lambda>_. Done (Http 200 (status_name (rn_status r))))))"

definition retry_args :: "int \<Rightarrow> run_status \<Rightarrow> transition_args" where
  "retry_args n observed =
     no_args\<lparr>ta_status_reason := Some ''Retry queued by user request.'', ta_workflow_stage := Some ''QUEUED'',
       ta_extra := [(''attempt_number'', MInt n), (''cancellation_requested'', MBool False)], ta_expected := Some observed\<rparr>"

definition retry_job :: "string \<Rightarrow> int \<Rightarrow> job" where
  "retry_job i n = \<lparr>jb_id = ''JOB-'' @ i @ ''-RETRY'' @ int_str n, jb_run = i, jb_type = ''ASSURANCE_MISSION_V2''\<rparr>"

text \<open>The second write: the result of the transition with the attempt in its own field.\<close>

definition requeued :: "int \<Rightarrow> int \<Rightarrow> run_record \<Rightarrow> run_record" where
  "requeued now n r = r\<lparr>rn_attempt := n, rn_cancel := False, rn_queued_at := Some now\<rparr>"

definition queue_retry :: "store_kind \<Rightarrow> string \<Rightarrow> string \<Rightarrow> bool \<Rightarrow> int \<Rightarrow> run_record \<Rightarrow> http prog" where
  "queue_retry k i tenant legacy n r =
     pbind (apply_transition k i QUEUED (retry_args n (rn_status r))) (\<lambda>t.
       case tr_record t of
         Some r' \<Rightarrow>
           if \<not> tr_ok t then Done (Http 409 '''')
           else
             pbind utc_now (\<lambda>now.
             pbind (update_run_for_tenant k (requeued now n r') tenant legacy) (\<lambda>_.
             pbind (log_event k i ''QUEUED'' ''Mission retry queued'') (\<lambda>_.
             ptry (pbind (tell (Publish (retry_job i n))) (\<lambda>_. Done (Http 200 ''QUEUED'')))
               (\<lambda>_. Done (Http 503 ''MISSION_QUEUE_UNAVAILABLE'')))))
       | None \<Rightarrow> Done (Http 409 ''''))"

definition retry_mission :: "store_kind \<Rightarrow> string \<Rightarrow> string \<Rightarrow> bool \<Rightarrow> http prog" where
  "retry_mission k i tenant legacy =
     scoped k i tenant legacy (\<lambda>r.
     pbind (lift (is_retryable r)) (\<lambda>ok.
     pbind (lift (attempt_of (rn_metadata r) (rn_attempt r))) (\<lambda>n.
       if \<not> ok then Done (Http 409 ''MISSION_NOT_RETRYABLE'') else queue_retry k i tenant legacy (n + 1) r)))"

definition archive_args :: transition_args where
  "archive_args = no_args\<lparr>ta_workflow_stage := Some ''ARCHIVED'', ta_extra := [(''archived'', MBool True)]\<rparr>"

definition archive_mission :: "store_kind \<Rightarrow> string \<Rightarrow> string \<Rightarrow> bool \<Rightarrow> http prog" where
  "archive_mission k i tenant legacy =
     scoped k i tenant legacy (\<lambda>r.
       if rn_status r \<notin> set archivable \<or> meta_true (dget (rn_metadata r) ''archived'')
       then Done (Http 409 ''MISSION_ARCHIVE_NOT_ALLOWED'')
       else pbind (apply_transition k i ARCHIVED archive_args) (\<lambda>t.
              if tr_ok t then Done (Http 200 ''ARCHIVED'') else Done (Http 409 '''')))"

definition delete_mission :: "store_kind \<Rightarrow> string \<Rightarrow> string \<Rightarrow> bool \<Rightarrow> http prog" where
  "delete_mission k i tenant legacy =
     scoped k i tenant legacy (\<lambda>r.
       if prefix ''RUN-'' i \<and> \<not> prefix ''RUN-DEMO'' i then Done (Http 409 ''MISSION_DELETE_NOT_ALLOWED'')
       else if \<not> is_deletable r then Done (Http 409 ''MISSION_DELETE_NOT_ALLOWED'')
       else pbind (delete_run_for_tenant k i tenant legacy) (\<lambda>b.
              if b then Done (Http 200 ''DELETED'') else Done (Http 409 ''MISSION_DELETE_FAILED'')))"

section \<open>The supervisor's writes (agents/supervisor.py)\<close>

datatype mission_step = Stage string | Checkpoint | Evidence string string | Heartbeat | Boom exn

record script =
  sc_resolve :: "unit res"
  sc_steps :: "mission_step list"
  sc_verdict :: run_status
  sc_decision :: "string option"
  sc_summary :: string
  sc_report :: string
  sc_demo :: bool

definition mark_stage :: "store_kind \<Rightarrow> string \<Rightarrow> string \<Rightarrow> unit prog" where
  "mark_stage k i stage =
     pbind (get_run k i) (\<lambda>x.
     pbind (case x of None \<Rightarrow> Done () | Some r \<Rightarrow> pbind (update_run k (r\<lparr>rn_current_stage := Some stage\<rparr>)) (\<lambda>_. Done ())) (\<lambda>_.
       log_event k i stage ''Stage started''))"

text \<open>\<open>_cancellation_requested\<close>: a failing store does not confirm anything.\<close>

definition wants_cancel :: "run_record option \<Rightarrow> bool" where
  "wants_cancel x =
     (case x of None \<Rightarrow> False | Some r \<Rightarrow> rn_cancel r \<or> meta_true (dget (rn_metadata r) ''cancellation_requested''))"

definition cancellation_requested :: "store_kind \<Rightarrow> string \<Rightarrow> bool prog" where
  "cancellation_requested k i = ptry (pbind (get_run k i) (\<lambda>x. Done (wants_cancel x))) (\<lambda>_. Done False)"

definition honoured_args :: transition_args where
  "honoured_args = no_args\<lparr>ta_status_reason := Some ''Cooperative cancellation honored between stages.'',
     ta_workflow_stage := Some ''CANCELLED''\<rparr>"

definition finalize_cancelled :: "store_kind \<Rightarrow> string \<Rightarrow> string \<Rightarrow> unit prog" where
  "finalize_cancelled k i report =
     pbind (apply_transition k i CANCELLED honoured_args) (\<lambda>t.
     pbind
       (case tr_record t of
          Some r \<Rightarrow> if tr_ok t then pbind (update_run k (r\<lparr>rn_report := Some report\<rparr>)) (\<lambda>_. Done ()) else Done ()
        | None \<Rightarrow> Done ()) (\<lambda>_.
       log_event k i ''CANCELLED'' ''Mission execution stopped''))"

definition record_from_mission :: "string \<Rightarrow> bool \<Rightarrow> int \<Rightarrow> run_record" where
  "record_from_mission i demo now =
     \<lparr>rn_id = i, rn_tenant = None, rn_created_by = None, rn_created_at = now, rn_updated_at = now, rn_status = RUNNING,
      rn_workflow_stage = ''RUNNING'', rn_left = Some ''source_a'', rn_right = None, rn_evidence_refs = [], rn_activity = [],
      rn_metadata = [(''mission_id'', MStr i), (''disposable_sample_run'', MBool demo), (''is_demo_sample'', MBool demo)],
      rn_decision = None, rn_summary = None, rn_report = None, rn_status_reason = None, rn_current_stage = None,
      rn_queued_at = None, rn_started_at = None, rn_completed_at = None, rn_attempt = 1, rn_cancel = False\<rparr>"

definition workflow_stage_of :: "run_status \<Rightarrow> string" where
  "workflow_stage_of s =
     (if s = COMPLETED then ''FINISHED'' else status_name s)"

definition with_result :: "script \<Rightarrow> run_record \<Rightarrow> run_record" where
  "with_result sc r =
     r\<lparr>rn_decision := Some (or_else (sc_decision sc) ''UNKNOWN''), rn_summary := Some (sc_summary sc), rn_report := Some (sc_report sc)\<rparr>"

definition update_mission_record :: "store_kind \<Rightarrow> string \<Rightarrow> script \<Rightarrow> unit prog" where
  "update_mission_record k i sc =
     pbind (get_run k i) (\<lambda>x.
     pbind (if x = None then pbind utc_now (\<lambda>now. create_run k (record_from_mission i (sc_demo sc) now)) else Done ()) (\<lambda>_.
     pbind (apply_transition k i (sc_verdict sc) (no_args\<lparr>ta_workflow_stage := Some (workflow_stage_of (sc_verdict sc))\<rparr>)) (\<lambda>t.
       case tr_record t of
         Some r \<Rightarrow> if tr_ok t then pbind (update_run k (with_result sc r)) (\<lambda>_. Done ()) else Done ()
       | None \<Rightarrow> Done ())))"

text \<open>True: the end was reached; False: a checkpoint saw the request.\<close>

primrec run_steps :: "store_kind \<Rightarrow> string \<Rightarrow> string \<Rightarrow> mission_step list \<Rightarrow> bool prog" where
  "run_steps k i report [] = Done True"
| "run_steps k i report (s # ss) =
     (case s of
        Stage stage \<Rightarrow> pbind (mark_stage k i stage) (\<lambda>_. run_steps k i report ss)
      | Checkpoint \<Rightarrow>
          pbind (cancellation_requested k i) (\<lambda>b.
            if b then pbind (finalize_cancelled k i report) (\<lambda>_. Done False) else run_steps k i report ss)
      | Evidence e title \<Rightarrow>
          pbind (add_evidence k \<lparr>ed_id = e, ed_run = i, ed_title = title\<rparr>) (\<lambda>_. run_steps k i report ss)
      | Heartbeat \<Rightarrow> pbind (touch_heartbeat k i) (\<lambda>_. run_steps k i report ss)
      | Boom e \<Rightarrow> Raise e)"

definition run_mission :: "store_kind \<Rightarrow> string \<Rightarrow> script \<Rightarrow> bool prog" where
  "run_mission k i sc =
     pbind (get_run k i) (\<lambda>x.
     pbind utc_now (\<lambda>now.
     pbind (save_run k (or_else x (record_from_mission i (sc_demo sc) now))) (\<lambda>_.
     pbind (run_steps k i (sc_report sc) (sc_steps sc)) (\<lambda>ended.
       if ended then pbind (update_mission_record k i sc) (\<lambda>_. Done True) else Done False))))"

section \<open>The worker\<close>

definition safe_log :: "store_kind \<Rightarrow> string \<Rightarrow> string \<Rightarrow> string \<Rightarrow> unit prog" where
  "safe_log k i stage msg = ptry (log_event k i stage msg) (\<lambda>_. Done ())"

definition fail_args :: transition_args where
  "fail_args = no_args\<lparr>ta_status_reason := Some ''failure'', ta_workflow_stage := Some ''FAILED'',
     ta_extra := [(''last_error'', MStr ''failure'')]\<rparr>"

definition fail_mission :: "store_kind \<Rightarrow> string \<Rightarrow> bool prog" where
  "fail_mission k i =
     ptry
       (pbind (apply_transition k i FAILED fail_args) (\<lambda>t.
        pbind (safe_log k i ''FAILED'' ''Mission execution failed'') (\<lambda>_. Done (tr_ok t))))
       (\<lambda>_. Done False)"

definition result_of :: "processing_outcome \<Rightarrow> string option \<Rightarrow> bool \<Rightarrow> processing_result" where
  "result_of x d ok = \<lparr>po_outcome = x, po_decision = d, po_write_ok = ok\<rparr>"

definition provenance_stamped :: "job \<Rightarrow> run_record \<Rightarrow> run_record" where
  "provenance_stamped j r =
     r\<lparr>rn_metadata := dset ''execution_provenance'' (MObject ''provenance'') (dset ''job_type'' (MStr (jb_type j)) (rn_metadata r))\<rparr>"

definition supervise :: "store_kind \<Rightarrow> string \<Rightarrow> script \<Rightarrow> processing_result prog" where
  "supervise k i sc =
     ptry
       (pbind (lift (sc_resolve sc)) (\<lambda>_.
        pbind (run_mission k i sc) (\<lambda>ended.
          if ended then Done (result_of SUCCEEDED (Some (or_else (sc_decision sc) ''UNKNOWN'')) True)
          else Done (result_of PO_CANCELLED (Some ''UNKNOWN'') True))))
       (\<lambda>_. pbind (fail_mission k i) (\<lambda>ok. Done (result_of RETRYABLE_FAILURE None ok)))"

definition start_job :: "store_kind \<Rightarrow> job \<Rightarrow> (run_record \<Rightarrow> script res) \<Rightarrow> run_record \<Rightarrow> processing_result prog" where
  "start_job k j mission_of r =
     pbind (ptry (pbind (update_run k (provenance_stamped j r)) (\<lambda>_. Done ())) (\<lambda>_. Done ())) (\<lambda>_.
     pbind (safe_log k (jb_run j) ''RUNNING'' ''EXECUTION_LEASE_ACQUIRED'') (\<lambda>_.
       case mission_of (provenance_stamped j r) of
         Inl e \<Rightarrow> pbind (fail_mission k (jb_run j)) (\<lambda>ok. Done (result_of TERMINAL_INVALID_MESSAGE None ok))
       | Inr sc \<Rightarrow> supervise k (jb_run j) sc))"

definition execute_job :: "store_kind \<Rightarrow> job \<Rightarrow> (run_record \<Rightarrow> script res) \<Rightarrow> processing_result prog" where
  "execute_job k j mission_of =
     pbind (ptry (pbind (acquire_lease k (jb_run j) (jb_id j)) (\<lambda>x. Done (Inr x))) (\<lambda>e. Done (Inl e))) (\<lambda>a.
       case a of
         Inl e \<Rightarrow> Done (result_of RETRYABLE_FAILURE None False)
       | Inr (outcome, x) \<Rightarrow>
           (case (outcome, x) of
              (NOT_FOUND, _) \<Rightarrow> Done (result_of TERMINAL_INVALID_MESSAGE None True)
            | (ALREADY_TERMINAL, Some r) \<Rightarrow>
                pbind (safe_log k (jb_run j) (status_name (rn_status r)) ''Idempotency check'') (\<lambda>_.
                  Done (result_of (if rn_status r = CANCELLED then PO_CANCELLED else DUPLICATE_ALREADY_PROCESSED) None True))
            | (ALREADY_LEASED, _) \<Rightarrow> Done (result_of DUPLICATE_ALREADY_PROCESSED None True)
            | (INVALID_TRANSITION, _) \<Rightarrow> Done (result_of RETRYABLE_FAILURE None True)
            | (ACQUIRED, Some r) \<Rightarrow> start_job k j mission_of r
            | _ \<Rightarrow> Raise (AttributeError ''status'')))"

definition worker_terminal :: "run_status list" where
  "worker_terminal = [COMPLETED, FAILED, NEEDS_REVIEW, CANCELLED, ARCHIVED]"

definition process_job :: "store_kind \<Rightarrow> job \<Rightarrow> (run_record \<Rightarrow> script res) \<Rightarrow> processing_result prog" where
  "process_job k j mission_of =
     (if \<not> prefix ''MIS-'' (jb_run j) then
        pbind (ptry (pbind (get_run k (jb_run j)) (\<lambda>x. Done (Inr x))) (\<lambda>e. Done (Inl e))) (\<lambda>a.
          case a of
            Inl e \<Rightarrow> Done (result_of RETRYABLE_FAILURE None False)
          | Inr x \<Rightarrow>
              (case x of
                 Some r \<Rightarrow>
                   if rn_status r \<in> set worker_terminal then Done (result_of DUPLICATE_ALREADY_PROCESSED None True)
                   else Done (result_of TERMINAL_INVALID_MESSAGE None True)
               | None \<Rightarrow> Done (result_of TERMINAL_INVALID_MESSAGE None True)))
      else if jb_type j \<noteq> ''ASSURANCE_MISSION_V2'' then Done (result_of TERMINAL_INVALID_MESSAGE None True)
      else execute_job k j mission_of)"

text \<open>The push endpoint: a message that does not decode is poison, an escaped exception is not acknowledged.\<close>

definition deliver :: "store_kind \<Rightarrow> job option \<Rightarrow> (run_record \<Rightarrow> script res) \<Rightarrow> nat prog" where
  "deliver k message mission_of =
     (case message of
        None \<Rightarrow> Done (outcome_http_status TERMINAL_INVALID_MESSAGE)
      | Some j \<Rightarrow>
          ptry (pbind (process_job k j mission_of) (\<lambda>r. Done (outcome_http_status (po_outcome r))))
            (\<lambda>_. Done (outcome_http_status RETRYABLE_FAILURE)))"

section \<open>The system\<close>

text \<open>A thread belongs to a store object (\<open>home\<close>), whose fallback it shares with the other threads of
  that object.  The programs a thread may run for \<open>owner\<close>: a new mission is given an id of its own.\<close>

definition silent :: "'a prog \<Rightarrow> unit prog" where
  "silent p = pbind p (\<lambda>_. Done ())"

inductive handler :: "(string \<Rightarrow> string) \<Rightarrow> store_kind \<Rightarrow> unit prog \<Rightarrow> bool" for owner :: "string \<Rightarrow> string" and k :: store_kind where
  create: "handler owner k (silent (create_mission k i (owner i) uid corr q))"
| cancel: "handler owner k (silent (cancel_mission k i tenant legacy))"
| retry: "handler owner k (silent (retry_mission k i tenant legacy))"
| archive: "handler owner k (silent (archive_mission k i tenant legacy))"
| delete: "handler owner k (silent (delete_mission k i tenant legacy))"
| deliver: "handler owner k (silent (deliver k message mission_of))"

record system =
  sy_cloud :: cloud
  sy_mems :: "nat \<Rightarrow> mem_store"
  sy_threads :: "nat \<Rightarrow> unit prog"
  sy_now :: int

definition initial_system :: system where
  "initial_system =
     \<lparr>sy_cloud = \<lparr>cl_runs = [], cl_events = [], cl_evidence = [], cl_jobs = []\<rparr>, sy_mems = (\<lambda>_. empty_mem),
      sy_threads = (\<lambda>_. Done ()), sy_now = 0\<rparr>"

fun thread_step :: "nat \<Rightarrow> nat \<Rightarrow> fault \<Rightarrow> int \<Rightarrow> system \<Rightarrow> system" where
  "thread_step h t f now s =
     (case sy_threads s t of
        Call x k \<Rightarrow>
          (case do_call f now x (sy_cloud s) (sy_mems s h) of
             (r, c, m) \<Rightarrow> s\<lparr>sy_cloud := c, sy_mems := (sy_mems s)(h := m), sy_threads := (sy_threads s)(t := k r), sy_now := now\<rparr>)
      | _ \<Rightarrow> s)"

definition spawn :: "nat \<Rightarrow> unit prog \<Rightarrow> system \<Rightarrow> system" where
  "spawn t p s = s\<lparr>sy_threads := (sy_threads s)(t := p)\<rparr>"

text \<open>A thread makes its next call, or a thread, idle or not (a process may die), starts a new program.\<close>

inductive sys_step :: "(string \<Rightarrow> string) \<Rightarrow> (nat \<Rightarrow> nat) \<Rightarrow> (nat \<Rightarrow> store_kind) \<Rightarrow> system \<Rightarrow> system \<Rightarrow> bool"
  for owner home kind where
  call: "sy_now s \<le> now \<Longrightarrow> sys_step owner home kind s (thread_step (home t) t f now s)"
| start: "handler owner (kind (home t)) p \<Longrightarrow> sys_step owner home kind s (spawn t p s)"
| restart: "sys_step owner home kind s (s\<lparr>sy_mems := (sy_mems s)(h := empty_mem)\<rparr>)"

definition reachable :: "(string \<Rightarrow> string) \<Rightarrow> (nat \<Rightarrow> nat) \<Rightarrow> (nat \<Rightarrow> store_kind) \<Rightarrow> system \<Rightarrow> bool" where
  "reachable owner home kind = (sys_step owner home kind)\<^sup>*\<^sup>* initial_system"

end
