(* ===== verification/MissionInvariants.thy ===== *)
theory MissionInvariants
  imports MissionLifecycle
begin

text \<open>
  What no interleaving, failure or restart can break.  \<open>sat\<close> says of a program that every record
  it writes is good when those it was given are, and that its result has a postcondition;
  the locale \<open>record_invariant\<close> proves it of every handler once, for any property of a record's
  id, tenant and attempt numbers that the edits of the code keep.
\<close>

section \<open>Programs that write good records\<close>

definition gopt :: "(run_record \<Rightarrow> bool) \<Rightarrow> run_record option \<Rightarrow> bool" where
  "gopt G x \<longleftrightarrow> (\<forall>r. x = Some r \<longrightarrow> G r)"

fun call_ok :: "(run_record \<Rightarrow> bool) \<Rightarrow> call \<Rightarrow> bool" where
  "call_ok G (DocSet r) = G r"
| "call_ok G (DocMerge r) = G r"
| "call_ok G (TxnUpdateOwned r tenant legacy) = G r"
| "call_ok G (LocalCreate r) = G r"
| "call_ok G (LocalUpdate r) = G r"
| "call_ok G _ = True"

text \<open>A read by id answers with a record of that id, a write of the fallback with what was written.\<close>

definition asked :: "call \<Rightarrow> run_record \<Rightarrow> bool" where
  "asked c r \<longleftrightarrow> (\<forall>i. c \<in> {DocGet i, LocalGet i} \<longrightarrow> rn_id r = i)
     \<and> (\<forall>x. c = LocalUpdate x \<longrightarrow> rn_metadata r = rn_metadata x)"

fun reply_ok :: "(run_record \<Rightarrow> bool) \<Rightarrow> call \<Rightarrow> reply \<Rightarrow> bool" where
  "reply_ok G c (RRecord x) = gopt (\<lambda>r. G r \<and> asked c r) x"
| "reply_ok G c (RLease y x) = gopt G x"
| "reply_ok G c _ = True"

primrec sat :: "(run_record \<Rightarrow> bool) \<Rightarrow> ('a \<Rightarrow> bool) \<Rightarrow> 'a prog \<Rightarrow> bool" where
  "sat G Q (Done x) = Q x"
| "sat G Q (Raise e) = True"
| "sat G Q (Call c k) = (call_ok G c \<and> (\<forall>r. reply_ok G c r \<longrightarrow> sat G Q (k r)))"

lemma gopt_simps [simp]: "gopt G None" "gopt G (Some r) = G r"
  by (simp_all add: gopt_def)

lemma sat_mono: "sat G Q p \<Longrightarrow> (\<And>x. Q x \<Longrightarrow> R x) \<Longrightarrow> sat G R p"
  by (induction p) auto

lemma sat_bind: "sat G R p \<Longrightarrow> (\<And>x. R x \<Longrightarrow> sat G Q (f x)) \<Longrightarrow> sat G Q (pbind p f)"
  by (induction p) auto

lemma sat_try: "sat G Q p \<Longrightarrow> (\<And>e. sat G Q (h e)) \<Longrightarrow> sat G Q (ptry p h)"
  by (induction p) auto

lemma sat_invoke: "call_ok G c \<Longrightarrow> sat G (reply_ok G c) (invoke c)"
  by (simp add: invoke_def)

lemma sat_lift [simp]: "sat G Q (lift m) \<longleftrightarrow> (\<forall>x. m = Inr x \<longrightarrow> Q x)"
  by (cases m) (simp_all add: lift_def)

lemma sat_tell: "call_ok G c \<Longrightarrow> (\<And>x. Q x) \<Longrightarrow> sat G Q (tell c)"
  unfolding tell_def by (rule sat_bind [OF sat_invoke]) auto

lemma sat_now: "(\<And>x. Q x) \<Longrightarrow> sat G Q utc_now"
  unfolding utc_now_def by (rule sat_bind [OF sat_invoke]) auto

lemma sat_ask_bool: "call_ok G c \<Longrightarrow> (\<And>x. Q x) \<Longrightarrow> sat G Q (ask_bool c)"
  unfolding ask_bool_def by (rule sat_bind [OF sat_invoke]) auto

lemma reply_record_ok: "reply_ok G c r \<Longrightarrow> gopt (\<lambda>r. G r \<and> asked c r) (reply_record r)"
  by (cases r) auto

lemma reply_lease_ok: "reply_ok G c r \<Longrightarrow> gopt G (snd (reply_lease r))"
  by (cases r) auto

lemma sat_ask_by_id: "call_ok G c \<Longrightarrow> sat G (gopt (\<lambda>r. G r \<and> asked c r)) (ask_record c)"
  unfolding ask_record_def by (rule sat_bind [OF sat_invoke]) (auto simp: reply_record_ok)

lemma sat_ask_record: "call_ok G c \<Longrightarrow> sat G (gopt G) (ask_record c)"
  by (rule sat_mono [OF sat_ask_by_id]) (auto simp: gopt_def)

lemma sat_ask_lease: "call_ok G c \<Longrightarrow> sat G (\<lambda>x. gopt G (snd x)) (ask_lease c)"
  unfolding ask_lease_def by (rule sat_bind [OF sat_invoke]) (auto simp: reply_lease_ok)

text \<open>The methods of a store.\<close>

lemma sat_degraded: "sat G Q p \<Longrightarrow> sat G Q (degraded lenient p e)"
  by (simp add: degraded_def)

lemma sat_create_run: "G r \<Longrightarrow> (\<And>x. Q x) \<Longrightarrow> sat G Q (create_run k r)"
  unfolding create_run_def
  by (rule sat_bind [where R = "\<lambda>_. True"]) (auto intro!: sat_tell sat_try sat_degraded split: store_kind.split)

lemma sat_get_run: "sat G (gopt G) (get_run k i)"
proof (cases k)
  case InMemory
  then show ?thesis by (simp add: get_run_def sat_ask_record)
next
  case (Firestore lenient)
  have "sat G (gopt G) (ptry (ask_record (DocGet i)) (degraded lenient (Done None)))"
    by (auto intro!: sat_try sat_degraded sat_ask_record)
  then show ?thesis
    using Firestore by (auto simp: get_run_def intro!: sat_bind [where R = "gopt G"] sat_ask_record split: option.split)
qed

lemma sat_local_get: "sat G (gopt (\<lambda>r. G r \<and> rn_id r = i)) (get_run InMemory i)"
  unfolding get_run_def using sat_ask_by_id [of G "LocalGet i"] by (simp add: asked_def)

lemma sat_update_same: "G r \<Longrightarrow> sat G (\<lambda>x. G x \<and> rn_metadata x = rn_metadata r) (update_run k r)"
  unfolding update_run_def
  by (rule sat_bind [OF sat_ask_by_id])
    (auto simp: Let_def or_else_def asked_def intro!: sat_bind [where R = "\<lambda>_. True"] sat_try sat_degraded sat_tell
      split: store_kind.split option.split)

lemma sat_update_run: "G r \<Longrightarrow> sat G G (update_run k r)"
  by (rule sat_mono [OF sat_update_same]) auto

lemma sat_get_for_tenant: "sat G (gopt G) (get_run_for_tenant k i tenant legacy)"
  unfolding get_run_for_tenant_def by (rule sat_bind [OF sat_get_run]) auto

lemma sat_save_run: "G r \<Longrightarrow> (\<And>x. Q x) \<Longrightarrow> sat G Q (save_run k r)"
  unfolding save_run_def
  by (rule sat_bind [OF sat_get_run]) (auto intro!: sat_bind [OF sat_update_run] sat_create_run)

lemma sat_add_event: "(\<And>x. Q x) \<Longrightarrow> sat G Q (add_event k e)"
  unfolding add_event_def
  by (rule sat_bind [where R = "\<lambda>_. True"]) (auto intro!: sat_tell sat_try sat_degraded split: store_kind.split)

lemma sat_log_event: "(\<And>x. Q x) \<Longrightarrow> sat G Q (log_event k i s t)"
  unfolding log_event_def by (rule sat_add_event)

lemma sat_safe_log: "(\<And>x. Q x) \<Longrightarrow> sat G Q (safe_log k i s t)"
  unfolding safe_log_def by (rule sat_try) (auto intro!: sat_log_event)

lemma sat_add_evidence: "(\<And>x. Q x) \<Longrightarrow> sat G Q (add_evidence k e)"
  unfolding add_evidence_def
  by (rule sat_bind [where R = "\<lambda>_. True"]) (auto intro!: sat_tell sat_try sat_degraded split: store_kind.split)

lemma sat_delete_for_tenant: "(\<And>x. Q x) \<Longrightarrow> sat G Q (delete_run_for_tenant k i tenant legacy)"
  unfolding delete_run_for_tenant_def
  by (cases k)
    (auto intro!: sat_bind [OF sat_get_run] sat_ask_bool sat_try sat_degraded sat_tell sat_bind [OF sat_ask_record]
      sat_bind [where R = "\<lambda>_. True" and p = "tell c" for c] sat_bind [where R = "\<lambda>_. True" and p = "ask_bool c" for c])

lemma sat_acquire_lease: "sat G (\<lambda>x. gopt G (snd x)) (acquire_lease k i j)"
proof (cases k)
  case InMemory
  then show ?thesis by (simp add: acquire_lease_def sat_ask_lease)
next
  case (Firestore lenient)
  have "sat G (\<lambda>x. gopt G (snd x))
     (pbind (ask_lease (TxnLease i j lease_ttl_seconds)) (\<lambda>(x, r).
               case r of None \<Rightarrow> Done (x, None)
               | Some r' \<Rightarrow> pbind (ask_record (LocalUpdate r')) (\<lambda>y. Done (x, y))))"
    by (rule sat_bind [OF sat_ask_lease]) (auto intro!: sat_bind [OF sat_ask_record] split: option.split)
  then show ?thesis using Firestore by (auto simp: acquire_lease_def intro!: sat_try sat_degraded sat_ask_lease)
qed

lemma dget_dpop: "dget (dpop i d) k = (if k = i then None else dget d k)"
  by (induction d) (auto simp: dpop_def)

section \<open>Properties of the identity of a record\<close>

abbreviation attempt_field :: "run_record \<Rightarrow> meta_value option" where
  "attempt_field r \<equiv> dget (rn_metadata r) ''attempt_number''"

definition identity :: "(string \<Rightarrow> string option \<Rightarrow> int \<Rightarrow> meta_value option \<Rightarrow> bool) \<Rightarrow> run_record \<Rightarrow> bool" where
  "identity p r \<longleftrightarrow> p (rn_id r) (rn_tenant r) (rn_attempt r) (attempt_field r)"

text \<open>Edits that keep the identity, and so any property of it.\<close>

lemma identity_lease_taken [simp]: "identity p (lease_taken now j r) = identity p r"
  by (simp add: identity_def lease_taken_def)

lemma metadata_transitioned [simp]: "rn_metadata (transitioned now r target a) = meta_update (rn_metadata r) (ta_extra a)"
  by (simp add: transitioned_def)

lemma identity_transitioned:
  "dget (ta_extra a) ''attempt_number'' = None \<Longrightarrow> identity p (transitioned now r target a) = identity p r"
  by (simp add: identity_def transitioned_def dget_meta_update)

lemma identity_edits [simp]:
  "identity p (cancel_requested r) = identity p r" "identity p (with_result sc r) = identity p r"
  "identity p (provenance_stamped j r) = identity p r" "identity p (queue_failed r) = identity p r"
  "identity p (r\<lparr>rn_current_stage := s\<rparr>) = identity p r" "identity p (r\<lparr>rn_report := s\<rparr>) = identity p r"
  "identity p (r\<lparr>rn_updated_at := t\<rparr>) = identity p r" "identity p (r\<lparr>rn_evidence_refs := es\<rparr>) = identity p r"
  "identity p (r\<lparr>rn_metadata := dset ''last_heartbeat_at'' v (rn_metadata r)\<rparr>) = identity p r"
  by (simp_all add: identity_def cancel_requested_def with_result_def provenance_stamped_def queue_failed_def)

locale record_invariant =
  fixes p :: "string \<Rightarrow> string option \<Rightarrow> int \<Rightarrow> meta_value option \<Rightarrow> bool" and owner :: "string \<Rightarrow> string"
  assumes fresh: "p i (Some (owner i)) 1 (Some (MInt 1))"
    and made: "p i None 1 None"
    and adopt: "p i t n v \<Longrightarrow> p i t' n' v' \<Longrightarrow> p i t n' v'"
    and merge: "p i t n v \<Longrightarrow> p i t' n' None \<Longrightarrow> p i t' n' v"
    and next_attempt: "identity p r \<Longrightarrow> is_retryable r = Inr True \<Longrightarrow> attempt_of (rn_metadata r) (rn_attempt r) = Inr n \<Longrightarrow>
           p i t m v \<Longrightarrow> p i t m (Some (MInt (n + 1))) \<and> p i t (n + 1) (Some (MInt (n + 1)))"

context record_invariant
begin

definition stepped :: "transition_args \<Rightarrow> transition_result \<Rightarrow> bool" where
  "stepped a t \<longleftrightarrow> (\<forall>r. tr_record t = Some r \<longrightarrow> identity p r
     \<and> (tr_ok t \<longrightarrow> (\<exists>m. rn_metadata r = meta_update m (ta_extra a))))"

lemma good_transition:
  assumes "\<And>now r. identity p r \<Longrightarrow> identity p (transitioned now r target a)"
  shows "sat (identity p) (stepped a) (apply_transition k i target a)"
  unfolding apply_transition_def
  by (rule sat_bind [OF sat_get_run])
    (auto intro!: sat_bind [OF sat_update_same] sat_bind [OF sat_now] assms simp: stepped_def split: option.split)

lemma plain_transition:
  "dget (ta_extra a) ''attempt_number'' = None \<Longrightarrow> sat (identity p) (stepped a) (apply_transition k i target a)"
  by (rule good_transition) (simp add: identity_transitioned)

lemma good_update_for_tenant:
  assumes "identity p r"
  shows "sat (identity p) (\<lambda>_. True) (update_run_for_tenant k r tenant legacy)"
proof (cases k)
  case InMemory
  have "sat (identity p) (\<lambda>_. True) (case x of Some old \<Rightarrow> if owned_by x tenant legacy
      then pbind (update_run k (r\<lparr>rn_tenant := rn_tenant old\<rparr>)) (\<lambda>y. Done (Some y)) else Done None | None \<Rightarrow> Done None)"
    if x: "gopt (\<lambda>y. identity p y \<and> rn_id y = rn_id r) x" for x
  proof (cases x)
    case (Some old)
    then have "identity p (r\<lparr>rn_tenant := rn_tenant old\<rparr>)"
      using x assms adopt unfolding identity_def by simp metis
    then show ?thesis using Some by (auto intro!: sat_bind [OF sat_update_run])
  qed simp
  then show ?thesis
    using InMemory by (auto simp: update_run_for_tenant_def intro!: sat_bind [OF sat_local_get [where i = "rn_id r"]])
next
  case (Firestore lenient)
  then show ?thesis
    using assms
    by (auto simp: update_run_for_tenant_def intro!: sat_bind [where R = "gopt (identity p)"] sat_try sat_degraded
        sat_mono [OF sat_ask_record] sat_ask_record split: option.split)
qed

lemma good_retry:
  assumes ok: "identity p r" "is_retryable r = Inr True" "attempt_of (rn_metadata r) (rn_attempt r) = Inr n"
  shows "sat (identity p) (\<lambda>_. True) (queue_retry k i tenant legacy (n + 1) r)"
proof -
  have n: "p j t m v \<Longrightarrow> p j t m (Some (MInt (n + 1))) \<and> p j t (n + 1) (Some (MInt (n + 1)))" for j t m v
    using next_attempt [OF ok] .
  have "identity p (transitioned now x QUEUED (retry_args (n + 1) s))" if "identity p x" for now x s
    using that n by (auto simp: identity_def transitioned_def retry_args_def no_args_def dget_meta_update)
  note step = good_transition [OF this, where k = k and i = i]
  have "identity p (requeued now (n + 1) x)"
    if "stepped (retry_args (n + 1) s) t" "tr_record t = Some x" "tr_ok t" for t x s now
  proof -
    have "attempt_field x = Some (MInt (n + 1))"
      using that by (auto simp: stepped_def retry_args_def no_args_def dget_meta_update)
    moreover have "identity p x" using that by (simp add: stepped_def)
    ultimately show ?thesis using n by (simp add: identity_def requeued_def)
  qed
  then show ?thesis
    unfolding queue_retry_def
    by (intro sat_bind [OF step])
      (auto intro!: sat_bind [OF sat_now] sat_bind [OF good_update_for_tenant] sat_bind [OF sat_log_event] sat_try
        sat_bind [OF sat_tell] split: option.split)
qed

lemma good_scoped:
  "(\<And>r. identity p r \<Longrightarrow> sat (identity p) (\<lambda>_. True) (f r)) \<Longrightarrow> sat (identity p) (\<lambda>_. True) (scoped k i tenant legacy f)"
  unfolding scoped_def by (rule sat_bind [OF sat_get_for_tenant]) (auto split: option.split)

lemmas sat_steps = sat_bind [OF sat_now] sat_bind [OF sat_log_event] sat_bind [OF sat_tell] sat_bind [OF sat_update_run]
  sat_bind [OF sat_save_run] sat_bind [OF sat_safe_log] sat_bind [OF sat_add_evidence] sat_bind [OF sat_create_run]

lemmas plain_args = cancel_args_def archive_args_def honoured_args_def fail_args_def no_args_def

lemma good_create: "sat (identity p) (\<lambda>_. True) (create_mission k i (owner i) uid corr q)"
proof -
  have "identity p (new_mission i (owner i) uid corr q now)" for now
    using fresh by (simp add: identity_def new_mission_def)
  then show ?thesis unfolding create_mission_def Let_def by (auto intro!: sat_steps sat_try)
qed

lemma good_cancel: "sat (identity p) (\<lambda>_. True) (cancel_mission k i tenant legacy)"
  unfolding cancel_mission_def
  by (rule good_scoped)
    (auto intro!: sat_bind [OF plain_transition] sat_bind [OF good_update_for_tenant] sat_steps simp: plain_args)

lemma good_retry_mission: "sat (identity p) (\<lambda>_. True) (retry_mission k i tenant legacy)"
  unfolding retry_mission_def
  by (rule good_scoped) (auto intro!: sat_bind [where R = "\<lambda>x. is_retryable r = Inr x" for r]
      sat_bind [where R = "\<lambda>x. attempt_of (rn_metadata r) (rn_attempt r) = Inr x" for r] good_retry)

lemma good_archive: "sat (identity p) (\<lambda>_. True) (archive_mission k i tenant legacy)"
  unfolding archive_mission_def by (rule good_scoped) (auto intro!: sat_bind [OF plain_transition] simp: plain_args)

lemma good_delete: "sat (identity p) (\<lambda>_. True) (delete_mission k i tenant legacy)"
  unfolding delete_mission_def by (rule good_scoped) (auto intro!: sat_bind [OF sat_delete_for_tenant])

lemma good_mark_stage: "(\<And>x. Q x) \<Longrightarrow> sat (identity p) Q (mark_stage k i stage)"
  unfolding mark_stage_def
  by (rule sat_bind [OF sat_get_run])
    (auto intro!: sat_bind [where R = "\<lambda>_. True"] sat_steps sat_log_event split: option.split)

lemma good_cancellation_requested: "(\<And>x. Q x) \<Longrightarrow> sat (identity p) Q (cancellation_requested k i)"
  unfolding cancellation_requested_def by (rule sat_try) (auto intro!: sat_bind [OF sat_get_run])

lemma good_finalize_cancelled: "(\<And>x. Q x) \<Longrightarrow> sat (identity p) Q (finalize_cancelled k i report)"
  unfolding finalize_cancelled_def
  by (rule sat_bind [OF plain_transition])
    (auto intro!: sat_bind [where R = "\<lambda>_. True"] sat_steps sat_log_event simp: plain_args stepped_def split: option.split)

lemma good_touch_heartbeat: "(\<And>x. Q x) \<Longrightarrow> sat (identity p) Q (touch_heartbeat k i)"
  unfolding touch_heartbeat_def
  by (auto intro!: sat_bind [OF sat_get_run] sat_steps sat_try sat_degraded sat_tell split: store_kind.split option.split)

lemma good_record_from_mission: "identity p (record_from_mission i demo now)"
  using made by (simp add: identity_def record_from_mission_def)

lemma good_steps: "sat (identity p) (\<lambda>_. True) (run_steps k i report ss)"
  by (induction ss)
    (auto intro!: sat_bind [OF good_mark_stage] sat_bind [OF good_cancellation_requested] sat_bind [OF good_finalize_cancelled]
      sat_bind [OF good_touch_heartbeat] sat_steps split: mission_step.split)

lemma good_update_mission_record: "(\<And>x. Q x) \<Longrightarrow> sat (identity p) Q (update_mission_record k i sc)"
  unfolding update_mission_record_def
  by (rule sat_bind [OF sat_get_run], rule sat_bind [where R = "\<lambda>_. True"])
    (auto intro!: sat_steps sat_create_run good_record_from_mission sat_bind [OF plain_transition] 
      simp: plain_args stepped_def split: option.split)

lemma good_run_mission: "sat (identity p) (\<lambda>_. True) (run_mission k i sc)"
  unfolding run_mission_def
  by (rule sat_bind [OF sat_get_run], rule sat_bind [OF sat_now], simp, rule sat_bind [OF sat_save_run])
    (auto intro!: good_record_from_mission sat_bind [OF good_steps] sat_bind [OF good_update_mission_record]
      simp: or_else_def split: option.split)

lemma good_fail_mission: "(\<And>x. Q x) \<Longrightarrow> sat (identity p) Q (fail_mission k i)"
  unfolding fail_mission_def
  by (rule sat_try) (auto intro!: sat_bind [OF plain_transition] sat_steps simp: plain_args)

lemma good_supervise: "sat (identity p) (\<lambda>_. True) (supervise k i sc)"
  unfolding supervise_def
  by (rule sat_try) (auto intro!: sat_bind [where R = "\<lambda>_. True"] good_run_mission good_fail_mission)

lemma good_start_job: "identity p r \<Longrightarrow> sat (identity p) (\<lambda>_. True) (start_job k j mission_of r)"
  unfolding start_job_def
  by (rule sat_bind [where R = "\<lambda>_. True"])
    (auto intro!: sat_try sat_steps sat_bind [OF good_fail_mission] good_supervise split: sum.split)

lemma good_execute_job: "sat (identity p) (\<lambda>_. True) (execute_job k j mission_of)"
  unfolding execute_job_def
  by (rule sat_bind [where R = "\<lambda>a. case a of Inl e \<Rightarrow> True | Inr x \<Rightarrow> gopt (identity p) (snd x)"])
    (auto intro!: sat_try sat_bind [OF sat_acquire_lease] sat_steps good_start_job
      split: sum.splits lease_outcome.splits option.splits)

lemma good_process_job: "sat (identity p) (\<lambda>_. True) (process_job k j mission_of)"
  unfolding process_job_def
  by (auto intro!: sat_bind [where R = "\<lambda>_. True"] sat_try sat_mono [OF sat_get_run] good_execute_job split: sum.split option.split)

lemma good_deliver: "sat (identity p) (\<lambda>_. True) (deliver k message mission_of)"
  unfolding deliver_def by (auto intro!: sat_try sat_bind [OF good_process_job] split: option.split)

lemma good_handler: "handler owner k q \<Longrightarrow> sat (identity p) (\<lambda>_. True) q"
  by (induction rule: handler.induct)
    (auto simp: silent_def intro!: sat_bind [OF good_create] sat_bind [OF good_cancel] sat_bind [OF good_retry_mission]
      sat_bind [OF good_archive] sat_bind [OF good_delete] sat_bind [OF good_deliver])

definition good_runs :: "(string, run_record) dict \<Rightarrow> bool" where
  "good_runs d \<longleftrightarrow> (\<forall>i r. dget d i = Some r \<longrightarrow> rn_id r = i \<and> identity p r)"

lemma good_runs_dset: "good_runs d \<Longrightarrow> identity p r \<Longrightarrow> good_runs (dset (rn_id r) r d)"
  by (simp add: good_runs_def)

lemma good_runs_dpop: "good_runs d \<Longrightarrow> good_runs (dpop i d)"
  by (simp add: good_runs_def dget_dpop)

lemma good_merged:
  assumes "good_runs d" "identity p r"
  shows "identity p (merged (dget d (rn_id r)) r)"
proof (cases "dget d (rn_id r)")
  case (Some old)
  then have old: "rn_id old = rn_id r" "identity p old" using assms(1) by (auto simp: good_runs_def)
  have o: "p (rn_id r) (rn_tenant old) (rn_attempt old) (attempt_field old)" using old by (simp add: identity_def)
  have m: "rn_id (merged (Some old) r) = rn_id r" "rn_tenant (merged (Some old) r) = rn_tenant r"
    "rn_attempt (merged (Some old) r) = rn_attempt r"
    "attempt_field (merged (Some old) r) = (case attempt_field r of None \<Rightarrow> attempt_field old | Some v \<Rightarrow> Some v)"
    by (simp_all add: merged_def dget_meta_update)
  show ?thesis
  proof (cases "attempt_field r")
    case None
    then show ?thesis using merge [OF o] assms(2) m Some by (simp add: identity_def)
  next
    case (Some v)
    then show ?thesis using assms(2) m \<open>dget d (rn_id r) = Some old\<close> by (simp add: identity_def)
  qed
qed (use assms in \<open>simp add: merged_def\<close>)

lemma good_lease:
  assumes "good_runs d" "lease_run now job secs (dget d i) = (x, y)"
  shows "gopt (identity p) y" "y = Some r \<Longrightarrow> rn_id r = i"
proof -
  show "gopt (identity p) y"
    using assms by (cases "dget d i") (auto simp: lease_run_def good_runs_def gopt_def split: if_splits)
  show "y = Some r \<Longrightarrow> rn_id r = i"
    using assms by (cases "dget d i") (auto simp: lease_run_def good_runs_def lease_taken_def split: if_splits)
qed

lemma good_merge_run: "good_runs (cl_runs c) \<Longrightarrow> identity p r \<Longrightarrow> good_runs (cl_runs (merge_run r c))"
  using good_runs_dset [of "cl_runs c" "merged (dget (cl_runs c) (rn_id r)) r"] good_merged
  by (simp add: merge_run_def put_run_def)

lemma good_update_owned:
  assumes "good_runs (cl_runs c)" "identity p a" "update_owned a tenant legacy c = (x, c')"
  shows "good_runs (cl_runs c') \<and> gopt (identity p) x"
proof (cases "dget (cl_runs c) (rn_id a)")
  case (Some old)
  let ?a = "a\<lparr>rn_tenant := rn_tenant old\<rparr>"
  have "rn_id old = rn_id a" "identity p old" using assms(1) Some by (auto simp: good_runs_def)
  then have o: "p (rn_id a) (rn_tenant old) (rn_attempt old) (attempt_field old)" by (simp add: identity_def)
  have "p (rn_id a) (rn_tenant a) (rn_attempt a) (attempt_field a)" using assms(2) by (simp add: identity_def)
  then have a: "identity p ?a" using adopt [OF o] by (simp add: identity_def)
  have "update_owned a tenant legacy c = (if owned_by (Some old) tenant legacy then (Some ?a, merge_run ?a c) else (None, c))"
    by (simp add: update_owned_def Some Let_def)
  then have "x = Some ?a \<and> c' = merge_run ?a c \<or> x = None \<and> c' = c"
    using assms(3) by (metis Pair_inject)
  then show ?thesis using a good_merge_run [OF assms(1) a] assms(1) by (metis gopt_simps)
qed (use assms in \<open>simp add: update_owned_def\<close>)

lemma good_lease_doc:
  assumes "good_runs (cl_runs c)" "lease_doc now i job secs c = ((y, z), c')"
  shows "good_runs (cl_runs c') \<and> gopt (identity p) z"
proof -
  obtain u v where l: "lease_run now job secs (dget (cl_runs c) i) = (u, v)" by fastforce
  show ?thesis
    using assms l good_lease [OF assms(1) l] good_merge_run [OF assms(1)]
    by (cases u; cases v) (auto simp: lease_doc_def)
qed

lemma good_heartbeat_doc:
  assumes "good_runs (cl_runs c)" "heartbeat_doc now i c = (b, c')"
  shows "good_runs (cl_runs c')"
proof (cases "dget (cl_runs c) i")
  case (Some r0)
  let ?r = "r0\<lparr>rn_metadata := dset ''last_heartbeat_at'' (MTime now) (rn_metadata r0)\<rparr>"
  have "identity p ?r" using assms(1) Some by (simp add: good_runs_def)
  then show ?thesis
    using good_runs_dset [OF assms(1), of ?r] assms(2) Some by (auto simp: heartbeat_doc_def put_run_def)
qed (use assms in \<open>simp add: heartbeat_doc_def\<close>)

lemma good_serve:
  assumes "good_runs (cl_runs c)" "call_ok (identity p) x" "serve now x c = (r, c')"
  shows "good_runs (cl_runs c') \<and> reply_ok (identity p) x r"
proof (cases x)
  case (TxnUpdateOwned a tenant legacy)
  obtain y d where "update_owned a tenant legacy c = (y, d)" by fastforce
  then show ?thesis using assms TxnUpdateOwned good_update_owned [of c a tenant legacy y d] by (auto simp: asked_def gopt_def)
next
  case (TxnLease i job secs)
  obtain y z d where "lease_doc now i job secs c = ((y, z), d)" by (metis surj_pair)
  then show ?thesis using assms TxnLease good_lease_doc [of c now i job secs y z d] by (auto simp: answer_lease_def)
next
  case (HeartbeatField i)
  obtain b d where "heartbeat_doc now i c = (b, d)" by fastforce
  then show ?thesis using assms HeartbeatField good_heartbeat_doc [of c now i b d] by auto
next
  case (DocMerge a)
  then show ?thesis using assms good_merge_run [OF assms(1)] by auto
next
  case (TxnDeleteOwned i tenant legacy)
  then show ?thesis using assms good_runs_dpop [OF assms(1)] by (auto simp: delete_owned_def split: if_splits)
next
  case (DocGet i)
  then show ?thesis using assms by (auto simp: good_runs_def gopt_def asked_def)
next
  case (DocSet a)
  then show ?thesis using assms good_runs_dset [OF assms(1)] by (auto simp: put_run_def)
qed (use assms in auto)

lemma good_serve_local:
  assumes "good_runs (ms_runs m)" "call_ok (identity p) x" "serve_local now x m = Some (r, m')"
  shows "good_runs (ms_runs m') \<and> reply_ok (identity p) x r"
proof (cases x)
  case (LocalLease i job secs)
  obtain y z where l: "lease_run now job secs (dget (ms_runs m) i) = (y, z)" by fastforce
  then show ?thesis
    using assms LocalLease good_lease [OF assms(1) l]
    by (cases y; cases z) (auto simp: mem_lease_def answer_lease_def good_runs_def split: if_splits)
next
  case (LocalEvidence e)
  then show ?thesis
    using assms by (auto simp: mem_add_evidence_def good_runs_def split: option.splits if_splits)
qed (use assms in \<open>auto simp: good_runs_def gopt_def asked_def mem_get_def mem_create_def mem_update_def mem_delete_def
      mem_add_event_def dget_dpop Let_def split: if_splits\<close>)

lemma good_do_call:
  assumes "good_runs (cl_runs c)" "good_runs (ms_runs m)" "call_ok (identity p) x" "do_call f now x c m = (r, c', m')"
  shows "good_runs (cl_runs c') \<and> good_runs (ms_runs m') \<and> reply_ok (identity p) x r"
proof (cases "serve_local now x m")
  case (Some a)
  then obtain y d where "serve_local now x m = Some (y, d)" by (cases a) auto
  then show ?thesis using assms good_serve_local [OF assms(2,3)] by (auto simp: do_call_def)
next
  case None
  obtain y d where s: "serve now x c = (y, d)" by fastforce
  show ?thesis using assms None s good_serve [OF assms(1,3) s] by (cases f) (auto simp: do_call_def)
qed

definition good_system :: "system \<Rightarrow> bool" where
  "good_system s \<longleftrightarrow> good_runs (cl_runs (sy_cloud s)) \<and> (\<forall>h. good_runs (ms_runs (sy_mems s h)))
     \<and> (\<forall>t. sat (identity p) (\<lambda>_. True) (sy_threads s t))"

lemma good_thread_step:
  assumes "good_system s"
  shows "good_system (thread_step h t f now s)"
proof (cases "sy_threads s t")
  case (Call x k)
  obtain r c' m' where d: "do_call f now x (sy_cloud s) (sy_mems s h) = (r, c', m')" by (metis surj_pair)
  have x: "call_ok (identity p) x" "reply_ok (identity p) x r \<Longrightarrow> sat (identity p) (\<lambda>_. True) (k r)"
    using assms Call unfolding good_system_def by (metis sat.simps(3))+
  have "good_runs (cl_runs c') \<and> good_runs (ms_runs m') \<and> reply_ok (identity p) x r"
    using good_do_call [OF _ _ x(1) d] assms by (simp add: good_system_def)
  then show ?thesis using assms Call d x(2) by (simp add: good_system_def)
qed (use assms in simp_all)

lemma good_step: "sys_step owner home kind s s' \<Longrightarrow> good_system s \<Longrightarrow> good_system s'"
proof (induction rule: sys_step.induct)
  case (call s now t f)
  show ?case by (rule good_thread_step [OF call(2)])
next
  case (start t q s)
  then show ?case using good_handler by (simp add: good_system_def spawn_def)
next
  case (restart s h)
  then show ?case by (simp add: good_system_def good_runs_def empty_mem_def)
qed

lemma good_reachable:
  assumes "reachable owner home kind s"
  shows "good_system s"
  using assms unfolding reachable_def
proof (induction rule: rtranclp_induct)
  case base
  show ?case by (simp add: good_system_def initial_system_def good_runs_def empty_mem_def)
next
  case (step s s')
  then show ?case by (blast intro: good_step)
qed

lemma reachable_record:
  assumes "reachable owner home kind s" "dget (cl_runs (sy_cloud s)) i = Some r"
  shows "rn_id r = i \<and> p i (rn_tenant r) (rn_attempt r) (attempt_field r)"
  using good_reachable [OF assms(1)] assms(2) unfolding good_system_def good_runs_def identity_def by blast

end

text \<open>The attempt number.\<close>

definition attempts_bounded :: "string \<Rightarrow> string option \<Rightarrow> int \<Rightarrow> meta_value option \<Rightarrow> bool" where
  "attempts_bounded i t n v \<longleftrightarrow> 1 \<le> n \<and> n \<le> max_retry_attempts
     \<and> (case v of None \<Rightarrow> n < max_retry_attempts | Some (MInt a) \<Rightarrow> 1 \<le> a \<and> a \<le> max_retry_attempts | _ \<Rightarrow> False)"

definition tenant_fixed :: "(string \<Rightarrow> string) \<Rightarrow> string \<Rightarrow> string option \<Rightarrow> int \<Rightarrow> meta_value option \<Rightarrow> bool" where
  "tenant_fixed owner i t n v \<longleftrightarrow> t = None \<or> t = Some (owner i)"

interpretation attempts: record_invariant attempts_bounded owner for owner
  by unfold_locales
    (auto simp: attempts_bounded_def identity_def is_retryable_def attempt_of_def max_retry_attempts_def Let_def rbind_Inr_iff
      split: option.splits meta_value.splits if_splits)

interpretation tenants: record_invariant "tenant_fixed owner" owner for owner
  by unfold_locales (auto simp: tenant_fixed_def)

end
