(* ===== verification/MissionTheorems.thy ===== *)
theory MissionTheorems
  imports MissionInvariants
begin

text \<open>The properties of the mission life cycle: what holds in every interleaving (attempts, tenants),
  what holds of an operation that is not interrupted (legal changes of status, offered actions,
  redelivery), the ledger of stages, and two interleavings that break what the transition policy
  promises.
\<close>

section \<open>Programs run alone\<close>

lemma run_bind:
  "run_calls now (pbind p f) c m =
     (case run_calls now p c m of (Inl e, c', m') \<Rightarrow> (Inl e, c', m') | (Inr x, c', m') \<Rightarrow> run_calls now (f x) c' m')"
  by (induction p arbitrary: c m) (auto split: prod.splits)

lemma run_try:
  "run_calls now (ptry p h) c m =
     (case run_calls now p c m of (Inl e, c', m') \<Rightarrow> run_calls now (h e) c' m' | (Inr x, c', m') \<Rightarrow> (Inr x, c', m'))"
  by (induction p arbitrary: c m) (auto split: prod.splits)

definition kept :: "store_kind \<Rightarrow> string \<Rightarrow> cloud \<Rightarrow> mem_store \<Rightarrow> run_record option" where
  "kept k i c m = (case k of InMemory \<Rightarrow> dget (ms_runs m) i | Firestore l \<Rightarrow> or_keep (dget (cl_runs c) i) (dget (ms_runs m) i))"

lemmas run_prims = run_bind run_try invoke_def do_call_def ask_record_def ask_bool_def ask_lease_def tell_def utc_now_def

lemma run_now [simp]: "run_calls now utc_now c m = (Inr now, c, m)"
  by (simp add: run_prims)

lemma run_lift [simp]: "run_calls now (lift x) c m = (x, c, m)"
  by (cases x) (simp_all add: lift_def)

lemma run_get [simp]: "run_calls now (get_run (Firestore l) i) c m = (Inr (or_keep (dget (cl_runs c) i) (dget (ms_runs m) i)), c, m)"
  by (cases "dget (cl_runs c) i") (simp_all add: get_run_def run_prims or_keep_def mem_get_def)

lemma run_update [simp]:
  "run_calls now (update_run (Firestore l) r) c m =
     (Inr (r\<lparr>rn_updated_at := now\<rparr>), merge_run (r\<lparr>rn_updated_at := now\<rparr>) c, snd (mem_update now r m))"
  by (simp add: update_run_def run_prims mem_update_def or_else_def Let_def)

lemma run_log [simp]:
  "run_calls now (log_event (Firestore l) i st t) c m =
     (Inr (), c\<lparr>cl_events := cl_events c @ [\<lparr>ev_run = i, ev_stage = st, ev_action = t\<rparr>]\<rparr>,
      mem_add_event \<lparr>ev_run = i, ev_stage = st, ev_action = t\<rparr> m)"
  by (simp add: log_event_def add_event_def run_prims)

lemma run_safe_log [simp]:
  "run_calls now (safe_log (Firestore l) i st t) c m =
     (Inr (), c\<lparr>cl_events := cl_events c @ [\<lparr>ev_run = i, ev_stage = st, ev_action = t\<rparr>]\<rparr>,
      mem_add_event \<lparr>ev_run = i, ev_stage = st, ev_action = t\<rparr> m)"
  by (simp add: safe_log_def run_try)

lemma run_transition:
  "run_calls now (apply_transition (Firestore l) i target a) c m =
     (case or_keep (dget (cl_runs c) i) (dget (ms_runs m) i) of
        None \<Rightarrow> (Inr \<lparr>tr_ok = False, tr_record = None, tr_error = Some RunNotFound\<rparr>, c, m)
      | Some r \<Rightarrow>
          (case transition_error_of r target a of
             Some e \<Rightarrow> (Inr \<lparr>tr_ok = False, tr_record = Some r, tr_error = Some e\<rparr>, c, m)
           | None \<Rightarrow>
               (let r' = (transitioned now r target a)\<lparr>rn_updated_at := now\<rparr> in
                (Inr \<lparr>tr_ok = True, tr_record = Some r', tr_error = None\<rparr>, merge_run r' c,
                 snd (mem_update now (transitioned now r target a) m)))))"
  by (auto simp: apply_transition_def run_bind Let_def split: option.splits)

lemma run_event [simp]: "cl_runs (c\<lparr>cl_events := es\<rparr>) = cl_runs c"
  by simp

section \<open>Changes of status\<close>

definition status_step :: "run_status \<Rightarrow> run_status \<Rightarrow> bool" where
  "status_step s t \<longleftrightarrow> s = t \<or> t \<in> set (allowed_transitions s)"

definition legal :: "cloud \<Rightarrow> cloud \<Rightarrow> bool" where
  "legal c c' \<longleftrightarrow> (\<forall>i r. dget (cl_runs c) i = Some r \<longrightarrow>
     (case dget (cl_runs c') i of None \<Rightarrow> is_deletable r | Some r' \<Rightarrow> status_step (rn_status r) (rn_status r')))"

definition still :: "cloud \<Rightarrow> cloud \<Rightarrow> bool" where
  "still c c' \<longleftrightarrow> (\<forall>i. map_option rn_status (dget (cl_runs c') i) = map_option rn_status (dget (cl_runs c) i))"

definition keyed :: "(string, run_record) dict \<Rightarrow> bool" where
  "keyed d \<longleftrightarrow> (\<forall>i r. dget d i = Some r \<longrightarrow> rn_id r = i)"

lemma legal_same: "cl_runs c' = cl_runs c \<Longrightarrow> legal c c'"
  by (simp add: legal_def status_step_def split: option.split)

lemma legal_still: "legal c c' \<Longrightarrow> still c' c'' \<Longrightarrow> legal c c''"
  unfolding legal_def still_def
  by (smt (verit) None_eq_map_option_iff map_option_eq_Some option.case_eq_if option.collapse option.sel)

lemma merged_status [simp]: "rn_status (merged x r) = rn_status r" "rn_id (merged x r) = rn_id r"
  by (cases x; simp add: merged_def)+

lemma dget_merge_run: "dget (cl_runs (merge_run r c)) i = (if i = rn_id r then Some (merged (dget (cl_runs c) i) r) else dget (cl_runs c) i)"
  by (simp add: merge_run_def put_run_def)

lemma legal_merge:
  assumes "\<And>old. dget (cl_runs c) (rn_id r) = Some old \<Longrightarrow> status_step (rn_status old) (rn_status r)"
  shows "legal c (merge_run r c)"
  using assms by (auto simp: legal_def dget_merge_run status_step_def split: option.split)

lemma still_merge: "map_option rn_status (dget (cl_runs c) (rn_id r)) = Some (rn_status r) \<Longrightarrow> still c (merge_run r c)"
  by (auto simp: still_def dget_merge_run)

lemma transition_fields [simp]:
  "rn_id (transitioned now r target a) = rn_id r" "rn_status (transitioned now r target a) = target"
  "rn_tenant (transitioned now r target a) = rn_tenant r"
  by (simp_all add: transitioned_def)

lemma keyed_kept: "keyed (cl_runs c) \<Longrightarrow> keyed (ms_runs m) \<Longrightarrow> or_keep (dget (cl_runs c) i) (dget (ms_runs m) i) = Some r \<Longrightarrow> rn_id r = i"
  by (auto simp: keyed_def or_keep_def split: option.splits)

text \<open>A transition that is made is one of the graph; whatever follows on the record keeps its status.\<close>

lemma run_transition_legal:
  assumes "keyed (cl_runs c)" "keyed (ms_runs m)"
    and run: "run_calls now (apply_transition (Firestore l) i target a) c m = (x, c', m')"
  obtains t where "x = Inr t" "legal c c'" "tr_ok t \<Longrightarrow> \<exists>r. tr_record t = Some r \<and> rn_id r = i \<and> rn_status r = target
      \<and> (\<exists>r'. dget (cl_runs c') i = Some r' \<and> rn_status r' = target \<and> rn_tenant r' = rn_tenant r)"
    "tr_record t = None \<Longrightarrow> \<not> tr_ok t"
proof (cases "or_keep (dget (cl_runs c) i) (dget (ms_runs m) i)")
  case None
  then show ?thesis using run that by (auto simp: run_transition legal_same)
next
  case (Some r)
  have i: "rn_id r = i" using keyed_kept [OF assms(1,2) Some] .
  show ?thesis
  proof (cases "transition_error_of r target a")
    case None
    let ?r = "(transitioned now r target a)\<lparr>rn_updated_at := now\<rparr>"
    have x: "x = Inr \<lparr>tr_ok = True, tr_record = Some ?r, tr_error = None\<rparr>" "c' = merge_run ?r c"
      using run Some None by (simp_all add: run_transition Let_def)
    have "status_step (rn_status r) target"
      using None by (auto simp: transition_error_of_def validate_transition_def status_step_def split: if_splits)
    then have "legal c c'"
      using Some i unfolding x(2) by (intro legal_merge) (auto simp: or_keep_def split: option.splits)
    moreover have "dget (cl_runs c') i = Some (merged (dget (cl_runs c) i) ?r)"
      using i by (simp add: x(2) dget_merge_run)
    moreover have "rn_tenant (merged (dget (cl_runs c) i) ?r) = rn_tenant ?r"
      by (simp add: merged_def split: option.split)
    ultimately show ?thesis using that [OF x(1)] i by simp
  next
    case (Some e)
    then show ?thesis using run \<open>or_keep _ _ = Some r\<close> that by (auto simp: run_transition legal_same)
  qed
qed

lemma legal_refl [simp]: "legal c c"
  by (simp add: legal_same)

lemma legal_events [simp]: "legal c (c'\<lparr>cl_events := es\<rparr>) = legal c c'" "legal c (c'\<lparr>cl_jobs := js\<rparr>) = legal c c'"
  "legal c (c'\<lparr>cl_evidence := vs\<rparr>) = legal c c'"
  by (simp_all add: legal_def)

lemma run_get_for_tenant [simp]:
  "run_calls now (get_run_for_tenant (Firestore l) i tenant legacy) c m =
     (let x = or_keep (dget (cl_runs c) i) (dget (ms_runs m) i) in (Inr (if owned_by x tenant legacy then x else None), c, m))"
  by (simp add: get_run_for_tenant_def run_bind Let_def)

lemma run_scoped:
  "run_calls now (scoped (Firestore l) i tenant legacy f) c m =
     (case or_keep (dget (cl_runs c) i) (dget (ms_runs m) i) of
        Some r \<Rightarrow> if owned_by (Some r) tenant legacy then run_calls now (f r) c m else (Inr not_found, c, m)
      | None \<Rightarrow> (Inr not_found, c, m))"
  by (auto simp: scoped_def run_bind Let_def owned_by_def split: option.split)

lemma run_update_for_tenant:
  "run_calls now (update_run_for_tenant (Firestore l) r tenant legacy) c m =
     (case update_owned r tenant legacy c of
        (None, c') \<Rightarrow> (Inr None, c', m)
      | (Some s, c') \<Rightarrow> (Inr (Some (s\<lparr>rn_updated_at := now\<rparr>)), c', snd (mem_update now s m)))"
  by (auto simp: update_run_for_tenant_def run_prims mem_update_def Let_def split: prod.split option.split)

lemma update_owned_still:
  assumes "update_owned r tenant legacy c = (x, c')" "dget (cl_runs c) (rn_id r) = Some r0" "rn_status r0 = rn_status r"
  shows "still c c'"
proof -
  have "still c (merge_run (r\<lparr>rn_tenant := rn_tenant r0\<rparr>) c)" by (rule still_merge) (simp add: assms)
  then show ?thesis using assms by (auto simp: update_owned_def Let_def still_def split: if_splits)
qed

lemma update_owned_other:
  assumes "update_owned r tenant legacy c = (x, c')" "dget (cl_runs c) (rn_id r) = None"
  shows "c' = c \<and> x = None"
  using assms by (simp add: update_owned_def)

lemma dget_dpop_runs: "dget (cl_runs (c\<lparr>cl_runs := dpop i (cl_runs c)\<rparr>)) j = (if j = i then None else dget (cl_runs c) j)"
  by (simp add: dget_dpop)

lemma run_delete_for_tenant:
  "run_calls now (delete_run_for_tenant (Firestore l) i tenant legacy) c m =
     (if owned_by (dget (cl_runs c) i) tenant legacy
      then (Inr True,
            c\<lparr>cl_runs := dpop i (cl_runs c), cl_events := filter (\<lambda>e. ev_run e \<noteq> i) (cl_events c),
              cl_evidence := filter (\<lambda>e. ed_run e \<noteq> i) (cl_evidence c)\<rparr>, snd (mem_delete i m))
      else (Inr False, c, m))"
  by (auto simp: delete_run_for_tenant_def run_prims delete_owned_def mem_delete_def dget_dpop)

lemma run_acquire:
  "run_calls now (acquire_lease (Firestore l) i job) c m =
     (case lease_doc now i job lease_ttl_seconds c of
        ((x, None), c') \<Rightarrow> (Inr (x, None), c', m)
      | ((x, Some r), c') \<Rightarrow> (Inr (x, Some (r\<lparr>rn_updated_at := now\<rparr>)), c', snd (mem_update now r m)))"
  by (auto simp: acquire_lease_def run_prims answer_lease_def mem_update_def Let_def split: prod.split option.split)

text \<open>The lease moves a mission that is not terminal to RUNNING without asking the graph.\<close>

definition leased :: "string \<Rightarrow> cloud \<Rightarrow> cloud \<Rightarrow> bool" where
  "leased i c c' \<longleftrightarrow> (\<exists>r r'. dget (cl_runs c) i = Some r \<and> rn_status r \<notin> set terminal_statuses
     \<and> dget (cl_runs c') i = Some r' \<and> rn_status r' = RUNNING \<and> (\<forall>j. j \<noteq> i \<longrightarrow> dget (cl_runs c') j = dget (cl_runs c) j))"

lemma lease_doc_acquired:
  assumes "dget (cl_runs c) i = Some r" "rn_id r = i" "rn_status r \<notin> set terminal_statuses"
    and "\<not> (rn_status r = RUNNING \<and> heartbeat_fresh now secs (rn_metadata r))"
  shows "lease_doc now i job secs c = ((ACQUIRED, Some (lease_taken now job r)), merge_run (lease_taken now job r) c)"
  using assms by (auto simp: lease_doc_def lease_run_def)

lemma lease_doc_leased:
  assumes "keyed (cl_runs c)" "lease_doc now i job secs c = (x, c')"
  shows "c' = c \<or> leased i c c'"
proof (cases "dget (cl_runs c) i")
  case (Some r)
  have i: "rn_id r = i" using assms(1) Some by (simp add: keyed_def)
  show ?thesis
  proof (cases "rn_status r \<in> set terminal_statuses \<or> rn_status r = RUNNING \<and> heartbeat_fresh now secs (rn_metadata r)")
    case True
    then show ?thesis using assms(2) Some by (auto simp: lease_doc_def lease_run_def split: if_splits)
  next
    case False
    then have "c' = merge_run (lease_taken now job r) c" using assms(2) lease_doc_acquired [OF Some i] by simp
    then show ?thesis using Some False i by (auto simp: leased_def dget_merge_run lease_taken_def)
  qed
qed (use assms in \<open>simp add: lease_doc_def lease_run_def\<close>)

section \<open>The operations\<close>

inductive operation :: "store_kind \<Rightarrow> unit prog \<Rightarrow> bool" for k where
  "operation k (silent (cancel_mission k i tenant legacy))"
| "operation k (silent (retry_mission k i tenant legacy))"
| "operation k (silent (archive_mission k i tenant legacy))"
| "operation k (silent (delete_mission k i tenant legacy))"
| "operation k (silent (acquire_lease k i job))"
| "operation k (mark_stage k i stage)"
| "operation k (silent (cancellation_requested k i))"
| "operation k (finalize_cancelled k i report)"
| "operation k (touch_heartbeat k i)"
| "operation k (update_mission_record k i sc)"
| "operation k (silent (fail_mission k i))"

lemma run_silent: "run_calls now (silent p) c m = (x, c', m') \<Longrightarrow> \<exists>y. run_calls now p c m = (y, c', m')"
  by (auto simp: silent_def run_bind split: prod.splits sum.splits)

lemma cancel_legal:
  assumes keys: "keyed (cl_runs c)" "keyed (ms_runs m)"
    and run: "run_calls now (cancel_mission (Firestore l) i tenant legacy) c m = (x, c', m')"
  shows "legal c c'"
proof (cases "or_keep (dget (cl_runs c) i) (dget (ms_runs m) i)")
  case None
  then show ?thesis using run by (auto simp: cancel_mission_def run_scoped legal_same)
next
  case (Some r)
  have i: "rn_id r = i" using keyed_kept [OF keys Some] .
  obtain t c1 m1 where t: "run_calls now (apply_transition (Firestore l) i CANCELLED cancel_args) c m = (Inr t, c1, m1)" "legal c c1"
    by (metis run_transition_legal [OF keys] surj_pair)
  obtain y c2 where u: "update_owned (cancel_requested r) tenant legacy c = (y, c2)" by fastforce
  have e: "rn_id (cancel_requested r) = i" "rn_status (cancel_requested r) = rn_status r"
    using i by (simp_all add: cancel_requested_def)
  have "legal c c2"
  proof (cases "dget (cl_runs c) i")
    case None
    then show ?thesis using update_owned_other [OF u] e by (simp add: legal_same)
  next
    case (Some r0)
    then have "r0 = r" using \<open>or_keep _ _ = Some r\<close> by (simp add: or_keep_def)
    then show ?thesis using legal_still [OF legal_same update_owned_still [OF u]] e Some by auto
  qed
  then show ?thesis
    using run Some t u
    by (auto simp: cancel_mission_def run_scoped run_bind run_update_for_tenant split: if_splits option.splits)
qed

lemma archive_legal:
  assumes keys: "keyed (cl_runs c)" "keyed (ms_runs m)"
    and run: "run_calls now (archive_mission (Firestore l) i tenant legacy) c m = (x, c', m')"
  shows "legal c c'"
proof -
  obtain t c1 m1 where t: "run_calls now (apply_transition (Firestore l) i ARCHIVED archive_args) c m = (Inr t, c1, m1)" "legal c c1"
    by (metis run_transition_legal [OF keys] surj_pair)
  then show ?thesis
    using run by (auto simp: archive_mission_def run_scoped run_bind split: if_splits option.splits)
qed

lemma retry_legal:
  assumes keys: "keyed (cl_runs c)" "keyed (ms_runs m)"
    and run: "run_calls now (retry_mission (Firestore l) i tenant legacy) c m = (x, c', m')"
  shows "legal c c'"
proof -
  have queue: "legal c c2" if q: "run_calls now (queue_retry (Firestore l) i tenant legacy n r) c m = (y, c2, m2)" for n r y c2 m2
  proof -
    obtain t c1 m1 where t: "run_calls now (apply_transition (Firestore l) i QUEUED (retry_args n (rn_status r))) c m = (Inr t, c1, m1)"
      "legal c c1" "tr_ok t \<Longrightarrow> \<exists>r. tr_record t = Some r \<and> rn_id r = i \<and> rn_status r = QUEUED
        \<and> (\<exists>r'. dget (cl_runs c1) i = Some r' \<and> rn_status r' = QUEUED \<and> rn_tenant r' = rn_tenant r)"
      by (metis run_transition_legal [OF keys] surj_pair)
    show ?thesis
    proof (cases "tr_ok t")
      case True
      then obtain r1 r2 where r: "tr_record t = Some r1" "rn_id r1 = i" "rn_status r1 = QUEUED" "dget (cl_runs c1) i = Some r2" "rn_status r2 = QUEUED"
        using t(3) by blast
      obtain z c3 where u: "update_owned (requeued now n r1) tenant legacy c1 = (z, c3)" by fastforce
      have s: "dget (cl_runs c1) (rn_id (requeued now n r1)) = Some r2" "rn_status r2 = rn_status (requeued now n r1)"
        using r by (simp_all add: requeued_def)
      have "still c1 c3" by (rule update_owned_still [OF u s])
      then have "legal c c3" using legal_still [OF t(2)] by blast
      then show ?thesis
        using q t(1) True r(1) u by (auto simp: queue_retry_def run_bind run_update_for_tenant run_prims split: option.splits)
    qed (use q t in \<open>auto simp: queue_retry_def run_bind split: option.splits\<close>)
  qed
  show ?thesis
  proof (cases "or_keep (dget (cl_runs c) i) (dget (ms_runs m) i)")
    case (Some r)
    then show ?thesis
      using run queue by (auto simp: retry_mission_def run_scoped run_bind split: if_splits sum.splits)
  qed (use run in \<open>auto simp: retry_mission_def run_scoped\<close>)
qed

lemma delete_legal:
  assumes keys: "keyed (cl_runs c)" "keyed (ms_runs m)"
    and run: "run_calls now (delete_mission (Firestore l) i tenant legacy) c m = (x, c', m')"
  shows "legal c c'"
proof (cases "or_keep (dget (cl_runs c) i) (dget (ms_runs m) i)")
  case (Some r)
  have "legal c (c\<lparr>cl_runs := dpop i (cl_runs c)\<rparr>)" if "is_deletable r"
    using Some that by (auto simp: legal_def dget_dpop or_keep_def status_step_def split: option.splits)
  then have "legal c (c\<lparr>cl_runs := dpop i (cl_runs c), cl_events := es, cl_evidence := vs\<rparr>)" if "is_deletable r" for es vs
    using that by (simp add: legal_def)
  then show ?thesis
    using run Some by (auto simp: delete_mission_def run_scoped run_bind run_delete_for_tenant split: if_splits)
qed (use run in \<open>auto simp: delete_mission_def run_scoped\<close>)

lemma acquire_leased:
  assumes "keyed (cl_runs c)" and run: "run_calls now (acquire_lease (Firestore l) i job) c m = (x, c', m')"
  shows "c' = c \<or> leased i c c'"
proof -
  obtain y c1 where "lease_doc now i job lease_ttl_seconds c = (y, c1)" by fastforce
  then show ?thesis
    using run lease_doc_leased [OF assms(1), of now i job lease_ttl_seconds y c1]
    by (cases y) (auto simp: run_acquire split: option.splits)
qed

text \<open>A record read and written back with its status.\<close>

lemma write_back:
  assumes "keyed (cl_runs c)" "keyed (ms_runs m)" "or_keep (dget (cl_runs c) i) (dget (ms_runs m) i) = Some r"
    and "rn_id r' = rn_id r" "rn_status r' = rn_status r"
  shows "legal c (merge_run r' c)"
proof (rule legal_merge)
  fix old assume "dget (cl_runs c) (rn_id r') = Some old"
  then have "old = r" using assms keyed_kept [OF assms(1-3)] by (simp add: or_keep_def)
  then show "status_step (rn_status old) (rn_status r')" using assms(5) by (simp add: status_step_def)
qed

lemma mark_stage_legal:
  assumes keys: "keyed (cl_runs c)" "keyed (ms_runs m)"
    and run: "run_calls now (mark_stage (Firestore l) i stage) c m = (x, c', m')"
  shows "legal c c'"
proof (cases "or_keep (dget (cl_runs c) i) (dget (ms_runs m) i)")
  case (Some r)
  then show ?thesis
    using run write_back [OF keys Some, of "r\<lparr>rn_current_stage := Some stage, rn_updated_at := now\<rparr>"]
    by (auto simp: mark_stage_def run_bind)
qed (use run in \<open>auto simp: mark_stage_def run_bind\<close>)

lemma heartbeat_legal:
  assumes "keyed (cl_runs c)" and run: "run_calls now (touch_heartbeat (Firestore l) i) c m = (x, c', m')"
  shows "legal c c'"
proof (cases "dget (cl_runs c) i")
  case (Some r)
  let ?r = "r\<lparr>rn_metadata := dset ''last_heartbeat_at'' (MTime now) (rn_metadata r)\<rparr>"
  have "legal c (put_run ?r c)"
    using Some assms(1) by (auto simp: legal_def put_run_def keyed_def status_step_def split: option.split)
  then show ?thesis
    using run Some by (auto simp: touch_heartbeat_def run_prims heartbeat_doc_def)
qed (use run in \<open>auto simp: touch_heartbeat_def run_prims heartbeat_doc_def degraded_def split: if_splits\<close>)

text \<open>A transition, and a write of its result.\<close>

lemma transition_write_legal:
  assumes keys: "keyed (cl_runs c)" "keyed (ms_runs m)"
    and run: "run_calls now (apply_transition (Firestore l) i target a) c m = (Inr t, c1, m1)"
    and "tr_record t = Some r" "tr_ok t" "rn_id r' = rn_id r" "rn_status r' = rn_status r"
  shows "legal c (merge_run r' c1)"
proof -
  obtain t' where t: "t' = t" "legal c c1" "tr_ok t' \<Longrightarrow> \<exists>r. tr_record t' = Some r \<and> rn_id r = i \<and> rn_status r = target
      \<and> (\<exists>r'. dget (cl_runs c1) i = Some r' \<and> rn_status r' = target \<and> rn_tenant r' = rn_tenant r)"
    using run_transition_legal [OF keys run] by (metis sum.inject(2))
  have "still c1 (merge_run r' c1)" using t assms(4-7) by (intro still_merge) auto
  then show ?thesis using legal_still [OF t(2)] by blast
qed

lemma finalize_cancelled_legal:
  assumes keys: "keyed (cl_runs c)" "keyed (ms_runs m)"
    and run: "run_calls now (finalize_cancelled (Firestore l) i report) c m = (x, c', m')"
  shows "legal c c'"
proof -
  obtain t c1 m1 where t: "run_calls now (apply_transition (Firestore l) i CANCELLED honoured_args) c m = (Inr t, c1, m1)" "legal c c1"
    by (metis run_transition_legal [OF keys] surj_pair)
  show ?thesis
  proof (cases "tr_record t")
    case (Some r)
    then show ?thesis
      using run t transition_write_legal [OF keys t(1) Some, of "r\<lparr>rn_report := Some report, rn_updated_at := now\<rparr>"]
      by (auto simp: finalize_cancelled_def run_bind split: if_splits)
  qed (use run t in \<open>auto simp: finalize_cancelled_def run_bind\<close>)
qed

lemma fail_mission_legal:
  assumes keys: "keyed (cl_runs c)" "keyed (ms_runs m)"
    and run: "run_calls now (fail_mission (Firestore l) i) c m = (x, c', m')"
  shows "legal c c'"
proof -
  obtain t c1 m1 where t: "run_calls now (apply_transition (Firestore l) i FAILED fail_args) c m = (Inr t, c1, m1)" "legal c c1"
    by (metis run_transition_legal [OF keys] surj_pair)
  then show ?thesis using run by (auto simp: fail_mission_def run_bind run_try)
qed

lemma keyed_create:
  "keyed (cl_runs c) \<Longrightarrow> keyed (cl_runs (put_run r c))" "keyed (ms_runs m) \<Longrightarrow> keyed (ms_runs (mem_create r m))"
  by (auto simp: keyed_def put_run_def mem_create_def)

lemma verdict_legal:
  assumes keys: "keyed (cl_runs c)" "keyed (ms_runs m)"
    and run: "run_calls now (update_mission_record (Firestore l) i sc) c m = (x, c', m')"
  shows "legal c c'"
proof -
  let ?a = "no_args\<lparr>ta_workflow_stage := Some (workflow_stage_of (sc_verdict sc))\<rparr>"
  have after: "legal d c'"
    if k: "keyed (cl_runs d)" "keyed (ms_runs n)"
      and q: "run_calls now (pbind (apply_transition (Firestore l) i (sc_verdict sc) ?a) (\<lambda>t.
       case tr_record t of
         Some r \<Rightarrow> if tr_ok t then pbind (update_run (Firestore l) (with_result sc r)) (\<lambda>_. Done ()) else Done ()
       | None \<Rightarrow> Done ())) d n = (x, c', m')" for d n
  proof -
    obtain t c1 m1 where t: "run_calls now (apply_transition (Firestore l) i (sc_verdict sc) ?a) d n = (Inr t, c1, m1)" "legal d c1"
      by (metis run_transition_legal [OF k] surj_pair)
    show ?thesis
    proof (cases "tr_record t")
      case (Some r)
      then show ?thesis
        using q t transition_write_legal [OF k t(1) Some, of "(with_result sc r)\<lparr>rn_updated_at := now\<rparr>"]
        by (auto simp: run_bind with_result_def split: if_splits)
    qed (use q t in \<open>auto simp: run_bind\<close>)
  qed
  show ?thesis
  proof (cases "or_keep (dget (cl_runs c) i) (dget (ms_runs m) i)")
    case None
    then have none: "dget (cl_runs c) i = None" by (simp add: or_keep_def split: option.splits)
    let ?r = "record_from_mission i (sc_demo sc) now"
    have "run_calls now (create_run (Firestore l) ?r) c m = (Inr (), put_run ?r c, mem_create ?r m)"
      by (simp add: create_run_def run_prims)
    then have "legal (put_run ?r c) c'"
      using run None after [OF keyed_create(1) [OF keys(1), of ?r] keyed_create(2) [OF keys(2), of ?r]]
      by (auto simp: update_mission_record_def run_bind)
    moreover have "rn_id ?r = i" by (simp add: record_from_mission_def)
    ultimately show ?thesis
      unfolding legal_def put_run_def using none by (metis (no_types, lifting) cloud.select_convs(1) cloud.surjective cloud.update_convs(1) dget_dset option.distinct(1))
  next
    case (Some r)
    then show ?thesis using run after [OF keys] by (auto simp: update_mission_record_def run_bind)
  qed
qed

definition takes_lease :: "store_kind \<Rightarrow> unit prog \<Rightarrow> string \<Rightarrow> bool" where
  "takes_lease k p i \<longleftrightarrow> (\<exists>job. p = silent (acquire_lease k i job))"

lemma operation_legal:
  assumes "operation (Firestore l) p" "keyed (cl_runs c)" "keyed (ms_runs m)" "run_calls now p c m = (x, c', m')"
  shows "legal c c' \<or> (\<exists>i. takes_lease (Firestore l) p i \<and> leased i c c')"
  using assms
proof (induction rule: operation.induct)
  case (5 i job)
  obtain y where "run_calls now (acquire_lease (Firestore l) i job) c m = (y, c', m')" using run_silent 5 by blast
  from acquire_leased [OF 5(1) this] show ?case using legal_same by (auto simp: takes_lease_def)
next
  case (7 i)
  then show ?case by (auto simp: silent_def run_bind cancellation_requested_def run_try)
qed (blast intro: cancel_legal retry_legal archive_legal delete_legal mark_stage_legal
    finalize_cancelled_legal heartbeat_legal verdict_legal fail_mission_legal dest: run_silent)+

lemma reachable_keyed:
  assumes "reachable owner home kind s"
  shows "keyed (cl_runs (sy_cloud s))" "keyed (ms_runs (sy_mems s h))"
  using attempts.good_reachable [OF assms] by (auto simp: attempts.good_system_def attempts.good_runs_def keyed_def)

text \<open>Running alone is one of the interleavings.\<close>

lemma reachable_spawn:
  "reachable owner home kind s \<Longrightarrow> handler owner (kind (home t)) p \<Longrightarrow> reachable owner home kind (spawn t p s)"
  unfolding reachable_def by (meson rtranclp.rtrancl_into_rtrancl sys_step.start)

lemma reachable_call:
  "reachable owner home kind s \<Longrightarrow> sy_now s \<le> now \<Longrightarrow> reachable owner home kind (thread_step (home t) t f now s)"
  unfolding reachable_def by (meson rtranclp.rtrancl_into_rtrancl sys_step.call)

definition ended :: "'a res \<Rightarrow> 'a prog" where
  "ended x = (case x of Inl e \<Rightarrow> Raise e | Inr y \<Rightarrow> Done y)"

lemma run_alone_reachable:
  assumes "reachable owner home kind s" "sy_threads s t = p"
    and "run_calls (sy_now s) p (sy_cloud s) (sy_mems s (home t)) = (x, c', m')"
  shows "reachable owner home kind
     (s\<lparr>sy_cloud := c', sy_mems := (sy_mems s)(home t := m'), sy_threads := (sy_threads s)(t := ended x)\<rparr>)"
  using assms
proof (induction p arbitrary: s)
  case (Call y k)
  obtain r c1 m1 where d: "do_call Works (sy_now s) y (sy_cloud s) (sy_mems s (home t)) = (r, c1, m1)" by (metis surj_pair)
  define s1 where "s1 = thread_step (home t) t Works (sy_now s) s"
  have s1: "s1 = s\<lparr>sy_cloud := c1, sy_mems := (sy_mems s)(home t := m1), sy_threads := (sy_threads s)(t := k r)\<rparr>"
    using Call.prems(2) d by (simp add: s1_def)
  have "reachable owner home kind s1" unfolding s1_def by (rule reachable_call [OF Call.prems(1)]) simp
  moreover have "run_calls (sy_now s1) (k r) (sy_cloud s1) (sy_mems s1 (home t)) = (x, c', m')" "sy_threads s1 t = k r"
    using Call.prems(3) d s1 by simp_all
  ultimately have "reachable owner home kind
     (s1\<lparr>sy_cloud := c', sy_mems := (sy_mems s1)(home t := m'), sy_threads := (sy_threads s1)(t := ended x)\<rparr>)"
    using Call.IH [OF rangeI, of s1 r] by blast
  moreover have "s1\<lparr>sy_cloud := c', sy_mems := (sy_mems s1)(home t := m'), sy_threads := (sy_threads s1)(t := ended x)\<rparr>
     = s\<lparr>sy_cloud := c', sy_mems := (sy_mems s)(home t := m'), sy_threads := (sy_threads s)(t := ended x)\<rparr>"
    by (simp add: s1)
  ultimately show ?case by (simp only:)
next
  case (Done y)
  then have "s\<lparr>sy_cloud := c', sy_mems := (sy_mems s)(home t := m'), sy_threads := (sy_threads s)(t := ended x)\<rparr> = s"
    by (cases s) (auto simp: ended_def)
  then show ?case using Done.prems(1) by (simp only:)
next
  case (Raise e)
  then have "s\<lparr>sy_cloud := c', sy_mems := (sy_mems s)(home t := m'), sy_threads := (sy_threads s)(t := ended x)\<rparr> = s"
    by (cases s) (auto simp: ended_def)
  then show ?case using Raise.prems(1) by (simp only:)
qed

section \<open>Properties\<close>

text \<open>However the endpoints, the workers and Pub/Sub interleave, with requests that fail or are applied
  although they seem to fail and with processes that restart, a mission never has an attempt number
  outside one to five, in its own field and in its metadata.\<close>

theorem retry_attempts_bounded:
  assumes "reachable owner home kind s" "dget (cl_runs (sy_cloud s)) i = Some r"
  shows "1 \<le> rn_attempt r \<and> rn_attempt r \<le> 5
    \<and> (\<forall>v. dget (rn_metadata r) ''attempt_number'' = Some v \<longrightarrow> (\<exists>n. v = MInt n \<and> 1 \<le> n \<and> n \<le> 5))"
proof -
  have "attempts_bounded i (rn_tenant r) (rn_attempt r) (attempt_field r)"
    using attempts.reachable_record [OF assms] by blast
  then show ?thesis
    by (auto simp: attempts_bounded_def max_retry_attempts_def split: option.splits meta_value.splits)
qed

text \<open>In every interleaving a stored mission belongs to the tenant it was created for or to none, never
  to another one; and what a request of a tenant that the server gave no legacy records is shown, from
  the documents or from the fallback of any process, is a mission created for that tenant.\<close>

theorem mission_tenant_fixed:
  assumes "reachable owner home kind s"
  shows "(\<forall>i r. dget (cl_runs (sy_cloud s)) i = Some r \<longrightarrow> rn_id r = i \<and> rn_tenant r \<in> {None, Some (owner i)})
    \<and> (\<forall>h lenient now i tenant r c m.
         run_calls now (get_run_for_tenant (Firestore lenient) i tenant False) (sy_cloud s) (sy_mems s h) = (Inr (Some r), c, m)
         \<longrightarrow> rn_id r = i \<and> tenant = owner i)"
proof -
  have good: "tenants.good_runs owner (cl_runs (sy_cloud s))" "tenants.good_runs owner (ms_runs (sy_mems s h))" for h
    using tenants.good_reachable [OF assms] by (auto simp: tenants.good_system_def)
  have read: "rn_id r = i \<and> rn_tenant r \<in> {None, Some (owner i)}"
    if "tenants.good_runs owner d" "dget d i = Some r" for d i r
    using that unfolding tenants.good_runs_def identity_def tenant_fixed_def by auto
  have "rn_id r = i \<and> tenant = owner i"
    if "run_calls now (get_run_for_tenant (Firestore lenient) i tenant False) (sy_cloud s) (sy_mems s h) = (Inr (Some r), c, m)"
    for h lenient now i tenant r c m
  proof -
    have r: "or_keep (dget (cl_runs (sy_cloud s)) i) (dget (ms_runs (sy_mems s h)) i) = Some r" "owned_by (Some r) tenant False"
      using that by (auto simp: Let_def split: if_splits)
    then have "rn_id r = i \<and> rn_tenant r \<in> {None, Some (owner i)}"
      using read [OF good(1)] read [OF good(2)] by (auto simp: or_keep_def split: option.splits)
    then show ?thesis using r(2) by (auto simp: owned_by_def split: option.splits if_splits)
  qed
  then show ?thesis using read [OF good(1)] by blast
qed

text \<open>C20: In every state the system can reach, an operation on missions that is not interrupted (an endpoint,
  taking the lease, marking a stage, a checkpoint, a heartbeat, the verdict, the note of a failure)
  changes the status of any mission only along the transition graph, with one exception, and what it
  removes could be deleted.  The exception is taking the lease: it moves its mission from any status that is
  not terminal to RUNNING, also from DRAFT, VALIDATING and NEEDS_REVIEW, from which the graph does not lead
  there.  So an archived mission stays archived, and a completed or cancelled one can only be archived.\<close>

theorem status_changes_legal:
  assumes "reachable owner home kind s" "operation (Firestore lenient) p"
    and "run_calls now p (sy_cloud s) (sy_mems s h) = (x, c', m')" "dget (cl_runs (sy_cloud s)) i = Some r"
  shows "(case dget (cl_runs c') i of
       None \<Rightarrow> is_deletable r
     | Some r' \<Rightarrow> rn_status r' = rn_status r \<or> rn_status r' \<in> set (allowed_transitions (rn_status r))
         \<or> takes_lease (Firestore lenient) p i \<and> rn_status r' = RUNNING \<and> rn_status r \<notin> set terminal_statuses)
    \<and> (takes_lease (Firestore lenient) p i \<longrightarrow> rn_status r \<in> {DRAFT, VALIDATING, NEEDS_REVIEW} \<longrightarrow>
         RUNNING \<notin> set (allowed_transitions (rn_status r)) \<and> map_option rn_status (dget (cl_runs c') i) = Some RUNNING)
    \<and> (rn_status r = ARCHIVED \<longrightarrow> (\<exists>r'. dget (cl_runs c') i = Some r' \<and> rn_status r' = ARCHIVED))
    \<and> (rn_status r = COMPLETED \<longrightarrow> (\<exists>r'. dget (cl_runs c') i = Some r' \<and> rn_status r' \<in> {COMPLETED, ARCHIVED}))
    \<and> (rn_status r = CANCELLED \<longrightarrow> (\<forall>r'. dget (cl_runs c') i = Some r' \<longrightarrow> rn_status r' \<in> {CANCELLED, ARCHIVED}))"
proof -
  have op: "legal (sy_cloud s) c' \<or> (\<exists>j. takes_lease (Firestore lenient) p j \<and> leased j (sy_cloud s) c')"
    using operation_legal [OF assms(2) reachable_keyed [OF assms(1)] assms(3)] .
  have step: "case dget (cl_runs c') i of
       None \<Rightarrow> is_deletable r
     | Some r' \<Rightarrow> rn_status r' = rn_status r \<or> rn_status r' \<in> set (allowed_transitions (rn_status r))
         \<or> takes_lease (Firestore lenient) p i \<and> rn_status r' = RUNNING \<and> rn_status r \<notin> set terminal_statuses"
    using op
  proof
    assume "legal (sy_cloud s) c'"
    then have "case dget (cl_runs c') i of None \<Rightarrow> is_deletable r | Some r' \<Rightarrow> status_step (rn_status r) (rn_status r')"
      using assms(4) unfolding legal_def by blast
    then show ?thesis by (cases "dget (cl_runs c') i") (auto simp: status_step_def)
  next
    assume "\<exists>j. takes_lease (Firestore lenient) p j \<and> leased j (sy_cloud s) c'"
    then obtain j where j: "takes_lease (Firestore lenient) p j" "leased j (sy_cloud s) c'" by blast
    show ?thesis
    proof (cases "j = i")
      case True
      then show ?thesis using j assms(4) by (auto simp: leased_def)
    next
      case False
      then have "dget (cl_runs c') i = Some r" using j(2) assms(4) by (auto simp: leased_def)
      then show ?thesis by simp
    qed
  qed
  have "map_option rn_status (dget (cl_runs c') i) = Some RUNNING"
    if lease: "takes_lease (Firestore lenient) p i" and st: "rn_status r \<in> {DRAFT, VALIDATING, NEEDS_REVIEW}"
  proof -
    obtain job y where y: "run_calls now (acquire_lease (Firestore lenient) i job) (sy_cloud s) (sy_mems s h) = (y, c', m')"
      using lease assms(3) run_silent unfolding takes_lease_def by blast
    have "rn_id r = i" using reachable_keyed(1) [OF assms(1)] assms(4) by (simp add: keyed_def)
    moreover have "rn_status r \<notin> set terminal_statuses" "rn_status r \<noteq> RUNNING" using st by (auto simp: terminal_statuses_def)
    ultimately show ?thesis
      using y assms(4) by (auto simp: run_acquire lease_doc_acquired dget_merge_run lease_taken_def)
  qed
  then show ?thesis
    using step by (cases "dget (cl_runs c') i") (auto simp: is_deletable_def terminal_statuses_def)
qed

lemma lease_doc_terminal:
  "dget (cl_runs c) i = Some r \<Longrightarrow> rn_status r \<in> set terminal_statuses \<Longrightarrow>
     lease_doc now i job secs c = ((ALREADY_TERMINAL, Some r), c)"
  by (simp add: lease_doc_def lease_run_def)

lemma execute_terminal:
  assumes "dget (cl_runs c) (jb_run j) = Some r" "rn_status r \<in> set terminal_statuses"
  shows "\<exists>c' m'. run_calls now (execute_job (Firestore l) j mission_of) c m =
      (Inr (result_of (if rn_status r = CANCELLED then PO_CANCELLED else DUPLICATE_ALREADY_PROCESSED) None True), c', m')
    \<and> cl_runs c' = cl_runs c"
  using assms by (simp add: execute_job_def run_bind run_try run_acquire lease_doc_terminal)

text \<open>A job delivered for a mission in a terminal status, for the first or the n-th time, changes no record
  and is acknowledged: as cancelled when the mission is, as a duplicate otherwise.\<close>

theorem terminal_mission_not_executed:
  assumes "dget (cl_runs c) (jb_run j) = Some r" "rn_status r \<in> {COMPLETED, FAILED, CANCELLED, ARCHIVED}"
    and "run_calls now (execute_job (Firestore lenient) j mission_of) c m = (x, c', m')"
  shows "cl_runs c' = cl_runs c
    \<and> (\<exists>res. x = Inr res \<and> should_ack (po_outcome res)
         \<and> po_outcome res = (if rn_status r = CANCELLED then PO_CANCELLED else DUPLICATE_ALREADY_PROCESSED))"
proof -
  have "rn_status r \<in> set terminal_statuses" using assms(2) by (auto simp: terminal_statuses_def)
  then show ?thesis
    using execute_terminal [OF assms(1), of now lenient mission_of m] assms(3)
    by (auto simp: result_of_def should_ack_def)
qed

text \<open>A job whose work raises: its packages do not resolve, or a step of the run raises before a checkpoint
  sees a cancellation.  The record \<open>started\<close> is what the worker hands to the supervisor.\<close>

definition started :: "int \<Rightarrow> job \<Rightarrow> run_record \<Rightarrow> run_record" where
  "started now j r = provenance_stamped j ((lease_taken now (jb_id j) r)\<lparr>rn_updated_at := now\<rparr>)"

primrec reaches_raise :: "bool \<Rightarrow> mission_step list \<Rightarrow> bool" where
  "reaches_raise cancel [] = False"
| "reaches_raise cancel (s # ss) =
     (case s of Boom e \<Rightarrow> True | Checkpoint \<Rightarrow> \<not> cancel \<and> reaches_raise cancel ss | _ \<Rightarrow> reaches_raise cancel ss)"

definition work_raises :: "run_record \<Rightarrow> script \<Rightarrow> bool" where
  "work_raises r sc \<longleftrightarrow> \<not> is_ok (sc_resolve sc) \<or> reaches_raise (wants_cancel (Some r)) (sc_steps sc)"

definition executing :: "string \<Rightarrow> bool \<Rightarrow> cloud \<Rightarrow> bool" where
  "executing i w c \<longleftrightarrow> (\<exists>r. dget (cl_runs c) i = Some r \<and> rn_id r = i \<and> rn_status r = RUNNING \<and> wants_cancel (Some r) = w)"

lemma executing_events [simp]:
  "executing i w (c\<lparr>cl_events := es\<rparr>) = executing i w c" "executing i w (c\<lparr>cl_evidence := vs\<rparr>) = executing i w c"
  by (simp_all add: executing_def)

lemma executing_merge:
  assumes "dget (cl_runs c) i = Some r" "rn_id r' = i" "rn_status r' = RUNNING" "rn_cancel r' = rn_cancel r"
    and "dget (rn_metadata r') ''cancellation_requested'' = dget (rn_metadata r) ''cancellation_requested''"
  shows "executing i (wants_cancel (Some r)) (merge_run r' c)"
  using assms by (auto simp: executing_def dget_merge_run merged_def dget_meta_update wants_cancel_def split: option.split)

lemma mark_stage_executing:
  assumes "executing i w c"
  shows "\<exists>c' m'. run_calls now (mark_stage (Firestore l) i stage) c m = (Inr (), c', m') \<and> executing i w c'"
proof -
  obtain r where r: "dget (cl_runs c) i = Some r" "rn_id r = i" "rn_status r = RUNNING" "wants_cancel (Some r) = w"
    using assms by (auto simp: executing_def)
  show ?thesis
    using r executing_merge [OF r(1), of "r\<lparr>rn_current_stage := Some stage, rn_updated_at := now\<rparr>"]
    by (simp add: mark_stage_def run_bind or_keep_def)
qed

lemma heartbeat_executing:
  assumes "executing i w c"
  shows "\<exists>c' m'. run_calls now (touch_heartbeat (Firestore l) i) c m = (Inr (), c', m') \<and> executing i w c'"
  using assms by (auto simp: executing_def touch_heartbeat_def run_prims heartbeat_doc_def put_run_def wants_cancel_def)

lemma run_steps_raise:
  "executing i w c \<Longrightarrow> reaches_raise w ss \<Longrightarrow>
     \<exists>e c' m'. run_calls now (run_steps (Firestore l) i report ss) c m = (Inl e, c', m') \<and> executing i w c'"
proof (induction ss arbitrary: c m)
  case (Cons s ss)
  note go = Cons.IH
  show ?case
  proof (cases s)
    case (Stage stage)
    obtain c1 m1 where "run_calls now (mark_stage (Firestore l) i stage) c m = (Inr (), c1, m1)" "executing i w c1"
      using mark_stage_executing [OF Cons.prems(1)] by blast
    then show ?thesis using go [of c1 m1] Cons.prems(2) Stage by (auto simp: run_bind)
  next
    case Checkpoint
    then have w: "\<not> w" "reaches_raise w ss" using Cons.prems(2) by auto
    have "run_calls now (cancellation_requested (Firestore l) i) c m = (Inr False, c, m)"
      using Cons.prems(1) w(1) by (auto simp: executing_def cancellation_requested_def run_try run_bind or_keep_def)
    then show ?thesis using go [OF Cons.prems(1) w(2), of m] Checkpoint by (simp add: run_bind)
  next
    case (Evidence x title)
    let ?e = "\<lparr>ed_id = x, ed_run = i, ed_title = title\<rparr>"
    have "run_calls now (add_evidence (Firestore l) ?e) c m = (Inr (), c\<lparr>cl_evidence := cl_evidence c @ [?e]\<rparr>, mem_add_evidence ?e m)"
      by (simp add: add_evidence_def run_prims)
    then show ?thesis using go [of "c\<lparr>cl_evidence := cl_evidence c @ [?e]\<rparr>" "mem_add_evidence ?e m"] Cons.prems Evidence by (simp add: run_bind)
  next
    case Heartbeat
    obtain c1 m1 where "run_calls now (touch_heartbeat (Firestore l) i) c m = (Inr (), c1, m1)" "executing i w c1"
      using heartbeat_executing [OF Cons.prems(1)] by blast
    then show ?thesis using go [of c1 m1] Cons.prems(2) Heartbeat by (auto simp: run_bind)
  next
    case (Boom e)
    then show ?thesis using Cons.prems(1) by simp
  qed
qed simp

lemma fail_mission_executing:
  assumes "executing i w c"
  shows "\<exists>c' m' r'. run_calls now (fail_mission (Firestore l) i) c m = (Inr True, c', m')
      \<and> dget (cl_runs c') i = Some r' \<and> rn_status r' = FAILED"
proof -
  obtain v where v: "dget (cl_runs c) i = Some v" "rn_id v = i" "rn_status v = RUNNING" using assms by (auto simp: executing_def)
  then have "transition_error_of v FAILED fail_args = None"
    by (simp add: transition_error_of_def fail_args_def no_args_def validate_transition_def)
  then show ?thesis
    using v by (simp add: fail_mission_def run_try run_bind run_transition or_keep_def Let_def dget_merge_run)
qed

lemma supervise_raises:
  assumes "executing i w c" "\<not> is_ok (sc_resolve sc) \<or> reaches_raise w (sc_steps sc)"
  shows "\<exists>c' m' r'. run_calls now (supervise (Firestore l) i sc) c m = (Inr (result_of RETRYABLE_FAILURE None True), c', m')
    \<and> dget (cl_runs c') i = Some r' \<and> rn_status r' = FAILED"
proof (cases "sc_resolve sc")
  case (Inl e)
  then show ?thesis using fail_mission_executing [OF assms(1), of now l m] by (auto simp: supervise_def run_try run_bind)
next
  case (Inr u)
  then have boom: "reaches_raise w (sc_steps sc)" using assms(2) by (simp add: is_ok_def)
  obtain r where r: "dget (cl_runs c) i = Some r" "rn_id r = i" "rn_status r = RUNNING" "wants_cancel (Some r) = w"
    using assms(1) by (auto simp: executing_def)
  obtain c1 m1 where s: "run_calls now (save_run (Firestore l) r) c m = (Inr (), c1, m1)" "executing i w c1"
    using r executing_merge [OF r(1), of "r\<lparr>rn_updated_at := now\<rparr>"] by (simp add: save_run_def run_bind or_keep_def)
  obtain e c2 m2 where b: "run_calls now (run_steps (Firestore l) i (sc_report sc) (sc_steps sc)) c1 m1 = (Inl e, c2, m2)" "executing i w c2"
    using run_steps_raise [OF s(2) boom] by blast
  have "run_calls now (run_mission (Firestore l) i sc) c m = (Inl e, c2, m2)"
    using r s(1) b(1) by (simp add: run_mission_def run_bind or_keep_def or_else_def)
  then show ?thesis using Inr fail_mission_executing [OF b(2), of now l m2] by (auto simp: supervise_def run_try run_bind)
qed

lemma execute_fails:
  assumes r: "dget (cl_runs c) (jb_run j) = Some r" "rn_id r = jb_run j" "rn_status r \<notin> set terminal_statuses"
    "\<not> (rn_status r = RUNNING \<and> heartbeat_fresh now lease_ttl_seconds (rn_metadata r))"
    and sc: "mission_of (started now j r) = Inr sc" "work_raises r sc"
  shows "\<exists>c' m' r'. run_calls now (execute_job (Firestore l) j mission_of) c m = (Inr (result_of RETRYABLE_FAILURE None True), c', m')
    \<and> dget (cl_runs c') (jb_run j) = Some r' \<and> rn_status r' = FAILED"
proof -
  let ?t = "lease_taken now (jb_id j) r"
  let ?u = "(started now j r)\<lparr>rn_updated_at := now\<rparr>"
  let ?event = "\<lparr>ev_run = jb_run j, ev_stage = ''RUNNING'', ev_action = ''EXECUTION_LEASE_ACQUIRED''\<rparr>"
  let ?c = "merge_run ?u (merge_run ?t c)"
  have t: "dget (cl_runs (merge_run ?t c)) (jb_run j) = Some (merged (Some r) ?t)"
    using r by (simp add: dget_merge_run lease_taken_def)
  have "wants_cancel (Some (merged (Some r) ?t)) = wants_cancel (Some r)"
    by (simp add: wants_cancel_def merged_def lease_taken_def dget_meta_update split: option.split)
  moreover have "executing (jb_run j) (wants_cancel (Some (merged (Some r) ?t))) ?c"
    by (rule executing_merge [OF t])
      (use r(2) in \<open>simp_all add: started_def lease_taken_def provenance_stamped_def merged_def dget_meta_update split: option.split\<close>)
  ultimately have run: "executing (jb_run j) (wants_cancel (Some r)) (?c\<lparr>cl_events := cl_events ?c @ [?event]\<rparr>)" by simp
  let ?n = "mem_add_event ?event (snd (mem_update now (started now j r) (snd (mem_update now ?t m))))"
  obtain c' m' r' where "run_calls now (supervise (Firestore l) (jb_run j) sc) (?c\<lparr>cl_events := cl_events ?c @ [?event]\<rparr>) ?n
      = (Inr (result_of RETRYABLE_FAILURE None True), c', m')" "dget (cl_runs c') (jb_run j) = Some r'" "rn_status r' = FAILED"
    using supervise_raises [OF run, of sc now l ?n] sc(2) unfolding work_raises_def by blast
  then show ?thesis
    using sc(1) by (simp add: execute_job_def run_bind run_try run_acquire lease_doc_acquired [OF r] start_job_def flip: started_def)
qed

text \<open>C22: When the work of a job raises (its packages do not resolve, or any step of the run raises while
  the store works), the worker notes FAILED and answers 503 so that Pub/Sub delivers the job again; but that
  delivery, and every later one, finds a terminal status, runs nothing and is acknowledged.  The
  mission is never retried by redelivery.\<close>

theorem failure_never_retried_by_redelivery:
  assumes "dget (cl_runs c) (jb_run j) = Some r" "rn_id r = jb_run j" "rn_status r \<notin> set terminal_statuses"
    "\<not> (rn_status r = RUNNING \<and> heartbeat_fresh now lease_ttl_seconds (rn_metadata r))"
    and "mission_of (started now j r) = Inr sc" "work_raises r sc"
    and "prefix ''MIS-'' (jb_run j)" "jb_type j = ''ASSURANCE_MISSION_V2''"
  shows "\<exists>c' m'. run_calls now (deliver (Firestore lenient) (Some j) mission_of) c m = (Inr 503, c', m')
    \<and> (\<forall>later mission_of' n. \<exists>c'' n'.
         run_calls later (deliver (Firestore lenient) (Some j) mission_of') c' n = (Inr 200, c'', n') \<and> cl_runs c'' = cl_runs c')"
proof -
  obtain c' m' r' where f: "run_calls now (execute_job (Firestore lenient) j mission_of) c m = (Inr (result_of RETRYABLE_FAILURE None True), c', m')"
    "dget (cl_runs c') (jb_run j) = Some r'" "rn_status r' = FAILED"
    using execute_fails [where mission_of = mission_of, OF assms(1-6)] by blast
  have 1: "run_calls now (deliver (Firestore lenient) (Some j) mission_of) c m = (Inr 503, c', m')"
    using f(1) assms(7,8) by (simp add: deliver_def process_job_def run_try run_bind result_of_def)
  have t: "rn_status r' \<in> set terminal_statuses" using f(3) by (simp add: terminal_statuses_def)
  have "\<exists>c'' n'. run_calls later (deliver (Firestore lenient) (Some j) mission_of') c' n = (Inr 200, c'', n') \<and> cl_runs c'' = cl_runs c'"
    for later mission_of' n
    using execute_terminal [OF f(2) t, of later lenient mission_of' n] assms(7,8) f(3)
    by (auto simp: deliver_def process_job_def run_try run_bind result_of_def)
  then show ?thesis using 1 by blast
qed

section \<open>Offered actions\<close>

definition reply_code :: "http res \<times> cloud \<times> mem_store \<Rightarrow> nat option" where
  "reply_code x = (case fst x of Inr (Http n _) \<Rightarrow> Some n | Inl _ \<Rightarrow> None)"

lemma attempt_of_default: "attempt_of m 1 = Inr n \<Longrightarrow> \<exists>k. attempt_of m d = Inr k"
  by (auto simp: attempt_of_def Let_def split: option.splits if_splits)

lemma reply_code_eq: "run_calls now p c m = (Inr (Http n s), c', m') \<Longrightarrow> reply_code (run_calls now p c m) = Some n"
  by (simp add: reply_code_def)

lemma offered_cancel:
  assumes r: "dget (cl_runs c) i = Some r" "rn_id r = i" "owned_by (Some r) tenant legacy" "rn_status r \<in> set cancellable"
  shows "reply_code (run_calls now (cancel_mission (Firestore l) i tenant legacy) c m) = Some 200"
proof (cases "rn_status r \<in> set direct_cancellable")
  case True
  then have "transition_error_of r CANCELLED cancel_args = None" "rn_status r \<noteq> CANCELLED"
    by (auto simp: transition_error_of_def cancel_args_def no_args_def validate_transition_def direct_cancellable_def)
  then show ?thesis
    using r True by (simp add: cancel_mission_def run_scoped run_bind run_transition Let_def or_keep_def reply_code_def)
next
  case False
  then have "rn_status r = RUNNING" using r(4) by (simp add: cancellable_def cooperative_cancellable_def)
  then show ?thesis
    using r False
    by (simp add: cancel_mission_def run_scoped run_bind run_update_for_tenant update_owned_def cancel_requested_def Let_def or_keep_def
        reply_code_def)
qed

lemma offered_archive:
  assumes r: "dget (cl_runs c) i = Some r" "rn_id r = i" "owned_by (Some r) tenant legacy"
  shows "reply_code (run_calls now (archive_mission (Firestore l) i tenant legacy) c m) = Some 200
     \<longleftrightarrow> rn_status r \<in> set archivable \<and> \<not> meta_true (dget (rn_metadata r) ''archived'')"
proof (cases "rn_status r \<in> set archivable \<and> \<not> meta_true (dget (rn_metadata r) ''archived'')")
  case True
  then have "transition_error_of r ARCHIVED archive_args = None"
    by (auto simp: transition_error_of_def archive_args_def no_args_def validate_transition_def archivable_def)
  then show ?thesis
    using r True by (simp add: archive_mission_def run_scoped run_bind run_transition Let_def or_keep_def reply_code_def)
next
  case False
  then show ?thesis using r by (auto simp: archive_mission_def run_scoped or_keep_def reply_code_def)
qed

lemma offered_delete:
  assumes r: "dget (cl_runs c) i = Some r" "rn_id r = i" "owned_by (Some r) tenant legacy"
  shows "reply_code (run_calls now (delete_mission (Firestore l) i tenant legacy) c m) = Some 200
     \<longleftrightarrow> is_deletable r \<and> \<not> (prefix ''RUN-'' i \<and> \<not> prefix ''RUN-DEMO'' i)"
  using r by (auto simp: delete_mission_def run_scoped run_bind run_delete_for_tenant or_keep_def reply_code_def)

lemma historical_delete:
  assumes "dget (cl_runs c) i = Some r" "owned_by (Some r) tenant legacy" "prefix ''RUN-'' i" "\<not> prefix ''RUN-DEMO'' i"
  shows "reply_code (run_calls now (delete_mission (Firestore l) i tenant legacy) c m) = Some 409"
  using assms by (simp add: delete_mission_def run_scoped or_keep_def reply_code_def)

lemma queue_retry_ok:
  assumes r: "dget (cl_runs c) i = Some r" "rn_id r = i" "rn_status r \<in> set retryable_statuses"
  shows "reply_code (run_calls now (queue_retry (Firestore l) i tenant legacy n r) c m) = Some 200"
proof -
  have "transition_error_of r QUEUED (retry_args n (rn_status r)) = None"
    using r(3) by (auto simp: transition_error_of_def retry_args_def no_args_def validate_transition_def retryable_statuses_def)
  then show ?thesis
    using r by (simp add: queue_retry_def run_bind run_transition or_keep_def run_update_for_tenant Let_def run_prims reply_code_def
        split: prod.split option.split)
qed

lemma offered_retry:
  assumes r: "dget (cl_runs c) i = Some r" "rn_id r = i" "owned_by (Some r) tenant legacy" "is_retryable r = Inr b"
  shows "reply_code (run_calls now (retry_mission (Firestore l) i tenant legacy) c m) = Some 200 \<longleftrightarrow> b"
proof (cases b)
  case True
  then have s: "rn_status r \<in> set retryable_statuses" using r(4) by (auto simp: is_retryable_def split: if_splits)
  then obtain k where "attempt_of (rn_metadata r) 1 = Inr k" using r(4) by (auto simp: is_retryable_def rbind_Inr_iff)
  then obtain n where "attempt_of (rn_metadata r) (rn_attempt r) = Inr n" using attempt_of_default by blast
  then show ?thesis
    using True r queue_retry_ok [OF r(1,2) s] by (simp add: retry_mission_def run_scoped run_bind or_keep_def)
next
  case False
  then show ?thesis using r
    by (cases "attempt_of (rn_metadata r) (rn_attempt r)") (simp_all add: retry_mission_def run_scoped run_bind or_keep_def reply_code_def)
qed

text \<open>C23: The actions a mission is shown with against those its endpoints accept: a cancellation that is
  offered succeeds, a retry or an archive succeeds exactly when it is offered.  A deletion succeeds exactly
  when it is offered and the id is not that of a historical run (\<open>RUN-\<close> but not \<open>RUN-DEMO\<close>): for those it is
  offered too, and answered 409.\<close>

theorem offered_actions_succeed:
  assumes "dget (cl_runs c) i = Some r" "rn_id r = i" "owned_by (Some r) tenant legacy" "eligible_actions r = Inr a"
  shows "(act_cancel a \<longrightarrow> reply_code (run_calls now (cancel_mission (Firestore lenient) i tenant legacy) c m) = Some 200)
    \<and> (act_retry a \<longleftrightarrow> reply_code (run_calls now (retry_mission (Firestore lenient) i tenant legacy) c m) = Some 200)
    \<and> (act_archive a \<longleftrightarrow> reply_code (run_calls now (archive_mission (Firestore lenient) i tenant legacy) c m) = Some 200)
    \<and> (act_delete a \<and> (prefix ''RUN-'' i \<longrightarrow> prefix ''RUN-DEMO'' i)
         \<longleftrightarrow> reply_code (run_calls now (delete_mission (Firestore lenient) i tenant legacy) c m) = Some 200)
    \<and> (act_delete a \<and> prefix ''RUN-'' i \<and> \<not> prefix ''RUN-DEMO'' i \<longrightarrow>
         reply_code (run_calls now (delete_mission (Firestore lenient) i tenant legacy) c m) = Some 409)"
proof -
  obtain b where b: "is_retryable r = Inr b" using assms(4) by (auto simp: eligible_actions_def rbind_Inr_iff)
  then have a: "a = \<lparr>act_cancel = (rn_status r \<in> set cancellable \<and> \<not> meta_true (dget (rn_metadata r) ''cancellation_requested'')),
            act_retry = b,
            act_archive = (rn_status r \<in> set archivable \<and> \<not> meta_true (dget (rn_metadata r) ''archived'')),
            act_delete = is_deletable r\<rparr>" using assms(4) by (simp add: eligible_actions_def)
  show ?thesis
    unfolding offered_archive [OF assms(1-3)] offered_delete [OF assms(1-3)] offered_retry [OF assms(1-3) b]
    using a offered_cancel [OF assms(1-3)] historical_delete [OF assms(1,3)] by auto
qed

section \<open>The ledger\<close>

definition ledger_ok :: "stage_recorder \<Rightarrow> bool" where
  "ledger_ok r \<longleftrightarrow> (\<forall>s x. dget r s = Some x \<longrightarrow> so_stage x = s \<and> validate_outcome x = Inr x)"

lemma validate_outcome_same: "validate_outcome x = Inr y \<Longrightarrow> y = x"
  by (auto simp: validate_outcome_def split: if_splits)

lemma ledger_dset: "ledger_ok r \<Longrightarrow> so_stage x = s \<Longrightarrow> validate_outcome x = Inr x \<Longrightarrow> ledger_ok (dset s x r)"
  by (simp add: ledger_ok_def)

lemma record_stage_ok:
  assumes "ledger_ok r" "record_stage s st why r = Inr r'"
  shows "ledger_ok r' \<and> r' = dset s \<lparr>so_stage = s, so_status = st, so_reason = why\<rparr> r"
proof -
  let ?x = "\<lparr>so_stage = s, so_status = st, so_reason = why\<rparr>"
  obtain x where x: "validate_outcome ?x = Inr x" "r' = dset s x r" using assms(2) by (auto simp: record_stage_def rbind_Inr_iff)
  then show ?thesis using validate_outcome_same [OF x(1)] ledger_dset [OF assms(1), of ?x s] by simp
qed

lemma fill_missing:
  assumes "reason \<noteq> []" "ledger_ok r"
  shows "\<exists>r'. rfold (\<lambda>s. record_stage s SS_NOT_APPLICABLE (Some reason)) ss r = Inr r' \<and> ledger_ok r'
    \<and> (\<forall>s. dget r' s = (if s \<in> set ss then Some \<lparr>so_stage = s, so_status = SS_NOT_APPLICABLE, so_reason = Some reason\<rparr> else dget r s))"
  using assms
proof (induction ss arbitrary: r)
  case (Cons s ss)
  let ?x = "\<lparr>so_stage = s, so_status = SS_NOT_APPLICABLE, so_reason = Some reason\<rparr>"
  have 1: "record_stage s SS_NOT_APPLICABLE (Some reason) r = Inr (dset s ?x r)"
    using Cons.prems by (simp add: record_stage_def validate_outcome_def no_reason_def)
  have "ledger_ok (dset s ?x r)" using record_stage_ok [OF Cons.prems(2) 1] by simp
  then show ?case using Cons.IH [OF Cons.prems(1), of "dset s ?x r"] 1 by auto
qed simp

text \<open>Whatever stages a run recorded, closing its ledger succeeds and leaves an outcome for each of the
  twenty stages, once and in the locked order; those recorded are kept, the others are NOT_APPLICABLE,
  and each outcome that is not COMPLETED has a reason.\<close>

theorem every_stage_accounted:
  assumes "rfold (\<lambda>(s, st, why). record_stage s st why) entries [] = Inr r" "reason \<noteq> []"
  shows "\<exists>r'. finalize_stage_outcomes reason r = Inr r' \<and> all_accounted_for r'
    \<and> map so_stage (outcomes r') = mission_stage_order
    \<and> (\<forall>s x. outcome_for r s = Some x \<longrightarrow> outcome_for r' s = Some x)
    \<and> (\<forall>s. outcome_for r s = None \<longrightarrow> map_option so_status (outcome_for r' s) = Some SS_NOT_APPLICABLE)
    \<and> (\<forall>x \<in> set (outcomes r'). so_status x = SS_COMPLETED \<or> (\<exists>why. so_reason x = Some why \<and> why \<noteq> []))"
proof -
  have "ledger_ok r"
    by (rule rfold_invariant [OF assms(1)]) (auto simp: ledger_ok_def [of "[]"] dest: record_stage_ok)
  then obtain r' where r': "finalize_stage_outcomes reason r = Inr r'" "ledger_ok r'"
    "\<forall>s. dget r' s = (if s \<in> set (missing_stages r) then Some \<lparr>so_stage = s, so_status = SS_NOT_APPLICABLE, so_reason = Some reason\<rparr> else dget r s)"
    using fill_missing [OF assms(2)] unfolding finalize_stage_outcomes_def by blast
  have all: "\<exists>x. dget r' s = Some x" for s using r'(3) by (cases "dget r s") (auto simp: missing_stages_iff)
  have so: "dget r' s = Some x \<Longrightarrow> so_stage x = s \<and> validate_outcome x = Inr x" for s x
    using r'(2) by (simp add: ledger_ok_def)
  have "map so_stage (List.map_filter (dget r') ss) = ss" for ss
  proof (induction ss)
    case (Cons s ss)
    obtain x where "dget r' s = Some x" using all by blast
    then show ?case using Cons so by (simp add: List.map_filter_simps)
  qed (simp add: List.map_filter_simps)
  then have order: "map so_stage (outcomes r') = mission_stage_order" by (simp add: outcomes_def)
  have reasons: "so_status x = SS_COMPLETED \<or> (\<exists>why. so_reason x = Some why \<and> why \<noteq> [])" if "x \<in> set (outcomes r')" for x
  proof -
    obtain s where "dget r' s = Some x" using \<open>x \<in> _\<close> by (auto simp: outcomes_def List.map_filter_def)
    then have "validate_outcome x = Inr x" using so by blast
    then show ?thesis by (cases "so_status x"; cases "so_reason x") (auto simp: validate_outcome_def no_reason_def split: if_splits)
  qed
  have kept: "dget r' s = Some x" if "dget r s = Some x" for s x using r'(3) that by (simp add: missing_stages_iff)
  have filled: "map_option so_status (dget r' s) = Some SS_NOT_APPLICABLE" if "dget r s = None" for s
    using r'(3) that by (simp add: missing_stages_iff)
  have accounted: "all_accounted_for r'"
    using all by (auto simp: all_accounted_for_def missing_stages_def filter_empty_conv)
  show ?thesis
    unfolding outcome_for_def using r'(1) accounted order kept filled reasons by blast
qed

end
