(* ===== verification/MissionRaces.thy ===== *)
theory MissionRaces
  imports MissionTheorems
begin

text \<open>
  Interleavings on one mission, played call by call: a request to cancel that reopens a completed
  mission, two retries of one failure that are both dispatched, a deleted mission that a
  process brings back; and the concrete runs that the theorems of MissionTheorems are applied to.
\<close>

section \<open>Playing a schedule\<close>

text \<open>Start a program on a thread; let a thread make one call; let it run to its end.\<close>

datatype act = Start nat "unit prog" | Step nat | Finish nat

fun finish :: "nat \<Rightarrow> system \<Rightarrow> system" where
  "finish t s =
     (case run_calls (sy_now s) (sy_threads s t) (sy_cloud s) (sy_mems s t) of
        (x, c, m) \<Rightarrow> s\<lparr>sy_cloud := c, sy_mems := (sy_mems s)(t := m), sy_threads := (sy_threads s)(t := ended x)\<rparr>)"

fun act_step :: "act \<Rightarrow> system \<Rightarrow> system" where
  "act_step (Start t p) s = spawn t p s"
| "act_step (Step t) s = thread_step t t Works (sy_now s) s"
| "act_step (Finish t) s = finish t s"

definition play :: "act list \<Rightarrow> system \<Rightarrow> system" where
  "play as s = fold act_step as s"

fun act_ok :: "(string \<Rightarrow> string) \<Rightarrow> (nat \<Rightarrow> store_kind) \<Rightarrow> act \<Rightarrow> bool" where
  "act_ok owner kind (Start t p) = handler owner (kind t) p"
| "act_ok owner kind _ = True"

lemma play_reachable:
  "reachable owner (\<lambda>t. t) kind s \<Longrightarrow> list_all (act_ok owner kind) as \<Longrightarrow> reachable owner (\<lambda>t. t) kind (play as s)"
proof (induction "as" arbitrary: s)
  case (Cons a as)
  have "reachable owner (\<lambda>t. t) kind (act_step a s)"
  proof (cases a)
    case (Start t p)
    then show ?thesis using Cons.prems reachable_spawn [of owner "\<lambda>t. t" kind s t p] by simp
  next
    case (Step t)
    then show ?thesis using reachable_call [OF Cons.prems(1) order_refl, of t Works] by simp
  next
    case (Finish t)
    obtain x c m where "run_calls (sy_now s) (sy_threads s t) (sy_cloud s) (sy_mems s t) = (x, c, m)" by (metis surj_pair)
    then show ?thesis using run_alone_reachable [OF Cons.prems(1) refl, of t x c m] Finish by simp
  qed
  then show ?case using Cons by (simp add: play_def)
qed (simp add: play_def)

definition lenient_store :: "nat \<Rightarrow> store_kind" where
  "lenient_store h = Firestore True"

definition acme :: "string \<Rightarrow> string" where
  "acme i = ''acme''"

abbreviation K :: store_kind where "K \<equiv> Firestore True"

definition mission_done :: script where
  "mission_done = \<lparr>sc_resolve = Inr (), sc_steps = [Stage ''DECISION''], sc_verdict = COMPLETED, sc_decision = Some ''PASS'',
     sc_summary = ''done'', sc_report = ''report'', sc_demo = False\<rparr>"

definition mission_broken :: script where
  "mission_broken = mission_done\<lparr>sc_resolve := Inl (RuntimeError ''source'')\<rparr>"

definition mission_crashing :: script where
  "mission_crashing = mission_done\<lparr>sc_steps := [Stage ''SEMANTIC_DIFF'', Checkpoint, Boom (RuntimeError ''diff'')]\<rparr>"

definition job1 :: job where
  "job1 = \<lparr>jb_id = ''JOB-MIS-1'', jb_run = ''MIS-1'', jb_type = ''ASSURANCE_MISSION_V2''\<rparr>"

definition request1 :: mission_request where
  "request1 = \<lparr>mr_name = ''release'', mr_mode = ''RELEASE_CONFORMANCE'', mr_source_a = ''src'', mr_source_b = None,
     mr_disposable = False, mr_demo = False\<rparr>"

definition created :: "act list" where
  "created = [Start 0 (silent (create_mission K ''MIS-1'' ''acme'' ''u'' ''CORR-1'' request1)), Finish 0]"

definition late_cancel :: "act list" where
  "late_cancel = created @
     [Start 1 (silent (deliver K (Some job1) (\<lambda>_. Inr mission_done))), Step 1, Step 1,
      Start 2 (silent (cancel_mission K ''MIS-1'' ''acme'' False)), Step 2, Finish 1]"

definition twice_retried :: "act list" where
  "twice_retried = created @
     [Start 1 (silent (deliver K (Some job1) (\<lambda>_. Inr mission_broken))), Finish 1,
      Start 2 (silent (retry_mission K ''MIS-1'' ''acme'' False)), Step 2, Step 2,
      Start 3 (silent (retry_mission K ''MIS-1'' ''acme'' False)), Finish 3, Finish 2]"

definition deleted :: "act list" where
  "deleted = created @
     [Start 1 (silent (cancel_mission K ''MIS-1'' ''acme'' False)), Finish 1,
      Start 1 (silent (delete_mission K ''MIS-1'' ''acme'' False)), Finish 1]"

definition brought_back :: "act list" where
  "brought_back = deleted @ [Start 0 (silent (cancel_mission K ''MIS-1'' ''acme'' False)), Finish 0]"

definition mission_checked :: script where
  "mission_checked = mission_done\<lparr>sc_steps := [Stage ''VALIDATION'', Checkpoint, Stage ''DECISION'']\<rparr>"

definition cancel_lost :: "act list" where
  "cancel_lost = created @
     [Start 1 (silent (deliver K (Some job1) (\<lambda>_. Inr mission_checked)))] @ replicate 13 (Step 1) @
     [Start 2 (silent (cancel_mission K ''MIS-1'' ''acme'' False)), Finish 2]"

definition status_of :: "act list \<Rightarrow> run_status option" where
  "status_of as = map_option rn_status (dget (cl_runs (sy_cloud (play as initial_system))) ''MIS-1'')"

definition jobs_of :: "act list \<Rightarrow> string list" where
  "jobs_of as = map jb_id (cl_jobs (sy_cloud (play as initial_system)))"

lemma start_ok [simp]:
  "handler acme K (silent (create_mission K i ''acme'' uid corr q))" "handler acme K (silent (cancel_mission K i tenant legacy))"
  "handler acme K (silent (retry_mission K i tenant legacy))" "handler acme K (silent (delete_mission K i tenant legacy))"
  "handler acme K (silent (deliver K message mission_of))"
  using handler.create [of acme K i uid corr q] by (simp_all add: acme_def handler.intros)

lemmas schedules = created_def late_cancel_def twice_retried_def deleted_def brought_back_def cancel_lost_def

lemma schedule_ok:
  "list_all (act_ok acme lenient_store) created" "list_all (act_ok acme lenient_store) late_cancel"
  "list_all (act_ok acme lenient_store) twice_retried" "list_all (act_ok acme lenient_store) brought_back"
  "list_all (act_ok acme lenient_store) cancel_lost"
  by (simp_all add: schedules lenient_store_def list_all_iff)

lemma initial_reachable: "reachable owner home kind initial_system"
  by (simp add: reachable_def)

lemmas play_reaches = play_reachable [OF initial_reachable]

section \<open>What the schedules do\<close>

text \<open>C21: The record of a completed mission can be overwritten.  A cancellation that read the mission while it
  ran writes that reading back, after the worker has completed it: the endpoint's write checks the
  owner but neither the status nor the transition graph.  The mission is RUNNING again, no worker runs
  it, and its decision is lost.\<close>

theorem late_cancel_reopens_completed:
  "reachable acme (\<lambda>t. t) lenient_store (play late_cancel initial_system)
   \<and> status_of late_cancel = Some COMPLETED
   \<and> reachable acme (\<lambda>t. t) lenient_store (play (late_cancel @ [Finish 2]) initial_system)
   \<and> status_of (late_cancel @ [Finish 2]) = Some RUNNING
   \<and> map_option rn_decision (dget (cl_runs (sy_cloud (play (late_cancel @ [Finish 2]) initial_system))) ''MIS-1'') = Some None"
proof -
  have "status_of late_cancel = Some COMPLETED" "status_of (late_cancel @ [Finish 2]) = Some RUNNING"
    "map_option rn_decision (dget (cl_runs (sy_cloud (play (late_cancel @ [Finish 2]) initial_system))) ''MIS-1'') = Some None"
    by code_simp+
  moreover have "list_all (act_ok acme lenient_store) (late_cancel @ [Finish 2])" by (simp add: schedule_ok)
  ultimately show ?thesis using play_reaches schedule_ok(2) by blast
qed

text \<open>The compare-and-set of a retry does not compare and set: two requests that both read FAILED are both
  accepted, and the same retry is dispatched twice.\<close>

theorem retry_dispatched_twice:
  "reachable acme (\<lambda>t. t) lenient_store (play twice_retried initial_system)
   \<and> jobs_of twice_retried = [''JOB-MIS-1'', ''JOB-MIS-1-RETRY2'', ''JOB-MIS-1-RETRY2'']"
proof -
  have "jobs_of twice_retried = [''JOB-MIS-1'', ''JOB-MIS-1-RETRY2'', ''JOB-MIS-1-RETRY2'']" by code_simp
  then show ?thesis using play_reaches schedule_ok(3) by blast
qed

text \<open>A worker that marks its stage overwrites the request to cancel, which was accepted before the
  checkpoint that asks for it.\<close>

lemma accepted_cancel_lost:
  "reachable acme (\<lambda>t. t) lenient_store (play (cancel_lost @ [Finish 1]) initial_system)
   \<and> wants_cancel (dget (cl_runs (sy_cloud (play cancel_lost initial_system))) ''MIS-1'')
   \<and> status_of (cancel_lost @ [Finish 1]) = Some COMPLETED"
proof -
  have "wants_cancel (dget (cl_runs (sy_cloud (play cancel_lost initial_system))) ''MIS-1'')"
    "status_of (cancel_lost @ [Finish 1]) = Some COMPLETED" by code_simp+
  moreover have "list_all (act_ok acme lenient_store) (cancel_lost @ [Finish 1])" by (simp add: schedule_ok)
  ultimately show ?thesis using play_reaches by blast
qed

text \<open>A process whose fallback still holds a deleted mission serves it, and the next write brings it back.\<close>

lemma deleted_mission_brought_back:
  "reachable acme (\<lambda>t. t) lenient_store (play brought_back initial_system)
   \<and> status_of deleted = None \<and> status_of brought_back = Some CANCELLED"
proof -
  have "status_of deleted = None" "status_of brought_back = Some CANCELLED" by code_simp+
  then show ?thesis using play_reaches schedule_ok(4) by blast
qed

section \<open>Witnesses\<close>

definition mission1 :: run_record where
  "mission1 = new_mission ''MIS-1'' ''acme'' ''u'' ''CORR-1'' request1 0"

lemma created_mission: "dget (cl_runs (sy_cloud (play created initial_system))) ''MIS-1'' = Some mission1"
  by code_simp

lemmas created_reached = play_reaches [OF schedule_ok(1)]

lemma retry_attempts_bounded_witness:
  "\<exists>r. dget (cl_runs (sy_cloud (play created initial_system))) ''MIS-1'' = Some r \<and> 1 \<le> rn_attempt r \<and> rn_attempt r \<le> 5"
  using retry_attempts_bounded [OF created_reached created_mission] created_mission by blast

lemma mission_tenant_fixed_witness:
  "\<exists>r. dget (cl_runs (sy_cloud (play created initial_system))) ''MIS-1'' = Some r \<and> rn_tenant r \<in> {None, Some (acme ''MIS-1'')}"
  using mission_tenant_fixed [OF created_reached] created_mission by blast

lemma status_changes_legal_witness:
  "\<exists>x c m. run_calls 0 (silent (cancel_mission K ''MIS-1'' ''acme'' False)) (sy_cloud (play created initial_system))
       (sy_mems (play created initial_system) 0) = (x, c, m)
     \<and> (\<forall>r. dget (cl_runs c) ''MIS-1'' = Some r \<longrightarrow>
          rn_status r = QUEUED \<or> rn_status r \<in> set (allowed_transitions QUEUED))"
proof -
  obtain x c m where run: "run_calls 0 (silent (cancel_mission K ''MIS-1'' ''acme'' False)) (sy_cloud (play created initial_system))
       (sy_mems (play created initial_system) 0) = (x, c, m)" by (metis surj_pair)
  have "rn_status mission1 = QUEUED" by (simp add: mission1_def new_mission_def)
  then show ?thesis
    using status_changes_legal [OF created_reached operation.intros(1) run created_mission] run by (auto split: option.splits)
qed

definition cloud1 :: cloud where
  "cloud1 = \<lparr>cl_runs = [(''MIS-1'', mission1)], cl_events = [], cl_evidence = [], cl_jobs = []\<rparr>"

definition cloud2 :: cloud where
  "cloud2 = cloud1\<lparr>cl_runs := [(''MIS-1'', mission1\<lparr>rn_status := CANCELLED\<rparr>)]\<rparr>"

lemma terminal_mission_not_executed_witness:
  "\<exists>res c m. run_calls 7 (execute_job K job1 (\<lambda>_. Inr mission_done)) cloud2 empty_mem = (Inr res, c, m)
     \<and> po_outcome res = PO_CANCELLED \<and> cl_runs c = cl_runs cloud2"
proof -
  obtain x c m where run: "run_calls 7 (execute_job K job1 (\<lambda>_. Inr mission_done)) cloud2 empty_mem = (x, c, m)" by (metis surj_pair)
  have "dget (cl_runs cloud2) (jb_run job1) = Some (mission1\<lparr>rn_status := CANCELLED\<rparr>)"
    by (simp add: cloud2_def job1_def)
  then show ?thesis using terminal_mission_not_executed [OF _ _ run] run by auto
qed

lemma failure_never_retried_by_redelivery_witness:
  "\<exists>c' m'. run_calls 7 (deliver K (Some job1) (\<lambda>_. Inr mission_crashing)) cloud1 empty_mem = (Inr 503, c', m')
    \<and> (\<exists>c'' n'. run_calls 9 (deliver K (Some job1) (\<lambda>_. Inr mission_done)) c' empty_mem = (Inr 200, c'', n') \<and> cl_runs c'' = cl_runs c')"
proof -
  have h: "dget (cl_runs cloud1) (jb_run job1) = Some mission1" "rn_id mission1 = jb_run job1"
    "rn_status mission1 \<notin> set terminal_statuses"
    "\<not> (rn_status mission1 = RUNNING \<and> heartbeat_fresh 7 lease_ttl_seconds (rn_metadata mission1))"
    "prefix ''MIS-'' (jb_run job1)" "jb_type job1 = ''ASSURANCE_MISSION_V2''"
    by (simp_all add: cloud1_def job1_def mission1_def new_mission_def terminal_statuses_def)
  have crash: "work_raises mission1 mission_crashing"
    by (simp add: work_raises_def wants_cancel_def mission_crashing_def mission1_def new_mission_def)
  obtain c' m' where d: "run_calls 7 (deliver K (Some job1) (\<lambda>_. Inr mission_crashing)) cloud1 empty_mem = (Inr 503, c', m')"
    "\<forall>later mission_of' n. \<exists>c'' n'. run_calls later (deliver K (Some job1) mission_of') c' n = (Inr 200, c'', n') \<and> cl_runs c'' = cl_runs c'"
    using failure_never_retried_by_redelivery [where mission_of = "\<lambda>_. Inr mission_crashing" and lenient = True and m = empty_mem,
        OF h(1-4) refl crash h(5,6)] by (elim exE conjE)
  show ?thesis using d(1) d(2) [rule_format, of 9 "\<lambda>_. Inr mission_done" empty_mem] by blast
qed

lemma offered_actions_succeed_witness:
  "\<exists>a. eligible_actions mission1 = Inr a \<and> act_cancel a
     \<and> reply_code (run_calls 7 (cancel_mission K ''MIS-1'' ''acme'' False) cloud1 empty_mem) = Some 200"
proof -
  obtain a where a: "eligible_actions mission1 = Inr a" "act_cancel a"
    by (simp add: eligible_actions_def is_retryable_def mission1_def new_mission_def status_sets)
  have "dget (cl_runs cloud1) ''MIS-1'' = Some mission1" "rn_id mission1 = ''MIS-1''" "owned_by (Some mission1) ''acme'' False"
    by (simp_all add: cloud1_def mission1_def new_mission_def owned_by_def)
  then show ?thesis using offered_actions_succeed [OF _ _ _ a(1)] a by blast
qed

lemma every_stage_accounted_witness:
  "\<exists>r r'. rfold (\<lambda>(s, st, why). record_stage s st why) [(REQUEST_VALIDATION, SS_FAILED, Some ''no source'')] [] = Inr r
     \<and> finalize_stage_outcomes ''not reached'' r = Inr r' \<and> length (outcomes r') = 20"
proof -
  obtain r where r: "rfold (\<lambda>(s, st, why). record_stage s st why) [(REQUEST_VALIDATION, SS_FAILED, Some ''no source'')] [] = Inr r"
    by (simp add: record_stage_def validate_outcome_def no_reason_def)
  then obtain r' where r': "finalize_stage_outcomes ''not reached'' r = Inr r'" "map so_stage (outcomes r') = mission_stage_order"
    using every_stage_accounted [OF r, of "''not reached''"] by auto
  have "length (outcomes r') = 20" using arg_cong [OF r'(2), of length] by (simp add: mission_stage_order_def)
  then show ?thesis using r r' by blast
qed

end
