(* ===== verification/SemanticDiff.thy ===== *)
theory SemanticDiff
  imports OracleLaws
begin

text \<open>
  The semantic diff of two packages, \<open>src/backend/app/engines/diff\<close> (\<open>enums.py\<close>, \<open>models.py\<close>,
  \<open>table_diff.py\<close>, \<open>comparator.py\<close>).  Every field of a difference is kept.  A dict of the
  nodes of one kind is \<open>index_by\<close> their id; \<open>sorted(set(left) | set(right))\<close> is \<open>all_keys\<close>.
\<close>

section \<open>enums.py and models.py\<close>

datatype difference_type =
  VALUE_CHANGE | RANGE_CHANGE | RULE_CHANGE | ORDER_CHANGE | EFFECTIVE_DATE_CHANGE | ROUNDING_CHANGE
  | MISSING_NODE | EXTRA_NODE | TABLE_ROW_CHANGE | TABLE_ROW_MISSING | TABLE_ROW_EXTRA
  | TABLE_COVERAGE_GAP | OUTPUT_CHANGE | MODIFIER_CHANGE | CONSTRAINT_CHANGE | FEE_CHANGE

datatype difference_severity = CRITICAL | HIGH | MEDIUM | LOW

fun severity_value :: "difference_severity \<Rightarrow> string" where
  "severity_value CRITICAL = ''CRITICAL''"
| "severity_value HIGH = ''HIGH''"
| "severity_value MEDIUM = ''MEDIUM''"
| "severity_value LOW = ''LOW''"

record semantic_difference =
  sd_id :: string
  sd_type :: difference_type
  sd_path :: string
  sd_node_id :: string
  sd_node_type :: string
  sd_left :: "pyval option"
  sd_right :: "pyval option"
  sd_severity :: difference_severity
  sd_description :: string
  sd_left_provenance :: "provenance option"
  sd_right_provenance :: "provenance option"
  sd_metadata :: "(string, string) dict"

record semantic_diff_result =
  sr_left_package_id :: string
  sr_right_package_id :: string
  sr_left_version :: string
  sr_right_version :: string
  sr_differences :: "semantic_difference list"
  sr_difference_count :: nat
  sr_severity_counts :: "(string, nat) dict"
  sr_semantically_equal :: bool

section \<open>Shared shapes of the comparison\<close>

definition quote_char :: string where "quote_char = [CHR 0x27]"

definition quoted :: "string \<Rightarrow> string" where "quoted s = quote_char @ s @ quote_char"

definition text_or_none :: "('a \<Rightarrow> string) \<Rightarrow> 'a option \<Rightarrow> string" where
  "text_or_none f v = (case v of None \<Rightarrow> ''None'' | Some x \<Rightarrow> f x)"

definition all_keys :: "('k::linorder, 'a) dict \<Rightarrow> ('k, 'a) dict \<Rightarrow> 'k list" where
  "all_keys l r = sorted_set (map fst l @ map fst r)"

text \<open>The loop over the ids of either side, extending the list of differences.\<close>

definition for_keys ::
  "('k::linorder \<Rightarrow> 'a option \<Rightarrow> 'a option \<Rightarrow> 'd list res) \<Rightarrow> ('k, 'a) dict \<Rightarrow> ('k, 'a) dict \<Rightarrow> 'd list res" where
  "for_keys f l r = rbind (rmap_list (\<lambda>k. f k (dget l k) (dget r k)) (all_keys l r)) (\<lambda>ds. Inr (concat ds))"

text \<open>\<open>if left and right\<close>: nodes of one side only are passed over.\<close>

definition on_both :: "('k \<Rightarrow> 'a \<Rightarrow> 'a \<Rightarrow> 'd list res) \<Rightarrow> 'k \<Rightarrow> 'a option \<Rightarrow> 'a option \<Rightarrow> 'd list res" where
  "on_both f k a b = (case (a, b) of (Some x, Some y) \<Rightarrow> f k x y | _ \<Rightarrow> Inr [])"

text \<open>\<open>Decimal(str(left)) != Decimal(str(right))\<close>, over the texts of the two values.\<close>

definition texts_differ :: "string \<Rightarrow> string \<Rightarrow> bool res" where
  "texts_differ a b = rbind (decimal_of_string a) (\<lambda>x. rbind (decimal_of_string b) (\<lambda>y. Inr (\<not> dec_eq x y)))"

section \<open>table\_diff.py\<close>

definition match_text :: "table_match \<Rightarrow> string" where
  "match_text m =
     (case m of
        ExactMatch v \<Rightarrow> py_str v
      | RangeMatch r \<Rightarrow>
          (case rm_minimum r of None \<Rightarrow> ''-inf'' | Some v \<Rightarrow> py_str v) @ ''..''
          @ (case rm_maximum r of None \<Rightarrow> ''+inf'' | Some v \<Rightarrow> py_str v))"

fun join_with :: "string \<Rightarrow> string list \<Rightarrow> string" where
  "join_with sep [] = []"
| "join_with sep [s] = s"
| "join_with sep (s # t # ts) = s @ sep @ join_with sep (t # ts)"

definition format_match_key :: "table_row \<Rightarrow> string res" where
  "format_match_key row =
     (let parts = map match_text (row_matches row) in
      if 1 < length parts then Inr (join_with ''|'' parts)
      else case parts of [] \<Rightarrow> Inl index_error | p # _ \<Rightarrow> Inr p)"

definition keyed_rows :: "rate_table \<Rightarrow> (string, table_row) dict res" where
  "keyed_rows t =
     rbind (rmap_list (\<lambda>r. rbind (format_match_key r) (\<lambda>k. Inr (k, r))) (tbl_rows t)) (\<lambda>krs.
       Inr (fold (\<lambda>(k, r). dset k r) krs []))"

definition row_difference ::
  "rate_table \<Rightarrow> rate_table \<Rightarrow> string \<Rightarrow> table_row option \<Rightarrow> table_row option \<Rightarrow> semantic_difference list res" where
  "row_difference lt rt key lrow rrow =
     (let i = tbl_id lt; path = ''tables.'' @ i @ ''['' @ key @ '']'' in
      case (lrow, rrow) of
        (Some l, Some r) \<Rightarrow>
          rbind (texts_differ (dec_str (row_value l)) (dec_str (row_value r))) (\<lambda>d. Inr (if d then
            [\<lparr>sd_id = ''diff_'' @ i @ ''_'' @ key @ ''_factor'', sd_type = TABLE_ROW_CHANGE, sd_path = path,
              sd_node_id = i, sd_node_type = ''TABLE_ROW'', sd_left = Some (PDec (row_value l)),
              sd_right = Some (PDec (row_value r)), sd_severity = CRITICAL,
              sd_description = ''Rate table '' @ quoted i @ '' factor for '' @ quoted key @ '' changed from ''
                @ dec_str (row_value l) @ '' to '' @ dec_str (row_value r),
              sd_left_provenance = tbl_provenance lt, sd_right_provenance = tbl_provenance rt,
              sd_metadata = [(''dimension_key'', key)]\<rparr>] else []))
      | (Some l, None) \<Rightarrow> Inr
          [\<lparr>sd_id = ''diff_'' @ i @ ''_'' @ key @ ''_missing'', sd_type = TABLE_ROW_MISSING, sd_path = path,
            sd_node_id = i, sd_node_type = ''TABLE_ROW'', sd_left = Some (PDec (row_value l)), sd_right = None,
            sd_severity = CRITICAL,
            sd_description = ''Rate table '' @ quoted i @ '' row '' @ quoted key @ '' missing on right side'',
            sd_left_provenance = tbl_provenance lt, sd_right_provenance = None,
            sd_metadata = [(''dimension_key'', key)]\<rparr>]
      | (None, Some r) \<Rightarrow> Inr
          [\<lparr>sd_id = ''diff_'' @ i @ ''_'' @ key @ ''_extra'', sd_type = TABLE_ROW_EXTRA, sd_path = path,
            sd_node_id = i, sd_node_type = ''TABLE_ROW'', sd_left = None, sd_right = Some (PDec (row_value r)),
            sd_severity = CRITICAL,
            sd_description = ''Rate table '' @ quoted i @ '' row '' @ quoted key @ '' present on right side only'',
            sd_left_provenance = None, sd_right_provenance = tbl_provenance rt,
            sd_metadata = [(''dimension_key'', key)]\<rparr>]
      | (None, None) \<Rightarrow> Inr [])"

definition compare_rate_tables :: "rate_table \<Rightarrow> rate_table \<Rightarrow> semantic_difference list res" where
  "compare_rate_tables lt rt =
     rbind (keyed_rows lt) (\<lambda>lm. rbind (keyed_rows rt) (\<lambda>rm. for_keys (row_difference lt rt) lm rm))"

section \<open>comparator.py\<close>

definition period_start :: "effective_period option \<Rightarrow> date option" where
  "period_start p = map_option ep_start p"

definition compare_effective_periods ::
  "string \<Rightarrow> string \<Rightarrow> string \<Rightarrow> effective_period option \<Rightarrow> effective_period option \<Rightarrow> semantic_difference list" where
  "compare_effective_periods path node_id node_type lp rp =
     (let ls = period_start lp; rs = period_start rp in
      if ls \<noteq> rs then
        [\<lparr>sd_id = ''diff_'' @ node_id @ ''_effective_start'', sd_type = EFFECTIVE_DATE_CHANGE,
          sd_path = path @ ''.effective_period.start'', sd_node_id = node_id, sd_node_type = node_type,
          sd_left = map_option (\<lambda>d. PStr (isoformat d)) ls, sd_right = map_option (\<lambda>d. PStr (isoformat d)) rs,
          sd_severity = HIGH,
          sd_description = ''Effective start date for '' @ node_type @ '' '' @ quoted node_id @ '' changed from ''
            @ text_or_none isoformat ls @ '' to '' @ text_or_none isoformat rs,
          sd_left_provenance = None, sd_right_provenance = None, sd_metadata = []\<rparr>]
      else [])"

definition input_difference ::
  "string \<Rightarrow> pricing_input option \<Rightarrow> pricing_input option \<Rightarrow> semantic_difference list res" where
  "input_difference i l r =
     (case (l, r) of
        (Some x, None) \<Rightarrow> Inr
          [\<lparr>sd_id = ''diff_input_'' @ i @ ''_missing'', sd_type = MISSING_NODE, sd_path = ''inputs.'' @ i,
            sd_node_id = i, sd_node_type = ''INPUT'', sd_left = Some (PStr (pi_id x)), sd_right = None,
            sd_severity = CRITICAL, sd_description = ''Input '' @ quoted i @ '' missing on right side'',
            sd_left_provenance = None, sd_right_provenance = None, sd_metadata = []\<rparr>]
      | (None, Some y) \<Rightarrow> Inr
          [\<lparr>sd_id = ''diff_input_'' @ i @ ''_extra'', sd_type = EXTRA_NODE, sd_path = ''inputs.'' @ i,
            sd_node_id = i, sd_node_type = ''INPUT'', sd_left = None, sd_right = Some (PStr (pi_id y)),
            sd_severity = CRITICAL, sd_description = ''Input '' @ quoted i @ '' present on right side only'',
            sd_left_provenance = None, sd_right_provenance = None, sd_metadata = []\<rparr>]
      | _ \<Rightarrow> Inr [])"

text \<open>
  The node of a changed field: kind \<open>noun\<close> in the texts, \<open>NODE\<close> as node type, the field's name in
  the path and, after the noun, in the description.
\<close>

definition node_difference ::
  "string \<Rightarrow> string \<Rightarrow> string \<Rightarrow> string \<Rightarrow> string \<Rightarrow> string \<Rightarrow> difference_type \<Rightarrow> difference_severity \<Rightarrow>
   pyval option \<Rightarrow> pyval option \<Rightarrow> provenance option \<Rightarrow> provenance option \<Rightarrow> semantic_difference" where
  "node_difference kind noun node_type i field words ty sev lv rv lp rp =
     \<lparr>sd_id = ''diff_'' @ kind @ ''_'' @ i @ ''_'' @ field, sd_type = ty,
       sd_path = kind @ ''s.'' @ i @ ''.'' @ field, sd_node_id = i, sd_node_type = node_type,
       sd_left = lv, sd_right = rv, sd_severity = sev,
       sd_description = noun @ '' '' @ quoted i @ '' '' @ words @ '' changed from '' @ text_or_none py_str lv
         @ '' to '' @ text_or_none py_str rv,
       sd_left_provenance = lp, sd_right_provenance = rp, sd_metadata = []\<rparr>"

definition constant_difference ::
  "string \<Rightarrow> pricing_constant \<Rightarrow> pricing_constant \<Rightarrow> semantic_difference list res" where
  "constant_difference i l r =
     rbind (texts_differ (dec_str (const_value l)) (dec_str (const_value r))) (\<lambda>d. Inr (if d then
       [node_difference ''constant'' ''Constant'' ''CONSTANT'' i ''value'' ''value'' VALUE_CHANGE CRITICAL
          (Some (PDec (const_value l))) (Some (PDec (const_value r))) (const_provenance l) (const_provenance r)] else []))"

text \<open>A reference prints as pydantic prints a model; \<open>ref\<close> is an identifier, whose quoted form is \<open>'ref'\<close>.\<close>

fun modifier_text :: "modifier_value \<Rightarrow> string" where
  "modifier_text (ModDec d) = dec_str d"
| "modifier_text (ModRef r) = ''ref='' @ quoted r"

fun modifier_plain :: "modifier_value \<Rightarrow> pyval" where
  "modifier_plain (ModDec d) = PDec d"
| "modifier_plain (ModRef r) = PStr (''ref='' @ quoted r)"

definition sequence_difference ::
  "string \<Rightarrow> string \<Rightarrow> string \<Rightarrow> string \<Rightarrow> string \<Rightarrow> int option \<Rightarrow> int option \<Rightarrow> provenance option \<Rightarrow> provenance option \<Rightarrow>
   semantic_difference list" where
  "sequence_difference kind noun node_type words i ls rs lp rp =
     (if ls \<noteq> rs then
        [node_difference kind noun node_type i ''sequence'' words ORDER_CHANGE CRITICAL
           (map_option PInt ls) (map_option PInt rs) lp rp] else [])"

definition modifier_difference ::
  "string \<Rightarrow> pricing_modifier \<Rightarrow> pricing_modifier \<Rightarrow> semantic_difference list res" where
  "modifier_difference i l r =
     rbind (texts_differ (modifier_text (mod_value l)) (modifier_text (mod_value r))) (\<lambda>d.
       Inr (compare_effective_periods (''modifiers.'' @ i) i ''MODIFIER'' (mod_period l) (mod_period r)
         @ (if d then
              [node_difference ''modifier'' ''Modifier'' ''MODIFIER'' i ''value'' ''value'' MODIFIER_CHANGE HIGH
                 (Some (modifier_plain (mod_value l))) (Some (modifier_plain (mod_value r)))
                 (mod_provenance l) (mod_provenance r)] else [])
         @ sequence_difference ''modifier'' ''Modifier'' ''MODIFIER'' ''sequence order'' i
             (mod_sequence l) (mod_sequence r) (mod_provenance l) (mod_provenance r)))"

definition constraint_difference ::
  "string \<Rightarrow> premium_constraint \<Rightarrow> premium_constraint \<Rightarrow> semantic_difference list res" where
  "constraint_difference i l r =
     rbind (texts_differ (dec_str (pc_amount l)) (dec_str (pc_amount r))) (\<lambda>d.
       Inr ((if d then
              [node_difference ''constraint'' ''Constraint'' ''CONSTRAINT'' i ''amount'' ''amount'' CONSTRAINT_CHANGE CRITICAL
                 (Some (PDec (pc_amount l))) (Some (PDec (pc_amount r))) (pc_provenance l) (pc_provenance r)] else [])
         @ sequence_difference ''constraint'' ''Constraint'' ''CONSTRAINT'' ''sequence order'' i
             (pc_sequence l) (pc_sequence r) (pc_provenance l) (pc_provenance r)))"

definition fee_difference :: "string \<Rightarrow> pricing_fee \<Rightarrow> pricing_fee \<Rightarrow> semantic_difference list res" where
  "fee_difference i l r =
     rbind (texts_differ (dec_str (fee_amount l)) (dec_str (fee_amount r))) (\<lambda>d.
       Inr ((if d then
              [node_difference ''fee'' ''Fee'' ''FEE'' i ''amount'' ''amount'' FEE_CHANGE CRITICAL
                 (Some (PDec (fee_amount l))) (Some (PDec (fee_amount r))) (fee_provenance l) (fee_provenance r)] else [])
         @ sequence_difference ''fee'' ''Fee'' ''FEE'' ''sequence'' i
             (fee_sequence l) (fee_sequence r) (fee_provenance l) (fee_provenance r)))"

text \<open>The seven comparisons in the order of the code, and what they found together.\<close>

definition package_differences :: "ipir_package \<Rightarrow> ipir_package \<Rightarrow> semantic_difference list res" where
  "package_differences l r =
     rbind (for_keys input_difference (index_by pi_id (pkg_inputs l) []) (index_by pi_id (pkg_inputs r) [])) (\<lambda>d2.
     rbind (for_keys (on_both constant_difference)
              (index_by const_id (pkg_constants l) []) (index_by const_id (pkg_constants r) [])) (\<lambda>d3.
     rbind (for_keys (on_both (\<lambda>_. compare_rate_tables))
              (index_by tbl_id (pkg_tables l) []) (index_by tbl_id (pkg_tables r) [])) (\<lambda>d4.
     rbind (for_keys (on_both modifier_difference)
              (index_by mod_id (pkg_modifiers l) []) (index_by mod_id (pkg_modifiers r) [])) (\<lambda>d5.
     rbind (for_keys (on_both constraint_difference)
              (index_by pc_id (pkg_constraints l) []) (index_by pc_id (pkg_constraints r) [])) (\<lambda>d6.
     rbind (for_keys (on_both fee_difference)
              (index_by fee_id (pkg_fees l) []) (index_by fee_id (pkg_fees r) [])) (\<lambda>d7.
       Inr (compare_effective_periods ''package'' (pkg_id l) ''PACKAGE'' (Some (pkg_period l)) (Some (pkg_period r))
            @ d2 @ d3 @ d4 @ d5 @ d6 @ d7)))))))"

definition severity_counts :: "semantic_difference list \<Rightarrow> (string, nat) dict" where
  "severity_counts ds =
     fold (\<lambda>d c. dset (severity_value (sd_severity d)) (dget_default c (severity_value (sd_severity d)) 0 + 1) c) ds []"

definition compare_packages :: "ipir_package \<Rightarrow> ipir_package \<Rightarrow> semantic_diff_result res" where
  "compare_packages l r =
     rbind (package_differences l r) (\<lambda>ds. Inr
       \<lparr>sr_left_package_id = pkg_id l, sr_right_package_id = pkg_id r, sr_left_version = pkg_version l,
         sr_right_version = pkg_version r, sr_differences = ds, sr_difference_count = length ds,
         sr_severity_counts = severity_counts ds, sr_semantically_equal = (length ds = 0)\<rparr>)"

end
