(* ===== verification/DependencyImpact.thy ===== *)
theory DependencyImpact
  imports SemanticDiff
begin

text \<open>
  The blast radius of a diff, \<open>src/backend/app/engines/impact\<close>: the dependency graph of a package
  (\<open>graph.py\<close>), the risk predicate of a difference (\<open>predicates.py\<close>) and the analyzer
  (\<open>analyzer.py\<close>, \<open>models.py\<close>).

  networkx is not under \<open>src/\<close>: the functions of it that are called are the fields of a record
  \<open>networkx\<close>, an argument of the definitions that call them.  \<open>digraph_library\<close> states what
  networkx documents of them.  A Python set is iterated in an order that the language leaves open;
  that order is the argument \<open>iter\<close> of the analyzer, a function from the elements to their order.
  The paths and the successors only feed the report.
\<close>

section \<open>models.py\<close>

record predicate_clause =
  cl_field :: string
  cl_operator :: comparison_operator
  cl_value :: pyval

record impact_predicate =
  ip_id :: string
  ip_clauses :: "predicate_clause list"
  ip_logical :: logical_operator
  ip_temporal_start :: "date option"
  ip_temporal_end :: "date option"
  ip_description :: string

record impact_analysis =
  ia_package_id :: string
  ia_changed_nodes :: "string list"
  ia_directly_affected :: "string list"
  ia_downstream_affected :: "string list"
  ia_affected_outputs :: "string list"
  ia_affected_coverages :: "string list"
  ia_dependency_paths :: "string list list"
  ia_predicates :: "impact_predicate list"
  ia_total_differences :: nat
  ia_diff_equal :: bool

section \<open>graph.py\<close>

type_synonym edges = "(string \<times> string) list"

record networkx =
  nx_is_dag :: "string list \<Rightarrow> edges \<Rightarrow> bool"
  nx_descendants :: "edges \<Rightarrow> string \<Rightarrow> string list"
  nx_ancestors :: "edges \<Rightarrow> string \<Rightarrow> string list"
  nx_simple_paths :: "edges \<Rightarrow> string \<Rightarrow> string \<Rightarrow> string list list"

text \<open>A \<open>DiGraph\<close>: nodes with their \<open>node_type\<close>, and edges, each once, in insertion order.\<close>

record dependency_graph =
  dg_nodes :: "(string, string option) dict"
  dg_edges :: edges

definition add_node :: "string \<Rightarrow> string \<Rightarrow> dependency_graph \<Rightarrow> dependency_graph" where
  "add_node i ty g = g\<lparr>dg_nodes := dset i (Some ty) (dg_nodes g)\<rparr>"

definition touch_node :: "string \<Rightarrow> (string, string option) dict \<Rightarrow> (string, string option) dict" where
  "touch_node i ns = (if dget ns i = None then dset i None ns else ns)"

definition add_edge :: "string \<Rightarrow> string \<Rightarrow> dependency_graph \<Rightarrow> dependency_graph" where
  "add_edge u v g = g\<lparr>dg_nodes := touch_node v (touch_node u (dg_nodes g)),
     dg_edges := (if (u, v) \<in> set (dg_edges g) then dg_edges g else dg_edges g @ [(u, v)])\<rparr>"

definition add_coverage :: "coverage_definition \<Rightarrow> dependency_graph \<Rightarrow> dependency_graph" where
  "add_coverage c g =
     (let h = fold (\<lambda>r. add_edge r (cov_id c)) (cov_calculation_refs c) (add_node (cov_id c) ''COVERAGE'' g) in
      case cov_output_ref c of None \<Rightarrow> h | Some out \<Rightarrow> if out = [] then h else add_edge (cov_id c) out h)"

definition build_graph :: "ipir_package \<Rightarrow> dependency_graph" where
  "build_graph p =
     (let g1 = fold (\<lambda>i. add_node (pi_id i) ''INPUT'') (pkg_inputs p) \<lparr>dg_nodes = [], dg_edges = []\<rparr>;
          g2 = fold (\<lambda>c. add_node (const_id c) ''CONSTANT'') (pkg_constants p) g1;
          g3 = fold (\<lambda>t g. fold (\<lambda>d. add_edge (td_input_ref d) (tbl_id t)) (tbl_dimensions t)
                 (add_node (tbl_id t) ''TABLE'' g)) (pkg_tables p) g2;
          g4 = fold (\<lambda>r. add_node (rule_id r) ''RULE'') (pkg_rules p) g3;
          g5 = fold (\<lambda>n g. fold (\<lambda>dep. add_edge dep (calc_id n)) (calc_depends_on n)
                 (add_node (calc_id n) ''CALCULATION'' g)) (pkg_calculations p) g4;
          g6 = fold (\<lambda>m g. add_edge (mod_applies_to m) (mod_id m) (add_node (mod_id m) ''MODIFIER'' g)) (pkg_modifiers p) g5;
          g7 = fold (\<lambda>c g. add_edge (pc_applies_to c) (pc_id c) (add_node (pc_id c) ''CONSTRAINT'' g)) (pkg_constraints p) g6;
          g8 = fold (\<lambda>f g. add_edge (fee_applies_to f) (fee_id f) (add_node (fee_id f) ''FEE'' g)) (pkg_fees p) g7;
          g9 = fold add_coverage (pkg_coverages p) g8
      in fold (\<lambda>out g. add_edge (out_source_ref out) (out_id out) (add_node (out_id out) ''OUTPUT'' g)) (pkg_outputs p) g9)"

definition graph_of :: "networkx \<Rightarrow> ipir_package \<Rightarrow> dependency_graph res" where
  "graph_of nx p =
     (let g = build_graph p in
      if nx_is_dag nx (map fst (dg_nodes g)) (dg_edges g) then Inr g else Inl ImpactAnalysisError)"

definition get_descendants :: "networkx \<Rightarrow> dependency_graph \<Rightarrow> string \<Rightarrow> string list" where
  "get_descendants nx g i =
     (if dget (dg_nodes g) i = None then [] else sorted_set (nx_descendants nx (dg_edges g) i))"

definition get_ancestors :: "networkx \<Rightarrow> dependency_graph \<Rightarrow> string \<Rightarrow> string list" where
  "get_ancestors nx g i =
     (if dget (dg_nodes g) i = None then [] else sorted_set (nx_ancestors nx (dg_edges g) i))"

definition get_paths :: "networkx \<Rightarrow> dependency_graph \<Rightarrow> string \<Rightarrow> string \<Rightarrow> string list list" where
  "get_paths nx g src tgt =
     (if dget (dg_nodes g) src = None \<or> dget (dg_nodes g) tgt = None then []
      else nx_simple_paths nx (dg_edges g) src tgt)"

definition successors :: "dependency_graph \<Rightarrow> string \<Rightarrow> string list" where
  "successors g i = map snd (filter (\<lambda>e. fst e = i) (dg_edges g))"

section \<open>predicates.py\<close>

fun operator_value :: "comparison_operator \<Rightarrow> string" where
  "operator_value EQ = ''EQ''"
| "operator_value NE = ''NE''"
| "operator_value GT = ''GT''"
| "operator_value GTE = ''GTE''"
| "operator_value LT = ''LT''"
| "operator_value LTE = ''LTE''"

definition predicate_id :: "semantic_difference \<Rightarrow> string" where
  "predicate_id d = ''pred_'' @ sd_id d"

definition global_predicate :: "semantic_difference \<Rightarrow> impact_predicate" where
  "global_predicate d = \<lparr>ip_id = predicate_id d, ip_clauses = [], ip_logical = AND_OP,
     ip_temporal_start = None, ip_temporal_end = None,
     ip_description = quoted (sd_node_id d)
       @ '' change with no risk-based eligibility of its own -- applies to every policy that reaches the affected calculation node.''\<rparr>"

definition eligibility_clause :: "string \<Rightarrow> comparison_operator \<Rightarrow> pyval \<Rightarrow> semantic_difference \<Rightarrow> impact_predicate" where
  "eligibility_clause field op v d =
     \<lparr>ip_id = predicate_id d, ip_clauses = [\<lparr>cl_field = field, cl_operator = op, cl_value = v\<rparr>],
       ip_logical = AND_OP, ip_temporal_start = None, ip_temporal_end = None,
       ip_description = ''Risk attribute condition matching '' @ quoted (sd_node_id d) @ '' eligibility ('' @ field @ '' ''
         @ operator_value op @ '' '' @ py_str v @ '').''\<rparr>"

definition predicate_from_eligibility ::
  "semantic_difference \<Rightarrow> expr \<Rightarrow> comparison_operator \<Rightarrow> expr \<Rightarrow> impact_predicate option" where
  "predicate_from_eligibility d l op r =
     (case (l, r) of
        (ERef f, ELit v) \<Rightarrow> Some (eligibility_clause f op v d)
      | (ELit v, ERef f) \<Rightarrow> Some (eligibility_clause f op v d)
      | _ \<Rightarrow> None)"

text \<open>\<open>text.split(sep)\<close> and \<open>sep in text\<close>, for a separator that is not empty.\<close>

function split_text :: "string \<Rightarrow> string \<Rightarrow> string \<Rightarrow> string list" where
  "split_text sep acc [] = [rev acc]"
| "split_text sep acc (c # cs) =
     (if sep \<noteq> [] \<and> prefix sep (c # cs) then rev acc # split_text sep [] (drop (length sep) (c # cs))
      else split_text sep (c # acc) cs)"
  by pat_completeness auto
termination
  by (relation "measure (\<lambda>(sep, acc, s). length s)") auto

definition py_split :: "string \<Rightarrow> string \<Rightarrow> string list" where "py_split sep s = split_text sep [] s"

fun text_contains :: "string \<Rightarrow> string \<Rightarrow> bool" where
  "text_contains sub [] = (sub = [])"
| "text_contains sub (c # cs) = (prefix sub (c # cs) \<or> text_contains sub cs)"

definition bound_clause :: "string \<Rightarrow> string \<Rightarrow> comparison_operator \<Rightarrow> string \<Rightarrow> predicate_clause list res" where
  "bound_clause open_text field op s =
     (if s = open_text then Inr []
      else rbind (decimal_of_string s) (\<lambda>d. Inr [\<lparr>cl_field = field, cl_operator = op, cl_value = PDec d\<rparr>]))"

definition key_clauses :: "table_dimension \<times> string \<Rightarrow> predicate_clause list res" where
  "key_clauses = (\<lambda>(dm, part).
     case td_lookup_type dm of
       EXACT \<Rightarrow> Inr [\<lparr>cl_field = td_input_ref dm, cl_operator = EQ, cl_value = PStr part\<rparr>]
     | RANGE \<Rightarrow>
         if text_contains ''..'' part then
           (case py_split ''..'' part of
              [lo, hi] \<Rightarrow>
                rbind (bound_clause ''-inf'' (td_input_ref dm) GTE lo) (\<lambda>a.
                rbind (bound_clause ''+inf'' (td_input_ref dm) LTE hi) (\<lambda>b. Inr (a @ b)))
            | _ \<Rightarrow> Inl ValueError)
         else Inr [])"

definition table_predicate :: "semantic_difference \<Rightarrow> rate_table \<Rightarrow> impact_predicate res" where
  "table_predicate d t =
     (let key = dget_default (sd_metadata d) ''dimension_key'' [] in
      rbind (rmap_list key_clauses (zip (tbl_dimensions t) (py_split ''|'' key))) (\<lambda>cs.
        Inr \<lparr>ip_id = predicate_id d, ip_clauses = concat cs, ip_logical = AND_OP,
          ip_temporal_start = None, ip_temporal_end = None,
          ip_description = ''Risk attributes matching table lookup '' @ quoted (tbl_id t) @ '' key ['' @ key @ '']''\<rparr>))"

text \<open>\<open>min(filter(None, \<dots>))\<close> and \<open>max\<close> of the starts that are present.\<close>

definition some_date :: "pyval option \<Rightarrow> date option res" where
  "some_date v = (case v of None \<Rightarrow> Inr None
     | Some x \<Rightarrow> if x = PStr [] then Inr None else rbind (date_fromisoformat (py_str x)) (\<lambda>d. Inr (Some d)))"

definition earliest :: "date option \<Rightarrow> date option \<Rightarrow> date option" where
  "earliest a b = (case (a, b) of (Some x, Some y) \<Rightarrow> Some (min x y) | (None, y) \<Rightarrow> y | (x, None) \<Rightarrow> x)"

definition latest :: "date option \<Rightarrow> date option \<Rightarrow> date option" where
  "latest a b = (case (a, b) of (Some x, Some y) \<Rightarrow> Some (max x y) | (None, y) \<Rightarrow> y | (x, None) \<Rightarrow> x)"

definition window_predicate :: "semantic_difference \<Rightarrow> impact_predicate res" where
  "window_predicate d =
     rbind (some_date (sd_left d)) (\<lambda>a. rbind (some_date (sd_right d)) (\<lambda>b.
       Inr \<lparr>ip_id = predicate_id d, ip_clauses = [], ip_logical = AND_OP,
         ip_temporal_start = earliest a b, ip_temporal_end = latest a b,
         ip_description = ''Temporal discrepancy window for '' @ quoted (sd_node_id d) @ '' between ''
           @ text_or_none isoformat (earliest a b) @ '' and '' @ text_or_none isoformat (latest a b)\<rparr>))"

definition modifier_predicate :: "semantic_difference \<Rightarrow> ipir_package \<Rightarrow> impact_predicate" where
  "modifier_predicate d p =
     (case find (\<lambda>m. mod_id m = sd_node_id d) (pkg_modifiers p) of
        Some m \<Rightarrow>
          (case mod_eligibility m of
             Some (Compare l op r) \<Rightarrow>
               (case predicate_from_eligibility d l op r of Some q \<Rightarrow> q | None \<Rightarrow> global_predicate d)
           | _ \<Rightarrow> global_predicate d)
      | None \<Rightarrow> global_predicate d)"

definition derive_predicate :: "semantic_difference \<Rightarrow> ipir_package \<Rightarrow> impact_predicate res" where
  "derive_predicate d p =
     (if sd_type d = EFFECTIVE_DATE_CHANGE then window_predicate d
      else if sd_type d \<in> {TABLE_ROW_CHANGE, TABLE_ROW_MISSING, TABLE_ROW_EXTRA} then
        (case find (\<lambda>t. tbl_id t = sd_node_id d) (pkg_tables p) of
           None \<Rightarrow> Inr (global_predicate d) | Some t \<Rightarrow> table_predicate d t)
      else if sd_type d = MODIFIER_CHANGE then Inr (modifier_predicate d p)
      else Inr (global_predicate d))"

text \<open>Predicates straight from the rate tables of one package, for a run without a second source.\<close>

definition match_clauses :: "table_dimension \<times> table_match \<Rightarrow> predicate_clause list" where
  "match_clauses = (\<lambda>(dm, m).
     let f = td_input_ref dm in
     case m of
       RangeMatch r \<Rightarrow>
         (case rm_minimum r of None \<Rightarrow> [] | Some v \<Rightarrow> [\<lparr>cl_field = f, cl_operator = GTE, cl_value = v\<rparr>])
         @ (case rm_maximum r of None \<Rightarrow> [] | Some v \<Rightarrow> [\<lparr>cl_field = f, cl_operator = LTE, cl_value = v\<rparr>])
     | ExactMatch v \<Rightarrow> [\<lparr>cl_field = f, cl_operator = EQ, cl_value = v\<rparr>])"

definition row_clauses :: "rate_table \<Rightarrow> table_row \<Rightarrow> predicate_clause list" where
  "row_clauses t r = concat (map match_clauses (zip (tbl_dimensions t) (row_matches r)))"

definition self_predicate :: "rate_table \<Rightarrow> table_row \<Rightarrow> nat \<times> impact_predicate list \<Rightarrow> nat \<times> impact_predicate list" where
  "self_predicate t r = (\<lambda>(n, ps).
     let cs = row_clauses t r in
     if \<exists>c \<in> set cs. cl_operator c \<in> {GTE, LTE} then
       (n + 1, ps @ [\<lparr>ip_id = ''pred_self_'' @ tbl_id t @ ''_'' @ nat_str (n + 1), ip_clauses = cs,
          ip_logical = AND_OP, ip_temporal_start = None, ip_temporal_end = None,
          ip_description = ''Risk attributes matching rate table '' @ quoted (tbl_id t) @ '' row boundary.''\<rparr>])
     else (n, ps))"

definition derive_predicates_from_package :: "ipir_package \<Rightarrow> impact_predicate list" where
  "derive_predicates_from_package p =
     snd (fold (\<lambda>t s. if \<exists>dm \<in> set (tbl_dimensions t). td_lookup_type dm = RANGE
                       then fold (self_predicate t) (tbl_rows t) s else s) (pkg_tables p) (0, []))"

section \<open>analyzer.py\<close>

definition analyze :: "networkx \<Rightarrow> (string list \<Rightarrow> string list) \<Rightarrow> semantic_diff_result \<Rightarrow> ipir_package \<Rightarrow> impact_analysis res" where
  "analyze nx iter diff p =
     rbind (graph_of nx p) (\<lambda>g.
     let ds = sr_differences diff;
         changed = sorted_set (map sd_node_id ds);
         down = concat (map (\<lambda>d. get_descendants nx g (sd_node_id d)) ds);
         out_ids = map out_id (pkg_outputs p); cov_ids = map cov_id (pkg_coverages p)
     in
     rbind (rmap_list (\<lambda>d. derive_predicate d p) ds) (\<lambda>preds.
       Inr \<lparr>ia_package_id = pkg_id p, ia_changed_nodes = changed,
         ia_directly_affected = sorted_set (concat (map (successors g) changed)),
         ia_downstream_affected = sorted_set down,
         ia_affected_outputs = sorted_set (filter (\<lambda>i. i \<in> set out_ids) down),
         ia_affected_coverages = sorted_set (filter (\<lambda>i. i \<in> set cov_ids) down),
         ia_dependency_paths = concat (map (\<lambda>d. concat (map (get_paths nx g (sd_node_id d)) (iter (remdups out_ids)))) ds),
         ia_predicates = preds, ia_total_differences = sr_difference_count diff,
         ia_diff_equal = sr_semantically_equal diff\<rparr>))"

end
