(* ===== verification/Reconciliation.thy ===== *)
theory Reconciliation
  imports DependencyImpact
begin

text \<open>
  Reconciliation of a priced policy, \<open>src/backend/app/engines/reconciliation\<close>: alignment of two
  traces (\<open>trace_alignment.py\<close>), the root cause of a divergence (\<open>rca.py\<close>) and the comparison of an
  expected with an actual result (\<open>comparator.py\<close>, \<open>models.py\<close>); and the scenario record of
  \<open>engines/testing/models.py\<close> that all of it is about.  The sum of the contributing root causes, an
  empty list in the code, is left out.
\<close>

section \<open>testing/models.py: scenarios\<close>

datatype scenario_classification =
  CONTROL | BOUNDARY | SINGLE_DEFECT | MULTI_DEFECT | TEMPORAL | INTERACTION | CONSTRAINT_ORDER

text \<open>The JSON values that the generators put into \<open>metadata\<close>.\<close>

datatype meta = MText string | MList "string list" | MDict "(string \<times> meta) list"

record test_scenario =
  sc_id :: string
  sc_name :: string
  sc_risk :: risk_values
  sc_date :: date
  sc_txn :: transaction_type
  sc_purpose :: string
  sc_class :: scenario_classification
  sc_diff_ids :: "string list"
  sc_group_ids :: "string list"
  sc_node_ids :: "string list"
  sc_tags :: "string list"
  sc_score :: nat
  sc_expected_coverage :: "string list"
  sc_metadata :: "(string, meta) dict"

section \<open>trace\_alignment.py\<close>

record trace_difference =
  td_node_id :: string
  td_node_type :: string
  td_expected :: pyval
  td_actual :: pyval
  td_absolute :: "decimal option"
  td_percentage :: "decimal option"
  td_position :: nat

text \<open>\<open>_to_decimal_safe\<close>: a bool is no number.\<close>

definition to_decimal_safe :: "pyval \<Rightarrow> decimal option" where
  "to_decimal_safe v =
     (if is_number v then
        (case to_dec v of
           Inl e \<Rightarrow> None
         | Inr d \<Rightarrow> Some d)
      else None)"

definition hundred :: decimal where "hundred = Dec False 100 0"

text \<open>\<open>round(x, 4)\<close> of a Decimal.\<close>

definition round4 :: "decimal \<Rightarrow> decimal res" where
  "round4 d = dec_quantize HALF_EVEN d (- 4)"

definition absolute_difference :: "decimal \<Rightarrow> decimal \<Rightarrow> decimal res" where
  "absolute_difference a b = rbind (dec_sub a b) dec_abs"

definition percentage_of :: "decimal \<Rightarrow> decimal \<Rightarrow> decimal res" where
  "percentage_of part whole = rbind (dec_div part whole) (\<lambda>q. dec_mul q hundred)"

definition compare_steps :: "nat \<Rightarrow> trace_step \<Rightarrow> trace_step \<Rightarrow> trace_difference list res" where
  "compare_steps n e a =
     (let found = (\<lambda>ab pc. [\<lparr>td_node_id = ts_node_id e, td_node_type = ts_node_type e,
            td_expected = ts_result e, td_actual = ts_result a, td_absolute = ab, td_percentage = pc,
            td_position = n\<rparr>]) in
      case (to_decimal_safe (ts_result e), to_decimal_safe (ts_result a)) of
        (Some x, Some y) \<Rightarrow>
          if dec_eq x y then Inr []
          else rbind (absolute_difference x y) (\<lambda>ab.
            if dec_eq x dec_zero then Inr (found (Some ab) None)
            else rbind (percentage_of ab x) (\<lambda>p. rbind (round4 p) (\<lambda>pc. Inr (found (Some ab) (Some pc)))))
      | _ \<Rightarrow> if py_str (ts_result e) \<noteq> py_str (ts_result a) then Inr (found None None) else Inr [])"

definition align_and_compare_traces :: "trace_step list \<Rightarrow> trace_step list \<Rightarrow> trace_difference list res" where
  "align_and_compare_traces expected actual =
     (let by_id = index_by ts_node_id actual [] in
      rbind (rmap_list (\<lambda>(n, e). case dget by_id (ts_node_id e) of None \<Rightarrow> Inr [] | Some a \<Rightarrow> compare_steps n e a)
               (List.enumerate 1 expected)) (\<lambda>ds. Inr (concat ds)))"

section \<open>rca.py\<close>

fun difference_type_value :: "difference_type \<Rightarrow> string" where
  "difference_type_value VALUE_CHANGE = ''VALUE_CHANGE''"
| "difference_type_value RANGE_CHANGE = ''RANGE_CHANGE''"
| "difference_type_value RULE_CHANGE = ''RULE_CHANGE''"
| "difference_type_value ORDER_CHANGE = ''ORDER_CHANGE''"
| "difference_type_value EFFECTIVE_DATE_CHANGE = ''EFFECTIVE_DATE_CHANGE''"
| "difference_type_value ROUNDING_CHANGE = ''ROUNDING_CHANGE''"
| "difference_type_value MISSING_NODE = ''MISSING_NODE''"
| "difference_type_value EXTRA_NODE = ''EXTRA_NODE''"
| "difference_type_value TABLE_ROW_CHANGE = ''TABLE_ROW_CHANGE''"
| "difference_type_value TABLE_ROW_MISSING = ''TABLE_ROW_MISSING''"
| "difference_type_value TABLE_ROW_EXTRA = ''TABLE_ROW_EXTRA''"
| "difference_type_value TABLE_COVERAGE_GAP = ''TABLE_COVERAGE_GAP''"
| "difference_type_value OUTPUT_CHANGE = ''OUTPUT_CHANGE''"
| "difference_type_value MODIFIER_CHANGE = ''MODIFIER_CHANGE''"
| "difference_type_value CONSTRAINT_CHANGE = ''CONSTRAINT_CHANGE''"
| "difference_type_value FEE_CHANGE = ''FEE_CHANGE''"

record root_cause_finding =
  rc_node_id :: string
  rc_category :: string
  rc_title :: string
  rc_explanation :: string
  rc_expected :: "pyval option"
  rc_actual :: "pyval option"
  rc_path :: string
  rc_type :: difference_type
  rc_severity :: difference_severity
  rc_group :: "string option"
  rc_evidence :: "(string, string option) dict"
  rc_downstream :: "string list"

text \<open>\<open>"SEQUENCE_ORDER" in str(trace_diffs)\<close>: the text shows the ids, the types and the text values.\<close>

definition value_mentions :: "string \<Rightarrow> pyval \<Rightarrow> bool" where
  "value_mentions s v = (case v of PStr t \<Rightarrow> text_contains s t | _ \<Rightarrow> False)"

definition mentions :: "string \<Rightarrow> trace_difference \<Rightarrow> bool" where
  "mentions s td \<longleftrightarrow> text_contains s (td_node_id td) \<or> text_contains s (td_node_type td)
     \<or> value_mentions s (td_expected td) \<or> value_mentions s (td_actual td)"

definition first_table_change :: "string list \<Rightarrow> semantic_difference list \<Rightarrow> semantic_difference option" where
  "first_table_change divergent ds =
     find (\<lambda>d. sd_type d = TABLE_ROW_CHANGE \<and> sd_node_id d \<in> set divergent) ds"

definition first_date_change :: "string list \<Rightarrow> semantic_difference list \<Rightarrow> semantic_difference option" where
  "first_date_change divergent ds =
     find (\<lambda>d. sd_type d = EFFECTIVE_DATE_CHANGE
              \<and> (sd_node_id d \<in> set divergent \<or> ''premium_after_discounts'' \<in> set divergent)) ds"

definition first_order_change ::
  "trace_difference list \<Rightarrow> string list \<Rightarrow> semantic_difference list \<Rightarrow> semantic_difference option" where
  "first_order_change tds divergent ds =
     find (\<lambda>d. sd_type d = ORDER_CHANGE
              \<and> ((\<exists>td \<in> set tds. mentions ''SEQUENCE_ORDER'' td) \<or> ''policy_minimum'' \<in> set divergent)) ds"

definition upstream_difference ::
  "trace_difference list \<Rightarrow> semantic_difference list \<Rightarrow> semantic_difference option" where
  "upstream_difference tds ds =
     (let divergent = map td_node_id tds; table = first_table_change divergent ds;
          date = first_date_change divergent ds; order = first_order_change tds divergent ds;
          is_roof = (\<exists>i \<in> set divergent. text_contains ''roof'' i)
      in case table of
           Some d \<Rightarrow> if is_roof \<or> sd_node_id d \<in> set divergent then Some d else None
         | None \<Rightarrow> (case date of Some d \<Rightarrow> Some d | None \<Rightarrow> order))"

definition root_candidates :: "networkx \<Rightarrow> dependency_graph \<Rightarrow> trace_difference list \<Rightarrow> trace_difference list" where
  "root_candidates nx g tds =
     filter (\<lambda>td. set (get_ancestors nx g (td_node_id td)) \<inter> set (map td_node_id tds) = {}) tds"

text \<open>The node the divergence is put down to, and the difference found there.\<close>

definition primary_cause ::
  "networkx \<Rightarrow> dependency_graph \<Rightarrow> trace_difference list \<Rightarrow> semantic_difference list \<Rightarrow>
   string \<times> semantic_difference option" where
  "primary_cause nx g tds ds =
     (case upstream_difference tds ds of
        Some d \<Rightarrow> (sd_node_id d, Some d)
      | None \<Rightarrow>
          (let first = (case root_candidates nx g tds of td # _ \<Rightarrow> td | [] \<Rightarrow> hd tds) in
           (td_node_id first, dget (index_by sd_node_id ds []) (td_node_id first))))"

definition finding_of_difference :: "string \<Rightarrow> semantic_difference \<Rightarrow> string list \<Rightarrow> root_cause_finding" where
  "finding_of_difference node d downstream =
     \<lparr>rc_node_id = node, rc_category = difference_type_value (sd_type d),
       rc_title = ''Root Cause: '' @ difference_type_value (sd_type d) @ '' at '' @ node,
       rc_explanation = ''Pricing mismatch originating at '' @ quoted node @ ''. '' @ sd_description d @ ''.'',
       rc_expected = sd_left d, rc_actual = sd_right d, rc_path = sd_path d, rc_type = sd_type d,
       rc_severity = sd_severity d,
       rc_group = Some (if sd_type d = ORDER_CHANGE then ''ISSUE_PREMIUM_SEQUENCE_ORDER''
                        else ''ISSUE_'' @ py_upper (sd_node_id d)),
       rc_evidence = [(''expected_value'', Some (text_or_none py_str (sd_left d))),
         (''actual_value'', Some (text_or_none py_str (sd_right d))), (''semantic_difference_id'', Some (sd_id d))],
       rc_downstream = downstream\<rparr>"

definition finding_of_trace :: "string \<Rightarrow> trace_difference \<Rightarrow> string list \<Rightarrow> root_cause_finding" where
  "finding_of_trace node td downstream =
     \<lparr>rc_node_id = node, rc_category = ''VALUE_CHANGE'', rc_title = ''Root Cause: VALUE_CHANGE at '' @ node,
       rc_explanation = ''Calculation divergence detected at node '' @ quoted node @ ''. Expected: ''
         @ py_str (td_expected td) @ '', Actual: '' @ py_str (td_actual td) @ ''.'',
       rc_expected = Some (td_expected td), rc_actual = Some (td_actual td), rc_path = ''nodes.'' @ node,
       rc_type = VALUE_CHANGE, rc_severity = HIGH, rc_group = None,
       rc_evidence = [(''expected_value'', Some (py_str (td_expected td))),
         (''actual_value'', Some (py_str (td_actual td))), (''semantic_difference_id'', None)],
       rc_downstream = downstream\<rparr>"

definition perform_root_cause_analysis ::
  "networkx \<Rightarrow> trace_difference list \<Rightarrow> semantic_diff_result \<Rightarrow> ipir_package \<Rightarrow> (string \<times> root_cause_finding) option res" where
  "perform_root_cause_analysis nx tds diff p =
     (if tds = [] then Inr None
      else rbind (graph_of nx p) (\<lambda>g.
        let (node, d) = primary_cause nx g tds (sr_differences diff);
            downstream = get_descendants nx g node
        in case d of
             Some x \<Rightarrow> Inr (Some (node, finding_of_difference node x downstream))
           | None \<Rightarrow>
               (let td = (case find (\<lambda>td. td_node_id td = node) tds of Some td \<Rightarrow> td | None \<Rightarrow> hd tds) in
                Inr (Some (node, finding_of_trace node td downstream)))))"

section \<open>comparator.py and models.py\<close>

record reconciliation_result =
  rr_scenario_id :: string
  rr_scenario_name :: string
  rr_expected_premium :: decimal
  rr_actual_premium :: decimal
  rr_absolute_variance :: decimal
  rr_percentage_variance :: decimal
  rr_premium_matches :: bool
  rr_trace_diverged :: bool
  rr_trace_differences :: "trace_difference list"
  rr_first_divergent :: "string option"
  rr_root_cause :: "root_cause_finding option"
  rr_related_ids :: "string list"
  rr_status :: string
  rr_currency :: string

definition reconcile ::
  "networkx \<Rightarrow> test_scenario \<Rightarrow> oracle_result \<Rightarrow> target_quote_result \<Rightarrow> semantic_diff_result \<Rightarrow> ipir_package \<Rightarrow>
   reconciliation_result res" where
  "reconcile nx sc expected actual diff p =
     (let ep = or_final_premium expected; ap = or_final_premium (tq_result actual); matches = dec_eq ep ap in
      rbind (absolute_difference ep ap) (\<lambda>var.
      rbind (if dec_eq ep dec_zero then Inr dec_zero else percentage_of var ep) (\<lambda>pct.
      rbind (align_and_compare_traces (or_trace expected) (or_trace (tq_result actual))) (\<lambda>tds.
      rbind (perform_root_cause_analysis nx tds diff p) (\<lambda>cause.
      rbind (round4 pct) (\<lambda>pct4.
        Inr \<lparr>rr_scenario_id = sc_id sc, rr_scenario_name = sc_name sc, rr_expected_premium = ep,
          rr_actual_premium = ap, rr_absolute_variance = var, rr_percentage_variance = pct4,
          rr_premium_matches = matches, rr_trace_diverged = (tds \<noteq> []), rr_trace_differences = tds,
          rr_first_divergent = map_option fst cause, rr_root_cause = map_option snd cause,
          rr_related_ids = map td_node_id tds,
          rr_status = (if matches then ''MATCH'' else ''MISMATCH''),
          rr_currency = or_currency expected\<rparr>))))))"

end
