(* ===== verification/PortfolioExposure.thy ===== *)
theory PortfolioExposure
  imports Reconciliation Portfolio
begin

text \<open>
  Portfolio exposure, \<open>src/backend/app/engines/portfolio\<close>: which policies a predicate selects
  (\<open>predicate_evaluator.py\<close>), the repricing of one policy (\<open>repricing.py\<close>) and the analyzer that adds
  up a portfolio (\<open>analyzer.py\<close>, the result of \<open>models.py\<close>).

  Percentages, which the code rounds as floats, are exact rationals here, not rounded.  Timing and
  memory telemetry are left out.  The sets of policy ids and of predicate ids are iterated in the
  order \<open>iter\<close> gives (see DependencyImpact), today's date is the argument \<open>today\<close>.
\<close>

section \<open>predicate\_evaluator.py\<close>

text \<open>
  \<open>getattr(policy, field, None)\<close>, the fields of the model; the names of pydantic's own methods,
  for which \<open>getattr\<close> finds the method, are taken for absent.
\<close>

definition policy_fields :: "synthetic_policy \<Rightarrow> (string, pyval) dict" where
  "policy_fields p =
     rating_values p @
     [(''policy_id'', PStr (sp_policy_id p)), (''product_id'', PStr (sp_product_id p)), (''state'', PStr (sp_state p)),
      (''form'', PStr (sp_form p)), (''transaction_type'', PStr (transaction_text (sp_transaction_type p))),
      (''effective_date'', PDate (sp_effective_date p)), (''canonical_premium'', PDec (sp_canonical_premium p))]
     @ (case sp_target_premium p of None \<Rightarrow> [] | Some d \<Rightarrow> [(''target_premium'', PDec d)])"

fun clause_number_holds :: "comparison_operator \<Rightarrow> decimal \<Rightarrow> decimal \<Rightarrow> bool" where
  "clause_number_holds EQ v t = dec_eq v t"
| "clause_number_holds NE v t = (\<not> dec_eq v t)"
| "clause_number_holds GTE v t = (\<not> dec_less v t)"
| "clause_number_holds GT v t = dec_less t v"
| "clause_number_holds LTE v t = (\<not> dec_less t v)"
| "clause_number_holds LT v t = dec_less v t"

fun clause_text_holds :: "comparison_operator \<Rightarrow> string \<Rightarrow> string \<Rightarrow> bool" where
  "clause_text_holds EQ v t = (v = t)"
| "clause_text_holds NE v t = (v \<noteq> t)"
| "clause_text_holds op v t = True"

definition clause_holds :: "synthetic_policy \<Rightarrow> predicate_clause \<Rightarrow> bool res" where
  "clause_holds p c =
     (case dget (policy_fields p) (cl_field c) of
        None \<Rightarrow> Inr False
      | Some v \<Rightarrow>
          if is_number v \<and> is_number (cl_value c) then
            rbind (to_dec v) (\<lambda>a. rbind (to_dec (cl_value c)) (\<lambda>b. Inr (clause_number_holds (cl_operator c) a b)))
          else Inr (clause_text_holds (cl_operator c) (py_str v) (py_str (cl_value c))))"

definition in_window :: "impact_predicate \<Rightarrow> date \<Rightarrow> bool" where
  "in_window q d =
     (case (ip_temporal_start q, ip_temporal_end q) of
        (Some a, Some b) \<Rightarrow> a \<le> d \<and> d < b
      | _ \<Rightarrow> True)"

definition matches_predicate :: "synthetic_policy \<Rightarrow> impact_predicate \<Rightarrow> bool res" where
  "matches_predicate p q =
     (if \<not> in_window q (sp_effective_date p) then Inr False else rall (clause_holds p) (ip_clauses q))"

section \<open>repricing.py\<close>

definition policy_scenario :: "synthetic_policy \<Rightarrow> test_scenario" where
  "policy_scenario p =
     \<lparr>sc_id = sp_policy_id p, sc_name = ''Policy '' @ sp_policy_id p, sc_risk = rating_values p,
       sc_date = sp_effective_date p, sc_txn = sp_transaction_type p,
       sc_purpose = ''Portfolio policy repricing execution'', sc_class = SINGLE_DEFECT, sc_diff_ids = [],
       sc_group_ids = [], sc_node_ids = [], sc_tags = [], sc_score = 0, sc_expected_coverage = [], sc_metadata = []\<rparr>"

definition default_target_id :: string where "default_target_id = ''synthetic-target-rating-engine''"

definition reprice_policy ::
  "topo_sort \<Rightarrow> networkx \<Rightarrow> synthetic_policy \<Rightarrow> ipir_package \<Rightarrow> ipir_package \<Rightarrow> semantic_diff_result \<Rightarrow>
   reconciliation_result res" where
  "reprice_policy topo nx p canonical target diff =
     rbind (evaluate_package topo canonical (rating_values p) (sp_effective_date p) (sp_transaction_type p) False) (\<lambda>e.
     rbind (target_quote topo default_target_id target (rating_values p) (sp_effective_date p) (sp_transaction_type p)) (\<lambda>a.
       reconcile nx (policy_scenario p) e a diff canonical))"

section \<open>models.py\<close>

record defect_exposure =
  de_issue_id :: string
  de_issue_name :: string
  de_exposed :: nat
  de_behavioral :: nat
  de_financial :: nat
  de_expected :: decimal
  de_target :: decimal
  de_signed :: decimal
  de_absolute :: decimal
  de_exposed_pct :: rat
  de_affected_pct :: rat

record exposure_result =
  px_total_policies :: nat
  px_exposed :: nat
  px_exposed_pct :: rat
  px_behavioral :: nat
  px_behavioral_pct :: rat
  px_financial :: nat
  px_financial_pct :: rat
  px_expected :: decimal
  px_target :: decimal
  px_signed :: decimal
  px_absolute :: decimal
  px_undercharged :: nat
  px_undercharge :: decimal
  px_overcharged :: nat
  px_overcharge :: decimal
  px_average :: decimal
  px_maximum :: decimal
  px_multi_defect :: nat
  px_issues :: "defect_exposure list"
  px_repriced :: nat
  px_cohorts :: "cohort_metrics list"
  px_pipeline :: pipeline_impact

section \<open>analyzer.py\<close>

text \<open>\<open>exposed_policy_map\<close>: the ids of the predicates that select a policy, for every exposed policy.\<close>

definition expose_policy ::
  "impact_predicate list \<Rightarrow> synthetic_policy \<Rightarrow> (string, string list) dict \<Rightarrow> (string, string list) dict res" where
  "expose_policy preds p =
     rfold (\<lambda>q m. rbind (matches_predicate p q) (\<lambda>hit. Inr
       (if hit then dset (sp_policy_id p) (List.insert (ip_id q) (dget_default m (sp_policy_id p) [])) m else m))) preds"

definition exposed_policies ::
  "impact_predicate list \<Rightarrow> synthetic_policy list \<Rightarrow> (string, string list) dict res" where
  "exposed_policies preds policies = rfold (expose_policy preds) policies []"

definition zero_cents :: decimal where "zero_cents = Dec False 0 (- 2)"

record issue_stats =
  is_name :: string
  is_exposed :: nat
  is_behavioral :: nat
  is_financial :: nat
  is_expected :: decimal
  is_target :: decimal
  is_absolute :: decimal
  is_signed :: decimal

definition no_stats :: "string \<Rightarrow> issue_stats" where
  "no_stats name = \<lparr>is_name = name, is_exposed = 0, is_behavioral = 0, is_financial = 0, is_expected = zero_cents,
     is_target = zero_cents, is_absolute = zero_cents, is_signed = zero_cents\<rparr>"

record exposure_state =
  es_repriced :: nat
  es_behavioral :: "string list"
  es_financial :: "string list"
  es_expected :: decimal
  es_target :: decimal
  es_absolute :: decimal
  es_signed :: decimal
  es_undercharged :: nat
  es_undercharge :: decimal
  es_overcharged :: nat
  es_overcharge :: decimal
  es_maximum :: decimal
  es_stats :: "(string, issue_stats) dict"
  es_impact :: "(string, policy_impact) dict"

definition initial_exposure :: "impact_predicate list \<Rightarrow> exposure_state" where
  "initial_exposure preds =
     \<lparr>es_repriced = 0, es_behavioral = [], es_financial = [], es_expected = zero_cents, es_target = zero_cents,
       es_absolute = zero_cents, es_signed = zero_cents, es_undercharged = 0, es_undercharge = zero_cents,
       es_overcharged = 0, es_overcharge = zero_cents, es_maximum = zero_cents,
       es_stats = fold (\<lambda>q. dset (ip_id q) (no_stats (ip_description q))) preds [], es_impact = []\<rparr>"

text \<open>\<open>issue_stats[pred_id]\<close> changed for every predicate that selects the policy; an unknown key raises.\<close>

definition change_stats ::
  "(issue_stats \<Rightarrow> issue_stats res) \<Rightarrow> string list \<Rightarrow> exposure_state \<Rightarrow> exposure_state res" where
  "change_stats f preds st =
     rbind (rfold (\<lambda>i m. case dget m i of None \<Rightarrow> Inl (KeyError i)
                         | Some s \<Rightarrow> rbind (f s) (\<lambda>s'. Inr (dset i s' m))) preds (es_stats st))
       (\<lambda>m. Inr (st\<lparr>es_stats := m\<rparr>))"

definition add_stats :: "decimal \<Rightarrow> decimal \<Rightarrow> decimal \<Rightarrow> decimal \<Rightarrow> issue_stats \<Rightarrow> issue_stats res" where
  "add_stats expected target absv var s =
     rbind (dec_add (is_expected s) expected) (\<lambda>e. rbind (dec_add (is_target s) target) (\<lambda>t.
     rbind (dec_add (is_absolute s) absv) (\<lambda>a. rbind (dec_add (is_signed s) var) (\<lambda>v.
       Inr (s\<lparr>is_financial := is_financial s + 1, is_expected := e, is_target := t, is_absolute := a, is_signed := v\<rparr>)))))"

text \<open>The branch for a premium that does not match.\<close>

definition add_financial ::
  "string \<Rightarrow> string list \<Rightarrow> reconciliation_result \<Rightarrow> exposure_state \<Rightarrow> exposure_state res" where
  "add_financial pid preds r st =
     rbind (dec_add (es_expected st) (rr_expected_premium r)) (\<lambda>e.
     rbind (dec_add (es_target st) (rr_actual_premium r)) (\<lambda>t.
     rbind (dec_sub (rr_actual_premium r) (rr_expected_premium r)) (\<lambda>var.
     rbind (dec_abs var) (\<lambda>absv.
     rbind (dec_add (es_signed st) var) (\<lambda>signed.
     rbind (dec_add (es_absolute st) absv) (\<lambda>absolute.
     rbind (if dec_less var dec_zero then dec_add (es_undercharge st) absv else Inr (es_undercharge st)) (\<lambda>under.
     rbind (if dec_less dec_zero var then dec_add (es_overcharge st) var else Inr (es_overcharge st)) (\<lambda>over.
     rbind (change_stats (add_stats (rr_expected_premium r) (rr_actual_premium r) absv var) preds
        (st\<lparr>es_financial := List.insert pid (es_financial st), es_expected := e, es_target := t, es_signed := signed,
            es_absolute := absolute,
            es_maximum := (if dec_less (es_maximum st) absv then absv else es_maximum st),
            es_undercharged := (if dec_less var dec_zero then es_undercharged st + 1 else es_undercharged st),
            es_undercharge := under,
            es_overcharged := (if dec_less dec_zero var then es_overcharged st + 1 else es_overcharged st),
            es_overcharge := over\<rparr>)) (\<lambda>st'.
       Inr (st'\<lparr>es_impact := dset pid \<lparr>im_policy_id = pid, im_signed_variance = var, im_absolute_variance = absv\<rparr>
                               (es_impact st')\<rparr>))))))))))"

definition expose_one ::
  "(string list \<Rightarrow> string list) \<Rightarrow> (synthetic_policy \<Rightarrow> reconciliation_result res) \<Rightarrow> (string, synthetic_policy) dict \<Rightarrow>
   (string, string list) dict \<Rightarrow> string \<Rightarrow> exposure_state \<Rightarrow> exposure_state res" where
  "expose_one iter reprice by_id exposed pid st =
     (case (dget by_id pid, dget exposed pid) of
        (Some p, Some hits) \<Rightarrow>
          let preds = iter hits in
          rbind (reprice p) (\<lambda>r.
          rbind (change_stats (\<lambda>s. Inr (s\<lparr>is_exposed := is_exposed s + 1\<rparr>)) preds
                   (st\<lparr>es_repriced := es_repriced st + 1\<rparr>)) (\<lambda>st1.
          rbind (if rr_trace_diverged r
                 then change_stats (\<lambda>s. Inr (s\<lparr>is_behavioral := is_behavioral s + 1\<rparr>)) preds
                        (st1\<lparr>es_behavioral := List.insert pid (es_behavioral st1)\<rparr>)
                 else Inr st1) (\<lambda>st2.
            if rr_premium_matches r then Inr st2 else add_financial pid preds r st2)))
      | _ \<Rightarrow> Inl (KeyError pid))"

definition percentage :: "nat \<Rightarrow> nat \<Rightarrow> rat" where
  "percentage part whole = (if whole = 0 then 0 else of_nat part / of_nat whole * 100)"

definition defect_of :: "nat \<Rightarrow> string \<times> issue_stats \<Rightarrow> defect_exposure" where
  "defect_of n = (\<lambda>(i, s).
     \<lparr>de_issue_id = i, de_issue_name = is_name s, de_exposed = is_exposed s, de_behavioral = is_behavioral s,
       de_financial = is_financial s, de_expected = is_expected s, de_target = is_target s, de_signed = is_signed s,
       de_absolute = is_absolute s, de_exposed_pct = percentage (is_exposed s) n,
       de_affected_pct = percentage (is_financial s) n\<rparr>)"

definition exposure_report ::
  "date \<Rightarrow> synthetic_policy list \<Rightarrow> (string, string list) dict \<Rightarrow> exposure_state \<Rightarrow> exposure_result res" where
  "exposure_report today policies exposed st =
     (let n = length policies; fin = length (es_financial st); beh = length (es_behavioral st) in
      rbind (if 0 < fin then rbind (dec_div (es_absolute st) (dec_of_int (int fin))) cents else Inr zero_cents) (\<lambda>avg.
      rbind (compute_cohort_distribution policies (es_impact st) (set (map fst exposed))
               default_cohort_dimensions default_minimum_cohort_size) (\<lambda>cohorts.
      rbind (compute_pipeline_impact policies (es_impact st) today default_pipeline_windows) (\<lambda>pipeline.
        Inr \<lparr>px_total_policies = n, px_exposed = length exposed, px_exposed_pct = percentage (length exposed) n,
          px_behavioral = beh, px_behavioral_pct = percentage beh n,
          px_financial = fin, px_financial_pct = percentage fin n,
          px_expected = es_expected st, px_target = es_target st, px_signed = es_signed st, px_absolute = es_absolute st,
          px_undercharged = es_undercharged st, px_undercharge = es_undercharge st,
          px_overcharged = es_overcharged st, px_overcharge = es_overcharge st, px_average = avg,
          px_maximum = es_maximum st, px_multi_defect = length (filter (\<lambda>(i, hits). 1 < length hits) exposed),
          px_issues = map (defect_of n) (es_stats st), px_repriced = es_repriced st,
          px_cohorts = cohorts, px_pipeline = pipeline\<rparr>))))"

definition portfolio_analyze ::
  "topo_sort \<Rightarrow> networkx \<Rightarrow> (string list \<Rightarrow> string list) \<Rightarrow> date \<Rightarrow> synthetic_policy list \<Rightarrow> ipir_package \<Rightarrow> ipir_package \<Rightarrow>
   exposure_result res" where
  "portfolio_analyze topo nx iter today policies canonical target =
     rbind (compare_packages canonical target) (\<lambda>diff.
     rbind (analyze nx iter diff canonical) (\<lambda>impact.
     rbind (exposed_policies (ia_predicates impact) policies) (\<lambda>exposed.
     rbind (rfold (expose_one iter (\<lambda>p. reprice_policy topo nx p canonical target diff)
                     (index_by sp_policy_id policies []) exposed)
              (iter (map fst exposed)) (initial_exposure (ia_predicates impact))) (\<lambda>st.
       exposure_report today policies exposed st))))"

end
