(* ===== verification/SemanticDiffLaws.thy ===== *)
theory SemanticDiffLaws
  imports SemanticDiff
begin

text \<open>What the semantic diff sees and what it does not: the exact meaning of "semantically equal",
  the only way the comparison fails, its symmetry, and two packages it calls equal that price a
  policy differently.
\<close>

section \<open>Lemmas\<close>

lemma sorted_set_cong: "set xs = set ys \<Longrightarrow> sorted_set xs = sorted_set ys"
  by (simp add: sorted_set_def sorted_distinct_set_unique)

lemma all_keys_commute: "all_keys l r = all_keys r l"
  by (auto simp: all_keys_def intro!: sorted_set_cong)

lemma set_all_keys: "set (all_keys l r) = fst ` set l \<union> fst ` set r"
  by (simp add: all_keys_def)

lemma for_keys_empty:
  assumes "\<And>k. f k None None = Inr []"
  shows "for_keys f l r = Inr [] \<longleftrightarrow> (\<forall>k. f k (dget l k) (dget r k) = Inr [])"
proof -
  have "f k (dget l k) (dget r k) = Inr []" if "k \<notin> set (all_keys l r)" for k
    using that assms by (metis UnI1 UnI2 map_of_eq_None_iff set_all_keys)
  then have "(\<forall>k. f k (dget l k) (dget r k) = Inr []) \<longleftrightarrow> (\<forall>k \<in> set (all_keys l r). f k (dget l k) (dget r k) = Inr [])"
    by blast
  moreover have "rbind (rmap_list g ks) (\<lambda>ds. Inr (concat ds)) = Inr [] \<longleftrightarrow> (\<forall>k \<in> set ks. g k = Inr [])"
    for g :: "'a \<Rightarrow> 'd list res" and ks
    by (induction ks) (auto simp: res_simps)
  ultimately show ?thesis by (simp add: for_keys_def)
qed

lemma rmap_list_error:
  assumes "\<And>k e. g k = Inl e \<Longrightarrow> e = x"
  shows "rmap_list g ks = Inl e \<longleftrightarrow> e = x \<and> (\<exists>k \<in> set ks. g k = Inl x)"
proof (induction ks)
  case (Cons k ks)
  then show ?case using assms by (cases "g k") (auto simp: res_simps)
qed simp

lemma for_keys_error:
  assumes "\<And>k e. f k (dget l k) (dget r k) = Inl e \<Longrightarrow> e = x" and none: "\<And>k. f k None None = Inr []"
  shows "for_keys f l r = Inl e \<longleftrightarrow> e = x \<and> (\<exists>k. f k (dget l k) (dget r k) = Inl x)"
proof -
  have "k \<in> set (all_keys l r)" if "f k (dget l k) (dget r k) = Inl x" for k
  proof (rule ccontr)
    assume "k \<notin> set (all_keys l r)"
    then have "dget l k = None" "dget r k = None" by (simp_all add: set_all_keys map_of_eq_None_iff)
    with that none show False by simp
  qed
  then have "(\<exists>k \<in> set (all_keys l r). f k (dget l k) (dget r k) = Inl x) \<longleftrightarrow> (\<exists>k. f k (dget l k) (dget r k) = Inl x)"
    by blast
  then show ?thesis
    using rmap_list_error [where g = "\<lambda>k. f k (dget l k) (dget r k)", OF assms(1)]
    by (simp add: for_keys_def res_simps)
qed

lemma on_both_simps [simp]:
  "on_both f k None b = Inr []" "on_both f k a None = Inr []" "on_both f k (Some x) (Some y) = f k x y"
  by (simp_all add: on_both_def split: option.splits)

lemma on_both_empty:
  "(\<forall>k. on_both f k (dget l k) (dget r k) = Inr []) \<longleftrightarrow>
     (\<forall>k x y. dget l k = Some x \<longrightarrow> dget r k = Some y \<longrightarrow> f k x y = Inr [])"
  by (auto simp: on_both_def split: option.splits)

text \<open>The nodes of a collection with distinct ids, by their id.\<close>

lemma dget_index_by_iff:
  assumes "distinct (map key xs)"
  shows "dget (index_by key xs []) k = Some x \<longleftrightarrow> x \<in> set xs \<and> key x = k"
proof -
  have "index_by key xs [] = map (\<lambda>x. (key x, x)) xs" using index_by_distinct [OF assms, of "[]"] by simp
  moreover have "map_of (map (\<lambda>x. (key x, x)) xs) k = Some x \<longleftrightarrow> x \<in> set xs \<and> key x = k"
    using assms by (induction xs) (auto simp: image_iff)
  ultimately show ?thesis by simp
qed

definition agree :: "('a \<Rightarrow> 'k) \<Rightarrow> ('a \<Rightarrow> 'a \<Rightarrow> bool) \<Rightarrow> 'a list \<Rightarrow> 'a list \<Rightarrow> bool" where
  "agree key P xs ys \<longleftrightarrow> (\<forall>x \<in> set xs. \<forall>y \<in> set ys. key x = key y \<longrightarrow> P x y)"

lemma common_nodes_empty:
  assumes "distinct (map key xs)" "distinct (map key ys)"
  shows "for_keys (on_both f) (index_by key xs []) (index_by key ys []) = Inr [] \<longleftrightarrow>
    agree key (\<lambda>x y. f (key x) x y = Inr []) xs ys"
  unfolding for_keys_empty [of "on_both f", OF on_both_simps(1)] on_both_empty
    dget_index_by_iff [OF assms(1)] dget_index_by_iff [OF assms(2)] agree_def by metis

lemma texts_differ_dec [simp]: "texts_differ (dec_str a) (dec_str b) = Inr (dval a \<noteq> dval b)"
  by (simp add: texts_differ_def)

text \<open>A reference is no number.\<close>

lemma reference_text: "decimal_of_string (''ref='' @ quoted r) = Inl InvalidOperation"
proof -
  let ?s = "''ref='' @ quoted r"
  have "py_strip ?s = ?s" by (simp add: py_strip_def is_space_def quoted_def quote_char_def)
  then have 1: "\<exists>t. filter (\<lambda>c. c \<noteq> CHR ''_'') (py_strip ?s) = CHR ''r'' # CHR ''e'' # CHR ''f'' # t"
    by (simp del: append_Cons) simp
  then obtain t where t: "filter (\<lambda>c. c \<noteq> CHR ''_'') (py_strip ?s) = CHR ''r'' # CHR ''e'' # CHR ''f'' # t" ..
  have "\<not> is_special (CHR ''r'' # CHR ''e'' # CHR ''f'' # t)"
    by (simp add: is_special_def py_lower_def lower_char_def is_digit_def Let_def)
  moreover have "parse_finite (CHR ''r'' # CHR ''e'' # CHR ''f'' # t) = None"
    by (simp add: parse_finite_def parse_fraction_def is_digit_def)
  ultimately show ?thesis unfolding decimal_of_string_def t Let_def by simp
qed

lemma texts_differ_modifier [simp]:
  "texts_differ (modifier_text (ModDec a)) (modifier_text (ModDec b)) = Inr (dval a \<noteq> dval b)"
  "texts_differ (modifier_text (ModRef i)) (modifier_text v) = Inl InvalidOperation"
  "texts_differ (modifier_text v) (modifier_text (ModRef i)) = Inl InvalidOperation"
proof -
  show "texts_differ (modifier_text (ModDec a)) (modifier_text (ModDec b)) = Inr (dval a \<noteq> dval b)" by simp
  show "texts_differ (modifier_text (ModRef i)) (modifier_text v) = Inl InvalidOperation"
    by (simp add: texts_differ_def reference_text del: append_Cons append_Nil)
  show "texts_differ (modifier_text v) (modifier_text (ModRef i)) = Inl InvalidOperation"
    by (cases v) (simp_all add: texts_differ_def reference_text del: append_Cons append_Nil)
qed

lemma sequence_difference_empty [simp]: "sequence_difference a b c d i l r p q = [] \<longleftrightarrow> l = r"
  by (simp add: sequence_difference_def)

lemma compare_periods_empty [simp]:
  "compare_effective_periods a b c l r = [] \<longleftrightarrow> period_start l = period_start r"
  by (simp add: compare_effective_periods_def Let_def)

lemma constant_difference_empty: "constant_difference i l r = Inr [] \<longleftrightarrow> dval (const_value l) = dval (const_value r)"
  by (simp add: constant_difference_def)

lemma constraint_difference_empty:
  "constraint_difference i l r = Inr [] \<longleftrightarrow> dval (pc_amount l) = dval (pc_amount r) \<and> pc_sequence l = pc_sequence r"
  by (simp add: constraint_difference_def)

lemma fee_difference_empty:
  "fee_difference i l r = Inr [] \<longleftrightarrow> dval (fee_amount l) = dval (fee_amount r) \<and> fee_sequence l = fee_sequence r"
  by (simp add: fee_difference_def)

definition same_number :: "modifier_value \<Rightarrow> modifier_value \<Rightarrow> bool" where
  "same_number a b \<longleftrightarrow> (case (a, b) of (ModDec x, ModDec y) \<Rightarrow> dval x = dval y | _ \<Rightarrow> False)"

lemma modifier_difference_empty:
  "modifier_difference i l r = Inr [] \<longleftrightarrow> same_number (mod_value l) (mod_value r)
     \<and> period_start (mod_period l) = period_start (mod_period r) \<and> mod_sequence l = mod_sequence r"
  by (cases "mod_value l"; cases "mod_value r")
    (auto simp: modifier_difference_def same_number_def simp del: modifier_text.simps)

section \<open>Rate tables\<close>

definition row_at :: "rate_table \<Rightarrow> string \<Rightarrow> table_row option" where
  "row_at t k = find (\<lambda>r. format_match_key r = Inr k) (rev (tbl_rows t))"

definition same_rates :: "rate_table \<Rightarrow> rate_table \<Rightarrow> bool" where
  "same_rates lt rt \<longleftrightarrow>
     (\<forall>k. map_option (\<lambda>r. dval (row_value r)) (row_at lt k) = map_option (\<lambda>r. dval (row_value r)) (row_at rt k))"

definition keyed_table :: "rate_table \<Rightarrow> bool" where
  "keyed_table t \<longleftrightarrow> (\<forall>r \<in> set (tbl_rows t). row_matches r \<noteq> [])"

lemma format_match_key_ok: "row_matches r \<noteq> [] \<Longrightarrow> \<exists>k. format_match_key r = Inr k"
  by (cases "row_matches r") (auto simp: format_match_key_def Let_def)

lemma keyed_rows_ok:
  assumes "keyed_table t"
  obtains m where "keyed_rows t = Inr m" "\<And>k. dget m k = row_at t k"
proof -
  have "\<exists>krs. rmap_list (\<lambda>r. rbind (format_match_key r) (\<lambda>k. Inr (k, r))) rs = Inr krs \<and>
     (\<forall>d k. dget (fold (\<lambda>(k, r). dset k r) krs d) k =
       (case find (\<lambda>r. format_match_key r = Inr k) (rev rs) of None \<Rightarrow> dget d k | Some r \<Rightarrow> Some r))"
    if "\<forall>r \<in> set rs. row_matches r \<noteq> []" for rs
    using that
  proof (induction rs)
    case (Cons r rs)
    then obtain k where k: "format_match_key r = Inr k" using format_match_key_ok [of r] by auto
    from Cons obtain krs where krs: "rmap_list (\<lambda>r. rbind (format_match_key r) (\<lambda>k. Inr (k, r))) rs = Inr krs"
      "\<And>d k. dget (fold (\<lambda>(k, r). dset k r) krs d) k =
        (case find (\<lambda>r. format_match_key r = Inr k) (rev rs) of None \<Rightarrow> dget d k | Some r \<Rightarrow> Some r)"
      by auto
    have "dget (fold (\<lambda>(k, r). dset k r) ((k, r) # krs) d) k' =
        (case find (\<lambda>r. format_match_key r = Inr k') (rev (r # rs)) of None \<Rightarrow> dget d k' | Some r \<Rightarrow> Some r)" for d k'
      using krs(2) [of "dset k r d" k'] k by (simp add: find_append split: option.splits)
    with k krs(1) show ?case by auto
  qed simp
  from this [of "tbl_rows t"] assms obtain krs where
    1: "rmap_list (\<lambda>r. rbind (format_match_key r) (\<lambda>k. Inr (k, r))) (tbl_rows t) = Inr krs"
    and 2: "\<And>d k. dget (fold (\<lambda>(k, r). dset k r) krs d) k =
        (case row_at t k of None \<Rightarrow> dget d k | Some r \<Rightarrow> Some r)"
    by (auto simp: keyed_table_def row_at_def)
  from 1 have "keyed_rows t = Inr (fold (\<lambda>(k, r). dset k r) krs [])" by (simp add: keyed_rows_def)
  moreover have "dget (fold (\<lambda>(k, r). dset k r) krs []) k = row_at t k" for k
    unfolding 2 by (simp split: option.splits)
  ultimately show thesis by (rule that)
qed

lemma row_difference_empty:
  "row_difference lt rt k a b = Inr [] \<longleftrightarrow>
     map_option (\<lambda>r. dval (row_value r)) a = map_option (\<lambda>r. dval (row_value r)) b"
  by (cases a; cases b) (simp_all add: row_difference_def Let_def)

lemma row_difference_ok: "row_difference lt rt k a b \<noteq> Inl e"
  by (cases a; cases b) (simp_all add: row_difference_def Let_def)

lemma compare_rate_tables_laws:
  assumes "keyed_table lt" "keyed_table rt"
  shows compare_rate_tables_empty: "compare_rate_tables lt rt = Inr [] \<longleftrightarrow> same_rates lt rt"
    and compare_rate_tables_ok: "compare_rate_tables lt rt \<noteq> Inl e"
proof -
  obtain lm rm where lm: "keyed_rows lt = Inr lm" "\<And>k. dget lm k = row_at lt k"
    and rm: "keyed_rows rt = Inr rm" "\<And>k. dget rm k = row_at rt k"
    using keyed_rows_ok [OF assms(1)] keyed_rows_ok [OF assms(2)] by metis
  show "compare_rate_tables lt rt = Inr [] \<longleftrightarrow> same_rates lt rt"
    unfolding compare_rate_tables_def lm(1) rm(1) same_rates_def
    by (simp add: for_keys_empty row_difference_def [of lt rt _ None None] row_difference_empty lm(2) rm(2))
  have "for_keys (row_difference lt rt) lm rm \<noteq> Inl e"
    using for_keys_error [of "row_difference lt rt" lm rm e e] row_difference_ok
    by (simp add: row_difference_def [of lt rt _ None None])
  then show "compare_rate_tables lt rt \<noteq> Inl e" by (simp add: compare_rate_tables_def lm(1) rm(1))
qed

section \<open>Validated packages\<close>

text \<open>What the comparison needs of its packages; a package that validates has it.\<close>

definition comparable :: "ipir_package \<Rightarrow> bool" where
  "comparable p \<longleftrightarrow> distinct (map pi_id (pkg_inputs p)) \<and> distinct (map const_id (pkg_constants p))
     \<and> distinct (map tbl_id (pkg_tables p)) \<and> distinct (map mod_id (pkg_modifiers p))
     \<and> distinct (map pc_id (pkg_constraints p)) \<and> distinct (map fee_id (pkg_fees p))
     \<and> (\<forall>t \<in> set (pkg_tables p). keyed_table t)"

lemma validated_table_keyed: "validate_table t = Inr u \<Longrightarrow> keyed_table u"
  by (fastforce simp: validate_table_def keyed_table_def res_simps split: if_splits)

lemma validated_comparable:
  assumes "construct_package p = Inr q"
  shows "comparable q"
proof -
  have "distinct (node_ids q)" using construct_package_well_formed [OF assms] by blast
  moreover have "list_all2 (\<lambda>x y. validate_table x = Inr y) (pkg_tables q) (pkg_tables q)"
    using construct_package_result(1) [OF assms] by (simp add: fields_fixed_def rmap_list_Inr_iff)
  then have "\<forall>t \<in> set (pkg_tables q). keyed_table t"
    by (auto simp: list_all2_same intro: validated_table_keyed)
  ultimately show ?thesis by (simp add: comparable_def node_ids_def entities_def comp_def)
qed

section \<open>What the comparison reports\<close>

lemma Inr_Nil_bind: "rbind m (\<lambda>x. Inr (f x)) = Inr [] \<longleftrightarrow> (\<exists>x. m = Inr x \<and> f x = [])"
  by (auto simp: res_simps)

lemma package_differences_empty:
  "package_differences l r = Inr [] \<longleftrightarrow>
     period_start (Some (pkg_period l)) = period_start (Some (pkg_period r))
     \<and> for_keys input_difference (index_by pi_id (pkg_inputs l) []) (index_by pi_id (pkg_inputs r) []) = Inr []
     \<and> for_keys (on_both constant_difference)
         (index_by const_id (pkg_constants l) []) (index_by const_id (pkg_constants r) []) = Inr []
     \<and> for_keys (on_both (\<lambda>_. compare_rate_tables))
         (index_by tbl_id (pkg_tables l) []) (index_by tbl_id (pkg_tables r) []) = Inr []
     \<and> for_keys (on_both modifier_difference)
         (index_by mod_id (pkg_modifiers l) []) (index_by mod_id (pkg_modifiers r) []) = Inr []
     \<and> for_keys (on_both constraint_difference)
         (index_by pc_id (pkg_constraints l) []) (index_by pc_id (pkg_constraints r) []) = Inr []
     \<and> for_keys (on_both fee_difference) (index_by fee_id (pkg_fees l) []) (index_by fee_id (pkg_fees r) []) = Inr []"
  unfolding package_differences_def rbind_Inr_iff by auto

lemma input_difference_empty:
  assumes "distinct (map pi_id xs)" "distinct (map pi_id ys)"
  shows "for_keys input_difference (index_by pi_id xs []) (index_by pi_id ys []) = Inr [] \<longleftrightarrow>
     pi_id ` set xs = pi_id ` set ys"
proof -
  have diff: "input_difference k a b = Inr [] \<longleftrightarrow> (a = None \<longleftrightarrow> b = None)" for k a b
    by (simp add: input_difference_def split: option.splits)
  have none: "dget (index_by pi_id zs []) k = None \<longleftrightarrow> k \<notin> pi_id ` set zs" if "distinct (map pi_id zs)" for zs k
    using dget_index_by_iff [OF that, of k] by (auto simp: image_iff simp flip: not_Some_eq)
  have "input_difference k None None = Inr []" for k by (simp add: diff)
  then show ?thesis
    unfolding for_keys_empty [of input_difference, OF \<open>input_difference _ None None = Inr []\<close>] diff
      none [OF assms(1)] none [OF assms(2)] set_eq_iff by simp
qed

definition same_modifier :: "pricing_modifier \<Rightarrow> pricing_modifier \<Rightarrow> bool" where
  "same_modifier a b \<longleftrightarrow> same_number (mod_value a) (mod_value b)
     \<and> period_start (mod_period a) = period_start (mod_period b) \<and> mod_sequence a = mod_sequence b"

definition same_constraint :: "premium_constraint \<Rightarrow> premium_constraint \<Rightarrow> bool" where
  "same_constraint a b \<longleftrightarrow> dval (pc_amount a) = dval (pc_amount b) \<and> pc_sequence a = pc_sequence b"

definition same_fee :: "pricing_fee \<Rightarrow> pricing_fee \<Rightarrow> bool" where
  "same_fee a b \<longleftrightarrow> dval (fee_amount a) = dval (fee_amount b) \<and> fee_sequence a = fee_sequence b"

lemma agree_tables:
  assumes "\<forall>t \<in> set xs. keyed_table t" "\<forall>t \<in> set ys. keyed_table t"
  shows "agree tbl_id (\<lambda>x y. compare_rate_tables x y = Inr []) xs ys \<longleftrightarrow> agree tbl_id same_rates xs ys"
  using assms compare_rate_tables_empty unfolding agree_def by blast

text \<open>C24: Two packages that validate are reported semantically equal exactly when they start on the
  same day, declare the same input ids, and agree on every node they share: constants on the value,
  tables on the rate of every row key, modifiers on value, start and sequence, constraints and
  fees on amount and sequence.  Nothing else of a package is compared.\<close>

theorem semantic_equality_exact:
  assumes "construct_package p = Inr l" "construct_package q = Inr r" "compare_packages l r = Inr res"
  shows "sr_semantically_equal res \<longleftrightarrow>
    ep_start (pkg_period l) = ep_start (pkg_period r)
    \<and> pi_id ` set (pkg_inputs l) = pi_id ` set (pkg_inputs r)
    \<and> agree const_id (\<lambda>a b. dval (const_value a) = dval (const_value b)) (pkg_constants l) (pkg_constants r)
    \<and> agree tbl_id same_rates (pkg_tables l) (pkg_tables r)
    \<and> agree mod_id same_modifier (pkg_modifiers l) (pkg_modifiers r)
    \<and> agree pc_id same_constraint (pkg_constraints l) (pkg_constraints r)
    \<and> agree fee_id same_fee (pkg_fees l) (pkg_fees r)"
proof -
  note ok = validated_comparable [OF assms(1), unfolded comparable_def]
    validated_comparable [OF assms(2), unfolded comparable_def]
  have "sr_semantically_equal res \<longleftrightarrow> package_differences l r = Inr []"
    using assms(3) by (auto simp: compare_packages_def res_simps)
  then show ?thesis
    using ok by (simp add: package_differences_empty input_difference_empty common_nodes_empty agree_tables
      constant_difference_empty modifier_difference_empty constraint_difference_empty fee_difference_empty
      same_constraint_def [abs_def] same_fee_def [abs_def] same_modifier_def [abs_def] period_start_def)
qed

lemma rmap_list_InlD: "rmap_list g ks = Inl e \<Longrightarrow> \<exists>k. g k = Inl e"
  by (induction ks) (auto simp: res_simps)

lemma for_keys_ok:
  assumes "\<And>k e. f k (dget l k) (dget r k) \<noteq> Inl e"
  obtains ds where "for_keys f l r = Inr ds"
proof (cases "for_keys f l r")
  case (Inl e)
  then show thesis using assms by (auto simp: for_keys_def res_simps dest: rmap_list_InlD)
qed (rule that)

lemma for_both_ok:
  assumes "\<And>k x y e. dget l k = Some x \<Longrightarrow> dget r k = Some y \<Longrightarrow> f k x y \<noteq> Inl e"
  obtains ds where "for_keys (on_both f) l r = Inr ds"
proof (rule for_keys_ok)
  show "on_both f k (dget l k) (dget r k) \<noteq> Inl e" for k e
    using assms by (auto simp: on_both_def split: option.splits)
qed

text \<open>The comparison of the modifiers is the only one that can fail.\<close>

lemma compare_packages_error:
  assumes "comparable l" "comparable r"
  shows "compare_packages l r = Inl e \<longleftrightarrow> for_keys (on_both modifier_difference)
    (index_by mod_id (pkg_modifiers l) []) (index_by mod_id (pkg_modifiers r) []) = Inl e"
proof -
  have 1: "input_difference k a b \<noteq> Inl e" "constant_difference k c d \<noteq> Inl e" "constraint_difference k x y \<noteq> Inl e"
    "fee_difference k u v \<noteq> Inl e" for k a b c d x y u v e
    by (simp_all add: input_difference_def constant_difference_def constraint_difference_def fee_difference_def
        split: option.splits)
  obtain d2 where 2: "for_keys input_difference (index_by pi_id (pkg_inputs l) []) (index_by pi_id (pkg_inputs r) []) = Inr d2"
    using 1 for_keys_ok by metis
  obtain d3 where 3: "for_keys (on_both constant_difference)
      (index_by const_id (pkg_constants l) []) (index_by const_id (pkg_constants r) []) = Inr d3"
    using 1(2) by (rule for_both_ok)
  obtain d4 where 4: "for_keys (on_both (\<lambda>_. compare_rate_tables))
      (index_by tbl_id (pkg_tables l) []) (index_by tbl_id (pkg_tables r) []) = Inr d4"
  proof (rule for_both_ok)
    fix k x y e
    assume "dget (index_by tbl_id (pkg_tables l) []) k = Some x" "dget (index_by tbl_id (pkg_tables r) []) k = Some y"
    then have "keyed_table x" "keyed_table y" using assms by (auto simp: comparable_def dget_index_by_iff)
    then show "compare_rate_tables x y \<noteq> Inl e" by (rule compare_rate_tables_ok)
  qed
  obtain d6 where 6: "for_keys (on_both constraint_difference)
      (index_by pc_id (pkg_constraints l) []) (index_by pc_id (pkg_constraints r) []) = Inr d6"
    using 1(3) by (rule for_both_ok)
  obtain d7 where 7: "for_keys (on_both fee_difference)
      (index_by fee_id (pkg_fees l) []) (index_by fee_id (pkg_fees r) []) = Inr d7"
    using 1(4) by (rule for_both_ok)
  show ?thesis by (simp add: compare_packages_def package_differences_def 2 3 4 6 7 res_simps)
qed

fun by_reference :: "modifier_value \<Rightarrow> bool" where
  "by_reference (ModRef r) = True"
| "by_reference (ModDec d) = False"

lemma modifier_difference_error:
  "modifier_difference k a b = Inl e \<longleftrightarrow> e = InvalidOperation \<and>
     (by_reference (mod_value a) \<or> by_reference (mod_value b))"
  by (cases "mod_value a"; cases "mod_value b") (auto simp: modifier_difference_def simp del: modifier_text.simps)

lemma on_both_Inl:
  "on_both f k u v = Inl e \<longleftrightarrow> (\<exists>a b. u = Some a \<and> v = Some b \<and> f k a b = Inl e)"
  by (simp add: on_both_def split: option.splits)

lemma common_pairs:
  "(\<exists>k a b. (a \<in> A \<and> f a = k) \<and> (b \<in> B \<and> f b = k) \<and> x = x \<and> Q a b) \<longleftrightarrow>
     (\<exists>a \<in> A. \<exists>b \<in> B. f a = f b \<and> Q a b)"
  by (simp, metis)

text \<open>Comparing two packages that validate fails exactly when a modifier they share takes its value
  from a reference on either side, and then always with \<open>InvalidOperation\<close>: the printed reference is
  read as a decimal.\<close>

theorem comparison_fails_on_references:
  assumes "construct_package p = Inr l" "construct_package q = Inr r"
  shows "compare_packages l r = Inl e \<longleftrightarrow> e = InvalidOperation \<and>
    (\<exists>a \<in> set (pkg_modifiers l). \<exists>b \<in> set (pkg_modifiers r). mod_id a = mod_id b \<and>
       (by_reference (mod_value a) \<or> by_reference (mod_value b)))"
proof -
  note ok = validated_comparable [OF assms(1)] validated_comparable [OF assms(2)]
  then have ids: "distinct (map mod_id (pkg_modifiers l))" "distinct (map mod_id (pkg_modifiers r))"
    by (simp_all add: comparable_def)
  have "compare_packages l r = Inl e \<longleftrightarrow> e = InvalidOperation \<and>
      (\<exists>k. on_both modifier_difference k (dget (index_by mod_id (pkg_modifiers l) []) k)
        (dget (index_by mod_id (pkg_modifiers r) []) k) = Inl InvalidOperation)"
    unfolding compare_packages_error [OF ok] by (rule for_keys_error) (auto simp: on_both_Inl modifier_difference_error)
  then show ?thesis
    unfolding on_both_Inl modifier_difference_error dget_index_by_iff [OF ids(1)] dget_index_by_iff [OF ids(2)] common_pairs .
qed

section \<open>Symmetry\<close>

fun mirror_type :: "difference_type \<Rightarrow> difference_type" where
  "mirror_type MISSING_NODE = EXTRA_NODE"
| "mirror_type EXTRA_NODE = MISSING_NODE"
| "mirror_type TABLE_ROW_MISSING = TABLE_ROW_EXTRA"
| "mirror_type TABLE_ROW_EXTRA = TABLE_ROW_MISSING"
| "mirror_type t = t"

text \<open>The same finding seen from the other side.\<close>

definition mirrored :: "semantic_difference \<Rightarrow> semantic_difference \<Rightarrow> bool" where
  "mirrored d e \<longleftrightarrow> sd_type e = mirror_type (sd_type d) \<and> sd_path e = sd_path d \<and> sd_node_id e = sd_node_id d
     \<and> sd_node_type e = sd_node_type d \<and> sd_severity e = sd_severity d \<and> sd_metadata e = sd_metadata d
     \<and> sd_left e = sd_right d \<and> sd_right e = sd_left d
     \<and> sd_left_provenance e = sd_right_provenance d \<and> sd_right_provenance e = sd_left_provenance d"

definition mirror_res :: "semantic_difference list res \<Rightarrow> semantic_difference list res \<Rightarrow> bool" where
  "mirror_res a b \<longleftrightarrow> rel_sum (=) (list_all2 mirrored) a b"

lemma mirror_res_simps [simp]:
  "mirror_res (Inr ds) (Inr es) = list_all2 mirrored ds es" "mirror_res (Inl e) (Inl e') = (e = e')"
  "\<not> mirror_res (Inl e) (Inr es)" "\<not> mirror_res (Inr ds) (Inl e)"
  by (simp_all add: mirror_res_def)

lemma mirror_bind:
  assumes "mirror_res a b" "\<And>ds es. list_all2 mirrored ds es \<Longrightarrow> mirror_res (f ds) (g es)"
  shows "mirror_res (rbind a f) (rbind b g)"
  using assms by (cases a; cases b) auto

lemma for_keys_mirror:
  assumes "\<And>k. mirror_res (f k (dget l k) (dget r k)) (g k (dget r k) (dget l k))"
  shows "mirror_res (for_keys f l r) (for_keys g r l)"
proof -
  have 1: "rel_sum (=) (list_all2 (list_all2 mirrored)) (rmap_list (\<lambda>k. f k (dget l k) (dget r k)) ks)
     (rmap_list (\<lambda>k. g k (dget r k) (dget l k)) ks)" for ks
  proof (induction ks)
    case (Cons k ks)
    show ?case
      using Cons assms [of k]
      by (cases "f k (dget l k) (dget r k)"; cases "g k (dget r k) (dget l k)";
          cases "rmap_list (\<lambda>k. f k (dget l k) (dget r k)) ks"; cases "rmap_list (\<lambda>k. g k (dget r k) (dget l k)) ks") auto
  qed simp
  have "list_all2 (list_all2 R) xs ys \<Longrightarrow> list_all2 R (concat xs) (concat ys)" for R :: "'d \<Rightarrow> 'e \<Rightarrow> bool" and xs ys
    by (induction rule: list_all2_induct) (simp_all add: list_all2_appendI)
  then show ?thesis
    unfolding for_keys_def all_keys_commute [of r l]
    using 1 [of "all_keys l r"]
    by (cases "rmap_list (\<lambda>k. f k (dget l k) (dget r k)) (all_keys l r)";
        cases "rmap_list (\<lambda>k. g k (dget r k) (dget l k)) (all_keys l r)") auto
qed

lemma on_both_mirror:
  "(\<And>k a b. mirror_res (f k a b) (g k b a)) \<Longrightarrow> mirror_res (on_both f k a b) (on_both g k b a)"
  by (cases a; cases b) auto

lemmas mirror_simps = mirrored_def node_difference_def sequence_difference_def compare_effective_periods_def Let_def

lemma input_mirror: "mirror_res (input_difference k a b) (input_difference k b a)"
  by (simp add: input_difference_def mirror_simps split: option.splits)

lemma constant_mirror: "mirror_res (constant_difference k a b) (constant_difference k b a)"
  by (simp add: constant_difference_def mirror_simps)

lemma constraint_mirror: "mirror_res (constraint_difference k a b) (constraint_difference k b a)"
  by (simp add: constraint_difference_def mirror_simps)

lemma fee_mirror: "mirror_res (fee_difference k a b) (fee_difference k b a)"
  by (simp add: fee_difference_def mirror_simps)

lemma modifier_mirror: "mirror_res (modifier_difference k a b) (modifier_difference k b a)"
  by (cases "mod_value a"; cases "mod_value b") (simp_all add: modifier_difference_def mirror_simps del: modifier_text.simps)

lemma row_mirror: "tbl_id lt = tbl_id rt \<Longrightarrow> mirror_res (row_difference lt rt k a b) (row_difference rt lt k b a)"
  by (cases a; cases b) (simp_all add: row_difference_def mirror_simps)

lemma keyed_rows_error: "keyed_rows t = Inl e \<Longrightarrow> e = index_error"
  by (auto simp: keyed_rows_def res_simps format_match_key_def Let_def split: if_splits list.splits dest!: rmap_list_InlD)

lemma table_mirror:
  assumes "tbl_id lt = tbl_id rt"
  shows "mirror_res (compare_rate_tables lt rt) (compare_rate_tables rt lt)"
  using for_keys_mirror [where f = "row_difference lt rt" and g = "row_difference rt lt", OF row_mirror [OF assms]]
    keyed_rows_error [of lt] keyed_rows_error [of rt]
  by (cases "keyed_rows lt"; cases "keyed_rows rt") (auto simp: compare_rate_tables_def)

lemma indexed_id: "dget (index_by key xs []) k = Some x \<Longrightarrow> key x = k"
  by (auto simp: dget_index_by split: option.splits dest!: find_SomeD)

lemma period_mirror:
  "list_all2 mirrored (compare_effective_periods a i c p q) (compare_effective_periods a i c q p)"
  by (simp add: mirror_simps)

lemma tables_mirror:
  "mirror_res (for_keys (on_both (\<lambda>_. compare_rate_tables)) (index_by tbl_id xs []) (index_by tbl_id ys []))
     (for_keys (on_both (\<lambda>_. compare_rate_tables)) (index_by tbl_id ys []) (index_by tbl_id xs []))"
proof (rule for_keys_mirror)
  fix k
  show "mirror_res (on_both (\<lambda>_. compare_rate_tables) k (dget (index_by tbl_id xs []) k) (dget (index_by tbl_id ys []) k))
     (on_both (\<lambda>_. compare_rate_tables) k (dget (index_by tbl_id ys []) k) (dget (index_by tbl_id xs []) k))"
    using indexed_id [of tbl_id xs k] indexed_id [of tbl_id ys k] table_mirror
    by (auto simp: on_both_def split: option.splits)
qed

text \<open>The finding about the period of the package itself has the id of the left package as its node, whichever
  that is; every other finding has the node both packages share.\<close>

definition mirrored_between :: "string \<Rightarrow> string \<Rightarrow> semantic_difference \<Rightarrow> semantic_difference \<Rightarrow> bool" where
  "mirrored_between li ri d e \<longleftrightarrow> mirrored d e
     \<or> sd_node_type d = ''PACKAGE'' \<and> sd_node_id d = li \<and> mirrored (d\<lparr>sd_node_id := ri\<rparr>) e"

lemma package_period_mirror:
  "list_all2 (mirrored_between li ri) (compare_effective_periods a li ''PACKAGE'' p q) (compare_effective_periods a ri ''PACKAGE'' q p)"
  by (simp add: mirror_simps mirrored_between_def)

lemma package_differences_mirror:
  "rel_sum (=) (list_all2 (mirrored_between (pkg_id l) (pkg_id r))) (package_differences l r) (package_differences r l)"
proof -
  let ?P = "\<lambda>x y. compare_effective_periods ''package'' (pkg_id x) ''PACKAGE'' (Some (pkg_period x)) (Some (pkg_period y))"
  define nodes where "nodes x y =
     rbind (for_keys input_difference (index_by pi_id (pkg_inputs x) []) (index_by pi_id (pkg_inputs y) [])) (\<lambda>d2.
     rbind (for_keys (on_both constant_difference) (index_by const_id (pkg_constants x) []) (index_by const_id (pkg_constants y) [])) (\<lambda>d3.
     rbind (for_keys (on_both (\<lambda>_. compare_rate_tables)) (index_by tbl_id (pkg_tables x) []) (index_by tbl_id (pkg_tables y) [])) (\<lambda>d4.
     rbind (for_keys (on_both modifier_difference) (index_by mod_id (pkg_modifiers x) []) (index_by mod_id (pkg_modifiers y) [])) (\<lambda>d5.
     rbind (for_keys (on_both constraint_difference) (index_by pc_id (pkg_constraints x) []) (index_by pc_id (pkg_constraints y) [])) (\<lambda>d6.
     rbind (for_keys (on_both fee_difference) (index_by fee_id (pkg_fees x) []) (index_by fee_id (pkg_fees y) [])) (\<lambda>d7.
       Inr (d2 @ d3 @ d4 @ d5 @ d6 @ d7)))))))" for x y :: ipir_package
  have split: "package_differences x y = rbind (nodes x y) (\<lambda>ds. Inr (?P x y @ ds))" for x y
    by (simp add: package_differences_def nodes_def rbind_assoc)
  have "mirror_res (nodes l r) (nodes r l)"
    unfolding nodes_def
    by (intro mirror_bind for_keys_mirror [where f = input_difference] tables_mirror
         for_keys_mirror [where f = "on_both constant_difference"] for_keys_mirror [where f = "on_both modifier_difference"]
         for_keys_mirror [where f = "on_both constraint_difference"] for_keys_mirror [where f = "on_both fee_difference"]
         on_both_mirror input_mirror constant_mirror modifier_mirror constraint_mirror fee_mirror)
      (simp add: list_all2_appendI)
  moreover have "list_all2 (mirrored_between li ri) ds es" if "list_all2 mirrored ds es" for li ri ds es
    using that by (rule list_all2_mono) (simp add: mirrored_between_def)
  ultimately show ?thesis
    unfolding split by (cases "nodes l r"; cases "nodes r l") (auto intro!: list_all2_appendI package_period_mirror)
qed

lemma severity_counts_mirror: "list_all2 (mirrored_between li ri) ds es \<Longrightarrow> severity_counts ds = severity_counts es"
proof -
  have "list_all2 (mirrored_between li ri) ds es \<Longrightarrow>
     fold (\<lambda>d c. dset (severity_value (sd_severity d)) (dget_default c (severity_value (sd_severity d)) 0 + 1) c) ds c =
     fold (\<lambda>d c. dset (severity_value (sd_severity d)) (dget_default c (severity_value (sd_severity d)) 0 + 1) c) es c" for c
    by (induction ds es arbitrary: c rule: list_all2_induct) (auto simp: mirrored_between_def mirrored_def)
  then show "list_all2 (mirrored_between li ri) ds es \<Longrightarrow> severity_counts ds = severity_counts es" unfolding severity_counts_def .
qed

text \<open>C25: For any two packages, the comparison does not depend on which is called left: with the sides exchanged
  it raises the same exception, or reports the same findings in the same order, each with its values
  and provenances exchanged and missing read as extra, the same counts and the same verdict.  One finding
  names its left side: a changed start of the package's own period has the id of the left package as its
  node.\<close>

theorem comparison_symmetric:
  "rel_sum (=) (\<lambda>a b. list_all2 (mirrored_between (pkg_id l) (pkg_id r)) (sr_differences a) (sr_differences b)
      \<and> sr_severity_counts a = sr_severity_counts b \<and> sr_difference_count a = sr_difference_count b
      \<and> sr_semantically_equal a = sr_semantically_equal b)
    (compare_packages l r) (compare_packages r l)"
  using package_differences_mirror [of l r] severity_counts_mirror [of "pkg_id l" "pkg_id r"]
  by (cases "package_differences l r"; cases "package_differences r l")
    (auto simp: compare_packages_def dest: list_all2_lengthD)


section \<open>Concrete packages\<close>

text \<open>The sample package with its one calculation replaced: the roof factor is no longer applied.\<close>

definition flat_calculation :: calculation_node where
  "flat_calculation = sample_calculation\<lparr>calc_expression := ERef ''base_rate''\<rparr>"

definition flat_package :: ipir_package where
  "flat_package = sample_package\<lparr>pkg_calculations := [flat_calculation]\<rparr>"

lemma flat_valid: "validate_node flat_calculation = Inr flat_calculation"
  by (simp add: flat_calculation_def sample_calculation_def validate_simps validate_node_def own_rounding_ref_def)

lemma construct_flat: "construct_package flat_package = Inr flat_package"
proof -
  have "fields_fixed flat_package"
    using construct_package_result(1) [OF construct_sample] by (simp add: fields_fixed_def flat_package_def flat_valid)
  moreover have "node_ids flat_package = [''roof_age'', ''base_rate'', ''roof_factor'', ''premium'', ''total'']"
    by (simp add: node_ids_def entities_def flat_package_def sample_package_def flat_calculation_def
        sample_input_def sample_table_fields sample_calculation_def)
  then have "validate_package flat_package = Inr flat_package"
    unfolding validate_package_Inr by (simp add: flat_package_def sample_package_def validate_simps)
  ultimately show ?thesis by (simp add: construct_package_fixed)
qed

lemma flat_equal: "\<exists>res. compare_packages sample_package flat_package = Inr res \<and> sr_semantically_equal res"
proof -
  have "\<not> (\<exists>e. compare_packages sample_package flat_package = Inl e)"
    using comparison_fails_on_references [OF construct_sample construct_flat] by (simp add: sample_package_def)
  then obtain res where "compare_packages sample_package flat_package = Inr res"
    by (cases "compare_packages sample_package flat_package") auto
  then show ?thesis
    using semantic_equality_exact [OF construct_sample construct_flat]
    by (simp add: agree_def flat_package_def sample_package_def same_rates_def)
qed


text \<open>The sample package with a discount whose size is read from another node.\<close>

definition referring_modifier :: pricing_modifier where
  "referring_modifier = \<lparr>mod_id = ''loyalty'', mod_name = ''Loyalty'', mod_type = PERCENTAGE_DISCOUNT,
     mod_applies_to = ''premium'', mod_value = ModRef ''base_rate'', mod_eligibility = None,
     mod_sequence = None, mod_period = None, mod_provenance = None\<rparr>"

definition referring_package :: ipir_package where
  "referring_package = sample_package\<lparr>pkg_modifiers := [referring_modifier]\<rparr>"

lemma construct_referring: "construct_package referring_package = Inr referring_package"
proof -
  have "validate_modifier referring_modifier = Inr referring_modifier"
    by (simp add: referring_modifier_def validate_modifier_def validate_simps)
  then have "fields_fixed referring_package"
    using construct_package_result(1) [OF construct_sample] by (simp add: fields_fixed_def referring_package_def)
  moreover have "node_ids referring_package = [''roof_age'', ''base_rate'', ''roof_factor'', ''premium'', ''loyalty'', ''total'']"
    by (simp add: node_ids_def entities_def referring_package_def sample_package_def referring_modifier_def
        sample_input_def sample_table_fields sample_calculation_def)
  then have "validate_package referring_package = Inr referring_package"
    unfolding validate_package_Inr by (simp add: referring_package_def sample_package_def validate_simps)
  ultimately show ?thesis by (simp add: construct_package_fixed)
qed

lemma sample_premium:
  "\<exists>r. evaluate_package kahn_sort sample_package roof20 (Date 2026 3 1) NEW_BUSINESS False = Inr r
     \<and> or_final_premium r = Dec False 125013 (-2)"
  by (simp add: evaluate_package_def resolve_nodes_def sample_package_def roof20_def
    validate_risk_inputs_def sample_input_def validate_risk_input_def supplied_value_def convert_input_def check_bounds_def
    topological_sort_calculations_def dependency_edges_def kahn_sort.simps ready_def List.map_filter_def
    set_input_def set_constant_def set_table_def is_active_def less_date_def final_result_def step_node_def run_node_def
    active_modifiers_def active_constraints_def active_fees_def node_modifiers_def node_constraints_def node_fees_def
    put_def trace_to_def add_step_def initial_state_def dec_eval full_lookup dimension_values_def sample_table_fields
    sample_calculation_def resolve_ref_def apply_operator_def node_rounding_def apply_rounding_def)

lemma flat_premium:
  "\<exists>r. evaluate_package kahn_sort flat_package roof20 (Date 2026 3 1) NEW_BUSINESS False = Inr r
     \<and> or_final_premium r = Dec False 100010 (-2)"
  by (simp add: evaluate_package_def resolve_nodes_def flat_package_def flat_calculation_def sample_package_def roof20_def
    validate_risk_inputs_def sample_input_def validate_risk_input_def supplied_value_def convert_input_def check_bounds_def
    topological_sort_calculations_def dependency_edges_def kahn_sort.simps ready_def List.map_filter_def
    set_input_def set_constant_def set_table_def is_active_def less_date_def final_result_def step_node_def run_node_def
    active_modifiers_def active_constraints_def active_fees_def node_modifiers_def node_constraints_def node_fees_def
    put_def trace_to_def add_step_def initial_state_def dec_eval full_lookup dimension_values_def sample_table_fields
    sample_calculation_def resolve_ref_def apply_operator_def node_rounding_def apply_rounding_def)

text \<open>Semantic equality does not mean equal prices: two packages that validate and differ in the
  expression of their calculation are reported semantically equal, with no difference, and price
  the same policy at 1250.13 and at 1000.10.\<close>

lemma equal_packages_priced_differently:
  "construct_package sample_package = Inr sample_package \<and> construct_package flat_package = Inr flat_package
   \<and> (\<exists>res. compare_packages sample_package flat_package = Inr res \<and> sr_semantically_equal res)
   \<and> (\<exists>a b. evaluate_package kahn_sort sample_package roof20 (Date 2026 3 1) NEW_BUSINESS False = Inr a
        \<and> evaluate_package kahn_sort flat_package roof20 (Date 2026 3 1) NEW_BUSINESS False = Inr b
        \<and> or_final_premium a = Dec False 125013 (-2) \<and> or_final_premium b = Dec False 100010 (-2))"
  using construct_sample construct_flat flat_equal sample_premium flat_premium by blast


lemma semantic_equality_exact_witness:
  "\<exists>res. compare_packages sample_package flat_package = Inr res \<and> (sr_semantically_equal res \<longleftrightarrow>
     agree tbl_id same_rates (pkg_tables sample_package) (pkg_tables flat_package))"
  using flat_equal semantic_equality_exact [OF construct_sample construct_flat] by blast

lemma comparison_fails_on_references_witness:
  "compare_packages referring_package referring_package = Inl InvalidOperation"
  using comparison_fails_on_references [OF construct_referring construct_referring, of InvalidOperation]
  by (simp add: referring_package_def referring_modifier_def)

lemma comparison_symmetric_witness:
  "rel_sum (=) (\<lambda>a b. list_all2 (mirrored_between ''canonical'' ''defective'') (sr_differences a) (sr_differences b)
      \<and> sr_severity_counts a = sr_severity_counts b \<and> sr_difference_count a = sr_difference_count b
      \<and> sr_semantically_equal a = sr_semantically_equal b)
    (compare_packages (sample_package\<lparr>pkg_id := ''canonical''\<rparr>) (flat_package\<lparr>pkg_id := ''defective''\<rparr>))
    (compare_packages (flat_package\<lparr>pkg_id := ''defective''\<rparr>) (sample_package\<lparr>pkg_id := ''canonical''\<rparr>))"
  using comparison_symmetric [of "sample_package\<lparr>pkg_id := ''canonical''\<rparr>" "flat_package\<lparr>pkg_id := ''defective''\<rparr>"] by simp

end
