(* ===== verification/ExposureLaws.thy ===== *)
theory ExposureLaws
  imports PortfolioExposure SemanticDiffLaws
begin

text \<open>The blast radius of a diff is sound for changed rates: a policy that two packages price
  differently because a rate of a table changed is selected by the predicate of that change, and
  the financial count of the analyzer is then exact.
\<close>

section \<open>Splitting the text of a row key\<close>

lemma split_text_none: "CHR ''|'' \<notin> set s \<Longrightarrow> split_text ''|'' acc s = [rev acc @ s]"
  by (induction s arbitrary: acc) auto

lemma split_text_bar:
  "CHR ''|'' \<notin> set s \<Longrightarrow> split_text ''|'' acc (s @ CHR ''|'' # t) = (rev acc @ s) # split_text ''|'' [] t"
  by (induction s arbitrary: acc) auto

lemma py_split_join:
  assumes "parts \<noteq> []" "\<And>s. s \<in> set parts \<Longrightarrow> CHR ''|'' \<notin> set s"
  shows "py_split ''|'' (join_with ''|'' parts) = parts"
  using assms
proof (induction "''|''" parts rule: join_with.induct)
  case (2 s)
  then show ?case by (simp add: py_split_def split_text_none)
next
  case (3 s t ts)
  then show ?case by (simp add: py_split_def split_text_bar)
qed simp

text \<open>Texts without two dots in a row, and not ending or starting with one.\<close>

fun dotless :: "string \<Rightarrow> bool" where
  "dotless (a # b # s) = (\<not> (a = CHR ''.'' \<and> b = CHR ''.'') \<and> dotless (b # s))"
| "dotless _ = True"

lemma split_dots_rest:
  "dotless s \<Longrightarrow> split_text ''..'' acc s = [rev acc @ s]"
proof (induction s arbitrary: acc rule: dotless.induct)
  case (1 a b s)
  then show ?case by (auto simp: prefix_def)
qed (auto simp: prefix_def)

lemma split_dots:
  "dotless s \<Longrightarrow> s \<noteq> [] \<Longrightarrow> last s \<noteq> CHR ''.'' \<Longrightarrow> split_text ''..'' acc (s @ ''..'' @ t) = (rev acc @ s) # split_text ''..'' [] t"
proof (induction s arbitrary: acc rule: dotless.induct)
  case (1 a b s)
  then show ?case by auto
qed (auto simp: prefix_def)

lemma contains_dots: "text_contains ''..'' (s @ ''..'' @ t)"
  by (induction s) auto

lemma split_range: "dotless a \<Longrightarrow> a \<noteq> [] \<Longrightarrow> last a \<noteq> CHR ''.'' \<Longrightarrow> dotless b \<Longrightarrow> py_split ''..'' (a @ ''..'' @ b) = [a, b]"
  by (simp add: py_split_def split_dots [of a "[]", simplified] split_dots_rest)

lemma dotless_plain: "CHR ''.'' \<notin> set s \<Longrightarrow> dotless s"
  by (induction s rule: dotless.induct) auto

lemma dotless_one: "CHR ''.'' \<notin> set a \<Longrightarrow> CHR ''.'' \<notin> set b \<Longrightarrow> dotless (a @ CHR ''.'' # b)"
proof (induction a)
  case Nil
  then show ?case by (cases b) (auto simp: dotless_plain)
next
  case (Cons x a)
  then show ?case by (cases a) auto
qed

lemma digits_no_dot: "list_all is_digit s \<Longrightarrow> CHR ''.'' \<notin> set s"
  by (auto simp: list_all_iff is_digit_def)

lemma last_not: "c \<notin> set s \<Longrightarrow> s \<noteq> [] \<Longrightarrow> last s \<noteq> c"
  using last_in_set by metis

lemma signed_no_dot: "CHR ''.'' \<notin> set (signed_str i)" "signed_str i \<noteq> []" "last (signed_str i) \<noteq> CHR ''.''"
  using digits_no_dot [OF nat_str_digits [of "nat i"]] digits_no_dot [OF nat_str_digits [of "nat (- i)"]]
  by (auto simp: signed_str_def last_not)

text \<open>The text of a number has at most one dot, with digits around it, and no bar.\<close>

lemma dotless_signed: "dotless s \<Longrightarrow> dotless (CHR ''-'' # s)"
  by (cases s) auto

lemma dec_str_num_chars: "list_all num_char (dec_str d)"
proof (cases d)
  case (Dec s c e)
  obtain ip fp ex x where str: "dec_str (Dec s c e) = (if s then ''-'' else []) @ ip @ fp @ ex"
     and parts: "list_all is_digit ip" "ex_text ex x" "fp = [] \<or> (\<exists>f. fp = ''.'' @ f \<and> list_all is_digit f)"
    using dec_str_shape [of s c e] by blast
  have "list_all num_char ex" using parts(2) list_all_signed by (auto simp: ex_text_def)
  moreover have "list_all num_char fp" using parts(3) by (auto simp: digits_num_char num_char_def)
  moreover have "num_char CHR ''-''" by (simp add: num_char_def)
  ultimately show ?thesis unfolding Dec str using digits_num_char [OF parts(1)] by simp
qed

lemma dec_str_text: "dotless (dec_str d)" "dec_str d \<noteq> []" "last (dec_str d) \<noteq> CHR ''.''" "CHR ''|'' \<notin> set (dec_str d)"
proof -
  obtain s c e where d: "d = Dec s c e" by (cases d)
  obtain ip fp ex x where str: "dec_str (Dec s c e) = (if s then ''-'' else []) @ ip @ fp @ ex"
     and ip: "list_all is_digit ip" "ip \<noteq> []" and ex: "ex_text ex x"
     and fp: "fp = [] \<or> (\<exists>f. fp = ''.'' @ f \<and> f \<noteq> [] \<and> list_all is_digit f)"
    using dec_str_shape [of s c e] by blast
  have ex': "CHR ''.'' \<notin> set ex" "ex \<noteq> [] \<longrightarrow> last ex \<noteq> CHR ''.''"
    using ex signed_no_dot [of x] by (auto simp: ex_text_def)
  have nodot: "CHR ''.'' \<notin> set ip" "last ip \<noteq> CHR ''.''"
    using digits_no_dot [OF ip(1)] ip(2) by (auto dest: last_in_set)
  have body: "dotless (ip @ fp @ ex) \<and> last (ip @ fp @ ex) \<noteq> CHR ''.''"
    using fp
  proof
    assume "fp = []"
    then have "CHR ''.'' \<notin> set (ip @ fp @ ex)" "ip @ fp @ ex \<noteq> []" using nodot ex' ip(2) by auto
    then show ?thesis using dotless_plain last_not by metis
  next
    assume "\<exists>f. fp = ''.'' @ f \<and> f \<noteq> [] \<and> list_all is_digit f"
    then obtain f where f: "fp = CHR ''.'' # f" "f \<noteq> []" "CHR ''.'' \<notin> set f" using digits_no_dot by auto
    then have "last f \<noteq> CHR ''.''" by (auto dest: last_in_set)
    then show ?thesis using f nodot ex' dotless_one [of ip "f @ ex"] by (auto simp: last_append)
  qed
  show "dotless (dec_str d)" unfolding d str using body dotless_signed by simp
  show "dec_str d \<noteq> []" unfolding d str using ip(2) by simp
  show "last (dec_str d) \<noteq> CHR ''.''" unfolding d str using body ip(2) by simp
  show "CHR ''|'' \<notin> set (dec_str d)"
    using dec_str_num_chars [of d] by (auto simp: list_all_iff num_char_def is_digit_def)
qed

section \<open>The clauses of a changed row\<close>

text \<open>The text of a number, and of a range bound.\<close>

lemma number_text:
  assumes "is_number v"
  obtains d where "to_dec v = Inr d" "num_of v = Some d" "decimal_of_string (py_str v) = Inr d"
    "dotless (py_str v)" "py_str v \<noteq> []" "last (py_str v) \<noteq> CHR ''.''" "CHR ''|'' \<notin> set (py_str v)"
    "list_all num_char (py_str v)"
proof (cases v)
  case (PInt i)
  then show thesis using that [of "dec_of_int i"] dec_str_text [of "dec_of_int i"] dec_str_num_chars [of "dec_of_int i"]
    by (simp add: int_str_dec)
next
  case (PDec d)
  then show thesis using that [of d] dec_str_text [of d] dec_str_num_chars [of d] by simp
qed (use assms in auto)

lemma open_texts: "\<not> list_all num_char ''-inf''" "\<not> list_all num_char ''+inf''" "dotless ''-inf''" "dotless ''+inf''"
  by (simp_all add: num_char_def is_digit_def)

lemma key_clauses_range:
  assumes "range_typed m" "td_lookup_type dm = RANGE"
  shows "key_clauses (dm, match_text (RangeMatch m)) = Inr
    ((case rm_minimum m of None \<Rightarrow> [] | Some v \<Rightarrow> [\<lparr>cl_field = td_input_ref dm, cl_operator = GTE, cl_value = PDec (the (num_of v))\<rparr>])
     @ (case rm_maximum m of None \<Rightarrow> [] | Some v \<Rightarrow> [\<lparr>cl_field = td_input_ref dm, cl_operator = LTE, cl_value = PDec (the (num_of v))\<rparr>]))"
proof -
  define lo where "lo = (case rm_minimum m of None \<Rightarrow> ''-inf'' | Some v \<Rightarrow> py_str v)"
  define hi where "hi = (case rm_maximum m of None \<Rightarrow> ''+inf'' | Some v \<Rightarrow> py_str v)"
  have num: "is_number v" if "rm_minimum m = Some v \<or> rm_maximum m = Some v" for v
    using assms(1) that by (auto simp: range_typed_def)
  have 1: "dotless lo" "lo \<noteq> []" "last lo \<noteq> CHR ''.''" "dotless hi"
    using num number_text by (auto simp: lo_def hi_def split: option.splits)
  have "bound_clause ''-inf'' (td_input_ref dm) GTE lo = Inr
      (case rm_minimum m of None \<Rightarrow> [] | Some v \<Rightarrow> [\<lparr>cl_field = td_input_ref dm, cl_operator = GTE, cl_value = PDec (the (num_of v))\<rparr>])"
  proof (cases "rm_minimum m")
    case (Some v)
    with num obtain d where "num_of v = Some d" "decimal_of_string (py_str v) = Inr d" "list_all num_char (py_str v)"
      using number_text by metis
    then show ?thesis using Some open_texts by (auto simp: bound_clause_def lo_def)
  qed (simp add: bound_clause_def lo_def)
  moreover have "bound_clause ''+inf'' (td_input_ref dm) LTE hi = Inr
      (case rm_maximum m of None \<Rightarrow> [] | Some v \<Rightarrow> [\<lparr>cl_field = td_input_ref dm, cl_operator = LTE, cl_value = PDec (the (num_of v))\<rparr>])"
  proof (cases "rm_maximum m")
    case (Some v)
    with num obtain d where "num_of v = Some d" "decimal_of_string (py_str v) = Inr d" "list_all num_char (py_str v)"
      using number_text by metis
    then show ?thesis using Some open_texts by (auto simp: bound_clause_def hi_def)
  qed (simp add: bound_clause_def hi_def)
  moreover have "match_text (RangeMatch m) = lo @ ''..'' @ hi"
    by (simp add: match_text_def lo_def hi_def)
  ultimately show ?thesis
    using assms(2) contains_dots [of lo hi] split_range [OF 1] by (simp add: key_clauses_def)
qed

text \<open>
  How an attribute of a policy becomes an input: \<open>keeps_text dt v\<close> says that the conversion to the
  declared type cannot change what the value prints as.
\<close>

fun keeps_text :: "input_data_type \<Rightarrow> pyval \<Rightarrow> bool" where
  "keeps_text dt (PInt i) = (dt \<notin> {BOOLEAN_T, DATE_T})"
| "keeps_text dt (PStr s) = (dt \<in> {STRING_T, CATEGORY_T})"
| "keeps_text dt (PBool b) = (dt = BOOLEAN_T)"
| "keeps_text dt v = False"

lemma converted_text:
  assumes "keeps_text dt v" "convert_input dt v = Inr w"
  shows "py_str w = py_str v"
  using assms by (cases v; cases dt) (auto simp: convert_input_def int_str_dec split: sum.splits if_splits)

text \<open>A key of an exact row that prints as every value it matches: an integer, or text without blanks around it.\<close>

fun plain_key :: "pyval \<Rightarrow> bool" where
  "plain_key (PInt i) = True"
| "plain_key (PStr s) = (py_strip s = s \<and> CHR ''|'' \<notin> set s)"
| "plain_key _ = False"

definition plain_match :: "table_match \<Rightarrow> bool" where
  "plain_match m = (case m of ExactMatch v \<Rightarrow> plain_key v | RangeMatch r \<Rightarrow> range_typed r)"

lemma match_text_no_bar:
  assumes "plain_match m"
  shows "CHR ''|'' \<notin> set (match_text m)"
proof (cases m)
  case (ExactMatch v)
  then show ?thesis using assms number_text [of v] by (cases v) (auto simp: plain_match_def match_text_def)
next
  case (RangeMatch r)
  then have "is_number v" if "rm_minimum r = Some v \<or> rm_maximum r = Some v" for v
    using assms that by (auto simp: plain_match_def range_typed_def)
  then have "CHR ''|'' \<notin> set (py_str v)" if "rm_minimum r = Some v \<or> rm_maximum r = Some v" for v
    using that number_text by metis
  then show ?thesis using RangeMatch by (auto simp: match_text_def split: option.splits)
qed

definition tidy :: "pyval \<Rightarrow> bool" where "tidy v \<longleftrightarrow> py_strip (py_str v) = py_str v"

lemma tidy_number: "is_number v \<Longrightarrow> tidy v"
  using number_text [of v] num_text_strip by (metis tidy_def)

lemma exact_match_text:
  assumes "keeps_text dt v" "tidy v" "convert_input dt v = Inr w" "plain_key k" "matches_exact k w = Inr True"
  shows "py_str v = py_str k"
proof -
  have w: "py_str w = py_str v" using converted_text [OF assms(1,3)] .
  have k: "py_strip (py_str k) = py_str k" using assms(4) tidy_number [of k] by (cases k) (auto simp: tidy_def)
  show ?thesis
  proof (cases "is_int_or_decimal w \<and> is_int_or_decimal k")
    case True
    then obtain j where j: "k = PInt j" using assms(4) by (cases k) auto
    have "is_number v"
    proof (cases v)
      case (PBool b)
      then have "w = PBool b" using assms(1,3) by (auto simp: convert_input_def)
      then show ?thesis using assms(5) j by (simp add: matches_exact_def to_dec_bool)
    next
      case (PStr s)
      then have "w = PStr s" using assms(1,3) by (auto simp: convert_input_def)
      then show ?thesis using True by simp
    qed (use assms(1) in auto)
    then obtain i where i: "v = PInt i" using assms(1) by (cases v) auto
    have "to_dec w = Inr (dec_of_int i)" using w i by (simp add: to_dec_def)
    then have "i = j" using assms(5) True j by (simp add: matches_exact_def)
    then show ?thesis using i j by simp
  next
    case False
    then have "py_strip (py_str w) = py_strip (py_str k)" using assms(5) by (auto simp: matches_exact_def split: if_splits)
    then show ?thesis using w k assms(2) by (simp add: tidy_def)
  qed
qed

lemma range_clauses_hold:
  assumes field: "dget (policy_fields p) (td_input_ref dm) = Some v" and v: "decimal_of_string (py_str v) = to_dec w"
    and m: "range_typed m" "matches_range m w = Inr True"
  shows "\<forall>c \<in> set ((case rm_minimum m of None \<Rightarrow> [] | Some v \<Rightarrow> [\<lparr>cl_field = td_input_ref dm, cl_operator = GTE, cl_value = PDec (the (num_of v))\<rparr>])
     @ (case rm_maximum m of None \<Rightarrow> [] | Some v \<Rightarrow> [\<lparr>cl_field = td_input_ref dm, cl_operator = LTE, cl_value = PDec (the (num_of v))\<rparr>])).
     clause_holds p c = Inr True"
proof -
  obtain x where x: "to_dec w = Inr x" using m(2) by (auto simp: matches_range_def split: sum.splits if_splits)
  then have vx: "to_dec v = Inr x" using v by (simp add: to_dec_def)
  have lo: "\<not> dec_less x (the (num_of a))" if "rm_minimum m = Some a" for a
    using that m(2) range_typed_bound(1) [OF m(1) that] by (auto simp: matches_range_def x)
  have hi: "\<not> dec_less (the (num_of a)) x" if "rm_maximum m = Some a" for a
    using that m(2) range_typed_bound(2) [OF m(1) that]
    by (auto simp: matches_range_def x res_simps split: if_splits)
  show ?thesis using lo hi vx by (auto simp: clause_holds_def field split: option.splits)
qed

lemma cell_clauses_hold:
  assumes field: "dget (policy_fields p) (td_input_ref dm) = Some v" and "keeps_text dt v" "tidy v"
    and "convert_input dt v = Inr w" and m: "plain_match m" "matches_cell (td_lookup_type dm) m w = Inr True"
  shows "\<exists>cs. key_clauses (dm, match_text m) = Inr cs \<and> (\<forall>c \<in> set cs. clause_holds p c = Inr True)"
proof (cases "td_lookup_type dm")
  case EXACT
  then obtain k where k: "m = ExactMatch k" using m(2) by (cases m) (auto simp: matches_cell_def)
  then have "py_str v = py_str k"
    using assms(2-4) m EXACT by (auto simp: plain_match_def matches_cell_def intro!: exact_match_text)
  then show ?thesis using EXACT k field by (simp add: key_clauses_def match_text_def clause_holds_def)
next
  case RANGE
  then obtain r where r: "m = RangeMatch r" using m(2) by (cases m) (auto simp: matches_cell_def)
  have "decimal_of_string (py_str v) = to_dec w" using converted_text [OF assms(2,4)] by (simp add: to_dec_def)
  then show ?thesis
    using range_clauses_hold [OF field, of w r] key_clauses_range [of r dm] RANGE r m
    by (auto simp: plain_match_def matches_cell_def)
qed

section \<open>Rows, lookups and runs of two packages\<close>

lemma dget_dimensions:
  "dget (fold (\<lambda>dm. dset (td_input_ref dm) (g (td_input_ref dm))) ds acc) k =
     (if k \<in> td_input_ref ` set ds then Some (g k) else dget acc k)"
  by (induction ds arbitrary: acc) auto

lemma dimension_value:
  "dm \<in> set (tbl_dimensions t) \<Longrightarrow> dget (dimension_values t ctx) (td_input_ref dm) = Some (dget ctx (td_input_ref dm))"
  by (simp add: dimension_values_def dget_dimensions [where g = "dget ctx"])

text \<open>The attribute of the policy that an input takes its value from, converted as the oracle converts it.\<close>

definition reads_attribute :: "ipir_package \<Rightarrow> synthetic_policy \<Rightarrow> eval_context \<Rightarrow> string \<Rightarrow> bool" where
  "reads_attribute p pol ctx i \<longleftrightarrow>
     (\<exists>dt v w. dget (rating_values pol) i = Some v \<and> keeps_text dt v \<and> tidy v \<and> dget ctx i = Some w
        \<and> convert_input dt v = Inr w)"

lemma policy_field: "dget (rating_values pol) i = Some v \<Longrightarrow> dget (policy_fields pol) i = Some v"
  by (simp add: policy_fields_def map_add_Some_iff)

lemma row_clauses_hold:
  assumes "row_matches_input ds ms dv = Inr True"
    and "\<And>dm. dm \<in> set ds \<Longrightarrow> reads_attribute p pol ctx (td_input_ref dm)"
    and "\<And>dm. dm \<in> set ds \<Longrightarrow> dget dv (td_input_ref dm) = Some (dget ctx (td_input_ref dm))"
    and "list_all plain_match ms"
  shows "\<exists>css. rmap_list key_clauses (zip ds (map match_text ms)) = Inr css \<and>
    (\<forall>c \<in> set (concat css). clause_holds pol c = Inr True)"
  using assms
proof (induction ds ms dv rule: row_matches_input.induct)
  case (2 dm ds m ms dv)
  from 2(3) [of dm] obtain dt v w where v: "dget (rating_values pol) (td_input_ref dm) = Some v" "keeps_text dt v" "tidy v"
      "dget ctx (td_input_ref dm) = Some w" "convert_input dt v = Inr w"
    by (auto simp: reads_attribute_def)
  have dv: "dget dv (td_input_ref dm) = Some (Some w)" using 2(4) [of dm] v(4) by simp
  have m: "matches_cell (td_lookup_type dm) m w = Inr True" "row_matches_input ds ms dv = Inr True"
    using 2(2) dv by (auto simp: res_simps split: if_splits)
  have ms: "plain_match m" "list_all plain_match ms" using 2(5) by simp_all
  obtain cs where cs: "key_clauses (dm, match_text m) = Inr cs" "\<forall>c \<in> set cs. clause_holds pol c = Inr True"
    using cell_clauses_hold [OF policy_field [OF v(1)] v(2,3,5) ms(1) m(1)] by blast
  obtain css where "rmap_list key_clauses (zip ds (map match_text ms)) = Inr css" "\<forall>c \<in> set (concat css). clause_holds pol c = Inr True"
    using 2(1) [OF dv refl m(1) _ m(2) _ _ ms(2)] 2(3,4) by auto
  with cs show ?case by auto
qed auto

text \<open>Two tables that differ in nothing but the value of some rows; two packages that differ in such tables.\<close>

definition same_but_value :: "table_row \<Rightarrow> table_row \<Rightarrow> bool" where
  "same_but_value r s \<longleftrightarrow> s = r\<lparr>row_value := row_value s\<rparr> \<and> (row_value r = row_value s \<or> dval (row_value r) \<noteq> dval (row_value s))"

definition rates_changed :: "rate_table \<Rightarrow> rate_table \<Rightarrow> bool" where
  "rates_changed t u \<longleftrightarrow> u = t\<lparr>tbl_rows := tbl_rows u\<rparr> \<and> list_all2 same_but_value (tbl_rows t) (tbl_rows u)"

definition only_rates_changed :: "ipir_package \<Rightarrow> ipir_package \<Rightarrow> bool" where
  "only_rates_changed l r \<longleftrightarrow> r = l\<lparr>pkg_tables := pkg_tables r\<rparr> \<and> list_all2 rates_changed (pkg_tables l) (pkg_tables r)"

lemma rates_changed_fields:
  assumes "rates_changed t u"
  shows "tbl_id u = tbl_id t" "tbl_period u = tbl_period t" "tbl_provenance u = tbl_provenance t"
    "tbl_dimensions u = tbl_dimensions t" "list_all2 same_but_value (tbl_rows t) (tbl_rows u)"
proof -
  have u: "u = t\<lparr>tbl_rows := tbl_rows u\<rparr>" and "list_all2 same_but_value (tbl_rows t) (tbl_rows u)"
    using assms by (simp_all add: rates_changed_def)
  then show "list_all2 same_but_value (tbl_rows t) (tbl_rows u)" by simp
  show "tbl_id u = tbl_id t" by (subst u) simp
  show "tbl_period u = tbl_period t" by (subst u) simp
  show "tbl_provenance u = tbl_provenance t" by (subst u) simp
  show "tbl_dimensions u = tbl_dimensions t" by (subst u) simp
qed

lemma same_row_matches: "same_but_value r s \<Longrightarrow> row_matches s = row_matches r"
  by (metis same_but_value_def table_row.select_convs(1) table_row.surjective table_row.update_convs(2))

lemma matching_rows_same:
  assumes "list_all2 same_but_value rs ss"
  shows "rel_sum (=) (list_all2 (\<lambda>r s. (r, s) \<in> set (zip rs ss) \<and> row_matches_input ds (row_matches r) dv = Inr True))
     (matching_rows ds dv rs) (matching_rows ds dv ss)"
  using assms
proof (induction rs ss rule: list_all2_induct)
  case (Cons r rs s ss)
  have m: "row_matches s = row_matches r" using Cons(1) by (rule same_row_matches)
  have mono: "list_all2 (\<lambda>r s. (r, s) \<in> set (zip rs ss) \<and> row_matches_input ds (row_matches r) dv = Inr True) xs ys \<Longrightarrow>
      list_all2 (\<lambda>u v. (u, v) \<in> set (zip (r # rs) (s # ss)) \<and> row_matches_input ds (row_matches u) dv = Inr True) xs ys" for xs ys
    by (erule list_all2_mono) auto
  show ?case
    using Cons(3) mono
    by (cases "row_matches_input ds (row_matches r) dv"; cases "matching_rows ds dv rs"; cases "matching_rows ds dv ss")
      (auto simp: m)
qed simp

lemma lookup_changed:
  assumes "rates_changed t u" and "map_sum id fst (lookup_table t dv) \<noteq> map_sum id fst (lookup_table u dv)"
  obtains r s where "(r, s) \<in> set (zip (tbl_rows t) (tbl_rows u))" "row_matches_input (tbl_dimensions t) (row_matches r) dv = Inr True"
    "row_value r \<noteq> row_value s"
proof -
  note f = rates_changed_fields [OF assms(1)]
  have rel: "rel_sum (=) (list_all2 (\<lambda>r s. (r, s) \<in> set (zip (tbl_rows t) (tbl_rows u))
        \<and> row_matches_input (tbl_dimensions t) (row_matches r) dv = Inr True))
     (matching_rows (tbl_dimensions t) dv (tbl_rows t)) (matching_rows (tbl_dimensions t) dv (tbl_rows u))"
    by (rule matching_rows_same [OF f(5)])
  show thesis
  proof (cases "matching_rows (tbl_dimensions t) dv (tbl_rows t)")
    case (Inl e)
    then have "matching_rows (tbl_dimensions t) dv (tbl_rows u) = Inl e" using rel by (auto simp: rel_sum.simps)
    then show thesis using assms(2) Inl by (simp add: lookup_table_def f(4))
  next
    case (Inr rs)
    then obtain ss where ss: "matching_rows (tbl_dimensions t) dv (tbl_rows u) = Inr ss"
        "list_all2 (\<lambda>r s. (r, s) \<in> set (zip (tbl_rows t) (tbl_rows u))
          \<and> row_matches_input (tbl_dimensions t) (row_matches r) dv = Inr True) rs ss"
      using rel by (auto simp: rel_sum.simps)
    have "(\<exists>r s. rs = [r] \<and> ss = [s]) \<or> map_sum id fst (lookup_table t dv) = map_sum id fst (lookup_table u dv)"
      using ss(2) by (cases rs; cases ss; cases "tl rs"; cases "tl ss") (auto simp: lookup_table_def f(4) Inr ss(1))
    then obtain r s where "rs = [r]" "ss = [s]" using assms(2) by blast
    then show thesis
      using that [of r s] ss assms(2) by (auto simp: lookup_table_def f(4) Inr)
  qed
qed

text \<open>What the steps before the calculations leave of the validated inputs.\<close>

definition holds_inputs :: "risk_values \<Rightarrow> oracle_state \<Rightarrow> bool" where
  "holds_inputs vals st \<longleftrightarrow> (\<forall>i v. dget vals i = Some v \<longrightarrow> dget (os_context st) i = Some v)"

lemma holds_put: "holds_inputs vals st \<Longrightarrow> i \<notin> fst ` set vals \<Longrightarrow> holds_inputs vals (put i v st)"
proof -
  assume st: "holds_inputs vals st" and i: "i \<notin> fst ` set vals"
  have "k \<noteq> i" if "dget vals k = Some w" for k w using i map_of_SomeD [OF that] by force
  with st show ?thesis by (simp add: holds_inputs_def put_def)
qed

lemma holds_context: "os_context st' = os_context st \<Longrightarrow> holds_inputs vals st \<Longrightarrow> holds_inputs vals st'"
  by (simp add: holds_inputs_def)

lemma set_inputs_context:
  "rfold (set_input risk) xs st = Inr st' \<Longrightarrow> os_context st' = fold (\<lambda>(k, v). dset k v) xs (os_context st)"
proof (induction xs arbitrary: st)
  case (Cons x xs)
  then obtain s where s: "set_input risk x st = Inr s" "rfold (set_input risk) xs s = Inr st'" by (auto simp: res_simps)
  have "os_context s = dset (fst x) (snd x) (os_context st)" using s(1) by (auto simp: set_input_def dest: trace_to_Inr)
  with Cons.IH [OF s(2)] show ?case by (simp add: case_prod_unfold)
qed simp

lemma dget_fold_pairs:
  "distinct (map fst xs) \<Longrightarrow> dget (fold (\<lambda>(k, v). dset k v) xs d) k = (case dget xs k of None \<Rightarrow> dget d k | Some v \<Rightarrow> Some v)"
proof (induction xs arbitrary: d)
  case (Cons x xs)
  obtain a b where x: "x = (a, b)" by (cases x)
  have "dget xs a = None" using Cons.prems x by (simp add: map_of_eq_None_iff)
  then show ?case using Cons x by (auto split: option.splits)
qed simp

lemma holds_after_inputs:
  assumes "rfold (set_input risk) vals initial_state = Inr st" "distinct (map fst vals)"
  shows "holds_inputs vals st"
  using set_inputs_context [OF assms(1)] dget_fold_pairs [OF assms(2)] by (simp add: holds_inputs_def)

lemma holds_constant:
  assumes "set_constant d c st = Inr st'" "const_id c \<notin> fst ` set vals" "holds_inputs vals st"
  shows "holds_inputs vals st'"
  using assms holds_put [of vals st "const_id c"]
  by (auto simp: set_constant_def dest!: trace_to_Inr intro: holds_context split: if_splits)

lemma holds_modifier:
  assumes "set_modifier d m st = Inr st'" "mod_id m \<notin> fst ` set vals" "holds_inputs vals st"
  shows "holds_inputs vals st'"
  using assms holds_put by (auto simp: set_modifier_def res_simps)

lemma holds_table:
  assumes "set_table d t st = Inr st'" "tbl_id t \<notin> fst ` set vals" "holds_inputs vals st"
  shows "holds_inputs vals st'"
  using assms holds_put [of vals st "tbl_id t"]
  by (auto simp: set_table_def Let_def res_simps dest!: trace_to_Inr intro: holds_context split: if_splits)

lemma holds_adjustments:
  assumes "holds_inputs vals st" "\<forall>f \<in> set fs. fee_id f \<notin> fst ` set vals" "\<forall>c \<in> set cs. pc_id c \<notin> fst ` set vals"
  shows "holds_inputs vals (fold (set_constraint d) cs (fold (set_fee d) fs st))"
proof -
  have fees: "holds_inputs vals (fold (set_fee d) fs s)" if "holds_inputs vals s" for s
    using that assms(2) by (induction fs arbitrary: s) (auto simp: set_fee_def holds_put)
  have "holds_inputs vals (fold (set_constraint d) cs s)" if "holds_inputs vals s" for s
    using that assms(3) by (induction cs arbitrary: s) (auto simp: set_constraint_def holds_put)
  then show ?thesis using fees assms(1) by blast
qed

lemma rfold_same:
  assumes "length xs = length ys" "P s"
    and "\<And>x y s. (x, y) \<in> set (zip xs ys) \<Longrightarrow> P s \<Longrightarrow> f x s = f y s"
    and "\<And>x s s'. x \<in> set xs \<Longrightarrow> P s \<Longrightarrow> f x s = Inr s' \<Longrightarrow> P s'"
  shows "rfold f xs s = rfold f ys s"
  using assms
proof (induction xs ys arbitrary: s rule: list_induct2)
  case (Cons x xs y ys)
  have "f x s = f y s" using Cons.prems by auto
  moreover have "rfold f xs s' = rfold f ys s'" if "f x s = Inr s'" for s'
  proof (rule Cons.IH)
    show "P s'" using Cons.prems(1) Cons.prems(3) [of x s s'] that by simp
    show "f a t = f b t" if "(a, b) \<in> set (zip xs ys)" "P t" for a b t using Cons.prems(2) that by simp
    show "P t'" if "a \<in> set xs" "P t" "f a t = Inr t'" for a t t' using Cons.prems(3) [OF _ that(2,3)] that(1) by simp
  qed
  ultimately show ?case by (cases "f y s") auto
qed simp

lemma set_table_same:
  assumes "rates_changed t u"
    and "map_sum id fst (lookup_table t (dimension_values t (os_context st))) = map_sum id fst (lookup_table u (dimension_values t (os_context st)))"
  shows "set_table d t st = set_table d u st"
proof -
  note f = rates_changed_fields [OF assms(1)]
  have dv: "dimension_values u ctx = dimension_values t ctx" for ctx by (simp add: dimension_values_def f(4))
  show ?thesis
    using assms(2)
    by (cases "lookup_table t (dimension_values t (os_context st))"; cases "lookup_table u (dimension_values t (os_context st))")
      (auto simp: set_table_def f dv case_prod_unfold)
qed

lemma tables_not_read:
  "step_node (l\<lparr>pkg_tables := ts\<rparr>) d = step_node l d" "final_result (l\<lparr>pkg_tables := ts\<rparr>) d txn = final_result l d txn"
  "validate_risk_inputs (l\<lparr>pkg_tables := ts\<rparr>) = validate_risk_inputs l"
  "topological_sort_calculations topo (l\<lparr>pkg_tables := ts\<rparr>) = topological_sort_calculations topo l"
proof -
  have 1: "node_rounding (l\<lparr>pkg_tables := ts\<rparr>) = node_rounding l"
    by (simp add: fun_eq_iff node_rounding_def split: option.split)
  show "step_node (l\<lparr>pkg_tables := ts\<rparr>) d = step_node l d"
    by (simp add: fun_eq_iff step_node_def run_node_def 1 active_modifiers_def active_constraints_def active_fees_def)
qed (simp_all add: fun_eq_iff final_result_def validate_risk_inputs_def topological_sort_calculations_def cong: list.case_cong if_cong)

lemma only_rates_changedD:
  assumes "only_rates_changed l r"
  obtains ts where "r = l\<lparr>pkg_tables := ts\<rparr>" "list_all2 rates_changed (pkg_tables l) ts"
  using assms unfolding only_rates_changed_def by blast

lemma unchanged_run:
  assumes "only_rates_changed l r"
    and "\<And>vals. validate_risk_inputs l risk strict = Inr vals \<Longrightarrow> resolve_nodes l risk vals d = resolve_nodes r risk vals d"
  shows "evaluate_package topo l risk d txn strict = evaluate_package topo r risk d txn strict"
proof -
  obtain ts where r: "r = l\<lparr>pkg_tables := ts\<rparr>" using only_rates_changedD [OF assms(1)] .
  show ?thesis
    using assms(2) by (cases "validate_risk_inputs l risk strict") (simp_all add: evaluate_package_def r tables_not_read)
qed

lemma valid_row_keys:
  assumes "rfold (validate_risk_input risk) inps vs = Inr vals" "distinct (map fst vs)"
  shows "distinct (map fst vals) \<and> fst ` set vals \<subseteq> fst ` set vs \<union> pi_id ` set inps"
  using assms
proof (induction inps arbitrary: vs)
  case (Cons inp inps)
  then obtain us where us: "validate_risk_input risk inp vs = Inr us" "rfold (validate_risk_input risk) inps us = Inr vals"
    by (auto simp: res_simps)
  have "us = vs \<or> (\<exists>v. us = dset (pi_id inp) v vs)" using validate_risk_input_ok [OF us(1)] by auto
  then have "distinct (map fst us)" using Cons.prems(2) by (auto simp: distinct_dset)
  moreover have "fst ` set us \<subseteq> insert (pi_id inp) (fst ` set vs)"
    using \<open>us = vs \<or> _\<close> keys_dset [of "pi_id inp" _ vs] by blast
  ultimately show ?case using Cons.IH [OF us(2)] by (simp only: list.set image_insert) blast
qed simp

lemma input_ids_apart:
  assumes "distinct (node_ids p)" "i \<in> pi_id ` set (pkg_inputs p)"
  shows "i \<notin> const_id ` set (pkg_constants p)" "i \<notin> fee_id ` set (pkg_fees p)" "i \<notin> pc_id ` set (pkg_constraints p)"
    "i \<notin> mod_id ` set (pkg_modifiers p)" "i \<notin> tbl_id ` set (pkg_tables p)"
proof -
  define rest where "rest = map const_id (pkg_constants p) @ map tbl_id (pkg_tables p) @ map rule_id (pkg_rules p)
    @ map calc_id (pkg_calculations p) @ map mod_id (pkg_modifiers p) @ map pc_id (pkg_constraints p)
    @ map fee_id (pkg_fees p) @ map cov_id (pkg_coverages p) @ map out_id (pkg_outputs p)"
  have "node_ids p = map pi_id (pkg_inputs p) @ rest" by (simp add: rest_def node_ids_def entities_def comp_def)
  then have "i \<notin> set rest" using assms by auto
  then show "i \<notin> const_id ` set (pkg_constants p)" "i \<notin> fee_id ` set (pkg_fees p)" "i \<notin> pc_id ` set (pkg_constraints p)"
    "i \<notin> mod_id ` set (pkg_modifiers p)" "i \<notin> tbl_id ` set (pkg_tables p)"
    by (simp_all add: rest_def)
qed

text \<open>A changed result goes back to a changed rate whose row matched the inputs.\<close>

lemma changed_run:
  assumes pkgs: "only_rates_changed l r" "distinct (node_ids l)"
    and diff: "evaluate_package topo l risk d txn strict \<noteq> evaluate_package topo r risk d txn strict"
  obtains t u st vals a b where "(t, u) \<in> set (zip (pkg_tables l) (pkg_tables r))"
    "validate_risk_inputs l risk strict = Inr vals" "holds_inputs vals st"
    "(a, b) \<in> set (zip (tbl_rows t) (tbl_rows u))"
    "row_matches_input (tbl_dimensions t) (row_matches a) (dimension_values t (os_context st)) = Inr True"
    "row_value a \<noteq> row_value b"
proof -
  obtain ts where r: "r = l\<lparr>pkg_tables := ts\<rparr>" "list_all2 rates_changed (pkg_tables l) ts"
    using only_rates_changedD [OF pkgs(1)] .
  from diff unchanged_run [OF pkgs(1)] obtain vals where vals: "validate_risk_inputs l risk strict = Inr vals"
      "resolve_nodes l risk vals d \<noteq> resolve_nodes r risk vals d" by metis
  have keys: "distinct (map fst vals)" "fst ` set vals \<subseteq> pi_id ` set (pkg_inputs l)"
    using vals(1) valid_row_keys [of risk "pkg_inputs l" "[]" vals]
    by (auto simp: validate_risk_inputs_def res_simps split: if_splits)
  have apart: "\<forall>c \<in> set (pkg_constants l). const_id c \<notin> fst ` set vals" "\<forall>f \<in> set (pkg_fees l). fee_id f \<notin> fst ` set vals"
      "\<forall>e \<in> set (pkg_constraints l). pc_id e \<notin> fst ` set vals" "\<forall>m \<in> set (pkg_modifiers l). mod_id m \<notin> fst ` set vals"
      "\<forall>t \<in> set (pkg_tables l). tbl_id t \<notin> fst ` set vals"
  proof -
    note outside = input_ids_apart [OF pkgs(2), OF subsetD [OF keys(2)]]
    show "\<forall>c \<in> set (pkg_constants l). const_id c \<notin> fst ` set vals" using outside(1) by blast
    show "\<forall>f \<in> set (pkg_fees l). fee_id f \<notin> fst ` set vals" using outside(2) by blast
    show "\<forall>e \<in> set (pkg_constraints l). pc_id e \<notin> fst ` set vals" using outside(3) by blast
    show "\<forall>m \<in> set (pkg_modifiers l). mod_id m \<notin> fst ` set vals" using outside(4) by blast
    show "\<forall>t \<in> set (pkg_tables l). tbl_id t \<notin> fst ` set vals" using outside(5) by blast
  qed
  have "\<exists>t u st. (t, u) \<in> set (zip (pkg_tables l) ts) \<and> holds_inputs vals st \<and> set_table d t st \<noteq> set_table d u st"
  proof (rule ccontr)
    assume "\<not> ?thesis"
    then have same: "set_table d t s = set_table d u s" if "(t, u) \<in> set (zip (pkg_tables l) ts)" "holds_inputs vals s" for t u s
      using that by blast
    have fields: "pkg_constants r = pkg_constants l" "pkg_fees r = pkg_fees l" "pkg_constraints r = pkg_constraints l"
      "pkg_modifiers r = pkg_modifiers l" "pkg_tables r = ts" "pkg_rules r = pkg_rules l"
      by (simp_all add: r(1))
    have "resolve_nodes l risk vals d = resolve_nodes r risk vals d"
      unfolding resolve_nodes_def Let_def fields
    proof (intro rbind_cong refl)
      fix s1 s2 s4
      assume s: "rfold (set_input risk) vals initial_state = Inr s1" "rfold (set_constant d) (pkg_constants l) s1 = Inr s2"
        "rfold (set_modifier d) (pkg_modifiers l) (fold (set_constraint d) (pkg_constraints l) (fold (set_fee d) (pkg_fees l) s2)) = Inr s4"
      have "holds_inputs vals s1" using holds_after_inputs [OF s(1) keys(1)] .
      then have "holds_inputs vals s2"
        by (rule rfold_invariant [OF s(2)]) (use apart(1) holds_constant in blast)
      then have "holds_inputs vals (fold (set_constraint d) (pkg_constraints l) (fold (set_fee d) (pkg_fees l) s2))"
        using apart(2,3) by (intro holds_adjustments) auto
      then have "holds_inputs vals s4"
        by (rule rfold_invariant [OF s(3)]) (use apart(4) holds_modifier in blast)
      then show "rfold (set_table d) (pkg_tables l) s4 = rfold (set_table d) ts s4"
      proof (rule rfold_same [where P = "holds_inputs vals", OF list_all2_lengthD [OF r(2)]])
        show "holds_inputs vals s'" if "t \<in> set (pkg_tables l)" "holds_inputs vals s" "set_table d t s = Inr s'" for t s s'
          using holds_table [OF that(3) _ that(2)] apart(5) that(1) by blast
      qed (rule same)
    qed
    then show False using vals(2) by contradiction
  qed
  then obtain t u st where tu: "(t, u) \<in> set (zip (pkg_tables l) ts)" "holds_inputs vals st" "set_table d t st \<noteq> set_table d u st"
    by blast
  have rc: "rates_changed t u" using r(2) tu(1) by (auto simp: list_all2_iff)
  then have "map_sum id fst (lookup_table t (dimension_values t (os_context st))) \<noteq> map_sum id fst (lookup_table u (dimension_values t (os_context st)))"
    using set_table_same tu(3) by blast
  then obtain a b where "(a, b) \<in> set (zip (tbl_rows t) (tbl_rows u))"
      "row_matches_input (tbl_dimensions t) (row_matches a) (dimension_values t (os_context st)) = Inr True" "row_value a \<noteq> row_value b"
    using lookup_changed [OF rc] by metis
  then show thesis using that tu vals(1) r(1) by simp
qed

section \<open>From a changed rate to the predicate that selects the policy\<close>

lemma for_keys_member:
  assumes "for_keys f l r = Inr ds" "f k (dget l k) (dget r k) = Inr es" "e \<in> set es" "dget l k \<noteq> None"
  shows "e \<in> set ds"
proof -
  have k: "k \<in> set (all_keys l r)" using assms(4) by (auto simp: set_all_keys map_of_eq_None_iff)
  obtain dss where dss: "list_all2 (\<lambda>k d. f k (dget l k) (dget r k) = Inr d) (all_keys l r) dss" "ds = concat dss"
    using assms(1) by (auto simp: for_keys_def res_simps rmap_list_Inr_iff)
  then have "es \<in> set dss" using k assms(2) by (auto simp: list_all2_conv_all_nth in_set_conv_nth)
  then show ?thesis using assms(3) dss(2) by auto
qed

lemma validated_value:
  assumes "rfold (validate_risk_input risk) inps vs = Inr vals" "distinct (map pi_id inps)" "inp \<in> set inps"
    "dget risk (pi_id inp) = Some v"
  shows "\<exists>w. dget vals (pi_id inp) = Some w \<and> convert_input (pi_data_type inp) v = Inr w"
  using assms(1-3)
proof (induction inps arbitrary: vs)
  case (Cons x inps)
  then obtain us where us: "validate_risk_input risk x vs = Inr us" "rfold (validate_risk_input risk) inps us = Inr vals"
    by (auto simp: res_simps)
  show ?case
  proof (cases "inp \<in> set inps")
    case True
    then show ?thesis using Cons us(2) by simp
  next
    case False
    then have x: "x = inp" "pi_id inp \<notin> pi_id ` set inps" using Cons.prems by auto
    have kept: "rfold (validate_risk_input risk) ys s = Inr s' \<Longrightarrow> pi_id inp \<notin> pi_id ` set ys \<Longrightarrow>
        dget s' (pi_id inp) = dget s (pi_id inp)" for ys s s'
    proof (induction ys arbitrary: s)
      case (Cons y ys)
      then obtain s1 where s1: "validate_risk_input risk y s = Inr s1" "rfold (validate_risk_input risk) ys s1 = Inr s'"
        by (auto simp: res_simps)
      then show ?case using Cons validate_risk_input_ok [OF s1(1)] by auto
    qed simp
    obtain w where "convert_input (pi_data_type inp) v = Inr w" "us = dset (pi_id inp) w vs"
      using us(1) assms(4) x(1) by (auto simp: validate_risk_input_def supplied_value_def res_simps split: if_splits)
    then show ?thesis using kept [OF us(2) x(2)] by simp
  qed
qed simp

text \<open>
  A table whose dimensions are inputs taken from attributes of the policy that keep their text, whose
  keys print as what they match, and whose rows have different keys.
\<close>

definition plain_table :: "ipir_package \<Rightarrow> synthetic_policy \<Rightarrow> rate_table \<Rightarrow> bool" where
  "plain_table p pol t \<longleftrightarrow>
     (\<forall>dm \<in> set (tbl_dimensions t). \<exists>inp \<in> set (pkg_inputs p). pi_id inp = td_input_ref dm \<and>
        (\<exists>v. dget (rating_values pol) (pi_id inp) = Some v \<and> keeps_text (pi_data_type inp) v \<and> tidy v))
     \<and> (\<forall>r \<in> set (tbl_rows t). list_all plain_match (row_matches r))
     \<and> distinct (map format_match_key (tbl_rows t))"

lemma row_at_unique:
  assumes "distinct (map format_match_key (tbl_rows t))" "r \<in> set (tbl_rows t)" "format_match_key r = Inr k"
  shows "row_at t k = Some r"
  unfolding row_at_def
  by (rule find_unique) (use assms in \<open>auto simp: distinct_map inj_on_def\<close>)

lemma key_parts:
  assumes "row_matches r \<noteq> []" "list_all plain_match (row_matches r)"
  obtains k where "format_match_key r = Inr k" "py_split ''|'' k = map match_text (row_matches r)"
proof -
  have bars: "CHR ''|'' \<notin> set s" if "s \<in> set (map match_text (row_matches r))" for s
    using that assms(2) match_text_no_bar by (auto simp: list_all_iff)
  have "format_match_key r = Inr (join_with ''|'' (map match_text (row_matches r)))"
    using assms(1) by (cases "row_matches r" rule: list.exhaust; cases "tl (row_matches r)") (auto simp: format_match_key_def Let_def)
  then show thesis using that py_split_join [of "map match_text (row_matches r)"] bars assms(1) by blast
qed

text \<open>The comparison reports a changed rate under the key of its row.\<close>

lemma changed_rate_reported:
  assumes valid: "construct_package p = Inr l" "construct_package q = Inr r" and "compare_packages l r = Inr diff"
    and tu: "t \<in> set (pkg_tables l)" "u \<in> set (pkg_tables r)" "tbl_id u = tbl_id t"
    and rows: "row_at t k = Some a" "row_at u k = Some b" "dval (row_value a) \<noteq> dval (row_value b)"
  obtains d where "d \<in> set (sr_differences diff)" "sd_type d = TABLE_ROW_CHANGE" "sd_node_id d = tbl_id t"
    "sd_metadata d = [(''dimension_key'', k)]"
proof -
  have ok: "comparable l" "comparable r" using validated_comparable valid by blast+
  then have keyed: "keyed_table t" "keyed_table u" using tu by (auto simp: comparable_def)
  obtain tm where tm: "keyed_rows t = Inr tm" "\<And>k. dget tm k = row_at t k" using keyed_rows_ok [OF keyed(1)] by blast
  obtain um where um: "keyed_rows u = Inr um" "\<And>k. dget um k = row_at u k" using keyed_rows_ok [OF keyed(2)] by blast
  obtain d where d: "row_difference t u k (Some a) (Some b) = Inr [d]" "sd_type d = TABLE_ROW_CHANGE" "sd_node_id d = tbl_id t"
      "sd_metadata d = [(''dimension_key'', k)]"
    using rows(3) by (simp add: row_difference_def Let_def)
  obtain ds where ds: "compare_rate_tables t u = Inr ds"
    using compare_rate_tables_ok [OF keyed] by (cases "compare_rate_tables t u") auto
  then have "d \<in> set ds"
    using for_keys_member [of "row_difference t u" tm um ds k "[d]" d] d(1) rows(1,2)
    by (simp add: compare_rate_tables_def tm um)
  have ids: "distinct (map tbl_id (pkg_tables l))" "distinct (map tbl_id (pkg_tables r))" using ok by (simp_all add: comparable_def)
  have at: "dget (index_by tbl_id (pkg_tables l) []) (tbl_id t) = Some t" "dget (index_by tbl_id (pkg_tables r) []) (tbl_id t) = Some u"
    using tu by (simp_all add: dget_index_by_iff [OF ids(1)] dget_index_by_iff [OF ids(2)])
  have "\<exists>d4. for_keys (on_both (\<lambda>_. compare_rate_tables)) (index_by tbl_id (pkg_tables l) [])
      (index_by tbl_id (pkg_tables r) []) = Inr d4 \<and> set d4 \<subseteq> set (sr_differences diff)"
    using assms(3) unfolding compare_packages_def package_differences_def by (auto simp: res_simps)
  then obtain d4 where d4: "for_keys (on_both (\<lambda>_. compare_rate_tables)) (index_by tbl_id (pkg_tables l) [])
      (index_by tbl_id (pkg_tables r) []) = Inr d4" "set d4 \<subseteq> set (sr_differences diff)" by blast
  have "d \<in> set d4"
    using for_keys_member [OF d4(1), of "tbl_id t" ds d] at ds \<open>d \<in> set ds\<close> by simp
  then show thesis using that d d4(2) by blast
qed

lemma same_keys: "list_all2 same_but_value rs ss \<Longrightarrow> map format_match_key ss = map format_match_key rs"
  by (induction rule: list_all2_induct) (auto simp: format_match_key_def dest: same_row_matches)

lemma derived_predicate:
  assumes "analyze nx iter diff p = Inr impact" "d \<in> set (sr_differences diff)" "derive_predicate d p = Inr q"
  shows "q \<in> set (ia_predicates impact)"
proof -
  obtain preds where preds: "rmap_list (\<lambda>d. derive_predicate d p) (sr_differences diff) = Inr preds" "ia_predicates impact = preds"
    using assms(1) by (auto simp: analyze_def Let_def res_simps)
  obtain i where "i < length (sr_differences diff)" "sr_differences diff ! i = d" using assms(2) by (auto simp: in_set_conv_nth)
  then show ?thesis
    using rmap_list_InrD [OF preds(1)] preds(2) assms(3) by (auto simp: list_all2_conv_all_nth in_set_conv_nth)
qed

lemma all_clauses_match:
  assumes "\<forall>c \<in> set (ip_clauses q). clause_holds pol c = Inr True" "ip_temporal_start q = None"
  shows "matches_predicate pol q = Inr True"
proof -
  have "rall (clause_holds pol) cs = Inr True" if "\<forall>c \<in> set cs. clause_holds pol c = Inr True" for cs
    using that by (induction cs) auto
  then show ?thesis using assms by (simp add: matches_predicate_def in_window_def)
qed

text \<open>C27: The blast radius is sound for rates.  Let two packages that validate differ only in rates, and
  let the tables be keyed by attributes of the policy whose text the oracle's conversion keeps, with
  row keys that differ and print as what they match.  If the two packages give the policy different
  results, one of the predicates that the impact analysis derives from their comparison selects the policy.\<close>

theorem changed_rates_exposed:
  assumes valid: "construct_package p = Inr l" "construct_package q = Inr r" and rates: "only_rates_changed l r"
    and plain: "\<forall>t \<in> set (pkg_tables l). plain_table l pol t"
    and diff: "compare_packages l r = Inr diff" and impact: "analyze nx iter diff l = Inr impact"
    and changed: "evaluate_package topo l (rating_values pol) (sp_effective_date pol) (sp_transaction_type pol) False
      \<noteq> evaluate_package topo r (rating_values pol) (sp_effective_date pol) (sp_transaction_type pol) False"
  shows "\<exists>pred \<in> set (ia_predicates impact). matches_predicate pol pred = Inr True"
proof -
  have ids: "distinct (node_ids l)" using construct_package_well_formed [OF valid(1)] by blast
  obtain t u st vals a b where tu: "(t, u) \<in> set (zip (pkg_tables l) (pkg_tables r))"
    and vals: "validate_risk_inputs l (rating_values pol) False = Inr vals" "holds_inputs vals st"
    and ab: "(a, b) \<in> set (zip (tbl_rows t) (tbl_rows u))"
    and hit: "row_matches_input (tbl_dimensions t) (row_matches a) (dimension_values t (os_context st)) = Inr True"
    and differ: "row_value a \<noteq> row_value b"
    using changed_run [OF rates ids changed] by metis
  have in_l: "t \<in> set (pkg_tables l)" "u \<in> set (pkg_tables r)" using tu by (auto dest: set_zip_leftD set_zip_rightD)
  have in_t: "a \<in> set (tbl_rows t)" "b \<in> set (tbl_rows u)" using ab by (auto dest: set_zip_leftD set_zip_rightD)
  have rc: "rates_changed t u" using rates tu by (auto simp: only_rates_changed_def list_all2_iff)
  note f = rates_changed_fields [OF rc]
  have same: "same_but_value a b" using f(5) ab by (auto simp: list_all2_iff)
  have pt: "plain_table l pol t" using plain in_l(1) by blast
  have attr: "reads_attribute l pol (os_context st) (td_input_ref dm)" if dm: "dm \<in> set (tbl_dimensions t)" for dm
  proof -
    obtain inp v where inp: "inp \<in> set (pkg_inputs l)" "pi_id inp = td_input_ref dm"
        "dget (rating_values pol) (pi_id inp) = Some v" "keeps_text (pi_data_type inp) v" "tidy v"
      using pt dm by (auto simp: plain_table_def)
    have "distinct (map pi_id (pkg_inputs l))" using node_ids_distinct(3) [OF ids] .
    then obtain w where "dget vals (pi_id inp) = Some w" "convert_input (pi_data_type inp) v = Inr w"
      using vals(1) validated_value [of "rating_values pol" "pkg_inputs l" "[]" vals inp v] inp
      by (auto simp: validate_risk_inputs_def res_simps)
    then show ?thesis using inp vals(2) by (auto simp: reads_attribute_def holds_inputs_def)
  qed
  have keyed: "keyed_table t" using validated_comparable [OF valid(1)] in_l(1) by (simp add: comparable_def)
  then have "row_matches a \<noteq> []" "list_all plain_match (row_matches a)" using in_t(1) pt by (auto simp: keyed_table_def plain_table_def)
  then obtain k where k: "format_match_key a = Inr k" "py_split ''|'' k = map match_text (row_matches a)" by (rule key_parts)
  obtain css where css: "rmap_list key_clauses (zip (tbl_dimensions t) (map match_text (row_matches a))) = Inr css"
      "\<forall>c \<in> set (concat css). clause_holds pol c = Inr True"
    using row_clauses_hold [OF hit attr dimension_value] \<open>list_all plain_match (row_matches a)\<close> by blast
  have keys: "map format_match_key (tbl_rows u) = map format_match_key (tbl_rows t)" by (rule same_keys [OF f(5)])
  have dist: "distinct (map format_match_key (tbl_rows t))" using pt by (simp add: plain_table_def)
  then have at: "row_at t k = Some a" using row_at_unique in_t(1) k(1) by blast
  have "format_match_key b = Inr k" using k(1) same_row_matches [OF same] by (simp add: format_match_key_def)
  then have at': "row_at u k = Some b" using row_at_unique in_t(2) dist keys by metis
  have "dval (row_value a) \<noteq> dval (row_value b)" using same differ by (auto simp: same_but_value_def)
  then obtain d where d: "d \<in> set (sr_differences diff)" "sd_type d = TABLE_ROW_CHANGE" "sd_node_id d = tbl_id t"
      "sd_metadata d = [(''dimension_key'', k)]"
    using changed_rate_reported [OF valid diff in_l f(1) at at'] by blast
  have "find (\<lambda>x. tbl_id x = tbl_id t) (pkg_tables l) = Some t"
    using validated_comparable [OF valid(1)] in_l(1)
    by (intro find_unique) (auto simp: comparable_def distinct_map inj_on_def)
  then obtain pr where pr: "derive_predicate d l = Inr pr" "ip_clauses pr = concat css"
      "ip_temporal_start pr = None"
    using css(1) by (auto simp: derive_predicate_def d table_predicate_def dget_default_def k(2) Let_def)
  have "matches_predicate pol pr = Inr True" using css(2) pr by (simp add: all_clauses_match)
  then show ?thesis using derived_predicate [OF impact d(1) pr(1)] by blast
qed

section \<open>What the analyzer counts\<close>

definition selects :: "impact_predicate list \<Rightarrow> synthetic_policy \<Rightarrow> bool" where
  "selects preds p \<longleftrightarrow> (\<exists>q \<in> set preds. matches_predicate p q = Inr True)"

lemma expose_policy_keys:
  "expose_policy qs p m = Inr m' \<Longrightarrow> distinct (map fst m) \<Longrightarrow>
     distinct (map fst m') \<and> fst ` set m' = fst ` set m \<union> (if selects qs p then {sp_policy_id p} else {})"
  unfolding expose_policy_def
proof (induction qs arbitrary: m)
  case (Cons q qs)
  then obtain hit where hit: "matches_predicate p q = Inr hit" by (auto simp: res_simps)
  show ?case
    using Cons.IH Cons.prems hit by (cases hit) (auto simp: selects_def distinct_dset keys_dset)
qed (simp add: selects_def)

lemma exposed_policies_keys:
  assumes "exposed_policies preds policies = Inr m"
  shows "distinct (map fst m)" "fst ` set m = sp_policy_id ` {p \<in> set policies. selects preds p}"
proof -
  have "rfold (expose_policy preds) ps m0 = Inr m \<Longrightarrow> distinct (map fst m0) \<Longrightarrow>
      distinct (map fst m) \<and> fst ` set m = fst ` set m0 \<union> sp_policy_id ` {p \<in> set ps. selects preds p}" for ps m0
  proof (induction ps arbitrary: m0)
    case (Cons p ps)
    then obtain m1 where m1: "expose_policy preds p m0 = Inr m1" "rfold (expose_policy preds) ps m1 = Inr m"
      by (auto simp: res_simps)
    from expose_policy_keys [OF m1(1) Cons.prems(2)] Cons.IH [OF m1(2)] show ?case by auto
  qed simp
  from this [of policies "[]"] assms
  show "distinct (map fst m)" "fst ` set m = sp_policy_id ` {p \<in> set policies. selects preds p}"
    by (simp_all add: exposed_policies_def)
qed

lemma change_stats_financial: "change_stats f ps st = Inr st' \<Longrightarrow> es_financial st' = es_financial st"
  by (auto simp: change_stats_def res_simps)

lemma add_financial_financial: "add_financial pid ps r st = Inr st' \<Longrightarrow> es_financial st' = List.insert pid (es_financial st)"
  by (auto simp: add_financial_def res_simps dest!: change_stats_financial)

lemma expose_one_financial:
  assumes "expose_one iter f by_id exposed pid st = Inr st'"
  obtains p r where "dget by_id pid = Some p" "f p = Inr r"
    "es_financial st' = (if rr_premium_matches r then es_financial st else List.insert pid (es_financial st))"
proof -
  from assms obtain p hits where ph: "dget by_id pid = Some p" "dget exposed pid = Some hits"
    by (auto simp: expose_one_def split: option.splits)
  with assms obtain r st1 st2 where st: "f p = Inr r"
      "change_stats (\<lambda>s. Inr (s\<lparr>is_exposed := is_exposed s + 1\<rparr>)) (iter hits) (st\<lparr>es_repriced := es_repriced st + 1\<rparr>) = Inr st1"
      "(if rr_trace_diverged r then change_stats (\<lambda>s. Inr (s\<lparr>is_behavioral := is_behavioral s + 1\<rparr>)) (iter hits)
          (st1\<lparr>es_behavioral := List.insert pid (es_behavioral st1)\<rparr>) else Inr st1) = Inr st2"
      "(if rr_premium_matches r then Inr st2 else add_financial pid (iter hits) r st2) = Inr st'"
    by (auto simp: expose_one_def res_simps Let_def)
  have "es_financial st2 = es_financial st"
    using st(2,3) by (auto dest!: change_stats_financial split: if_splits)
  then show thesis
    using that [OF ph(1) st(1)] st(4) by (auto dest: add_financial_financial split: if_splits)
qed

definition mismatched :: "(synthetic_policy \<Rightarrow> reconciliation_result res) \<Rightarrow> (string, synthetic_policy) dict \<Rightarrow> string \<Rightarrow> bool" where
  "mismatched f by_id pid \<longleftrightarrow> (\<exists>p r. dget by_id pid = Some p \<and> f p = Inr r \<and> \<not> rr_premium_matches r)"

lemma expose_loop_financial:
  assumes "rfold (expose_one iter f by_id exposed) pids st = Inr st'"
  shows "set (es_financial st') = set (es_financial st) \<union> {pid \<in> set pids. mismatched f by_id pid}"
    and "distinct (es_financial st) \<Longrightarrow> distinct (es_financial st')"
    and "\<forall>pid \<in> set pids. \<exists>p r. dget by_id pid = Some p \<and> f p = Inr r"
proof -
  have "set (es_financial st') = set (es_financial st) \<union> {pid \<in> set pids. mismatched f by_id pid}
    \<and> (distinct (es_financial st) \<longrightarrow> distinct (es_financial st'))
    \<and> (\<forall>pid \<in> set pids. \<exists>p r. dget by_id pid = Some p \<and> f p = Inr r)"
    using assms
  proof (induction pids arbitrary: st)
    case (Cons pid pids)
    then obtain s1 where s1: "expose_one iter f by_id exposed pid st = Inr s1"
        "rfold (expose_one iter f by_id exposed) pids s1 = Inr st'"
      by (auto simp: res_simps)
    obtain p r where r: "dget by_id pid = Some p" "f p = Inr r"
        "es_financial s1 = (if rr_premium_matches r then es_financial st else List.insert pid (es_financial st))"
      using expose_one_financial [OF s1(1)] .
    then have "mismatched f by_id pid \<longleftrightarrow> \<not> rr_premium_matches r" by (simp add: mismatched_def)
    then show ?case using Cons.IH [OF s1(2)] r by (cases "rr_premium_matches r") auto
  qed simp
  then show "set (es_financial st') = set (es_financial st) \<union> {pid \<in> set pids. mismatched f by_id pid}"
    and "distinct (es_financial st) \<Longrightarrow> distinct (es_financial st')"
    and "\<forall>pid \<in> set pids. \<exists>p r. dget by_id pid = Some p \<and> f p = Inr r"
    by simp_all
qed

text \<open>The two packages price the policy, differently.\<close>

definition priced_differently :: "topo_sort \<Rightarrow> ipir_package \<Rightarrow> ipir_package \<Rightarrow> synthetic_policy \<Rightarrow> bool" where
  "priced_differently topo l r p \<longleftrightarrow>
     (\<exists>a b. evaluate_package topo l (rating_values p) (sp_effective_date p) (sp_transaction_type p) False = Inr a
        \<and> evaluate_package topo r (rating_values p) (sp_effective_date p) (sp_transaction_type p) False = Inr b
        \<and> dval (or_final_premium a) \<noteq> dval (or_final_premium b))"

lemma reprice_matches:
  assumes "reprice_policy topo nx p l r diff = Inr x"
  shows "rr_premium_matches x \<longleftrightarrow> \<not> priced_differently topo l r p"
  using assms by (auto simp: reprice_policy_def target_quote_def reconcile_def priced_differently_def Let_def res_simps)

text \<open>C28: The count of financially affected policies is exact for changes of rates, under these conditions: the two
  packages validate and are the same but for values in rows of their tables (no calculation, rule or other
  entity differs); for every policy of the portfolio the tables are plain (keyed by attributes of the policy
  whose text the conversion keeps, with row keys that differ and print as what they match); the policies have
  different ids; and the analysis returns.  Then, whatever order the sets are iterated in, the analyzer reports
  as financially affected exactly as many policies as the two packages price differently.\<close>

theorem affected_count_exact:
  assumes valid: "construct_package p = Inr l" "construct_package q = Inr r" and rates: "only_rates_changed l r"
    and plain: "\<forall>pol \<in> set policies. \<forall>t \<in> set (pkg_tables l). plain_table l pol t"
    and ids: "distinct (map sp_policy_id policies)" and iter: "\<And>xs. mset (iter xs) = mset xs"
    and run: "portfolio_analyze topo nx iter today policies l r = Inr res"
  shows "px_financial res = length (filter (priced_differently topo l r) policies)"
proof -
  obtain diff impact exposed st where parts: "compare_packages l r = Inr diff" "analyze nx iter diff l = Inr impact"
      "exposed_policies (ia_predicates impact) policies = Inr exposed"
      "rfold (expose_one iter (\<lambda>p. reprice_policy topo nx p l r diff) (index_by sp_policy_id policies []) exposed)
         (iter (map fst exposed)) (initial_exposure (ia_predicates impact)) = Inr st"
      "exposure_report today policies exposed st = Inr res"
    using run by (auto simp: portfolio_analyze_def res_simps)
  let ?by = "index_by sp_policy_id policies []" and ?f = "\<lambda>p. reprice_policy topo nx p l r diff"
  have fin: "px_financial res = length (es_financial st)"
    using parts(5) by (auto simp: exposure_report_def Let_def res_simps)
  have order: "set (iter (map fst exposed)) = fst ` set exposed" using iter [of "map fst exposed"] by (metis list.set_map mset_eq_setD)
  note loop = expose_loop_financial [OF parts(4)]
  have by_id: "dget ?by pid = Some pol \<longleftrightarrow> pol \<in> set policies \<and> sp_policy_id pol = pid" for pid pol
    by (rule dget_index_by_iff [OF ids])
  have sel: "selects (ia_predicates impact) pol" if "pol \<in> set policies" "priced_differently topo l r pol" for pol
    unfolding selects_def
    by (rule changed_rates_exposed [where topo = topo, OF valid rates _ parts(1,2)]) (use that plain in \<open>auto simp: priced_differently_def\<close>)
  have "set (es_financial st) = sp_policy_id ` {pol \<in> set policies. priced_differently topo l r pol}"
  proof -
    have "pid \<in> fst ` set exposed \<and> mismatched ?f ?by pid \<longleftrightarrow>
        (\<exists>pol \<in> set policies. sp_policy_id pol = pid \<and> priced_differently topo l r pol)" for pid
    proof
      assume "pid \<in> fst ` set exposed \<and> mismatched ?f ?by pid"
      then show "\<exists>pol \<in> set policies. sp_policy_id pol = pid \<and> priced_differently topo l r pol"
        using by_id reprice_matches by (auto simp: mismatched_def)
    next
      assume "\<exists>pol \<in> set policies. sp_policy_id pol = pid \<and> priced_differently topo l r pol"
      then obtain pol where pol: "pol \<in> set policies" "sp_policy_id pol = pid" "priced_differently topo l r pol" by blast
      then have key: "pid \<in> fst ` set exposed" using sel exposed_policies_keys(2) [OF parts(3)] by blast
      have "dget ?by pid = Some pol" using pol by_id by blast
      moreover obtain pol' x where "dget ?by pid = Some pol'" "?f pol' = Inr x" using key loop(3) order by blast
      ultimately have "?f pol = Inr x" "dget ?by pid = Some pol" by simp_all
      then show "pid \<in> fst ` set exposed \<and> mismatched ?f ?by pid"
        using key pol(3) reprice_matches by (auto simp: mismatched_def)
    qed
    then show ?thesis using loop(1) order by (auto simp: initial_exposure_def)
  qed
  moreover have "distinct (es_financial st)" using loop(2) by (simp add: initial_exposure_def)
  ultimately have "length (es_financial st) = card (sp_policy_id ` set (filter (priced_differently topo l r) policies))"
    by (metis distinct_card set_filter)
  also have "\<dots> = length (filter (priced_differently topo l r) policies)"
    using distinct_map_filter [OF ids] by (metis distinct_card length_map list.set_map)
  finally show ?thesis using fin by simp
qed

end
