(* ===== verification/ReconciliationLaws.thy ===== *)
theory ReconciliationLaws
  imports Reconciliation SemanticDiffLaws
begin

text \<open>
  What a reconciliation says: when it matches, which steps of a trace diverge, and, when no reported
  difference explains a divergence, that the node named as root cause has no divergent node
  upstream.  The last rests on \<open>digraph_library\<close>, the documented behaviour of networkx.
\<close>

section \<open>The dependency graph\<close>

locale digraph_library =
  fixes nx :: networkx
  assumes dag: "distinct ns \<Longrightarrow> edges_within ns es \<Longrightarrow> nx_is_dag nx ns es \<longleftrightarrow> acyclic (set es)"
    and descendants: "set (nx_descendants nx es n) = {m. (n, m) \<in> (set es)\<^sup>+} - {n}"
    and ancestors: "set (nx_ancestors nx es n) = {m. (m, n) \<in> (set es)\<^sup>+} - {n}"

text \<open>One implementation: the closure of the edges.\<close>

fun paths_from :: "nat \<Rightarrow> edges \<Rightarrow> string list \<Rightarrow> string \<Rightarrow> string \<Rightarrow> string list list" where
  "paths_from 0 es seen u v = []"
| "paths_from (Suc n) es seen u v =
     concat (map (\<lambda>w. if w \<in> set seen then [] else if w = v then [rev (w # seen)] else paths_from n es (w # seen) w v)
       (map snd (filter (\<lambda>e. fst e = u) es)))"

definition graph_tools :: networkx where
  "graph_tools =
     \<lparr>nx_is_dag = (\<lambda>ns es. kahn_sort ns es \<noteq> None),
      nx_descendants = (\<lambda>es n. filter (\<lambda>m. m \<noteq> n \<and> (n, m) \<in> (set es)\<^sup>+) (remdups (map snd es))),
      nx_ancestors = (\<lambda>es n. filter (\<lambda>m. m \<noteq> n \<and> (m, n) \<in> (set es)\<^sup>+) (remdups (map fst es))),
      nx_simple_paths = (\<lambda>es u v. paths_from (length es) es [u] u v)\<rparr>"

interpretation tools: digraph_library graph_tools
proof
  fix ns :: "string list" and es :: edges and n :: string
  show "distinct ns \<Longrightarrow> edges_within ns es \<Longrightarrow> nx_is_dag graph_tools ns es \<longleftrightarrow> acyclic (set es)"
    using kahn.unfeasible [of ns es] by (auto simp: graph_tools_def simp del: not_None_eq)
  show "set (nx_descendants graph_tools es n) = {m. (n, m) \<in> (set es)\<^sup>+} - {n}"
    by (force simp: graph_tools_def dest: tranclD2)
  show "set (nx_ancestors graph_tools es n) = {m. (m, n) \<in> (set es)\<^sup>+} - {n}"
    by (force simp: graph_tools_def dest: tranclD)
qed

text \<open>The edges the graph of a package has.\<close>

definition dependencies :: "ipir_package \<Rightarrow> (string \<times> string) set" where
  "dependencies p =
     (\<Union>t \<in> set (pkg_tables p). (\<lambda>d. (td_input_ref d, tbl_id t)) ` set (tbl_dimensions t))
     \<union> (\<Union>n \<in> set (pkg_calculations p). (\<lambda>dep. (dep, calc_id n)) ` set (calc_depends_on n))
     \<union> (\<lambda>m. (mod_applies_to m, mod_id m)) ` set (pkg_modifiers p)
     \<union> (\<lambda>c. (pc_applies_to c, pc_id c)) ` set (pkg_constraints p)
     \<union> (\<lambda>f. (fee_applies_to f, fee_id f)) ` set (pkg_fees p)
     \<union> (\<Union>c \<in> set (pkg_coverages p). (\<lambda>r. (r, cov_id c)) ` set (cov_calculation_refs c)
          \<union> {(cov_id c, out) | out. cov_output_ref c = Some out \<and> out \<noteq> []})
     \<union> (\<lambda>out. (out_source_ref out, out_id out)) ` set (pkg_outputs p)"

lemma add_edges [simp]:
  "set (dg_edges (add_node i ty g)) = set (dg_edges g)"
  "set (dg_edges (add_edge u v g)) = insert (u, v) (set (dg_edges g))"
  by (auto simp: add_node_def add_edge_def)

lemma fold_edges [simp]:
  "set (dg_edges (fold (\<lambda>x. add_node (k x) ty) xs g)) = set (dg_edges g)"
  "set (dg_edges (fold (\<lambda>d. add_edge (f d) w) ds g)) = (\<lambda>d. (f d, w)) ` set ds \<union> set (dg_edges g)"
  by (induction xs arbitrary: g; simp) (induction ds arbitrary: g; auto)

lemma fold_node_edges:
  "set (dg_edges (fold (\<lambda>x g. add_edge (a x) (b x) (add_node (b x) ty g)) xs g)) =
     (\<lambda>x. (a x, b x)) ` set xs \<union> set (dg_edges g)"
  "set (dg_edges (fold (\<lambda>x g. fold (\<lambda>d. add_edge (f d) (b x)) (ds x) (add_node (b x) ty g)) xs g)) =
     (\<Union>x \<in> set xs. (\<lambda>d. (f d, b x)) ` set (ds x)) \<union> set (dg_edges g)"
  by (induction xs arbitrary: g; auto)+

lemma fold_coverage_edges:
  "set (dg_edges (fold add_coverage cs g)) =
    (\<Union>c \<in> set cs. (\<lambda>r. (r, cov_id c)) ` set (cov_calculation_refs c)
        \<union> {(cov_id c, out) | out. cov_output_ref c = Some out \<and> out \<noteq> []}) \<union> set (dg_edges g)"
proof (induction cs arbitrary: g)
  case (Cons c cs)
  have "set (dg_edges (add_coverage c g)) = (\<lambda>r. (r, cov_id c)) ` set (cov_calculation_refs c)
        \<union> {(cov_id c, out) | out. cov_output_ref c = Some out \<and> out \<noteq> []} \<union> set (dg_edges g)"
    by (auto simp: add_coverage_def Let_def split: option.splits)
  then show ?case using Cons by auto
qed simp

lemma build_graph_edges: "set (dg_edges (build_graph p)) = dependencies p"
  unfolding build_graph_def Let_def
  unfolding fold_node_edges fold_edges fold_coverage_edges dependencies_def
  by auto

text \<open>Every edge joins two nodes, and no node is listed twice.\<close>

definition graph_ok :: "dependency_graph \<Rightarrow> bool" where
  "graph_ok g \<longleftrightarrow> distinct (map fst (dg_nodes g)) \<and> edges_within (map fst (dg_nodes g)) (dg_edges g)"

lemma graph_ok_node [simp]: "graph_ok g \<Longrightarrow> graph_ok (add_node i ty g)"
  by (auto simp: graph_ok_def add_node_def edges_within_def distinct_dset keys_dset)

lemma touch_keys: "fst ` set (touch_node i ns) = insert i (fst ` set ns)" "distinct (map fst ns) \<Longrightarrow> distinct (map fst (touch_node i ns))"
  by (auto simp: touch_node_def keys_dset distinct_dset map_of_eq_None_iff)

lemma graph_ok_edge [simp]: "graph_ok g \<Longrightarrow> graph_ok (add_edge u v g)"
  by (auto simp: graph_ok_def add_edge_def edges_within_def touch_keys)

lemma graph_ok_fold [simp]: "(\<And>x g. graph_ok g \<Longrightarrow> graph_ok (f x g)) \<Longrightarrow> graph_ok g \<Longrightarrow> graph_ok (fold f xs g)"
  by (induction xs arbitrary: g) auto

lemma graph_ok_coverage: "graph_ok g \<Longrightarrow> graph_ok (add_coverage c g)"
  by (simp add: add_coverage_def Let_def split: option.split)

lemma build_graph_ok: "graph_ok (build_graph p)"
  unfolding build_graph_def Let_def
  by (intro graph_ok_fold graph_ok_coverage graph_ok_edge graph_ok_node)
    (auto simp: graph_ok_def edges_within_def)

section \<open>Ancestors, descendants and the analyzer\<close>

context digraph_library
begin

lemma graph_acyclic: "graph_of nx p = Inr g \<longleftrightarrow> g = build_graph p \<and> acyclic (dependencies p)"
  using dag [of "map fst (dg_nodes (build_graph p))" "dg_edges (build_graph p)"] build_graph_ok [of p]
  by (auto simp: graph_of_def Let_def graph_ok_def build_graph_edges)

lemma outside_graph:
  assumes "dget (dg_nodes (build_graph p)) i = None"
  shows "(m, i) \<notin> (dependencies p)\<^sup>+" "(i, m) \<notin> (dependencies p)\<^sup>+"
proof -
  have "edges_within (map fst (dg_nodes (build_graph p))) (dg_edges (build_graph p))"
    using build_graph_ok [of p] by (simp add: graph_ok_def)
  then have "a \<noteq> i \<and> b \<noteq> i" if "(a, b) \<in> dependencies p" for a b
    using that assms by (fastforce simp: edges_within_def map_of_eq_None_iff simp flip: build_graph_edges)
  then show "(m, i) \<notin> (dependencies p)\<^sup>+" "(i, m) \<notin> (dependencies p)\<^sup>+"
    by (blast dest: tranclD tranclD2)+
qed

lemma reached_nodes:
  assumes "acyclic (dependencies p)"
  shows "set (get_ancestors nx (build_graph p) i) = {m. (m, i) \<in> (dependencies p)\<^sup>+}"
    and "set (get_descendants nx (build_graph p) i) = {m. (i, m) \<in> (dependencies p)\<^sup>+}"
proof -
  have self: "(i, i) \<notin> (dependencies p)\<^sup>+" using assms by (simp add: acyclic_def)
  show "set (get_ancestors nx (build_graph p) i) = {m. (m, i) \<in> (dependencies p)\<^sup>+}"
    using self outside_graph(1) [of p i] by (auto simp: get_ancestors_def ancestors build_graph_edges)
  show "set (get_descendants nx (build_graph p) i) = {m. (i, m) \<in> (dependencies p)\<^sup>+}"
    using self outside_graph(2) [of p i] by (auto simp: get_descendants_def descendants build_graph_edges)
qed

lemma some_root:
  assumes "acyclic (dependencies p)" "tds \<noteq> []"
  shows "\<exists>td \<in> set tds. \<forall>u \<in> set tds. (td_node_id u, td_node_id td) \<notin> (dependencies p)\<^sup>+"
proof -
  have "wf ((dependencies p)\<^sup>+)"
    using assms(1) by (simp add: wf_trancl finite_acyclic_wf flip: build_graph_edges)
  then obtain i where "i \<in> td_node_id ` set tds" "\<And>j. (j, i) \<in> (dependencies p)\<^sup>+ \<Longrightarrow> j \<notin> td_node_id ` set tds"
    using assms(2) wfE_min' [of "(dependencies p)\<^sup>+" "td_node_id ` set tds"] by auto
  then show ?thesis by blast
qed


end

lemma finding_fields [simp]:
  "rc_downstream (finding_of_difference n d ds) = ds" "rc_node_id (finding_of_difference n d ds) = n"
  "rc_downstream (finding_of_trace n td ds) = ds" "rc_node_id (finding_of_trace n td ds) = n"
  by (simp_all add: finding_of_difference_def finding_of_trace_def)

lemma analysis_result:
  assumes "perform_root_cause_analysis nx tds diff p = Inr (Some (node, f))"
  obtains g where "tds \<noteq> []" "graph_of nx p = Inr g" "node = fst (primary_cause nx g tds (sr_differences diff))"
    "rc_node_id f = node" "rc_downstream f = get_descendants nx g node"
proof -
  obtain g where g: "tds \<noteq> []" "graph_of nx p = Inr g"
    using assms by (auto simp: perform_root_cause_analysis_def res_simps split: if_splits)
  obtain n d where nd: "primary_cause nx g tds (sr_differences diff) = (n, d)" by (cases "primary_cause nx g tds (sr_differences diff)")
  show thesis
    by (rule that [OF g]) (use assms g nd in \<open>auto simp: perform_root_cause_analysis_def Let_def split: option.splits\<close>)
qed

section \<open>The root cause of a divergence\<close>

text \<open>C29: The fallback of the root cause analysis is sound.  For networkx as it is documented, when no
  reported difference explains a divergence by one of the analyzer's three rules, the node named as
  root cause is that of the first divergent step of the trace that has no divergent node anywhere
  upstream of it in the package, every divergent step before it has one, and the effects listed are
  exactly the nodes downstream of it.\<close>

theorem root_cause_is_upstream:
  assumes nx: "digraph_library nx"
    and run: "perform_root_cause_analysis nx tds diff p = Inr (Some (node, f))"
    and rules: "upstream_difference tds (sr_differences diff) = None"
  shows "\<exists>pre td post. tds = pre @ td # post \<and> td_node_id td = node \<and> rc_node_id f = node
    \<and> (\<forall>u \<in> set tds. (td_node_id u, node) \<notin> (dependencies p)\<^sup>+)
    \<and> (\<forall>u \<in> set pre. \<exists>v \<in> set tds. (td_node_id v, td_node_id u) \<in> (dependencies p)\<^sup>+)
    \<and> set (rc_downstream f) = {m. (node, m) \<in> (dependencies p)\<^sup>+}"
proof -
  obtain g where g: "tds \<noteq> []" "graph_of nx p = Inr g" "node = fst (primary_cause nx g tds (sr_differences diff))"
      "rc_node_id f = node" "rc_downstream f = get_descendants nx g node"
    using analysis_result [OF run] .
  have acy: "acyclic (dependencies p)" "g = build_graph p" using g(2) digraph_library.graph_acyclic [OF nx] by auto
  note reached = digraph_library.reached_nodes [OF nx acy(1)]
  define clear where "clear td \<longleftrightarrow> (\<forall>u \<in> set tds. (td_node_id u, td_node_id td) \<notin> (dependencies p)\<^sup>+)" for td :: trace_difference
  have roots: "root_candidates nx g tds = filter clear tds"
    unfolding root_candidates_def by (rule filter_cong) (auto simp: acy(2) reached clear_def)
  have "filter clear tds \<noteq> []"
    using digraph_library.some_root [OF nx acy(1) g(1)] by (auto simp: clear_def filter_empty_conv)
  then obtain td rest where td: "filter clear tds = td # rest" by (cases "filter clear tds") auto
  then obtain pre post where split: "tds = pre @ td # post" "clear td" "\<forall>u \<in> set pre. \<not> clear u"
    by (auto simp: filter_eq_Cons_iff)
  have "td_node_id td = node" using g(3) rules td by (simp add: primary_cause_def roots Let_def)
  then have "\<forall>u \<in> set tds. (td_node_id u, node) \<notin> (dependencies p)\<^sup>+" using split(2) by (simp add: clear_def)
  moreover have "\<forall>u \<in> set pre. \<exists>v \<in> set tds. (td_node_id v, td_node_id u) \<in> (dependencies p)\<^sup>+"
    using split(3) by (simp add: clear_def)
  moreover have "set (rc_downstream f) = {m. (node, m) \<in> (dependencies p)\<^sup>+}" using g(5) reached(2) acy(2) by simp
  ultimately show ?thesis using split(1) \<open>td_node_id td = node\<close> g(4) by (intro exI [of _ pre] exI [of _ td] exI [of _ post]) simp
qed

definition sample_divergence :: "string \<Rightarrow> trace_difference" where
  "sample_divergence i = \<lparr>td_node_id = i, td_node_type = ''CALCULATION'', td_expected = PInt 1, td_actual = PInt 2,
     td_absolute = None, td_percentage = None, td_position = 1\<rparr>"

definition no_difference :: semantic_diff_result where
  "no_difference = \<lparr>sr_left_package_id = ''p'', sr_right_package_id = ''p'', sr_left_version = ''1'', sr_right_version = ''1'',
     sr_differences = [], sr_difference_count = 0, sr_severity_counts = [], sr_semantically_equal = True\<rparr>"

lemma add_made:
  "add_node i ty \<lparr>dg_nodes = ns, dg_edges = es\<rparr> = \<lparr>dg_nodes = dset i (Some ty) ns, dg_edges = es\<rparr>"
  "add_edge u v \<lparr>dg_nodes = ns, dg_edges = es\<rparr> = \<lparr>dg_nodes = touch_node v (touch_node u ns),
     dg_edges = (if (u, v) \<in> set es then es else es @ [(u, v)])\<rparr>"
  by (simp_all add: add_node_def add_edge_def)

lemma sample_graph:
  "graph_of graph_tools sample_package = Inr (build_graph sample_package)"
  "dg_edges (build_graph sample_package) = [(''roof_age'', ''roof_factor''), (''premium'', ''total'')]"
  "fst ` set (dg_nodes (build_graph sample_package)) = {''roof_age'', ''base_rate'', ''roof_factor'', ''premium'', ''total''}"
proof -
  have built: "map fst (dg_nodes (build_graph sample_package)) = [''roof_age'', ''base_rate'', ''roof_factor'', ''premium'', ''total'']
      \<and> dg_edges (build_graph sample_package) = [(''roof_age'', ''roof_factor''), (''premium'', ''total'')]"
    by (simp add: build_graph_def sample_package_def add_made touch_node_def sample_input_def
        sample_table_fields sample_calculation_def)
  moreover have "kahn_sort [''roof_age'', ''base_rate'', ''roof_factor'', ''premium'', ''total'']
      [(''roof_age'', ''roof_factor''), (''premium'', ''total'')] \<noteq> None"
    by (simp add: kahn_sort.simps ready_def)
  ultimately show "graph_of graph_tools sample_package = Inr (build_graph sample_package)"
    and "dg_edges (build_graph sample_package) = [(''roof_age'', ''roof_factor''), (''premium'', ''total'')]"
    by (simp_all add: graph_of_def graph_tools_def Let_def del: kahn_sort.simps)
  have "fst ` set (dg_nodes (build_graph sample_package)) = set (map fst (dg_nodes (build_graph sample_package)))" by simp
  then show "fst ` set (dg_nodes (build_graph sample_package)) = {''roof_age'', ''base_rate'', ''roof_factor'', ''premium'', ''total''}"
    using built by simp
qed

lemma root_cause_is_upstream_witness:
  "\<exists>f pre td post. perform_root_cause_analysis graph_tools [sample_divergence ''total'', sample_divergence ''premium'']
      no_difference sample_package = Inr (Some (''premium'', f))
    \<and> [sample_divergence ''total'', sample_divergence ''premium''] = pre @ td # post \<and> td_node_id td = ''premium''"
proof -
  let ?tds = "[sample_divergence ''total'', sample_divergence ''premium'']"
  have anc: "set (get_ancestors graph_tools (build_graph sample_package) i) = {m. (m, i) \<in> {(''roof_age'', ''roof_factor''), (''premium'', ''total'')}\<^sup>+}" for i
  proof -
    have d: "dependencies sample_package = {(''roof_age'', ''roof_factor''), (''premium'', ''total'')}"
      by (simp add: sample_graph(2) flip: build_graph_edges)
    have "acyclic (dependencies sample_package)" using tools.graph_acyclic sample_graph(1) by blast
    from tools.reached_nodes(1) [OF this] show ?thesis by (simp add: d)
  qed
  have closure: "{(''roof_age'', ''roof_factor''), (''premium'', ''total'')}\<^sup>+ = {(''roof_age'', ''roof_factor''), (''premium'', ''total'')}"
    by (rule trancl_id) (auto simp: trans_def)
  have "primary_cause graph_tools (build_graph sample_package) ?tds [] = (''premium'', None)"
    by (simp add: primary_cause_def upstream_difference_def first_table_change_def first_date_change_def first_order_change_def
        root_candidates_def anc closure sample_divergence_def Let_def)
  then obtain f where f: "perform_root_cause_analysis graph_tools ?tds no_difference sample_package = Inr (Some (''premium'', f))"
    by (simp add: perform_root_cause_analysis_def sample_graph(1) no_difference_def)
  have "upstream_difference ?tds (sr_differences no_difference) = None"
    by (simp add: no_difference_def upstream_difference_def first_table_change_def first_date_change_def first_order_change_def)
  from root_cause_is_upstream [OF tools.digraph_library_axioms f this] f show ?thesis by blast
qed

section \<open>The blast radius of a diff\<close>

lemma analyze_fields:
  assumes "analyze nx iter diff p = Inr a"
  obtains down where "graph_of nx p = Inr (build_graph p)"
    "down = concat (map (\<lambda>d. get_descendants nx (build_graph p) (sd_node_id d)) (sr_differences diff))"
    "ia_directly_affected a = sorted_set (concat (map (successors (build_graph p)) (sorted_set (map sd_node_id (sr_differences diff)))))"
    "ia_downstream_affected a = sorted_set down"
    "ia_affected_outputs a = sorted_set (filter (\<lambda>i. i \<in> set (map out_id (pkg_outputs p))) down)"
    "ia_affected_coverages a = sorted_set (filter (\<lambda>i. i \<in> set (map cov_id (pkg_coverages p))) down)"
proof -
  have g: "graph_of nx p = Inr (build_graph p)"
    using assms by (auto simp: analyze_def res_simps graph_of_def Let_def split: if_splits)
  obtain preds where preds: "rmap_list (\<lambda>d. derive_predicate d p) (sr_differences diff) = Inr preds"
    using assms by (cases "rmap_list (\<lambda>d. derive_predicate d p) (sr_differences diff)") (simp_all add: analyze_def g Let_def)
  show thesis by (rule that [OF g refl]; use assms preds in \<open>auto simp: analyze_def g Let_def\<close>)
qed

text \<open>C30: The impact analysis of a diff is exact.  For networkx as it is documented, it fails with
  ImpactAnalysisError when the package's graph has a cycle; otherwise its directly affected nodes
  are those that read a changed node, and its downstream nodes, outputs and coverages are those that
  a changed node reaches by one or more dependencies.\<close>

theorem impact_analysis_exact:
  assumes nx: "digraph_library nx"
  shows "(\<not> acyclic (dependencies p) \<longrightarrow> analyze nx iter diff p = Inl ImpactAnalysisError)
    \<and> (\<forall>a. analyze nx iter diff p = Inr a \<longrightarrow>
      set (ia_directly_affected a) = {m. \<exists>d \<in> set (sr_differences diff). (sd_node_id d, m) \<in> dependencies p}
      \<and> set (ia_downstream_affected a) = {m. \<exists>d \<in> set (sr_differences diff). (sd_node_id d, m) \<in> (dependencies p)\<^sup>+}
      \<and> set (ia_affected_outputs a) = set (ia_downstream_affected a) \<inter> out_id ` set (pkg_outputs p)
      \<and> set (ia_affected_coverages a) = set (ia_downstream_affected a) \<inter> cov_id ` set (pkg_coverages p))"
proof (intro conjI [OF impI] allI impI)
  assume "\<not> acyclic (dependencies p)"
  then have "graph_of nx p = Inl ImpactAnalysisError"
    using digraph_library.graph_acyclic [OF nx, of p "build_graph p"] by (auto simp: graph_of_def Let_def split: if_splits)
  then show "analyze nx iter diff p = Inl ImpactAnalysisError" by (simp add: analyze_def)
next
  fix a
  assume "analyze nx iter diff p = Inr a"
  then obtain down where f: "graph_of nx p = Inr (build_graph p)"
    "down = concat (map (\<lambda>d. get_descendants nx (build_graph p) (sd_node_id d)) (sr_differences diff))"
    "ia_directly_affected a = sorted_set (concat (map (successors (build_graph p)) (sorted_set (map sd_node_id (sr_differences diff)))))"
    "ia_downstream_affected a = sorted_set down"
    "ia_affected_outputs a = sorted_set (filter (\<lambda>i. i \<in> set (map out_id (pkg_outputs p))) down)"
    "ia_affected_coverages a = sorted_set (filter (\<lambda>i. i \<in> set (map cov_id (pkg_coverages p))) down)"
    by (rule analyze_fields)
  have acy: "acyclic (dependencies p)" using digraph_library.graph_acyclic [OF nx] f(1) by blast
  have succ: "set (successors (build_graph p) i) = {m. (i, m) \<in> dependencies p}" for i
    by (force simp: successors_def simp flip: build_graph_edges)
  have "set down = {m. \<exists>d \<in> set (sr_differences diff). (sd_node_id d, m) \<in> (dependencies p)\<^sup>+}"
    by (auto simp: f(2) digraph_library.reached_nodes [OF nx acy])
  moreover have "set (ia_directly_affected a) = {m. \<exists>d \<in> set (sr_differences diff). (sd_node_id d, m) \<in> dependencies p}"
    by (auto simp: f(3) succ)
  ultimately show "set (ia_directly_affected a) = {m. \<exists>d \<in> set (sr_differences diff). (sd_node_id d, m) \<in> dependencies p}
      \<and> set (ia_downstream_affected a) = {m. \<exists>d \<in> set (sr_differences diff). (sd_node_id d, m) \<in> (dependencies p)\<^sup>+}
      \<and> set (ia_affected_outputs a) = set (ia_downstream_affected a) \<inter> out_id ` set (pkg_outputs p)
      \<and> set (ia_affected_coverages a) = set (ia_downstream_affected a) \<inter> cov_id ` set (pkg_coverages p)"
    unfolding f(4-6) by auto
qed

text \<open>The dependencies the graph knows are those that calculations declare: the sample package's
  calculation reads its table without declaring it, and a change of the table reaches no output.\<close>

definition sample_change :: semantic_diff_result where
  "sample_change = no_difference\<lparr>sr_differences := [\<lparr>sd_id = ''diff'', sd_type = ROUNDING_CHANGE, sd_path = ''tables'',
     sd_node_id = ''roof_factor'', sd_node_type = ''TABLE'', sd_left = None, sd_right = None, sd_severity = HIGH,
     sd_description = ''changed'', sd_left_provenance = None, sd_right_provenance = None, sd_metadata = []\<rparr>],
     sr_semantically_equal := False\<rparr>"

lemma impact_analysis_exact_witness:
  "\<exists>a. analyze graph_tools id sample_change sample_package = Inr a \<and> ia_affected_outputs a = []"
proof -
  obtain a where a: "analyze graph_tools id sample_change sample_package = Inr a"
    by (simp add: analyze_def sample_graph(1) sample_change_def derive_predicate_def Let_def)
  have d: "dependencies sample_package = {(''roof_age'', ''roof_factor''), (''premium'', ''total'')}"
    by (simp add: sample_graph(2) flip: build_graph_edges)
  have "(''roof_factor'', m) \<notin> (dependencies sample_package)\<^sup>+" for m
    by (auto simp: d dest: tranclD)
  then have "set (ia_affected_outputs a) = {}"
    using impact_analysis_exact [OF tools.digraph_library_axioms, of sample_package id sample_change] a
    by (auto simp: sample_change_def)
  then show ?thesis using a by simp
qed

end
