(* ===== verification/ExposureSamples.thy ===== *)
theory ExposureSamples
  imports ExposureLaws ReconciliationLaws
begin

text \<open>
  One policy under two packages that differ in both rates of a table: what the diff, the impact
  analysis, the reconciliation and the portfolio analyzer say of it, computed.  The theorems of
  ExposureLaws are applied to it; and the root cause named is the right node with the values of a row
  that the policy never reached.
\<close>

section \<open>The packages and the policy\<close>

definition rerated_table :: rate_table where
  "rerated_table = sample_table\<lparr>tbl_rows := [range_row 0 10 (Dec False 110 (-2)), range_row 11 100 (Dec False 130 (-2))]\<rparr>"

definition rerated_package :: ipir_package where
  "rerated_package = sample_package\<lparr>pkg_tables := [rerated_table]\<rparr>"

definition sample_policy :: synthetic_policy where
  "sample_policy = \<lparr>sp_policy_id = ''P1'', sp_product_id = ''ho3'', sp_state = ''AZ'', sp_form = ''HO3'',
     sp_transaction_type = NEW_BUSINESS, sp_effective_date = Date 2026 3 1, sp_territory = ''T1'', sp_roof_age = 20,
     sp_deductible = 1000, sp_protection_class = 3, sp_construction_type = ''FRAME'', sp_dwelling_limit = 300000,
     sp_multi_policy = False, sp_claims_free = True, sp_claims_free_years = 5,
     sp_canonical_premium = Dec False 125013 (-2), sp_target_premium = None\<rparr>"

lemma rerated_table_fields:
  "tbl_id rerated_table = ''roof_factor''" "tbl_period rerated_table = None" "tbl_provenance rerated_table = None"
  "tbl_dimensions rerated_table = [\<lparr>td_input_ref = ''roof_age'', td_lookup_type = RANGE\<rparr>]"
  "tbl_rows rerated_table = [range_row 0 10 (Dec False 110 (-2)), range_row 11 100 (Dec False 130 (-2))]"
  "tbl_rows sample_table = [range_row 0 10 dec_one, range_row 11 100 (Dec False 125 (-2))]"
  by (simp_all add: rerated_table_def sample_table_fields) (simp add: sample_table_def range_table_def)

lemma construct_rerated: "construct_package rerated_package = Inr rerated_package"
proof -
  have "validate_table rerated_table = Inr rerated_table" by code_simp
  then have "fields_fixed rerated_package"
    using construct_package_result(1) [OF construct_sample] by (simp add: fields_fixed_def rerated_package_def)
  moreover have "node_ids rerated_package = [''roof_age'', ''base_rate'', ''roof_factor'', ''premium'', ''total'']"
    by (simp add: node_ids_def entities_def rerated_package_def sample_package_def sample_calculation_def
        sample_input_def rerated_table_fields)
  then have "validate_package rerated_package = Inr rerated_package"
    unfolding validate_package_Inr by (simp add: rerated_package_def sample_package_def validate_simps)
  ultimately show ?thesis by (simp add: construct_package_fixed)
qed

lemma rates_only: "only_rates_changed sample_package rerated_package"
proof -
  have "rates_changed sample_table rerated_table"
    by (simp add: rates_changed_def rerated_table_fields) (simp add: rerated_table_def same_but_value_def range_row_def dec_const_defs dval.simps)
  then show ?thesis by (simp add: only_rates_changed_def rerated_package_def sample_package_def)
qed

lemma sample_keys: "format_match_key (range_row 0 10 v) = Inr ''0..10''" "format_match_key (range_row 11 100 v) = Inr ''11..100''"
proof -
  have "int_str 0 = ''0''" "int_str 10 = ''10''" "int_str 11 = ''11''" "int_str 100 = ''100''" by code_simp+
  then show "format_match_key (range_row 0 10 v) = Inr ''0..10''" "format_match_key (range_row 11 100 v) = Inr ''11..100''"
    by (simp_all add: range_row_def format_match_key_def match_text_def)
qed

lemma sample_plain: "\<forall>t \<in> set (pkg_tables sample_package). plain_table sample_package sample_policy t"
  by (simp add: sample_package_def plain_table_def sample_table_fields rerated_table_fields sample_keys sample_input_def
      rating_values_def sample_policy_def tidy_number)
    (simp add: range_row_def plain_match_def range_typed_def)

section \<open>The quotes\<close>

definition sample_quote :: "decimal \<Rightarrow> decimal \<Rightarrow> oracle_result" where
  "sample_quote factor premium =
     \<lparr>or_package_id = ''az_ho3'', or_package_version = ''1.0.0'', or_effective_date = Date 2026 3 1,
       or_transaction_type = NEW_BUSINESS, or_final_output_id = ''total'', or_final_premium = premium, or_currency = ''USD'',
       or_resolved_values = [(''roof_age'', PInt 20), (''base_rate'', PDec (Dec False 100010 (- 2))),
          (''roof_factor'', PDec factor), (''premium'', PDec premium)],
       or_trace =
         [\<lparr>ts_sequence = 1, ts_node_id = ''roof_age'', ts_node_type = ''INPUT'', ts_operation = ''SET_INPUT'',
            ts_inputs = [(''raw_value'', Some (PInt 20))], ts_result = PInt 20, ts_provenance = None, ts_metadata = []\<rparr>,
          \<lparr>ts_sequence = 2, ts_node_id = ''base_rate'', ts_node_type = ''CONSTANT'', ts_operation = ''SET_CONSTANT'',
            ts_inputs = [], ts_result = PDec (Dec False 100010 (- 2)), ts_provenance = None, ts_metadata = []\<rparr>,
          \<lparr>ts_sequence = 3, ts_node_id = ''roof_factor'', ts_node_type = ''TABLE'', ts_operation = ''LOOKUP_TABLE'',
            ts_inputs = [(''roof_age'', Some (PInt 20))], ts_result = PDec factor, ts_provenance = None, ts_metadata = []\<rparr>,
          \<lparr>ts_sequence = 4, ts_node_id = ''premium'', ts_node_type = ''CALCULATION'', ts_operation = ''EVALUATE_CALCULATION'',
            ts_inputs = [], ts_result = PDec premium, ts_provenance = None, ts_metadata = []\<rparr>,
          \<lparr>ts_sequence = 5, ts_node_id = ''total'', ts_node_type = ''OUTPUT'', ts_operation = ''FINAL_OUTPUT'',
            ts_inputs = [(''source_ref'', Some (PStr ''premium''))], ts_result = PDec premium, ts_provenance = None,
            ts_metadata = []\<rparr>]\<rparr>"

lemma rerated_lookup:
  "lookup_table rerated_table [(''roof_age'', Some (PInt 20))] = Inr (Dec False 130 (-2), range_row 11 100 (Dec False 130 (-2)))"
  by (simp add: lookup_table_def rerated_table_fields range_row_def matches_cell_def matches_range_def)

lemmas oracle_defs = evaluate_package_def resolve_nodes_def sample_package_def rating_values_def sample_policy_def
    validate_risk_inputs_def sample_input_def validate_risk_input_def supplied_value_def convert_input_def check_bounds_def
    topological_sort_calculations_def dependency_edges_def kahn_sort.simps ready_def List.map_filter_def
    set_input_def set_constant_def set_table_def is_active_def less_date_def final_result_def step_node_def run_node_def
    active_modifiers_def active_constraints_def active_fees_def node_modifiers_def node_constraints_def node_fees_def
    put_def trace_to_def add_step_def initial_state_def dec_eval full_lookup dimension_values_def sample_table_fields
    sample_calculation_def resolve_ref_def apply_operator_def node_rounding_def apply_rounding_def dependency_inputs_def

lemma sample_quoted:
  "evaluate_package kahn_sort sample_package (rating_values sample_policy) (Date 2026 3 1) NEW_BUSINESS False =
     Inr (sample_quote (Dec False 125 (-2)) (Dec False 125013 (-2)))"
  by (simp add: oracle_defs sample_quote_def)

lemma rerated_quoted:
  "evaluate_package kahn_sort rerated_package (rating_values sample_policy) (Date 2026 3 1) NEW_BUSINESS False =
     Inr (sample_quote (Dec False 130 (-2)) (Dec False 130013 (-2)))"
  by (simp add: oracle_defs sample_quote_def rerated_package_def rerated_table_fields rerated_lookup)

section \<open>The diff and the predicates\<close>

definition row_change :: "string \<Rightarrow> decimal \<Rightarrow> decimal \<Rightarrow> semantic_difference" where
  "row_change key a b = \<lparr>sd_id = ''diff_roof_factor_'' @ key @ ''_factor'', sd_type = TABLE_ROW_CHANGE,
     sd_path = ''tables.roof_factor['' @ key @ '']'', sd_node_id = ''roof_factor'', sd_node_type = ''TABLE_ROW'',
     sd_left = Some (PDec a), sd_right = Some (PDec b), sd_severity = CRITICAL,
     sd_description = ''Rate table '' @ quoted ''roof_factor'' @ '' factor for '' @ quoted key @ '' changed from ''
        @ dec_str a @ '' to '' @ dec_str b, sd_left_provenance = None, sd_right_provenance = None,
     sd_metadata = [(''dimension_key'', key)]\<rparr>"

definition rate_changes :: "semantic_difference list" where
  "rate_changes = [row_change ''0..10'' dec_one (Dec False 110 (-2)), row_change ''11..100'' (Dec False 125 (-2)) (Dec False 130 (-2))]"

lemma tables_compared: "compare_rate_tables sample_table rerated_table = Inr rate_changes"
proof -
  have keyed: "keyed_rows sample_table = Inr [(''0..10'', range_row 0 10 dec_one), (''11..100'', range_row 11 100 (Dec False 125 (-2)))]"
    "keyed_rows rerated_table = Inr [(''0..10'', range_row 0 10 (Dec False 110 (-2))), (''11..100'', range_row 11 100 (Dec False 130 (-2)))]"
    by (simp_all add: keyed_rows_def rerated_table_fields sample_keys)
  have "all_keys [(''0..10'', x), (''11..100'', y)] [(''0..10'', z), (''11..100'', w)] = [''0..10'', ''11..100'']"
    for x y z w :: table_row
    by (simp add: all_keys_def sorted_set_def)
  then show ?thesis
    unfolding compare_rate_tables_def keyed
    by (simp add: for_keys_def row_difference_def rerated_table_fields sample_table_fields rate_changes_def row_change_def
        range_row_def dec_const_defs dval.simps Let_def)
qed

lemma sample_compared:
  "\<exists>diff. compare_packages sample_package rerated_package = Inr diff \<and> sr_differences diff = rate_changes"
  by (simp add: compare_packages_def package_differences_def rerated_package_def sample_package_def for_keys_def all_keys_def
      sorted_set_def input_difference_def on_both_def constant_difference_def sample_input_def sample_table_fields
      rerated_table_fields tables_compared compare_effective_periods_def)

definition row_predicate :: "string \<Rightarrow> int \<Rightarrow> int \<Rightarrow> semantic_difference \<Rightarrow> impact_predicate" where
  "row_predicate key lo hi d = \<lparr>ip_id = predicate_id d,
     ip_clauses = [\<lparr>cl_field = ''roof_age'', cl_operator = GTE, cl_value = PDec (dec_of_int lo)\<rparr>,
        \<lparr>cl_field = ''roof_age'', cl_operator = LTE, cl_value = PDec (dec_of_int hi)\<rparr>], ip_logical = AND_OP,
     ip_temporal_start = None, ip_temporal_end = None,
     ip_description = ''Risk attributes matching table lookup '' @ quoted ''roof_factor'' @ '' key ['' @ key @ '']''\<rparr>"

lemma row_clauses_computed:
  "key_clauses (\<lparr>td_input_ref = ''roof_age'', td_lookup_type = RANGE\<rparr>, ''0..10'') =
     Inr [\<lparr>cl_field = ''roof_age'', cl_operator = GTE, cl_value = PDec (dec_of_int 0)\<rparr>,
        \<lparr>cl_field = ''roof_age'', cl_operator = LTE, cl_value = PDec (dec_of_int 10)\<rparr>]"
  "key_clauses (\<lparr>td_input_ref = ''roof_age'', td_lookup_type = RANGE\<rparr>, ''11..100'') =
     Inr [\<lparr>cl_field = ''roof_age'', cl_operator = GTE, cl_value = PDec (dec_of_int 11)\<rparr>,
        \<lparr>cl_field = ''roof_age'', cl_operator = LTE, cl_value = PDec (dec_of_int 100)\<rparr>]"
  by code_simp+

lemma split_keys: "py_split ''|'' ''0..10'' = [''0..10'']" "py_split ''|'' ''11..100'' = [''11..100'']"
  by code_simp+

definition sample_predicates :: "impact_predicate list" where
  "sample_predicates = [row_predicate ''0..10'' 0 10 (rate_changes ! 0), row_predicate ''11..100'' 11 100 (rate_changes ! 1)]"

lemma predicates_derived: "rmap_list (\<lambda>d. derive_predicate d sample_package) rate_changes = Inr sample_predicates"
  by (simp add: rate_changes_def derive_predicate_def row_change_def sample_package_def sample_table_fields table_predicate_def
      dget_default_def split_keys row_clauses_computed sample_predicates_def row_predicate_def predicate_id_def)

lemma sample_analyzed:
  assumes "sr_differences diff = rate_changes"
  shows "\<exists>impact. analyze graph_tools id diff sample_package = Inr impact \<and> ia_predicates impact = sample_predicates"
  by (simp add: analyze_def sample_graph(1) assms predicates_derived Let_def)

lemma changed_rates_exposed_witness:
  "\<exists>diff impact. compare_packages sample_package rerated_package = Inr diff \<and> analyze graph_tools id diff sample_package = Inr impact
     \<and> (\<exists>pred \<in> set (ia_predicates impact). matches_predicate sample_policy pred = Inr True)"
proof -
  obtain diff where diff: "compare_packages sample_package rerated_package = Inr diff" "sr_differences diff = rate_changes"
    using sample_compared by blast
  obtain impact where impact: "analyze graph_tools id diff sample_package = Inr impact" using sample_analyzed [OF diff(2)] by blast
  have "evaluate_package kahn_sort sample_package (rating_values sample_policy) (sp_effective_date sample_policy) (sp_transaction_type sample_policy) False
      \<noteq> evaluate_package kahn_sort rerated_package (rating_values sample_policy) (sp_effective_date sample_policy) (sp_transaction_type sample_policy) False"
    using sample_quoted rerated_quoted by (simp add: sample_policy_def sample_quote_def)
  from changed_rates_exposed [OF construct_sample construct_rerated rates_only sample_plain diff(1) impact this]
  show ?thesis using diff(1) impact by blast
qed

section \<open>The reconciliation\<close>

definition trace_change :: "string \<Rightarrow> string \<Rightarrow> nat \<Rightarrow> decimal \<Rightarrow> decimal \<Rightarrow> decimal \<Rightarrow> decimal \<Rightarrow> trace_difference" where
  "trace_change i ty n a b ab pc = \<lparr>td_node_id = i, td_node_type = ty, td_expected = PDec a, td_actual = PDec b,
     td_absolute = Some ab, td_percentage = Some pc, td_position = n\<rparr>"

definition sample_divergences :: "trace_difference list" where
  "sample_divergences =
     [trace_change ''roof_factor'' ''TABLE'' 3 (Dec False 125 (-2)) (Dec False 130 (-2)) (Dec False 5 (-2)) (Dec False 40000 (-4)),
      trace_change ''premium'' ''CALCULATION'' 4 (Dec False 125013 (-2)) (Dec False 130013 (-2)) (Dec False 5000 (-2)) (Dec False 39996 (-4)),
      trace_change ''total'' ''OUTPUT'' 5 (Dec False 125013 (-2)) (Dec False 130013 (-2)) (Dec False 5000 (-2)) (Dec False 39996 (-4))]"

lemma sample_differences_computed:
  "absolute_difference (Dec False 125 (-2)) (Dec False 130 (-2)) = Inr (Dec False 5 (-2))"
  "absolute_difference (Dec False 125013 (-2)) (Dec False 130013 (-2)) = Inr (Dec False 5000 (-2))"
  by (simp_all add: absolute_difference_def dec_abs_def dec_eval)

lemma sample_quotients:
  "dec_div (Dec False 5 (-2)) (Dec False 125 (-2)) = Inr (Dec False 4 (-2))"
  "dec_div (Dec False 5000 (-2)) (Dec False 125013 (-2)) = Inr (Dec False 3999584043259501011894762945 (-29))"
  by (simp_all add: dec_div.simps strip_zeros.simps dec_eval)

lemma sample_percentages:
  "percentage_of (Dec False 5 (-2)) (Dec False 125 (-2)) = Inr (Dec False 400 (-2))"
  "percentage_of (Dec False 5000 (-2)) (Dec False 125013 (-2)) = Inr (Dec False 3999584043259501011894762945 (-27))"
  by (simp_all add: percentage_of_def sample_quotients hundred_def dec_eval)

lemma sample_rounded:
  "round4 (Dec False 400 (-2)) = Inr (Dec False 40000 (-4))"
  "round4 (Dec False 3999584043259501011894762945 (-27)) = Inr (Dec False 39996 (-4))"
  by (simp_all add: round4_def dec_eval)

lemma steps_compared:
  assumes "ts_result e = PDec x" "ts_result a = PDec y"
  shows "compare_steps n e a =
    (if dec_eq x y then Inr []
     else rbind (absolute_difference x y) (\<lambda>ab.
       if dec_eq x dec_zero then Inr [\<lparr>td_node_id = ts_node_id e, td_node_type = ts_node_type e, td_expected = PDec x,
           td_actual = PDec y, td_absolute = Some ab, td_percentage = None, td_position = n\<rparr>]
       else rbind (percentage_of ab x) (\<lambda>p. rbind (round4 p) (\<lambda>pc.
         Inr [\<lparr>td_node_id = ts_node_id e, td_node_type = ts_node_type e, td_expected = PDec x,
           td_actual = PDec y, td_absolute = Some ab, td_percentage = Some pc, td_position = n\<rparr>]))))"
  by (simp add: compare_steps_def assms to_decimal_safe_def Let_def)

lemma compare_same: "ts_result e = ts_result a \<Longrightarrow> is_number (ts_result e) \<Longrightarrow> compare_steps n e a = Inr []"
  by (cases "ts_result a") (auto simp: compare_steps_def to_decimal_safe_def to_dec_def split: sum.split)

lemma unequal: "\<not> dec_eq (Dec False 125 (-2)) (Dec False 130 (-2))" "\<not> dec_eq (Dec False 125013 (-2)) (Dec False 130013 (-2))"
  "\<not> dec_eq (Dec False 125 (-2)) dec_zero" "\<not> dec_eq (Dec False 125013 (-2)) dec_zero"
  by (simp_all add: dval.simps dec_const_defs)

lemma step_roof:
  "ts_result e = PDec (Dec False 125 (-2)) \<Longrightarrow> ts_result a = PDec (Dec False 130 (-2)) \<Longrightarrow>
     compare_steps n e a = Inr [trace_change (ts_node_id e) (ts_node_type e) n (Dec False 125 (-2)) (Dec False 130 (-2)) (Dec False 5 (-2)) (Dec False 40000 (-4))]"
  apply (subst steps_compared, assumption, assumption)
  unfolding sample_differences_computed
  apply (simp only: unequal if_False rbind_simps sample_percentages sample_rounded)
  by (simp add: trace_change_def)

lemma step_premium:
  "ts_result e = PDec (Dec False 125013 (-2)) \<Longrightarrow> ts_result a = PDec (Dec False 130013 (-2)) \<Longrightarrow>
     compare_steps n e a = Inr [trace_change (ts_node_id e) (ts_node_type e) n (Dec False 125013 (-2)) (Dec False 130013 (-2)) (Dec False 5000 (-2)) (Dec False 39996 (-4))]"
  apply (subst steps_compared, assumption, assumption)
  unfolding sample_differences_computed
  apply (simp only: unequal if_False rbind_simps sample_percentages sample_rounded)
  by (simp add: trace_change_def)

lemma small_numbers: "(3 :: nat) = Suc (Suc (Suc 0))" "(4 :: nat) = Suc (Suc (Suc (Suc 0)))" "(5 :: nat) = Suc (Suc (Suc (Suc (Suc 0))))"
  by simp_all

lemma aligned_five:
  assumes "map ts_node_id es = [a, b, c, d, e]" "map ts_node_id xs = [a, b, c, d, e]" "distinct [a, b, c, d, e]"
  shows "align_and_compare_traces es xs =
    rbind (rmap_list (\<lambda>(n, e, x). compare_steps n e x) (List.enumerate 1 (zip es xs))) (\<lambda>ds. Inr (concat ds))"
proof -
  obtain e1 e2 e3 e4 e5 x1 x2 x3 x4 x5 where "es = [e1, e2, e3, e4, e5]" "xs = [x1, x2, x3, x4, x5]"
    using assms(1,2) by (auto simp: map_eq_Cons_conv)
  then show ?thesis using assms by (auto simp: align_and_compare_traces_def Let_def)
qed

lemma sample_aligned:
  "align_and_compare_traces (or_trace (sample_quote (Dec False 125 (-2)) (Dec False 125013 (-2))))
     (or_trace (sample_quote (Dec False 130 (-2)) (Dec False 130013 (-2)))) = Inr sample_divergences"
proof -
  have ids: "map ts_node_id (or_trace (sample_quote f p)) = [''roof_age'', ''base_rate'', ''roof_factor'', ''premium'', ''total'']" for f p
    by (simp add: sample_quote_def)
  have "distinct [''roof_age'', ''base_rate'', ''roof_factor'', ''premium'', ''total'']" by simp
  then show ?thesis
    unfolding aligned_five [OF ids ids \<open>distinct _\<close>]
    by (simp add: sample_quote_def compare_same step_roof step_premium sample_divergences_def small_numbers)
qed

lemma row_change_fields:
  "sd_type (row_change k a b) = TABLE_ROW_CHANGE" "sd_node_id (row_change k a b) = ''roof_factor''"
  "sd_left (row_change k a b) = Some (PDec a)" "sd_right (row_change k a b) = Some (PDec b)"
  by (simp_all add: row_change_def)

lemma sample_cause:
  assumes "sr_differences diff = rate_changes"
  shows "\<exists>downstream. perform_root_cause_analysis graph_tools sample_divergences diff sample_package =
    Inr (Some (''roof_factor'', finding_of_difference ''roof_factor'' (row_change ''0..10'' dec_one (Dec False 110 (-2))) downstream))"
proof -
  have "upstream_difference sample_divergences rate_changes = Some (row_change ''0..10'' dec_one (Dec False 110 (-2)))"
    by (simp add: upstream_difference_def first_table_change_def rate_changes_def row_change_fields sample_divergences_def trace_change_def Let_def)
  moreover have "sample_divergences \<noteq> []" by (simp add: sample_divergences_def)
  ultimately show ?thesis
    by (simp add: perform_root_cause_analysis_def sample_graph(1) assms primary_cause_def row_change_fields Let_def) blast
qed

lemma sample_repriced:
  assumes "sr_differences diff = rate_changes"
  shows "\<exists>r downstream. reprice_policy kahn_sort graph_tools sample_policy sample_package rerated_package diff = Inr r
    \<and> \<not> rr_premium_matches r \<and> rr_trace_diverged r \<and> rr_trace_differences r = sample_divergences
    \<and> rr_expected_premium r = Dec False 125013 (-2) \<and> rr_actual_premium r = Dec False 130013 (-2)
    \<and> rr_root_cause r = Some (finding_of_difference ''roof_factor'' (row_change ''0..10'' dec_one (Dec False 110 (-2))) downstream)"
proof -
  obtain downstream where cause: "perform_root_cause_analysis graph_tools sample_divergences diff sample_package =
    Inr (Some (''roof_factor'', finding_of_difference ''roof_factor'' (row_change ''0..10'' dec_one (Dec False 110 (-2))) downstream))"
    using sample_cause [OF assms] ..
  have "target_quote kahn_sort default_target_id rerated_package (rating_values sample_policy) (Date 2026 3 1) NEW_BUSINESS =
      Inr \<lparr>tq_target_id = default_target_id, tq_result = sample_quote (Dec False 130 (-2)) (Dec False 130013 (-2)), tq_status = ''SUCCESS''\<rparr>"
    using rerated_quoted by (simp add: target_quote_def)
  moreover have "sp_effective_date sample_policy = Date 2026 3 1" "sp_transaction_type sample_policy = NEW_BUSINESS"
    by (simp_all add: sample_policy_def)
  moreover have "or_final_premium (sample_quote f p) = p" for f p by (simp add: sample_quote_def)
  moreover have "sample_divergences \<noteq> []" by (simp add: sample_divergences_def)
  moreover have "dval (Dec False 125013 (-2)) \<noteq> 0" using unequal(4) by (simp add: dec_const_defs del: dval.simps)
  ultimately show ?thesis
    using cause
    by (simp add: reprice_policy_def sample_quoted reconcile_def Let_def unequal [unfolded dec_eq_dval] sample_differences_computed
        sample_percentages sample_rounded sample_aligned del: One_nat_def) blast
qed


text \<open>C31: A reconciliation can report the figures of another row.  For two packages that differ in both
  rates of a table and a policy that both price through the second row, the trace diverges at the
  table with the rates of the second row, the table is rightly named as root cause, and the
  expected and actual values given for it are the rates of the first row.\<close>

theorem root_cause_reports_other_row:
  "\<exists>diff r f. compare_packages sample_package rerated_package = Inr diff
     \<and> reprice_policy kahn_sort graph_tools sample_policy sample_package rerated_package diff = Inr r
     \<and> rr_root_cause r = Some f \<and> rc_node_id f = ''roof_factor''
     \<and> (\<exists>td \<in> set (rr_trace_differences r). td_node_id td = ''roof_factor''
          \<and> td_expected td = PDec (Dec False 125 (-2)) \<and> td_actual td = PDec (Dec False 130 (-2)))
     \<and> rc_expected f = Some (PDec dec_one) \<and> rc_actual f = Some (PDec (Dec False 110 (-2)))"
proof -
  obtain diff where diff: "compare_packages sample_package rerated_package = Inr diff" "sr_differences diff = rate_changes"
    using sample_compared by blast
  obtain r downstream where r: "reprice_policy kahn_sort graph_tools sample_policy sample_package rerated_package diff = Inr r"
      "rr_trace_differences r = sample_divergences"
      "rr_root_cause r = Some (finding_of_difference ''roof_factor'' (row_change ''0..10'' dec_one (Dec False 110 (-2))) downstream)"
    using sample_repriced [OF diff(2)] by blast
  have "\<exists>td \<in> set sample_divergences. td_node_id td = ''roof_factor''
      \<and> td_expected td = PDec (Dec False 125 (-2)) \<and> td_actual td = PDec (Dec False 130 (-2))"
    by (simp add: sample_divergences_def trace_change_def)
  moreover have "rc_expected (finding_of_difference n (row_change k a b) ds) = Some (PDec a)"
      "rc_actual (finding_of_difference n (row_change k a b) ds) = Some (PDec b)" for n k a b ds
    by (simp_all add: finding_of_difference_def row_change_fields)
  ultimately show ?thesis using diff(1) r by (metis finding_fields(2))
qed

section \<open>The portfolio\<close>

definition second_id :: string where "second_id = ip_id (sample_predicates ! 1)"

lemma sample_exposed: "exposed_policies sample_predicates [sample_policy] = Inr [(''P1'', [second_id])]"
proof -
  have "dget (policy_fields sample_policy) ''roof_age'' = Some (PInt 20)" "sp_policy_id sample_policy = ''P1''"
    by (simp_all add: policy_fields_def rating_values_def sample_policy_def)
  then show ?thesis
    by (simp add: second_id_def exposed_policies_def expose_policy_def sample_predicates_def matches_predicate_def row_predicate_def
        in_window_def clause_holds_def dval.simps dec_of_int_def dget_default_def)
qed


definition sample_hits :: "(string, string list) dict" where
  "sample_hits = [(''P1'', [second_id])]"

lemma sample_hit_stats:
  "\<exists>s. dget (es_stats (initial_exposure sample_predicates)) (second_id) = Some (no_stats s)"
  by (simp add: second_id_def initial_exposure_def sample_predicates_def) blast

lemma sample_loop:
  assumes "sr_differences diff = rate_changes"
  shows "\<exists>st. rfold (expose_one id (\<lambda>p. reprice_policy kahn_sort graph_tools p sample_package rerated_package diff)
      (index_by sp_policy_id [sample_policy] []) sample_hits) (map fst sample_hits) (initial_exposure sample_predicates) = Inr st
    \<and> es_financial st = [''P1''] \<and> es_absolute st = Dec False 5000 (-2)
    \<and> es_impact st = [(''P1'', \<lparr>im_policy_id = ''P1'', im_signed_variance = Dec False 5000 (-2), im_absolute_variance = Dec False 5000 (-2)\<rparr>)]"
proof -
  obtain r where r: "reprice_policy kahn_sort graph_tools sample_policy sample_package rerated_package diff = Inr r"
      "\<not> rr_premium_matches r" "rr_trace_diverged r"
      "rr_expected_premium r = Dec False 125013 (-2)" "rr_actual_premium r = Dec False 130013 (-2)"
    using sample_repriced [OF assms] by blast
  obtain s where s: "dget (es_stats (initial_exposure sample_predicates)) (second_id) = Some (no_stats s)"
    using sample_hit_stats by blast
  have fields: "es_financial (initial_exposure ps) = []" "es_absolute (initial_exposure ps) = zero_cents" "es_impact (initial_exposure ps) = []"
    "es_expected (initial_exposure ps) = zero_cents" "es_target (initial_exposure ps) = zero_cents"
    "es_signed (initial_exposure ps) = zero_cents" "es_undercharge (initial_exposure ps) = zero_cents"
    "es_overcharge (initial_exposure ps) = zero_cents" for ps
    by (simp_all add: initial_exposure_def)
  have "index_by sp_policy_id [sample_policy] [] = [(''P1'', sample_policy)]" by (simp add: sample_policy_def)
  then show ?thesis
    by (simp add: expose_one_def sample_hits_def r s change_stats_def add_financial_def fields zero_cents_def dec_eval dec_abs_def
        add_stats_def no_stats_def dval.simps)
qed


lemma sample_report:
  assumes "es_financial st = [''P1'']" "es_absolute st = Dec False 5000 (-2)"
    "es_impact st = [(''P1'', \<lparr>im_policy_id = ''P1'', im_signed_variance = Dec False 5000 (-2), im_absolute_variance = Dec False 5000 (-2)\<rparr>)]"
  shows "\<exists>res. exposure_report (Date 2026 3 1) [sample_policy] sample_hits st = Inr res"
proof -
  have avg: "dec_div (Dec False 5000 (-2)) (dec_of_int 1) = Inr (Dec False 5000 (-2))" "cents (Dec False 5000 (-2)) = Inr (Dec False 5000 (-2))"
    by (simp_all add: dec_of_int_def cents_def dec_div.simps strip_zeros.simps dec_eval)
  have fields: "sp_policy_id sample_policy = ''P1''" "sp_transaction_type sample_policy = NEW_BUSINESS"
    by (simp_all add: sample_policy_def)
  have "\<exists>rows. compute_cohort_distribution [sample_policy] (es_impact st) (set (map fst sample_hits))
      default_cohort_dimensions default_minimum_cohort_size = Inr rows"
    by (simp add: compute_cohort_distribution_def default_cohort_dimensions_def count_cohorts_def cohort_value_def
        policy_attributes_def rating_values_def count_policy_def assms fields dget_default_def no_counts_def dec_eval dec_const_defs
        cohort_row_def default_minimum_cohort_size_def Let_def)
  moreover have "\<exists>p. compute_pipeline_impact [sample_policy] (es_impact st) (Date 2026 3 1) default_pipeline_windows = Inr p"
    by (simp add: compute_pipeline_impact_def default_pipeline_windows_def renewal_window_def renewal_in_def assms fields
        money_text_def cents_def dec_eval Let_def)
  ultimately show ?thesis by (auto simp: exposure_report_def assms avg Let_def)
qed

lemma sample_priced_differently: "priced_differently kahn_sort sample_package rerated_package sample_policy"
proof -
  have "sp_effective_date sample_policy = Date 2026 3 1" "sp_transaction_type sample_policy = NEW_BUSINESS"
    "or_final_premium (sample_quote f p) = p" for f p
    by (simp_all add: sample_policy_def sample_quote_def)
  then show ?thesis using sample_quoted rerated_quoted unequal(2) by (simp add: priced_differently_def del: dval.simps One_nat_def)
qed

lemma affected_count_exact_witness:
  "\<exists>res. portfolio_analyze kahn_sort graph_tools id (Date 2026 3 1) [sample_policy] sample_package rerated_package = Inr res
     \<and> px_financial res = 1"
proof -
  obtain diff where diff: "compare_packages sample_package rerated_package = Inr diff" "sr_differences diff = rate_changes"
    using sample_compared by blast
  obtain impact where impact: "analyze graph_tools id diff sample_package = Inr impact" "ia_predicates impact = sample_predicates"
    using sample_analyzed [OF diff(2)] by blast
  obtain st where st: "rfold (expose_one id (\<lambda>p. reprice_policy kahn_sort graph_tools p sample_package rerated_package diff)
      (index_by sp_policy_id [sample_policy] []) sample_hits) (map fst sample_hits) (initial_exposure sample_predicates) = Inr st"
     "\<exists>res. exposure_report (Date 2026 3 1) [sample_policy] sample_hits st = Inr res"
    using sample_loop [OF diff(2)] sample_report by blast
  have exposed: "exposed_policies (ia_predicates impact) [sample_policy] = Inr sample_hits"
    using sample_exposed impact(2) by (simp add: sample_hits_def)
  obtain res where "portfolio_analyze kahn_sort graph_tools id (Date 2026 3 1) [sample_policy] sample_package rerated_package = Inr res"
    using st(2) unfolding portfolio_analyze_def diff(1) rbind_simps impact(1) exposed
    unfolding impact(2) id_apply st(1) rbind_simps by blast
  moreover from affected_count_exact [OF construct_sample construct_rerated rates_only _ _ _ this]
  have "px_financial res = length (filter (priced_differently kahn_sort sample_package rerated_package) [sample_policy])"
    using sample_plain by simp
  ultimately show ?thesis using sample_priced_differently by auto
qed

end
