(* ===== verification/TestPlanning.thy ===== *)
theory TestPlanning
  imports PortfolioExposure IpirV2 "HOL-Library.Product_Lexorder"
begin

text \<open>
  Test probes mined from a package, \<open>src/backend/app/engines/testing\<close>: \<open>package_probes.py\<close>,
  \<open>boundary_generator.py\<close>, \<open>scorer.py\<close>, \<open>optimizer.py\<close>.

  The texts of reasons in \<open>skipped\<close> are left out: an entry is its origin and its reference.  A score,
  a float that is a sum of multiples of five, is a natural number.  Scenarios are objects that the
  optimizer and the planner change in place; the planner's part of that is in theory TestCandidates.
\<close>

section \<open>Decimals\<close>

definition dec_floor :: "decimal \<Rightarrow> int" where
  "dec_floor d =
     (case d of Dec s c e \<Rightarrow>
        let n = (if s then - int c else int c) in if 0 \<le> e then n * 10 ^ nat e else n div 10 ^ nat (- e))"

definition dec_ceil :: "decimal \<Rightarrow> int" where "dec_ceil d = - dec_floor (dec_negate d)"

definition dec_normalize :: "decimal \<Rightarrow> decimal res" where
  "dec_normalize d =
     rbind (dec_fix d) (\<lambda>x. case x of Dec s c e \<Rightarrow>
       if c = 0 then Inr (Dec s 0 0)
       else (let (c', k) = strip_zeros (ndigits c) c in Inr (Dec s c' (e + int (ndigits c - k)))))"

fun py_true :: "pyval \<Rightarrow> bool" where
  "py_true (PInt i) = (i \<noteq> 0)"
| "py_true (PDec d) = (\<not> dec_eq d dec_zero)"
| "py_true (PStr s) = (s \<noteq> [])"
| "py_true (PBool b) = b"
| "py_true (PDate _) = True"

section \<open>package\_probes.py: identity and typing\<close>

type_synonym probe_key = "(string \<times> string) list \<times> string \<times> string"

definition canonical_probe_key :: "risk_values \<Rightarrow> date \<Rightarrow> transaction_type \<Rightarrow> probe_key res" where
  "canonical_probe_key risk d txn =
     rbind (rmap_list (\<lambda>k. case dget risk k of
              None \<Rightarrow> Inl (KeyError k)
            | Some v \<Rightarrow>
                (case (is_number v, num_of v) of
                   (True, Some x) \<Rightarrow> rbind (dec_normalize x) (\<lambda>y. Inr (k, dec_str y))
                 | _ \<Rightarrow> Inr (k, py_str v))) (sort (map fst risk)))
       (\<lambda>items. Inr (items, isoformat d, transaction_text txn))"

text \<open>\<open>_to_decimal\<close>.\<close>

definition probe_decimal :: "pyval \<Rightarrow> decimal option res" where
  "probe_decimal v =
     (if is_bool v then Inr None
      else (case to_dec v of
              Inr d \<Rightarrow> Inr (Some d)
            | Inl e \<Rightarrow> if e \<in> {InvalidOperation, ValueError} then Inr None else Inl e))"

definition numeric_types :: "input_data_type set" where
  "numeric_types = {INTEGER_T, DECIMAL_T, MONEY_T}"

definition coerce_value :: "pricing_input \<Rightarrow> pyval \<Rightarrow> pyval option res" where
  "coerce_value inp raw =
     (case pi_data_type inp of
        BOOLEAN_T \<Rightarrow> Inr (if is_bool raw then Some raw else None)
      | INTEGER_T \<Rightarrow>
          rbind (probe_decimal raw) (\<lambda>d. Inr (case d of
            None \<Rightarrow> None | Some x \<Rightarrow> if dec_floor x = dec_ceil x then Some (PInt (dec_floor x)) else None))
      | DECIMAL_T \<Rightarrow> rbind (probe_decimal raw) (\<lambda>d. Inr (map_option PDec d))
      | MONEY_T \<Rightarrow> rbind (probe_decimal raw) (\<lambda>d. Inr (map_option PDec d))
      | _ \<Rightarrow> Inr (if is_bool raw then None else Some (PStr (py_str raw))))"

definition normal_text :: "pyval \<Rightarrow> string option res" where
  "normal_text v =
     rbind (probe_decimal v) (\<lambda>d. case d of
       None \<Rightarrow> Inr None | Some x \<Rightarrow> rbind (dec_normalize x) (\<lambda>y. Inr (Some (dec_str y))))"

definition in_domain :: "pricing_input \<Rightarrow> pyval \<Rightarrow> bool res" where
  "in_domain inp v =
     (case pi_allowed_values inp of
        Some vs \<Rightarrow>
          rbind (rmap_list (\<lambda>a. normal_text (PStr a)) vs) (\<lambda>ns.
            if py_str v \<in> set vs then Inr True
            else rbind (normal_text v) (\<lambda>n. Inr (n \<noteq> None \<and> n \<in> set ns)))
      | None \<Rightarrow>
          rbind (probe_decimal v) (\<lambda>d. case d of
            None \<Rightarrow> Inr (pi_data_type inp \<notin> numeric_types)
          | Some x \<Rightarrow>
              rbind (case pi_minimum inp of None \<Rightarrow> Inr True | Some lo \<Rightarrow> rbind (to_dec lo) (\<lambda>l. Inr (\<not> dec_less x l)))
                (\<lambda>above. if \<not> above then Inr False
                  else (case pi_maximum inp of None \<Rightarrow> Inr True
                        | Some hi \<Rightarrow> rbind (to_dec hi) (\<lambda>h. Inr (\<not> dec_less h x))))))"

definition midpoint :: "pyval \<Rightarrow> pyval \<Rightarrow> decimal res" where
  "midpoint lo hi =
     rbind (to_dec lo) (\<lambda>a. rbind (to_dec hi) (\<lambda>b. rbind (dec_add a b) (\<lambda>s. dec_div s (dec_of_int 2))))"

text \<open>The declared default of one input; None when there is no declared basis for a value.\<close>

definition declared_default :: "pricing_input \<Rightarrow> pyval option res" where
  "declared_default inp =
     (case pi_allowed_values inp of
        Some (a # _) \<Rightarrow> coerce_value inp (PStr a)
      | _ \<Rightarrow>
        if pi_data_type inp = BOOLEAN_T then Inr (Some (PBool False))
        else if pi_data_type inp \<in> numeric_types then
          (case (pi_minimum inp, pi_maximum inp) of
             (Some lo, Some hi) \<Rightarrow>
               rbind (midpoint lo hi) (\<lambda>m.
                 coerce_value inp (if pi_data_type inp = INTEGER_T then PInt (dec_trunc m) else PDec m))
           | (Some lo, None) \<Rightarrow> coerce_value inp lo
           | (None, Some hi) \<Rightarrow> coerce_value inp hi
           | (None, None) \<Rightarrow> Inr None)
        else Inr None)"

fun declared_defaults :: "pricing_input list \<Rightarrow> risk_values \<Rightarrow> risk_values option res" where
  "declared_defaults [] risk = Inr (Some risk)"
| "declared_defaults (inp # ins) risk =
     (if pi_data_type inp = DATE_T then declared_defaults ins risk
      else rbind (declared_default inp) (\<lambda>v. case v of
             None \<Rightarrow> Inr None | Some x \<Rightarrow> declared_defaults ins (dset (pi_id inp) x risk)))"

definition declared_default_risk :: "ipir_package \<Rightarrow> risk_values option res" where
  "declared_default_risk p = declared_defaults (pkg_inputs p) []"

section \<open>package\_probes.py: boundaries\<close>

fun walk_conditions :: "condition \<Rightarrow> (expr \<times> comparison_operator \<times> expr) list" where
  "walk_conditions (Compare l op r) = [(l, op, r)]"
| "walk_conditions (Logic op cs) = concat (map walk_conditions cs)"

definition literal_and_ref :: "string list \<Rightarrow> expr \<Rightarrow> expr \<Rightarrow> (string \<times> pyval) option" where
  "literal_and_ref ids l r =
     (case (l, r) of
        (ERef i, ELit v) \<Rightarrow> if i \<in> set ids then Some (i, v) else None
      | (ELit v, ERef i) \<Rightarrow> if i \<in> set ids then Some (i, v) else None
      | _ \<Rightarrow> None)"

type_synonym points = "(pyval \<times> string) list"

text \<open>\<open>found.setdefault(input_id, {}).setdefault(value, source)\<close>: equal keys, as Python compares them, are one.\<close>

definition add_point :: "string \<Rightarrow> pyval \<Rightarrow> string \<Rightarrow> (string, points) dict \<Rightarrow> (string, points) dict" where
  "add_point i v source found =
     (let ps = dget_default found i [] in
      dset i (if \<exists>(w, _) \<in> set ps. py_eq w v then ps else ps @ [(v, source)]) found)"

definition cell_points :: "rate_table \<Rightarrow> string \<Rightarrow> nat \<Rightarrow> table_match \<Rightarrow> (string \<times> pyval \<times> string) list" where
  "cell_points t i n m =
     (let place = ''table:'' @ tbl_id t @ '':row'' @ nat_str n in
      case m of
        RangeMatch r \<Rightarrow>
          (case rm_minimum r of None \<Rightarrow> [] | Some v \<Rightarrow> [(i, v, place @ '':minimum'')])
          @ (case rm_maximum r of None \<Rightarrow> [] | Some v \<Rightarrow> [(i, v, place @ '':maximum'')])
      | ExactMatch v \<Rightarrow> [(i, v, place @ '':exact'')])"

definition table_points :: "string list \<Rightarrow> rate_table \<Rightarrow> (string \<times> pyval \<times> string) list" where
  "table_points ids t =
     concat (map (\<lambda>(k, dm).
       if td_input_ref dm \<notin> set ids then []
       else concat (map (\<lambda>(n, row).
              if length (row_matches row) \<le> k then []
              else cell_points t (td_input_ref dm) n (row_matches row ! k)) (List.enumerate 1 (tbl_rows t))))
       (List.enumerate 0 (tbl_dimensions t)))"

definition rule_points :: "string list \<Rightarrow> pricing_rule \<Rightarrow> (string \<times> pyval \<times> string) list" where
  "rule_points ids r =
     concat (map (\<lambda>(a, op, b). case literal_and_ref ids a b of
         None \<Rightarrow> []
       | Some (i, v) \<Rightarrow> [(i, v, ''rule:'' @ rule_id r @ '':'' @ operator_value op)])
       (walk_conditions (rule_condition r)))"

definition collect_boundaries :: "ipir_package \<Rightarrow> (string, points) dict" where
  "collect_boundaries p =
     (let ids = map pi_id (pkg_inputs p) in
      fold (\<lambda>(i, v, s). add_point i v s)
        (concat (map (table_points ids) (pkg_tables p)) @ concat (map (rule_points ids) (pkg_rules p))) [])"

text \<open>A candidate value for one boundary, typed and kept when it is in the domain.\<close>

definition keep_point :: "pricing_input \<Rightarrow> pyval \<times> nat \<Rightarrow> (pyval \<times> nat) list res" where
  "keep_point inp = (\<lambda>(v, tier).
     rbind (coerce_value inp v) (\<lambda>t. case t of
       None \<Rightarrow> Inr []
     | Some x \<Rightarrow> rbind (in_domain inp x) (\<lambda>ok. Inr (if ok then [(x, tier)] else []))))"

definition cent :: decimal where "cent = Dec False 1 (- 2)"

definition neighbours :: "pricing_input \<Rightarrow> pyval \<Rightarrow> (pyval \<times> nat) list res" where
  "neighbours inp raw =
     rbind (probe_decimal raw) (\<lambda>d. case d of
       None \<Rightarrow> keep_point inp (raw, 1)
     | Some x \<Rightarrow>
         if pi_data_type inp \<notin> numeric_types then keep_point inp (raw, 1)
         else rbind (if pi_data_type inp = INTEGER_T then
                       Inr (if dec_floor x = dec_ceil x
                            then [(PInt (dec_floor x), 1), (PInt (dec_floor x - 1), 2), (PInt (dec_floor x + 1), 2)]
                            else [(PInt (dec_floor x), 1), (PInt (dec_ceil x), 1), (PInt (dec_floor x - 1), 2),
                                  (PInt (dec_ceil x + 1), 2)])
                     else rbind (dec_sub x cent) (\<lambda>a. rbind (dec_add x cent) (\<lambda>b.
                            Inr [(PDec x, 1), (PDec a, 2), (PDec b, 2)]))) (\<lambda>raws.
              rbind (rmap_list (keep_point inp) raws) (\<lambda>kept. Inr (concat kept))))"

section \<open>package\_probes.py: generation\<close>

datatype probe_origin = CONTROL_CASE_PROBE | BASELINE_PROBE | BOUNDARY_PROBE | MUTATION_PROBE

fun origin_value :: "probe_origin \<Rightarrow> string" where
  "origin_value CONTROL_CASE_PROBE = ''CONTROL_CASE''"
| "origin_value BASELINE_PROBE = ''BASELINE''"
| "origin_value BOUNDARY_PROBE = ''BOUNDARY''"
| "origin_value MUTATION_PROBE = ''MUTATION''"

fun source_value :: "calculation_date_source \<Rightarrow> string" where
  "source_value EXPLICIT = ''EXPLICIT''"
| "source_value CONTROL_CASE = ''CONTROL_CASE''"
| "source_value PACKAGE_EFFECTIVE_START = ''PACKAGE_EFFECTIVE_START''"

text \<open>\<open>CalculationDateSource(text)\<close>.\<close>

definition date_source :: "string \<Rightarrow> calculation_date_source res" where
  "date_source s =
     (case find (\<lambda>c. source_value c = s) [EXPLICIT, CONTROL_CASE, PACKAGE_EFFECTIVE_START] of
        None \<Rightarrow> Inl ValueError | Some c \<Rightarrow> Inr c)"

record package_probes =
  pb_scenarios :: "test_scenario list"
  pb_skipped :: "(string \<times> string) list"
  pb_base :: "(risk_values \<times> date \<times> calculation_date_source) option"

definition probe_scenario ::
  "string \<Rightarrow> string \<Rightarrow> risk_values \<Rightarrow> date \<Rightarrow> transaction_type \<Rightarrow> probe_origin \<Rightarrow> calculation_date_source \<Rightarrow>
   (string \<times> meta) list \<Rightarrow> scenario_classification \<Rightarrow> string list \<Rightarrow> test_scenario" where
  "probe_scenario name purpose risk d txn origin source provenance cls tags =
     \<lparr>sc_id = ''RG_PKG_TMP'', sc_name = name, sc_risk = risk, sc_date = d, sc_txn = txn, sc_purpose = purpose,
       sc_class = cls, sc_diff_ids = [], sc_group_ids = [], sc_node_ids = [], sc_tags = tags, sc_score = 0,
       sc_expected_coverage = [],
       sc_metadata = [(''probe_origin'', MText (origin_value origin)), (''calculation_date'', MText (isoformat d)),
         (''calculation_date_source'', MText (source_value source)), (''provenance'', MDict provenance)]\<rparr>"

text \<open>The exceptions a probe run catches: those of the oracle, and ValueError with pydantic's own.\<close>

fun probe_catches :: "exn \<Rightarrow> bool" where
  "probe_catches (OracleError _) = True"
| "probe_catches (InputValidationError _) = True"
| "probe_catches (TableLookupError _) = True"
| "probe_catches (ExpressionEvaluationError _) = True"
| "probe_catches ConditionEvaluationError = True"
| "probe_catches (ReferenceResolutionError _) = True"
| "probe_catches (EffectiveDateError _) = True"
| "probe_catches (CalculationDateError _) = True"
| "probe_catches (ValidationError _) = True"
| "probe_catches ValueError = True"
| "probe_catches _ = False"

definition executable :: "topo_sort \<Rightarrow> ipir_package \<Rightarrow> risk_values \<Rightarrow> date \<Rightarrow> transaction_type \<Rightarrow> bool res" where
  "executable topo p risk d txn =
     (case evaluate_package topo p risk d txn False of
        Inr r \<Rightarrow> Inr True
      | Inl e \<Rightarrow> if probe_catches e then Inr False else Inl e)"

definition first_transaction :: "ipir_package \<Rightarrow> transaction_type res" where
  "first_transaction p = (case pkg_transaction_types p of [] \<Rightarrow> Inl index_error | t # _ \<Rightarrow> Inr t)"

text \<open>The probes found so far, the keys seen, and the probes given up.\<close>

record probe_state =
  ps_ordered :: "test_scenario list"
  ps_seen :: "probe_key list"
  ps_given_up :: "(string \<times> string) list"

definition give_up :: "probe_origin \<Rightarrow> string \<Rightarrow> probe_state \<Rightarrow> probe_state" where
  "give_up origin ref st = st\<lparr>ps_given_up := ps_given_up st @ [(origin_value origin, ref)]\<rparr>"

definition found_probe :: "probe_key \<Rightarrow> test_scenario \<Rightarrow> probe_state \<Rightarrow> probe_state" where
  "found_probe key sc st = st\<lparr>ps_ordered := ps_ordered st @ [sc], ps_seen := List.insert key (ps_seen st)\<rparr>"

text \<open>The inputs of a control case with their declared types; None for the first problem.\<close>

fun type_inputs :: "(string, pricing_input) dict \<Rightarrow> risk_values \<Rightarrow> risk_values \<Rightarrow> risk_values option res" where
  "type_inputs by_id [] typed = Inr (Some typed)"
| "type_inputs by_id ((k, raw) # rest) typed =
     (case dget by_id k of
        None \<Rightarrow> Inr None
      | Some inp \<Rightarrow>
          rbind (coerce_value inp raw) (\<lambda>v. case v of
            None \<Rightarrow> Inr None
          | Some x \<Rightarrow> rbind (in_domain inp x) (\<lambda>ok.
              if ok then type_inputs by_id rest (dset k x typed) else Inr None)))"

definition required_inputs :: "ipir_package \<Rightarrow> string list" where
  "required_inputs p = map pi_id (filter (\<lambda>i. pi_required i \<and> pi_data_type i \<noteq> DATE_T) (pkg_inputs p))"

definition case_context :: "ipir_package \<Rightarrow> control_case \<Rightarrow> (date \<times> calculation_date_source \<times> transaction_type) res" where
  "case_context p c =
     rbind (resolve_calculation_date (Some p) None (dget (cc_inputs c) ''effective_date'')) (\<lambda>(d, src).
     rbind (case dget (cc_inputs c) ''transaction_type'' of
              None \<Rightarrow> first_transaction p
            | Some v \<Rightarrow> if py_true v then parse_transaction v else first_transaction p) (\<lambda>txn. Inr (d, src, txn)))"

definition case_error :: "exn \<Rightarrow> bool" where
  "case_error e \<longleftrightarrow> (case e of CalculationDateError _ \<Rightarrow> True | ValidationError _ \<Rightarrow> True | _ \<Rightarrow> e = ValueError)"

definition control_probe :: "topo_sort \<Rightarrow> ipir_package \<Rightarrow> control_case \<Rightarrow> probe_state \<Rightarrow> probe_state res" where
  "control_probe topo p c st =
     (case case_context p c of
        Inl e \<Rightarrow> if case_error e then Inr (give_up CONTROL_CASE_PROBE (cc_id c) st) else Inl e
      | Inr (d, src, txn) \<Rightarrow>
          rbind (type_inputs (index_by pi_id (pkg_inputs p) [])
                   (filter (\<lambda>(k, _). k \<notin> {''effective_date'', ''transaction_type''}) (cc_inputs c)) []) (\<lambda>typed.
          rbind (case typed of
                   None \<Rightarrow> Inr False
                 | Some risk \<Rightarrow> if set (required_inputs p) \<subseteq> fst ` set risk then executable topo p risk d txn else Inr False)
            (\<lambda>ok. case typed of
               Some risk \<Rightarrow>
                 if \<not> ok then Inr (give_up CONTROL_CASE_PROBE (cc_id c) st)
                 else rbind (canonical_probe_key risk d txn) (\<lambda>key. Inr
                   (if key \<in> set (ps_seen st) then st
                    else found_probe key
                      (probe_scenario (''Workbook Control Case ('' @ cc_id c @ '')'')
                        (''Reproduce workbook control case '' @ quoted (cc_id c) @ '' with its expected outputs.'')
                        risk d txn CONTROL_CASE_PROBE src
                        [(''control_case_id'', MText (cc_id c)),
                         (''expected_outputs'', MDict (map (\<lambda>(k, v). (k, MText v)) (cc_expected c)))]
                        CONTROL [''CONTROL'', ''CONTROL_CASE'']) st))
             | None \<Rightarrow> Inr (give_up CONTROL_CASE_PROBE (cc_id c) st))))"

text \<open>Step 2: the policy that the other fields of a boundary probe are taken from.\<close>

definition metadata_source :: "test_scenario \<Rightarrow> calculation_date_source res" where
  "metadata_source sc =
     (case dget (sc_metadata sc) ''calculation_date_source'' of
        Some (MText s) \<Rightarrow> date_source s | Some _ \<Rightarrow> Inl ValueError | None \<Rightarrow> Inl (KeyError ''calculation_date_source''))"

definition date_error :: "exn \<Rightarrow> bool" where
  "date_error e \<longleftrightarrow> (case e of CalculationDateError _ \<Rightarrow> True | _ \<Rightarrow> False)"

definition declared_ref :: string where "declared_ref = ''declared_defaults''"

definition baseline_context :: "ipir_package \<Rightarrow> (date \<times> calculation_date_source \<times> transaction_type) res" where
  "baseline_context p =
     rbind (resolve_calculation_date (Some p) None None) (\<lambda>(d, src).
     rbind (first_transaction p) (\<lambda>txn. Inr (d, src, txn)))"

definition baseline_probe ::
  "topo_sort \<Rightarrow> ipir_package \<Rightarrow> risk_values \<Rightarrow> date \<Rightarrow> calculation_date_source \<Rightarrow> transaction_type \<Rightarrow> probe_state \<Rightarrow>
   ((risk_values \<times> date \<times> calculation_date_source) option \<times> probe_state) res" where
  "baseline_probe topo p risk d src txn st =
     rbind (executable topo p risk d txn) (\<lambda>ok.
       if \<not> ok then Inr (None, give_up BASELINE_PROBE declared_ref st)
       else rbind (canonical_probe_key risk d txn) (\<lambda>key. Inr (Some (risk, d, src),
         found_probe key
           (probe_scenario ''Baseline Control Scenario (declared defaults)''
             (''Baseline policy built only from the package'' @ quote_char @ ''s declared input defaults.'')
             risk d txn BASELINE_PROBE src [(''basis'', MText ''declared_input_defaults'')]
             CONTROL [''CONTROL'', ''BASELINE'']) st)))"

definition base_policy ::
  "topo_sort \<Rightarrow> ipir_package \<Rightarrow> probe_state \<Rightarrow> ((risk_values \<times> date \<times> calculation_date_source) option \<times> probe_state) res" where
  "base_policy topo p st =
     (case ps_ordered st of
        sc # _ \<Rightarrow> rbind (metadata_source sc) (\<lambda>src. Inr (Some (sc_risk sc, sc_date sc, src), st))
      | [] \<Rightarrow>
          rbind (declared_default_risk p) (\<lambda>defaults. case defaults of
            None \<Rightarrow> Inr (None, give_up BASELINE_PROBE declared_ref st)
          | Some risk \<Rightarrow>
              (case baseline_context p of
                 Inl e \<Rightarrow> if date_error e then Inr (None, give_up BASELINE_PROBE declared_ref st) else Inl e
               | Inr (d, src, txn) \<Rightarrow> baseline_probe topo p risk d src txn st)))"

text \<open>Step 3: the candidates, their order and the probes.\<close>

record boundary_candidate =
  bp_kind :: nat
  bp_tier :: nat
  bp_input :: string
  bp_number :: decimal
  bp_value :: pyval
  bp_source :: string
  bp_raw :: pyval

definition point_candidates :: "pricing_input \<Rightarrow> pyval \<times> string \<Rightarrow> boundary_candidate list res" where
  "point_candidates inp = (\<lambda>(raw, source).
     rbind (neighbours inp raw) (\<lambda>vs. rmap_list (\<lambda>(v, tier).
       rbind (probe_decimal v) (\<lambda>d. Inr
         \<lparr>bp_kind = (if d \<noteq> None \<and> \<not> suffix '':exact'' source then 0 else 1), bp_tier = tier, bp_input = pi_id inp,
          bp_number = (case d of None \<Rightarrow> dec_zero | Some x \<Rightarrow> x), bp_value = v, bp_source = source, bp_raw = raw\<rparr>)) vs))"

definition input_candidates :: "ipir_package \<Rightarrow> string \<times> points \<Rightarrow> boundary_candidate list res" where
  "input_candidates p = (\<lambda>(i, pts).
     case dget (index_by pi_id (pkg_inputs p) []) i of
       None \<Rightarrow> Inl (KeyError i)
     | Some inp \<Rightarrow> rbind (rmap_list (point_candidates inp) pts) (\<lambda>cs. Inr (concat cs)))"

definition candidate_rank :: "boundary_candidate \<Rightarrow> string \<times> nat \<times> nat \<times> rat \<times> string" where
  "candidate_rank c = (bp_input c, bp_kind c, bp_tier c, dval (bp_number c), py_str (bp_value c))"

definition interleave :: "boundary_candidate list \<Rightarrow> boundary_candidate list" where
  "interleave cs =
     (let groups = map (\<lambda>i. filter (\<lambda>c. bp_input c = i) cs) (sorted_set (map bp_input cs)) in
      concat (map (\<lambda>rank. map (\<lambda>g. g ! rank) (filter (\<lambda>g. rank < length g) groups))
        [0..<foldr max (map length groups) 0]))"

definition boundary_candidates :: "ipir_package \<Rightarrow> boundary_candidate list res" where
  "boundary_candidates p =
     rbind (rmap_list (input_candidates p) (sort_key fst (collect_boundaries p))) (\<lambda>css.
       Inr (interleave (sort_key candidate_rank (concat css))))"

definition boundary_probe ::
  "topo_sort \<Rightarrow> ipir_package \<Rightarrow> nat \<Rightarrow> risk_values \<Rightarrow> date \<Rightarrow> calculation_date_source \<Rightarrow> transaction_type \<Rightarrow>
   boundary_candidate \<Rightarrow> probe_state \<Rightarrow> probe_state res" where
  "boundary_probe topo p limit base d src txn c st =
     (if limit \<le> length (ps_ordered st) then Inr st
      else
        let risk = dset (bp_input c) (bp_value c) base; shown = bp_input c @ ''='' @ py_str (bp_value c) in
        rbind (canonical_probe_key risk d txn) (\<lambda>key.
          if key \<in> set (ps_seen st) then Inr st
          else rbind (executable topo p risk d txn) (\<lambda>ok. Inr
            (if \<not> ok then give_up BOUNDARY_PROBE shown st
             else found_probe key
               (probe_scenario (''Boundary Probe ('' @ shown @ '')'')
                 (''Exercise '' @ shown @ '' at/adjacent to boundary '' @ py_str (bp_raw c) @ '' ('' @ bp_source c @ '').'')
                 risk d txn BOUNDARY_PROBE src
                 [(''input'', MText (bp_input c)), (''boundary_value'', MText (py_str (bp_raw c))),
                  (''boundary_source'', MText (bp_source c)),
                  (''tier'', MText (if bp_tier c = 1 then ''AT_BOUNDARY'' else ''ADJACENT''))]
                 BOUNDARY [''BOUNDARY'', ''VAL_'' @ py_str (bp_value c), ''INPUT_'' @ bp_input c]) st))))"

definition generate_package_probes :: "topo_sort \<Rightarrow> ipir_package \<Rightarrow> control_case list \<Rightarrow> nat \<Rightarrow> package_probes res" where
  "generate_package_probes topo p cases limit =
     rbind (rfold (control_probe topo p) cases \<lparr>ps_ordered = [], ps_seen = [], ps_given_up = []\<rparr>) (\<lambda>s1.
     rbind (base_policy topo p s1) (\<lambda>(base, s2).
     rbind (case base of
              None \<Rightarrow> Inr s2
            | Some (risk, d, src) \<Rightarrow>
                rbind (first_transaction p) (\<lambda>txn. rbind (boundary_candidates p) (\<lambda>cs.
                  rfold (boundary_probe topo p limit risk d src txn) cs s2))) (\<lambda>s3.
       Inr \<lparr>pb_scenarios = take limit (ps_ordered s3), pb_skipped = ps_given_up s3, pb_base = base\<rparr>)))"

section \<open>boundary\_generator.py\<close>

text \<open>\<open>int(str(v))\<close>.\<close>

definition int_of_text :: "pyval \<Rightarrow> int res" where
  "int_of_text v = (case parse_int (py_str v) of None \<Rightarrow> Inl ValueError | Some i \<Rightarrow> Inr i)"

definition int_bound :: "pyval option \<Rightarrow> int option res" where
  "int_bound v = (case v of None \<Rightarrow> Inr None | Some x \<Rightarrow> rbind (int_of_text x) (\<lambda>i. Inr (Some i)))"

definition generate_range_boundary_values :: "pyval option \<Rightarrow> pyval option \<Rightarrow> (string \<times> int) list res" where
  "generate_range_boundary_values lo hi =
     rbind (int_bound lo) (\<lambda>a. rbind (int_bound hi) (\<lambda>b. Inr
       ((case a of None \<Rightarrow> [] | Some x \<Rightarrow> [(''just_below'', x - 1), (''lower_bound'', x)])
        @ (case (a, b) of (Some x, Some y) \<Rightarrow> [(''interior'', (x + y) div 2)] | _ \<Rightarrow> [])
        @ (case b of None \<Rightarrow> [] | Some y \<Rightarrow> [(''upper_bound'', y), (''just_above'', y + 1)]))))"

section \<open>scorer.py\<close>

definition score_scenario :: "test_scenario \<Rightarrow> nat" where
  "score_scenario sc =
     (let tags = set (sc_tags sc) in
      (if sc_node_ids sc \<noteq> [] then 30 else 0)
      + (if ''BOUNDARY'' \<in> tags then 20 else 0)
      + (if ''INTERACTION'' \<in> tags then 20 else 0)
      + (if ''TEMPORAL'' \<in> tags then 15 + (if ''TARGETED'' \<in> tags then 10 else 0) else 0)
      + (if ''MINIMUM_PREMIUM'' \<in> tags \<or> ''SEQUENCE_ORDER'' \<in> tags then 15 else 0)
      + (if ''CONTROL'' \<in> tags then 10 else 0))"

end
