(* ===== verification/TestCandidates.thy ===== *)
theory TestCandidates
  imports TestPlanning
begin

text \<open>
  From a diff to a test plan, \<open>src/backend/app/engines/testing\<close>: the candidates that aim at the
  reported differences (\<open>candidate_generator.py\<close>), the greedy selection (\<open>optimizer.py\<close>), the planner
  (\<open>planner.py\<close>), and the run of a plan (\<open>engines/reconciliation/runner.py\<close>).

  The code changes the ids and scores of scenario objects in place while several lists refer to
  them.  Here a list of scenarios is the store and a position in it the reference: selecting yields
  positions, renaming changes the store, and every list is read from the store afterwards.
  Percentages, floats rounded to two places in the code, are exact rationals, not rounded.
\<close>

section \<open>candidate\_generator.py\<close>

fun next_day :: "date \<Rightarrow> date res" where
  "next_day (Date y m d) =
     (if d < days_in_month y m then Inr (Date y m (d + 1))
      else if m < 12 then Inr (Date y (m + 1) 1)
      else if y < 9999 then Inr (Date (y + 1) 1 1)
      else Inl OverflowError)"

primrec add_days :: "nat \<Rightarrow> date \<Rightarrow> date res" where
  "add_days 0 d = Inr d"
| "add_days (Suc n) d = rbind (next_day d) (add_days n)"

definition pad3 :: "nat \<Rightarrow> string" where
  "pad3 n = replicate (3 - length (nat_str n)) CHR ''0'' @ nat_str n"

definition derive_base_value :: "pricing_input \<Rightarrow> pyval option res" where
  "derive_base_value inp =
     (case pi_allowed_values inp of
        Some (a # _) \<Rightarrow>
          (if pi_data_type inp = INTEGER_T then rbind (int_of_text (PStr a)) (\<lambda>i. Inr (Some (PInt i)))
           else if pi_data_type inp \<in> {DECIMAL_T, MONEY_T} then rbind (decimal_of_string a) (\<lambda>d. Inr (Some (PDec d)))
           else Inr (Some (PStr a)))
      | _ \<Rightarrow>
        if pi_data_type inp = BOOLEAN_T then Inr (Some (PBool False))
        else if pi_data_type inp \<in> numeric_types then
          (case (pi_minimum inp, pi_maximum inp) of
             (Some lo, Some hi) \<Rightarrow>
               rbind (midpoint lo hi) (\<lambda>m. Inr (Some (if pi_data_type inp = INTEGER_T then PInt (dec_trunc m) else PDec m)))
           | (Some lo, None) \<Rightarrow> Inr (Some lo)
           | (None, Some hi) \<Rightarrow> Inr (Some hi)
           | (None, None) \<Rightarrow> Inr (Some (PInt 0)))
        else if pi_data_type inp \<in> {CATEGORY_T, STRING_T} then Inr (Some (PStr ''DEFAULT''))
        else Inr None)"

definition derive_base_risk :: "ipir_package \<Rightarrow> risk_values res" where
  "derive_base_risk p =
     rfold (\<lambda>inp risk. rbind (derive_base_value inp) (\<lambda>v. Inr (case v of None \<Rightarrow> risk | Some x \<Rightarrow> dset (pi_id inp) x risk)))
       (pkg_inputs p) []"

definition default_probe_date :: "ipir_package \<Rightarrow> date res" where
  "default_probe_date p =
     rbind (add_days 20 (ep_start (pkg_period p))) (\<lambda>d. Inr
       (case ep_end (pkg_period p) of None \<Rightarrow> d | Some e \<Rightarrow> if e < d then e else d))"

definition candidate ::
  "string \<Rightarrow> risk_values \<Rightarrow> date \<Rightarrow> scenario_classification \<Rightarrow> string list \<Rightarrow> string list \<Rightarrow> string list \<Rightarrow> string \<Rightarrow> test_scenario" where
  "candidate name risk d cls dids nodes tags purpose =
     \<lparr>sc_id = [], sc_name = name, sc_risk = risk, sc_date = d, sc_txn = NEW_BUSINESS, sc_purpose = purpose,
       sc_class = cls, sc_diff_ids = dids, sc_group_ids = [], sc_node_ids = nodes, sc_tags = tags, sc_score = 0,
       sc_expected_coverage = [], sc_metadata = []\<rparr>"

text \<open>The counter is the number of candidates so far, plus one.\<close>

definition add_candidate :: "test_scenario \<Rightarrow> test_scenario list \<Rightarrow> test_scenario list" where
  "add_candidate c cs = cs @ [c\<lparr>sc_id := ''RG_CAND_'' @ pad3 (length cs + 1)\<rparr>]"

definition mentions_field :: "string \<Rightarrow> semantic_difference \<Rightarrow> bool" where
  "mentions_field f d \<longleftrightarrow> text_contains f (sd_path d) \<or> text_contains f (sd_node_id d) \<or> text_contains f (sd_description d)"

definition clamp_bound :: "(int \<Rightarrow> int \<Rightarrow> int) \<Rightarrow> pyval option \<Rightarrow> int \<Rightarrow> int res" where
  "clamp_bound f bound v = (case bound of None \<Rightarrow> Inr v | Some b \<Rightarrow> rbind (int_of_text b) (\<lambda>i. Inr (f i v)))"

definition clamp_value :: "pricing_input option \<Rightarrow> int \<Rightarrow> int res" where
  "clamp_value inp v =
     (case inp of
        None \<Rightarrow> Inr v
      | Some i \<Rightarrow> rbind (clamp_bound max (pi_minimum i) v) (clamp_bound min (pi_maximum i)))"

definition range_candidate ::
  "semantic_difference list \<Rightarrow> ipir_package \<Rightarrow> risk_values \<Rightarrow> date \<Rightarrow> string \<Rightarrow> string \<times> int \<Rightarrow> test_scenario list \<Rightarrow>
   test_scenario list res" where
  "range_candidate ds p base d f = (\<lambda>(label, v0) cs.
     rbind (clamp_value (find (\<lambda>i. pi_id i = f) (pkg_inputs p)) v0) (\<lambda>v.
     let hits = filter (mentions_field f) ds; control = label \<in> {''just_below'', ''just_above''} in
     Inr (add_candidate
       (candidate (''Predicate Boundary Scenario ('' @ f @ ''='' @ int_str v @ '' ['' @ label @ ''])'')
         (dset f (PInt v) base) d (if control then CONTROL else BOUNDARY) (map sd_id hits) (map sd_node_id hits)
         [if control then ''CONTROL'' else ''BOUNDARY'', ''VAL_'' @ int_str v]
         (''Test predicate boundary for '' @ f @ '' at value '' @ int_str v @ '' ('' @ label @ '').'')) cs)))"

definition last_value :: "comparison_operator set \<Rightarrow> predicate_clause list \<Rightarrow> pyval option" where
  "last_value ops cs = map_option cl_value (find (\<lambda>c. cl_operator c \<in> ops) (rev cs))"

definition predicate_candidates ::
  "semantic_difference list \<Rightarrow> ipir_package \<Rightarrow> risk_values \<Rightarrow> date \<Rightarrow> impact_predicate \<Rightarrow> test_scenario list \<Rightarrow>
   test_scenario list res" where
  "predicate_candidates ds p base d q cs =
     (let lo = last_value {GTE, GT} (ip_clauses q); hi = last_value {LTE, LT} (ip_clauses q) in
      if ip_clauses q = [] \<or> cl_field (last (ip_clauses q)) = [] \<or> (lo = None \<and> hi = None) then Inr cs
      else rbind (generate_range_boundary_values lo hi) (\<lambda>bounds.
             rfold (range_candidate ds p base d (cl_field (last (ip_clauses q)))) bounds cs))"

definition exact_predicate :: "impact_predicate \<Rightarrow> bool" where
  "exact_predicate q \<longleftrightarrow> ip_clauses q \<noteq> [] \<and> list_all (\<lambda>c. cl_operator c = EQ) (ip_clauses q)"

definition set_clauses :: "predicate_clause list \<Rightarrow> risk_values \<Rightarrow> risk_values" where
  "set_clauses cs risk = fold (\<lambda>c. dset (cl_field c) (cl_value c)) cs risk"

definition witnessed_by :: "impact_predicate list \<Rightarrow> semantic_difference list \<Rightarrow> semantic_difference list" where
  "witnessed_by qs ds = filter (\<lambda>d. \<exists>q \<in> set qs. ip_id q = ''pred_'' @ sd_id d) ds"

definition clause_summary :: "predicate_clause list \<Rightarrow> string" where
  "clause_summary cs = join_with '', '' (map (\<lambda>c. cl_field c @ ''='' @ py_str (cl_value c)) cs)"

definition isolated_candidate ::
  "semantic_difference list \<Rightarrow> risk_values \<Rightarrow> date \<Rightarrow> impact_predicate \<Rightarrow> test_scenario list \<Rightarrow> test_scenario list" where
  "isolated_candidate ds base d q cs =
     (let hits = witnessed_by [q] ds; shown = clause_summary (ip_clauses q) in
      add_candidate (candidate (''Isolated Single-Defect Scenario ('' @ shown @ '')'') (set_clauses (ip_clauses q) base) d
        SINGLE_DEFECT (map sd_id hits) (map sd_node_id hits) [''SINGLE_DEFECT'']
        (''Isolate the effect of '' @ shown @ '' without any other material difference active.'')) cs)"

definition global_ids :: "impact_predicate list \<Rightarrow> semantic_difference list \<Rightarrow> string list" where
  "global_ids qs ds =
     concat (map (\<lambda>d. map (\<lambda>_. sd_id d)
       (filter (\<lambda>q. ip_id q = ''pred_'' @ sd_id d \<and> ip_clauses q = [] \<and> ip_temporal_start q = None) qs)) ds)"

definition tag_baseline :: "string list \<Rightarrow> test_scenario list \<Rightarrow> test_scenario list" where
  "tag_baseline ids cs =
     (case cs of
        c # rest \<Rightarrow> if ids = [] then cs else c\<lparr>sc_diff_ids := sorted_set (sc_diff_ids c @ ids)\<rparr> # rest
      | [] \<Rightarrow> [])"

definition combined_candidate ::
  "semantic_difference list \<Rightarrow> risk_values \<Rightarrow> date \<Rightarrow> impact_predicate list \<Rightarrow> test_scenario list \<Rightarrow> test_scenario list" where
  "combined_candidate ds base d exact cs =
     (if length exact \<le> 1 then cs
      else
        let hits = witnessed_by exact ds in
        add_candidate (candidate ''Combined Multi-Defect Scenario'' (set_clauses (concat (map ip_clauses exact)) base) d
          MULTI_DEFECT (map sd_id hits) (map sd_node_id hits) [''MULTI_DEFECT'']
          ''Verify behavior for a policy where multiple material differences overlap simultaneously.'') cs)"

definition target_start :: "semantic_difference \<Rightarrow> date option res" where
  "target_start d =
     (case sd_right d of
        None \<Rightarrow> Inr None
      | Some v \<Rightarrow>
          if \<not> py_true v then Inr None
          else (case date_fromisoformat (py_str v) of
                  Inr t \<Rightarrow> Inr (Some t) | Inl e \<Rightarrow> if e = ValueError then Inr None else Inl e))"

definition temporal_candidates ::
  "ipir_package \<Rightarrow> risk_values \<Rightarrow> semantic_difference \<Rightarrow> test_scenario list \<Rightarrow> test_scenario list res" where
  "temporal_candidates p base d cs =
     rbind (target_start d) (\<lambda>t. case t of
       None \<Rightarrow> Inr cs
     | Some start \<Rightarrow>
         if \<not> ep_start (pkg_period p) < start then Inr cs
         else rbind (add_days 5 (ep_start (pkg_period p))) (\<lambda>before. rbind (add_days 5 start) (\<lambda>after. Inr
           (add_candidate
             (candidate (''Temporal Effective Date Drift Post-Window ('' @ sd_node_id d @ '')'') base after TEMPORAL
               [sd_id d] [sd_node_id d] [''TEMPORAL'', ''POST_WINDOW'']
               (''Verify pricing behavior after delayed effective date '' @ isoformat start @ ''.''))
             (add_candidate
               (candidate (''Temporal Effective Date Drift Pre-Window ('' @ sd_node_id d @ '')'') base before TEMPORAL
                 [sd_id d] [sd_node_id d] [''TEMPORAL'', ''PRE_WINDOW'']
                 (''Verify pricing behavior prior to delayed effective date '' @ isoformat start @ ''.'')) cs)))))"

definition sequence_risk :: "risk_values \<Rightarrow> risk_values" where
  "sequence_risk base =
     fold (\<lambda>(f, v) risk. if dget risk f = None then risk else dset f v risk)
       [(''dwelling_limit'', PInt 700000), (''multi_policy'', PBool False), (''claims_free'', PBool False)] base"

definition order_candidate ::
  "semantic_difference list \<Rightarrow> risk_values \<Rightarrow> date \<Rightarrow> test_scenario list \<Rightarrow> test_scenario list" where
  "order_candidate ds base d cs =
     (let hits = filter (\<lambda>x. sd_type x = ORDER_CHANGE) ds in
      if hits = [] then cs
      else add_candidate (candidate ''Sequence Order Pre-Minimum Floor Scenario'' (sequence_risk base) d CONSTRAINT_ORDER
        (map sd_id hits) (map sd_node_id hits) [''SEQUENCE'', ''ORDER_MISMATCH'']
        ''Isolate order dependency between minimum premium floor and fee addition.'') cs)"

fun class_value :: "scenario_classification \<Rightarrow> string" where
  "class_value CONTROL = ''CONTROL''"
| "class_value BOUNDARY = ''BOUNDARY''"
| "class_value SINGLE_DEFECT = ''SINGLE_DEFECT''"
| "class_value MULTI_DEFECT = ''MULTI_DEFECT''"
| "class_value TEMPORAL = ''TEMPORAL''"
| "class_value INTERACTION = ''INTERACTION''"
| "class_value CONSTRAINT_ORDER = ''CONSTRAINT_ORDER''"

definition set_metadata :: "nat \<times> test_scenario \<Rightarrow> test_scenario" where
  "set_metadata = (\<lambda>(n, c). c\<lparr>sc_metadata :=
     [(''probe_origin'', MText (if n = 0 then ''BASELINE'' else ''MUTATION'')),
      (''calculation_date'', MText (isoformat (sc_date c))), (''calculation_date_source'', MText ''EXPLICIT''),
      (''provenance'', MDict [(''classification'', MText (class_value (sc_class c))),
        (''target_difference_ids'', MList (sc_diff_ids c)), (''target_node_ids'', MList (sc_node_ids c))])]\<rparr>)"

definition generate_candidate_scenarios ::
  "semantic_difference list \<Rightarrow> impact_predicate list \<Rightarrow> ipir_package \<Rightarrow> risk_values option \<Rightarrow> date option \<Rightarrow>
   test_scenario list res" where
  "generate_candidate_scenarios ds preds p base_risk base_date =
     rbind (case base_risk of Some (x # xs) \<Rightarrow> Inr (x # xs) | _ \<Rightarrow> derive_base_risk p) (\<lambda>base.
     rbind (case base_date of Some d \<Rightarrow> Inr d | None \<Rightarrow> default_probe_date p) (\<lambda>d.
     rbind (rfold (predicate_candidates ds p base d) preds
              (add_candidate (candidate ''Baseline Control Scenario'' base d CONTROL [] [] [''CONTROL'']
                 ''Baseline control scenario to verify baseline pricing engine stability.'') [])) (\<lambda>cs.
     let exact = filter exact_predicate preds in
     rbind (rfold (temporal_candidates p base) (filter (\<lambda>x. sd_type x = EFFECTIVE_DATE_CHANGE) ds)
              (combined_candidate ds base d exact
                (tag_baseline (global_ids preds ds) (fold (isolated_candidate ds base d) exact cs)))) (\<lambda>cs2.
       Inr (map set_metadata (List.enumerate 0 (order_candidate ds base d cs2)))))))"

section \<open>optimizer.py\<close>

record greedy_state =
  gs_selected :: "nat list"
  gs_tags :: "string list"
  gs_nodes :: "string list"
  gs_groups :: "string list"
  gs_combos :: "(probe_key \<times> string) list"

text \<open>One candidate: whether the loop passed it over with \<open>continue\<close>, and the state.\<close>

definition weigh :: "test_scenario list \<Rightarrow> nat \<Rightarrow> greedy_state \<Rightarrow> (bool \<times> greedy_state) res" where
  "weigh cs i st =
     (let c = cs ! i in
      rbind (canonical_probe_key (sc_risk c) (sc_date c) (sc_txn c)) (\<lambda>key.
        let combo = (key, sc_name c) in
        if combo \<in> set (gs_combos st) then Inr (True, st)
        else Inr (False,
          if \<not> set (sc_group_ids c) \<subseteq> set (gs_groups st) \<or> \<not> set (sc_node_ids c) \<subseteq> set (gs_nodes st)
             \<or> \<not> set (sc_tags c) \<subseteq> set (gs_tags st) \<or> ''BOUNDARY'' \<in> set (sc_tags c) \<or> ''CONTROL'' \<in> set (sc_tags c)
          then \<lparr>gs_selected = gs_selected st @ [i], gs_tags = gs_tags st @ sc_tags c, gs_nodes = gs_nodes st @ sc_node_ids c,
                gs_groups = gs_groups st @ sc_group_ids c, gs_combos = combo # gs_combos st\<rparr>
          else st)))"

fun greedy :: "nat \<Rightarrow> test_scenario list \<Rightarrow> nat list \<Rightarrow> greedy_state \<Rightarrow> greedy_state res" where
  "greedy limit cs [] st = Inr st"
| "greedy limit cs (i # js) st =
     rbind (weigh cs i st) (\<lambda>(skipped, st').
       if \<not> skipped \<and> limit \<le> length (gs_selected st') then Inr st' else greedy limit cs js st')"

text \<open>\<open>sc.id = f"RG-{idx:03d}"\<close> for the selected objects, in their order.\<close>

definition rename_selected :: "nat list \<Rightarrow> test_scenario list \<Rightarrow> test_scenario list" where
  "rename_selected sel cs =
     fold (\<lambda>(n, i) cs. cs[i := (cs ! i)\<lparr>sc_id := ''RG-'' @ pad3 n\<rparr>]) (List.enumerate 1 sel) cs"

definition optimize_test_plan :: "test_scenario list \<Rightarrow> nat \<Rightarrow> (test_scenario list \<times> nat list) res" where
  "optimize_test_plan candidates limit =
     (let cs = map (\<lambda>c. c\<lparr>sc_score := score_scenario c\<rparr>) candidates in
      rbind (greedy limit cs (sort_key (\<lambda>i. (- int (sc_score (cs ! i)), sc_id (cs ! i))) [0..<length cs])
               \<lparr>gs_selected = [], gs_tags = [], gs_nodes = [], gs_groups = [], gs_combos = []\<rparr>) (\<lambda>st.
        Inr (rename_selected (gs_selected st) cs, gs_selected st)))"

section \<open>planner.py\<close>

record test_plan =
  tp_package_id :: string
  tp_compared :: "string list"
  tp_diff_ids :: "string list"
  tp_candidate_count :: nat
  tp_selected_count :: nat
  tp_selected :: "test_scenario list"
  tp_candidates :: "test_scenario list"
  tp_reduction_pct :: rat
  tp_coverage_pct :: rat
  tp_covered :: nat
  tp_total_differences :: nat
  tp_origins :: "(string, nat) dict"
  tp_control_cases :: nat
  tp_skipped :: "(string \<times> string) list"
  tp_no_probe :: bool

definition scenario_key :: "test_scenario \<Rightarrow> probe_key res" where
  "scenario_key sc = canonical_probe_key (sc_risk sc) (sc_date sc) (sc_txn sc)"

definition add_unique :: "test_scenario \<Rightarrow> probe_key list \<times> test_scenario list \<Rightarrow> (probe_key list \<times> test_scenario list) res" where
  "add_unique c = (\<lambda>(seen, cs). rbind (scenario_key c) (\<lambda>key.
     Inr (if key \<in> set seen then (seen, cs) else (key # seen, cs @ [c]))))"

definition origin_of :: "test_scenario \<Rightarrow> string res" where
  "origin_of sc = (case dget (sc_metadata sc) ''probe_origin'' of
     Some (MText s) \<Rightarrow> Inr s | Some _ \<Rightarrow> Inl OutOfModel | None \<Rightarrow> Inl (KeyError ''probe_origin''))"

text \<open>The slots: core probes, the mutations chosen, and boundaries in what is left.\<close>

definition mutation_quota :: "nat \<Rightarrow> nat \<Rightarrow> nat" where
  "mutation_quota slots n = (if n \<noteq> 0 \<and> slots \<noteq> 0 then min n (max 1 (slots div 2)) else 0)"

definition choose_mutations :: "test_scenario list \<Rightarrow> nat \<Rightarrow> (test_scenario list \<times> nat list) res" where
  "choose_mutations ms quota = (if quota = 0 then Inr (ms, []) else optimize_test_plan ms quota)"

definition positions :: "('a \<Rightarrow> bool) \<Rightarrow> 'a list \<Rightarrow> nat list" where
  "positions P xs = filter (\<lambda>i. P (xs ! i)) [0..<length xs]"

definition count_origins :: "test_scenario list \<Rightarrow> (string, nat) dict res" where
  "count_origins scs =
     rfold (\<lambda>sc m. rbind (origin_of sc) (\<lambda>t. Inr (dset t (dget_default m t 0 + 1) m))) scs []"

definition select_probes ::
  "test_scenario list \<Rightarrow> test_scenario list \<Rightarrow> nat \<Rightarrow> (test_scenario list \<times> nat list) res" where
  "select_probes probes ms limit =
     rbind (rmap_list origin_of probes) (\<lambda>origins.
     let core = positions (\<lambda>t. t \<in> {''CONTROL_CASE'', ''BASELINE''}) origins;
         boundary = positions (\<lambda>t. t = ''BOUNDARY'') origins; slots = limit - length core in
     rbind (choose_mutations ms (mutation_quota slots (length ms))) (\<lambda>(ms', chosen).
       let sel = core @ take (slots - length chosen) boundary @ map (\<lambda>i. length probes + i) chosen in
       Inr (rename_selected sel (probes @ ms'), sel)))"

definition generate_plan ::
  "topo_sort \<Rightarrow> ipir_package \<Rightarrow> semantic_diff_result \<Rightarrow> impact_analysis \<Rightarrow> control_case list \<Rightarrow> nat \<Rightarrow> test_plan res" where
  "generate_plan topo p diff impact cases limit =
     rbind (generate_package_probes topo p cases limit) (\<lambda>probes.
     rbind (case pb_base probes of
              None \<Rightarrow> Inr []
            | Some (risk, d, src) \<Rightarrow>
                generate_candidate_scenarios (sr_differences diff) (ia_predicates impact) p (Some risk) (Some d)) (\<lambda>cands.
     rbind (rmap_list scenario_key (pb_scenarios probes)) (\<lambda>keys.
     rbind (rfold add_unique cands (keys, [])) (\<lambda>(seen, ms).
     rbind (select_probes (pb_scenarios probes) ms limit) (\<lambda>(store, sel).
       let selected = map (\<lambda>i. store ! i) sel; ids = map sd_id (sr_differences diff);
           covered = length (remdups (concat (map sc_diff_ids selected))) in
       rbind (count_origins selected) (\<lambda>origins. Inr
         \<lparr>tp_package_id = pkg_id p, tp_compared = [sr_left_package_id diff, sr_right_package_id diff], tp_diff_ids = ids,
           tp_candidate_count = length store, tp_selected_count = length selected, tp_selected = selected,
           tp_candidates = store,
           tp_reduction_pct = (if store = [] then 0 else (of_nat (length store) - of_nat (length selected)) / of_nat (length store) * 100),
           tp_coverage_pct = (if ids = [] then 100 else of_nat covered / of_nat (length ids) * 100),
           tp_covered = covered, tp_total_differences = length ids, tp_origins = origins,
           tp_control_cases = length cases, tp_skipped = pb_skipped probes, tp_no_probe = (selected = [])\<rparr>))))))"

section \<open>reconciliation/runner.py\<close>

record assurance_run =
  ar_plan :: test_plan
  ar_results :: "reconciliation_result list"
  ar_matched :: nat
  ar_mismatched :: nat
  ar_reduction_pct :: rat
  ar_difference_pct :: rat
  ar_behavioral_pct :: rat
  ar_premium_pct :: rat
  ar_root_causes :: "root_cause_finding list"
  ar_status :: string
  ar_canonical_id :: string
  ar_target_id :: string
  ar_diff_count :: nat

definition issue_groups :: "(string, string) dict" where
  "issue_groups = [(''roof_age_factor'', ''ISSUE_ROOF_FACTOR''),
     (''claims_free_discount'', ''ISSUE_CLAIMS_FREE_EFFECTIVE_DATE''),
     (''policy_minimum'', ''ISSUE_PREMIUM_SEQUENCE_ORDER''), (''policy_fee'', ''ISSUE_PREMIUM_SEQUENCE_ORDER'')]"

definition run_scenario ::
  "topo_sort \<Rightarrow> networkx \<Rightarrow> ipir_package \<Rightarrow> ipir_package \<Rightarrow> semantic_diff_result \<Rightarrow> test_scenario \<Rightarrow> reconciliation_result res" where
  "run_scenario topo nx canonical target diff sc =
     rbind (evaluate_package topo canonical (sc_risk sc) (sc_date sc) (sc_txn sc) False) (\<lambda>e.
     rbind (target_quote topo (pkg_id target) target (sc_risk sc) (sc_date sc) (sc_txn sc)) (\<lambda>a.
       reconcile nx sc e a diff canonical))"

definition reproduced_groups :: "(reconciliation_result \<Rightarrow> bool) \<Rightarrow> reconciliation_result list \<Rightarrow> string list" where
  "reproduced_groups P rs =
     remdups (concat (map (\<lambda>r. case rr_root_cause r of
         None \<Rightarrow> []
       | Some f \<Rightarrow> (case dget issue_groups (rc_node_id f) of Some g \<Rightarrow> if P r then [g] else [] | None \<Rightarrow> [])) rs))"

definition found_causes :: "reconciliation_result list \<Rightarrow> root_cause_finding list" where
  "found_causes rs =
     map snd (fold (\<lambda>r d. case rr_root_cause r of None \<Rightarrow> d | Some f \<Rightarrow> dset (rc_node_id f) f d) rs [])"

definition run_assurance ::
  "topo_sort \<Rightarrow> networkx \<Rightarrow> (string list \<Rightarrow> string list) \<Rightarrow> ipir_package \<Rightarrow> ipir_package \<Rightarrow> assurance_run res" where
  "run_assurance topo nx iter canonical target =
     rbind (compare_packages canonical target) (\<lambda>diff.
     rbind (analyze nx iter diff canonical) (\<lambda>impact.
     rbind (generate_plan topo canonical diff impact [] 15) (\<lambda>plan.
     rbind (rmap_list (run_scenario topo nx canonical target diff) (tp_selected plan)) (\<lambda>rs.
       let groups = length (remdups (map snd issue_groups)); bad = length (filter (\<lambda>r. \<not> rr_premium_matches r) rs) in
       Inr \<lparr>ar_plan = plan, ar_results = rs, ar_matched = length (filter rr_premium_matches rs), ar_mismatched = bad,
         ar_reduction_pct = tp_reduction_pct plan, ar_difference_pct = tp_coverage_pct plan,
         ar_behavioral_pct = percentage (length (reproduced_groups rr_trace_diverged rs)) groups,
         ar_premium_pct = percentage (length (reproduced_groups (\<lambda>r. \<not> rr_premium_matches r) rs)) groups,
         ar_root_causes = found_causes rs, ar_status = (if 0 < bad then ''FAIL'' else ''PASS''),
         ar_canonical_id = pkg_id canonical, ar_target_id = pkg_id target,
         ar_diff_count = length (sr_differences diff)\<rparr>))))"

end
