(* ===== verification/TestPlanLaws.thy ===== *)
theory TestPlanLaws
  imports TestCandidates ReconciliationLaws
begin

text \<open>What a test plan guarantees: every probe mined from a package is priced by the oracle, probes are
  told apart by their policy, a plan keeps to its budget and tests no policy twice.  And what it does
  not: the candidates aimed at differences are new business whatever the package sells, so a
  package for renewals only is either not assured at all or passes without a test.
\<close>

lemma rmap_list_member: "rmap_list f xs = Inr ys \<Longrightarrow> x \<in> set xs \<Longrightarrow> \<exists>y \<in> set ys. f x = Inr y"
  by (induction xs arbitrary: ys) (auto simp: res_simps)

section \<open>Probes\<close>

definition priced_scenario :: "topo_sort \<Rightarrow> ipir_package \<Rightarrow> test_scenario \<Rightarrow> bool" where
  "priced_scenario topo p sc \<longleftrightarrow> (\<exists>r. evaluate_package topo p (sc_risk sc) (sc_date sc) (sc_txn sc) False = Inr r)"

definition keyed_scenarios :: "test_scenario list \<Rightarrow> probe_key list \<Rightarrow> bool" where
  "keyed_scenarios scs keys \<longleftrightarrow> list_all2 (\<lambda>sc k. scenario_key sc = Inr k) scs keys"

text \<open>The state of the generator: what it has found is priced, told apart and remembered.\<close>

definition probes_ok :: "topo_sort \<Rightarrow> ipir_package \<Rightarrow> probe_state \<Rightarrow> bool" where
  "probes_ok topo p st \<longleftrightarrow> list_all (priced_scenario topo p) (ps_ordered st)
     \<and> (\<exists>keys. keyed_scenarios (ps_ordered st) keys \<and> distinct keys \<and> set keys = set (ps_seen st))"

lemma executable_ok: "executable topo p risk d txn = Inr True \<longleftrightarrow> (\<exists>r. evaluate_package topo p risk d txn False = Inr r)"
  by (simp add: executable_def split: sum.split)

lemma probe_scenario_fields [simp]:
  "sc_risk (probe_scenario n pu r d t og src pv c tg) = r" "sc_date (probe_scenario n pu r d t og src pv c tg) = d"
  "sc_txn (probe_scenario n pu r d t og src pv c tg) = t"
  "origin_of (probe_scenario n pu r d t og src pv c tg) = Inr (origin_value og)"
  "metadata_source (probe_scenario n pu r d t og src pv c tg) = Inr src"
  by (cases src; simp add: probe_scenario_def origin_of_def metadata_source_def date_source_def)+

lemma probes_ok_give_up [simp]: "probes_ok topo p (give_up og ref st) = probes_ok topo p st"
  by (simp add: probes_ok_def give_up_def)

lemma found_probe_fields:
  "ps_ordered (found_probe key sc st) = ps_ordered st @ [sc]" "ps_seen (found_probe key sc st) = List.insert key (ps_seen st)"
  by (simp_all add: found_probe_def)

lemma probes_ok_found:
  assumes "probes_ok topo p st" "canonical_probe_key risk d txn = Inr key" "key \<notin> set (ps_seen st)"
    and "executable topo p risk d txn = Inr True"
  shows "probes_ok topo p (found_probe key (probe_scenario n pu risk d txn og src pv c tg) st)"
proof -
  obtain keys where keys: "keyed_scenarios (ps_ordered st) keys" "distinct keys" "set keys = set (ps_seen st)"
      "list_all (priced_scenario topo p) (ps_ordered st)"
    using assms(1) by (auto simp: probes_ok_def)
  have "scenario_key (probe_scenario n pu risk d txn og src pv c tg) = Inr key" using assms(2) by (simp add: scenario_key_def)
  then have "keyed_scenarios (ps_ordered st @ [probe_scenario n pu risk d txn og src pv c tg]) (keys @ [key])"
    using keys(1) unfolding keyed_scenarios_def by (intro list_all2_appendI) simp_all
  moreover have "distinct (keys @ [key])" "set (keys @ [key]) = set (List.insert key (ps_seen st))"
    using keys(2,3) assms(3) by simp_all
  moreover have "list_all (priced_scenario topo p) (ps_ordered st @ [probe_scenario n pu risk d txn og src pv c tg])"
    using keys(4) assms(4) by (simp add: priced_scenario_def executable_ok)
  ultimately show ?thesis unfolding probes_ok_def found_probe_fields by blast
qed

lemma control_probe_ok:
  assumes "probes_ok topo p st" "control_probe topo p c st = Inr st'"
  shows "probes_ok topo p st'"
proof (cases "case_context p c")
  case (Inl e)
  then show ?thesis using assms by (auto simp: control_probe_def split: if_splits)
next
  case (Inr x)
  obtain d src txn where x: "x = (d, src, txn)" by (cases x)
  obtain typed where typed: "type_inputs (index_by pi_id (pkg_inputs p) [])
       (filter (\<lambda>(k, _). k \<notin> {''effective_date'', ''transaction_type''}) (cc_inputs c)) [] = Inr typed"
    using assms(2) by (auto simp: control_probe_def Inr x res_simps)
  show ?thesis
  proof (cases typed)
    case None
    then show ?thesis using assms typed by (auto simp: control_probe_def Inr x)
  next
    case (Some risk)
    then obtain ok where ok: "(if set (required_inputs p) \<subseteq> fst ` set risk then executable topo p risk d txn else Inr False) = Inr ok"
      using assms(2) typed by (auto simp: control_probe_def Inr x res_simps)
    show ?thesis
    proof (cases ok)
      case False
      then show ?thesis using assms typed Some ok by (auto simp: control_probe_def Inr x)
    next
      case True
      then obtain key where key: "canonical_probe_key risk d txn = Inr key"
        using assms(2) typed Some ok by (auto simp: control_probe_def Inr x res_simps)
      have "executable topo p risk d txn = Inr True" using ok True by (simp split: if_splits)
      then show ?thesis
        using assms typed Some ok True key probes_ok_found [OF assms(1) key]
        by (auto simp: control_probe_def Inr x split: if_splits)
    qed
  qed
qed

lemma boundary_probe_ok:
  assumes "probes_ok topo p st" "boundary_probe topo p limit base d src txn c st = Inr st'"
  shows "probes_ok topo p st'"
proof (cases "limit \<le> length (ps_ordered st)")
  case True
  then show ?thesis using assms by (simp add: boundary_probe_def)
next
  case False
  then obtain key where key: "canonical_probe_key (dset (bp_input c) (bp_value c) base) d txn = Inr key"
    using assms(2) by (auto simp: boundary_probe_def Let_def res_simps)
  show ?thesis
  proof (cases "key \<in> set (ps_seen st)")
    case True
    then show ?thesis using assms False key by (auto simp: boundary_probe_def Let_def)
  next
    case fresh: False
    then obtain ok where ok: "executable topo p (dset (bp_input c) (bp_value c) base) d txn = Inr ok"
      using assms(2) False key by (auto simp: boundary_probe_def Let_def res_simps)
    then show ?thesis
      using assms False key fresh probes_ok_found [OF assms(1) key fresh]
      by (cases ok) (auto simp: boundary_probe_def Let_def)
  qed
qed

lemma base_policy_empty:
  assumes "base_policy topo p st = Inr (base, st')" "ps_ordered st = []"
  obtains "base = None" "st' = give_up BASELINE_PROBE declared_ref st"
  | risk d src txn key n pu pv tg where "base = Some (risk, d, src)" "canonical_probe_key risk d txn = Inr key"
      "executable topo p risk d txn = Inr True"
      "st' = found_probe key (probe_scenario n pu risk d txn BASELINE_PROBE src pv CONTROL tg) st"
proof -
  obtain defaults where df: "declared_default_risk p = Inr defaults"
    using assms by (auto simp: base_policy_def res_simps)
  show thesis
  proof (cases defaults)
    case None
    then show thesis using that(1) assms df by (simp add: base_policy_def)
  next
    case (Some risk)
    show thesis
    proof (cases "baseline_context p")
      case (Inl e)
      then show thesis using that(1) assms df Some by (cases "date_error e") (simp_all add: base_policy_def)
    next
      case (Inr x)
      obtain d src txn where x: "x = (d, src, txn)" by (cases x)
      have run: "baseline_probe topo p risk d src txn st = Inr (base, st')"
        using assms df Some Inr x by (simp add: base_policy_def)
      then obtain ok where ok: "executable topo p risk d txn = Inr ok" by (auto simp: baseline_probe_def res_simps)
      show thesis
      proof (cases ok)
        case False
        then show thesis using that(1) run ok by (simp add: baseline_probe_def)
      next
        case True
        then obtain key where key: "canonical_probe_key risk d txn = Inr key"
          using run ok by (auto simp: baseline_probe_def res_simps)
        then show thesis
          using run ok True by (auto simp: baseline_probe_def intro!: that(2) [of risk d src txn key])
      qed
    qed
  qed
qed

lemma base_policy_ok:
  assumes "probes_ok topo p st" "base_policy topo p st = Inr (base, st')"
  shows "probes_ok topo p st'"
proof (cases "ps_ordered st")
  case Nil
  then have fresh: "key \<notin> set (ps_seen st)" for key using assms(1) by (auto simp: probes_ok_def keyed_scenarios_def)
  show ?thesis
  proof (rule base_policy_empty [OF assms(2) Nil])
    assume "st' = give_up BASELINE_PROBE declared_ref st"
    then show ?thesis using assms(1) by simp
  next
    fix risk d src txn key n pu pv tg
    assume new: "canonical_probe_key risk d txn = Inr key" "executable topo p risk d txn = Inr True"
      "st' = found_probe key (probe_scenario n pu risk d txn BASELINE_PROBE src pv CONTROL tg) st"
    show ?thesis unfolding new(3) by (rule probes_ok_found [OF assms(1) new(1) fresh new(2)])
  qed
qed (use assms in \<open>auto simp: base_policy_def res_simps\<close>)

lemma generated_probes:
  assumes "generate_package_probes topo p cases limit = Inr r"
  obtains st where "probes_ok topo p st" "pb_scenarios r = take limit (ps_ordered st)"
proof -
  let ?s0 = "\<lparr>ps_ordered = [], ps_seen = [], ps_given_up = []\<rparr>"
  obtain s1 base s2 s3 where run: "rfold (control_probe topo p) cases ?s0 = Inr s1" "base_policy topo p s1 = Inr (base, s2)"
    "(case base of None \<Rightarrow> Inr s2
       | Some (risk, d, src) \<Rightarrow> rbind (first_transaction p) (\<lambda>txn. rbind (boundary_candidates p) (\<lambda>cs.
            rfold (boundary_probe topo p limit risk d src txn) cs s2))) = Inr s3"
    "pb_scenarios r = take limit (ps_ordered s3)"
    using assms by (auto simp: generate_package_probes_def res_simps)
  have "probes_ok topo p ?s0" by (simp add: probes_ok_def keyed_scenarios_def)
  with run(1) have "probes_ok topo p s1" by (rule rfold_invariant) (rule control_probe_ok)
  then have "probes_ok topo p s2" using run(2) by (rule base_policy_ok)
  then have "probes_ok topo p s3"
    using run(3) by (auto simp: res_simps split: option.splits elim!: rfold_invariant intro: boundary_probe_ok)
  then show thesis using that run(4) by blast
qed

text \<open>C32: Every probe mined from a package is sound: the oracle prices the package for it, no two
  probes are the same policy on the same date for the same transaction, whatever the order of their
  inputs and however their numbers are written, and there are at most as many as asked for.\<close>

theorem probes_executable:
  assumes "generate_package_probes topo p cases limit = Inr r"
  shows "length (pb_scenarios r) \<le> limit \<and> list_all (priced_scenario topo p) (pb_scenarios r)
    \<and> (\<exists>keys. rmap_list scenario_key (pb_scenarios r) = Inr keys \<and> distinct keys)"
proof -
  obtain st where "probes_ok topo p st" "pb_scenarios r = take limit (ps_ordered st)" by (rule generated_probes [OF assms])
  then obtain keys where st: "pb_scenarios r = take limit (ps_ordered st)" "list_all (priced_scenario topo p) (ps_ordered st)"
      "keyed_scenarios (ps_ordered st) keys" "distinct keys"
    by (auto simp: probes_ok_def)
  then have "rmap_list scenario_key (pb_scenarios r) = Inr (take limit keys)"
    by (simp add: rmap_list_Inr_iff keyed_scenarios_def list_all2_takeI)
  moreover have "distinct (take limit keys)" using st(4) by simp
  moreover have "list_all (priced_scenario topo p) (pb_scenarios r)"
    using st(1,2) by (auto simp: list_all_iff dest: in_set_takeD)
  ultimately show ?thesis using st(1) by auto
qed

section \<open>The selection\<close>

text \<open>What the optimizer and the planner change of a scenario: its id and its score.\<close>

definition same_test :: "test_scenario \<Rightarrow> test_scenario \<Rightarrow> bool" where
  "same_test a b \<longleftrightarrow> b = a\<lparr>sc_id := sc_id b, sc_score := sc_score b\<rparr>"

lemma same_test_refl [simp]: "same_test a a"
  by (simp add: same_test_def)

lemma same_test_fields:
  assumes "same_test a b"
  shows "sc_risk b = sc_risk a" "sc_date b = sc_date a" "sc_txn b = sc_txn a" "sc_metadata b = sc_metadata a"
    "scenario_key b = scenario_key a"
proof -
  have b: "b = a\<lparr>sc_id := sc_id b, sc_score := sc_score b\<rparr>" using assms by (simp add: same_test_def)
  show "sc_risk b = sc_risk a" by (subst b) simp
  moreover show "sc_date b = sc_date a" by (subst b) simp
  moreover show "sc_txn b = sc_txn a" by (subst b) simp
  ultimately show "scenario_key b = scenario_key a" by (simp add: scenario_key_def)
  show "sc_metadata b = sc_metadata a" by (subst b) simp
qed

lemma same_test_update [simp]: "same_test a (a\<lparr>sc_id := i\<rparr>)" "same_test a (a\<lparr>sc_score := s\<rparr>)"
  by (simp_all add: same_test_def)

lemma same_test_trans: "same_test a b \<Longrightarrow> same_test b c \<Longrightarrow> same_test a c"
  by (cases a; cases b; cases c) (auto simp: same_test_def)

definition same_tests :: "test_scenario list \<Rightarrow> test_scenario list \<Rightarrow> bool" where
  "same_tests \<equiv> list_all2 same_test"

lemma same_tests_refl [simp]: "same_tests cs cs"
  by (simp add: same_tests_def list.rel_refl)

lemma same_tests_trans: "same_tests a b \<Longrightarrow> same_tests b c \<Longrightarrow> same_tests a c"
  unfolding same_tests_def by (rule list_all2_trans [OF same_test_trans])

lemma same_tests_keyed: "same_tests as bs \<Longrightarrow> keyed_scenarios as keys \<Longrightarrow> keyed_scenarios bs keys"
  unfolding same_tests_def keyed_scenarios_def
proof (induction arbitrary: keys rule: list_all2_induct)
  case (Cons a as b bs)
  then show ?case by (cases keys) (simp_all add: same_test_fields(5))
qed simp

lemma same_tests_update: "same_tests cs (cs[i := (cs ! i)\<lparr>sc_id := s\<rparr>])"
  unfolding same_tests_def
  by (cases "i < length cs") (auto simp: list_all2_conv_all_nth nth_list_update simp del: length_0_conv)

lemma rename_same: "same_tests cs (rename_selected sel cs)"
proof -
  have "same_tests cs (fold (\<lambda>(n, i) cs. cs[i := (cs ! i)\<lparr>sc_id := ''RG-'' @ pad3 n\<rparr>]) xs cs)" for xs cs
  proof (induction xs arbitrary: cs)
    case (Cons x xs)
    obtain n i where x: "x = (n, i)" by (cases x)
    have "same_tests cs (cs[i := (cs ! i)\<lparr>sc_id := ''RG-'' @ pad3 n\<rparr>])" by (rule same_tests_update)
    with Cons [of "cs[i := (cs ! i)\<lparr>sc_id := ''RG-'' @ pad3 n\<rparr>]"] show ?case
      unfolding x fold_simps prod.case o_apply by (rule same_tests_trans [rotated])
  qed simp
  then show ?thesis by (simp add: rename_selected_def)
qed

lemma same_tests_length: "same_tests as bs \<Longrightarrow> length bs = length as"
  by (simp add: same_tests_def list_all2_lengthD)

lemma rename_ids:
  assumes "distinct sel" "set sel \<subseteq> {..<length cs}"
  shows "map (\<lambda>i. sc_id (rename_selected sel cs ! i)) sel = map (\<lambda>n. ''RG-'' @ pad3 n) [1..<Suc (length sel)]"
proof -
  let ?f = "\<lambda>(n, i) cs. cs[i := (cs ! i)\<lparr>sc_id := ''RG-'' @ pad3 n\<rparr>]"
  have "map (\<lambda>i. sc_id (fold ?f (List.enumerate m xs) cs ! i)) xs = map (\<lambda>n. ''RG-'' @ pad3 n) [m..<m + length xs]
      \<and> (\<forall>i. i \<notin> set xs \<longrightarrow> fold ?f (List.enumerate m xs) cs ! i = cs ! i)"
    if "distinct xs" "set xs \<subseteq> {..<length cs}" for xs m cs
    using that
  proof (induction xs arbitrary: m cs)
    case (Cons x xs)
    let ?cs = "cs[x := (cs ! x)\<lparr>sc_id := ''RG-'' @ pad3 m\<rparr>]"
    have IH: "map (\<lambda>i. sc_id (fold ?f (List.enumerate (Suc m) xs) ?cs ! i)) xs = map (\<lambda>n. ''RG-'' @ pad3 n) [Suc m..<Suc m + length xs]"
        "\<forall>i. i \<notin> set xs \<longrightarrow> fold ?f (List.enumerate (Suc m) xs) ?cs ! i = ?cs ! i"
      using Cons.IH [of ?cs "Suc m"] Cons.prems by auto
    have "fold ?f (List.enumerate (Suc m) xs) ?cs ! x = ?cs ! x" using IH(2) Cons.prems(1) by simp
    then have "sc_id (fold ?f (List.enumerate (Suc m) xs) ?cs ! x) = ''RG-'' @ pad3 m" using Cons.prems(2) by simp
    moreover have "[m..<m + length (x # xs)] = m # [Suc m..<Suc m + length xs]"
      using upt_conv_Cons [of m "m + length (x # xs)"] by simp
    ultimately show ?case using IH by (auto simp: nth_list_update)
  qed simp
  from this [OF assms, of 1] show ?thesis by (simp add: rename_selected_def)
qed

text \<open>The greedy loop never takes more than its limit, and takes a first candidate that has a tag.\<close>

lemma weigh_selected:
  assumes "weigh cs i st = Inr (b, st')"
  shows "gs_selected st' = gs_selected st \<or> (gs_selected st' = gs_selected st @ [i] \<and> \<not> b)"
  using assms by (auto simp: weigh_def Let_def res_simps split: if_splits)

lemma greedy_selected:
  assumes "greedy limit cs js st = Inr st'" "distinct (gs_selected st @ js)" "length (gs_selected st) < limit"
  shows "distinct (gs_selected st') \<and> set (gs_selected st') \<subseteq> set (gs_selected st @ js)
    \<and> length (gs_selected st') \<le> limit \<and> length (gs_selected st) \<le> length (gs_selected st')"
  using assms
proof (induction js arbitrary: st)
  case (Cons i js)
  obtain b s1 where w: "weigh cs i st = Inr (b, s1)" using Cons.prems(1) by (auto simp: res_simps)
  show ?case
  proof (cases "\<not> b \<and> limit \<le> length (gs_selected s1)")
    case True
    then show ?thesis using Cons.prems w weigh_selected [OF w] by auto
  next
    case False
    then have "greedy limit cs js s1 = Inr st'" using Cons.prems(1) w by auto
    moreover have "distinct (gs_selected s1 @ js)" "length (gs_selected s1) < limit"
        "set (gs_selected s1) \<subseteq> insert i (set (gs_selected st))" "length (gs_selected st) \<le> length (gs_selected s1)"
      using weigh_selected [OF w] False Cons.prems(2,3) by auto
    ultimately show ?thesis using Cons.IH [of s1] by force
  qed
qed simp

lemma optimize_selected:
  assumes "optimize_test_plan ms limit = Inr (ms', sel)" "0 < limit"
  shows "same_tests ms ms'" "distinct sel" "set sel \<subseteq> {..<length ms}" "length sel \<le> limit"
proof -
  let ?cs = "map (\<lambda>c. c\<lparr>sc_score := score_scenario c\<rparr>) ms"
  obtain st where st: "greedy limit ?cs (sort_key (\<lambda>i. (- int (sc_score (?cs ! i)), sc_id (?cs ! i))) [0..<length ?cs])
       \<lparr>gs_selected = [], gs_tags = [], gs_nodes = [], gs_groups = [], gs_combos = []\<rparr> = Inr st"
     "ms' = rename_selected (gs_selected st) ?cs" "sel = gs_selected st"
    using assms(1) by (auto simp: optimize_test_plan_def Let_def res_simps)
  from greedy_selected [OF st(1)] assms(2)
  show "distinct sel" "set sel \<subseteq> {..<length ms}" "length sel \<le> limit" by (auto simp: st(3))
  have "same_tests ms ?cs" by (simp add: same_tests_def list_all2_conv_all_nth)
  then show "same_tests ms ms'" unfolding st(2) using rename_same by (rule same_tests_trans)
qed

lemma greedy_takes_first:
  assumes "greedy limit cs (i # js) \<lparr>gs_selected = [], gs_tags = [], gs_nodes = [], gs_groups = [], gs_combos = []\<rparr> = Inr st"
    and "sc_tags (cs ! i) \<noteq> []" "distinct (i # js)" "0 < limit"
  shows "gs_selected st \<noteq> []"
proof -
  let ?st = "\<lparr>gs_selected = [], gs_tags = [], gs_nodes = [], gs_groups = [], gs_combos = []\<rparr>"
  obtain b s1 where w: "weigh cs i ?st = Inr (b, s1)" using assms(1) by (auto simp: res_simps)
  then have s1: "gs_selected s1 = [i]" using assms(2) by (auto simp: weigh_def Let_def res_simps)
  then have b: "\<not> b" using weigh_selected [OF w] by simp
  have run: "(if limit \<le> 1 then Inr s1 else greedy limit cs js s1) = Inr st" using assms(1) w b s1 by simp
  show ?thesis
  proof (cases "limit \<le> 1")
    case True
    then show ?thesis using run s1 by simp
  next
    case False
    then have "greedy limit cs js s1 = Inr st" using run by simp
    from greedy_selected [OF this] show ?thesis using s1 assms(3) False by auto
  qed
qed

lemma optimize_nonempty:
  assumes "optimize_test_plan ms limit = Inr (ms', sel)" "0 < limit" "ms \<noteq> []" "\<And>c. c \<in> set ms \<Longrightarrow> sc_tags c \<noteq> []"
  shows "sel \<noteq> []"
proof -
  define cs where "cs = map (\<lambda>c. c\<lparr>sc_score := score_scenario c\<rparr>) ms"
  define order where "order = sort_key (\<lambda>i. (- int (sc_score (cs ! i)), sc_id (cs ! i))) [0..<length cs]"
  obtain st where st: "greedy limit cs order \<lparr>gs_selected = [], gs_tags = [], gs_nodes = [], gs_groups = [], gs_combos = []\<rparr> = Inr st"
      "sel = gs_selected st"
    using assms(1) unfolding cs_def order_def optimize_test_plan_def Let_def res_simps by auto
  have order: "set order = {..<length ms}" "distinct order" by (auto simp: order_def cs_def)
  obtain i js where ij: "order = i # js" using assms(3) order(1) by (cases order) auto
  then have i: "i < length ms" using order by auto
  then have "sc_tags (cs ! i) \<noteq> []" using assms(4) by (simp add: cs_def)
  then show ?thesis using greedy_takes_first [of limit cs i js st] st order(2) assms(2) unfolding ij by simp
qed

section \<open>The plan\<close>

lemma add_unique_step:
  "scenario_key c = Inr key \<Longrightarrow>
     rfold add_unique (c # cs) (seen, ms) = rfold add_unique cs (if key \<in> set seen then (seen, ms) else (key # seen, ms @ [c]))"
  by (simp add: add_unique_def)

lemma add_unique_loop:
  assumes "rfold add_unique cands (keys, []) = Inr (seen, ms)" "distinct keys"
  obtains kms where "keyed_scenarios ms kms" "distinct (keys @ kms)" "set seen = set (keys @ kms)" "set ms \<subseteq> set cands"
    "\<And>c. c \<in> set cands \<Longrightarrow> \<exists>k \<in> set seen. scenario_key c = Inr k"
proof -
  have "\<exists>kms. keyed_scenarios ms kms \<and> distinct (keys @ kms) \<and> set seen = set (keys @ kms) \<and> set ms \<subseteq> set ms0 \<union> set cs
      \<and> (\<forall>c \<in> set cs. \<exists>k \<in> set seen. scenario_key c = Inr k) \<and> set seen0 \<subseteq> set seen"
    if "rfold add_unique cs (seen0, ms0) = Inr (seen, ms)" "keyed_scenarios ms0 kms0" "distinct (keys @ kms0)"
       "set seen0 = set (keys @ kms0)" for cs seen0 ms0 kms0
    using that
  proof (induction cs arbitrary: seen0 ms0 kms0)
    case (Cons c cs)
    obtain key where key: "scenario_key c = Inr key" using Cons.prems(1) by (auto simp: add_unique_def res_simps)
    show ?case
    proof (cases "key \<in> set seen0")
      case True
      then have "rfold add_unique cs (seen0, ms0) = Inr (seen, ms)" using Cons.prems(1) unfolding add_unique_step [OF key] by simp
      from Cons.IH [OF this Cons.prems(2-4)] True key show ?thesis by fastforce
    next
      case False
      then have run: "rfold add_unique cs (key # seen0, ms0 @ [c]) = Inr (seen, ms)" using Cons.prems(1) unfolding add_unique_step [OF key] by simp
      have "keyed_scenarios (ms0 @ [c]) (kms0 @ [key])"
        using Cons.prems(2) key unfolding keyed_scenarios_def by (intro list_all2_appendI) simp_all
      moreover have "distinct (keys @ kms0 @ [key])" "set (key # seen0) = set (keys @ kms0 @ [key])"
        using Cons.prems(3,4) False by auto
      ultimately show ?thesis using Cons.IH [OF run] key by fastforce
    qed
  qed (auto simp: keyed_scenarios_def)
  from this [OF assms(1), of "[]"] assms(2) that show thesis by (auto simp: keyed_scenarios_def)
qed

text \<open>The positions selected, in the store of the probes followed by the mutations.\<close>

lemma positions_props [simp]: "distinct (positions P xs)" "set (positions P xs) = {i. i < length xs \<and> P (xs ! i)}"
  by (auto simp: positions_def)

lemma select_probes_props:
  assumes "select_probes probes ms limit = Inr (store, sel)" "length probes \<le> limit"
  obtains origins where "rmap_list origin_of probes = Inr origins" "same_tests (probes @ ms) store" "distinct sel" "set sel \<subseteq> {..<length store}" "length sel \<le> limit"
    "map (\<lambda>i. sc_id (store ! i)) sel = map (\<lambda>n. ''RG-'' @ pad3 n) [1..<Suc (length sel)]"
    "\<And>i. i < length probes \<Longrightarrow> origins ! i \<in> {''CONTROL_CASE'', ''BASELINE''} \<Longrightarrow> i \<in> set sel"
proof -
  obtain origins where o: "rmap_list origin_of probes = Inr origins" using assms(1) by (auto simp: select_probes_def res_simps)
  define core where "core = positions (\<lambda>t. t \<in> {''CONTROL_CASE'', ''BASELINE''}) origins"
  define boundary where "boundary = positions (\<lambda>t. t = ''BOUNDARY'') origins"
  define slots where "slots = limit - length core"
  define quota where "quota = mutation_quota slots (length ms)"
  obtain ms' chosen where ch: "choose_mutations ms quota = Inr (ms', chosen)"
     and sel: "sel = core @ take (slots - length chosen) boundary @ map (\<lambda>i. length probes + i) chosen"
     and store: "store = rename_selected sel (probes @ ms')"
    using assms(1) by (auto simp: select_probes_def o core_def boundary_def slots_def quota_def Let_def res_simps)
  have len: "length origins = length probes" using o by (rule rmap_list_length)
  have ms: "same_tests ms ms'" "distinct chosen" "set chosen \<subseteq> {..<length ms}" "length chosen \<le> quota"
    using ch optimize_selected [of ms quota ms' chosen] by (auto simp: choose_mutations_def split: if_splits)
  have quota: "quota \<le> slots" by (auto simp: quota_def mutation_quota_def)
  have core: "distinct core" "\<And>i. i \<in> set core \<longleftrightarrow> i < length probes \<and> origins ! i \<in> {''CONTROL_CASE'', ''BASELINE''}"
    using len by (simp_all add: core_def)
  have bnd: "distinct boundary" "\<And>i. i \<in> set boundary \<longleftrightarrow> i < length probes \<and> origins ! i = ''BOUNDARY''"
    using len by (simp_all add: boundary_def)
  have sub: "set core \<subseteq> {..<length probes}" using core(2) by auto
  then have "length core \<le> length probes" using core(1) card_mono [of "{..<length probes}" "set core"] by (simp add: distinct_card)
  then have "length core + slots \<le> limit" using assms(2) by (simp add: slots_def)
  then have "length sel \<le> limit" using ms(4) quota by (simp add: sel)
  moreover have dist: "distinct sel"
    using core bnd ms(2) set_take_subset [of "slots - length chosen" boundary]
    by (auto simp: sel distinct_map inj_on_def dest: in_set_takeD)
  moreover have "length ms' = length ms" using ms(1) by (rule same_tests_length)
  then have within: "set sel \<subseteq> {..<length (probes @ ms')}"
    using sub bnd(2) ms(3) by (auto simp: sel dest: in_set_takeD)
  moreover have "same_tests (probes @ ms) (probes @ ms')"
    using ms(1) unfolding same_tests_def by (intro list_all2_appendI) (simp_all add: list.rel_refl)
  then have same: "same_tests (probes @ ms) store" unfolding store by (rule same_tests_trans [OF _ rename_same])
  moreover have "length store = length (probes @ ms')" unfolding store by (rule same_tests_length [OF rename_same])
  moreover have "map (\<lambda>i. sc_id (store ! i)) sel = map (\<lambda>n. ''RG-'' @ pad3 n) [1..<Suc (length sel)]"
    unfolding store by (rule rename_ids [OF dist within])
  moreover have "i \<in> set sel" if "i < length probes" "origins ! i \<in> {''CONTROL_CASE'', ''BASELINE''}" for i
    using that core(2) by (simp add: sel)
  ultimately show thesis using that o by simp
qed

text \<open>The parts a plan is made of.\<close>

lemma plan_parts:
  assumes "generate_plan topo p diff impact cases limit = Inr plan" "generate_package_probes topo p cases limit = Inr r"
  obtains cands keys kms ms store sel where
    "(case pb_base r of None \<Rightarrow> Inr []
      | Some (risk, d, src) \<Rightarrow>
          generate_candidate_scenarios (sr_differences diff) (ia_predicates impact) p (Some risk) (Some d)) = Inr cands"
    "keyed_scenarios (pb_scenarios r) keys" "distinct keys"
    "keyed_scenarios ms kms" "distinct (keys @ kms)" "set ms \<subseteq> set cands"
    "\<And>c. c \<in> set cands \<Longrightarrow> \<exists>k \<in> set (keys @ kms). scenario_key c = Inr k"
    "select_probes (pb_scenarios r) ms limit = Inr (store, sel)" "tp_selected plan = map (\<lambda>i. store ! i) sel"
    "tp_candidates plan = store"
proof -
  obtain cands keys seen ms store sel where parts:
    "(case pb_base r of None \<Rightarrow> Inr []
      | Some (risk, d, src) \<Rightarrow>
          generate_candidate_scenarios (sr_differences diff) (ia_predicates impact) p (Some risk) (Some d)) = Inr cands"
    "rmap_list scenario_key (pb_scenarios r) = Inr keys" "rfold add_unique cands (keys, []) = Inr (seen, ms)"
    "select_probes (pb_scenarios r) ms limit = Inr (store, sel)" "tp_selected plan = map (\<lambda>i. store ! i) sel"
    "tp_candidates plan = store"
    using assms by (auto simp: generate_plan_def res_simps Let_def)
  have dk: "distinct keys" using probes_executable [OF assms(2)] parts(2) by auto
  obtain kms where km: "keyed_scenarios ms kms" "distinct (keys @ kms)" "set seen = set (keys @ kms)" "set ms \<subseteq> set cands"
      "\<And>c. c \<in> set cands \<Longrightarrow> \<exists>k \<in> set seen. scenario_key c = Inr k"
    using add_unique_loop [OF parts(3) dk] by blast
  have kk: "keyed_scenarios (pb_scenarios r) keys" using parts(2) by (simp add: keyed_scenarios_def rmap_list_Inr_iff)
  show thesis by (rule that [OF parts(1) kk dk km(1,2,4) _ parts(4-6)]) (use km(3,5) in auto)
qed

text \<open>C33: A test plan keeps to its budget and tests no policy twice.  It selects at most as many
  scenarios as asked for, numbered RG-001, RG-002 and so on in their order, no two of them the same
  policy, date and transaction; and every control case or baseline among the probes of the package
  is one of them.\<close>

theorem plan_within_budget:
  assumes plan: "generate_plan topo p diff impact cases limit = Inr plan"
    and probes: "generate_package_probes topo p cases limit = Inr r"
  shows "length (tp_selected plan) \<le> limit
    \<and> map sc_id (tp_selected plan) = map (\<lambda>n. ''RG-'' @ pad3 n) [1..<Suc (length (tp_selected plan))]
    \<and> (\<exists>keys. rmap_list scenario_key (tp_selected plan) = Inr keys \<and> distinct keys)
    \<and> (\<forall>sc \<in> set (pb_scenarios r). origin_of sc \<in> {Inr ''CONTROL_CASE'', Inr ''BASELINE''} \<longrightarrow>
        (\<exists>sel \<in> set (tp_selected plan). same_test sc sel))"
proof (rule plan_parts [OF plan probes])
  fix cands keys kms ms store sel
  assume parts: "keyed_scenarios (pb_scenarios r) keys" "keyed_scenarios ms kms" "distinct (keys @ kms)"
    "select_probes (pb_scenarios r) ms limit = Inr (store, sel)" "tp_selected plan = map (\<lambda>i. store ! i) sel"
  have "length (pb_scenarios r) \<le> limit" using probes_executable [OF probes] by blast
  obtain origins where s: "rmap_list origin_of (pb_scenarios r) = Inr origins" "same_tests (pb_scenarios r @ ms) store" "distinct sel"
      "set sel \<subseteq> {..<length store}" "length sel \<le> limit"
      "map (\<lambda>i. sc_id (store ! i)) sel = map (\<lambda>n. ''RG-'' @ pad3 n) [1..<Suc (length sel)]"
      "\<And>i. i < length (pb_scenarios r) \<Longrightarrow> origins ! i \<in> {''CONTROL_CASE'', ''BASELINE''} \<Longrightarrow> i \<in> set sel"
    by (rule select_probes_props [OF parts(4) \<open>length (pb_scenarios r) \<le> limit\<close>]) blast
  have "keyed_scenarios (pb_scenarios r @ ms) (keys @ kms)"
    using parts(1,2) unfolding keyed_scenarios_def by (rule list_all2_appendI)
  with s(2) have store: "keyed_scenarios store (keys @ kms)" by (rule same_tests_keyed)
  then have len: "length store = length (keys @ kms)" by (simp add: keyed_scenarios_def list_all2_lengthD)
  have "rmap_list scenario_key (tp_selected plan) = Inr (map (\<lambda>i. (keys @ kms) ! i) sel)"
    using store s(4) unfolding parts(5) by (auto simp: rmap_list_Inr_iff keyed_scenarios_def list_all2_map1 list_all2_map2 list_all2_same dest: list_all2_nthD)
  moreover have "inj_on (\<lambda>i. (keys @ kms) ! i) {..<length (keys @ kms)}" using parts(3) by (rule inj_on_nth) simp
  then have "distinct (map (\<lambda>i. (keys @ kms) ! i) sel)"
    using s(3,4) unfolding len by (auto simp: distinct_map intro: inj_on_subset)
  moreover have "\<exists>t \<in> set (tp_selected plan). same_test sc t"
    if sc: "sc \<in> set (pb_scenarios r)" "origin_of sc \<in> {Inr ''CONTROL_CASE'', Inr ''BASELINE''}" for sc
  proof -
    obtain i where i: "i < length (pb_scenarios r)" "sc = pb_scenarios r ! i" using sc(1) by (auto simp: in_set_conv_nth)
    have "origin_of sc = Inr (origins ! i)" using s(1) i by (auto simp: rmap_list_Inr_iff dest: list_all2_nthD)
    then have "i \<in> set sel" using s(7) i(1) sc(2) by simp
    moreover have "same_test sc (store ! i)"
      using list_all2_nthD [OF s(2) [unfolded same_tests_def], of i] i by (simp add: nth_append)
    ultimately show ?thesis unfolding parts(5) by auto
  qed
  ultimately show ?thesis using s(5,6) parts(5) by (auto simp: comp_def)
qed

section \<open>Renewals\<close>

text \<open>Every candidate aimed at a difference is new business, and has a tag.\<close>

definition new_business :: "test_scenario list \<Rightarrow> bool" where
  "new_business cs \<longleftrightarrow> cs \<noteq> [] \<and> list_all (\<lambda>c. sc_txn c = NEW_BUSINESS \<and> sc_tags c \<noteq> []) cs"

lemma new_business_add: "tags \<noteq> [] \<Longrightarrow> cs = [] \<or> new_business cs \<Longrightarrow> new_business (add_candidate (candidate n r d c dids ns tags pu) cs)"
  by (auto simp: new_business_def add_candidate_def candidate_def)

lemma new_business_steps:
  "new_business cs \<Longrightarrow> range_candidate ds p base d f b cs = Inr cs' \<Longrightarrow> new_business cs'"
  "new_business cs \<Longrightarrow> new_business (isolated_candidate ds base d q cs)"
  "new_business cs \<Longrightarrow> new_business (combined_candidate ds base d exact cs)"
  "new_business cs \<Longrightarrow> new_business (order_candidate ds base d cs)"
  "new_business cs \<Longrightarrow> temporal_candidates p base x cs = Inr cs' \<Longrightarrow> new_business cs'"
  by (auto simp: range_candidate_def isolated_candidate_def combined_candidate_def order_candidate_def temporal_candidates_def
      Let_def res_simps new_business_add split: prod.splits option.splits if_splits)

lemma new_business_predicate:
  "new_business cs \<Longrightarrow> predicate_candidates ds p base d q cs = Inr cs' \<Longrightarrow> new_business cs'"
  by (auto simp: predicate_candidates_def Let_def res_simps split: if_splits elim!: rfold_invariant intro: new_business_steps(1))

lemma new_business_fold: "new_business cs \<Longrightarrow> new_business (fold (isolated_candidate ds base d) qs cs)"
  by (induction qs arbitrary: cs) (simp_all add: new_business_steps(2))

lemma new_business_tag: "new_business cs \<Longrightarrow> new_business (tag_baseline ids cs)"
  by (cases cs) (simp_all add: new_business_def tag_baseline_def)

lemma set_metadata_fields: "sc_txn (set_metadata (n, c)) = sc_txn c" "sc_tags (set_metadata (n, c)) = sc_tags c"
  by (simp_all add: set_metadata_def)

lemma new_business_metadata: "new_business (map set_metadata (List.enumerate n cs)) = new_business cs"
proof -
  have "list_all (\<lambda>c. sc_txn c = NEW_BUSINESS \<and> sc_tags c \<noteq> []) (map set_metadata (List.enumerate n cs)) =
      list_all (\<lambda>c. sc_txn c = NEW_BUSINESS \<and> sc_tags c \<noteq> []) cs"
    by (induction cs arbitrary: n) (simp_all add: set_metadata_fields)
  then show ?thesis by (cases cs) (simp_all add: new_business_def)
qed

lemma candidates_new_business:
  assumes "generate_candidate_scenarios ds preds p base_risk base_date = Inr cs"
  shows "new_business cs"
proof -
  obtain base d cs1 cs2 where steps:
    "rfold (predicate_candidates ds p base d) preds (add_candidate (candidate ''Baseline Control Scenario'' base d CONTROL [] [] [''CONTROL'']
                 ''Baseline control scenario to verify baseline pricing engine stability.'') []) = Inr cs1"
    "rfold (temporal_candidates p base) (filter (\<lambda>x. sd_type x = EFFECTIVE_DATE_CHANGE) ds)
       (combined_candidate ds base d (filter exact_predicate preds)
          (tag_baseline (global_ids preds ds) (fold (isolated_candidate ds base d) (filter exact_predicate preds) cs1))) = Inr cs2"
    "cs = map set_metadata (List.enumerate 0 (order_candidate ds base d cs2))"
    using assms by (auto simp: generate_candidate_scenarios_def res_simps Let_def)
  have "new_business cs1" by (rule rfold_invariant [OF steps(1)]) (simp_all add: new_business_add new_business_predicate)
  then have "new_business (combined_candidate ds base d (filter exact_predicate preds)
          (tag_baseline (global_ids preds ds) (fold (isolated_candidate ds base d) (filter exact_predicate preds) cs1)))"
    by (intro new_business_steps(3) new_business_tag new_business_fold)
  with steps(2) have "new_business cs2" by (rule rfold_invariant) (rule new_business_steps(5))
  then show ?thesis unfolding steps(3) new_business_metadata by (rule new_business_steps(4))
qed

lemma key_transaction: "scenario_key sc = Inr key \<Longrightarrow> snd (snd key) = transaction_text (sc_txn sc)"
  by (auto simp: scenario_key_def canonical_probe_key_def res_simps)

lemma transaction_text_inject [simp]: "transaction_text a = transaction_text b \<longleftrightarrow> a = b"
  by (cases a; cases b) (simp_all add: transaction_text_def)

lemma priced_transaction: "priced_scenario topo p sc \<Longrightarrow> sc_txn sc \<in> set (pkg_transaction_types p)"
  by (auto simp: priced_scenario_def evaluate_package_def split: if_splits)

text \<open>Without control cases, at most the first probe is a baseline; and without a base policy there is none.\<close>

lemma probes_without_cases:
  assumes "generate_package_probes topo p [] limit = Inr r"
  shows "pb_base r = None \<longrightarrow> pb_scenarios r = []"
    and "pb_scenarios r \<noteq> [] \<longrightarrow> (\<forall>sc \<in> set (tl (pb_scenarios r)). origin_of sc = Inr ''BOUNDARY'')"
proof -
  obtain base s2 s3 where run: "base_policy topo p \<lparr>ps_ordered = [], ps_seen = [], ps_given_up = []\<rparr> = Inr (base, s2)"
    "(case base of None \<Rightarrow> Inr s2
       | Some (risk, d, src) \<Rightarrow> rbind (first_transaction p) (\<lambda>txn. rbind (boundary_candidates p) (\<lambda>cs.
            rfold (boundary_probe topo p limit risk d src txn) cs s2))) = Inr s3"
    "r = \<lparr>pb_scenarios = take limit (ps_ordered s3), pb_skipped = ps_given_up s3, pb_base = base\<rparr>"
    using assms by (auto simp: generate_package_probes_def res_simps)
  have s2: "(base = None \<longrightarrow> ps_ordered s2 = []) \<and> (base \<noteq> None \<longrightarrow> (\<exists>sc. ps_ordered s2 = [sc]))"
    using run(1) by (rule base_policy_empty) (simp_all add: give_up_def found_probe_def)
  then show "pb_base r = None \<longrightarrow> pb_scenarios r = []" using run(2,3) by auto
  have "ps_ordered s3 \<noteq> [] \<longrightarrow> (\<forall>sc \<in> set (tl (ps_ordered s3)). origin_of sc = Inr ''BOUNDARY'')"
  proof (cases base)
    case None
    then show ?thesis using s2 run(2) by simp
  next
    case (Some b)
    then obtain sc0 risk d src txn cs where b: "ps_ordered s2 = [sc0]" "rfold (boundary_probe topo p limit risk d src txn) cs s2 = Inr s3"
      using s2 run(2) by (cases b) (auto simp: res_simps)
    have "ps_ordered s3 \<noteq> [] \<and> (\<forall>sc \<in> set (tl (ps_ordered s3)). origin_of sc = Inr ''BOUNDARY'')"
      by (rule rfold_invariant [OF b(2)])
        (auto simp: b(1) boundary_probe_def give_up_def found_probe_def Let_def res_simps split: if_splits)
    then show ?thesis by blast
  qed
  then show "pb_scenarios r \<noteq> [] \<longrightarrow> (\<forall>sc \<in> set (tl (pb_scenarios r)). origin_of sc = Inr ''BOUNDARY'')"
    using run(3) by (cases "ps_ordered s3"; cases limit) (auto dest: in_set_takeD)
qed

text \<open>Where there is room for a mutation, some mutation is chosen.\<close>

lemma mutation_selected:
  assumes "select_probes probes ms limit = Inr (store, sel)" "ms \<noteq> []" "\<And>c. c \<in> set ms \<Longrightarrow> sc_tags c \<noteq> []"
    and "rmap_list origin_of probes = Inr origins" "\<forall>t \<in> set (tl origins). t = ''BOUNDARY''" "2 \<le> limit"
  shows "\<exists>i < length ms. length probes + i \<in> set sel"
proof -
  define core where "core = positions (\<lambda>t. t \<in> {''CONTROL_CASE'', ''BASELINE''}) origins"
  define quota where "quota = mutation_quota (limit - length core) (length ms)"
  define slots where "slots = limit - length core"
  define boundary where "boundary = positions (\<lambda>t. t = ''BOUNDARY'') origins"
  obtain ms' chosen where ch: "choose_mutations ms quota = Inr (ms', chosen)"
      and sel: "sel = core @ take (slots - length chosen) boundary @ map (\<lambda>i. length probes + i) chosen"
    using assms(1) by (auto simp: select_probes_def assms(4) core_def boundary_def slots_def quota_def Let_def res_simps)
  have "set core \<subseteq> {0}"
  proof
    fix i
    assume i: "i \<in> set core"
    show "i \<in> {0}"
    proof (cases i)
      case (Suc j)
      then have "origins ! i \<in> set (tl origins)" using i by (cases origins) (auto simp: core_def)
      then show ?thesis using i assms(5) by (auto simp: core_def)
    qed simp
  qed
  then have "card (set core) \<le> 1" using card_mono [of "{0}" "set core"] by simp
  moreover have "distinct core" by (simp add: core_def)
  ultimately have "length core \<le> 1" using distinct_card by metis
  then have "0 < quota" using assms(2,6) by (simp add: quota_def mutation_quota_def)
  then have opt: "optimize_test_plan ms quota = Inr (ms', chosen)" using ch by (simp add: choose_mutations_def)
  have "chosen \<noteq> []" using optimize_nonempty [OF opt \<open>0 < quota\<close> assms(2,3)] .
  then obtain i where "i \<in> set chosen" by (cases chosen) auto
  then show ?thesis using optimize_selected(3) [OF opt \<open>0 < quota\<close>] unfolding sel by auto
qed

lemma new_business_selected:
  assumes "generate_plan topo p diff impact [] limit = Inr plan" "2 \<le> limit"
    and no_new: "NEW_BUSINESS \<notin> set (pkg_transaction_types p)"
  shows "tp_selected plan = [] \<or> (\<exists>sc \<in> set (tp_selected plan). sc_txn sc = NEW_BUSINESS)"
proof -
  obtain r where r: "generate_package_probes topo p [] limit = Inr r" using assms(1) by (auto simp: generate_plan_def res_simps)
  have sound: "length (pb_scenarios r) \<le> limit" "list_all (priced_scenario topo p) (pb_scenarios r)"
    using probes_executable [OF r] by blast+
  show ?thesis
  proof (rule plan_parts [OF assms(1) r])
    fix cands keys kms ms store sel
    assume parts: "(case pb_base r of None \<Rightarrow> Inr []
      | Some (risk, d, src) \<Rightarrow>
          generate_candidate_scenarios (sr_differences diff) (ia_predicates impact) p (Some risk) (Some d)) = Inr cands"
      "keyed_scenarios (pb_scenarios r) keys" "keyed_scenarios ms kms" "set ms \<subseteq> set cands"
      "\<And>c. c \<in> set cands \<Longrightarrow> \<exists>k \<in> set (keys @ kms). scenario_key c = Inr k"
      "select_probes (pb_scenarios r) ms limit = Inr (store, sel)" "tp_selected plan = map (\<lambda>i. store ! i) sel"
    obtain origins where o: "rmap_list origin_of (pb_scenarios r) = Inr origins" "same_tests (pb_scenarios r @ ms) store"
        "set sel \<subseteq> {..<length store}"
      by (rule select_probes_props [OF parts(6) sound(1)]) blast
    show ?thesis
    proof (cases "pb_base r")
      case None
      then have "pb_scenarios r = []" "ms = []" using probes_without_cases(1) [OF r] parts(1,4) by auto
      then have "store = []" using o(2) by (simp add: same_tests_def)
      then show ?thesis using o(3) parts(7) by simp
    next
      case (Some b)
      then have nb: "new_business cands" using parts(1) by (auto intro: candidates_new_business split: prod.splits)
      then obtain c where c: "c \<in> set cands" "sc_txn c = NEW_BUSINESS" by (cases cands) (auto simp: new_business_def)
      obtain k where k: "scenario_key c = Inr k" "k \<in> set (keys @ kms)" using parts(5) [OF c(1)] by blast
      have "k \<notin> set keys"
      proof
        assume "k \<in> set keys"
        then obtain i where i: "i < length keys" "k = keys ! i" by (auto simp: in_set_conv_nth)
        then have at: "scenario_key (pb_scenarios r ! i) = Inr k" "i < length (pb_scenarios r)"
          using parts(2) by (auto simp: keyed_scenarios_def list_all2_conv_all_nth)
        have "transaction_text (sc_txn (pb_scenarios r ! i)) = transaction_text (sc_txn c)"
          using key_transaction [OF at(1)] key_transaction [OF k(1)] by simp
        then have "sc_txn (pb_scenarios r ! i) = NEW_BUSINESS" using c(2) by simp
        moreover have "priced_scenario topo p (pb_scenarios r ! i)" using sound(2) at(2) by (simp add: list_all_length)
        ultimately show False using priced_transaction [of topo p "pb_scenarios r ! i"] no_new by simp
      qed
      then have "ms \<noteq> []" using k(2) parts(3) by (auto simp: keyed_scenarios_def)
      moreover have tags: "sc_tags m \<noteq> [] \<and> sc_txn m = NEW_BUSINESS" if "m \<in> set ms" for m
        using that parts(4) nb by (auto simp: new_business_def list_all_iff)
      moreover have "\<forall>t \<in> set (tl origins). t = ''BOUNDARY''"
      proof (cases "pb_scenarios r")
        case (Cons sc scs)
        then obtain t ts where "origins = t # ts" "rmap_list origin_of scs = Inr ts" using o(1) by (auto simp: res_simps)
        moreover have "\<forall>sc \<in> set scs. origin_of sc = Inr ''BOUNDARY''" using probes_without_cases(2) [OF r] Cons by simp
        ultimately show ?thesis
          by (auto simp: rmap_list_Inr_iff list_all2_conv_all_nth in_set_conv_nth) (metis Inr_inject nth_mem)
      qed (use o(1) in simp)
      ultimately obtain i where i: "i < length ms" "length (pb_scenarios r) + i \<in> set sel"
        using mutation_selected [OF parts(6) _ _ o(1) _ assms(2)] by blast
      have "same_test (ms ! i) (store ! (length (pb_scenarios r) + i))"
        using o(2) i(1) list_all2_nthD [of same_test "pb_scenarios r @ ms" store "length (pb_scenarios r) + i"]
        by (simp add: same_tests_def)
      then have "sc_txn (store ! (length (pb_scenarios r) + i)) = NEW_BUSINESS"
        using tags [of "ms ! i"] i(1) by (simp add: same_test_fields(3))
      then show ?thesis using i(2) parts(7) by auto
    qed
  qed
qed

text \<open>C34: A package that is sold for renewals only is never assured.  The candidates of the plan are
  new business, which such a package refuses to price, so the run of the pipeline raises an exception;
  unless no base policy can be built, and then it reports PASS with no scenario run.\<close>

theorem renewal_only_never_tested:
  assumes no_new: "NEW_BUSINESS \<notin> set (pkg_transaction_types p)"
    and run: "run_assurance topo nx iter p q = Inr run"
  shows "tp_selected (ar_plan run) = [] \<and> ar_results run = [] \<and> ar_status run = ''PASS''"
proof -
  obtain diff impact plan rs where parts: "generate_plan topo p diff impact [] 15 = Inr plan" "ar_plan run = plan"
      "rmap_list (run_scenario topo nx p q diff) (tp_selected plan) = Inr rs" "ar_results run = rs"
      "ar_status run = (if 0 < length (filter (\<lambda>r. \<not> rr_premium_matches r) rs) then ''FAIL'' else ''PASS'')"
    using run by (auto simp: run_assurance_def res_simps Let_def)
  have "sc_txn sc \<noteq> NEW_BUSINESS" if sc: "sc \<in> set (tp_selected plan)" for sc
  proof -
    obtain x where "run_scenario topo nx p q diff sc = Inr x"
      using rmap_list_member [OF parts(3) sc] by blast
    then have "priced_scenario topo p sc" by (auto simp: run_scenario_def priced_scenario_def res_simps)
    then show ?thesis using priced_transaction no_new by metis
  qed
  then have "tp_selected plan = []" using new_business_selected [OF parts(1) _ no_new] by auto
  then show ?thesis using parts by simp
qed

end
