(* ===== verification/TestPlanSamples.thy ===== *)
theory TestPlanSamples
  imports TestPlanLaws
begin

text \<open>
  Concrete packages that the theorems of TestPlanLaws are applied to: one with a single probe, and
  two that are sold for renewals only, price every policy differently and pass.
\<close>

section \<open>A package with one probe\<close>

definition plain_package :: ipir_package where
  "plain_package = sample_package\<lparr>pkg_inputs := [sample_input\<lparr>pi_maximum := None\<rparr>], pkg_tables := [],
     pkg_calculations := [flat_calculation]\<rparr>"

definition new_roof :: risk_values where "new_roof = [(''roof_age'', PInt 0)]"

lemma plain_key: "\<exists>key. canonical_probe_key new_roof (Date 2026 1 1) NEW_BUSINESS = Inr key"
proof -
  have "is_ok (canonical_probe_key new_roof (Date 2026 1 1) NEW_BUSINESS)" by code_simp
  then show ?thesis by (cases "canonical_probe_key new_roof (Date 2026 1 1) NEW_BUSINESS") auto
qed

lemma plain_defaults: "declared_default_risk plain_package = Inr (Some new_roof)"
  by (simp add: declared_default_risk_def plain_package_def sample_package_def sample_input_def declared_default_def
     numeric_types_def coerce_value_def probe_decimal_def dec_of_int_def dec_floor_def dec_ceil_def new_roof_def)

lemma plain_context: "baseline_context plain_package = Inr (Date 2026 1 1, PACKAGE_EFFECTIVE_START, NEW_BUSINESS)"
  by (simp add: baseline_context_def resolve_calculation_date_def plain_package_def sample_package_def first_transaction_def
     less_date_def)

lemma plain_boundaries: "boundary_candidates plain_package = Inr []" "first_transaction plain_package = Inr NEW_BUSINESS"
  by (simp_all add: boundary_candidates_def collect_boundaries_def plain_package_def sample_package_def interleave_def
     sorted_set_def first_transaction_def)

lemma plain_premium:
  "\<exists>r. evaluate_package kahn_sort plain_package new_roof (Date 2026 1 1) NEW_BUSINESS False = Inr r"
  by (simp add: evaluate_package_def resolve_nodes_def plain_package_def flat_calculation_def sample_package_def new_roof_def
    validate_risk_inputs_def sample_input_def validate_risk_input_def supplied_value_def convert_input_def check_bounds_def
    topological_sort_calculations_def dependency_edges_def kahn_sort.simps ready_def List.map_filter_def
    set_input_def set_constant_def is_active_def less_date_def final_result_def step_node_def run_node_def
    active_modifiers_def active_constraints_def active_fees_def node_modifiers_def node_constraints_def node_fees_def
    put_def trace_to_def add_step_def initial_state_def dec_eval
    sample_calculation_def resolve_ref_def apply_operator_def node_rounding_def apply_rounding_def)

lemma plain_probes:
  "\<exists>r sc. generate_package_probes kahn_sort plain_package [] 15 = Inr r \<and> pb_scenarios r = [sc]
     \<and> pb_base r = Some (new_roof, Date 2026 1 1, PACKAGE_EFFECTIVE_START) \<and> origin_of sc = Inr ''BASELINE''
     \<and> sc_risk sc = new_roof \<and> sc_date sc = Date 2026 1 1 \<and> sc_txn sc = NEW_BUSINESS \<and> sc_diff_ids sc = []"
proof -
  obtain key where "canonical_probe_key new_roof (Date 2026 1 1) NEW_BUSINESS = Inr key" using plain_key ..
  moreover have "executable kahn_sort plain_package new_roof (Date 2026 1 1) NEW_BUSINESS = Inr True"
    using plain_premium by (simp add: executable_ok)
  ultimately show ?thesis
    by (simp add: generate_package_probes_def base_policy_def plain_defaults plain_context baseline_probe_def plain_boundaries
        found_probe_def) (simp add: probe_scenario_def)
qed

lemma probes_executable_witness:
  "\<exists>r. generate_package_probes kahn_sort plain_package [] 15 = Inr r \<and> pb_scenarios r \<noteq> []
     \<and> list_all (priced_scenario kahn_sort plain_package) (pb_scenarios r)"
proof -
  obtain r sc where r: "generate_package_probes kahn_sort plain_package [] 15 = Inr r" "pb_scenarios r = [sc]"
    using plain_probes by blast
  show ?thesis using probes_executable [OF r(1)] r by auto
qed

definition no_impact :: impact_analysis where
  "no_impact = \<lparr>ia_package_id = ''p'', ia_changed_nodes = [], ia_directly_affected = [], ia_downstream_affected = [],
     ia_affected_outputs = [], ia_affected_coverages = [], ia_dependency_paths = [], ia_predicates = [],
     ia_total_differences = 0, ia_diff_equal = True\<rparr>"

lemma plain_plan:
  "\<exists>plan. generate_plan kahn_sort plain_package no_difference no_impact [] 15 = Inr plan"
proof -
  obtain key where key: "canonical_probe_key new_roof (Date 2026 1 1) NEW_BUSINESS = Inr key" using plain_key ..
  obtain r sc where r: "generate_package_probes kahn_sort plain_package [] 15 = Inr r" "pb_scenarios r = [sc]"
      "pb_base r = Some (new_roof, Date 2026 1 1, PACKAGE_EFFECTIVE_START)" "origin_of sc = Inr ''BASELINE''"
      "sc_risk sc = new_roof" "sc_date sc = Date 2026 1 1" "sc_txn sc = NEW_BUSINESS" "sc_diff_ids sc = []"
    using plain_probes by blast
  obtain c where c: "generate_candidate_scenarios [] [] plain_package (Some new_roof) (Some (Date 2026 1 1)) = Inr [c]"
      "sc_risk c = new_roof" "sc_date c = Date 2026 1 1" "sc_txn c = NEW_BUSINESS"
    by (simp add: generate_candidate_scenarios_def new_roof_def add_candidate_def order_candidate_def combined_candidate_def
        global_ids_def tag_baseline_def set_metadata_def candidate_def)
  have "scenario_key sc = Inr key" "scenario_key c = Inr key" using key r(5-7) c(2-4) by (simp_all add: scenario_key_def)
  moreover have "origin_of (sc\<lparr>sc_id := i\<rparr>) = Inr ''BASELINE''" for i using r(4) by (simp add: origin_of_def)
  ultimately show ?thesis
    using r c(1)
    by (simp add: generate_plan_def no_difference_def no_impact_def add_unique_def select_probes_def positions_def
        choose_mutations_def mutation_quota_def rename_selected_def count_origins_def Let_def)
qed

lemma plan_within_budget_witness:
  "\<exists>plan. generate_plan kahn_sort plain_package no_difference no_impact [] 15 = Inr plan
     \<and> length (tp_selected plan) \<le> 15 \<and> tp_selected plan \<noteq> []"
proof -
  obtain r sc where r: "generate_package_probes kahn_sort plain_package [] 15 = Inr r" "pb_scenarios r = [sc]"
      "origin_of sc = Inr ''BASELINE''"
    using plain_probes by blast
  obtain plan where plan: "generate_plan kahn_sort plain_package no_difference no_impact [] 15 = Inr plan"
    using plain_plan by blast
  show ?thesis using plan_within_budget [OF plan r(1)] plan r(2,3) by auto
qed

section \<open>Two packages for renewals only\<close>

definition open_input :: pricing_input where
  "open_input = sample_input\<lparr>pi_data_type := CATEGORY_T, pi_minimum := None, pi_maximum := None\<rparr>"

definition renewal_package :: "decimal \<Rightarrow> ipir_package" where
  "renewal_package rate = plain_package\<lparr>pkg_transaction_types := [RENEWAL], pkg_inputs := [open_input],
     pkg_constants := [\<lparr>const_id = ''base_rate'', const_name = ''Base'', const_value = rate,
        const_description = None, const_period = None, const_provenance = None\<rparr>]\<rparr>"

definition low_rate :: ipir_package where "low_rate = renewal_package (Dec False 100010 (-2))"
definition high_rate :: ipir_package where "high_rate = renewal_package (Dec False 200010 (-2))"

lemma renewal_compared:
  "\<exists>diff d. compare_packages low_rate high_rate = Inr diff \<and> sr_differences diff = [d] \<and> sd_type d = VALUE_CHANGE"
  by (simp add: compare_packages_def package_differences_def low_rate_def high_rate_def renewal_package_def plain_package_def
      sample_package_def for_keys_def all_keys_def sorted_set_def input_difference_def on_both_def constant_difference_def
      compare_effective_periods_def open_input_def sample_input_def dval.simps node_difference_def)

lemma renewal_run:
  "\<exists>run. run_assurance kahn_sort graph_tools id low_rate high_rate = Inr run"
proof -
  obtain diff d where diff: "compare_packages low_rate high_rate = Inr diff" "sr_differences diff = [d]" "sd_type d = VALUE_CHANGE"
    using renewal_compared by blast
  have "map fst (dg_nodes (build_graph low_rate)) = [''roof_age'', ''base_rate'', ''premium'', ''total'']
      \<and> dg_edges (build_graph low_rate) = [(''premium'', ''total'')]"
    by (simp add: build_graph_def low_rate_def renewal_package_def plain_package_def sample_package_def add_made touch_node_def
        open_input_def sample_input_def flat_calculation_def sample_calculation_def)
  moreover have "kahn_sort [''roof_age'', ''base_rate'', ''premium'', ''total''] [(''premium'', ''total'')] \<noteq> None"
    by (simp add: kahn_sort.simps ready_def)
  ultimately have "graph_of graph_tools low_rate = Inr (build_graph low_rate)"
    by (simp add: graph_of_def graph_tools_def Let_def del: kahn_sort.simps)
  then obtain impact where impact: "analyze graph_tools id diff low_rate = Inr impact"
    by (simp add: analyze_def diff(2,3) derive_predicate_def Let_def)
  have "declared_default_risk low_rate = Inr None"
    by (simp add: declared_default_risk_def low_rate_def renewal_package_def plain_package_def open_input_def sample_input_def
        declared_default_def numeric_types_def)
  then have "generate_package_probes kahn_sort low_rate [] 15 = Inr \<lparr>pb_scenarios = [],
      pb_skipped = [(''BASELINE'', ''declared_defaults'')], pb_base = None\<rparr>"
    by (simp add: generate_package_probes_def base_policy_def give_up_def declared_ref_def)
  then obtain plan where "generate_plan kahn_sort low_rate diff impact [] 15 = Inr plan" "tp_selected plan = []"
    by (simp add: generate_plan_def select_probes_def positions_def choose_mutations_def mutation_quota_def
        rename_selected_def count_origins_def Let_def)
  then show ?thesis using diff(1) impact by (simp add: run_assurance_def Let_def)
qed

lemma renewal_only_never_tested_witness:
  "\<exists>run diff. run_assurance kahn_sort graph_tools id low_rate high_rate = Inr run
     \<and> compare_packages low_rate high_rate = Inr diff \<and> sr_differences diff \<noteq> [] \<and> ar_status run = ''PASS''"
proof -
  obtain run where run: "run_assurance kahn_sort graph_tools id low_rate high_rate = Inr run" using renewal_run ..
  have "NEW_BUSINESS \<notin> set (pkg_transaction_types low_rate)" by (simp add: low_rate_def renewal_package_def)
  from renewal_only_never_tested [OF this run] run renewal_compared show ?thesis by fastforce
qed

end
