(* ===== verification/WorkbookCells.thy ===== *)
theory WorkbookCells
  imports IpirLowering DependencyImpact
begin

text \<open>
  Reading a rate-plan workbook, \<open>src/backend/app/ingestion/workbook_v1\<close>: the sheet contract
  (\<open>sheets.py\<close>), the scan for live formulas and the small language of operands and conditions
  (\<open>formulas.py\<close>), the escaping of displayed text (\<open>sanitize.py\<close>) and the JSON of control cases.

  openpyxl is a library: a workbook is what it hands over, the named sheets with their rows of cells,
  each with its coordinate.  A cell is empty, a text, or another value (a number, a bool, a date), of
  which the code only ever uses \<open>str(value)\<close>; that text is the cell here.  \<open>json.loads\<close> is modelled for
  ASCII text; a number with a fraction or an exponent, which Python reads as a float, and an escape
  above 127 are outside the model (\<open>OutOfModel\<close>).
\<close>

section \<open>Cells, rows and sheets (sheets.py)\<close>

datatype cell_value = CText string | CValue string

type_synonym cell = "cell_value option"

fun cell_str :: "cell_value \<Rightarrow> string" where
  "cell_str (CText s) = s"
| "cell_str (CValue s) = s"

type_synonym grid = "(string \<times> cell) list list"

type_synonym workbook = "(string \<times> grid) list"

type_synonym row = "(string, cell) dict"

definition reject :: "string \<Rightarrow> (string \<times> string) list list \<Rightarrow> 'a res" where
  "reject code details = Inl (WorkbookRejectionError code details)"

definition at_cell :: "string \<Rightarrow> string \<Rightarrow> (string \<times> string) list list" where
  "at_cell sheet cell = [[(''sheet'', sheet), (''cell'', cell)]]"

definition required_sheets :: "(string \<times> string list) list" where
  "required_sheets =
     [(''RG_METADATA'', [''key'', ''value'']),
      (''RG_INPUTS'', [''id'', ''name'', ''data_type'', ''required'', ''minimum'', ''maximum'', ''allowed_values'']),
      (''RG_CONSTANTS'', [''id'', ''name'', ''value'']),
      (''RG_TABLES'', [''table_id'', ''dimension_id'', ''min'', ''max'', ''include_min'', ''include_max'', ''match_value'',
         ''result_value'', ''priority'']),
      (''RG_CALCULATIONS'', [''node_id'', ''operator'', ''operand_1'', ''operand_2'', ''rounding_mode'', ''scale'']),
      (''RG_OUTPUTS'', [''output_id'', ''source_ref'', ''currency'']),
      (''RG_CONTROL_CASES'', [''case_id'', ''input'', ''expected_output'', ''tolerance''])]"

text \<open>\<open>_header_index\<close>: of two columns with one header the later one counts.\<close>

definition header_index :: "grid \<Rightarrow> (string, nat) dict" where
  "header_index g =
     (case g of
        [] \<Rightarrow> []
      | first # _ \<Rightarrow>
          fold (\<lambda>(i, (_, c)) hs. case c of None \<Rightarrow> hs | Some v \<Rightarrow> dset (py_lower (py_strip (cell_str v))) i hs)
            (List.enumerate 0 first) [])"

definition check_columns :: "string \<Rightarrow> (string, nat) dict \<Rightarrow> string \<Rightarrow> unit \<Rightarrow> unit res" where
  "check_columns sheet headers column _ =
     (if dget headers column = None
      then reject ''MISSING_REQUIRED_COLUMN'' [[(''sheet'', sheet), (''cell'', ''row1''), (''note'', column)]] else Inr ())"

definition validate_required_sheets_and_columns :: "workbook \<Rightarrow> (string, (string, nat) dict) dict res" where
  "validate_required_sheets_and_columns wb =
     rfold (\<lambda>(sheet, columns) maps.
       case dget wb sheet of
         None \<Rightarrow> reject ''MISSING_REQUIRED_SHEET'' [[(''sheet'', sheet)]]
       | Some g \<Rightarrow>
           rbind (rfold (check_columns sheet (header_index g)) columns ()) (\<lambda>_. Inr (dset sheet (header_index g) maps)))
       required_sheets []"

definition blank :: "cell \<Rightarrow> bool" where
  "blank c = (case c of None \<Rightarrow> True | Some (CText s) \<Rightarrow> py_strip s = [] | Some (CValue _) \<Rightarrow> False)"

definition cells_of :: "(string, nat) dict \<Rightarrow> (string \<times> cell) list \<Rightarrow> row" where
  "cells_of headers raw = map (\<lambda>(name, i). (name, if i < length raw then snd (raw ! i) else None)) headers"

definition extract_rows :: "grid \<Rightarrow> (string, nat) dict \<Rightarrow> row list" where
  "extract_rows g headers =
     map (\<lambda>(n, raw). dset ''_row_number'' (Some (CValue (nat_str n))) (cells_of headers raw))
       (filter (\<lambda>(n, raw). \<exists>c \<in> set raw. \<not> blank (snd c)) (List.enumerate 2 (drop 1 g)))"

text \<open>\<open>row.get(column)\<close>, and \<open>_s\<close>, \<open>_bool\<close>, \<open>_decimal\<close> of \<open>mapping.py\<close>.\<close>

definition cell_at :: "row \<Rightarrow> string \<Rightarrow> cell" where
  "cell_at row column = (case dget row column of None \<Rightarrow> None | Some c \<Rightarrow> c)"

definition s_text :: "cell \<Rightarrow> string option" where
  "s_text c =
     (case c of None \<Rightarrow> None | Some v \<Rightarrow> (let t = py_strip (cell_str v) in if t = [] then None else Some t))"

definition s_bool :: "cell \<Rightarrow> bool \<Rightarrow> bool" where
  "s_bool c dflt =
     (case s_text c of
        None \<Rightarrow> dflt
      | Some t \<Rightarrow>
          if py_lower t \<in> {''true'', ''1'', ''yes'', ''y''} then True
          else if py_lower t \<in> {''false'', ''0'', ''no'', ''n'', ''''} then False else dflt)"

definition s_decimal :: "cell \<Rightarrow> decimal option res" where
  "s_decimal c =
     (case s_text c of
        None \<Rightarrow> Inr None
      | Some t \<Rightarrow> (case decimal_of_string t of
                    Inr d \<Rightarrow> Inr (Some d) | Inl e \<Rightarrow> if e = InvalidOperation then Inr None else Inl e))"

section \<open>sanitize.py\<close>

fun html_char :: "char \<Rightarrow> string" where
  "html_char c =
     (if c = CHR ''&'' then ''&amp;'' else if c = CHR ''<'' then ''&lt;'' else if c = CHR ''>'' then ''&gt;''
      else if c = CHR 0x22 then ''&quot;'' else if c = CHR 0x27 then ''&#x27;'' else [c])"

definition sanitize_for_display :: "string \<Rightarrow> string" where
  "sanitize_for_display s = concat (map html_char s)"

definition sanitize_for_export :: "string \<Rightarrow> string" where
  "sanitize_for_export s =
     (case s of
        [] \<Rightarrow> []
      | c # _ \<Rightarrow> if c \<in> set ''=+-@'' \<or> c = CHR 0x09 \<or> c = CHR 0x0D then CHR 0x27 # s else s)"

definition sanitize_display_and_export :: "string \<Rightarrow> string" where
  "sanitize_display_and_export s = sanitize_for_display (sanitize_for_export s)"

section \<open>The formula scan (formulas.py)\<close>

definition allowed_calculation_operators :: "string list" where
  "allowed_calculation_operators = [''ADD'', ''SUBTRACT'', ''MULTIPLY'', ''DIVIDE'', ''MIN'', ''MAX'', ''ROUND'', ''LOOKUP'', ''IF'']"

definition allowed_comparison_ops :: "string list" where
  "allowed_comparison_ops = [''EQ'', ''NE'', ''LT'', ''LTE'', ''GT'', ''GTE'']"

definition allowed_formula_functions :: "string list" where
  "allowed_formula_functions = allowed_calculation_operators @ allowed_comparison_ops @ [''AND'', ''OR'']"

definition is_letter :: "char \<Rightarrow> bool" where
  "is_letter c \<longleftrightarrow> is_lower c \<or> is_upper c"

definition function_char :: "char \<Rightarrow> bool" where
  "function_char c \<longleftrightarrow> is_letter c \<or> is_digit c \<or> c = CHR ''_'' \<or> c = CHR ''.''"

text \<open>The names that \<open>([A-Za-z_][A-Za-z0-9_.]*)\s*\(\<close> finds.\<close>

function function_names :: "string \<Rightarrow> string list" where
  "function_names [] = []"
| "function_names (c # cs) =
     (let run = takeWhile function_char cs; after = dropWhile is_space (dropWhile function_char cs) in
      if (is_letter c \<or> c = CHR ''_'') \<and> after \<noteq> [] \<and> hd after = CHR ''(''
      then (c # run) # function_names (tl after) else function_names cs)"
  by pat_completeness auto
termination
proof (relation "measure length")
  fix c :: char and cs run after :: string
  assume "after = dropWhile is_space (dropWhile function_char cs)"
  then have "length after \<le> length cs" by (metis length_dropWhile_le order_trans)
  then show "(tl after, c # cs) \<in> measure length" by (simp add: le_imp_less_Suc)
qed auto

definition scan_cell_for_unsupported_formula :: "cell \<Rightarrow> string \<Rightarrow> string \<Rightarrow> unit res" where
  "scan_cell_for_unsupported_formula c sheet place =
     (case c of
        Some (CText (x # s)) \<Rightarrow>
          if x \<noteq> CHR ''='' then Inr ()
          else (case find (\<lambda>f. py_upper f \<notin> set allowed_formula_functions) (function_names (x # s)) of
                  None \<Rightarrow> Inr ()
                | Some f \<Rightarrow> reject ''UNSUPPORTED_WORKBOOK_FUNCTION'' [[(''sheet'', sheet), (''cell'', place), (''function'', f)]])
      | _ \<Rightarrow> Inr ())"

text \<open>\<open>all_used_cells\<close> of the required sheets, each scanned.\<close>

definition used_cells :: "workbook \<Rightarrow> string list \<Rightarrow> (string \<times> string \<times> cell) list" where
  "used_cells wb sheets =
     concat (map (\<lambda>sheet. case dget wb sheet of
         None \<Rightarrow> []
       | Some g \<Rightarrow> map (\<lambda>(place, c). (sheet, place, c)) (filter (\<lambda>(_, c). c \<noteq> None) (concat g))) sheets)"

definition scan_all_required_sheets :: "workbook \<Rightarrow> unit res" where
  "scan_all_required_sheets wb =
     rfold (\<lambda>(sheet, place, c) _. scan_cell_for_unsupported_formula c sheet place)
       (used_cells wb (map fst required_sheets)) ()"

section \<open>Operands and conditions (formulas.py)\<close>

definition parse_operand :: "string \<Rightarrow> string \<Rightarrow> string \<Rightarrow> expr2 res" where
  "parse_operand raw sheet place =
     (let text = py_strip raw; malformed = reject ''MALFORMED_CALCULATION_OPERAND'' (at_cell sheet place) in
      if text = [] then malformed
      else (case decimal_of_string (if hd text = CHR ''#'' then tl text else text) of
              Inr d \<Rightarrow> Inr (Literal2 (PDec d))
            | Inl e \<Rightarrow>
                if e \<noteq> InvalidOperation then Inl e
                else if id_pattern_v2 text then Inr (Reference2 text) else malformed))"

definition operand_text :: "cell \<Rightarrow> string" where
  "operand_text c = (case c of None \<Rightarrow> [] | Some v \<Rightarrow> cell_str v)"

text \<open>\<open>text.split()\<close>.\<close>

function words :: "string \<Rightarrow> string list" where
  "words s =
     (let t = dropWhile is_space s in
      if t = [] then [] else takeWhile (\<lambda>c. \<not> is_space c) t # words (dropWhile (\<lambda>c. \<not> is_space c) t))"
  by pat_completeness auto
termination
proof (relation "measure length")
  fix s t :: string
  assume t: "t = dropWhile is_space s" "t \<noteq> []"
  then obtain c t' where "t = c # t'" "\<not> is_space c" by (metis hd_Cons_tl hd_dropWhile)
  then have "length (dropWhile (\<lambda>c. \<not> is_space c) t) \<le> length t'" by (simp add: length_dropWhile_le)
  moreover have "length t \<le> length s" using t(1) length_dropWhile_le by metis
  ultimately show "(dropWhile (\<lambda>c. \<not> is_space c) t, s) \<in> measure length" using \<open>t = c # t'\<close> by simp
qed auto

declare words.simps [simp del]

definition comparison_of_string :: "string \<Rightarrow> comparison_operator option" where
  "comparison_of_string s = find (\<lambda>op. operator_value op = s) [EQ, NE, LT, LTE, GT, GTE]"

definition parse_comparison :: "string \<Rightarrow> string \<Rightarrow> string \<Rightarrow> cond2 res" where
  "parse_comparison text sheet place =
     (case words text of
        [l, op, r] \<Rightarrow>
          (case comparison_of_string (py_upper op) of
             None \<Rightarrow> reject ''MALFORMED_CONDITION'' (at_cell sheet place)
           | Some c \<Rightarrow>
               rbind (parse_operand l sheet place) (\<lambda>a. rbind (parse_operand r sheet place) (\<lambda>b. Inr (Compare2 a c b))))
      | _ \<Rightarrow> reject ''MALFORMED_CONDITION'' (at_cell sheet place))"

text \<open>The first place where \<open>\bOP\b\<close> matches: the text before it and after it.\<close>

definition word_char :: "char \<Rightarrow> bool" where
  "word_char c \<longleftrightarrow> is_letter c \<or> is_digit c \<or> c = CHR ''_''"

fun find_word :: "string \<Rightarrow> string \<Rightarrow> string \<Rightarrow> (string \<times> string) option" where
  "find_word op before [] = None"
| "find_word op before (c # cs) =
     (let after = drop (length op) (c # cs) in
      if prefix op (c # cs) \<and> (before = [] \<or> \<not> word_char (hd before)) \<and> (after = [] \<or> \<not> word_char (hd after))
      then Some (rev before, after) else find_word op (c # before) cs)"

fun logical_text :: "logical_operator \<Rightarrow> string" where
  "logical_text AND_OP = ''AND''"
| "logical_text OR_OP = ''OR''"

text \<open>
  The loop over the set of the two operators; \<open>ops\<close> is the order in which Python iterates it, which
  differs from process to process.
\<close>

fun split_logical :: "logical_operator list \<Rightarrow> string \<Rightarrow> (logical_operator \<times> string \<times> string) option" where
  "split_logical [] raw = None"
| "split_logical (op # ops) raw =
     (case find_word (logical_text op) [] raw of
        Some (l, r) \<Rightarrow> Some (op, py_strip l, py_strip r)
      | None \<Rightarrow> split_logical ops raw)"

definition parse_condition :: "logical_operator list \<Rightarrow> string \<Rightarrow> string \<Rightarrow> string \<Rightarrow> cond2 res" where
  "parse_condition ops text sheet place =
     (let raw = py_strip text in
      if raw = [] then reject ''MALFORMED_CONDITION'' (at_cell sheet place)
      else (case split_logical ops raw of
              Some (op, l, r) \<Rightarrow>
                rbind (parse_comparison l sheet place) (\<lambda>a. rbind (parse_comparison r sheet place) (\<lambda>b.
                  Inr (Logic2 op [a, b])))
            | None \<Rightarrow> parse_comparison raw sheet place))"

section \<open>json.loads\<close>

datatype json = JNull | JBool bool | JInt int | JStr string | JArr "json list" | JObj "(string \<times> json) list"

definition json_space :: "char \<Rightarrow> bool" where
  "json_space c \<longleftrightarrow> c = CHR 0x20 \<or> c = CHR 0x09 \<or> c = CHR 0x0A \<or> c = CHR 0x0D"

definition skip :: "string \<Rightarrow> string" where "skip s = dropWhile json_space s"

definition hex_value :: "char \<Rightarrow> nat option" where
  "hex_value c =
     (let n = of_char (lower_char c) :: nat in
      if is_digit c then Some (digit_val c) else if 97 \<le> n \<and> n \<le> 102 then Some (n - 87) else None)"

fun hex_code :: "string \<Rightarrow> nat \<Rightarrow> nat option" where
  "hex_code [] n = Some n"
| "hex_code (c # cs) n = (case hex_value c of None \<Rightarrow> None | Some k \<Rightarrow> hex_code cs (16 * n + k))"

text \<open>The rest of a string after its opening quote.\<close>

fun escape_char :: "char \<Rightarrow> char option" where
  "escape_char c =
     (if c \<in> {CHR 0x22, CHR 0x5C, CHR ''/''} then Some c
      else if c = CHR ''b'' then Some (CHR 0x08) else if c = CHR ''f'' then Some (CHR 0x0C)
      else if c = CHR ''n'' then Some (CHR 0x0A) else if c = CHR ''r'' then Some (CHR 0x0D)
      else if c = CHR ''t'' then Some (CHR 0x09) else None)"

fun json_chars :: "nat \<Rightarrow> string \<Rightarrow> string \<Rightarrow> (string \<times> string) res" where
  "json_chars 0 acc s = Inl OutOfModel"
| "json_chars (Suc n) acc [] = Inl ValueError"
| "json_chars (Suc n) acc (c # cs) =
     (if c = CHR 0x22 then Inr (rev acc, cs)
      else if (of_char c :: nat) < 32 then Inl ValueError
      else if c \<noteq> CHR 0x5C then json_chars n (c # acc) cs
      else (case cs of
              [] \<Rightarrow> Inl ValueError
            | e # rest \<Rightarrow>
                if e = CHR ''u'' then
                  (case (length (take 4 rest) = 4, hex_code (take 4 rest) 0) of
                     (True, Some k) \<Rightarrow> if k < 128 then json_chars n (char_of k # acc) (drop 4 rest) else Inl OutOfModel
                   | _ \<Rightarrow> Inl ValueError)
                else (case escape_char e of None \<Rightarrow> Inl ValueError | Some x \<Rightarrow> json_chars n (x # acc) rest)))"

text \<open>\<open>-?(0|[1-9]\d*)\<close>; a fraction or an exponent makes a float.\<close>

definition float_follows :: "string \<Rightarrow> bool" where
  "float_follows r \<longleftrightarrow>
     (case r of
        [] \<Rightarrow> False
      | c # t \<Rightarrow>
          if c = CHR ''.'' then t \<noteq> [] \<and> is_digit (hd t)
          else (c = CHR ''e'' \<or> c = CHR ''E'')
            \<and> (let u = (if t \<noteq> [] \<and> hd t \<in> {CHR ''+'', CHR ''-''} then tl t else t) in u \<noteq> [] \<and> is_digit (hd u)))"

definition json_number :: "string \<Rightarrow> (json \<times> string) res" where
  "json_number s =
     (let (neg, r) = (if s \<noteq> [] \<and> hd s = CHR ''-'' then (True, tl s) else (False, s));
          ds = (if r \<noteq> [] \<and> hd r = CHR ''0'' then ''0'' else takeWhile is_digit r); rest = drop (length ds) r in
      if ds = [] then Inl ValueError
      else if float_follows rest
        then Inl OutOfModel
      else Inr (JInt (if neg then - int (digits_val ds) else int (digits_val ds)), rest))"

definition json_word :: "string \<Rightarrow> (json \<times> string) option" where
  "json_word s =
     (if prefix ''null'' s then Some (JNull, drop 4 s)
      else if prefix ''true'' s then Some (JBool True, drop 4 s)
      else if prefix ''false'' s then Some (JBool False, drop 5 s) else None)"

text \<open>The fuel is more than twice the length of the text: of two nested calls at least one consumes a character.\<close>

fun json_value :: "nat \<Rightarrow> string \<Rightarrow> (json \<times> string) res"
  and json_items :: "nat \<Rightarrow> string \<Rightarrow> (json list \<times> string) res"
  and json_members :: "nat \<Rightarrow> string \<Rightarrow> ((string \<times> json) list \<times> string) res" where
  "json_value 0 s = Inl OutOfModel"
| "json_value (Suc n) [] = Inl ValueError"
| "json_value (Suc n) (c # cs) =
     (if c = CHR 0x22 then rbind (json_chars (Suc n) [] cs) (\<lambda>(t, r). Inr (JStr t, r))
      else if c = CHR 0x7B then
        (case skip cs of
           x # r \<Rightarrow> if x = CHR 0x7D then Inr (JObj [], r)
                    else rbind (json_members n (skip cs)) (\<lambda>(ms, r). Inr (JObj (fold (\<lambda>(k, v). dset k v) ms []), r))
         | [] \<Rightarrow> Inl ValueError)
      else if c = CHR ''['' then
        (case skip cs of
           x # r \<Rightarrow> if x = CHR '']'' then Inr (JArr [], r)
                    else rbind (json_items n (skip cs)) (\<lambda>(vs, r). Inr (JArr vs, r))
         | [] \<Rightarrow> Inl ValueError)
      else (case json_word (c # cs) of
              Some x \<Rightarrow> Inr x
            | None \<Rightarrow>
                if prefix ''NaN'' (c # cs) \<or> prefix ''Infinity'' (c # cs) \<or> prefix ''-Infinity'' (c # cs) then Inl OutOfModel
                else json_number (c # cs)))"
| "json_items 0 s = Inl OutOfModel"
| "json_items (Suc n) s =
     rbind (json_value n s) (\<lambda>(v, r).
       case skip r of
         [] \<Rightarrow> Inl ValueError
       | x # r' \<Rightarrow>
           if x = CHR '']'' then Inr ([v], r')
           else if x = CHR '','' then rbind (json_items n (skip r')) (\<lambda>(vs, r''). Inr (v # vs, r''))
           else Inl ValueError)"
| "json_members 0 s = Inl OutOfModel"
| "json_members (Suc n) s =
     (case s of
        [] \<Rightarrow> Inl ValueError
      | q # s' \<Rightarrow>
          if q \<noteq> CHR 0x22 then Inl ValueError
          else rbind (json_chars (Suc n) [] s') (\<lambda>(k, r).
            case skip r of
              [] \<Rightarrow> Inl ValueError
            | x # r' \<Rightarrow>
                if x \<noteq> CHR '':'' then Inl ValueError
                else rbind (json_value n (skip r')) (\<lambda>(v, r2).
                  case skip r2 of
                    [] \<Rightarrow> Inl ValueError
                  | y # r3 \<Rightarrow>
                      if y = CHR 0x7D then Inr ([(k, v)], r3)
                      else if y = CHR '','' then rbind (json_members n (skip r3)) (\<lambda>(ms, r4). Inr ((k, v) # ms, r4))
                      else Inl ValueError)))"

definition json_loads :: "string \<Rightarrow> json res" where
  "json_loads s =
     rbind (json_value (3 * length s + 3) (skip s)) (\<lambda>(v, rest). if skip rest = [] then Inr v else Inl ValueError)"

end
