(* ===== verification/WorkbookMapping.thy ===== *)
theory WorkbookMapping
  imports WorkbookCells
begin

text \<open>
  From the rows of a workbook to an IPIR package of version 0.2,
  \<open>src/backend/app/ingestion/workbook_v1/mapping.py\<close> and \<open>vocabulary.py\<close>: one definition per builder.

  A builder raises \<open>WorkbookRejectionError\<close> with a code and the place; the messages are left out.
  Constructing a model of \<open>app/ipir\<close> validates it (theories Ipir, IpirV2) and can raise pydantic's
  \<open>ValidationError\<close>.  How pydantic reads a date from text is the parameter \<open>parse_date\<close>.
\<close>

section \<open>Enumerations by value\<close>

definition data_type_of_string :: "string \<Rightarrow> input_data_type option" where
  "data_type_of_string s =
     dget [(''INTEGER'', INTEGER_T), (''DECIMAL'', DECIMAL_T), (''MONEY'', MONEY_T), (''STRING'', STRING_T),
       (''BOOLEAN'', BOOLEAN_T), (''CATEGORY'', CATEGORY_T), (''DATE'', DATE_T)] s"

definition line_of_string :: "string \<Rightarrow> insurance_line option" where
  "line_of_string s =
     dget [(''HOMEOWNERS'', HOMEOWNERS), (''PERSONAL_AUTO'', PERSONAL_AUTO), (''COMMERCIAL_AUTO'', COMMERCIAL_AUTO),
       (''COMMERCIAL_PROPERTY'', COMMERCIAL_PROPERTY), (''WORKERS_COMPENSATION'', WORKERS_COMPENSATION),
       (''OTHER'', OTHER_LINE)] s"

definition rounding_of_string :: "string \<Rightarrow> rounding_mode option" where
  "rounding_of_string s =
     dget [(''HALF_UP'', HALF_UP), (''HALF_EVEN'', HALF_EVEN), (''FLOOR'', FLOOR), (''CEILING'', CEILING)] s"

definition binary_of_string :: "string \<Rightarrow> binary_operator option" where
  "binary_of_string s =
     dget [(''ADD'', B_ADD), (''SUBTRACT'', B_SUBTRACT), (''MULTIPLY'', B_MULTIPLY), (''DIVIDE'', B_DIVIDE),
       (''MIN'', B_MIN), (''MAX'', B_MAX)] s"

definition or_empty :: "string option \<Rightarrow> string" where
  "or_empty s = (case s of None \<Rightarrow> [] | Some t \<Rightarrow> t)"

text \<open>\<open>[t.strip() for t in text.split(",") if t.strip()]\<close>.\<close>

definition comma_list :: "string \<Rightarrow> string list" where
  "comma_list s = filter (\<lambda>t. t \<noteq> []) (map py_strip (py_split '','' s))"

definition sname :: "cell \<Rightarrow> string \<Rightarrow> string \<Rightarrow> string res" where
  "sname c sheet place =
     (case s_text c of
        None \<Rightarrow> reject ''MISSING_REQUIRED_VALUE'' (at_cell sheet place)
      | Some t \<Rightarrow> Inr (sanitize_display_and_export t))"

text \<open>A builder that skips rows without an id.\<close>

definition build_rows :: "(row \<Rightarrow> 'a option res) \<Rightarrow> row list \<Rightarrow> 'a list res" where
  "build_rows f rows = rbind (rmap_list f rows) (\<lambda>xs. Inr (List.map_filter id xs))"

definition for_id :: "row \<Rightarrow> string \<Rightarrow> (string \<Rightarrow> 'a res) \<Rightarrow> 'a option res" where
  "for_id row column f =
     (case s_text (cell_at row column) of None \<Rightarrow> Inr None | Some i \<Rightarrow> rbind (f i) (\<lambda>x. Inr (Some x)))"

section \<open>RG\_METADATA\<close>

definition required_metadata_keys :: "string list" where
  "required_metadata_keys = [''package_id'', ''product_id'', ''line'', ''country'', ''currency'', ''effective_start'']"

definition supported_currencies :: "string list" where "supported_currencies = [''USD'']"

definition supported_jurisdictions :: "(string, string list) dict" where
  "supported_jurisdictions = [(''US'', [''AZ''])]"

definition unsupported :: "string \<Rightarrow> string \<Rightarrow> 'a res" where
  "unsupported code key = reject code [[(''sheet'', ''RG_METADATA''), (''note'', key)]]"

definition validate_currency_and_jurisdiction :: "(string, string) dict \<Rightarrow> unit res" where
  "validate_currency_and_jurisdiction metadata =
     (case (dget metadata ''currency'', dget metadata ''country'') of
        (Some currency, Some country) \<Rightarrow>
          if currency \<notin> set supported_currencies then unsupported ''UNSUPPORTED_CURRENCY'' ''currency''
          else (case dget supported_jurisdictions country of
                  None \<Rightarrow> unsupported ''UNSUPPORTED_JURISDICTION_COUNTRY'' ''country''
                | Some states \<Rightarrow>
                    if dget_default metadata ''state'' [] \<notin> set states
                    then unsupported ''UNSUPPORTED_JURISDICTION_STATE'' ''state'' else Inr ())
      | (None, _) \<Rightarrow> Inl (KeyError ''currency'')
      | (_, None) \<Rightarrow> Inl (KeyError ''country''))"

definition read_metadata :: "row list \<Rightarrow> (string, string) dict" where
  "read_metadata rows =
     fold (\<lambda>row metadata. case s_text (cell_at row ''key'') of
         None \<Rightarrow> metadata
       | Some k \<Rightarrow> dset (py_lower k) (or_empty (s_text (cell_at row ''value''))) metadata) rows []"

definition build_metadata :: "row list \<Rightarrow> (string, string) dict res" where
  "build_metadata rows =
     (let metadata = read_metadata rows;
          missing = filter (\<lambda>k. dget_default metadata k [] = []) required_metadata_keys in
      if missing \<noteq> []
      then reject ''MISSING_REQUIRED_METADATA_KEY'' (map (\<lambda>k. [(''sheet'', ''RG_METADATA''), (''note'', k)]) missing)
      else rbind (validate_currency_and_jurisdiction metadata) (\<lambda>_. Inr metadata))"

section \<open>RG\_INPUTS and RG\_CONSTANTS\<close>

definition shown_cell :: "cell \<Rightarrow> string" where
  "shown_cell c = (case c of None \<Rightarrow> ''None'' | Some v \<Rightarrow> cell_str v)"

definition build_input :: "row \<Rightarrow> pricing_input option res" where
  "build_input row =
     for_id row ''id'' (\<lambda>i.
       case data_type_of_string (py_upper (py_strip (shown_cell (cell_at row ''data_type'')))) of
         None \<Rightarrow> reject ''UNSUPPORTED_INPUT_DATA_TYPE'' (at_cell ''RG_INPUTS'' i)
       | Some ty \<Rightarrow>
           rbind (sname (cell_at row ''name'') ''RG_INPUTS'' i) (\<lambda>name.
           rbind (s_decimal (cell_at row ''minimum'')) (\<lambda>lo.
           rbind (s_decimal (cell_at row ''maximum'')) (\<lambda>hi.
             validate_input
               \<lparr>pi_id = i, pi_name = name, pi_data_type = ty, pi_required = s_bool (cell_at row ''required'') True,
                pi_description = None, pi_unit = None,
                pi_allowed_values = map_option comma_list (s_text (cell_at row ''allowed_values'')),
                pi_minimum = map_option PDec lo, pi_maximum = map_option PDec hi, pi_provenance = None\<rparr>))))"

definition build_inputs :: "row list \<Rightarrow> pricing_input list res" where
  "build_inputs = build_rows build_input"

definition build_constant :: "row \<Rightarrow> pricing_constant option res" where
  "build_constant row =
     for_id row ''id'' (\<lambda>i.
       rbind (s_decimal (cell_at row ''value'')) (\<lambda>v.
         case v of
           None \<Rightarrow> reject ''MALFORMED_CONSTANT_VALUE'' (at_cell ''RG_CONSTANTS'' i)
         | Some d \<Rightarrow>
             rbind (sname (cell_at row ''name'') ''RG_CONSTANTS'' i) (\<lambda>name.
               validate_constant \<lparr>const_id = i, const_name = name, const_value = d, const_description = None,
                 const_period = None, const_provenance = None\<rparr>)))"

definition build_constants :: "row list \<Rightarrow> pricing_constant list res" where
  "build_constants = build_rows build_constant"

section \<open>RG\_TABLES\<close>

definition table_groups :: "row list \<Rightarrow> (string, row list) dict" where
  "table_groups rows =
     fold (\<lambda>row groups. case s_text (cell_at row ''table_id'') of
         None \<Rightarrow> groups | Some t \<Rightarrow> dset t (dget_default groups t [] @ [row]) groups) rows []"

definition has_bound :: "row \<Rightarrow> bool res" where
  "has_bound row =
     rbind (s_decimal (cell_at row ''min'')) (\<lambda>a.
       if a \<noteq> None then Inr True else rbind (s_decimal (cell_at row ''max'')) (\<lambda>b. Inr (b \<noteq> None)))"

definition row_priority_of :: "row \<Rightarrow> int option res" where
  "row_priority_of row = rbind (s_decimal (cell_at row ''priority'')) (\<lambda>d. Inr (map_option dec_trunc d))"

definition build_match :: "row \<Rightarrow> string \<Rightarrow> table_match res" where
  "build_match row t =
     rbind (s_decimal (cell_at row ''min'')) (\<lambda>lo.
     rbind (s_decimal (cell_at row ''max'')) (\<lambda>hi.
       if lo \<noteq> None \<or> hi \<noteq> None then
         rbind (validate_range \<lparr>rm_minimum = map_option PDec lo, rm_maximum = map_option PDec hi,
             rm_include_minimum = s_bool (cell_at row ''include_min'') True,
             rm_include_maximum = s_bool (cell_at row ''include_max'') True\<rparr>) (\<lambda>r. Inr (RangeMatch r))
       else (case s_text (cell_at row ''match_value'') of
               Some v \<Rightarrow> Inr (ExactMatch (PStr v))
             | None \<Rightarrow> reject ''MALFORMED_TABLE_ROW'' (at_cell ''RG_TABLES'' t))))"

definition build_table_row :: "string \<Rightarrow> row \<Rightarrow> table_row res" where
  "build_table_row t row =
     rbind (row_priority_of row) (\<lambda>prio.
     rbind (s_decimal (cell_at row ''result_value'')) (\<lambda>v.
       case v of
         None \<Rightarrow> reject ''MALFORMED_TABLE_ROW'' (at_cell ''RG_TABLES'' t)
       | Some d \<Rightarrow>
           rbind (build_match row t) (\<lambda>m. validate_row \<lparr>row_matches = [m], row_value = d, row_priority = prio\<rparr>)))"

definition build_table :: "string \<times> row list \<Rightarrow> rate_table res" where
  "build_table = (\<lambda>(t, rows).
     case remdups (List.map_filter (\<lambda>r. s_text (cell_at r ''dimension_id'')) rows) of
       [dref] \<Rightarrow>
         rbind (rany has_bound rows) (\<lambda>ranged.
         rbind (rmap_list (build_table_row t) rows) (\<lambda>trs.
           validate_table \<lparr>tbl_id = t, tbl_name = sanitize_display_and_export t,
             tbl_dimensions = [\<lparr>td_input_ref = dref, td_lookup_type = (if ranged then RANGE else EXACT)\<rparr>],
             tbl_rows = trs, tbl_period = None, tbl_provenance = None, tbl_requires_total_coverage = False,
             tbl_default_value = None\<rparr>))
     | _ \<Rightarrow> reject ''MALFORMED_TABLE_DIMENSION'' (at_cell ''RG_TABLES'' t))"

definition build_tables :: "row list \<Rightarrow> rate_table list res" where
  "build_tables rows = rmap_list build_table (table_groups rows)"

section \<open>RG\_CALCULATIONS\<close>

definition calc_sheet :: string where "calc_sheet = ''RG_CALCULATIONS''"

definition lookup_expression :: "cell \<Rightarrow> string \<Rightarrow> expr2 res" where
  "lookup_expression c i =
     (case s_text c of
        None \<Rightarrow> reject ''MALFORMED_CALCULATION_OPERAND'' (at_cell calc_sheet i)
      | Some t \<Rightarrow> validate_expr2 (TableLookup2 t))"

text \<open>\<open>int(Decimal(scale_raw))\<close> is outside every \<open>try\<close>.\<close>

definition round_expression :: "row \<Rightarrow> string \<Rightarrow> expr2 res" where
  "round_expression row i =
     (case (s_text (cell_at row ''scale''), s_text (cell_at row ''rounding_mode'')) of
        (Some scale, Some mode) \<Rightarrow>
          (case rounding_of_string (py_upper mode) of
             None \<Rightarrow> reject ''UNSUPPORTED_ROUNDING_MODE'' (at_cell calc_sheet i)
           | Some m \<Rightarrow>
               rbind (parse_operand (operand_text (cell_at row ''operand_1'')) calc_sheet i) (\<lambda>e.
               rbind (decimal_of_string scale) (\<lambda>d. validate_expr2 (Round2 e (dec_trunc d) m))))
      | _ \<Rightarrow> reject ''MISSING_ROUNDING'' (at_cell calc_sheet i))"

definition if_expression :: "logical_operator list \<Rightarrow> row \<Rightarrow> string \<Rightarrow> expr2 res" where
  "if_expression ops row i =
     rbind (parse_condition ops (operand_text (cell_at row ''operand_1'')) calc_sheet i) (\<lambda>c.
       case py_split ''|'' (or_empty (s_text (cell_at row ''operand_2''))) of
         [a, b] \<Rightarrow>
           rbind (parse_operand a calc_sheet i) (\<lambda>x. rbind (parse_operand b calc_sheet i) (\<lambda>y. Inr (Conditional2 c x y)))
       | _ \<Rightarrow> reject ''MALFORMED_CONDITION'' (at_cell calc_sheet i))"

definition literal_zero :: "expr2 \<Rightarrow> bool" where
  "literal_zero e = (case e of Literal2 (PDec d) \<Rightarrow> dec_eq d dec_zero | _ \<Rightarrow> False)"

definition binary_expression :: "binary_operator \<Rightarrow> row \<Rightarrow> string \<Rightarrow> expr2 res" where
  "binary_expression op row i =
     rbind (parse_operand (operand_text (cell_at row ''operand_1'')) calc_sheet i) (\<lambda>l.
     rbind (parse_operand (operand_text (cell_at row ''operand_2'')) calc_sheet i) (\<lambda>r.
       if op = B_DIVIDE \<and> literal_zero r then reject ''DIVISION_BY_ZERO_PATH'' (at_cell calc_sheet i)
       else Inr (Binary2 op l r)))"

definition build_expression :: "logical_operator list \<Rightarrow> row \<Rightarrow> string \<Rightarrow> expr2 res" where
  "build_expression ops row i =
     (let operator = py_upper (or_empty (s_text (cell_at row ''operator''))) in
      if operator \<notin> set allowed_calculation_operators
      then reject ''UNSUPPORTED_WORKBOOK_FUNCTION'' [[(''sheet'', calc_sheet), (''cell'', i), (''function'', operator)]]
      else if operator = ''LOOKUP'' then lookup_expression (cell_at row ''operand_1'') i
      else if operator = ''ROUND'' then round_expression row i
      else if operator = ''IF'' then if_expression ops row i
      else (case binary_of_string operator of
              None \<Rightarrow> Inl (ValidationError ''operator'') | Some op \<Rightarrow> binary_expression op row i))"

definition build_calculation :: "logical_operator list \<Rightarrow> row \<Rightarrow> calculation_node_v2 option res" where
  "build_calculation ops row =
     for_id row ''node_id'' (\<lambda>i.
       rbind (build_expression ops row i) (\<lambda>e.
         validate_node_v2 \<lparr>c2_id = i, c2_name = sanitize_display_and_export i, c2_expression = e, c2_depends_on = [],
           c2_period = None, c2_description = None\<rparr>))"

definition build_calculations :: "logical_operator list \<Rightarrow> row list \<Rightarrow> calculation_node_v2 list res" where
  "build_calculations ops = build_rows (build_calculation ops)"

section \<open>RG\_OUTPUTS\<close>

definition out_sheet :: string where "out_sheet = ''RG_OUTPUTS''"

definition build_output :: "calculation_node_v2 list \<Rightarrow> row \<Rightarrow> (string \<times> pricing_output_v2) option res" where
  "build_output calculations row =
     for_id row ''output_id'' (\<lambda>i.
       let currency = py_upper (or_empty (s_text (cell_at row ''currency''))) in
       case s_text (cell_at row ''source_ref'') of
         None \<Rightarrow> reject ''UNRESOLVED_REFERENCE'' (at_cell out_sheet i)
       | Some src \<Rightarrow>
           (case dget (index_by c2_id calculations []) src of
              None \<Rightarrow> reject ''UNRESOLVED_REFERENCE'' (at_cell out_sheet i)
            | Some n \<Rightarrow>
                (case c2_expression n of
                   Round2 e scale m \<Rightarrow>
                     rbind (validate_output_v2 \<lparr>o2_id = i, o2_name = sanitize_display_and_export i, o2_source_ref = src,
                       o2_currency = currency, o2_scale = scale, o2_rounding_mode = m\<rparr>) (\<lambda>out. Inr (currency, out))
                 | _ \<Rightarrow> reject ''MISSING_ROUNDING'' (at_cell out_sheet i))))"

definition build_outputs :: "calculation_node_v2 list \<Rightarrow> row list \<Rightarrow> pricing_output_v2 list res" where
  "build_outputs calculations rows =
     rbind (build_rows (build_output calculations) rows) (\<lambda>outs.
       if 1 < length (remdups (map fst outs)) then reject ''CURRENCY_INCONSISTENCY'' [[(''sheet'', out_sheet)]]
       else Inr (map snd outs))"

section \<open>RG\_CONTROL\_CASES\<close>

definition case_sheet :: string where "case_sheet = ''RG_CONTROL_CASES''"

text \<open>An input of any JSON type is accepted; null, lists and objects are outside the model.\<close>

definition json_input :: "json \<Rightarrow> pyval res" where
  "json_input v =
     (case v of JInt i \<Rightarrow> Inr (PInt i) | JStr s \<Rightarrow> Inr (PStr s) | JBool b \<Rightarrow> Inr (PBool b) | _ \<Rightarrow> Inl OutOfModel)"

text \<open>\<open>str(v)\<close>.\<close>

definition json_str :: "json \<Rightarrow> string res" where
  "json_str v =
     (case v of JInt i \<Rightarrow> Inr (int_str i) | JStr s \<Rightarrow> Inr s | JBool b \<Rightarrow> Inr (bool_str b) | JNull \<Rightarrow> Inr ''None''
      | _ \<Rightarrow> Inl OutOfModel)"

definition load_json :: "cell \<Rightarrow> string \<Rightarrow> json res" where
  "load_json c i =
     (case json_loads (case s_text c of None \<Rightarrow> [CHR 0x7B, CHR 0x7D] | Some t \<Rightarrow> t) of
        Inr v \<Rightarrow> Inr v
      | Inl e \<Rightarrow> if e = ValueError then reject ''MALFORMED_CONTROL_CASE'' (at_cell case_sheet i) else Inl e)"

definition json_values :: "(json \<Rightarrow> 'a res) \<Rightarrow> (string \<times> json) list \<Rightarrow> (string, 'a) dict res" where
  "json_values f = rmap_list (\<lambda>(k, v). rbind (f v) (\<lambda>x. Inr (k, x)))"

definition build_case :: "row \<Rightarrow> control_case option res" where
  "build_case row =
     for_id row ''case_id'' (\<lambda>i.
       rbind (load_json (cell_at row ''input'') i) (\<lambda>inputs.
       rbind (load_json (cell_at row ''expected_output'') i) (\<lambda>expected.
       rbind (s_decimal (cell_at row ''tolerance'')) (\<lambda>tol.
         case tol of
           None \<Rightarrow> reject ''MALFORMED_CONTROL_CASE'' (at_cell case_sheet i)
         | Some t \<Rightarrow>
             rbind (case expected of JObj kvs \<Rightarrow> json_values json_str kvs | _ \<Rightarrow> Inl (AttributeError ''items'')) (\<lambda>texts.
             rbind (case inputs of JObj kvs \<Rightarrow> json_values json_input kvs | _ \<Rightarrow> Inl (ValidationError ''inputs'')) (\<lambda>vals.
               validate_case \<lparr>cc_id = i, cc_inputs = vals, cc_expected = texts, cc_tolerance = t\<rparr>))))))"

definition build_control_cases :: "row list \<Rightarrow> control_case list res" where
  "build_control_cases = build_rows build_case"

section \<open>The package\<close>

text \<open>
  \<open>classify_ipir_validation_error\<close> looks for phrases in the message; the kind of a validation error says
  which message it is.  Of the tables, the first with an issue is reported, with all its issues.
\<close>

definition coverage_code :: "rate_table list \<Rightarrow> string" where
  "coverage_code tables =
     (case find (\<lambda>t. validate_range_coverage t \<noteq> []) tables of
        None \<Rightarrow> ''IPIR_VALIDATION_FAILED''
      | Some t \<Rightarrow>
          if list_ex (\<lambda>x. case x of AmbiguousOverlap i a b \<Rightarrow> True | _ \<Rightarrow> False) (validate_range_coverage t)
          then ''AMBIGUOUS_RANGE_OVERLAP'' else ''RANGE_GAP'')"

definition classify_ipir_validation_error :: "rate_table list \<Rightarrow> string \<Rightarrow> string" where
  "classify_ipir_validation_error tables kind =
     (if prefix ''duplicate_node_id:'' kind \<or> prefix ''duplicate_case:'' kind then ''DUPLICATE_ID''
      else if kind = ''cycle'' then ''CALCULATION_CYCLE''
      else if prefix ''unresolved_node:'' kind \<or> prefix ''unknown_table:'' kind \<or> prefix ''output_source:'' kind
        then ''UNRESOLVED_REFERENCE''
      else if prefix ''coverage:'' kind then coverage_code tables
      else if prefix ''output_rounding:'' kind then ''ROUNDING_MISMATCH''
      else ''IPIR_VALIDATION_FAILED'')"

definition package_transactions :: "(string, string) dict \<Rightarrow> transaction_type list res" where
  "package_transactions metadata =
     (let raw = dget_default metadata ''transaction_types'' [] in
      rmap_list (\<lambda>t. case transaction_of_string (py_upper t) of
          Some x \<Rightarrow> Inr x | None \<Rightarrow> unsupported ''UNSUPPORTED_TRANSACTION_TYPE'' ''transaction_types'')
        (comma_list (if raw = [] then ''NEW_BUSINESS,RENEWAL'' else raw)))"

record workbook_parts =
  wp_inputs :: "pricing_input list"
  wp_constants :: "pricing_constant list"
  wp_tables :: "rate_table list"
  wp_calculations :: "calculation_node_v2 list"
  wp_outputs :: "pricing_output_v2 list"
  wp_cases :: "control_case list"

definition compiler_version :: string where "compiler_version = ''rateguard-workbook-v1-compiler/1.0.0''"

text \<open>The body of the \<open>try\<close>: the envelope models, then the package.\<close>

definition metadata_text :: "(string, string) dict \<Rightarrow> string \<Rightarrow> string res" where
  "metadata_text metadata key = (case dget metadata key of None \<Rightarrow> Inl (KeyError key) | Some s \<Rightarrow> Inr s)"

definition read_date :: "(string \<Rightarrow> date option) \<Rightarrow> string \<Rightarrow> date res" where
  "read_date parse_date s = (case parse_date s of None \<Rightarrow> Inl (ValidationError ''date'') | Some d \<Rightarrow> Inr d)"

definition package_product ::
  "(string, string) dict \<Rightarrow> product_ref_v2 res" where
  "package_product metadata =
     rbind (metadata_text metadata ''product_id'') (\<lambda>i.
     rbind (metadata_text metadata ''line'') (\<lambda>line.
     rbind (metadata_text metadata ''country'') (\<lambda>country.
     rbind (metadata_text metadata ''currency'') (\<lambda>currency.
       case line_of_string (py_upper line) of
         None \<Rightarrow> Inl (ValidationError ''line'')
       | Some l \<Rightarrow>
           validate_product_ref \<lparr>pr_id = i, pr_line = l,
             pr_jurisdiction = \<lparr>jur_country = country,
               jur_state = (let s = dget_default metadata ''state'' [] in if s = [] then None else Some s)\<rparr>,
             pr_currency = py_upper currency\<rparr>))))"

definition package_period :: "(string \<Rightarrow> date option) \<Rightarrow> (string, string) dict \<Rightarrow> effective_period res" where
  "package_period parse_date metadata =
     rbind (metadata_text metadata ''effective_start'') (\<lambda>s.
     rbind (read_date parse_date s) (\<lambda>start.
       let e = dget_default metadata ''effective_end'' [] in
       rbind (if e = [] then Inr None else rbind (read_date parse_date e) (\<lambda>d. Inr (Some d))) (\<lambda>stop.
         validate_dates \<lparr>ep_start = start, ep_end = stop\<rparr>)))"

definition new_package ::
  "cycle_test \<Rightarrow> (string \<Rightarrow> date option) \<Rightarrow> string \<Rightarrow> string \<Rightarrow> (string, string) dict \<Rightarrow> transaction_type list \<Rightarrow>
   workbook_parts \<Rightarrow> ipir_package_v2 res" where
  "new_package cyclic parse_date digest now metadata txns w =
     rbind (metadata_text metadata ''package_id'') (\<lambda>i.
     rbind (validate_hash \<lparr>sm_type = CONTROLLED_XLSX, sm_artifact_sha256 = digest, sm_compiler_version = compiler_version,
        sm_compiled_at = now\<rparr>) (\<lambda>src.
     rbind (package_product metadata) (\<lambda>prod.
     rbind (package_period parse_date metadata) (\<lambda>period.
       construct_package_v2 cyclic
         \<lparr>p2_schema_version = ''0.2.0'', p2_id = i,
          p2_version = (let v = dget_default metadata ''package_version'' [] in if v = [] then ''1.0.0'' else v),
          p2_source = src, p2_product = prod, p2_period = period, p2_transaction_types = txns,
          p2_inputs = wp_inputs w, p2_constants = wp_constants w, p2_tables = wp_tables w,
          p2_calculations = wp_calculations w, p2_outputs = wp_outputs w, p2_control_cases = wp_cases w,
          p2_attestation = None\<rparr>))))"

definition build_package ::
  "cycle_test \<Rightarrow> (string \<Rightarrow> date option) \<Rightarrow> string \<Rightarrow> string \<Rightarrow> (string, string) dict \<Rightarrow> workbook_parts \<Rightarrow> ipir_package_v2 res" where
  "build_package cyclic parse_date digest now metadata w =
     rbind (package_transactions metadata) (\<lambda>txns.
       case new_package cyclic parse_date digest now metadata txns w of
         Inr p \<Rightarrow> Inr p
       | Inl (ValidationError kind) \<Rightarrow> reject (classify_ipir_validation_error (wp_tables w) kind) []
       | Inl ValueError \<Rightarrow> reject ''IPIR_VALIDATION_FAILED'' []
       | Inl e \<Rightarrow> Inl e)"

end
