(* ===== verification/WorkbookSafety.thy ===== *)
theory WorkbookSafety
  imports WorkbookCells "HOL-Library.Word"
begin

text \<open>
  What is checked of an uploaded file before it is opened as a workbook,
  \<open>src/backend/app/ingestion/workbook_v1/zip_safety.py\<close> and \<open>limits.py\<close>.

  \<open>zipfile\<close> and \<open>xml.etree\<close> are libraries: an archive is the directory they report, the text of
  \<open>[Content_Types].xml\<close> (or the exception of reading it) and, for every relationship part, its elements,
  or that it is not well-formed XML, or the exception of reading it.  The names are iterated as a Python
  set, in an order that is a parameter.  The ratio of two sizes is compared exactly; the sizes are so
  small, after the check of their sum, that the float of the code compares alike.
\<close>

section \<open>limits.py\<close>

type_synonym byte = "8 word"

definition max_upload_bytes :: nat where "max_upload_bytes = 10 * 1024 * 1024"
definition max_zip_entries :: nat where "max_zip_entries = 2000"
definition max_total_uncompressed_bytes :: nat where "max_total_uncompressed_bytes = 200 * 1024 * 1024"
definition max_entry_compression_ratio :: nat where "max_entry_compression_ratio = 100"
definition min_entry_size_for_ratio_check :: nat where "min_entry_size_for_ratio_check = 1024"

definition ole_cfb_signature :: "byte list" where
  "ole_cfb_signature = [0xD0, 0xCF, 0x11, 0xE0, 0xA1, 0xB1, 0x1A, 0xE1]"

definition zip_local_file_signatures :: "byte list list" where
  "zip_local_file_signatures = [[0x50, 0x4B, 0x03, 0x04], [0x50, 0x4B, 0x05, 0x06], [0x50, 0x4B, 0x07, 0x08]]"

definition required_extension :: string where "required_extension = ''.xlsx''"

section \<open>The bytes\<close>

definition noted :: "string \<Rightarrow> string \<Rightarrow> 'a res" where
  "noted code note = reject code [[(''note'', note)]]"

definition validate_upload_basics :: "byte list \<Rightarrow> string \<Rightarrow> unit res" where
  "validate_upload_basics content filename =
     (if \<not> suffix required_extension (py_lower filename) then noted ''INVALID_FILE_EXTENSION'' filename
      else if max_upload_bytes < length content then reject ''FILE_TOO_LARGE'' []
      else if content = [] then reject ''CORRUPT_ARCHIVE'' []
      else if prefix ole_cfb_signature content then reject ''ENCRYPTED_WORKBOOK'' []
      else if \<not> list_ex (\<lambda>s. prefix s content) zip_local_file_signatures then reject ''INVALID_FILE_SIGNATURE'' []
      else Inr ())"

section \<open>The directory of the archive\<close>

record zip_info =
  zi_filename :: string
  zi_file_size :: nat
  zi_compress_size :: nat

text \<open>An XML element: its tag and its attributes.\<close>

type_synonym element = "string \<times> (string, string) dict"

datatype rels_part = Elements "element list" | NotWellFormed | Unreadable exn

record archive =
  ar_infolist :: "zip_info list"
  ar_content_types :: "string res"
  ar_rels :: "(string, rels_part) dict"

text \<open>\<open>needle in text\<close>.\<close>

definition contains :: "string \<Rightarrow> string \<Rightarrow> bool" where
  "contains text needle \<longleftrightarrow> sublist needle text"

text \<open>\<open>".." in PurePosixPath(name).parts\<close> and \<open>is_absolute()\<close>.\<close>

definition path_parts :: "string \<Rightarrow> string list" where
  "path_parts name = filter (\<lambda>p. p \<noteq> [] \<and> p \<noteq> ''.'') (py_split ''/'' name)"

definition traverses :: "string \<Rightarrow> bool" where
  "traverses name \<longleftrightarrow> ''..'' \<in> set (path_parts name)"

definition is_absolute :: "string \<Rightarrow> bool" where
  "is_absolute name \<longleftrightarrow> prefix ''/'' name"

definition check_entry_name :: "string \<Rightarrow> unit \<Rightarrow> unit res" where
  "check_entry_name name _ =
     (if CHR 0x5C \<in> set name then noted ''PATH_TRAVERSAL_ENTRY'' name
      else if is_absolute name \<or> traverses name then noted ''PATH_TRAVERSAL_ENTRY'' name else Inr ())"

definition check_entry_names :: "string list \<Rightarrow> unit res" where
  "check_entry_names names = rfold check_entry_name names ()"

definition check_ratio :: "zip_info \<Rightarrow> unit \<Rightarrow> unit res" where
  "check_ratio i _ =
     (if zi_file_size i < min_entry_size_for_ratio_check then Inr ()
      else if max_entry_compression_ratio * max (zi_compress_size i) 1 < zi_file_size i
      then noted ''ZIP_BOMB_SUSPECTED'' (zi_filename i) else Inr ())"

definition check_entry_counts_and_ratios :: "zip_info list \<Rightarrow> unit res" where
  "check_entry_counts_and_ratios infos =
     (if max_zip_entries < length infos then reject ''EXCESSIVE_ZIP_ENTRIES'' []
      else if max_total_uncompressed_bytes < sum_list (map zi_file_size infos) then reject ''ZIP_BOMB_SUSPECTED'' []
      else rfold check_ratio infos ())"

section \<open>Active content\<close>

definition content_types_entry :: string where "content_types_entry = ''[Content_Types].xml''"
definition vba_project_entry :: string where "vba_project_entry = ''xl/vbaProject.bin''"
definition external_links_prefix :: string where "external_links_prefix = ''xl/externalLinks/''"
definition embeddings_prefix :: string where "embeddings_prefix = ''xl/embeddings/''"

definition in_sheet :: "string \<Rightarrow> string \<Rightarrow> 'a res" where
  "in_sheet code sheet = reject code [[(''sheet'', sheet)]]"

text \<open>A part that cannot be read as ZIP counts as empty here, any other failure is raised.\<close>

definition content_types_text :: "archive \<Rightarrow> string res" where
  "content_types_text a =
     (case ar_content_types a of
        Inl BadZipFile \<Rightarrow> Inr []
      | Inl (KeyError _) \<Rightarrow> Inr []
      | Inl e \<Rightarrow> Inl e
      | Inr t \<Rightarrow> Inr t)"

definition check_content_types :: "archive \<Rightarrow> unit res" where
  "check_content_types a =
     rbind (content_types_text a) (\<lambda>xml.
       if list_ex (contains xml) [''macroEnabled'', ''ms-excel.sheet.macroEnabled'']
       then in_sheet ''MACRO_ENABLED_WORKBOOK'' content_types_entry
       else if contains xml ''vbaProject'' then in_sheet ''VBA_PROJECT_PRESENT'' content_types_entry
       else Inr ())"

definition stray_binary :: "string \<Rightarrow> bool" where
  "stray_binary name \<longleftrightarrow> suffix ''.bin'' name \<and> name \<noteq> vba_project_entry \<and> \<not> contains name embeddings_prefix"

definition check_active_content :: "string list \<Rightarrow> archive \<Rightarrow> unit res" where
  "check_active_content names a =
     (if vba_project_entry \<in> set names then noted ''VBA_PROJECT_PRESENT'' vba_project_entry
      else
        rbind (if content_types_entry \<in> set names then check_content_types a else Inr ()) (\<lambda>_.
        if list_ex (prefix external_links_prefix) names then reject ''EXTERNAL_LINK_PRESENT'' []
        else if list_ex (prefix embeddings_prefix) names then reject ''OLE_EMBEDDED_OBJECT'' []
        else (case find stray_binary names of
                Some name \<Rightarrow> noted ''OLE_EMBEDDED_OBJECT'' name
              | None \<Rightarrow> Inr ())))"

section \<open>Relationships\<close>

definition in_part :: "string \<Rightarrow> string \<Rightarrow> string \<Rightarrow> 'a res" where
  "in_part code sheet note = reject code [[(''sheet'', sheet), (''note'', note)]]"

definition drive_qualified :: "string \<Rightarrow> bool" where
  "drive_qualified t \<longleftrightarrow> (case t of c # d # _ \<Rightarrow> d = CHR '':'' \<and> is_letter c | _ \<Rightarrow> False)"

definition check_relationship :: "string \<Rightarrow> element \<Rightarrow> unit \<Rightarrow> unit res" where
  "check_relationship part x _ =
     (let ty = dget_default (snd x) ''Type'' []; tg = dget_default (snd x) ''Target'' [];
          mode = dget_default (snd x) ''TargetMode'' ''Internal'' in
      if \<not> suffix ''}Relationship'' (fst x) then Inr ()
      else if contains ty ''oleObject'' then in_sheet ''OLE_EMBEDDED_OBJECT'' part
      else if mode = ''External'' then
        (if contains (py_lower ty) ''externallink'' then in_sheet ''EXTERNAL_LINK_PRESENT'' part
         else in_part ''UNSAFE_RELATIONSHIP'' part tg)
      else if traverses tg then in_part ''UNSAFE_RELATIONSHIP'' part tg
      else if drive_qualified tg then in_part ''UNSAFE_RELATIONSHIP'' part tg
      else if contains tg ''://'' then in_part ''UNSAFE_RELATIONSHIP'' part tg
      else Inr ())"

definition check_rels_part :: "archive \<Rightarrow> string \<Rightarrow> unit \<Rightarrow> unit res" where
  "check_rels_part a part u =
     (case dget (ar_rels a) part of
        None \<Rightarrow> Inl (KeyError part)
      | Some (Unreadable e) \<Rightarrow> Inl e
      | Some NotWellFormed \<Rightarrow> in_sheet ''CORRUPT_ARCHIVE'' part
      | Some (Elements xs) \<Rightarrow> rfold (check_relationship part) xs u)"

definition check_relationships :: "string list \<Rightarrow> archive \<Rightarrow> unit res" where
  "check_relationships names a = rfold (check_rels_part a) (filter (suffix ''.rels'') names) ()"

definition archive_names :: "archive \<Rightarrow> string list" where
  "archive_names a = map zi_filename (ar_infolist a)"

text \<open>\<open>order\<close> is how Python iterates the set of the names; \<open>None\<close> is an archive that does not open.\<close>

definition validate_archive_safety :: "(string list \<Rightarrow> string list) \<Rightarrow> archive option \<Rightarrow> archive res" where
  "validate_archive_safety order opened =
     (case opened of
        None \<Rightarrow> reject ''CORRUPT_ARCHIVE'' []
      | Some a \<Rightarrow>
          rbind (check_entry_counts_and_ratios (ar_infolist a)) (\<lambda>_.
          rbind (check_entry_names (archive_names a)) (\<lambda>_.
          rbind (check_active_content (order (archive_names a)) a) (\<lambda>_.
          rbind (check_relationships (order (archive_names a)) a) (\<lambda>_. Inr a)))))"

end
