(* ===== verification/WorkbookCompiler.thy ===== *)
theory WorkbookCompiler
  imports WorkbookMapping WorkbookSafety
begin

text \<open>
  The compiler of a workbook, \<open>src/backend/app/ingestion/workbook_v1/compiler.py\<close>, and its receipt
  (\<open>receipt.py\<close>).

  What the code takes from libraries and from the process is the record \<open>platform\<close>: the digest and the
  reading of the bytes (\<open>hashlib\<close>, \<open>zipfile\<close>, \<open>openpyxl\<close>), the clock, how pydantic reads a date, the two
  orders in which Python iterates a set of strings, and networkx' cycle test and topological sort.
\<close>

record platform =
  pf_sha256 :: "byte list \<Rightarrow> string"
  pf_now :: string
  pf_open_zip :: "byte list \<Rightarrow> archive option"
  pf_load :: "byte list \<Rightarrow> workbook option"
  pf_order :: "string list \<Rightarrow> string list"
  pf_logical_ops :: "logical_operator list"
  pf_parse_date :: "string \<Rightarrow> date option"
  pf_cyclic :: cycle_test
  pf_topo :: topo_sort

section \<open>The receipt\<close>

datatype compile_status = VERIFIED | REVIEW_REQUIRED | REJECTED

datatype compile_warning = NoControlCases | CaseExecutionFailed exn

record receipt =
  wr_artifact_sha256 :: string
  wr_compiler_version :: string
  wr_sheets_found :: "string list"
  wr_supported_constructs :: "string list"
  wr_node_counts :: "(string, nat) dict"
  wr_control_case_results :: "control_case_result list"
  wr_warnings :: "compile_warning list"
  wr_errors :: "(string \<times> (string \<times> string) list list) list"
  wr_metadata :: "(string, string) dict"
  wr_status :: compile_status
  wr_package :: "ipir_package_v2 option"

definition is_verified :: "receipt \<Rightarrow> bool" where
  "is_verified r \<longleftrightarrow> wr_status r = VERIFIED"

section \<open>From the bytes to a package\<close>

definition load_workbook_safely :: "platform \<Rightarrow> byte list \<Rightarrow> workbook res" where
  "load_workbook_safely pf content =
     (case pf_load pf content of None \<Rightarrow> reject ''CORRUPT_ARCHIVE'' [] | Some wb \<Rightarrow> Inr wb)"

definition all_rows :: "workbook \<Rightarrow> (string, (string, nat) dict) dict \<Rightarrow> (string, row list) dict" where
  "all_rows wb header_maps =
     map (\<lambda>(sheet, headers). (sheet, case dget wb sheet of None \<Rightarrow> [] | Some g \<Rightarrow> extract_rows g headers)) header_maps"

definition workbook_parts_of :: "platform \<Rightarrow> (string, row list) dict \<Rightarrow> workbook_parts res" where
  "workbook_parts_of pf rows =
     (let at_sheet = (\<lambda>s. dget_default rows s []) in
      rbind (build_inputs (at_sheet ''RG_INPUTS'')) (\<lambda>inputs.
      rbind (build_constants (at_sheet ''RG_CONSTANTS'')) (\<lambda>constants.
      rbind (build_tables (at_sheet ''RG_TABLES'')) (\<lambda>tables.
      rbind (build_calculations (pf_logical_ops pf) (at_sheet ''RG_CALCULATIONS'')) (\<lambda>calculations.
      rbind (build_outputs calculations (at_sheet ''RG_OUTPUTS'')) (\<lambda>outputs.
      rbind (build_control_cases (at_sheet ''RG_CONTROL_CASES'')) (\<lambda>cases.
        Inr \<lparr>wp_inputs = inputs, wp_constants = constants, wp_tables = tables, wp_calculations = calculations,
             wp_outputs = outputs, wp_cases = cases\<rparr>)))))))"

record compiled =
  cd_sheets :: "string list"
  cd_metadata :: "(string, string) dict"
  cd_package :: ipir_package_v2

text \<open>The stages of the \<open>try\<close>, once the workbook is loaded.\<close>

definition compile_rows :: "platform \<Rightarrow> string \<Rightarrow> workbook \<Rightarrow> compiled res" where
  "compile_rows pf digest wb =
     rbind (validate_required_sheets_and_columns wb) (\<lambda>header_maps.
     rbind (scan_all_required_sheets wb) (\<lambda>_.
     let rows = all_rows wb header_maps in
     rbind (build_metadata (dget_default rows ''RG_METADATA'' [])) (\<lambda>metadata.
     rbind (workbook_parts_of pf rows) (\<lambda>parts.
     rbind (build_package (pf_cyclic pf) (pf_parse_date pf) digest (pf_now pf) metadata parts) (\<lambda>p.
       Inr \<lparr>cd_sheets = map fst wb, cd_metadata = metadata, cd_package = p\<rparr>)))))"

definition compile_package :: "platform \<Rightarrow> byte list \<Rightarrow> string \<Rightarrow> compiled res" where
  "compile_package pf content filename =
     rbind (validate_upload_basics content filename) (\<lambda>_.
     rbind (validate_archive_safety (pf_order pf) (pf_open_zip pf content)) (\<lambda>_.
     rbind (load_workbook_safely pf content) (\<lambda>wb.
       compile_rows pf (pf_sha256 pf content) wb)))"

section \<open>The control cases and the status\<close>

text \<open>The exceptions of \<open>run_control_cases\<close> become a warning.\<close>

definition execute_cases :: "platform \<Rightarrow> ipir_package_v2 \<Rightarrow> (control_case_result list \<times> compile_warning list) res" where
  "execute_cases pf p =
     (if p2_control_cases p = [] then Inr ([], [NoControlCases])
      else (case run_control_cases (pf_topo pf) p of
              Inr rs \<Rightarrow> Inr (rs, [])
            | Inl e \<Rightarrow> if e = OutOfModel then Inl OutOfModel else Inr ([], [CaseExecutionFailed e])))"

definition final_status :: "control_case_result list \<Rightarrow> compile_warning list \<Rightarrow> compile_status" where
  "final_status results warnings =
     (if results \<noteq> [] \<and> list_all cr_passed results \<and> warnings = [] then VERIFIED else REVIEW_REQUIRED)"

fun binary_text :: "binary_operator \<Rightarrow> string" where
  "binary_text B_ADD = ''ADD''" | "binary_text B_SUBTRACT = ''SUBTRACT''" | "binary_text B_MULTIPLY = ''MULTIPLY''"
| "binary_text B_DIVIDE = ''DIVIDE''" | "binary_text B_MIN = ''MIN''" | "binary_text B_MAX = ''MAX''"

fun nary_text :: "nary_operator \<Rightarrow> string" where
  "nary_text N_ADD = ''ADD''" | "nary_text N_MULTIPLY = ''MULTIPLY''" | "nary_text N_MIN = ''MIN''" | "nary_text N_MAX = ''MAX''"

fun operator_label :: "expr2 \<Rightarrow> string" where
  "operator_label (Binary2 op _ _) = binary_text op"
| "operator_label (Nary2 op _) = nary_text op"
| "operator_label (Negate2 _) = ''NEGATE''"
| "operator_label (Round2 _ _ _) = ''ROUND''"
| "operator_label (TableLookup2 _) = ''LOOKUP''"
| "operator_label (Conditional2 _ _ _) = ''IF''"
| "operator_label (Literal2 _) = ''LITERAL''"
| "operator_label (Reference2 _) = ''REFERENCE''"

definition used_operators :: "ipir_package_v2 \<Rightarrow> string list" where
  "used_operators p = sorted_set (map (\<lambda>c. operator_label (c2_expression c)) (p2_calculations p))"

definition node_counts :: "ipir_package_v2 \<Rightarrow> (string, nat) dict" where
  "node_counts p =
     [(''inputs'', length (p2_inputs p)), (''constants'', length (p2_constants p)), (''tables'', length (p2_tables p)),
      (''calculations'', length (p2_calculations p)), (''outputs'', length (p2_outputs p)),
      (''control_cases'', length (p2_control_cases p))]"

definition display_metadata :: "(string, string) dict \<Rightarrow> (string, string) dict" where
  "display_metadata metadata = map (\<lambda>(k, v). (k, sanitize_display_and_export v)) metadata"

definition rejected_receipt :: "string \<Rightarrow> string \<Rightarrow> (string \<times> string) list list \<Rightarrow> receipt" where
  "rejected_receipt digest code details =
     \<lparr>wr_artifact_sha256 = digest, wr_compiler_version = compiler_version, wr_sheets_found = [],
      wr_supported_constructs = [], wr_node_counts = [], wr_control_case_results = [], wr_warnings = [],
      wr_errors = [(code, details)], wr_metadata = [], wr_status = REJECTED, wr_package = None\<rparr>"

definition compiled_receipt ::
  "string \<Rightarrow> compiled \<Rightarrow> control_case_result list \<Rightarrow> compile_warning list \<Rightarrow> receipt" where
  "compiled_receipt digest c results warnings =
     \<lparr>wr_artifact_sha256 = digest, wr_compiler_version = compiler_version, wr_sheets_found = cd_sheets c,
      wr_supported_constructs = used_operators (cd_package c), wr_node_counts = node_counts (cd_package c),
      wr_control_case_results = results, wr_warnings = warnings, wr_errors = [],
      wr_metadata = display_metadata (cd_metadata c), wr_status = final_status results warnings,
      wr_package = Some (cd_package c)\<rparr>"

text \<open>Only a rejection is caught.\<close>

definition compile_workbook :: "platform \<Rightarrow> byte list \<Rightarrow> string \<Rightarrow> receipt res" where
  "compile_workbook pf content filename =
     (case compile_package pf content filename of
        Inl (WorkbookRejectionError code details) \<Rightarrow> Inr (rejected_receipt (pf_sha256 pf content) code details)
      | Inl e \<Rightarrow> Inl e
      | Inr c \<Rightarrow>
          rbind (execute_cases pf (cd_package c)) (\<lambda>(results, warnings).
            Inr (compiled_receipt (pf_sha256 pf content) c results warnings)))"

end
