(* ===== verification/WorkbookLaws.thy ===== *)
theory WorkbookLaws
  imports WorkbookCompiler IpirV2Samples
begin

text \<open>What a receipt of the workbook compiler promises: when a workbook is VERIFIED, that its package is always
  one that the oracle can be given, and what an upload that is opened cannot contain.
\<close>

section \<open>Receipts\<close>

lemma compile_workbook_package:
  assumes "compile_workbook pf content filename = Inr r" "wr_package r = Some p"
  obtains c results warnings where "compile_package pf content filename = Inr c" "p = cd_package c"
    "execute_cases pf p = Inr (results, warnings)" "r = compiled_receipt (pf_sha256 pf content) c results warnings"
proof (cases "compile_package pf content filename")
  case (Inl e)
  then show ?thesis using assms by (cases e) (auto simp: compile_workbook_def rejected_receipt_def)
next
  case (Inr c)
  then obtain results warnings where x: "execute_cases pf (cd_package c) = Inr (results, warnings)"
    "r = compiled_receipt (pf_sha256 pf content) c results warnings"
    using assms(1) by (auto simp: compile_workbook_def rbind_Inr_iff)
  then have "p = cd_package c" using assms(2) by (simp add: compiled_receipt_def)
  then show ?thesis using that Inr x by blast
qed

lemma receipt_has_package: "compile_workbook pf content filename = Inr r \<Longrightarrow> wr_status r \<noteq> REJECTED \<Longrightarrow> \<exists>p. wr_package r = Some p"
  unfolding compile_workbook_def
  by (auto simp: rejected_receipt_def compiled_receipt_def rbind_Inr_iff split: sum.splits exn.splits)

section \<open>A compiled package can be lowered\<close>

text \<open>An operand is a number or a name: a ROUND cannot be written inside another expression.\<close>

definition leaf :: "expr2 \<Rightarrow> bool" where
  "leaf e \<longleftrightarrow> (case e of Literal2 _ \<Rightarrow> True | Reference2 _ \<Rightarrow> True | _ \<Rightarrow> False)"

lemma leaf_no_round: "leaf e \<Longrightarrow> \<not> has_round e"
  by (cases e) (simp_all add: leaf_def)

lemma reject_not_Inr [simp]: "reject code details \<noteq> Inr x"
  by (simp add: reject_def)

lemma parse_operand_leaf: "parse_operand t sheet place = Inr e \<Longrightarrow> leaf e"
  by (auto simp: parse_operand_def Let_def leaf_def split: if_splits sum.splits)

lemma parse_comparison_no_round: "parse_comparison t sheet place = Inr c \<Longrightarrow> \<not> cond_has_round c"
  unfolding parse_comparison_def
  by (auto simp: rbind_Inr_iff dest!: parse_operand_leaf leaf_no_round split: list.splits option.splits)

lemma parse_condition_no_round: "parse_condition ops t sheet place = Inr c \<Longrightarrow> \<not> cond_has_round c"
  unfolding parse_condition_def Let_def
  by (auto simp: rbind_Inr_iff dest!: parse_comparison_no_round split: if_splits option.splits)

lemma validated_has_round:
  "validate_expr2 e = Inr e' \<Longrightarrow> has_round e' = has_round e"
  "validate_cond2 c = Inr c' \<Longrightarrow> cond_has_round c' = cond_has_round c"
proof (induction e and c arbitrary: e' and c' rule: validate_expr2_validate_cond2.induct)
  case (5 op es)
  then obtain es' where es: "list_all2 (\<lambda>x y. validate_expr2 x = Inr y) es es'" "e' = Nary2 op es'"
    by (auto simp: rbind_Inr_iff rmap_list_Inr_iff split: if_splits)
  from es(1) 5(1) have "list_ex has_round es' = list_ex has_round es" by (induction rule: list_all2_induct) auto
  with es(2) show ?case by simp
next
  case (10 op cs)
  then obtain cs' where cs: "list_all2 (\<lambda>x y. validate_cond2 x = Inr y) cs cs'" "c' = Logic2 op cs'"
    by (auto simp: rbind_Inr_iff rmap_list_Inr_iff split: if_splits)
  from cs(1) 10(1) have "list_ex cond_has_round cs' = list_ex cond_has_round cs" by (induction rule: list_all2_induct) auto
  with cs(2) show ?case by simp
qed (auto simp: rbind_Inr_iff split: if_splits)

lemma validated_body:
  assumes "validate_expr2 e = Inr e'"
  shows "has_round (body_of e') = has_round (body_of e)"
proof (cases "\<exists>x scale m. e = Round2 x scale m")
  case True
  then obtain x scale m x' where "e = Round2 x scale m" "validate_expr2 x = Inr x'" "e' = Round2 x' scale m"
    using assms by (auto simp: rbind_Inr_iff split: if_splits)
  then show ?thesis by (simp add: body_of_def validated_has_round(1))
next
  case False
  then have "body_of e = e" "body_of e' = e'" using assms by (cases e; auto simp: body_of_def rbind_Inr_iff split: if_splits)+
  then show ?thesis using validated_has_round(1) [OF assms] by simp
qed

lemma binary_expression_no_round: "binary_expression op row i = Inr e \<Longrightarrow> \<not> has_round (body_of e)"
  by (auto simp: binary_expression_def body_of_def rbind_Inr_iff dest!: parse_operand_leaf leaf_no_round split: if_splits)

lemma if_expression_no_round: "if_expression ops row i = Inr e \<Longrightarrow> \<not> has_round (body_of e)"
proof -
  assume "if_expression ops row i = Inr e"
  then obtain c a b x y where "parse_condition ops (operand_text (cell_at row ''operand_1'')) calc_sheet i = Inr c"
    "parse_operand a calc_sheet i = Inr x" "parse_operand b calc_sheet i = Inr y" "e = Conditional2 c x y"
    unfolding if_expression_def rbind_Inr_iff by (fastforce simp: rbind_Inr_iff split: list.splits)
  then show ?thesis by (auto simp: body_of_def dest!: parse_operand_leaf leaf_no_round parse_condition_no_round)
qed

lemma round_expression_no_round: "round_expression row i = Inr e \<Longrightarrow> \<not> has_round (body_of e)"
  by (auto simp: round_expression_def body_of_def rbind_Inr_iff validated_has_round dest!: parse_operand_leaf leaf_no_round
     dest: validated_has_round split: option.splits if_splits)

lemma lookup_expression_no_round: "lookup_expression c i = Inr e \<Longrightarrow> \<not> has_round (body_of e)"
  by (auto simp: lookup_expression_def body_of_def rbind_Inr_iff split: option.splits)

lemma build_expression_no_round: "build_expression ops row i = Inr e \<Longrightarrow> \<not> has_round (body_of e)"
  unfolding build_expression_def Let_def
  by (auto dest: binary_expression_no_round if_expression_no_round round_expression_no_round lookup_expression_no_round
     split: if_splits option.splits)

lemma build_rows_each:
  assumes "build_rows f rows = Inr xs" "x \<in> set xs"
  shows "\<exists>row \<in> set rows. f row = Inr (Some x)"
proof -
  from assms(1) obtain ys where ys: "list_all2 (\<lambda>row y. f row = Inr y) rows ys" "xs = List.map_filter id ys"
    by (auto simp: build_rows_def rbind_Inr_iff rmap_list_Inr_iff)
  then have "Some x \<in> set ys" using assms(2) by (auto simp: map_filter_def)
  with ys(1) show ?thesis by (induction rule: list_all2_induct) auto
qed

lemma build_calculations_no_round:
  assumes "build_calculations ops rows = Inr ns" "n \<in> set ns"
  shows "\<not> has_round (body_of (c2_expression n))"
proof -
  obtain row where "build_calculation ops row = Inr (Some n)"
    using build_rows_each [OF assms [unfolded build_calculations_def]] by blast
  then obtain i e where e: "build_expression ops row i = Inr e" "validate_expr2 e = Inr (c2_expression n)"
    by (auto simp: build_calculation_def for_id_def rbind_Inr_iff validate_node_v2_def split: option.splits)
  then show ?thesis using build_expression_no_round validated_body by blast
qed

text \<open>What is known of the package of a compilation.\<close>

definition workbook_source :: "string \<Rightarrow> string \<Rightarrow> source_metadata \<Rightarrow> bool" where
  "workbook_source digest now src \<longleftrightarrow> sm_type src = CONTROLLED_XLSX \<and> sm_artifact_sha256 src = py_lower (py_strip digest)
     \<and> sm_compiler_version src = compiler_version \<and> sm_compiled_at src = now"

lemma new_package_constructed:
  assumes "new_package cyclic parse_date digest now metadata txns w = Inr p"
  shows "\<exists>raw. construct_package_v2 cyclic raw = Inr p \<and> p2_calculations raw = wp_calculations w
    \<and> p2_outputs raw = wp_outputs w \<and> p2_control_cases raw = wp_cases w \<and> workbook_source digest now (p2_source raw)"
proof -
  from assms obtain src where src: "validate_hash \<lparr>sm_type = CONTROLLED_XLSX, sm_artifact_sha256 = digest,
      sm_compiler_version = compiler_version, sm_compiled_at = now\<rparr> = Inr src"
    and rest: "\<exists>raw. construct_package_v2 cyclic raw = Inr p \<and> p2_calculations raw = wp_calculations w
    \<and> p2_outputs raw = wp_outputs w \<and> p2_control_cases raw = wp_cases w \<and> p2_source raw = src"
    unfolding new_package_def rbind_Inr_iff by fastforce
  have "workbook_source digest now src"
    using src by (auto simp: validate_hash_def workbook_source_def Let_def split: if_splits)
  with rest show ?thesis by metis
qed

lemma build_package_new:
  "build_package cyclic parse_date digest now metadata w = Inr p \<Longrightarrow>
   \<exists>txns. new_package cyclic parse_date digest now metadata txns w = Inr p"
proof -
  assume "build_package cyclic parse_date digest now metadata w = Inr p"
  then obtain txns where txns: "(case new_package cyclic parse_date digest now metadata txns w of
         Inr p \<Rightarrow> Inr p
       | Inl (ValidationError kind) \<Rightarrow> reject (classify_ipir_validation_error (wp_tables w) kind) []
       | Inl ValueError \<Rightarrow> reject ''IPIR_VALIDATION_FAILED'' []
       | Inl e \<Rightarrow> Inl e) = Inr p"
    unfolding build_package_def rbind_Inr_iff by blast
  show ?thesis
  proof (cases "new_package cyclic parse_date digest now metadata txns w")
    case (Inl e)
    then show ?thesis using txns by (cases e) simp_all
  next
    case (Inr p')
    then show ?thesis using txns by auto
  qed
qed

lemma build_package_constructed:
  assumes "build_package cyclic parse_date digest now metadata w = Inr p"
  shows "\<exists>raw. construct_package_v2 cyclic raw = Inr p \<and> p2_calculations raw = wp_calculations w
    \<and> p2_outputs raw = wp_outputs w \<and> p2_control_cases raw = wp_cases w \<and> workbook_source digest now (p2_source raw)"
  using build_package_new [OF assms] by (metis new_package_constructed)

lemma compile_package_Inr:
  assumes "compile_package pf content filename = Inr c"
  obtains a wb headers parts where "validate_upload_basics content filename = Inr ()"
    "validate_archive_safety (pf_order pf) (pf_open_zip pf content) = Inr a" "pf_load pf content = Some wb"
    "workbook_parts_of pf (all_rows wb headers) = Inr parts"
    "build_package (pf_cyclic pf) (pf_parse_date pf) (pf_sha256 pf content) (pf_now pf) (cd_metadata c) parts = Inr (cd_package c)"
proof -
  from assms obtain a wb where 1: "validate_upload_basics content filename = Inr ()"
    "validate_archive_safety (pf_order pf) (pf_open_zip pf content) = Inr a" "pf_load pf content = Some wb"
    "compile_rows pf (pf_sha256 pf content) wb = Inr c"
    by (auto simp: compile_package_def load_workbook_safely_def rbind_Inr_iff split: option.splits)
  from 1(4) obtain headers parts where "workbook_parts_of pf (all_rows wb headers) = Inr parts"
    "build_package (pf_cyclic pf) (pf_parse_date pf) (pf_sha256 pf content) (pf_now pf) (cd_metadata c) parts = Inr (cd_package c)"
    by (auto simp: compile_rows_def Let_def rbind_Inr_iff)
  with 1 that show ?thesis by blast
qed

lemma parts_no_round:
  assumes "workbook_parts_of pf rows = Inr parts" "n \<in> set (wp_calculations parts)"
  shows "\<not> has_round (body_of (c2_expression n))"
  using assms build_calculations_no_round by (auto simp: workbook_parts_of_def Let_def rbind_Inr_iff)

lemma constructed_calculations:
  assumes "construct_package_v2 cyclic raw = Inr p"
  shows "list_all2 (\<lambda>n m. validate_node_v2 n = Inr m) (p2_calculations raw) (p2_calculations p)"
    "list_all2 (\<lambda>c d. validate_case c = Inr d) (p2_control_cases raw) (p2_control_cases p)"
proof -
  from assms obtain src prod period ins cs ts ns os ccs where ns: "rmap_list validate_node_v2 (p2_calculations raw) = Inr ns"
    and cc: "rmap_list validate_case (p2_control_cases raw) = Inr ccs"
    and v: "validate_package_v2 cyclic (raw\<lparr>p2_source := src, p2_product := prod, p2_period := period, p2_inputs := ins, p2_constants := cs,
            p2_tables := ts, p2_calculations := ns, p2_outputs := os, p2_control_cases := ccs\<rparr>) = Inr p" (is "validate_package_v2 cyclic ?p = _")
    unfolding construct_package_v2_def rbind_Inr_iff by blast
  have eq: "p = ?p\<lparr>p2_id := p2_id p\<rparr>" by (rule validate_package_v2_Inr(1) [OF v])
  have "p2_calculations p = ns" "p2_control_cases p = ccs" by (subst eq, simp)+
  then show "list_all2 (\<lambda>n m. validate_node_v2 n = Inr m) (p2_calculations raw) (p2_calculations p)"
    "list_all2 (\<lambda>c d. validate_case c = Inr d) (p2_control_cases raw) (p2_control_cases p)"
    using ns cc by (simp_all add: rmap_list_Inr_iff)
qed

lemma list_all2_from: "list_all2 P xs ys \<Longrightarrow> y \<in> set ys \<Longrightarrow> \<exists>x \<in> set xs. P x y"
  by (induction rule: list_all2_induct) auto

lemma validated_node_body:
  assumes "validate_node_v2 n = Inr m"
  shows "has_round (body_of (c2_expression m)) = has_round (body_of (c2_expression n))"
proof -
  from assms have "validate_expr2 (c2_expression n) = Inr (c2_expression m)" by (auto simp: validate_node_v2_def rbind_Inr_iff)
  then show ?thesis by (rule validated_body)
qed

lemma compiled_lowers:
  assumes "compile_package pf content filename = Inr c"
  shows "\<exists>q. lower_to_v0_1 (cd_package c) = Inr q"
proof -
  obtain rows parts where parts: "workbook_parts_of pf rows = Inr parts"
    and built: "build_package (pf_cyclic pf) (pf_parse_date pf) (pf_sha256 pf content) (pf_now pf) (cd_metadata c) parts = Inr (cd_package c)"
    by (rule compile_package_Inr [OF assms])
  from build_package_constructed [OF built] obtain raw where
    raw: "construct_package_v2 (pf_cyclic pf) raw = Inr (cd_package c)" "p2_calculations raw = wp_calculations parts" by blast
  have "\<not> has_round (body_of (c2_expression m))" if m: "m \<in> set (p2_calculations (cd_package c))" for m
  proof -
    from list_all2_from [OF constructed_calculations(1) [OF raw(1)] m]
    obtain n where n: "n \<in> set (wp_calculations parts)" "validate_node_v2 n = Inr m" unfolding raw(2) by blast
    show ?thesis using parts_no_round [OF parts n(1)] validated_node_body [OF n(2)] by simp
  qed
  then have "\<not> list_ex (\<lambda>n. has_round (body_of (c2_expression n))) (p2_calculations (cd_package c))" by (simp add: list_ex_iff)
  with lower_to_v0_1_total [OF raw(1)] show ?thesis by simp
qed

lemma run_case_total: "run_case topo p q c x = Inl e \<Longrightarrow> e = OutOfModel"
  by (cases x) (auto simp: run_case_def split: if_splits sum.splits exn.splits)

lemma rmap_list_raised: "rmap_list f xs = Inl e \<Longrightarrow> \<exists>x \<in> set xs. f x = Inl e"
  by (induction xs) (auto simp: rbind_Inl_iff)

lemma rmap_list_each:
  assumes "rmap_list f xs = Inr ys" "list_all P ys" "x \<in> set xs"
  shows "\<exists>y. f x = Inr y \<and> P y"
  using rmap_list_InrD [OF assms(1)] assms(2,3)
  by (induction rule: list_all2_induct) auto

lemma cases_executed:
  assumes "compile_package pf content filename = Inr c" "execute_cases pf (cd_package c) = Inr (results, warnings)"
  shows "warnings = (if p2_control_cases (cd_package c) = [] then [NoControlCases] else [])
     \<and> (p2_control_cases (cd_package c) = [] \<longrightarrow> results = [])
     \<and> (p2_control_cases (cd_package c) \<noteq> [] \<longrightarrow> run_control_cases (pf_topo pf) (cd_package c) = Inr results)"
proof -
  obtain q where q: "lower_to_v0_1 (cd_package c) = Inr q" using compiled_lowers [OF assms(1)] by blast
  have "e = OutOfModel" if run: "run_control_cases (pf_topo pf) (cd_package c) = Inl e" for e
  proof -
    from run q obtain x where "(\<lambda>(c', x). run_case (pf_topo pf) (cd_package c) q c' x) x = Inl e"
      unfolding run_control_cases_def by (auto dest!: rmap_list_raised)
    then show ?thesis by (cases x) (auto dest: run_case_total)
  qed
  then show ?thesis using assms(2) by (auto simp: execute_cases_def split: if_splits sum.splits)
qed

text \<open>C36: Whatever a workbook writes, a package that compiles can be given to the oracle: lowering never
  refuses it, the control cases run, and the warning that their execution failed is never given.\<close>

theorem workbook_always_lowered:
  assumes "compile_workbook pf content filename = Inr r" "wr_package r = Some p"
  shows "(\<exists>q. lower_to_v0_1 p = Inr q) \<and> (\<forall>e. CaseExecutionFailed e \<notin> set (wr_warnings r))
    \<and> (p2_control_cases p \<noteq> [] \<longrightarrow> run_control_cases (pf_topo pf) p = Inr (wr_control_case_results r))"
proof -
  from compile_workbook_package [OF assms] obtain c results warnings where
    c: "compile_package pf content filename = Inr c" "p = cd_package c" "execute_cases pf p = Inr (results, warnings)"
       "r = compiled_receipt (pf_sha256 pf content) c results warnings" by metis
  then show ?thesis
    using compiled_lowers [OF c(1)] cases_executed [OF c(1)] by (auto simp: compiled_receipt_def)
qed

section \<open>Verified\<close>

text \<open>The premium of a case, the value of the source of the first output, lies within the tolerance of a number.\<close>

definition premium_matches :: "platform \<Rightarrow> ipir_package_v2 \<Rightarrow> ipir_package \<Rightarrow> control_case \<Rightarrow> string \<Rightarrow> bool" where
  "premium_matches pf p q c x \<longleftrightarrow>
     (\<exists>d t run v premium want diff gap. case_effective_date p c = Inr d \<and> case_transaction_type p c = Inr t
        \<and> evaluate_package (pf_topo pf) q (cc_inputs c) d t False = Inr run
        \<and> dget (or_resolved_values run) (o2_source_ref (hd (p2_outputs p))) = Some v \<and> to_dec v = Inr premium
        \<and> decimal_of_string x = Inr want
        \<and> dec_sub premium want = Inr diff \<and> dec_abs diff = Inr gap \<and> dval gap \<le> dval (cc_tolerance c))"

lemma run_case_passed:
  assumes "run_case (pf_topo pf) p q c (out, x) = Inr r" "construct_package_v2 cyclic raw = Inr p" "lower_to_v0_1 p = Inr q"
  shows "cr_passed r \<longleftrightarrow> out \<in> o2_id ` set (p2_outputs p) \<and> premium_matches pf p q c x"
proof -
  note premium = lowered_premium [OF assms(2,3)]
  show ?thesis
  proof (cases "out \<in> o2_id ` set (p2_outputs p)")
    case False
    then show ?thesis using assms(1) by (auto simp: run_case_def failed_case_def)
  next
    case True
    show ?thesis
    proof (cases "try_case (pf_topo pf) p q c out x")
      case (Inl e)
      have "\<not> premium_matches pf p q c x"
      proof
        assume "premium_matches pf p q c x"
        then obtain d t run v premium want diff gap where m: "case_effective_date p c = Inr d" "case_transaction_type p c = Inr t"
          "evaluate_package (pf_topo pf) q (cc_inputs c) d t False = Inr run"
          "dget (or_resolved_values run) (o2_source_ref (hd (p2_outputs p))) = Some v" "to_dec v = Inr premium"
          "decimal_of_string x = Inr want" "dec_sub premium want = Inr diff" "dec_abs diff = Inr gap"
          unfolding premium_matches_def by blast
        have "premium = or_final_premium run" using premium [OF m(3)] m(4,5) by auto
        then show False using m Inl by (simp add: try_case_def)
      qed
      moreover have "\<not> cr_passed r" using assms(1) Inl by (auto simp: run_case_def failed_case_def split: if_splits exn.splits)
      ultimately show ?thesis by blast
    next
      case (Inr r')
      then have "r' = r" using assms(1) True by (auto simp: run_case_def)
      with Inr obtain d t run want diff gap where run: "case_effective_date p c = Inr d" "case_transaction_type p c = Inr t"
          "evaluate_package (pf_topo pf) q (cc_inputs c) d t False = Inr run" "decimal_of_string x = Inr want"
          "dec_sub (or_final_premium run) want = Inr diff" "dec_abs diff = Inr gap" "cr_passed r = dec_le gap (cc_tolerance c)"
        by (fastforce simp: try_case_def rbind_Inr_iff)
      have "premium_matches pf p q c x \<longleftrightarrow> dval gap \<le> dval (cc_tolerance c)"
        unfolding premium_matches_def using run premium [OF run(3)] by auto
      then show ?thesis using True run(7) by simp
    qed
  qed
qed

lemma rmap_list_all_iff:
  assumes "rmap_list f xs = Inr ys"
  shows "list_all P ys \<longleftrightarrow> (\<forall>x \<in> set xs. \<forall>y. f x = Inr y \<longrightarrow> P y)"
  using rmap_list_InrD [OF assms] by (induction rule: list_all2_induct) auto

lemma results_passed:
  assumes "run_control_cases (pf_topo pf) p = Inr results" "construct_package_v2 cyclic raw = Inr p" "lower_to_v0_1 p = Inr q"
  shows "list_all cr_passed results \<longleftrightarrow> (\<forall>c \<in> set (p2_control_cases p). \<forall>(out, x) \<in> set (cc_expected c).
       out \<in> o2_id ` set (p2_outputs p) \<and> premium_matches pf p q c x)"
proof -
  let ?xs = "concat (map (\<lambda>c. map (\<lambda>x. (c, x)) (cc_expected c)) (p2_control_cases p))"
  have rs: "rmap_list (\<lambda>(c, x). run_case (pf_topo pf) p q c x) ?xs = Inr results"
    using assms(1,3) by (simp add: run_control_cases_def)
  have each: "\<exists>r. run_case (pf_topo pf) p q c (out, x) = Inr r"
    if "c \<in> set (p2_control_cases p)" "(out, x) \<in> set (cc_expected c)" for c out x
  proof -
    have "(c, out, x) \<in> set ?xs" using that by auto
    then show ?thesis using rmap_list_each [OF rs, of "\<lambda>_. True"] by (fastforce simp: list_all_iff)
  qed
  have "list_all cr_passed results \<longleftrightarrow> (\<forall>c \<in> set (p2_control_cases p). \<forall>(out, x) \<in> set (cc_expected c).
      \<forall>r. run_case (pf_topo pf) p q c (out, x) = Inr r \<longrightarrow> cr_passed r)"
    unfolding rmap_list_all_iff [OF rs] by auto
  also have "\<dots> \<longleftrightarrow> (\<forall>c \<in> set (p2_control_cases p). \<forall>(out, x) \<in> set (cc_expected c).
       out \<in> o2_id ` set (p2_outputs p) \<and> premium_matches pf p q c x)"
    using each run_case_passed [OF _ assms(2,3)] by (intro ball_cong refl) (auto split: prod.splits)
  finally show ?thesis .
qed

lemma results_nonempty:
  assumes "run_control_cases topo p = Inr results" "construct_package_v2 cyclic raw = Inr p" "p2_control_cases p \<noteq> []"
  shows "results \<noteq> []"
proof -
  obtain c where c: "c \<in> set (p2_control_cases p)" using assms(3) by (cases "p2_control_cases p") auto
  obtain c0 where "validate_case c0 = Inr c" using list_all2_from [OF constructed_calculations(2) [OF assms(2)] c] by blast
  then have "cc_expected c \<noteq> []" by (auto simp: validate_case_def rbind_Inr_iff split: if_splits)
  with c have "concat (map (\<lambda>c. map (\<lambda>x. (c, x)) (cc_expected c)) (p2_control_cases p)) \<noteq> []" by auto
  then show ?thesis using assms(1) by (auto simp: run_control_cases_def rbind_Inr_iff dest!: rmap_list_InrD)
qed

text \<open>C35: A workbook that compiles is VERIFIED exactly when it declares a control case and, for every expected
  output of every case, that output is declared and the oracle's premium for the case lies within the
  tolerance of the expected number.  The premium is that of the package, the value of its first output,
  whichever output the case names: the expected value of another output is compared with it too, so what a
  second output would be is never looked at.\<close>

theorem verified_means_premium_matches:
  assumes "compile_workbook pf content filename = Inr r" "wr_package r = Some p"
  shows "\<exists>q. lower_to_v0_1 p = Inr q \<and> (is_verified r \<longleftrightarrow> p2_control_cases p \<noteq> [] \<and>
    (\<forall>c \<in> set (p2_control_cases p). \<forall>(out, x) \<in> set (cc_expected c).
       out \<in> o2_id ` set (p2_outputs p) \<and> premium_matches pf p q c x))"
proof -
  from compile_workbook_package [OF assms] obtain c results warnings where
    c: "compile_package pf content filename = Inr c" "p = cd_package c" "execute_cases pf p = Inr (results, warnings)"
       "r = compiled_receipt (pf_sha256 pf content) c results warnings" by metis
  obtain q where q: "lower_to_v0_1 p = Inr q" using compiled_lowers [OF c(1)] c(2) by blast
  obtain raw where raw: "construct_package_v2 (pf_cyclic pf) raw = Inr p"
    using compile_package_Inr [OF c(1)] build_package_constructed unfolding c(2) by metis
  note run = cases_executed [OF c(1) c(3) [unfolded c(2)], folded c(2)]
  have status: "is_verified r \<longleftrightarrow> results \<noteq> [] \<and> list_all cr_passed results \<and> warnings = []"
    by (simp add: is_verified_def c(4) compiled_receipt_def final_status_def)
  show ?thesis
  proof (cases "p2_control_cases p = []")
    case True
    then show ?thesis using q status run by simp
  next
    case False
    then have ran: "run_control_cases (pf_topo pf) p = Inr results" and "warnings = []" using run by simp_all
    then have "is_verified r \<longleftrightarrow> list_all cr_passed results" using status results_nonempty [OF ran raw False] by simp
    then show ?thesis unfolding results_passed [OF ran raw q] using q False by blast
  qed
qed

section \<open>An upload that is opened\<close>

lemma rfold_unit_each: "rfold f xs () = Inr () \<longleftrightarrow> (\<forall>x \<in> set xs. f x () = Inr ())"
proof (induction xs)
  case (Cons x xs)
  show ?case
  proof (cases "f x ()")
    case (Inr u)
    then show ?thesis using Cons by simp
  qed simp
qed simp

lemma check_entry_name_ok: "check_entry_name name u = Inr () \<longleftrightarrow> CHR 0x5C \<notin> set name \<and> \<not> is_absolute name \<and> \<not> traverses name"
  by (simp add: check_entry_name_def noted_def)

lemma check_ratio_ok:
  "check_ratio i u = Inr () \<longleftrightarrow> zi_file_size i < min_entry_size_for_ratio_check
     \<or> zi_file_size i \<le> max_entry_compression_ratio * max (zi_compress_size i) 1"
  by (auto simp: check_ratio_def noted_def)

definition safe_relationship :: "element \<Rightarrow> bool" where
  "safe_relationship x \<longleftrightarrow> (suffix ''}Relationship'' (fst x) \<longrightarrow>
     \<not> contains (dget_default (snd x) ''Type'' []) ''oleObject''
     \<and> dget_default (snd x) ''TargetMode'' ''Internal'' \<noteq> ''External''
     \<and> \<not> traverses (dget_default (snd x) ''Target'' []) \<and> \<not> drive_qualified (dget_default (snd x) ''Target'' [])
     \<and> \<not> contains (dget_default (snd x) ''Target'' []) ''://'')"

lemma check_relationship_ok: "check_relationship part x u = Inr () \<longleftrightarrow> safe_relationship x"
  by (simp add: check_relationship_def safe_relationship_def Let_def in_sheet_def in_part_def)

lemma check_rels_part_ok:
  "check_rels_part a part () = Inr () \<longleftrightarrow> (\<exists>xs. dget (ar_rels a) part = Some (Elements xs) \<and> (\<forall>x \<in> set xs. safe_relationship x))"
  by (simp add: check_rels_part_def rfold_unit_each check_relationship_ok in_sheet_def split: option.split rels_part.split)

lemma check_active_content_ok:
  assumes "check_active_content names a = Inr ()" "name \<in> set names"
  shows "name \<noteq> vba_project_entry \<and> \<not> prefix external_links_prefix name \<and> \<not> prefix embeddings_prefix name
    \<and> (suffix ''.bin'' name \<longrightarrow> contains name embeddings_prefix)"
  using assms by (auto simp: check_active_content_def rbind_Inr_iff noted_def list_ex_iff find_None_iff stray_binary_def split: if_splits option.splits)

lemma check_content_types_ok:
  assumes "check_active_content names a = Inr ()" "content_types_entry \<in> set names" "ar_content_types a = Inr xml"
  shows "\<not> contains xml ''macroEnabled'' \<and> \<not> contains xml ''vbaProject''"
  using assms by (auto simp: check_active_content_def check_content_types_def content_types_text_def rbind_Inr_iff noted_def in_sheet_def split: if_splits)

definition safe_entry :: "zip_info \<Rightarrow> bool" where
  "safe_entry i \<longleftrightarrow> CHR 0x5C \<notin> set (zi_filename i) \<and> \<not> is_absolute (zi_filename i) \<and> \<not> traverses (zi_filename i)
     \<and> (zi_file_size i < min_entry_size_for_ratio_check
        \<or> zi_file_size i \<le> max_entry_compression_ratio * max (zi_compress_size i) 1)
     \<and> zi_filename i \<noteq> vba_project_entry \<and> \<not> prefix external_links_prefix (zi_filename i)
     \<and> \<not> prefix embeddings_prefix (zi_filename i)
     \<and> (suffix ''.bin'' (zi_filename i) \<longrightarrow> contains (zi_filename i) embeddings_prefix)"

lemma validated_archive:
  assumes "validate_archive_safety order opened = Inr a" and order: "\<And>xs. set (order xs) = set xs"
  shows "opened = Some a" "length (ar_infolist a) \<le> max_zip_entries" "sum_list (map zi_file_size (ar_infolist a)) \<le> max_total_uncompressed_bytes"
    "\<forall>i \<in> set (ar_infolist a). safe_entry i"
    "\<forall>part \<in> set (archive_names a). suffix ''.rels'' part \<longrightarrow>
       (\<exists>xs. dget (ar_rels a) part = Some (Elements xs) \<and> (\<forall>x \<in> set xs. safe_relationship x))"
    "content_types_entry \<in> set (archive_names a) \<Longrightarrow> ar_content_types a = Inr xml \<Longrightarrow>
       \<not> contains xml ''macroEnabled'' \<and> \<not> contains xml ''vbaProject''"
proof -
  from assms(1) have o: "opened = Some a" and 1: "check_entry_counts_and_ratios (ar_infolist a) = Inr ()"
    and 2: "check_entry_names (archive_names a) = Inr ()" and 3: "check_active_content (order (archive_names a)) a = Inr ()"
    and 4: "check_relationships (order (archive_names a)) a = Inr ()"
    by (auto simp: validate_archive_safety_def rbind_Inr_iff split: option.splits)
  show "opened = Some a" by (rule o)
  from 1 show "length (ar_infolist a) \<le> max_zip_entries" "sum_list (map zi_file_size (ar_infolist a)) \<le> max_total_uncompressed_bytes"
    by (auto simp: check_entry_counts_and_ratios_def noted_def split: if_splits)
  have ratio: "\<forall>i \<in> set (ar_infolist a). check_ratio i () = Inr ()"
    using 1 by (auto simp: check_entry_counts_and_ratios_def rfold_unit_each split: if_splits)
  show "\<forall>i \<in> set (ar_infolist a). safe_entry i"
  proof
    fix i assume i: "i \<in> set (ar_infolist a)"
    then have n: "zi_filename i \<in> set (archive_names a)" by (simp add: archive_names_def)
    then have "check_entry_name (zi_filename i) () = Inr ()" using 2 by (simp add: check_entry_names_def rfold_unit_each)
    moreover have "check_ratio i () = Inr ()" using ratio i by blast
    ultimately show "safe_entry i"
      using check_active_content_ok [OF 3, of "zi_filename i"] n unfolding order safe_entry_def check_entry_name_ok check_ratio_ok by blast
  qed
  show "\<forall>part \<in> set (archive_names a). suffix ''.rels'' part \<longrightarrow>
       (\<exists>xs. dget (ar_rels a) part = Some (Elements xs) \<and> (\<forall>x \<in> set xs. safe_relationship x))"
    using 4 order by (simp add: check_relationships_def rfold_unit_each check_rels_part_ok)
  show "\<not> contains xml ''macroEnabled'' \<and> \<not> contains xml ''vbaProject''"
    if "content_types_entry \<in> set (archive_names a)" "ar_content_types a = Inr xml"
    using check_content_types_ok [OF 3 _ that(2)] that(1) order by simp
qed

text \<open>C37: A file whose content reaches the reader and becomes a package was an .xlsx upload within the
  size limit with a ZIP signature; its archive is within the limits on entries, total size and
  compression ratio; no entry name leaves the archive, is \<open>xl/vbaProject.bin\<close>, lies below \<open>xl/externalLinks/\<close> or
  \<open>xl/embeddings/\<close>, or ends with \<open>.bin\<close> unless it contains \<open>xl/embeddings/\<close> further on; the content types, if they
  were read, mention neither \<open>macroEnabled\<close> nor \<open>vbaProject\<close>; and no relationship is to an OLE object, external,
  walks up or has a drive or a scheme.  That is all that is excluded: the bytes of the entries are not.\<close>

theorem opened_upload_safe:
  assumes "compile_workbook pf content filename = Inr r" "wr_package r = Some p"
    and "\<And>xs. set (pf_order pf xs) = set xs"
  shows "suffix required_extension (py_lower filename) \<and> 0 < length content \<and> length content \<le> max_upload_bytes
    \<and> (\<exists>s \<in> set zip_local_file_signatures. prefix s content)
    \<and> (\<exists>a. pf_open_zip pf content = Some a \<and> length (ar_infolist a) \<le> max_zip_entries
        \<and> sum_list (map zi_file_size (ar_infolist a)) \<le> max_total_uncompressed_bytes
        \<and> (\<forall>i \<in> set (ar_infolist a). safe_entry i)
        \<and> (content_types_entry \<in> set (archive_names a) \<longrightarrow> (\<forall>xml. ar_content_types a = Inr xml \<longrightarrow>
             \<not> contains xml ''macroEnabled'' \<and> \<not> contains xml ''vbaProject''))
        \<and> (\<forall>part \<in> set (archive_names a). suffix ''.rels'' part \<longrightarrow>
             (\<exists>xs. dget (ar_rels a) part = Some (Elements xs) \<and> (\<forall>x \<in> set xs. safe_relationship x))))"
proof -
  obtain c results warnings where "compile_package pf content filename = Inr c" by (rule compile_workbook_package [OF assms(1,2)])
  then obtain a where u: "validate_upload_basics content filename = Inr ()"
    and a: "validate_archive_safety (pf_order pf) (pf_open_zip pf content) = Inr a" by (rule compile_package_Inr)
  have "suffix required_extension (py_lower filename) \<and> 0 < length content \<and> length content \<le> max_upload_bytes
    \<and> (\<exists>s \<in> set zip_local_file_signatures. prefix s content)"
    using u by (auto simp: validate_upload_basics_def noted_def list_ex_iff split: if_splits)
  then show ?thesis using validated_archive [OF a assms(3)] by blast
qed

end
