(* ===== verification/WorkbookConditions.thy ===== *)
theory WorkbookConditions
  imports WorkbookCells IpirV2Theorems
begin

text \<open>
  The language of the conditions of an IF calculation (\<open>formulas.py\<close>): which conditions can be
  written, and a text for each that is read back as that condition, in whatever order Python tries the
  two logical operators.
\<close>

section \<open>Printing\<close>

text \<open>A name that \<open>Decimal\<close> reads as an infinity or a NaN, with underscores anywhere.\<close>

definition number_word :: "string \<Rightarrow> bool" where
  "number_word r \<longleftrightarrow> is_special (filter (\<lambda>c. c \<noteq> CHR ''_'') r)"

fun plain_operand :: "expr2 \<Rightarrow> bool" where
  "plain_operand (Literal2 (PDec d)) = True"
| "plain_operand (Reference2 r) \<longleftrightarrow> id_pattern_v2 r \<and> \<not> number_word r"
| "plain_operand _ = False"

fun plain_condition :: "cond2 \<Rightarrow> bool" where
  "plain_condition (Compare2 l op r) \<longleftrightarrow> plain_operand l \<and> plain_operand r"
| "plain_condition (Logic2 op [Compare2 l p r, Compare2 l' p' r']) \<longleftrightarrow>
     plain_operand l \<and> plain_operand r \<and> plain_operand l' \<and> plain_operand r'"
| "plain_condition _ = False"

fun print_operand :: "expr2 \<Rightarrow> string" where
  "print_operand (Literal2 (PDec d)) = dec_str d"
| "print_operand (Reference2 r) = r"
| "print_operand _ = []"

fun print_condition :: "cond2 \<Rightarrow> string" where
  "print_condition (Compare2 l op r) = print_operand l @ '' '' @ operator_value op @ '' '' @ print_operand r"
| "print_condition (Logic2 op [a, b]) = print_condition a @ '' '' @ logical_text op @ '' '' @ print_condition b"
| "print_condition _ = []"

section \<open>Characters\<close>

definition operand_char :: "char \<Rightarrow> bool" where
  "operand_char c \<longleftrightarrow> id_char_v2 c \<or> num_char c"

lemma lower_plain: "is_lower c \<Longrightarrow> \<not> is_space c \<and> c \<noteq> CHR ''A'' \<and> c \<noteq> CHR ''O'' \<and> c \<noteq> CHR ''#''"
proof -
  assume "is_lower c"
  then have n: "97 \<le> (of_char c :: nat)" by (simp add: is_lower_def less_eq_char_def)
  then have "\<not> is_space c" by (auto simp: is_space_def Let_def)
  moreover have "c \<noteq> CHR ''A''" "c \<noteq> CHR ''O''" "c \<noteq> CHR ''#''" using n by auto
  ultimately show ?thesis by blast
qed

lemma num_plain: "num_char c \<Longrightarrow> \<not> is_space c \<and> c \<noteq> CHR ''A'' \<and> c \<noteq> CHR ''O'' \<and> c \<noteq> CHR ''#''"
proof -
  assume c: "num_char c"
  then have "\<not> is_space c" using num_char_plain [OF c] by blast
  moreover have "\<not> num_char CHR ''A''" "\<not> num_char CHR ''O''" "\<not> num_char CHR ''#''" by (simp_all add: num_char_def is_digit_def)
  ultimately show ?thesis using c by metis
qed

lemma underscore_plain: "\<not> is_space CHR ''_''"
  by (simp add: is_space_def Let_def)

lemma operand_char_cases: "operand_char c \<Longrightarrow> is_lower c \<or> num_char c \<or> c = CHR ''_''"
  unfolding operand_char_def id_char_v2_def num_char_def by blast

lemma operand_char_plain: "operand_char c \<Longrightarrow> \<not> is_space c \<and> c \<noteq> CHR ''A'' \<and> c \<noteq> CHR ''O'' \<and> c \<noteq> CHR ''#''"
proof -
  assume "operand_char c"
  then consider "is_lower c" | "num_char c" | "c = CHR ''_''" using operand_char_cases by blast
  then show ?thesis
  proof cases
    case 3
    then show ?thesis using underscore_plain by simp
  qed (rule lower_plain num_plain, assumption)+
qed

lemma dec_str_chars: "list_all num_char (dec_str d) \<and> dec_str d \<noteq> []"
proof (cases d)
  case (Dec s c e)
  obtain ip fp ex x where str: "dec_str (Dec s c e) = (if s then ''-'' else []) @ ip @ fp @ ex"
     and ip: "list_all is_digit ip" "ip \<noteq> []" and ex: "ex_text ex x"
     and alt: "fp = [] \<and> digits_val ip = c \<and> x = e
        \<or> (\<exists>f. fp = ''.'' @ f \<and> f \<noteq> [] \<and> list_all is_digit f \<and> digits_val (ip @ f) = c \<and> x - int (length f) = e)"
    using dec_str_shape [of s c e] by blast
  have "list_all num_char ip" using digits_num_char ip(1) .
  moreover have "list_all num_char ex" using ex list_all_signed by (auto simp: ex_text_def)
  moreover have "list_all num_char fp" using alt by (auto simp: digits_num_char num_char_def)
  moreover have "num_char CHR ''-''" by (simp add: num_char_def)
  ultimately show ?thesis unfolding Dec str using ip(2) by simp
qed

lemma id_chars: "id_pattern_v2 r \<Longrightarrow> list_all id_char_v2 r \<and> r \<noteq> []"
  by (cases r) (auto simp: id_char_v2_def)

lemma print_operand_chars:
  assumes "plain_operand e"
  shows "list_all operand_char (print_operand e) \<and> print_operand e \<noteq> []"
  using assms
proof (cases e rule: plain_operand.cases)
  case (1 d)
  then show ?thesis using dec_str_chars [of d] by (auto simp: list_all_iff operand_char_def)
next
  case (2 r)
  then show ?thesis using id_chars [of r] assms by (auto simp: list_all_iff operand_char_def)
qed simp_all

section \<open>Operands\<close>

lemma tokens_strip: "list_all operand_char s \<Longrightarrow> s \<noteq> [] \<Longrightarrow> py_strip s = s"
  using operand_char_plain by (intro strip_ends) (auto simp: list_all_iff)

lemma name_not_number: "id_pattern_v2 r \<Longrightarrow> decimal_of_string r = (if number_word r then Inl OutOfModel else Inl InvalidOperation)"
proof -
  assume r: "id_pattern_v2 r"
  then have strip: "py_strip r = r" using id_chars [OF r] by (intro tokens_strip) (auto simp: list_all_iff operand_char_def)
  from r obtain c cs where c: "r = c # cs" "is_lower c" by (cases r) auto
  then have "c \<noteq> CHR ''_''" "c \<noteq> CHR ''-''" "c \<noteq> CHR ''+''" "\<not> is_digit c" "c \<noteq> CHR ''.''"
    by (auto simp: is_lower_def is_digit_def less_eq_char_def)
  then have "parse_finite (filter (\<lambda>c. c \<noteq> CHR ''_'') r) = None"
    by (simp add: c parse_finite_def parse_fraction_def Let_def)
  then show ?thesis by (simp add: decimal_of_string_def strip number_word_def Let_def)
qed

lemma parse_print_operand: "plain_operand e \<Longrightarrow> parse_operand (print_operand e) sheet place = Inr e"
proof -
  assume e: "plain_operand e"
  have strip: "py_strip (print_operand e) = print_operand e" and ne: "print_operand e \<noteq> []"
    using print_operand_chars [OF e] tokens_strip by blast+
  then have "hd (print_operand e) \<noteq> CHR ''#''"
    using print_operand_chars [OF e] operand_char_plain by (auto simp: list_all_iff dest: hd_in_set)
  then have parsed: "parse_operand (print_operand e) sheet place = (case decimal_of_string (print_operand e) of
      Inr d \<Rightarrow> Inr (Literal2 (PDec d))
    | Inl x \<Rightarrow> if x \<noteq> InvalidOperation then Inl x else if id_pattern_v2 (print_operand e) then Inr (Reference2 (print_operand e))
        else reject ''MALFORMED_CALCULATION_OPERAND'' (at_cell sheet place))"
    using ne by (simp add: parse_operand_def strip Let_def)
  show ?thesis
    using e parsed by (cases e rule: plain_operand.cases) (simp_all add: name_not_number)
qed

lemma parsed_operand_plain: "parse_operand t sheet place = Inr e \<Longrightarrow> plain_operand e"
proof -
  assume p: "parse_operand t sheet place = Inr e"
  show ?thesis
  proof (cases "\<exists>d. e = Literal2 (PDec d)")
    case False
    with p have x: "py_strip t \<noteq> []" "decimal_of_string (if hd (py_strip t) = CHR ''#'' then tl (py_strip t) else py_strip t) = Inl InvalidOperation"
      "id_pattern_v2 (py_strip t)" "e = Reference2 (py_strip t)"
      by (auto simp: parse_operand_def Let_def reject_def split: if_splits sum.splits)
    then have "hd (py_strip t) \<noteq> CHR ''#''" using id_chars [OF x(3)] x(1) operand_char_plain
      by (auto simp: list_all_iff operand_char_def dest: hd_in_set)
    with x show ?thesis by (auto simp: name_not_number split: if_splits)
  qed auto
qed

section \<open>Comparisons\<close>

lemma words_token: "list_all (\<lambda>c. \<not> is_space c) t \<Longrightarrow> t \<noteq> [] \<Longrightarrow> rest = [] \<or> is_space (hd rest) \<Longrightarrow> words (t @ rest) = t # words rest"
proof -
  assume t: "list_all (\<lambda>c. \<not> is_space c) t" "t \<noteq> []" and rest: "rest = [] \<or> is_space (hd rest)"
  then have "dropWhile is_space (t @ rest) = t @ rest" by (cases t) auto
  moreover have "takeWhile (\<lambda>c. \<not> is_space c) (t @ rest) = t" "dropWhile (\<lambda>c. \<not> is_space c) (t @ rest) = rest"
    using t(1) rest by (induction t) (auto, (cases rest; auto)+)
  ultimately show ?thesis using t(2) by (subst words.simps) (simp add: Let_def)
qed

lemma words_space: "words (CHR '' '' # s) = words s"
  by (subst (1 2) words.simps) (simp add: is_space_def)

lemma words_nil [simp]: "words [] = []"
  by (subst words.simps) simp

lemma operator_text: "comparison_of_string (py_upper (operator_value op)) = Some op"
  by (cases op) (simp_all add: comparison_of_string_def py_upper_def upper_char_def is_lower_def less_eq_char_def Let_def)

lemma operator_chars: "list_all (\<lambda>c. \<not> is_space c \<and> c \<noteq> CHR ''A'' \<and> c \<noteq> CHR ''O'') (operator_value op) \<and> operator_value op \<noteq> []"
  by (cases op) (simp_all add: is_space_def)

lemma parse_print_comparison:
  assumes "plain_operand l" "plain_operand r"
  shows "parse_comparison (print_condition (Compare2 l op r)) sheet place = Inr (Compare2 l op r)"
proof -
  have tok: "list_all (\<lambda>c. \<not> is_space c) (print_operand e)" "print_operand e \<noteq> []" if "plain_operand e" for e
    using print_operand_chars [OF that] operand_char_plain by (auto simp: list_all_iff)
  have op: "list_all (\<lambda>c. \<not> is_space c) (operator_value op)" "operator_value op \<noteq> []" using operator_chars [of op] by (auto simp: list_all_iff)
  have sp: "is_space CHR '' ''" by (simp add: is_space_def)
  have r: "words (print_operand r) = [print_operand r]" using words_token [OF tok [OF assms(2)], of "[]"] by simp
  have "words (print_condition (Compare2 l op r)) = [print_operand l, operator_value op, print_operand r]"
    using words_token [OF tok [OF assms(1)], of "CHR '' '' # operator_value op @ CHR '' '' # print_operand r"]
      words_token [OF op, of "CHR '' '' # print_operand r"] r
    by (simp add: words_space sp)
  then show ?thesis using assms by (simp add: parse_comparison_def operator_text parse_print_operand)
qed

lemma parsed_comparison_plain: "parse_comparison t sheet place = Inr c \<Longrightarrow> \<exists>l op r. c = Compare2 l op r \<and> plain_operand l \<and> plain_operand r"
  unfolding parse_comparison_def
  by (auto simp: rbind_Inr_iff reject_def dest!: parsed_operand_plain split: list.splits option.splits)

section \<open>Two comparisons joined by AND or OR\<close>

lemma find_word_none: "w \<noteq> [] \<Longrightarrow> hd w \<notin> set s \<Longrightarrow> find_word w before s = None"
proof (induction s arbitrary: before)
  case (Cons c cs)
  then have "\<not> prefix w (c # cs)" by (cases w) auto
  then show ?case using Cons by (simp add: Let_def)
qed simp

lemma find_word_at:
  "w \<noteq> [] \<Longrightarrow> hd w \<notin> set s \<Longrightarrow> s @ before \<noteq> [] \<Longrightarrow> \<not> word_char (hd (rev s @ before)) \<Longrightarrow> rest \<noteq> [] \<Longrightarrow> \<not> word_char (hd rest)
   \<Longrightarrow> find_word w before (s @ w @ rest) = Some (rev before @ s, rest)"
proof (induction s arbitrary: before)
  case Nil
  then obtain c cs where "w = c # cs" by (cases w) auto
  then show ?case using Nil by (simp add: Let_def)
next
  case (Cons c cs)
  then have "\<not> prefix w (c # cs @ w @ rest)" by (cases w) auto
  moreover have "find_word w (c # before) (cs @ w @ rest) = Some (rev (c # before) @ cs, rest)"
    by (rule Cons.IH) (use Cons.prems in simp_all)
  ultimately show ?case by (simp add: Let_def)
qed

lemma print_operand_ends: "plain_operand e \<Longrightarrow> \<not> is_space (hd (print_operand e)) \<and> \<not> is_space (last (print_operand e))"
proof -
  assume e: "plain_operand e"
  note c = print_operand_chars [OF e]
  then have "operand_char (hd (print_operand e))" "operand_char (last (print_operand e))" by (simp_all add: list_all_iff)
  then show ?thesis using operand_char_plain by blast
qed

lemma comparison_text:
  assumes "plain_operand l" "plain_operand r"
  shows "py_strip (print_condition (Compare2 l op r)) = print_condition (Compare2 l op r)"
    "CHR ''A'' \<notin> set (print_condition (Compare2 l op r))" "CHR ''O'' \<notin> set (print_condition (Compare2 l op r))"
    "print_condition (Compare2 l op r) \<noteq> []"
proof -
  note l = print_operand_chars [OF assms(1)] and r = print_operand_chars [OF assms(2)] and op = operator_chars [of op]
  have lc: "operand_char x" if "x \<in> set (print_operand l) \<union> set (print_operand r)" for x using l r that by (auto simp: list_all_iff)
  have "\<not> is_space (hd (print_operand l))" "\<not> is_space (last (print_operand r))"
    using print_operand_ends [OF assms(1)] print_operand_ends [OF assms(2)] by blast+
  then show "py_strip (print_condition (Compare2 l op r)) = print_condition (Compare2 l op r)"
    using l r by (intro strip_ends) simp_all
  have "c \<notin> set (print_operand l) \<and> c \<notin> set (print_operand r) \<and> c \<notin> set (operator_value op)" if "c = CHR ''A'' \<or> c = CHR ''O''" for c
    using op that operand_char_plain [of c] lc [of c] by (auto simp: list_all_iff)
  then show "CHR ''A'' \<notin> set (print_condition (Compare2 l op r))" "CHR ''O'' \<notin> set (print_condition (Compare2 l op r))" by auto
  show "print_condition (Compare2 l op r) \<noteq> []" by simp
qed

lemma split_none: "CHR ''A'' \<notin> set s \<Longrightarrow> CHR ''O'' \<notin> set s \<Longrightarrow> split_logical ops s = None"
proof (induction ops)
  case (Cons op ops)
  have "find_word (logical_text op) [] s = None" using Cons.prems by (intro find_word_none; cases op; simp)
  then show ?case using Cons by simp
qed simp

lemma py_strip_blank: "py_strip (s @ '' '') = py_strip s" "py_strip (CHR '' '' # s) = py_strip s"
proof -
  have sp: "is_space CHR '' ''" by (simp add: is_space_def)
  show "py_strip (s @ '' '') = py_strip s"
  proof (cases "\<forall>c \<in> set s. is_space c")
    case True
    then have "dropWhile is_space s = []" "dropWhile is_space (s @ '' '') = []" 
      unfolding dropWhile_eq_Nil_conv using sp by simp_all
    then show ?thesis by (simp only: py_strip_def)
  next
    case False
    then have "dropWhile is_space (s @ '' '') = dropWhile is_space s @ '' ''" using sp by (induction s) auto
    then show ?thesis using sp by (simp add: py_strip_def)
  qed
  show "py_strip (CHR '' '' # s) = py_strip s" using sp by (simp add: py_strip_def)
qed

lemma split_joined:
  assumes a: "CHR ''A'' \<notin> set a" "CHR ''O'' \<notin> set a" "py_strip a = a" and b: "CHR ''A'' \<notin> set b" "CHR ''O'' \<notin> set b" "py_strip b = b"
    and op: "op \<in> set ops"
  shows "split_logical ops (a @ '' '' @ logical_text op @ '' '' @ b) = Some (op, a, b)"
  using op
proof (induction ops)
  case (Cons op' ops)
  have blank: "\<not> word_char CHR '' ''" by (simp add: word_char_def is_letter_def is_lower_def is_upper_def is_digit_def less_eq_char_def)
  show ?case
  proof (cases "op' = op")
    case True
    have "find_word (logical_text op) [] ((a @ '' '') @ logical_text op @ (CHR '' '' # b)) = Some (rev [] @ (a @ '' ''), CHR '' '' # b)"
      by (rule find_word_at) (use a blank in \<open>cases op; simp\<close>)+
    then show ?thesis using True a(3) b(3) by (simp add: py_strip_blank)
  next
    case False
    then have "hd (logical_text op') \<notin> set (a @ '' '' @ logical_text op @ '' '' @ b)" using a b by (cases op; cases op'; simp)
    then have "find_word (logical_text op') [] (a @ '' '' @ logical_text op @ '' '' @ b) = None"
      by (intro find_word_none) (cases op'; simp)+
    then show ?thesis using False Cons by simp
  qed
qed simp

lemma parse_print_condition:
  assumes "plain_condition c" "set ops = {AND_OP, OR_OP}"
  shows "parse_condition ops (print_condition c) sheet place = Inr c"
  using assms(1)
proof (cases c rule: plain_condition.cases)
  case (1 l op r)
  then have p: "plain_operand l" "plain_operand r" using assms(1) by auto
  note t = comparison_text [OF p, of op]
  have "split_logical ops (print_condition (Compare2 l op r)) = None" using split_none t by blast
  then show ?thesis using t parse_print_comparison [OF p] unfolding 1 parse_condition_def Let_def t(1) by simp
next
  case (2 op l p r l' p' r')
  then have pl: "plain_operand l" "plain_operand r" "plain_operand l'" "plain_operand r'" using assms(1) by auto
  let ?a = "print_condition (Compare2 l p r)" and ?b = "print_condition (Compare2 l' p' r')"
  note a = comparison_text [OF pl(1,2), of p] and b = comparison_text [OF pl(3,4), of p']
  have "op \<in> set ops" using assms(2) by (cases op) auto
  then have split: "split_logical ops (?a @ '' '' @ logical_text op @ '' '' @ ?b) = Some (op, ?a, ?b)"
    by (intro split_joined a b)
  have strip: "py_strip (?a @ '' '' @ logical_text op @ '' '' @ ?b) = ?a @ '' '' @ logical_text op @ '' '' @ ?b"
  proof (rule strip_ends)
    have "hd ?a = hd (print_operand l)" "last ?b = last (print_operand r')"
      using print_operand_chars [OF pl(1)] print_operand_chars [OF pl(4)] by simp_all
    moreover have "\<not> is_space (hd (print_operand l))" "\<not> is_space (last (print_operand r'))"
      using print_operand_ends [OF pl(1)] print_operand_ends [OF pl(4)] by blast+
    ultimately show "\<not> is_space (hd (?a @ '' '' @ logical_text op @ '' '' @ ?b))" "\<not> is_space (last (?a @ '' '' @ logical_text op @ '' '' @ ?b))"
      using a(4) b(4) by (simp_all del: print_condition.simps)
  qed (use a(4) in simp)
  have joined: "print_condition c = ?a @ '' '' @ logical_text op @ '' '' @ ?b" by (simp add: 2)
  show ?thesis
    unfolding parse_condition_def joined Let_def strip split
    using a(4) parse_print_comparison [OF pl(1,2)] parse_print_comparison [OF pl(3,4)] by (simp add: 2 del: print_condition.simps)
qed simp_all

lemma parsed_condition_plain: "parse_condition ops t sheet place = Inr c \<Longrightarrow> plain_condition c"
proof -
  assume "parse_condition ops t sheet place = Inr c"
  then consider "parse_comparison (py_strip t) sheet place = Inr c"
    | op l r a b where "parse_comparison l sheet place = Inr a" "parse_comparison r sheet place = Inr b" "c = Logic2 op [a, b]"
    by (auto simp: parse_condition_def Let_def rbind_Inr_iff reject_def split: if_splits option.splits)
  then show ?thesis
  proof cases
    case 1
    then show ?thesis by (auto dest!: parsed_comparison_plain)
  next
    case (2 op l r a b)
    then show ?thesis by (auto dest!: parsed_comparison_plain)
  qed
qed

text \<open>C38: The conditions an IF row can express are exactly the comparisons of numbers and names, and two of
  them joined by AND or OR; each is read back from its text, whichever of AND and OR the set of operators
  yields first.  A name such as \<open>inf\<close> or \<open>na_n\<close>, valid as an identifier, cannot be written: it is a number.\<close>

theorem if_conditions_exact:
  assumes "set ops = {AND_OP, OR_OP}"
  shows "((\<exists>t. parse_condition ops t sheet place = Inr c) \<longleftrightarrow> plain_condition c)
    \<and> (plain_condition c \<longrightarrow> parse_condition ops (print_condition c) sheet place = Inr c)"
  using parse_print_condition [OF _ assms] parsed_condition_plain by blast

text \<open>A conjunction, tried with OR first.\<close>

lemma if_conditions_exact_witness:
  "parse_condition [OR_OP, AND_OP] ''roof_age GTE 10 AND roof_age LT 20'' ''RG_CALCULATIONS'' ''n'' =
    Inr (Logic2 AND_OP [Compare2 (Reference2 ''roof_age'') GTE (Literal2 (PDec (Dec False 10 0))),
      Compare2 (Reference2 ''roof_age'') LT (Literal2 (PDec (Dec False 20 0)))])"
proof -
  let ?c = "Logic2 AND_OP [Compare2 (Reference2 ''roof_age'') GTE (Literal2 (PDec (Dec False 10 0))),
      Compare2 (Reference2 ''roof_age'') LT (Literal2 (PDec (Dec False 20 0)))]"
  have "plain_condition ?c" by code_simp
  moreover have "print_condition ?c = ''roof_age GTE 10 AND roof_age LT 20''" by code_simp
  ultimately show ?thesis using if_conditions_exact [of "[OR_OP, AND_OP]" _ _ ?c] by auto
qed

end
