(* ===== verification/WorkbookSamples.thy ===== *)
theory WorkbookSamples
  imports WorkbookLaws WorkbookConditions
begin

text \<open>
  A workbook that compiles to a verified receipt, and variants of it that show what the compiler does with
  malformed cells; the theorems of WorkbookLaws are applied to it.
\<close>

section \<open>A workbook\<close>

definition text_row :: "string list \<Rightarrow> (string \<times> cell) list" where
  "text_row xs = map (\<lambda>x. (''cell'', if x = [] then None else Some (CText x))) xs"

definition sheet_of :: "string \<Rightarrow> string list list \<Rightarrow> string \<times> grid" where
  "sheet_of name rows = (name, map text_row (the (map_of required_sheets name) # rows))"

definition quote :: "string \<Rightarrow> string" where "quote s = CHR 0x22 # s @ [CHR 0x22]"

definition expected_total :: string where
  "expected_total = CHR 0x7B # quote ''total'' @ '': '' @ quote ''100.00'' @ [CHR 0x7D]"

definition flat_workbook :: "string \<Rightarrow> workbook" where
  "flat_workbook scale =
     [sheet_of ''RG_METADATA'' [[''package_id'', ''az_ho3''], [''product_id'', ''ho3''], [''line'', ''homeowners''], [''country'', ''US''],
        [''state'', ''AZ''], [''currency'', ''USD''], [''effective_start'', ''2026-01-01'']],
      sheet_of ''RG_INPUTS'' [],
      sheet_of ''RG_CONSTANTS'' [[''base_rate'', ''Base rate'', ''100'']],
      sheet_of ''RG_TABLES'' [],
      sheet_of ''RG_CALCULATIONS'' [[''premium'', ''ROUND'', ''base_rate'', '''', ''HALF_UP'', scale]],
      sheet_of ''RG_OUTPUTS'' [[''total'', ''premium'', ''USD'']],
      sheet_of ''RG_CONTROL_CASES'' [[''c1'', '''', expected_total, ''0.01'']]]"

definition plain_archive :: archive where
  "plain_archive = \<lparr>ar_infolist = [\<lparr>zi_filename = ''xl/workbook.xml'', zi_file_size = 4096, zi_compress_size = 512\<rparr>],
     ar_content_types = Inr [], ar_rels = []\<rparr>"

definition sample_platform :: "string \<Rightarrow> platform" where
  "sample_platform scale =
     \<lparr>pf_sha256 = (\<lambda>_. replicate 64 (CHR ''0'')), pf_now = ''2026-07-01'', pf_open_zip = (\<lambda>_. Some plain_archive),
      pf_load = (\<lambda>_. Some (flat_workbook scale)), pf_order = (\<lambda>xs. xs), pf_logical_ops = [AND_OP, OR_OP],
      pf_parse_date = (\<lambda>s. if s = ''2026-01-01'' then Some (Date 2026 1 1) else None), pf_cyclic = kahn_cyclic, pf_topo = kahn_sort\<rparr>"

definition zip_bytes :: "byte list" where "zip_bytes = [0x50, 0x4B, 0x03, 0x04]"

lemma sample_upload: "validate_upload_basics zip_bytes ''plan.XLSX'' = Inr ()"
proof -
  have "suffix required_extension (py_lower ''plan.XLSX'')" by code_simp
  then show ?thesis
    by (simp add: validate_upload_basics_def zip_bytes_def max_upload_bytes_def ole_cfb_signature_def zip_local_file_signatures_def)
qed

lemma sample_archive: "validate_archive_safety (\<lambda>xs. xs) (Some plain_archive) = Inr plain_archive"
proof -
  have names: "archive_names plain_archive = [''xl/workbook.xml'']" by (simp add: archive_names_def plain_archive_def)
  have "check_entry_names [''xl/workbook.xml''] = Inr ()" by code_simp
  moreover have "check_active_content [''xl/workbook.xml''] plain_archive = Inr ()" by code_simp
  moreover have "check_relationships [''xl/workbook.xml''] plain_archive = Inr ()" by code_simp
  moreover have "check_entry_counts_and_ratios (ar_infolist plain_archive) = Inr ()"
    by (simp add: check_entry_counts_and_ratios_def plain_archive_def max_zip_entries_def max_total_uncompressed_bytes_def check_ratio_def
        min_entry_size_for_ratio_check_def max_entry_compression_ratio_def)
  ultimately show ?thesis by (simp add: validate_archive_safety_def names)
qed

definition flat_rows :: "string \<Rightarrow> (string, row list) dict" where
  "flat_rows scale = all_rows (flat_workbook scale) (map (\<lambda>(s, g). (s, header_index g)) (flat_workbook scale))"

lemma flat_headers: "validate_required_sheets_and_columns (flat_workbook ''2'') =
    Inr (map (\<lambda>(s, g). (s, header_index g)) (flat_workbook ''2''))"
  by code_simp

lemma flat_scanned: "scan_all_required_sheets (flat_workbook ''2'') = Inr ()"
  by code_simp

lemma flat_metadata: "build_metadata (dget_default (flat_rows ''2'') ''RG_METADATA'' []) =
   Inr [(''package_id'', ''az_ho3''), (''product_id'', ''ho3''), (''line'', ''homeowners''), (''country'', ''US''),
        (''state'', ''AZ''), (''currency'', ''USD''), (''effective_start'', ''2026-01-01'')]"
  by code_simp

definition flat_node :: calculation_node_v2 where
  "flat_node = \<lparr>c2_id = ''premium'', c2_name = ''premium'', c2_expression = Round2 (Reference2 ''base_rate'') 2 HALF_UP, c2_depends_on = [],
     c2_period = None, c2_description = None\<rparr>"

definition flat_parts :: workbook_parts where
  "flat_parts = \<lparr>wp_inputs = [], wp_constants = [\<lparr>const_id = ''base_rate'', const_name = ''Base rate'', const_value = Dec False 100 0,
       const_description = None, const_period = None, const_provenance = None\<rparr>], wp_tables = [], wp_calculations = [flat_node],
     wp_outputs = [\<lparr>o2_id = ''total'', o2_name = ''total'', o2_source_ref = ''premium'', o2_currency = ''USD'', o2_scale = 2, o2_rounding_mode = HALF_UP\<rparr>],
     wp_cases = [\<lparr>cc_id = ''c1'', cc_inputs = [], cc_expected = [(''total'', ''100.00'')], cc_tolerance = Dec False 1 (-2)\<rparr>]\<rparr>"

lemma flat_parts_built: "workbook_parts_of (sample_platform ''2'') (flat_rows ''2'') = Inr flat_parts"
  by code_simp

lemma flat_scale_two: "workbook_parts_of (sample_platform ''two'') (flat_rows ''two'') = Inl InvalidOperation"
  by code_simp


definition flat_package :: ipir_package_v2 where
  "flat_package =
     \<lparr>p2_schema_version = ''0.2.0'', p2_id = ''az_ho3'', p2_version = ''1.0.0'',
      p2_source = \<lparr>sm_type = CONTROLLED_XLSX, sm_artifact_sha256 = replicate 64 (CHR ''0''), sm_compiler_version = compiler_version, sm_compiled_at = ''2026-07-01''\<rparr>,
      p2_product = \<lparr>pr_id = ''ho3'', pr_line = HOMEOWNERS, pr_jurisdiction = \<lparr>jur_country = ''US'', jur_state = Some ''AZ''\<rparr>, pr_currency = ''USD''\<rparr>,
      p2_period = \<lparr>ep_start = Date 2026 1 1, ep_end = None\<rparr>, p2_transaction_types = [NEW_BUSINESS, RENEWAL],
      p2_inputs = wp_inputs flat_parts, p2_constants = wp_constants flat_parts, p2_tables = wp_tables flat_parts,
      p2_calculations = wp_calculations flat_parts, p2_outputs = wp_outputs flat_parts, p2_control_cases = wp_cases flat_parts,
      p2_attestation = None\<rparr>"

definition flat_metadata_map :: "(string, string) dict" where
  "flat_metadata_map = [(''package_id'', ''az_ho3''), (''product_id'', ''ho3''), (''line'', ''homeowners''), (''country'', ''US''),
        (''state'', ''AZ''), (''currency'', ''USD''), (''effective_start'', ''2026-01-01'')]"

lemma flat_built:
  "build_package kahn_cyclic (pf_parse_date (sample_platform ''2'')) (replicate 64 (CHR ''0'')) ''2026-07-01'' flat_metadata_map flat_parts = Inr flat_package"
  by code_simp

definition flat_lowered_node :: calculation_node where
  "flat_lowered_node = \<lparr>calc_id = ''premium'', calc_name = ''premium'', calc_expression = ERef ''base_rate'',
     calc_depends_on = [], calc_rounding_rule_ref = Some ''_lowered_rounding_premium'',
     calc_rounding_rule = Some \<lparr>rr_id = ''_lowered_rounding_premium'', rr_precision = 2, rr_mode = HALF_UP\<rparr>,
     calc_period = None, calc_provenance = None, calc_description = None\<rparr>"

definition flat_lowered :: ipir_package where
  "flat_lowered = lowered_package flat_package (lowered_product (p2_product flat_package)) [flat_lowered_node] []
     (map lowered_output (p2_outputs flat_package))"

lemma flat_lowers: "lower_to_v0_1 flat_package = Inr flat_lowered"
  by code_simp

lemma flat_inputs: "validate_risk_inputs flat_lowered [] False = Inr []"
  by code_simp

lemma flat_order: "topological_sort_calculations kahn_sort flat_lowered = Inr [flat_lowered_node]"
  by code_simp

lemmas flat_defs = flat_lowered_def lowered_package_def lowered_product_def lowered_output_def flat_package_def flat_parts_def

lemma flat_nodes:
  "\<exists>st. resolve_nodes flat_lowered [] [] (Date 2026 1 1) = Inr st \<and> os_context st = [(''base_rate'', PDec (Dec False 100 0))] \<and>
     os_modifiers st = [] \<and> os_constraints st = [] \<and> os_fees st = []"
  by (simp add: resolve_nodes_def flat_defs set_input_def set_constant_def is_active_def put_def trace_to_def add_step_def initial_state_def)

lemma flat_step:
  "os_context st = [(''base_rate'', PDec (Dec False 100 0))] \<Longrightarrow>
   \<exists>st'. step_node flat_lowered (Date 2026 1 1) flat_lowered_node st = Inr st' \<and>
     os_context st' = [(''base_rate'', PDec (Dec False 100 0)), (''premium'', PDec (Dec False 10000 (-2)))]"
  unfolding step_node_def run_node_def node_modifiers_def node_constraints_def node_fees_def
    active_modifiers_def active_constraints_def active_fees_def
  by (simp add: flat_lowered_node_def resolve_ref_def is_active_def node_rounding_def flat_defs apply_rounding_def trace_to_def
     add_step_def put_def dec_eval)

lemma flat_priced:
  "\<exists>r. evaluate_package kahn_sort flat_lowered [] (Date 2026 1 1) NEW_BUSINESS False = Inr r \<and> or_final_premium r = Dec False 10000 (-2)"
proof -
  obtain st where 1: "resolve_nodes flat_lowered [] [] (Date 2026 1 1) = Inr st" "os_context st = [(''base_rate'', PDec (Dec False 100 0))]"
    using flat_nodes by blast
  obtain st1 where 2: "step_node flat_lowered (Date 2026 1 1) flat_lowered_node st = Inr st1"
     "os_context st1 = [(''base_rate'', PDec (Dec False 100 0)), (''premium'', PDec (Dec False 10000 (-2)))]"
    using flat_step [OF 1(2)] by blast
  have 3: "\<exists>r. final_result flat_lowered (Date 2026 1 1) NEW_BUSINESS st1 = Inr r \<and> or_final_premium r = Dec False 10000 (-2)"
    using 2(2) by (simp add: final_result_def flat_defs trace_to_def add_step_def)
  have 0: "is_active (Some (pkg_period flat_lowered)) (Date 2026 1 1)" "NEW_BUSINESS \<in> set (pkg_transaction_types flat_lowered)"
    by (simp_all add: flat_defs is_active_def less_date_def)
  show ?thesis unfolding evaluate_package_def using 0 flat_inputs flat_order 1(1) 2(1) 3 by simp
qed

definition flat_result :: control_case_result where
  "flat_result = \<lparr>cr_case_id = ''c1'', cr_passed = True, cr_output_id = ''total'', cr_expected = ''100.00'',
     cr_actual = dec_str (Dec False 10000 (-2)), cr_difference = dec_str (Dec False 0 (-2)), cr_detail = None\<rparr>"

lemma flat_run: "run_control_cases kahn_sort flat_package = Inr [flat_result]"
proof -
  obtain r where r: "evaluate_package kahn_sort flat_lowered [] (Date 2026 1 1) NEW_BUSINESS False = Inr r" "or_final_premium r = Dec False 10000 (-2)"
    using flat_priced by blast
  have want: "decimal_of_string ''100.00'' = Inr (Dec False 10000 (-2))" by code_simp
  have gap: "dec_sub (Dec False 10000 (-2)) (Dec False 10000 (-2)) = Inr (Dec False 0 (-2))" "dec_abs (Dec False 0 (-2)) = Inr (Dec False 0 (-2))"
    "dec_le (Dec False 0 (-2)) (Dec False 1 (-2))" by (simp_all add: dec_eval dec_abs_def)
  have date: "ep_start (p2_period flat_package) = Date 2026 1 1" "p2_transaction_types flat_package = [NEW_BUSINESS, RENEWAL]"
    by (simp_all add: flat_package_def)
  let ?c = "\<lparr>cc_id = ''c1'', cc_inputs = [], cc_expected = [(''total'', ''100.00'')], cc_tolerance = Dec False 1 (-2)\<rparr>"
  have "cr_passed flat_result = dec_le (Dec False 0 (-2)) (Dec False 1 (-2))" using gap(3) by (simp add: flat_result_def)
  then have "try_case kahn_sort flat_package flat_lowered ?c ''total'' ''100.00'' = Inr flat_result"
    using gap(1,2) by (simp del: One_nat_def add: try_case_def case_effective_date_def case_transaction_type_def date r want flat_result_def)
  then have "run_case kahn_sort flat_package flat_lowered ?c (''total'', ''100.00'') = Inr flat_result"
    by (simp add: run_case_def) (simp add: flat_package_def flat_parts_def)
  moreover have "p2_control_cases flat_package = [?c]" by (simp add: flat_package_def flat_parts_def)
  ultimately show ?thesis by (simp add: run_control_cases_def flat_lowers)
qed

section \<open>The verified receipt\<close>

definition flat_compiled :: compiled where
  "flat_compiled = \<lparr>cd_sheets = map fst required_sheets, cd_metadata = flat_metadata_map, cd_package = flat_package\<rparr>"

lemma flat_compiles: "compile_package (sample_platform ''2'') zip_bytes ''plan.XLSX'' = Inr flat_compiled"
proof -
  have rows: "all_rows (flat_workbook ''2'') (map (\<lambda>(s, g). (s, header_index g)) (flat_workbook ''2'')) = flat_rows ''2''"
    by (simp add: flat_rows_def)
  have sheets: "map fst (flat_workbook ''2'') = map fst required_sheets" by code_simp
  have pf: "pf_sha256 (sample_platform ''2'') c = replicate 64 (CHR ''0'')" "pf_now (sample_platform ''2'') = ''2026-07-01''"
    "pf_open_zip (sample_platform ''2'') c = Some plain_archive" "pf_load (sample_platform ''2'') c = Some (flat_workbook ''2'')"
    "pf_order (sample_platform ''2'') = (\<lambda>xs. xs)" "pf_cyclic (sample_platform ''2'') = kahn_cyclic" for c
    by (simp_all add: sample_platform_def)
  have "compile_rows (sample_platform ''2'') (replicate 64 (CHR ''0'')) (flat_workbook ''2'') = Inr flat_compiled"
    unfolding compile_rows_def flat_headers flat_scanned rbind_simps rows Let_def flat_metadata flat_parts_built sheets pf
      flat_built [unfolded flat_metadata_map_def] flat_compiled_def flat_metadata_map_def ..
  then show ?thesis
    by (simp add: compile_package_def load_workbook_safely_def sample_upload sample_archive pf)
qed

definition flat_receipt :: receipt where
  "flat_receipt = compiled_receipt (replicate 64 (CHR ''0'')) flat_compiled [flat_result] []"

lemma flat_receipt: "compile_workbook (sample_platform ''2'') zip_bytes ''plan.XLSX'' = Inr flat_receipt"
proof -
  have "pf_sha256 (sample_platform ''2'') c = replicate 64 (CHR ''0'')" "pf_topo (sample_platform ''2'') = kahn_sort" for c
    by (simp_all add: sample_platform_def)
  moreover have "p2_control_cases flat_package \<noteq> []" by (simp add: flat_package_def flat_parts_def)
  moreover have "cd_package flat_compiled = flat_package" by (simp add: flat_compiled_def)
  ultimately show ?thesis by (simp add: compile_workbook_def flat_compiles execute_cases_def flat_run flat_receipt_def)
qed

lemma flat_verified: "is_verified flat_receipt" "wr_package flat_receipt = Some flat_package"
  by (simp_all add: flat_receipt_def is_verified_def compiled_receipt_def final_status_def flat_result_def flat_compiled_def)

lemma verified_means_premium_matches_witness:
  "is_verified flat_receipt \<and> (\<exists>q. lower_to_v0_1 flat_package = Inr q \<and> p2_control_cases flat_package \<noteq> [] \<and>
     (\<forall>c \<in> set (p2_control_cases flat_package). \<forall>(out, x) \<in> set (cc_expected c). premium_matches (sample_platform ''2'') flat_package q c x))"
  using verified_means_premium_matches [OF flat_receipt flat_verified(2)] flat_verified(1) by fastforce

lemma workbook_always_lowered_witness:
  "run_control_cases kahn_sort flat_package = Inr (wr_control_case_results flat_receipt)"
proof -
  have "p2_control_cases flat_package \<noteq> []" by (simp add: flat_package_def flat_parts_def)
  moreover have "pf_topo (sample_platform ''2'') = kahn_sort" by (simp add: sample_platform_def)
  ultimately show ?thesis using workbook_always_lowered [OF flat_receipt flat_verified(2)] by simp
qed

lemma opened_upload_safe_witness:
  "\<exists>a. pf_open_zip (sample_platform ''2'') zip_bytes = Some a \<and> (\<forall>i \<in> set (ar_infolist a). safe_entry i)"
proof -
  have "set (pf_order (sample_platform ''2'') xs) = set xs" for xs by (simp add: sample_platform_def)
  from opened_upload_safe [OF flat_receipt flat_verified(2) this] show ?thesis by blast
qed

section \<open>Malformed cells\<close>

text \<open>C39: The compiler does not always return a receipt: if the scale of a ROUND is not a number, the exception of
  \<open>Decimal\<close> leaves \<open>compile_workbook\<close>, with everything before the calculations in order.\<close>

theorem malformed_scale_escapes:
  assumes "validate_upload_basics content filename = Inr ()"
    and "validate_archive_safety (pf_order pf) (pf_open_zip pf content) = Inr a" "pf_load pf content = Some wb"
    and "validate_required_sheets_and_columns wb = Inr headers" "scan_all_required_sheets wb = Inr ()"
    and "build_metadata (dget_default (all_rows wb headers) ''RG_METADATA'' []) = Inr metadata"
    and "build_inputs (dget_default (all_rows wb headers) ''RG_INPUTS'' []) = Inr inputs"
    and "build_constants (dget_default (all_rows wb headers) ''RG_CONSTANTS'' []) = Inr constants"
    and "build_tables (dget_default (all_rows wb headers) ''RG_TABLES'' []) = Inr tables"
    and "dget_default (all_rows wb headers) ''RG_CALCULATIONS'' [] = row # rows"
    and "s_text (cell_at row ''node_id'') = Some i" "map_option py_upper (s_text (cell_at row ''operator'')) = Some ''ROUND''"
    and "parse_operand (operand_text (cell_at row ''operand_1'')) calc_sheet i = Inr e"
    and "s_text (cell_at row ''rounding_mode'') = Some mode" "rounding_of_string (py_upper mode) = Some m"
    and "s_text (cell_at row ''scale'') = Some scale" "decimal_of_string scale = Inl InvalidOperation"
  shows "compile_workbook pf content filename = Inl InvalidOperation"
proof -
  have "build_expression (pf_logical_ops pf) row i = Inl InvalidOperation"
    using assms(12-17) by (auto simp: build_expression_def round_expression_def or_empty_def allowed_calculation_operators_def)
  then have "build_calculations (pf_logical_ops pf) (row # rows) = Inl InvalidOperation"
    by (simp add: build_calculations_def build_rows_def build_calculation_def for_id_def assms(11))
  then have "workbook_parts_of pf (all_rows wb headers) = Inl InvalidOperation"
    by (simp add: workbook_parts_of_def assms(7-10))
  then show ?thesis
    by (simp add: compile_workbook_def compile_package_def load_workbook_safely_def compile_rows_def assms(1-6))
qed

definition scale_row :: row where
  "scale_row = hd (dget_default (flat_rows ''two'') ''RG_CALCULATIONS'' [])"

lemma malformed_scale_escapes_witness:
  "compile_workbook (sample_platform ''two'') zip_bytes ''plan.XLSX'' = Inl InvalidOperation"
proof (rule malformed_scale_escapes [OF sample_upload])
  let ?headers = "map (\<lambda>(s, g). (s, header_index g)) (flat_workbook ''two'')"
  have rows: "all_rows (flat_workbook ''two'') ?headers = flat_rows ''two''" by (simp add: flat_rows_def)
  show "validate_archive_safety (pf_order (sample_platform ''two'')) (pf_open_zip (sample_platform ''two'') zip_bytes) = Inr plain_archive"
    by (simp add: sample_platform_def sample_archive)
  show "pf_load (sample_platform ''two'') zip_bytes = Some (flat_workbook ''two'')" by (simp add: sample_platform_def)
  show "validate_required_sheets_and_columns (flat_workbook ''two'') = Inr ?headers" by code_simp
  show "scan_all_required_sheets (flat_workbook ''two'') = Inr ()" by code_simp
  show "build_metadata (dget_default (all_rows (flat_workbook ''two'') ?headers) ''RG_METADATA'' []) = Inr flat_metadata_map"
    unfolding rows by code_simp
  show "build_inputs (dget_default (all_rows (flat_workbook ''two'') ?headers) ''RG_INPUTS'' []) = Inr []"
    unfolding rows by code_simp
  show "build_constants (dget_default (all_rows (flat_workbook ''two'') ?headers) ''RG_CONSTANTS'' []) = Inr (wp_constants flat_parts)"
    unfolding rows by code_simp
  show "build_tables (dget_default (all_rows (flat_workbook ''two'') ?headers) ''RG_TABLES'' []) = Inr []"
    unfolding rows by code_simp
  show "dget_default (all_rows (flat_workbook ''two'') ?headers) ''RG_CALCULATIONS'' [] = scale_row # []"
    unfolding rows by code_simp
  show "s_text (cell_at scale_row ''node_id'') = Some ''premium''" by code_simp
  show "map_option py_upper (s_text (cell_at scale_row ''operator'')) = Some ''ROUND''" by code_simp
  show "parse_operand (operand_text (cell_at scale_row ''operand_1'')) calc_sheet ''premium'' = Inr (Reference2 ''base_rate'')" by code_simp
  show "s_text (cell_at scale_row ''rounding_mode'') = Some ''HALF_UP''" by code_simp
  show "rounding_of_string (py_upper ''HALF_UP'') = Some HALF_UP" by code_simp
  show "s_text (cell_at scale_row ''scale'') = Some ''two''" by code_simp
  show "decimal_of_string ''two'' = Inl InvalidOperation" by code_simp
qed

lemma cell_at_dset: "cell_at (dset k v row) k' = (if k' = k then v else cell_at row k')"
  by (simp add: cell_at_def)

lemma s_decimal_malformed:
  "decimal_of_string (py_strip (cell_str v)) = Inl InvalidOperation \<Longrightarrow> s_decimal (Some v) = s_decimal None"
  by (simp add: s_decimal_def s_text_def Let_def)

text \<open>C40: A bound or a priority that is not a number, such as 1,000 with its comma, is taken as an empty cell:
  the row of the table matches without that bound, and the input accepts every value on that side.\<close>

theorem malformed_bound_is_no_bound:
  assumes "decimal_of_string (py_strip (cell_str v)) = Inl InvalidOperation"
  shows "(\<forall>column \<in> {''min'', ''max'', ''priority''}. build_table_row t (dset column (Some v) row) = build_table_row t (dset column None row))
    \<and> (\<forall>column \<in> {''minimum'', ''maximum''}. build_input (dset column (Some v) row) = build_input (dset column None row))"
  by (simp add: build_table_row_def row_priority_of_def build_match_def build_input_def for_id_def cell_at_dset
      s_decimal_malformed [OF assms] cong: if_cong option.case_cong)

definition thousand_row :: "cell \<Rightarrow> row" where
  "thousand_row lower = [(''table_id'', Some (CText ''age_factor'')), (''min'', lower), (''max'', Some (CText ''2000'')), (''result_value'', Some (CText ''1.2''))]"

lemma malformed_bound_is_no_bound_witness:
  "build_table_row ''age_factor'' (thousand_row (Some (CText ''1,000''))) =
    Inr \<lparr>row_matches = [RangeMatch \<lparr>rm_minimum = None, rm_maximum = Some (PDec (Dec False 2000 0)),
      rm_include_minimum = True, rm_include_maximum = True\<rparr>], row_value = Dec False 12 (-1), row_priority = None\<rparr>"
proof -
  have "decimal_of_string (py_strip (cell_str (CText ''1,000''))) = Inl InvalidOperation" by code_simp
  from malformed_bound_is_no_bound [OF this, of "''age_factor''" "thousand_row None"]
  have "build_table_row ''age_factor'' (dset ''min'' (Some (CText ''1,000'')) (thousand_row None)) =
      build_table_row ''age_factor'' (dset ''min'' None (thousand_row None))" by blast
  moreover have "dset ''min'' c (thousand_row None) = thousand_row c" for c by (simp add: thousand_row_def)
  moreover have "build_table_row ''age_factor'' (thousand_row None) =
    Inr \<lparr>row_matches = [RangeMatch \<lparr>rm_minimum = None, rm_maximum = Some (PDec (Dec False 2000 0)),
      rm_include_minimum = True, rm_include_maximum = True\<rparr>], row_value = Dec False 12 (-1), row_priority = None\<rparr>" by code_simp
  ultimately show ?thesis by simp
qed

end
