(* ===== verification/Spec2Isabelle.thy ===== *)
theory Spec2Isabelle
  imports OracleLaws RateLimitLaws ImpactContract ImpactCoordination IpirV2Samples MissionRaces
    ExposureSamples TestPlanSamples WorkbookSamples
begin

text \<open>
  RateGuard compares how an insurer's rate plan should price a policy with how a rating engine does
  price it.  This development models the backend, \<open>src/backend/app\<close>, as HOL functions and proves
  what its parts guarantee.  Paths below are relative to \<open>src/backend/app\<close>.

  The parts and how they interact.  A rate plan is an IPIR package (\<open>ipir\<close>): inputs, constants,
  rate tables, calculations, modifiers, constraints, fees and outputs, checked by pydantic validators.
  A package of version 0.2 (\<open>ipir/v0_2\<close>) is checked by its own validators and lowered to version 0.1; a
  controlled workbook is compiled to one (\<open>ingestion/workbook_v1\<close>), with the safety checks of the upload
  before and its control cases, priced by the oracle, after.
  The premium oracle (\<open>engines/oracle\<close>) prices the inputs of a policy with a package and leaves a
  trace.  The semantic diff (\<open>engines/diff\<close>) compares two packages; the impact analysis
  (\<open>engines/impact\<close>) turns its findings into affected nodes and predicates over policies; the portfolio
  analyzer (\<open>engines/portfolio\<close>) reprices the policies these select with both packages, and the
  reconciliation (\<open>engines/reconciliation\<close>) compares the two prices and traces and names a root cause.
  Test planning (\<open>engines/testing\<close>) turns a package and the predicates into scenarios, which the assurance
  run reconciles one by one.
  A portfolio scan (\<open>impact\<close>) does the same against a live rating engine, in leased batches with a
  checkpoint store, a circuit breaker, an aggregation and a coordinator.  A mission (\<open>storage\<close>,
  \<open>services\<close>, \<open>api/missions.py\<close>, \<open>messaging\<close>, \<open>agents/supervisor.py\<close>) is one such assurance run: a
  record in a shared store that endpoints and workers change.  A rate limiter (\<open>ratelimit\<close>) and
  startup checks (\<open>core\<close>) stand in front.

  How Python is modelled.  An exception is the left side of \<open>exn + 'a\<close> (type \<open>'a res\<close>), \<open>rbind\<close> is
  sequencing, and \<open>rfold\<close>, \<open>rmap_list\<close> and \<open>rall\<close> are the loops that may raise (theory Prelude).  A dict
  is an association list in insertion order (\<open>dset\<close> replaces in place or appends, \<open>dget\<close> looks up), a
  set that is sorted before use is \<open>sorted_set\<close>, and the order in which a set is iterated, where it is not
  sorted, is an argument.  An unbounded int is \<open>int\<close>; Decimal is \<open>Dec sign coefficient exponent\<close> with
  the default context of 28 digits (theory PyDecimal: rounding, division, quantize, and the rational
  \<open>dval\<close> it stands for); strings of numbers and their parsing are in theory PyText, the values of the
  engine (\<open>pyval\<close>) and their comparison in theory PyValue.

  The theories, by part (each opens with the files and functions it models):
  \<^item> \<open>ipir\<close>: Ipir (records, validators, \<open>construct_package\<close>), IpirLaws (validated packages are well
    formed and validate to themselves; what the range coverage check excludes).
  \<^item> \<open>engines/oracle\<close>: OracleEval (expressions, conditions, table lookup, rounding), OraclePackage
    (\<open>evaluate_package\<close>: inputs, dates, ordering, the three kinds of adjustment, the trace), OracleLaws
    (order of execution, completeness of the trace, which adjustments are applied, constraints, inputs, dates).
    \<open>networkx.topological_sort\<close> is the argument \<open>topo\<close>; locale \<open>topological_sorter\<close> states what it
    documents, and Kahn's algorithm interprets it.
  \<^item> \<open>ipir/v0_2\<close>: IpirV2, IpirLowering, IpirLoweringLaws, IpirV2Theorems, IpirV2Samples (validation,
    compatibility gate, lowering; the lowered package prices by the equations of the original).
  \<^item> \<open>engines/diff\<close>: SemanticDiff, SemanticDiffLaws (what "semantically equal" means, what exchanging the
    sides changes, the one way it fails).
  \<^item> \<open>engines/impact\<close>: DependencyImpact (graph, predicates, analyzer).  networkx is the argument \<open>nx\<close>.
  \<^item> \<open>engines/reconciliation\<close>: Reconciliation, ReconciliationLaws (root cause, exactness of the impact
    analysis; locale \<open>digraph_library\<close> states what networkx documents, and \<open>graph_tools\<close> interprets it).
  \<^item> \<open>engines/portfolio\<close>: Portfolio (policies, consumer-protection analytics), PortfolioExposure (predicate
    evaluation, repricing, the exposure analyzer), ExposureLaws (changed rates expose every policy they
    reprice; the count of affected policies is exact), ExposureSamples (its witnesses, and a root cause that
    names the wrong row).
  \<^item> \<open>engines/testing\<close>: TestPlanning (\<open>package_probes.py\<close>: probes of a package that the oracle prices),
    TestCandidates (\<open>candidate_generator.py\<close>, \<open>optimizer.py\<close>, \<open>planner.py\<close>, and the assurance run of
    \<open>engines/reconciliation/runner.py\<close>; the optimizer changes the candidates it is given, so it works on
    their positions), TestPlanLaws and TestPlanSamples (probes are executable, the plan keeps its budget).
  \<^item> \<open>ingestion/workbook_v1\<close>: WorkbookCells (\<open>sheets.py\<close>, \<open>sanitize.py\<close>, \<open>formulas.py\<close>, JSON), WorkbookSafety
    (\<open>zip_safety.py\<close>, \<open>limits.py\<close>), WorkbookMapping (\<open>mapping.py\<close>), WorkbookCompiler (\<open>compiler.py\<close>),
    WorkbookConditions (the language of IF conditions, printed and read back), WorkbookLaws (what a
    verified receipt says, what an opened upload cannot contain, compiled packages are lowered),
    WorkbookSamples (a workbook compiled from its cells to a verified receipt; malformed cells).  The record
    \<open>platform\<close> holds what the compiler takes from libraries and from the process.
  \<^item> \<open>impact\<close>: RuntimeConfig (with \<open>core/runtime_config.py\<close>, \<open>impact/config.py\<close>), ImpactModels, ImpactStore,
    ImpactStoreLaws, ImpactContract (the in-memory and the Firestore checkpoint store, their refinement, and
    the contract over all histories: fencing, immutability, attempts, tenants; the operations that Firestore
    makes of several calls without a transaction, \<open>update_job\<close> and \<open>ensure_batches\<close>, are single steps here, and
    \<open>find_jobs_for_mission\<close>, which changes nothing, is a query on the state a history leaves), ImpactProcessor,
    ImpactProcessorLaws (one batch: classes of failure, retry passes, breaker, accounting of rows),
    ImpactAggregation (the verdict over all batches), ImpactCoordination (planning and the polling loop).
  \<^item> missions: MissionModels, MissionStore, MissionLifecycle (records, policy, stores with failing requests,
    endpoints and workers as programs of atomic calls), MissionInvariants, MissionTheorems, MissionRaces
    (what no interleaving breaks, and concrete interleavings that break what the code means to promise).
  \<^item> \<open>ratelimit\<close>: RateLimit, RateLimitLaws (policies, the two limiters, interleaved hits with failing calls).

  Parameters, bounds and fuel.  \<open>digest\<close> is SHA-256 where a key is hashed, with injectivity as a named
  hypothesis where a theorem needs it; \<open>json_size\<close>, \<open>fingerprint\<close>, clocks and random jitter are arguments.
  A polling loop runs on a list of the answers it gets, one for each poll, so its length is its fuel, and
  \<open>polling_ends\<close> bounds the polls by the time budget.  A mission is a tree of atomic calls that a scheduler
  interleaves; the body of a run is a list of steps.  Percentages that the code rounds as floats are exact
  rationals.

  The reader of JSON has fuel of three times the length of its text and three more: of two nested calls at
  least one consumes a character.

  Not modelled: HTTP, the reading of ZIP, XML and spreadsheet files, token verification, cloud clients,
  logging and telemetry (calls of libraries that are not part of the repository); the connector to a live
  rating engine apart from its error classes; the language-model advisers; the demonstration data and
  scripts; the web client.  PROJECT.json lists every component with its status.
\<close>

end
